(* ===== verification/Prelude.thy ===== *)
theory Prelude
  imports Main "HOL-Library.Word" "HOL-Library.List_Lexorder"
begin

text \<open>
  Shared vocabulary of the development: Rust's unsigned integers as machine words, byte
  strings as lists of octets with their big-endian reading, the checked arithmetic of the
  standard library, slices and \<open>copy_from_slice\<close>, and \<open>Result\<close> as a sum whose left
  summand is the error. The lemma collections \<open>be_simps\<close> (byte strings),
  \<open>chk_simps\<close> (checked arithmetic) and \<open>res_simps\<close> (error propagation) carry the
  component proofs.
\<close>

section \<open>Types\<close>

type_synonym u8 = "8 word"
type_synonym u16 = "16 word"
type_synonym u32 = "32 word"
type_synonym u64 = "64 word"
type_synonym u128 = "128 word"
type_synonym bytes32 = "u8 list"
type_synonym address = "u8 list"
type_synonym ('e, 'a) result = "'e + 'a"

named_theorems be_simps "big-endian byte strings"
named_theorems chk_simps "checked arithmetic"
named_theorems res_simps "error propagation"

section \<open>Error propagation\<close>

text \<open>The \<open>?\<close> operator, \<open>ok_or\<close> and \<open>map_err\<close> of Rust's \<open>Result\<close>.\<close>

definition and_then :: "('e, 'a) result \<Rightarrow> ('a \<Rightarrow> ('e, 'b) result) \<Rightarrow> ('e, 'b) result" where
  "and_then r f = (case r of Inl e \<Rightarrow> Inl e | Inr x \<Rightarrow> f x)"

definition ok_or :: "'e \<Rightarrow> 'a option \<Rightarrow> ('e, 'a) result" where
  "ok_or e x = (case x of None \<Rightarrow> Inl e | Some y \<Rightarrow> Inr y)"

definition map_err :: "('e \<Rightarrow> 'f) \<Rightarrow> ('e, 'a) result \<Rightarrow> ('f, 'a) result" where
  "map_err g r = (case r of Inl e \<Rightarrow> Inl (g e) | Inr x \<Rightarrow> Inr x)"

definition is_ok :: "('e, 'a) result \<Rightarrow> bool" where
  "is_ok r = (case r of Inl _ \<Rightarrow> False | Inr _ \<Rightarrow> True)"

lemma and_then_Inr [simp, res_simps]: "and_then (Inr x) f = f x"
  and and_then_Inl [simp, res_simps]: "and_then (Inl e) f = Inl e"
  by (simp_all add: and_then_def)

lemma and_then_eq_Inr [res_simps]: "and_then r f = Inr y \<longleftrightarrow> (\<exists>x. r = Inr x \<and> f x = Inr y)"
  by (cases r) auto

lemma ok_or_simps [simp, res_simps]: "ok_or e None = Inl e" "ok_or e (Some y) = Inr y"
  by (simp_all add: ok_or_def)

lemma ok_or_eq_Inr [res_simps]: "ok_or e x = Inr y \<longleftrightarrow> x = Some y"
  by (cases x) auto

lemma map_err_simps [simp, res_simps]:
  "map_err g (Inl e) = Inl (g e)" "map_err g (Inr x) = Inr x"
  by (simp_all add: map_err_def)

lemma map_err_eq_Inr [res_simps]: "map_err g r = Inr y \<longleftrightarrow> r = Inr y"
  by (cases r) auto

lemma is_ok_simps [simp, res_simps]: "is_ok (Inr x)" "\<not> is_ok (Inl e)"
  by (simp_all add: is_ok_def)

lemma is_ok_iff [res_simps]: "is_ok r \<longleftrightarrow> (\<exists>x. r = Inr x)"
  by (cases r) auto

text \<open>A \<open>for\<close> loop whose body may return early with an error.\<close>

fun try_fold :: "('s \<Rightarrow> 'a \<Rightarrow> ('e, 's) result) \<Rightarrow> 's \<Rightarrow> 'a list \<Rightarrow> ('e, 's) result" where
  "try_fold f s [] = Inr s"
| "try_fold f s (x # xs) = and_then (f s x) (\<lambda>s'. try_fold f s' xs)"

lemma try_fold_append [res_simps]:
  "try_fold f s (xs @ ys) = and_then (try_fold f s xs) (\<lambda>s'. try_fold f s' ys)"
proof (induction xs arbitrary: s)
  case (Cons x xs)
  then show ?case by (cases "f s x") simp_all
qed simp

lemma try_fold_invariant:
  assumes "try_fold f s xs = Inr s'" and "P s"
    and "\<And>s x s'. x \<in> set xs \<Longrightarrow> P s \<Longrightarrow> f s x = Inr s' \<Longrightarrow> P s'"
  shows "P s'"
  using assms
proof (induction xs arbitrary: s)
  case (Cons x xs)
  from Cons.prems(1) obtain t where t: "f s x = Inr t" "try_fold f t xs = Inr s'"
    by (auto simp: and_then_eq_Inr)
  with Cons.prems have "P t" by auto
  with t Cons show ?case by auto
qed simp

lemma try_fold_unit:
  "try_fold f () xs = Inr () \<longleftrightarrow> (\<forall>x \<in> set xs. f () x = Inr ())"
  by (induction xs) (auto simp: and_then_eq_Inr)

text \<open>Mapping a fallible function, stopping at the first error.\<close>

fun try_map :: "('a \<Rightarrow> ('e, 'b) result) \<Rightarrow> 'a list \<Rightarrow> ('e, 'b list) result" where
  "try_map f [] = Inr []"
| "try_map f (x # xs) = and_then (f x) (\<lambda>y. and_then (try_map f xs) (\<lambda>ys. Inr (y # ys)))"

lemma try_map_eq_Inr [res_simps]:
  "try_map f xs = Inr ys \<longleftrightarrow> list_all2 (\<lambda>x y. f x = Inr y) xs ys"
  by (induction xs arbitrary: ys) (auto simp: and_then_eq_Inr list_all2_Cons1)

lemma try_map_total:
  "(\<And>x. x \<in> set xs \<Longrightarrow> \<exists>y. f x = Inr y) \<Longrightarrow> \<exists>ys. try_map f xs = Inr ys \<and> length ys = length xs"
proof (induction xs)
  case (Cons x xs)
  obtain y where "f x = Inr y" using Cons.prems [of x] by auto
  moreover obtain ys where "try_map f xs = Inr ys" "length ys = length xs" using Cons by auto
  ultimately show ?case by simp
qed simp

section \<open>Checked arithmetic\<close>

definition checked_add :: "'a::len word \<Rightarrow> 'a word \<Rightarrow> 'a word option" where
  "checked_add x y = (if unat x + unat y < 2 ^ LENGTH('a) then Some (x + y) else None)"

definition checked_mul :: "'a::len word \<Rightarrow> 'a word \<Rightarrow> 'a word option" where
  "checked_mul x y = (if unat x * unat y < 2 ^ LENGTH('a) then Some (x * y) else None)"

definition checked_sub :: "'a::len word \<Rightarrow> 'a word \<Rightarrow> 'a word option" where
  "checked_sub x y = (if y \<le> x then Some (x - y) else None)"

lemma checked_add_SomeD [chk_simps]:
  "checked_add x y = Some z \<Longrightarrow> unat z = unat x + unat y"
  by (auto simp: checked_add_def unat_word_ariths split: if_splits)

lemma checked_mul_SomeD [chk_simps]:
  "checked_mul x y = Some z \<Longrightarrow> unat z = unat x * unat y"
  by (auto simp: checked_mul_def unat_word_ariths split: if_splits)

lemma checked_sub_SomeD [chk_simps]:
  "checked_sub x y = Some z \<Longrightarrow> unat z = unat x - unat y \<and> y \<le> x"
  by (auto simp: checked_sub_def unat_sub split: if_splits)

lemma checked_add_Some_iff:
  "checked_add (x :: 'a::len word) y = Some z \<longleftrightarrow>
     unat x + unat y < 2 ^ LENGTH('a) \<and> z = x + y"
  by (auto simp: checked_add_def)

lemma unat_bound: "unat (w :: 'a::len word) < 2 ^ LENGTH('a)"
  by (rule unsigned_less)

lemma unat_of_nat_small [simp, chk_simps]:
  "n < 2 ^ LENGTH('a) \<Longrightarrow> unat (word_of_nat n :: 'a::len word) = n"
  by (simp add: unat_of_nat take_bit_nat_eq_self)

section \<open>Byte strings\<close>

primrec be_bytes :: "nat \<Rightarrow> nat \<Rightarrow> u8 list" where
  "be_bytes 0 n = []"
| "be_bytes (Suc k) n = be_bytes k (n div 256) @ [word_of_nat n]"

primrec be_nat :: "u8 list \<Rightarrow> nat" where
  "be_nat [] = 0"
| "be_nat (b # bs) = unat b * 256 ^ length bs + be_nat bs"

lemma length_be_bytes [simp, be_simps]: "length (be_bytes k n) = k"
  by (induction k arbitrary: n) auto

lemma be_nat_append [be_simps]: "be_nat (xs @ ys) = be_nat xs * 256 ^ length ys + be_nat ys"
  by (induction xs) (auto simp: power_add algebra_simps)

lemma unat_u8_of_nat: "unat (word_of_nat n :: u8) = n mod 256"
  by (simp add: unat_of_nat take_bit_eq_mod)

lemma be_nat_be_bytes [simp, be_simps]: "be_nat (be_bytes k n) = n mod 256 ^ k"
proof (induction k arbitrary: n)
  case (Suc k)
  have "be_nat (be_bytes (Suc k) n) = (n div 256 mod 256 ^ k) * 256 + n mod 256"
    using Suc by (simp add: be_nat_append unat_u8_of_nat)
  also have "\<dots> = n mod (256 * 256 ^ k)"
    by (simp add: mod_mult2_eq)
  finally show ?case by simp
qed simp

lemma be_nat_less [simp, be_simps]: "be_nat bs < 256 ^ length bs"
proof (induction bs)
  case (Cons b bs)
  have "unat b + 1 \<le> 256" using unat_bound [of b] by simp
  then have "(unat b + 1) * 256 ^ length bs \<le> 256 * 256 ^ length bs"
    by (rule mult_right_mono) simp
  moreover have "unat b * 256 ^ length bs + be_nat bs < (unat b + 1) * 256 ^ length bs"
    using Cons by simp
  ultimately have "unat b * 256 ^ length bs + be_nat bs < 256 * 256 ^ length bs"
    by (rule less_le_trans [rotated])
  then show ?case by simp
qed simp

lemma be_nat_eqD: "length xs = length ys \<Longrightarrow> be_nat xs = be_nat ys \<Longrightarrow> xs = ys"
proof (induction xs ys rule: list_induct2)
  case (Cons x xs y ys)
  have lt: "be_nat xs < 256 ^ length xs" "be_nat ys < 256 ^ length xs"
    using be_nat_less [of xs] be_nat_less [of ys] Cons.hyps by auto
  have eq: "unat x * 256 ^ length xs + be_nat xs = unat y * 256 ^ length xs + be_nat ys"
    using Cons.prems Cons.hyps by simp
  then have "(unat x * 256 ^ length xs + be_nat xs) div 256 ^ length xs =
             (unat y * 256 ^ length xs + be_nat ys) div 256 ^ length xs" by simp
  then have "unat x = unat y" using lt by simp
  with eq have "be_nat xs = be_nat ys" by simp
  with Cons.IH \<open>unat x = unat y\<close> show ?case by (simp add: word_unat_eq_iff)
qed simp

lemma be_nat_inject [be_simps]: "length xs = length ys \<Longrightarrow> be_nat xs = be_nat ys \<longleftrightarrow> xs = ys"
  using be_nat_eqD by blast

lemma be_bytes_be_nat [simp, be_simps]: "be_bytes (length bs) (be_nat bs) = bs"
proof (rule be_nat_eqD)
  show "be_nat (be_bytes (length bs) (be_nat bs)) = be_nat bs"
    using be_nat_less [of bs] by simp
qed simp

lemma be_bytes_inject:
  "m < 256 ^ k \<Longrightarrow> n < 256 ^ k \<Longrightarrow> be_bytes k m = be_bytes k n \<longleftrightarrow> m = n"
  by (metis be_nat_be_bytes mod_less)

text \<open>On arrays of one length Rust's byte-wise order is the numeric order.\<close>

lemma less_bytes_iff:
  "length xs = length ys \<Longrightarrow> xs < ys \<longleftrightarrow> be_nat xs < be_nat ys"
proof (induction xs ys rule: list_induct2)
  case (Cons x xs y ys)
  have lt: "be_nat xs < 256 ^ length xs" "be_nat ys < 256 ^ length xs"
    using be_nat_less [of xs] be_nat_less [of ys] Cons.hyps by auto
  consider "x < y" | "x = y" | "y < x" by (rule linorder_cases)
  then show ?case
  proof cases
    case 1
    then have "unat x + 1 \<le> unat y" by (simp add: word_less_nat_alt)
    then have "(unat x + 1) * 256 ^ length xs \<le> unat y * 256 ^ length xs"
      by (rule mult_right_mono) simp
    with 1 lt Cons.hyps show ?thesis by simp
  next
    case 2
    with Cons show ?thesis by simp
  next
    case 3
    then have "unat y + 1 \<le> unat x" by (simp add: word_less_nat_alt)
    then have "(unat y + 1) * 256 ^ length xs \<le> unat x * 256 ^ length xs"
      by (rule mult_right_mono) simp
    with lt have "\<not> unat x * 256 ^ length xs + be_nat xs < unat y * 256 ^ length xs + be_nat ys"
      by simp
    moreover from 3 have "\<not> x < y" "x \<noteq> y" by auto
    ultimately show ?thesis using Cons.hyps by simp
  qed
qed simp

lemma le_bytes_iff:
  "length xs = length ys \<Longrightarrow> xs \<le> ys \<longleftrightarrow> be_nat xs \<le> be_nat ys"
  using less_bytes_iff [of ys xs] by (auto simp: not_less [symmetric])

lemma be_nat_replicate_0 [simp, be_simps]: "be_nat (replicate n 0) = 0"
  by (induction n) auto

lemma all_zero_iff_be_nat: "list_all (\<lambda>b. b = 0) bs \<longleftrightarrow> be_nat bs = 0"
  by (induction bs) (auto simp: unat_eq_0)

lemma be_nat_zero_prefix:
  "list_all (\<lambda>b. b = 0) (take k bs) \<Longrightarrow> be_nat bs = be_nat (drop k bs)"
  by (subst append_take_drop_id [symmetric, of bs k], subst be_nat_append)
     (simp add: all_zero_iff_be_nat)

text \<open>\<open>to_be_bytes\<close> and \<open>from_be_bytes\<close> of the unsigned integers.\<close>

definition u16_to_be :: "u16 \<Rightarrow> u8 list" where
  "u16_to_be w = be_bytes 2 (unat w)"

definition u32_to_be :: "u32 \<Rightarrow> u8 list" where
  "u32_to_be w = be_bytes 4 (unat w)"

definition u64_to_be :: "u64 \<Rightarrow> u8 list" where
  "u64_to_be w = be_bytes 8 (unat w)"

definition u128_to_be :: "u128 \<Rightarrow> u8 list" where
  "u128_to_be w = be_bytes 16 (unat w)"

definition from_be :: "u8 list \<Rightarrow> 'a::len word" where
  "from_be bs = word_of_nat (be_nat bs)"

lemma length_to_be [simp, be_simps]:
  "length (u16_to_be a) = 2" "length (u32_to_be b) = 4"
  "length (u64_to_be c) = 8" "length (u128_to_be d) = 16"
  by (simp_all add: u16_to_be_def u32_to_be_def u64_to_be_def u128_to_be_def)

lemma be_nat_to_be [simp, be_simps]:
  "be_nat (u16_to_be a) = unat a" "be_nat (u32_to_be b) = unat b"
  "be_nat (u64_to_be c) = unat c" "be_nat (u128_to_be d) = unat d"
  using unat_bound [of a] unat_bound [of b]
    unat_bound [of c] unat_bound [of d]
  by (simp_all add: u16_to_be_def u32_to_be_def u64_to_be_def u128_to_be_def)

lemma from_be_to_be [simp, be_simps]:
  "from_be (u16_to_be a) = a" "from_be (u32_to_be b) = b"
  "from_be (u64_to_be c) = c" "from_be (u128_to_be d) = d"
  by (simp_all add: from_be_def)

lemma to_be_from_be [be_simps]:
  "length xs = 2 \<Longrightarrow> u16_to_be (from_be xs) = xs"
  "length ys = 8 \<Longrightarrow> u64_to_be (from_be ys) = ys"
  using be_nat_less [of xs] be_nat_less [of ys]
  by (auto simp: u16_to_be_def u64_to_be_def from_be_def intro!: be_nat_eqD)

section \<open>Slices\<close>

text \<open>\<open>xs[a..b]\<close>, and \<open>dst[off..off + src.len()].copy_from_slice(src)\<close>.\<close>

definition slice :: "nat \<Rightarrow> nat \<Rightarrow> 'a list \<Rightarrow> 'a list" where
  "slice a b xs = take (b - a) (drop a xs)"

definition copy_at :: "nat \<Rightarrow> 'a list \<Rightarrow> 'a list \<Rightarrow> 'a list" where
  "copy_at off src dst = take off dst @ src @ drop (off + length src) dst"

definition zeros :: "nat \<Rightarrow> u8 list" where
  "zeros n = replicate n 0"

lemma length_zeros [simp, be_simps]: "length (zeros n) = n"
  and be_nat_zeros [simp, be_simps]: "be_nat (zeros n) = 0"
  and take_zeros [simp, be_simps]: "take m (zeros n) = zeros (min m n)"
  and drop_zeros [simp, be_simps]: "drop m (zeros n) = zeros (n - m)"
  and zeros_append [simp]: "zeros a @ zeros b = zeros (a + b)"
  and zeros_0 [simp]: "zeros 0 = []"
  by (simp_all add: zeros_def replicate_add)

lemma length_slice [simp]: "length (slice a b xs) = min (b - a) (length xs - a)"
  by (simp add: slice_def)

lemma length_copy_at [simp]:
  "off + length src \<le> length dst \<Longrightarrow> length (copy_at off src dst) = length dst"
  by (simp add: copy_at_def)

lemma slice_copy_at [simp]:
  "off + length src \<le> length dst \<Longrightarrow>
   slice off (off + length src) (copy_at off src dst) = src"
  by (simp add: slice_def copy_at_def)

lemma list_all_zero_zeros [simp]: "list_all (\<lambda>b. b = 0) (zeros n)"
  by (simp add: zeros_def list_all_iff)

lemma list_all_zero_iff: "list_all (\<lambda>b. b = (0 :: u8)) bs \<longleftrightarrow> bs = zeros (length bs)"
  by (induction bs) (auto simp: zeros_def)

lemma take_1_drop: "i < length xs \<Longrightarrow> take (Suc 0) (drop i xs) = [xs ! i]"
  by (simp add: take_Suc hd_drop_conv_nth)

lemma take_2_drop: "Suc i < length xs \<Longrightarrow> take 2 (drop i xs) = [xs ! i, xs ! Suc i]"
  using Cons_nth_drop_Suc [of i xs, symmetric] Cons_nth_drop_Suc [of "Suc i" xs, symmetric]
  by (simp add: numeral_2_eq_2)

lemma unat_ucast_u16_u64 [simp]: "unat (ucast (c :: u16) :: u64) = unat c"
  using unat_bound [of c] by (simp add: unsigned_ucast_eq take_bit_nat_eq_self)

section \<open>Enumerated sequences\<close>

text \<open>\<open>iter().enumerate()\<close>.\<close>

definition enumerated :: "'a list \<Rightarrow> (nat \<times> 'a) list" where
  "enumerated xs = zip [0..<length xs] xs"

lemma set_enumerated: "(i, x) \<in> set (enumerated xs) \<longleftrightarrow> i < length xs \<and> x = xs ! i"
  by (force simp: enumerated_def set_zip)

lemma length_enumerated [simp]: "length (enumerated xs) = length xs"
  by (simp add: enumerated_def)

text \<open>\<open>windows(2).all(|w| w[0] < w[1])\<close>: strictly increasing.\<close>

fun strictly_increasing :: "'a::linorder list \<Rightarrow> bool" where
  "strictly_increasing (x # y # zs) \<longleftrightarrow> x < y \<and> strictly_increasing (y # zs)"
| "strictly_increasing _ \<longleftrightarrow> True"

lemma strictly_increasing_iff: "strictly_increasing xs \<longleftrightarrow> sorted_wrt (<) xs"
proof (induction xs rule: strictly_increasing.induct)
  case (1 x y zs)
  then show ?case by auto (meson less_trans)
qed auto

end
