(* ===== verification/Poseidon.thy ===== *)
theory Poseidon
  imports Prelude
begin

text \<open>
  \<open>src/poseidon.rs\<close> and the constants of \<open>src/lib.rs\<close>.

  The scalar field (crates ark-bn254 and ark-ff), the Poseidon permutation parameters and
  fixed-width hash (crate light-poseidon), SHA-256 and Keccak-256 (crates sha2 and sha3) are
  not part of the repository: they are the fields of the record \<open>prims\<close>, an argument of
  every definition that uses them. What the code relies on is stated by \<open>field_laws\<close> and
  \<open>digest_laws\<close>: encoding a scalar and reading it back is the identity, reading reduces
  modulo the field order, the order exceeds \<open>2 ^ 248\<close>, scalars compare as integers, and
  digests have 32 bytes. No theorem of the development assumes that a hash function is
  injective: a statement about binding ends in an explicit collision instead.
\<close>

section \<open>Constants\<close>

definition FSRT_DEPTH :: nat where "FSRT_DEPTH = 24"
definition FSRT_SLOT_COUNT :: u32 where "FSRT_SLOT_COUNT = 2 ^ 24"
definition BATCH_SIZE_MAX :: nat where "BATCH_SIZE_MAX = 6"
definition RECORDS_PER_BLOB :: nat where "RECORDS_PER_BLOB = 1000"
definition ATTR_COUNT :: nat where "ATTR_COUNT = 4"
definition PREDICATE_OP_MAX :: nat where "PREDICATE_OP_MAX = 20"
definition PREDICATE_TUPLE_MAX :: nat where "PREDICATE_TUPLE_MAX = 20"
definition PREDICATE_BYTES_MAX :: nat where "PREDICATE_BYTES_MAX = 1024"
definition RECORD_LEN :: nat where "RECORD_LEN = 96"
definition BLOCKS_PER_DAY :: u64 where "BLOCKS_PER_DAY = 24 * 60 * 60 div 12"
definition MAX_SIGNING_WINDOW_BLOCKS :: u64 where
  "MAX_SIGNING_WINDOW_BLOCKS = 11 * BLOCKS_PER_DAY + BLOCKS_PER_DAY div 2"
definition COOLDOWN_BLOCKS :: u64 where "COOLDOWN_BLOCKS = 2 * 60 * 60 div 12"
definition RESOLUTION_DEADLINE_BLOCKS :: u64 where
  "RESOLUTION_DEADLINE_BLOCKS = 14 * BLOCKS_PER_DAY"
definition MARK_UNRESOLVED_GRACE_BLOCKS :: u64 where "MARK_UNRESOLVED_GRACE_BLOCKS = 300"
definition MIN_R_AGE_BLOCKS :: u64 where "MIN_R_AGE_BLOCKS = 30 * BLOCKS_PER_DAY"
definition IMT_DEPTH :: nat where "IMT_DEPTH = 24"
definition RESOLUTION_CLASS_MAX :: nat where "RESOLUTION_CLASS_MAX = 16"
definition MAX_CLASS_SET_LEN :: nat where "MAX_CLASS_SET_LEN = 16"

definition ascii :: "string \<Rightarrow> u8 list" where
  "ascii s = map (\<lambda>c. word_of_nat (of_char c)) s"

definition DOMAIN_PETITION :: "u8 list" where
  "DOMAIN_PETITION = ascii ''RCP/petition_id/v1''"

lemma block_constants [simp]:
  "BLOCKS_PER_DAY = 7200" "MAX_SIGNING_WINDOW_BLOCKS = 82800" "COOLDOWN_BLOCKS = 600"
  "RESOLUTION_DEADLINE_BLOCKS = 100800" "MIN_R_AGE_BLOCKS = 216000"
  by (simp_all add: BLOCKS_PER_DAY_def MAX_SIGNING_WINDOW_BLOCKS_def COOLDOWN_BLOCKS_def
      RESOLUTION_DEADLINE_BLOCKS_def MIN_R_AGE_BLOCKS_def)

section \<open>External primitives\<close>

record 'fr poseidon_params =
  pp_ark :: "'fr list"
  pp_mds :: "'fr list list"
  pp_full_rounds :: nat
  pp_partial_rounds :: nat
  pp_alpha :: u64

record 'fr prims =
  fr_modulus :: nat
  from_be_bytes_mod_order :: "u8 list \<Rightarrow> 'fr"
  to_bytes_be :: "'fr \<Rightarrow> u8 list"
  fr_of :: "u64 \<Rightarrow> 'fr"
  fr_less :: "'fr \<Rightarrow> 'fr \<Rightarrow> bool"
  fr_add :: "'fr \<Rightarrow> 'fr \<Rightarrow> 'fr"
  fr_mul :: "'fr \<Rightarrow> 'fr \<Rightarrow> 'fr"
  fr_pow :: "'fr \<Rightarrow> u64 \<Rightarrow> 'fr"
  poseidon_circom :: "'fr list \<Rightarrow> 'fr"
  t5_params :: "'fr poseidon_params"
  sha256 :: "u8 list \<Rightarrow> u8 list"
  keccak256 :: "u8 list \<Rightarrow> u8 list"

definition field_laws :: "'fr prims \<Rightarrow> bool" where
  "field_laws E \<longleftrightarrow>
     (\<forall>x. length (to_bytes_be E x) = 32) \<and>
     (\<forall>x. from_be_bytes_mod_order E (to_bytes_be E x) = x) \<and>
     (\<forall>bs. be_nat (to_bytes_be E (from_be_bytes_mod_order E bs)) = be_nat bs mod fr_modulus E) \<and>
     2 ^ 248 \<le> fr_modulus E \<and>
     (\<forall>n. fr_of E n = from_be_bytes_mod_order E (u64_to_be n)) \<and>
     (\<forall>x y. fr_less E x y \<longleftrightarrow> be_nat (to_bytes_be E x) < be_nat (to_bytes_be E y)) \<and>
     (\<forall>x. fr_add E (fr_of E 0) x = x)"

definition digest_laws :: "'fr prims \<Rightarrow> bool" where
  "digest_laws E \<longleftrightarrow>
     (\<forall>m. length (sha256 E m) = 32) \<and> (\<forall>m. length (keccak256 E m) = 32)"

section \<open>Scalars and bytes\<close>

definition fr_from_be_bytes :: "'fr prims \<Rightarrow> u8 list \<Rightarrow> 'fr" where
  "fr_from_be_bytes E bs = from_be_bytes_mod_order E bs"

definition fr_to_be_bytes :: "'fr prims \<Rightarrow> 'fr \<Rightarrow> bytes32" where
  "fr_to_be_bytes E x =
     (let be = to_bytes_be E x in copy_at (32 - length be) be (zeros 32))"

section \<open>Fixed-width Poseidon\<close>

definition poseidon2 :: "'fr prims \<Rightarrow> 'fr \<Rightarrow> 'fr \<Rightarrow> 'fr" where
  "poseidon2 E a b = poseidon_circom E [a, b]"

definition poseidon3 :: "'fr prims \<Rightarrow> 'fr \<Rightarrow> 'fr \<Rightarrow> 'fr \<Rightarrow> 'fr" where
  "poseidon3 E a b c = poseidon_circom E [a, b, c]"

definition poseidon4 :: "'fr prims \<Rightarrow> 'fr \<Rightarrow> 'fr \<Rightarrow> 'fr \<Rightarrow> 'fr \<Rightarrow> 'fr" where
  "poseidon4 E a b c d = poseidon_circom E [a, b, c, d]"

definition poseidon5 :: "'fr prims \<Rightarrow> 'fr list \<Rightarrow> 'fr" where
  "poseidon5 E xs = poseidon_circom E xs"

text \<open>\<open>None\<close> is the panic of the width assertion.\<close>

definition poseidon_n :: "'fr prims \<Rightarrow> 'fr list \<Rightarrow> 'fr option" where
  "poseidon_n E xs =
     (if 2 \<le> length xs \<and> length xs \<le> 12 then Some (poseidon_circom E xs) else None)"

section \<open>The width-5 permutation\<close>

definition add_ark_t5 :: "'fr prims \<Rightarrow> nat \<Rightarrow> 'fr list \<Rightarrow> 'fr list" where
  "add_ark_t5 E r st =
     map (\<lambda>i. fr_add E (st ! i) (pp_ark (t5_params E) ! (r * 5 + i))) [0..<5]"

definition apply_mds_t5 :: "'fr prims \<Rightarrow> 'fr list \<Rightarrow> 'fr list list \<Rightarrow> 'fr list" where
  "apply_mds_t5 E st mds =
     map (\<lambda>i. fold (\<lambda>j acc. fr_add E acc (fr_mul E (st ! j) (mds ! i ! j))) [0..<5] (fr_of E 0))
       [0..<5]"

definition full_round_t5 :: "'fr prims \<Rightarrow> nat \<Rightarrow> 'fr list \<Rightarrow> 'fr list" where
  "full_round_t5 E r st =
     (let st1 = add_ark_t5 E r st;
          st2 = map (\<lambda>s. fr_pow E s (pp_alpha (t5_params E))) st1
      in apply_mds_t5 E st2 (pp_mds (t5_params E)))"

definition partial_round_t5 :: "'fr prims \<Rightarrow> nat \<Rightarrow> 'fr list \<Rightarrow> 'fr list" where
  "partial_round_t5 E r st =
     (let st1 = add_ark_t5 E r st;
          st2 = st1[0 := fr_pow E (st1 ! 0) (pp_alpha (t5_params E))]
      in apply_mds_t5 E st2 (pp_mds (t5_params E)))"

definition permute_t5 :: "'fr prims \<Rightarrow> 'fr list \<Rightarrow> 'fr list" where
  "permute_t5 E st =
     (let half = pp_full_rounds (t5_params E) div 2;
          mid = half + pp_partial_rounds (t5_params E);
          total = pp_full_rounds (t5_params E) + pp_partial_rounds (t5_params E);
          st1 = fold (full_round_t5 E) [0..<half] st;
          st2 = fold (partial_round_t5 E) [half..<mid] st1
      in fold (full_round_t5 E) [mid..<total] st2)"

section \<open>The sponge\<close>

definition with_domain :: "'fr prims \<Rightarrow> 'fr \<Rightarrow> 'fr list" where
  "with_domain E domain = [domain, fr_of E 0, fr_of E 0, fr_of E 0, fr_of E 0]"

function pad_rate :: "'fr prims \<Rightarrow> 'fr list \<Rightarrow> 'fr list" where
  "pad_rate E xs = (if length xs mod 4 = 0 then xs else pad_rate E (xs @ [fr_of E 0]))"
  by pat_completeness auto
termination
  by (relation "measure (\<lambda>(E, xs). (4 - length xs mod 4) mod 4)")
     (auto simp: mod_Suc)

declare pad_rate.simps [simp del]

definition absorb_block :: "'fr prims \<Rightarrow> 'fr list \<Rightarrow> 'fr list \<Rightarrow> 'fr list" where
  "absorb_block E st chunk =
     permute_t5 E
       (fold (\<lambda>(i, x) s. s[i + 1 := fr_add E (s ! (i + 1)) x]) (enumerated chunk) st)"

fun absorb_blocks :: "'fr prims \<Rightarrow> 'fr list \<Rightarrow> 'fr list \<Rightarrow> 'fr list" where
  "absorb_blocks E st [] = st"
| "absorb_blocks E st (x # xs) =
     absorb_blocks E (absorb_block E st (take 4 (x # xs))) (drop 4 (x # xs))"

definition absorb :: "'fr prims \<Rightarrow> 'fr list \<Rightarrow> 'fr list \<Rightarrow> 'fr list" where
  "absorb E st message = absorb_blocks E st (pad_rate E (message @ [fr_of E 0x80]))"

function squeeze_loop :: "'fr prims \<Rightarrow> 'fr list \<Rightarrow> nat \<Rightarrow> 'fr list \<Rightarrow> 'fr list \<times> 'fr list" where
  "squeeze_loop E st n out =
     (if length out < n then
        (let out' = out @ take (n - length out) (map (\<lambda>i. st ! (i + 1)) [0..<4])
         in if length out' < n then squeeze_loop E (permute_t5 E st) n out' else (out', st))
      else (out, st))"
  by pat_completeness auto
termination
  by (relation "measure (\<lambda>(E, st, n, out). n - length out)") auto

declare squeeze_loop.simps [simp del]

definition squeeze :: "'fr prims \<Rightarrow> 'fr list \<Rightarrow> nat \<Rightarrow> 'fr list \<times> 'fr list" where
  "squeeze E st n = squeeze_loop E st n []"

section \<open>Domain-separated hashes\<close>

definition domain_nullifier :: "'fr prims \<Rightarrow> 'fr" where "domain_nullifier E = fr_of E 1"
definition domain_identity_tag :: "'fr prims \<Rightarrow> 'fr" where "domain_identity_tag E = fr_of E 2"
definition domain_leaf :: "'fr prims \<Rightarrow> 'fr" where "domain_leaf E = fr_of E 3"
definition domain_fsrt_prg :: "'fr prims \<Rightarrow> 'fr" where "domain_fsrt_prg E = fr_of E 4"
definition domain_predicate :: "'fr prims \<Rightarrow> 'fr" where "domain_predicate E = fr_of E 5"
definition domain_attr :: "'fr prims \<Rightarrow> 'fr" where "domain_attr E = fr_of E 6"
definition domain_batch_snark :: "'fr prims \<Rightarrow> 'fr" where "domain_batch_snark E = fr_of E 7"
definition domain_petition :: "'fr prims \<Rightarrow> 'fr" where "domain_petition E = fr_of E 8"
definition domain_resolution_snark :: "'fr prims \<Rightarrow> 'fr" where
  "domain_resolution_snark E = fr_of E 9"

definition hash_nullifier :: "'fr prims \<Rightarrow> 'fr \<Rightarrow> 'fr \<Rightarrow> 'fr \<Rightarrow> 'fr \<Rightarrow> 'fr \<Rightarrow> 'fr option" where
  "hash_nullifier E v_slot petition_id class_index class_tag identity_secret =
     poseidon_n E
       [domain_nullifier E, v_slot, petition_id, class_index, class_tag, identity_secret]"

definition hash_identity_tag :: "'fr prims \<Rightarrow> 'fr \<Rightarrow> 'fr \<Rightarrow> 'fr" where
  "hash_identity_tag E v_slot petition_id = poseidon3 E (domain_identity_tag E) v_slot petition_id"

definition hash_leaf :: "'fr prims \<Rightarrow> 'fr \<Rightarrow> 'fr \<Rightarrow> 'fr" where
  "hash_leaf E nullifier class_tag = poseidon3 E (domain_leaf E) nullifier class_tag"

definition hash_merkle_node :: "'fr prims \<Rightarrow> 'fr \<Rightarrow> 'fr \<Rightarrow> 'fr" where
  "hash_merkle_node E left right = poseidon2 E left right"

definition hash_attr :: "'fr prims \<Rightarrow> 'fr list \<Rightarrow> 'fr \<Rightarrow> u32 \<Rightarrow> 'fr \<Rightarrow> 'fr option" where
  "hash_attr E attr_vector chain_root attr_version identity_secret =
     (if length attr_vector \<noteq> 4 then None
      else
        (let h1 = poseidon5 E
               [domain_attr E, attr_vector ! 0, attr_vector ! 1, attr_vector ! 2, attr_vector ! 3]
         in Some (poseidon4 E h1 chain_root (fr_of E (ucast attr_version)) identity_secret)))"

definition hash_predicate :: "'fr prims \<Rightarrow> 'fr list \<Rightarrow> 'fr \<Rightarrow> 'fr \<Rightarrow> 'fr" where
  "hash_predicate E canonical petition_id salt =
     (let acc = fold (\<lambda>x acc. poseidon2 E acc x) canonical (domain_predicate E);
          acc = poseidon2 E acc petition_id
      in poseidon2 E acc salt)"

definition fsrt_prg_step :: "'fr prims \<Rightarrow> 'fr \<Rightarrow> 'fr \<times> 'fr" where
  "fsrt_prg_step E s =
     (let st = absorb E (with_domain E (domain_fsrt_prg E)) [s];
          out = fst (squeeze E st 2)
      in (out ! 0, out ! 1))"

definition derive_petition_id ::
    "'fr prims \<Rightarrow> u64 \<Rightarrow> address \<Rightarrow> address \<Rightarrow> u32 \<Rightarrow> bytes32 \<Rightarrow> u64 \<Rightarrow> bytes32" where
  "derive_petition_id E chain_id registry_address organizer s predicate_hash_pre_id close_at_block =
     (let domain = keccak256 E DOMAIN_PETITION;
          out = keccak256 E
            (domain @ u64_to_be chain_id @ registry_address @ organizer @ u32_to_be s
             @ predicate_hash_pre_id @ u64_to_be close_at_block)
      in (copy_at 0 out (zeros 32))[0 := 0])"

section \<open>Facts about scalars\<close>

definition fr_val :: "'fr prims \<Rightarrow> 'fr \<Rightarrow> nat" where
  "fr_val E x = be_nat (fr_to_be_bytes E x)"

named_theorems fr_simps "scalars, their bytes and their integer values"

lemma fr_to_be_bytes_eq [fr_simps]: "field_laws E \<Longrightarrow> fr_to_be_bytes E x = to_bytes_be E x"
  by (simp add: fr_to_be_bytes_def field_laws_def copy_at_def Let_def)

lemma length_fr_to_be_bytes [simp, fr_simps]: "field_laws E \<Longrightarrow> length (fr_to_be_bytes E x) = 32"
  by (simp add: fr_to_be_bytes_eq) (simp add: field_laws_def)

lemma fr_from_to_be_bytes [simp, fr_simps]:
  "field_laws E \<Longrightarrow> fr_from_be_bytes E (fr_to_be_bytes E x) = x"
  by (simp add: fr_to_be_bytes_eq fr_from_be_bytes_def) (simp add: field_laws_def)

lemma fr_to_be_bytes_inject [simp, fr_simps]:
  "field_laws E \<Longrightarrow> fr_to_be_bytes E x = fr_to_be_bytes E y \<longleftrightarrow> x = y"
  by (metis fr_from_to_be_bytes)

lemma fr_val_inject [fr_simps]: "field_laws E \<Longrightarrow> fr_val E x = fr_val E y \<longleftrightarrow> x = y"
  by (simp add: fr_val_def be_nat_inject)

lemma fr_val_from [fr_simps]:
  "field_laws E \<Longrightarrow> fr_val E (fr_from_be_bytes E bs) = be_nat bs mod fr_modulus E"
  by (simp add: fr_val_def fr_to_be_bytes_eq fr_from_be_bytes_def) (simp add: field_laws_def)

lemma fr_from_be_bytes_cong:
  "field_laws E \<Longrightarrow> be_nat a = be_nat b \<Longrightarrow> fr_from_be_bytes E a = fr_from_be_bytes E b"
  by (metis fr_val_from fr_val_inject)

lemma fr_modulus_ge: "field_laws E \<Longrightarrow> 2 ^ 248 \<le> fr_modulus E"
  by (simp add: field_laws_def)

lemma fr_to_from_be_bytes [fr_simps]:
  assumes "field_laws E" and "length bs = 32" and "be_nat bs < fr_modulus E"
  shows "fr_to_be_bytes E (fr_from_be_bytes E bs) = bs"
proof (rule be_nat_eqD)
  show "length (fr_to_be_bytes E (fr_from_be_bytes E bs)) = length bs"
    using assms by simp
  show "be_nat (fr_to_be_bytes E (fr_from_be_bytes E bs)) = be_nat bs"
    using fr_val_from [OF assms(1), of bs] assms(3) by (simp add: fr_val_def)
qed

lemma fr_from_high_byte_zero [fr_simps]:
  assumes "field_laws E" and "length bs = 32" and "bs ! 0 = 0"
  shows "fr_to_be_bytes E (fr_from_be_bytes E bs) = bs"
proof (rule fr_to_from_be_bytes [OF assms(1,2)])
  obtain ys where ys: "bs = 0 # ys" "length ys = 31"
    using assms(2,3) by (cases bs) auto
  have "be_nat bs < 256 ^ 31" using be_nat_less [of ys] ys by simp
  also have "(256 :: nat) ^ 31 = 2 ^ 248" by simp
  also have "\<dots> \<le> fr_modulus E" by (rule fr_modulus_ge [OF assms(1)])
  finally show "be_nat bs < fr_modulus E" .
qed

lemma fr_of_conv: "field_laws E \<Longrightarrow> fr_of E n = fr_from_be_bytes E (u64_to_be n)"
  by (simp add: field_laws_def fr_from_be_bytes_def)

lemma fr_val_of [fr_simps]:
  assumes "field_laws E" shows "fr_val E (fr_of E n) = unat n"
proof -
  have "unat n < 2 ^ 64" using unat_bound [of n] by simp
  also have "(2 :: nat) ^ 64 \<le> 2 ^ 248" by simp
  also have "\<dots> \<le> fr_modulus E" by (rule fr_modulus_ge [OF assms])
  finally show ?thesis using assms by (simp add: fr_of_conv fr_val_from)
qed

lemma fr_of_inject [fr_simps]: "field_laws E \<Longrightarrow> fr_of E m = fr_of E n \<longleftrightarrow> m = n"
  by (metis fr_val_of word_unat_eq_iff)

lemma fr_less_iff [fr_simps]: "field_laws E \<Longrightarrow> fr_less E x y \<longleftrightarrow> fr_val E x < fr_val E y"
  by (simp add: fr_val_def fr_to_be_bytes_eq) (simp add: field_laws_def)

lemma fr_bytes_less_iff:
  "field_laws E \<Longrightarrow> fr_to_be_bytes E x < fr_to_be_bytes E y \<longleftrightarrow> fr_val E x < fr_val E y"
  by (simp add: less_bytes_iff fr_val_def)

lemma fr_bytes_le_iff:
  "field_laws E \<Longrightarrow> fr_to_be_bytes E x \<le> fr_to_be_bytes E y \<longleftrightarrow> fr_val E x \<le> fr_val E y"
  by (simp add: le_bytes_iff fr_val_def)

lemma fr_val_0: "field_laws E \<Longrightarrow> fr_val E x = 0 \<longleftrightarrow> x = fr_of E 0"
  by (metis fr_val_inject fr_val_of unat_0)

lemma fr_to_be_bytes_of:
  assumes "field_laws E"
  shows "fr_to_be_bytes E (fr_of E n) = zeros 24 @ u64_to_be n"
proof (rule be_nat_eqD)
  show "be_nat (fr_to_be_bytes E (fr_of E n)) = be_nat (zeros 24 @ u64_to_be n)"
    using fr_val_of [OF assms, of n] by (simp add: fr_val_def be_nat_append)
qed (use assms in simp)

section \<open>Facts about the sponge\<close>

lemma length_apply_mds [simp]: "length (apply_mds_t5 E st mds) = 5"
  by (simp add: apply_mds_t5_def)

lemma length_rounds [simp]:
  "length (full_round_t5 E r st) = 5" "length (partial_round_t5 E r st) = 5"
  by (simp_all add: full_round_t5_def partial_round_t5_def Let_def)

lemma length_fold_rounds:
  "(\<And>r st. length (f r st) = 5) \<Longrightarrow> length st = 5 \<Longrightarrow> length (fold f rs st) = 5"
  by (induction rs arbitrary: st) auto

lemma length_permute_t5 [simp]: "length st = 5 \<Longrightarrow> length (permute_t5 E st) = 5"
  by (simp add: permute_t5_def Let_def length_fold_rounds)

lemma length_squeeze_loop: "length out \<le> n \<Longrightarrow> length (fst (squeeze_loop E st n out)) = n"
proof (induction E st n out rule: squeeze_loop.induct)
  case (1 E st n out)
  define out' where "out' = out @ take (n - length out) (map (\<lambda>i. st ! (i + 1)) [0..<4])"
  have le: "length out' \<le> n" using 1(2) by (simp add: out'_def)
  have eq: "squeeze_loop E st n out =
      (if length out < n then
         if length out' < n then squeeze_loop E (permute_t5 E st) n out' else (out', st)
       else (out, st))"
    by (subst squeeze_loop.simps) (simp only: out'_def Let_def)
  show ?case
  proof (cases "length out < n \<and> length out' < n")
    case True
    then have "length (fst (squeeze_loop E (permute_t5 E st) n out')) = n"
      using 1(1) [OF _ out'_def] le by simp
    with True show ?thesis by (simp add: eq)
  next
    case False
    with 1(2) le show ?thesis by (auto simp: eq)
  qed
qed

lemma length_pad_rate: "length (pad_rate E xs) mod 4 = 0"
proof (induction E xs rule: pad_rate.induct)
  case (1 E xs)
  then show ?case by (cases "length xs mod 4 = 0") (simp_all add: pad_rate.simps [of E xs])
qed

lemma pad_rate_two: "pad_rate E [a, b] = [a, b, fr_of E 0, fr_of E 0]"
  by (simp add: pad_rate.simps [of E "[a, b]"] pad_rate.simps [of E "[a, b, fr_of E 0]"]
      pad_rate.simps [of E "[a, b, fr_of E 0, fr_of E 0]"])

lemma fr_add_0: "field_laws E \<Longrightarrow> fr_add E (fr_of E 0) x = x"
  unfolding field_laws_def by blast

lemma absorb_one:
  "field_laws E \<Longrightarrow>
   absorb E (with_domain E d) [s] = permute_t5 E [d, s, fr_of E 0x80, fr_of E 0, fr_of E 0]"
  by (simp add: absorb_def pad_rate_two absorb_block_def enumerated_def with_domain_def
      upt_rec numeral_eq_Suc fr_add_0)

lemma length_derive_petition_id [simp]:
  "digest_laws E \<Longrightarrow> length (derive_petition_id E c r a s p b) = 32"
  by (simp add: derive_petition_id_def Let_def digest_laws_def)

lemma derive_petition_id_high_byte [simp]:
  "digest_laws E \<Longrightarrow> derive_petition_id E c r a s p b ! 0 = 0"
  by (simp add: derive_petition_id_def Let_def digest_laws_def)

end
