(* ===== verification/Sample.thy ===== *)
theory Sample
  imports Poseidon
begin

text \<open>
  A concrete instance of the external primitives, small enough to evaluate: scalars are 248-bit
  words, the Poseidon hash is a sum with weights, and the digests have constant length. It shows
  that the hypotheses on the primitives can hold together, and the witnesses run on it.
\<close>

type_synonym sample_fr = "248 word"

definition sample_hash :: "sample_fr list \<Rightarrow> sample_fr" where
  "sample_hash xs = foldl (\<lambda>acc x. 3 * acc + x) 1 xs"

definition sample :: "sample_fr prims" where
  "sample =
     \<lparr>fr_modulus = 2 ^ 248, from_be_bytes_mod_order = (\<lambda>bs. word_of_nat (be_nat bs)),
      to_bytes_be = (\<lambda>x. be_bytes 32 (unat x)), fr_of = (\<lambda>n. ucast n),
      fr_less = (<), fr_add = (+), fr_mul = (*), fr_pow = (\<lambda>x n. x ^ unat n),
      poseidon_circom = sample_hash,
      t5_params = \<lparr>pp_ark = replicate 340 0, pp_mds = replicate 5 (replicate 5 1), pp_full_rounds = 8,
                   pp_partial_rounds = 60, pp_alpha = 5\<rparr>,
      sha256 = (\<lambda>m. be_bytes 32 (be_nat m)), keccak256 = (\<lambda>m. be_bytes 32 (be_nat m))\<rparr>"

lemma sample_field_laws: "field_laws sample"
proof -
  have u: "unat (x :: sample_fr) < 2 ^ 248" for x using unat_bound [of x] by simp
  have p: "(256 :: nat) ^ 32 = 2 ^ 256" by simp
  have small: "unat (x :: sample_fr) mod 256 ^ 32 = unat x" for x
    using less_trans [OF u [of x], of "2 ^ 256"] unfolding p by (intro mod_less) simp
  show ?thesis
    unfolding field_laws_def sample_def
    by (simp add: small [simplified] unsigned_of_nat take_bit_eq_mod of_nat_unat word_less_nat_alt)
qed

lemma sample_digest_laws: "digest_laws sample"
  by (simp add: digest_laws_def sample_def)

end
