(* ===== verification/Types.thy ===== *)
theory Types
  imports Poseidon
begin

text \<open>
  \<open>src/types.rs\<close>, \<open>src/error.rs\<close> and the witness types of \<open>src/ports/imt.rs\<close> and
  \<open>src/ports/proof.rs\<close>: the domain types every actor shares. Structs are records (field names
  carry a prefix per struct, since record fields are global), enums are datatypes. A message
  that the code formats with values carries its fixed text here.
\<close>

unbundle bit_operations_syntax

section \<open>Errors\<close>

datatype proof_error = Generation string | WitnessSerialization string | Verification string

datatype merkle_error = OutOfRange nat nat | EmptyTree | ProofFailure string

datatype imt_error =
    DuplicateInsertion
  | CapacityExhausted nat
  | LowLeafInvariant string
  | MerkleErr merkle_error

datatype blob_error =
    Capacity nat nat
  | BlobMalformed string
  | InvalidOpening string
  | NotFound

datatype predicate_error =
    TooLarge
  | TupleCountOutOfRange nat
  | OpCountOutOfRange nat
  | BadTypeTag u8
  | BadComparator u8
  | BadOpcode u8
  | OperandOutOfRange u8 u8
  | Malformed string
  | StackUnderflow nat
  | NonSingletonResult nat
  | MissingClassBinding
  | Int64OperandOutOfRange
  | TypeMismatch string

section \<open>Enumerations\<close>

type_synonym petition_id = bytes32
type_synonym class_tag = u16

datatype petition_state =
  Registered | SigningOpen | SigningClosed | Cooldown | DisputeWindow | Resolved | Unresolved

datatype batch_state = Active | Repudiated

datatype type_tag = Int64 | Hash | Bool

datatype comparator = Eq | Le | Ge

datatype op_code = PushTuple | AndOp | OrOp | NotOp | Nop

datatype violation_type =
  ClassTagOutOfSet | IntraBatchDuplicateIdentityTag | LeafOrderingViolation

fun type_tag_u8 :: "type_tag \<Rightarrow> u8" where
  "type_tag_u8 Int64 = 0x01"
| "type_tag_u8 Hash = 0x02"
| "type_tag_u8 Bool = 0x03"

definition type_tag_try_from :: "u8 \<Rightarrow> (u8, type_tag) result" where
  "type_tag_try_from b =
     (if b = 0x01 then Inr Int64
      else if b = 0x02 then Inr Hash
      else if b = 0x03 then Inr Bool
      else Inl b)"

fun comparator_u8 :: "comparator \<Rightarrow> u8" where
  "comparator_u8 Eq = 0x10"
| "comparator_u8 Le = 0x11"
| "comparator_u8 Ge = 0x12"

definition comparator_try_from :: "u8 \<Rightarrow> (u8, comparator) result" where
  "comparator_try_from b =
     (if b = 0x10 then Inr Eq
      else if b = 0x11 then Inr Le
      else if b = 0x12 then Inr Ge
      else Inl b)"

fun op_code_u8 :: "op_code \<Rightarrow> u8" where
  "op_code_u8 PushTuple = 0x20"
| "op_code_u8 AndOp = 0x21"
| "op_code_u8 OrOp = 0x22"
| "op_code_u8 NotOp = 0x23"
| "op_code_u8 Nop = 0xff"

definition op_code_try_from :: "u8 \<Rightarrow> (u8, op_code) result" where
  "op_code_try_from b =
     (if b = 0x20 then Inr PushTuple
      else if b = 0x21 then Inr AndOp
      else if b = 0x22 then Inr OrOp
      else if b = 0x23 then Inr NotOp
      else if b = 0xff then Inr Nop
      else Inl b)"

fun violation_type_u8 :: "violation_type \<Rightarrow> u8" where
  "violation_type_u8 ClassTagOutOfSet = 0x01"
| "violation_type_u8 IntraBatchDuplicateIdentityTag = 0x02"
| "violation_type_u8 LeafOrderingViolation = 0x03"

definition violation_type_try_from :: "u8 \<Rightarrow> (u8, violation_type) result" where
  "violation_type_try_from b =
     (if b = 0x01 then Inr ClassTagOutOfSet
      else if b = 0x02 then Inr IntraBatchDuplicateIdentityTag
      else if b = 0x03 then Inr LeafOrderingViolation
      else Inl b)"

section \<open>256-bit unsigned integers\<close>

type_synonym u256_be = bytes32

definition u256_zero :: u256_be where "u256_zero = zeros 32"

definition u256_from_u128 :: "u128 \<Rightarrow> u256_be" where
  "u256_from_u128 v = copy_at 16 (u128_to_be v) (zeros 32)"

definition u256_from_u64 :: "u64 \<Rightarrow> u256_be" where
  "u256_from_u64 v = copy_at 24 (u64_to_be v) (zeros 32)"

definition u256_is_zero :: "u256_be \<Rightarrow> bool" where
  "u256_is_zero v \<longleftrightarrow> v = zeros 32"

text \<open>The byte loop, from the last byte to the first, with its 16-bit sum and carry.\<close>

fun u256_add_step :: "u8 \<times> u8 \<Rightarrow> u8 list \<times> u16 \<Rightarrow> u8 list \<times> u16" where
  "u256_add_step (x, y) (out, carry) =
     (let s = ucast x + ucast y + carry
      in (ucast (s AND 0xff) # out, drop_bit 8 s))"

definition u256_checked_add :: "u256_be \<Rightarrow> u256_be \<Rightarrow> u256_be option" where
  "u256_checked_add a b =
     (case foldr u256_add_step (zip a b) ([], 0) of
        (out, carry) \<Rightarrow> if carry = 0 then Some out else None)"

section \<open>Petition, batch and global state\<close>

record petition_record =
  pr_petition_id :: petition_id
  pr_slot :: u32
  pr_r_root :: bytes32
  pr_predicate_def :: "u8 list"
  pr_predicate_hash :: bytes32
  pr_salt :: bytes32
  pr_class_set :: "class_tag list"
  pr_class_thresholds :: "u64 list"
  pr_class_index :: u8
  pr_close_at_block :: u64
  pr_bounty :: u256_be
  pr_alpha_at_registration :: u64
  pr_organizer :: address
  pr_running_root :: bytes32
  pr_identity_tag_set_root :: bytes32
  pr_leaf_count :: u64
  pr_resolution_proof :: "u8 list"
  pr_b :: bool
  pr_b_per_class :: "bool list"
  pr_state :: petition_state
  pr_registration_block :: u64

record batch_record =
  br_petition_id :: petition_id
  br_batch_index :: u32
  br_batch_versioned_hash :: bytes32
  br_new_running_root :: bytes32
  br_new_identity_tag_set_root :: bytes32
  br_prior_running_root :: bytes32
  br_prior_identity_tag_set_root :: bytes32
  br_prior_leaf_count :: u64
  br_new_leaf_count :: u64
  br_relayer :: address
  br_submitted_at_block :: u64
  br_state :: batch_state

record global_state =
  gs_s :: u32
  gs_alpha :: u64
  gs_alpha_min :: u64
  gs_alpha_max :: u64
  gs_srs_hash :: bytes32
  gs_chain_id :: u64
  gs_n :: u8

record record_entry =
  re_nullifier :: bytes32
  re_identity_tag :: bytes32
  re_class_tag :: class_tag

section \<open>Predicates\<close>

record tuple =
  tp_claim_index :: u8
  tp_operand :: bytes32
  tp_type_tag :: type_tag
  tp_comparator :: comparator

record op =
  op_code :: op_code
  op_operand :: u8

record predicate_def =
  pd_tuples :: "tuple list"
  pd_ops :: "op list"

section \<open>Proof inputs and submissions\<close>

record 'fr signer_public_inputs =
  sp_r_root :: 'fr
  sp_petition_id :: 'fr
  sp_predicate_hash :: 'fr
  sp_class_index :: 'fr
  sp_class_tag :: 'fr
  sp_slot :: 'fr
  sp_nullifier :: 'fr
  sp_identity_tag :: 'fr

record 'fr signer_private_inputs =
  sv_identity_secret :: 'fr
  sv_attr_vector :: "'fr list"
  sv_attr_version :: u32
  sv_chain_root :: 'fr
  sv_ri_path_siblings :: "'fr list"
  sv_ri_path_indices :: "u8 list"
  sv_s_slot :: 'fr
  sv_chain_path_siblings :: "'fr list"
  sv_chain_path_indices :: "u8 list"
  sv_salt :: 'fr
  sv_predicate_def :: predicate_def

record signer_submission =
  ss_petition_id :: petition_id
  ss_r_root :: bytes32
  ss_predicate_hash :: bytes32
  ss_class_index :: u8
  ss_slot :: u32
  ss_nullifier :: bytes32
  ss_identity_tag :: bytes32
  ss_class_tag :: class_tag
  ss_proof_bytes :: "u8 list"

record 'fr batch_public_inputs =
  bp_petition_id :: 'fr
  bp_r_root :: 'fr
  bp_predicate_hash :: 'fr
  bp_class_index :: 'fr
  bp_slot :: 'fr
  bp_batch_size :: 'fr
  bp_prior_running_root :: 'fr
  bp_new_running_root :: 'fr
  bp_prior_identity_tag_set_root :: 'fr
  bp_new_identity_tag_set_root :: 'fr
  bp_prior_leaf_count :: 'fr
  bp_new_leaf_count :: 'fr
  bp_batch_versioned_hash :: 'fr
  bp_bls_fields :: "'fr list"
  bp_signer_vk_hash :: 'fr

record 'fr resolution_public_inputs =
  rp_predicate_hash :: 'fr
  rp_r_root :: 'fr
  rp_running_root :: 'fr
  rp_leaf_count :: 'fr
  rp_class_set :: "'fr list"
  rp_class_thresholds :: "'fr list"
  rp_b :: 'fr
  rp_b_per_class :: "'fr list"
  rp_class_index :: 'fr

record 'fr imt_membership_fr =
  mf_leaf_hash :: 'fr
  mf_leaf_index :: u32
  mf_next_index :: u32
  mf_next_value :: 'fr
  mf_siblings :: "'fr list"
  mf_indices :: "u8 list"

record 'fr resolution_private_inputs =
  rv_leaves :: "'fr list"
  rv_imt_membership_paths :: "'fr imt_membership_fr list"
  rv_witness_pairs :: "('fr \<times> 'fr) list"

record 'fr batch_submission =
  bs_public_inputs :: "'fr batch_public_inputs"
  bs_records :: "record_entry list"
  bs_proof_bytes :: "u8 list"

record 'fr resolution_submission =
  rs_public_inputs :: "'fr resolution_public_inputs"
  rs_proof_bytes :: "u8 list"

record kzg_opening =
  ko_field_element_index :: u32
  ko_claimed_value :: bytes32
  ko_proof_bytes :: "u8 list"

record dispute =
  dp_petition_id :: petition_id
  dp_batch_index :: u32
  dp_violation_type :: violation_type
  dp_position_i :: u32
  dp_position_j :: "u32 option"
  dp_openings :: "kzg_opening list"

record signer_state_bytes =
  st_s_curr :: bytes32
  st_t :: u32
  st_caterpillar :: "bytes32 list"
  st_chain_root :: bytes32
  st_attr_version :: u32

record signer_credentials =
  sc_identity_secret :: bytes32
  sc_attr_vector :: "bytes32 list"
  sc_ri_leaf_index :: u32

section \<open>Indexed Merkle tree witnesses\<close>

record imt_leaf =
  il_value :: bytes32
  il_next_index :: u32
  il_next_value :: bytes32

record imt_path =
  ip_siblings :: "bytes32 list"
  ip_indices :: "u8 list"

record imt_membership =
  im_leaf :: imt_leaf
  im_leaf_index :: u32
  im_path :: imt_path

record imt_non_membership =
  inm_low_leaf :: imt_leaf
  inm_low_leaf_index :: u32
  inm_low_leaf_path :: imt_path

record imt_insert_witness =
  iw_low_leaf_before :: imt_leaf
  iw_low_leaf_after :: imt_leaf
  iw_low_leaf_index :: u32
  iw_low_leaf_path :: imt_path
  iw_new_leaf :: imt_leaf
  iw_new_leaf_index :: u32
  iw_new_leaf_path :: imt_path
  iw_new_root :: bytes32

record 'fr batch_position_witness =
  bw_submission :: signer_submission
  bw_public_inputs :: "'fr signer_public_inputs"
  bw_running_insert :: "imt_insert_witness option"
  bw_idtag_insert :: "imt_insert_witness option"

section \<open>The lifecycle order\<close>

text \<open>Petition states in the order the lifecycle visits them.\<close>

fun lifecycle_rank :: "petition_state \<Rightarrow> nat" where
  "lifecycle_rank Registered = 0"
| "lifecycle_rank SigningOpen = 1"
| "lifecycle_rank SigningClosed = 2"
| "lifecycle_rank Cooldown = 3"
| "lifecycle_rank DisputeWindow = 4"
| "lifecycle_rank Resolved = 5"
| "lifecycle_rank Unresolved = 6"

instantiation petition_state :: linorder
begin

definition less_eq_petition_state :: "petition_state \<Rightarrow> petition_state \<Rightarrow> bool" where
  "less_eq_petition_state a b \<longleftrightarrow> lifecycle_rank a \<le> lifecycle_rank b"

definition less_petition_state :: "petition_state \<Rightarrow> petition_state \<Rightarrow> bool" where
  "less_petition_state a b \<longleftrightarrow> lifecycle_rank a < lifecycle_rank b"

instance
proof
  fix a b :: petition_state
  assume "a \<le> b" "b \<le> a"
  then show "a = b" by (cases a; cases b) (simp_all add: less_eq_petition_state_def)
qed (auto simp: less_eq_petition_state_def less_petition_state_def)

end

lemmas lifecycle_simps = less_eq_petition_state_def less_petition_state_def

section \<open>Facts\<close>

lemma type_tag_roundtrip [simp]: "type_tag_try_from (type_tag_u8 t) = Inr t"
  by (cases t) (simp_all add: type_tag_try_from_def)

lemma comparator_roundtrip [simp]: "comparator_try_from (comparator_u8 c) = Inr c"
  by (cases c) (simp_all add: comparator_try_from_def)

lemma op_code_roundtrip [simp]: "op_code_try_from (op_code_u8 c) = Inr c"
  by (cases c) (simp_all add: op_code_try_from_def)

lemma type_tag_u8_of_try_from: "type_tag_try_from b = Inr t \<Longrightarrow> type_tag_u8 t = b"
  by (auto simp: type_tag_try_from_def split: if_splits)

lemma comparator_u8_of_try_from: "comparator_try_from b = Inr c \<Longrightarrow> comparator_u8 c = b"
  by (auto simp: comparator_try_from_def split: if_splits)

lemma op_code_u8_of_try_from: "op_code_try_from b = Inr c \<Longrightarrow> op_code_u8 c = b"
  by (auto simp: op_code_try_from_def split: if_splits)

lemma u256_step_value:
  assumes "unat carry \<le> 1"
    and "u256_add_step (x, y) (out, carry) = (out', carry')"
  shows "\<exists>d. out' = d # out \<and> unat d + 256 * unat carry' = unat x + unat y + unat carry
           \<and> unat carry' \<le> 1"
proof -
  define s :: u16 where "s = ucast x + ucast y + carry"
  have bx: "unat x < 256" "unat y < 256" using unat_bound [of x] unat_bound [of y] by simp_all
  have us: "unat s = unat x + unat y + unat carry"
    using bx assms(1) by (simp add: s_def unat_word_ariths unsigned_ucast_eq take_bit_nat_eq_self)
  have "out' = ucast (s AND 0xff) # out" "carry' = drop_bit 8 s"
    using assms(2) by (simp_all add: s_def Let_def)
  moreover have "unat (ucast (s AND 0xff) :: u8) = unat s mod 256"
  proof -
    have "s AND 0xff = take_bit 8 s"
      by (simp add: take_bit_eq_mask mask_eq_exp_minus_1)
    then show ?thesis
      by (simp add: unsigned_ucast_eq take_bit_eq_mod unat_mod_distrib)
  qed
  moreover have "unat (drop_bit 8 s) = unat s div 256"
    by (simp add: drop_bit_eq_div unat_div_distrib)
  ultimately show ?thesis using us bx assms(1) by auto
qed

lemma u256_foldr_value:
  assumes "length a = length b" and "foldr u256_add_step (zip a b) ([], 0) = (out, carry)"
  shows "length out = length a \<and> unat carry \<le> 1
       \<and> be_nat out + unat carry * 256 ^ length a = be_nat a + be_nat b"
  using assms
proof (induction a b arbitrary: out carry rule: list_induct2)
  case (Cons x xs y ys)
  obtain o1 c1 where r: "foldr u256_add_step (zip xs ys) ([], 0) = (o1, c1)"
    by (cases "foldr u256_add_step (zip xs ys) ([], 0)")
  with Cons.IH have IH: "length o1 = length xs" "unat c1 \<le> 1"
    "be_nat o1 + unat c1 * 256 ^ length xs = be_nat xs + be_nat ys" by blast+
  from Cons.prems r have "u256_add_step (x, y) (o1, c1) = (out, carry)" by simp
  from u256_step_value [OF IH(2) this] obtain d where d: "out = d # o1"
    "unat d + 256 * unat carry = unat x + unat y + unat c1" "unat carry \<le> 1" by blast
  have "be_nat out + unat carry * 256 ^ Suc (length xs)
      = (unat d + 256 * unat carry) * 256 ^ length xs + be_nat o1"
    using d(1) IH(1) by (simp add: algebra_simps)
  also have "\<dots> = (unat x + unat y) * 256 ^ length xs + (be_nat o1 + unat c1 * 256 ^ length xs)"
    by (simp only: d(2)) (simp add: algebra_simps)
  finally show ?case
    using d IH Cons.hyps by (simp add: algebra_simps)
qed simp

end
