(* ===== verification/Merkle.thy ===== *)
theory Merkle
  imports Prelude
begin

text \<open>
  Complete binary hash trees over an arbitrary node hash: the reference that the trees of the
  repository are compared with. \<open>tree_node h f l i\<close> is node \<open>i\<close> of level \<open>l\<close> over the leaves
  \<open>f\<close>; \<open>climb\<close> is what the verifier of an authentication path computes; \<open>auth_path\<close> is
  the path of a leaf. A statement about binding ends in \<open>climb_collision\<close>: two different pairs
  of children, one met on each path, with the same parent.
\<close>

section \<open>Nodes\<close>

fun tree_node :: "('a \<Rightarrow> 'a \<Rightarrow> 'a) \<Rightarrow> (nat \<Rightarrow> 'a) \<Rightarrow> nat \<Rightarrow> nat \<Rightarrow> 'a" where
  "tree_node h f 0 i = f i"
| "tree_node h f (Suc l) i = h (tree_node h f l (2 * i)) (tree_node h f l (2 * i + 1))"

lemma div_pow_Suc: "(i :: nat) div 2 ^ Suc l = i div 2 ^ l div 2"
  by (metis div_mult2_eq power_Suc2)

lemma tree_node_frame: "j \<noteq> i div 2 ^ l \<Longrightarrow> tree_node h (f(i := x)) l j = tree_node h f l j"
proof (induction l arbitrary: j)
  case (Suc l)
  define k where "k = i div 2 ^ l"
  have "j \<noteq> k div 2" using Suc.prems unfolding k_def div_pow_Suc .
  then have "2 * j \<noteq> k" "2 * j + 1 \<noteq> k" by auto
  then show ?case using Suc.IH by (simp add: k_def)
qed auto

text \<open>A node depends on the leaves below it only.\<close>

lemma tree_node_cong:
  "(\<And>k. i * 2 ^ l \<le> k \<Longrightarrow> k < (i + 1) * 2 ^ l \<Longrightarrow> f k = g (k - d)) \<Longrightarrow> d = c * 2 ^ l \<Longrightarrow> c \<le> i \<Longrightarrow>
   tree_node h f l i = tree_node h g l (i - c)"
proof (induction l arbitrary: i c)
  case (Suc l)
  have "tree_node h f l (2 * i) = tree_node h g l (2 * i - 2 * c)"
    by (rule Suc.IH) (use Suc.prems in \<open>auto simp: algebra_simps\<close>)
  moreover have "tree_node h f l (2 * i + 1) = tree_node h g l (2 * i + 1 - 2 * c)"
    by (rule Suc.IH) (use Suc.prems in \<open>auto simp: algebra_simps\<close>)
  moreover have "2 * i + 1 - 2 * c = 2 * (i - c) + 1" "2 * i - 2 * c = 2 * (i - c)"
    using Suc.prems(3) by auto
  ultimately show ?case by (simp only: tree_node.simps)
qed simp

definition sibling :: "nat \<Rightarrow> nat" where
  "sibling i = (if odd i then i - 1 else i + 1)"

lemma sibling_neq [simp]: "sibling i \<noteq> i"
  by (cases "i = 0") (auto simp: sibling_def)

lemma sibling_div [simp]: "sibling i div 2 = i div 2"
  by (auto simp: sibling_def elim!: oddE)

lemma sibling_iff: "j = sibling i \<longleftrightarrow> j \<noteq> i \<and> j div 2 = i div 2"
  unfolding sibling_def by (cases "odd i") (simp_all, presburger+)

definition join :: "('a \<Rightarrow> 'a \<Rightarrow> 'a) \<Rightarrow> bool \<Rightarrow> 'a \<Rightarrow> 'a \<Rightarrow> 'a" where
  "join h is_right cur sib = (if is_right then h sib cur else h cur sib)"

lemma tree_node_parent:
  "tree_node h f (Suc l) (i div 2) = join h (odd i) (tree_node h f l i) (tree_node h f l (sibling i))"
  by (cases "odd i") (auto simp: join_def sibling_def elim!: oddE evenE)

section \<open>Authentication paths\<close>

fun climb :: "('a \<Rightarrow> 'a \<Rightarrow> 'a) \<Rightarrow> 'a \<Rightarrow> ('a \<times> bool) list \<Rightarrow> 'a" where
  "climb h cur [] = cur"
| "climb h cur ((sib, is_right) # rest) = climb h (join h is_right cur sib) rest"

lemma climb_append: "climb h cur (xs @ ys) = climb h (climb h cur xs) ys"
  by (induction h cur xs rule: climb.induct) auto

lemma climb_foldl: "climb h cur xs = foldl (\<lambda>cur (sib, r). join h r cur sib) cur xs"
  by (induction h cur xs rule: climb.induct) auto

definition path_bits :: "nat \<Rightarrow> nat \<Rightarrow> bool list" where
  "path_bits n i = map (\<lambda>l. odd (i div 2 ^ l)) [0..<n]"

definition path_sibs :: "('a \<Rightarrow> 'a \<Rightarrow> 'a) \<Rightarrow> (nat \<Rightarrow> 'a) \<Rightarrow> nat \<Rightarrow> nat \<Rightarrow> 'a list" where
  "path_sibs h f n i = map (\<lambda>l. tree_node h f l (sibling (i div 2 ^ l))) [0..<n]"

definition auth_path :: "('a \<Rightarrow> 'a \<Rightarrow> 'a) \<Rightarrow> (nat \<Rightarrow> 'a) \<Rightarrow> nat \<Rightarrow> nat \<Rightarrow> ('a \<times> bool) list" where
  "auth_path h f n i = zip (path_sibs h f n i) (path_bits n i)"

lemma length_path [simp]: "length (path_bits n i) = n" "length (path_sibs h f n i) = n" "length (auth_path h f n i) = n"
  by (simp_all add: path_bits_def path_sibs_def auth_path_def)

lemma nth_path [simp]:
  "l < n \<Longrightarrow> path_bits n i ! l = odd (i div 2 ^ l)"
  "l < n \<Longrightarrow> path_sibs h f n i ! l = tree_node h f l (sibling (i div 2 ^ l))"
  by (simp_all add: path_bits_def path_sibs_def)

lemma auth_path_Suc:
  "auth_path h f (Suc n) i = auth_path h f n i @ [(tree_node h f n (sibling (i div 2 ^ n)), odd (i div 2 ^ n))]"
  by (simp add: auth_path_def path_bits_def path_sibs_def)

lemma climb_auth_path: "climb h (f i) (auth_path h f n i) = tree_node h f n (i div 2 ^ n)"
proof (induction n)
  case (Suc n)
  then show ?case
    by (simp only: auth_path_Suc climb_append climb.simps div_pow_Suc tree_node_parent)
qed (simp add: auth_path_def path_bits_def path_sibs_def)

lemma auth_path_update: "auth_path h (f(i := x)) n i = auth_path h f n i"
  by (auto simp: auth_path_def path_sibs_def tree_node_frame)

lemma climb_auth_path_update: "climb h x (auth_path h f n i) = tree_node h (f(i := x)) n (i div 2 ^ n)"
  using climb_auth_path [of h "f(i := x)" i n] by (simp add: auth_path_update)

text \<open>The leaf a sequence of directions leads to.\<close>

fun bits_index :: "bool list \<Rightarrow> nat" where
  "bits_index [] = 0"
| "bits_index (b # bs) = of_bool b + 2 * bits_index bs"

lemma bits_index_less: "bits_index bs < 2 ^ length bs"
  by (induction bs) auto

lemma path_bits_Suc: "path_bits (Suc n) i = odd i # path_bits n (i div 2)"
proof (rule nth_equalityI)
  show "path_bits (Suc n) i ! l = (odd i # path_bits n (i div 2)) ! l" if "l < length (path_bits (Suc n) i)" for l
    using that by (cases l) (simp_all add: div_mult2_eq)
qed simp

lemma path_bits_index [simp]: "path_bits (length bs) (bits_index bs) = bs"
proof (induction bs)
  case Nil
  then show ?case by (simp add: path_bits_def)
next
  case (Cons b bs)
  then show ?case by (cases b) (simp_all add: path_bits_Suc)
qed

lemma bits_index_path: "bits_index (path_bits n i) = i mod 2 ^ n"
proof (induction n arbitrary: i)
  case 0
  then show ?case by (simp add: path_bits_def)
next
  case (Suc n)
  then show ?case by (simp add: path_bits_Suc mod_mult2_eq mod_2_eq_odd)
qed

section \<open>Binding\<close>

fun climb_collision :: "('a \<Rightarrow> 'a \<Rightarrow> 'a) \<Rightarrow> 'a \<Rightarrow> ('a \<times> bool) list \<Rightarrow> 'a \<Rightarrow> ('a \<times> bool) list \<Rightarrow> bool" where
  "climb_collision h a ((s, r) # p) b ((s', r') # q) =
     (let (x, y) = (if r then (s, a) else (a, s));
          (x', y') = (if r' then (s', b) else (b, s'))
      in ((x, y) \<noteq> (x', y') \<and> h x y = h x' y') \<or> climb_collision h (h x y) p (h x' y') q)"
| "climb_collision h a _ b _ = False"

lemma climb_binding:
  "map snd p = map snd q \<Longrightarrow> climb h a p = climb h b q \<Longrightarrow> a = b \<and> p = q \<or> climb_collision h a p b q"
proof (induction h a p b q rule: climb_collision.induct)
  case (1 h a s r p b s' r' q)
  let ?c = "if r then (s, a) else (a, s)" and ?c' = "if r' then (s', b) else (b, s')"
  have j: "join h r a s = h (fst ?c) (snd ?c)" "join h r' b s' = h (fst ?c') (snd ?c')"
    by (simp_all add: join_def)
  have e: "r = r'" "map snd p = map snd q" "climb h (join h r a s) p = climb h (join h r' b s') q"
    using "1.prems" by simp_all
  from "1.IH" [of ?c "fst ?c" "snd ?c" ?c' "fst ?c'" "snd ?c'"] e j
  have "h (fst ?c) (snd ?c) = h (fst ?c') (snd ?c') \<and> p = q
    \<or> climb_collision h (h (fst ?c) (snd ?c)) p (h (fst ?c') (snd ?c')) q" by simp
  with e(1) show ?case by (cases r) (auto simp: Let_def)
qed auto

text \<open>A path with the directions of leaf \<open>i\<close> that leads to the root of a tree is the path of that
  leaf, or it shows a collision with it.\<close>

lemma climb_root_binding:
  assumes "climb h x (zip path bits) = tree_node h f (length bits) 0" and "length path = length bits"
  shows "x = f (bits_index bits) \<and> path = path_sibs h f (length bits) (bits_index bits)
    \<or> climb_collision h x (zip path bits) (f (bits_index bits)) (auth_path h f (length bits) (bits_index bits))"
proof -
  let ?i = "bits_index bits" and ?n = "length bits"
  have "climb h x (zip path bits) = climb h (f ?i) (auth_path h f ?n ?i)"
    using assms(1) bits_index_less [of bits] by (simp add: climb_auth_path)
  moreover have "map snd (zip path bits) = map snd (auth_path h f ?n ?i)"
    using assms(2) by (simp add: auth_path_def)
  ultimately consider "x = f ?i" "zip path bits = auth_path h f ?n ?i"
    | "climb_collision h x (zip path bits) (f ?i) (auth_path h f ?n ?i)"
    using climb_binding by metis
  then show ?thesis
  proof cases
    case 1
    then have "map fst (zip path bits) = map fst (auth_path h f ?n ?i)" by simp
    with assms(2) 1(1) show ?thesis by (simp add: auth_path_def)
  qed simp
qed

end
