(* ===== verification/Imt.thy ===== *)
theory Imt
  imports Types Merkle
begin

text \<open>
  \<open>src/imt.rs\<close> and the port \<open>src/ports/imt.rs\<close>: the append-only indexed Merkle tree, a
  linked list sorted by value laid over a sparse Merkle tree. A level of the tree is a map from
  node index to scalar whose missing entries stand for empty subtrees; a node index is at most
  \<open>2 ^ 32\<close>, so the 64-bit arithmetic on it cannot wrap and it is a natural number here. An error
  leaves the tree unchanged (every early return of the code precedes its first write), so an
  operation returns either an error or its result with the new tree.

  Shown here: the incremental path update computes the root of the tree of all leaf hashes; a
  path the store hands out recomputes its root, and binds the leaf up to a hash collision; the
  sorted-list invariant holds in every reachable tree, so the \<open>LowLeafInvariant\<close> error is
  unreachable; an insertion succeeds exactly on absent values while there is room. The locale
  \<open>imt_store\<close> is the port: the laws its clients rely on, with what they say about a sequence of
  insertions.
\<close>

section \<open>Leaves and trees\<close>

record 'fr internal_leaf =
  lf_value :: 'fr
  lf_next_index :: u32
  lf_next_value :: 'fr

definition empty_leaf :: "'fr prims \<Rightarrow> 'fr internal_leaf" where
  "empty_leaf E = \<lparr>lf_value = fr_of E 0, lf_next_index = 0, lf_next_value = fr_of E 0\<rparr>"

definition leaf_hash :: "'fr prims \<Rightarrow> 'fr internal_leaf \<Rightarrow> 'fr" where
  "leaf_hash E l =
     poseidon4 E (lf_value l) (fr_of E (ucast (lf_next_index l))) (lf_next_value l) (fr_of E 0)"

definition to_wire :: "'fr prims \<Rightarrow> 'fr internal_leaf \<Rightarrow> imt_leaf" where
  "to_wire E l = \<lparr>il_value = fr_to_be_bytes E (lf_value l), il_next_index = lf_next_index l,
                  il_next_value = fr_to_be_bytes E (lf_next_value l)\<rparr>"

record 'fr imt =
  imt_leaves :: "'fr internal_leaf list"
  imt_tree :: "(nat \<rightharpoonup> 'fr) list"
  imt_empty_subtree :: "'fr list"

fun imt_empty_level :: "'fr prims \<Rightarrow> nat \<Rightarrow> 'fr" where
  "imt_empty_level E 0 = poseidon4 E (fr_of E 0) (fr_of E 0) (fr_of E 0) (fr_of E 0)"
| "imt_empty_level E (Suc i) = hash_merkle_node E (imt_empty_level E i) (imt_empty_level E i)"

definition imt_compute_empty_subtree :: "'fr prims \<Rightarrow> 'fr list" where
  "imt_compute_empty_subtree E = map (imt_empty_level E) [0..<IMT_DEPTH + 1]"

section \<open>Operations\<close>

definition get_node :: "'fr imt \<Rightarrow> nat \<Rightarrow> nat \<Rightarrow> 'fr" where
  "get_node t level idx =
     (case (imt_tree t ! level) idx of Some h \<Rightarrow> h | None \<Rightarrow> imt_empty_subtree t ! level)"

definition set_level :: "'fr prims \<Rightarrow> nat \<Rightarrow> 'fr imt \<times> nat \<Rightarrow> 'fr imt \<times> nat" where
  "set_level E level = (\<lambda>(t, idx).
     let me = get_node t level idx;
         sib = get_node t level (idx XOR 1);
         (left, right) = (if idx mod 2 = 0 then (me, sib) else (sib, me));
         parent_idx = idx div 2;
         parent = hash_merkle_node E left right
     in (t\<lparr>imt_tree := (imt_tree t)[level + 1 := (imt_tree t ! (level + 1))(parent_idx \<mapsto> parent)]\<rparr>,
         parent_idx))"

definition set_leaf_hash :: "'fr prims \<Rightarrow> 'fr imt \<Rightarrow> u32 \<Rightarrow> 'fr \<Rightarrow> 'fr imt" where
  "set_leaf_hash E t i h =
     (let t0 = t\<lparr>imt_tree := (imt_tree t)[0 := (imt_tree t ! 0)(unat i \<mapsto> h)]\<rparr>
      in fst (fold (set_level E) [0..<IMT_DEPTH] (t0, unat i)))"

definition imt_new :: "'fr prims \<Rightarrow> 'fr imt" where
  "imt_new E =
     (let t = \<lparr>imt_leaves = [empty_leaf E], imt_tree = replicate (IMT_DEPTH + 1) Map.empty,
               imt_empty_subtree = imt_compute_empty_subtree E\<rparr>
      in set_leaf_hash E t 0 (leaf_hash E (empty_leaf E)))"

definition root_fr :: "'fr imt \<Rightarrow> 'fr" where
  "root_fr t = get_node t IMT_DEPTH 0"

fun path_levels :: "'fr prims \<Rightarrow> 'fr imt \<Rightarrow> nat list \<Rightarrow> nat \<Rightarrow> (bytes32 \<times> u8) list" where
  "path_levels E t [] idx = []"
| "path_levels E t (level # levels) idx =
     (fr_to_be_bytes E (get_node t level (idx XOR 1)), word_of_nat (idx mod 2))
       # path_levels E t levels (idx div 2)"

definition path_for :: "'fr prims \<Rightarrow> 'fr imt \<Rightarrow> u32 \<Rightarrow> imt_path" where
  "path_for E t i =
     (let steps = path_levels E t [0..<IMT_DEPTH] (unat i)
      in \<lparr>ip_siblings = map fst steps, ip_indices = map snd steps\<rparr>)"

definition is_low :: "'fr prims \<Rightarrow> 'fr \<Rightarrow> 'fr internal_leaf \<Rightarrow> bool" where
  "is_low E v l \<longleftrightarrow>
     fr_less E (lf_value l) v \<and> (fr_less E v (lf_next_value l) \<or> lf_next_value l = fr_of E 0)"

definition low_scan ::
    "'fr prims \<Rightarrow> 'fr \<Rightarrow> nat option \<Rightarrow> nat \<times> 'fr internal_leaf \<Rightarrow> (imt_error, nat option) result" where
  "low_scan E v low = (\<lambda>(i, l).
     if lf_value l = v then Inl DuplicateInsertion
     else Inr (if is_low E v l then Some i else low))"

definition find_low_leaf_index :: "'fr prims \<Rightarrow> 'fr imt \<Rightarrow> 'fr \<Rightarrow> (imt_error, u32) result" where
  "find_low_leaf_index E t target =
     and_then (try_fold (low_scan E target) None (enumerated (imt_leaves t))) (\<lambda>low.
       ok_or (LowLeafInvariant ''no low leaf found'') (map_option word_of_nat low))"

definition imt_root :: "'fr prims \<Rightarrow> 'fr imt \<Rightarrow> bytes32" where
  "imt_root E t = fr_to_be_bytes E (root_fr t)"

definition imt_size :: "'fr imt \<Rightarrow> nat" where
  "imt_size t = length (imt_leaves t)"

definition membership :: "'fr prims \<Rightarrow> 'fr imt \<Rightarrow> bytes32 \<Rightarrow> imt_membership option" where
  "membership E t value =
     map_option
       (\<lambda>(i, l). \<lparr>im_leaf = to_wire E l, im_leaf_index = word_of_nat i,
                  im_path = path_for E t (word_of_nat i)\<rparr>)
       (find (\<lambda>(i, l). lf_value l = fr_from_be_bytes E value) (enumerated (imt_leaves t)))"

definition non_membership :: "'fr prims \<Rightarrow> 'fr imt \<Rightarrow> bytes32 \<Rightarrow> imt_non_membership option" where
  "non_membership E t value =
     (case try_fold (low_scan E (fr_from_be_bytes E value)) None (enumerated (imt_leaves t)) of
        Inl _ \<Rightarrow> None
      | Inr None \<Rightarrow> None
      | Inr (Some i) \<Rightarrow>
          Some \<lparr>inm_low_leaf = to_wire E (imt_leaves t ! i), inm_low_leaf_index = word_of_nat i,
                inm_low_leaf_path = path_for E t (word_of_nat i)\<rparr>)"

definition imt_insert ::
    "'fr prims \<Rightarrow> 'fr imt \<Rightarrow> bytes32 \<Rightarrow> (imt_error, imt_insert_witness \<times> 'fr imt) result" where
  "imt_insert E t value =
     (let v = fr_from_be_bytes E value in
      if 2 ^ IMT_DEPTH \<le> length (imt_leaves t) then Inl (CapacityExhausted IMT_DEPTH)
      else
        and_then (find_low_leaf_index E t v) (\<lambda>low_idx.
          (let low_leaf_before = imt_leaves t ! unat low_idx;
               new_index = word_of_nat (length (imt_leaves t));
               low_leaf_path_before = path_for E t low_idx;
               low_leaf_after = low_leaf_before\<lparr>lf_next_index := new_index, lf_next_value := v\<rparr>;
               new_leaf = \<lparr>lf_value = v, lf_next_index = lf_next_index low_leaf_before,
                           lf_next_value = lf_next_value low_leaf_before\<rparr>;
               t = t\<lparr>imt_leaves := (imt_leaves t)[unat low_idx := low_leaf_after]\<rparr>;
               t = set_leaf_hash E t low_idx (leaf_hash E low_leaf_after);
               t = t\<lparr>imt_leaves := imt_leaves t @ [new_leaf]\<rparr>;
               t = set_leaf_hash E t new_index (leaf_hash E new_leaf)
           in Inr (\<lparr>iw_low_leaf_before = to_wire E low_leaf_before,
                    iw_low_leaf_after = to_wire E low_leaf_after,
                    iw_low_leaf_index = low_idx,
                    iw_low_leaf_path = low_leaf_path_before,
                    iw_new_leaf = to_wire E new_leaf,
                    iw_new_leaf_index = new_index,
                    iw_new_leaf_path = path_for E t new_index,
                    iw_new_root = fr_to_be_bytes E (root_fr t)\<rparr>, t))))"

section \<open>The tree of leaf hashes\<close>

text \<open>The reference: node \<open>i\<close> of a level of the complete tree over the leaf hashes \<open>lf\<close>.\<close>

abbreviation node :: "'fr prims \<Rightarrow> (nat \<Rightarrow> 'fr) \<Rightarrow> nat \<Rightarrow> nat \<Rightarrow> 'fr" where
  "node E \<equiv> tree_node (hash_merkle_node E)"

lemmas node_frame = tree_node_frame

lemma xor_1_nat: "(n :: nat) XOR Suc 0 = (if n mod 2 = 0 then n + 1 else n - 1)"
  by (simp add: xor_Suc_0_eq even_iff_mod_2_eq_zero)

lemma node_parent:
  "node E lf (Suc l) (idx div 2) =
     (if idx mod 2 = 0 then hash_merkle_node E (node E lf l idx) (node E lf l (idx XOR 1))
      else hash_merkle_node E (node E lf l (idx XOR 1)) (node E lf l idx))"
  unfolding tree_node_parent by (simp add: join_def sibling_def xor_1_nat even_iff_mod_2_eq_zero)

lemma node_empty: "node E (\<lambda>_. imt_empty_level E 0) l i = imt_empty_level E l"
  by (induction l arbitrary: i) simp_all

definition shape_ok :: "'fr imt \<Rightarrow> bool" where
  "shape_ok t \<longleftrightarrow> length (imt_tree t) = IMT_DEPTH + 1"

text \<open>Every level up to \<open>hi\<close> shows the tree over \<open>lf'\<close>, the levels above the tree over \<open>lf\<close>.\<close>

lemma set_level_node:
  assumes "shape_ok t" and "level < IMT_DEPTH"
    and "set_level E level (t, idx) = (t', idx')"
    and "\<forall>l \<le> level. \<forall>j. get_node t l j = node E lf' l j"
    and "\<forall>l. level < l \<and> l \<le> IMT_DEPTH \<longrightarrow> (\<forall>j. get_node t l j = node E lf l j)"
    and "\<forall>j. j \<noteq> idx div 2 \<longrightarrow> node E lf' (Suc level) j = node E lf (Suc level) j"
  shows "shape_ok t' \<and> idx' = idx div 2 \<and> imt_leaves t' = imt_leaves t
    \<and> imt_empty_subtree t' = imt_empty_subtree t
    \<and> (\<forall>l \<le> Suc level. \<forall>j. get_node t' l j = node E lf' l j)
    \<and> (\<forall>l. Suc level < l \<and> l \<le> IMT_DEPTH \<longrightarrow> (\<forall>j. get_node t' l j = node E lf l j))"
proof -
  define p where "p = node E lf' (Suc level) (idx div 2)"
  have t': "t' = t\<lparr>imt_tree := (imt_tree t)[level + 1 := (imt_tree t ! (level + 1))(idx div 2 \<mapsto> p)]\<rparr>"
    and i: "idx' = idx div 2"
    using assms(3,4)
    by (auto simp: set_level_def Let_def p_def node_parent simp del: tree_node.simps split: if_splits)
  have len: "level + 1 < length (imt_tree t)" using assms(1,2) by (simp add: shape_ok_def)
  have g: "get_node t' l j = (if l = Suc level \<and> j = idx div 2 then p else get_node t l j)" for l j
    using len by (cases "l = Suc level") (simp_all add: t' get_node_def split: option.split)
  have "get_node t' l j = node E lf' l j" if "l \<le> Suc level" for l j
    using that assms(4,5,6) assms(2) by (auto simp: g p_def le_Suc_eq simp del: tree_node.simps)
  moreover have "get_node t' l j = node E lf l j" if "Suc level < l" "l \<le> IMT_DEPTH" for l j
    using that assms(5) by (simp add: g)
  ultimately show ?thesis using assms(1) i by (simp add: t' shape_ok_def)
qed

lemma set_levels_node:
  assumes "n \<le> IMT_DEPTH" and "shape_ok t"
    and "\<forall>j. get_node t 0 j = node E lf' 0 j"
    and "\<forall>l. 0 < l \<and> l \<le> IMT_DEPTH \<longrightarrow> (\<forall>j. get_node t l j = node E lf l j)"
    and frame: "\<And>l j. j \<noteq> i div 2 ^ l \<Longrightarrow> node E lf' l j = node E lf l j"
    and "fold (set_level E) [0..<n] (t, i) = (t', idx')"
  shows "shape_ok t' \<and> idx' = i div 2 ^ n \<and> imt_leaves t' = imt_leaves t
    \<and> imt_empty_subtree t' = imt_empty_subtree t
    \<and> (\<forall>l \<le> n. \<forall>j. get_node t' l j = node E lf' l j)
    \<and> (\<forall>l. n < l \<and> l \<le> IMT_DEPTH \<longrightarrow> (\<forall>j. get_node t' l j = node E lf l j))"
  using assms(1,6)
proof (induction n arbitrary: t' idx')
  case 0
  then show ?case using assms by simp
next
  case (Suc n)
  obtain t1 i1 where f: "fold (set_level E) [0..<n] (t, i) = (t1, i1)" by fastforce
  with Suc.IH Suc.prems have IH: "shape_ok t1" "i1 = i div 2 ^ n" "imt_leaves t1 = imt_leaves t"
    "imt_empty_subtree t1 = imt_empty_subtree t"
    "\<forall>l \<le> n. \<forall>j. get_node t1 l j = node E lf' l j"
    "\<forall>l. n < l \<and> l \<le> IMT_DEPTH \<longrightarrow> (\<forall>j. get_node t1 l j = node E lf l j)" by auto
  have s: "set_level E n (t1, i1) = (t', idx')" using Suc.prems(2) f by simp
  have d: "i1 div 2 = i div 2 ^ Suc n" by (simp only: IH(2) div_pow_Suc)
  have "\<forall>j. j \<noteq> i1 div 2 \<longrightarrow> node E lf' (Suc n) j = node E lf (Suc n) j"
    using frame d by metis
  from set_level_node [OF IH(1) _ s IH(5,6) this] Suc.prems(1) IH(3,4) d show ?case by auto
qed

definition nodes_ok :: "'fr prims \<Rightarrow> (nat \<Rightarrow> 'fr) \<Rightarrow> 'fr imt \<Rightarrow> bool" where
  "nodes_ok E lf t \<longleftrightarrow> shape_ok t \<and> (\<forall>l \<le> IMT_DEPTH. \<forall>j. get_node t l j = node E lf l j)"

lemma set_leaf_hash_nodes:
  assumes "nodes_ok E lf t"
  shows "nodes_ok E (lf(unat i := h)) (set_leaf_hash E t i h)
    \<and> imt_leaves (set_leaf_hash E t i h) = imt_leaves t
    \<and> imt_empty_subtree (set_leaf_hash E t i h) = imt_empty_subtree t"
proof -
  let ?t0 = "t\<lparr>imt_tree := (imt_tree t)[0 := (imt_tree t ! 0)(unat i \<mapsto> h)]\<rparr>"
  have sh: "shape_ok ?t0" and len: "0 < length (imt_tree t)"
    using assms by (simp_all add: nodes_ok_def shape_ok_def)
  have g: "get_node ?t0 l j = (if l = 0 \<and> j = unat i then h else get_node t l j)" for l j
    using len by (cases "l = 0") (simp_all add: get_node_def split: option.split)
  obtain t' idx' where f: "fold (set_level E) [0..<IMT_DEPTH] (?t0, unat i) = (t', idx')" by fastforce
  have "shape_ok t' \<and> idx' = unat i div 2 ^ IMT_DEPTH \<and> imt_leaves t' = imt_leaves ?t0
    \<and> imt_empty_subtree t' = imt_empty_subtree ?t0
    \<and> (\<forall>l \<le> IMT_DEPTH. \<forall>j. get_node t' l j = node E (lf(unat i := h)) l j)
    \<and> (\<forall>l. IMT_DEPTH < l \<and> l \<le> IMT_DEPTH \<longrightarrow> (\<forall>j. get_node t' l j = node E lf l j))"
    by (rule set_levels_node [OF _ sh _ _ node_frame f]) (use assms in \<open>auto simp: g nodes_ok_def\<close>)
  then show ?thesis using f by (simp add: set_leaf_hash_def nodes_ok_def Let_def)
qed

text \<open>What a verifier of a path computes: the root reached from a leaf hash.\<close>

fun path_root :: "'fr prims \<Rightarrow> 'fr \<Rightarrow> ('fr \<times> u8) list \<Rightarrow> 'fr" where
  "path_root E cur [] = cur"
| "path_root E cur ((sib, dir) # rest) =
     path_root E (if dir = 0 then hash_merkle_node E cur sib else hash_merkle_node E sib cur) rest"

definition path_steps :: "'fr prims \<Rightarrow> imt_path \<Rightarrow> ('fr \<times> u8) list" where
  "path_steps E p = zip (map (fr_from_be_bytes E) (ip_siblings p)) (ip_indices p)"

lemma path_root_append: "path_root E cur (xs @ ys) = path_root E (path_root E cur xs) ys"
  by (induction E cur xs rule: path_root.induct) auto

lemma path_root_node:
  "path_root E (lf i) (map (\<lambda>l. (node E lf l ((i div 2 ^ l) XOR 1), word_of_nat (i div 2 ^ l mod 2))) [0..<n])
     = node E lf n (i div 2 ^ n)"
proof (induction n)
  case (Suc n)
  have d: "i div 2 ^ Suc n = i div 2 ^ n div 2" by (rule div_pow_Suc)
  consider "i div 2 ^ n mod 2 = 0" | "i div 2 ^ n mod 2 = 1" by linarith
  then show ?case
    unfolding d node_parent
    by cases (simp_all add: path_root_append Suc [unfolded One_nat_def])
qed simp

lemma path_levels_map:
  "path_levels E t [m..<n] (i div 2 ^ m) =
    map (\<lambda>l. (fr_to_be_bytes E (get_node t l ((i div 2 ^ l) XOR 1)), word_of_nat (i div 2 ^ l mod 2))) [m..<n]"
proof (induction "n - m" arbitrary: m)
  case (Suc k)
  then have "[m..<n] = m # [Suc m..<n]" by (simp add: upt_conv_Cons)
  moreover have "i div 2 ^ m div 2 = i div 2 ^ Suc m" by (simp only: div_pow_Suc)
  ultimately show ?case using Suc.hyps(1) [of "Suc m"] Suc.hyps(2) by simp
qed simp

lemma path_for_steps:
  assumes "field_laws E" and "nodes_ok E lf t"
  shows "path_steps E (path_for E t i) =
    map (\<lambda>l. (node E lf l ((unat i div 2 ^ l) XOR 1), word_of_nat (unat i div 2 ^ l mod 2))) [0..<IMT_DEPTH]"
  using path_levels_map [of E t 0 IMT_DEPTH "unat i"] assms
  by (auto simp: path_steps_def path_for_def Let_def zip_map_map map_zip_map nodes_ok_def
      simp del: path_levels.simps intro!: nth_equalityI)

text \<open>A collision of the node hash on the way up two paths: two different pairs of children, one from
  each, with the same parent. (That some collision exists is no information, since nodes are
  scalars; this one is computed from the paths.)\<close>

fun path_collision :: "'fr prims \<Rightarrow> 'fr \<Rightarrow> ('fr \<times> u8) list \<Rightarrow> 'fr \<Rightarrow> ('fr \<times> u8) list \<Rightarrow> bool" where
  "path_collision E h ((s, d) # p) h' ((s', d') # q) =
     (let (a, b) = (if d = 0 then (h, s) else (s, h));
          (a', b') = (if d' = 0 then (h', s') else (s', h'))
      in ((a, b) \<noteq> (a', b') \<and> hash_merkle_node E a b = hash_merkle_node E a' b')
         \<or> path_collision E (hash_merkle_node E a b) p (hash_merkle_node E a' b') q)"
| "path_collision E h _ h' _ = False"

lemma path_root_binding:
  assumes "map snd p = map snd q" and "path_root E h p = path_root E h' q"
  shows "h = h' \<and> p = q \<or> path_collision E h p h' q"
  using assms
proof (induction p arbitrary: h h' q)
  case (Cons x p)
  obtain s dir where x: "x = (s, dir)" by fastforce
  from Cons.prems(1) obtain s' q' where q: "q = (s', dir) # q'" and d: "map snd p = map snd q'"
    by (cases q) (auto simp: x)
  show ?case
    using Cons.IH [OF d] Cons.prems(2) by (cases "dir = 0") (fastforce simp: x q)+
qed simp

section \<open>The sorted list\<close>

definition leaf_val :: "'fr prims \<Rightarrow> 'fr internal_leaf \<Rightarrow> nat" where
  "leaf_val E l = fr_val E (lf_value l)"

definition next_ok :: "'fr prims \<Rightarrow> 'fr internal_leaf list \<Rightarrow> 'fr internal_leaf \<Rightarrow> bool" where
  "next_ok E ls l \<longleftrightarrow>
     (lf_next_value l = fr_of E 0 \<and> lf_next_index l = 0 \<and> (\<forall>m \<in> set ls. leaf_val E m \<le> leaf_val E l)) \<or>
     (unat (lf_next_index l) < length ls \<and> lf_value (ls ! unat (lf_next_index l)) = lf_next_value l \<and>
      leaf_val E l < fr_val E (lf_next_value l) \<and>
      (\<forall>m \<in> set ls. \<not> (leaf_val E l < leaf_val E m \<and> leaf_val E m < fr_val E (lf_next_value l))))"

definition sorted_list_ok :: "'fr prims \<Rightarrow> 'fr internal_leaf list \<Rightarrow> bool" where
  "sorted_list_ok E ls \<longleftrightarrow>
     ls \<noteq> [] \<and> lf_value (ls ! 0) = fr_of E 0 \<and> distinct (map lf_value ls) \<and>
     length ls \<le> 2 ^ IMT_DEPTH \<and> (\<forall>l \<in> set ls. next_ok E ls l)"

lemma is_low_iff:
  "field_laws E \<Longrightarrow> is_low E v l \<longleftrightarrow> leaf_val E l < fr_val E v
     \<and> (fr_val E v < fr_val E (lf_next_value l) \<or> lf_next_value l = fr_of E 0)"
  by (simp add: is_low_def leaf_val_def fr_less_iff)

lemma next_ok_gap:
  assumes "field_laws E" and "next_ok E ls l" and "is_low E v l" and "m \<in> set ls"
  shows "leaf_val E m \<le> leaf_val E l \<or> fr_val E v < leaf_val E m"
  using assms by (fastforce simp: next_ok_def is_low_iff fr_val_of not_less)

lemma low_unique:
  assumes "field_laws E" and "\<forall>l \<in> set ls. next_ok E ls l"
    and "l \<in> set ls" "m \<in> set ls" "is_low E v l" "is_low E v m"
  shows "leaf_val E l = leaf_val E m"
  using next_ok_gap [of E ls l v m] next_ok_gap [of E ls m v l] assms
  by (auto simp: is_low_iff)

lemma low_exists:
  assumes "field_laws E" and "sorted_list_ok E ls" and "v \<notin> lf_value ` set ls"
  shows "\<exists>l \<in> set ls. is_low E v l"
proof -
  let ?S = "{m \<in> set ls. leaf_val E m < fr_val E v}"
  have ne: "fr_val E v \<noteq> leaf_val E m" if "m \<in> set ls" for m
    using that assms(1,3) by (auto simp: leaf_val_def fr_val_inject)
  have h: "ls ! 0 \<in> set ls" "leaf_val E (ls ! 0) = 0"
    using assms(1,2) by (auto simp: sorted_list_ok_def leaf_val_def fr_val_of)
  with ne [of "ls ! 0"] have "ls ! 0 \<in> ?S" by simp
  then have "Max (leaf_val E ` ?S) \<in> leaf_val E ` ?S" by (intro Max_in) auto
  then obtain l where l: "l \<in> ?S" "leaf_val E l = Max (leaf_val E ` ?S)" by auto
  then have l: "l \<in> ?S" "\<forall>m \<in> ?S. leaf_val E m \<le> leaf_val E l" by auto
  with assms(2) have n: "next_ok E ls l" by (simp add: sorted_list_ok_def)
  have "is_low E v l"
  proof (cases "lf_next_value l = fr_of E 0")
    case True
    then show ?thesis using l assms(1) by (simp add: is_low_iff)
  next
    case False
    define k where "k = ls ! unat (lf_next_index l)"
    have k: "k \<in> set ls" "lf_value k = lf_next_value l" "leaf_val E l < leaf_val E k"
      using n False by (auto simp: next_ok_def k_def leaf_val_def)
    with l have "\<not> leaf_val E k < fr_val E v" by fastforce
    with ne [OF k(1)] k(2) l show ?thesis by (auto simp: is_low_iff [OF assms(1)] leaf_val_def)
  qed
  with l show ?thesis by blast
qed

lemma sorted_list_insert:
  assumes E: "field_laws E" and ok: "sorted_list_ok E ls" and v: "v \<notin> lf_value ` set ls"
    and len: "length ls < 2 ^ IMT_DEPTH" and i: "i < length ls" and low: "is_low E v (ls ! i)"
  defines "low' \<equiv> (ls ! i)\<lparr>lf_next_index := word_of_nat (length ls), lf_next_value := v\<rparr>"
    and "new \<equiv> \<lparr>lf_value = v, lf_next_index = lf_next_index (ls ! i), lf_next_value = lf_next_value (ls ! i)\<rparr>"
  shows "sorted_list_ok E (ls[i := low'] @ [new])"
    and "map lf_value (ls[i := low'] @ [new]) = map lf_value ls @ [v]"
proof -
  let ?ls = "ls[i := low'] @ [new]"
  show vals: "map lf_value ?ls = map lf_value ls @ [v]"
  proof -
    have "map lf_value (ls[i := low']) = (map lf_value ls)[i := map lf_value ls ! i]"
      using i by (simp add: map_update low'_def)
    then show ?thesis by (simp add: new_def)
  qed
  have nx: "\<forall>l \<in> set ls. next_ok E ls l" using ok by (simp add: sorted_list_ok_def)
  have S: "leaf_val E ` set ?ls = insert (fr_val E v) (leaf_val E ` set ls)"
    using arg_cong [OF vals, of "\<lambda>xs. fr_val E ` set xs"] by (simp add: leaf_val_def image_image image_Un)
  have at: "lf_value (?ls ! k) = lf_value (ls ! k)" if "k < length ls" for k
    using that arg_cong [OF vals, of "\<lambda>xs. xs ! k"] i by (simp add: nth_append)
  have all: "(\<forall>m \<in> set ?ls. P (leaf_val E m)) \<longleftrightarrow> P (fr_val E v) \<and> (\<forall>m \<in> set ls. P (leaf_val E m))" for P
  proof -
    have "(\<forall>m \<in> set ?ls. P (leaf_val E m)) \<longleftrightarrow> (\<forall>x \<in> leaf_val E ` set ?ls. P x)" by blast
    then show ?thesis unfolding S by blast
  qed
  have le: "(\<forall>m \<in> set ?ls. leaf_val E m \<le> a) \<longleftrightarrow> fr_val E v \<le> a \<and> (\<forall>m \<in> set ls. leaf_val E m \<le> a)"
    and gap: "(\<forall>m \<in> set ?ls. \<not> (a < leaf_val E m \<and> leaf_val E m < b)) \<longleftrightarrow>
      \<not> (a < fr_val E v \<and> fr_val E v < b) \<and> (\<forall>m \<in> set ls. \<not> (a < leaf_val E m \<and> leaf_val E m < b))" for a b
    by (rule all [of "\<lambda>x. x \<le> a"], rule all [of "\<lambda>x. \<not> (a < x \<and> x < b)"])
  have old: "next_ok E ?ls l" if "l \<in> set ls" "\<not> is_low E v l" for l
    using nx [rule_format, OF that(1)] that(2) at [of "unat (lf_next_index l)"] i
    unfolding next_ok_def le gap by (auto simp: is_low_iff [OF E] not_less)
  have lowok: "next_ok E ls (ls ! i)" using nx i by simp
  have newok: "next_ok E ?ls new"
    using lowok low at [of "unat (lf_next_index new)"] i
    unfolding next_ok_def le gap by (auto simp: is_low_iff [OF E] not_less new_def leaf_val_def fr_val_of [OF E])
  have len32: "unat (word_of_nat (length ls) :: u32) = length ls"
    using len by (simp add: IMT_DEPTH_def)
  have low'ok: "next_ok E ?ls low'"
    using low next_ok_gap [OF E lowok low] i len32
    unfolding next_ok_def le gap
    by (fastforce simp: is_low_iff [OF E] not_less low'_def new_def leaf_val_def nth_append)
  have "next_ok E ?ls l" if l: "l \<in> set ?ls" for l
  proof (cases "l = new \<or> l = low'")
    case True
    then show ?thesis using newok low'ok by blast
  next
    case False
    then obtain j where j: "j < length ls" "l = ls ! j" "j \<noteq> i"
    proof -
      have "l \<in> set (ls[i := low'])" using l False by auto
      then obtain j where j: "j < length ls" "l = ls[i := low'] ! j" by (auto simp: in_set_conv_nth)
      with False i have "j \<noteq> i" by auto
      with j that show ?thesis by simp
    qed
    have "\<not> is_low E v l"
    proof
      assume "is_low E v l"
      with low_unique [OF E nx, of "ls ! i" l] i j low have "lf_value (ls ! i) = lf_value (ls ! j)"
        by (simp add: leaf_val_def fr_val_inject [OF E])
      with ok i j show False by (simp add: sorted_list_ok_def distinct_conv_nth)
    qed
    with old j show ?thesis by simp
  qed
  moreover have "lf_value (?ls ! 0) = fr_of E 0"
    using ok i at [of 0] by (simp add: sorted_list_ok_def)
  moreover have "distinct (map lf_value ?ls)" using vals v ok by (simp add: sorted_list_ok_def)
  ultimately show "sorted_list_ok E ?ls" using len by (simp add: sorted_list_ok_def)
qed

text \<open>The scan finds the low leaf of an absent value and reports a present one.\<close>

lemma low_scan_all:
  "try_fold (low_scan E v) low ils =
     (if v \<in> lf_value ` snd ` set ils then Inl DuplicateInsertion
      else Inr (case filter (\<lambda>(i, l). is_low E v l) ils of [] \<Rightarrow> low | xs \<Rightarrow> Some (fst (last xs))))"
proof (induction ils arbitrary: low)
  case (Cons x ils)
  then show ?case by (cases x) (auto simp: low_scan_def split: list.splits)
qed simp

lemma image_snd_enumerated: "snd ` set (enumerated xs) = set xs"
  by (simp add: enumerated_def flip: set_map)

lemma low_scan_leaves:
  assumes "field_laws E" and "sorted_list_ok E ls"
  shows "v \<in> lf_value ` set ls \<Longrightarrow> try_fold (low_scan E v) None (enumerated ls) = Inl DuplicateInsertion"
    and "v \<notin> lf_value ` set ls \<Longrightarrow>
      \<exists>i < length ls. try_fold (low_scan E v) None (enumerated ls) = Inr (Some i) \<and> is_low E v (ls ! i)"
proof -
  show "try_fold (low_scan E v) None (enumerated ls) = Inl DuplicateInsertion" if "v \<in> lf_value ` set ls"
    using that by (simp add: low_scan_all image_snd_enumerated)
next
  assume v: "v \<notin> lf_value ` set ls"
  let ?lows = "filter (\<lambda>(i, l). is_low E v l) (enumerated ls)"
  from low_exists [OF assms v] obtain l j where "j < length ls" "l = ls ! j" "is_low E v l"
    by (auto simp: in_set_conv_nth)
  then have "(j, l) \<in> set ?lows" by (simp add: set_enumerated)
  then have ne: "?lows \<noteq> []" by (metis empty_iff empty_set)
  from last_in_set [OF this] obtain i where i: "last ?lows = (i, ls ! i)" "i < length ls" "is_low E v (ls ! i)"
    by (auto simp: set_enumerated)
  have "try_fold (low_scan E v) None (enumerated ls) = Inr (Some i)"
    using ne i v by (cases ?lows) (auto simp: low_scan_all image_snd_enumerated)
  with i show "\<exists>i < length ls. try_fold (low_scan E v) None (enumerated ls) = Inr (Some i) \<and> is_low E v (ls ! i)"
    by blast
qed

section \<open>The store invariant\<close>

definition leaf_hashes :: "'fr prims \<Rightarrow> 'fr internal_leaf list \<Rightarrow> nat \<Rightarrow> 'fr" where
  "leaf_hashes E ls i = (if i < length ls then leaf_hash E (ls ! i) else imt_empty_level E 0)"

definition imt_ok :: "'fr prims \<Rightarrow> 'fr imt \<Rightarrow> bool" where
  "imt_ok E t \<longleftrightarrow>
     sorted_list_ok E (imt_leaves t) \<and> nodes_ok E (leaf_hashes E (imt_leaves t)) t"

definition imt_values :: "'fr imt \<Rightarrow> 'fr list" where
  "imt_values t = map lf_value (imt_leaves t)"

lemma nodes_ok_leaves [simp]: "nodes_ok E lf (t\<lparr>imt_leaves := ls\<rparr>) = nodes_ok E lf t"
  by (simp add: nodes_ok_def shape_ok_def get_node_def cong: option.case_cong)

lemma leaf_hashes_update:
  "i < length ls \<Longrightarrow> leaf_hashes E (ls[i := l]) = (leaf_hashes E ls)(i := leaf_hash E l)"
  by (auto simp: leaf_hashes_def fun_eq_iff)

lemma leaf_hashes_snoc:
  "leaf_hashes E (ls @ [l]) = (leaf_hashes E ls)(length ls := leaf_hash E l)"
  by (auto simp: leaf_hashes_def fun_eq_iff nth_append)

lemma leaf_hash_empty: "leaf_hash E (empty_leaf E) = imt_empty_level E 0"
  by (simp add: leaf_hash_def empty_leaf_def)

lemma imt_new_leaves: "imt_ok E (imt_new E) \<and> imt_leaves (imt_new E) = [empty_leaf E]"
proof -
  let ?t = "\<lparr>imt_leaves = [empty_leaf E], imt_tree = replicate (IMT_DEPTH + 1) Map.empty,
             imt_empty_subtree = imt_compute_empty_subtree E\<rparr>"
  have g: "get_node ?t l j = imt_empty_level E l" if "l \<le> IMT_DEPTH" for l j
  proof -
    have "replicate (IMT_DEPTH + 1) Map.empty ! l = (Map.empty :: nat \<rightharpoonup> 'a)"
      using that by (intro nth_replicate) simp
    moreover have "imt_compute_empty_subtree E ! l = imt_empty_level E l"
      unfolding imt_compute_empty_subtree_def using that nth_upt [of 0 l "IMT_DEPTH + 1"]
      by (subst nth_map) (auto simp del: upt_Suc)
    ultimately show ?thesis by (simp only: get_node_def imt.select_convs option.case)
  qed
  have "nodes_ok E (\<lambda>_. imt_empty_level E 0) ?t"
    unfolding nodes_ok_def node_empty shape_ok_def using g by simp
  from set_leaf_hash_nodes [OF this, of 0 "leaf_hash E (empty_leaf E)"]
  have n: "nodes_ok E ((\<lambda>_. imt_empty_level E 0)(0 := leaf_hash E (empty_leaf E))) (imt_new E)"
    "imt_leaves (imt_new E) = [empty_leaf E]"
    by (simp_all add: imt_new_def Let_def)
  have "(\<lambda>_. imt_empty_level E 0)(0 := leaf_hash E (empty_leaf E)) = leaf_hashes E [empty_leaf E]"
    by (auto simp: leaf_hashes_def fun_eq_iff leaf_hash_empty)
  moreover have "sorted_list_ok E [empty_leaf E]"
    by (simp add: sorted_list_ok_def next_ok_def empty_leaf_def IMT_DEPTH_def)
  ultimately show ?thesis using n by (simp add: imt_ok_def)
qed

lemma index_small: "i < 2 ^ IMT_DEPTH \<Longrightarrow> unat (word_of_nat i :: u32) = i"
  by (simp add: IMT_DEPTH_def)

lemma path_for_root:
  assumes "field_laws E" and "nodes_ok E lf t" and "unat i < 2 ^ IMT_DEPTH"
  shows "path_root E (lf (unat i)) (path_steps E (path_for E t i)) = root_fr t"
  using assms path_for_steps [OF assms(1,2)] path_root_node [of E lf "unat i" IMT_DEPTH]
  by (simp add: root_fr_def nodes_ok_def)

text \<open>A path does not depend on the leaf it starts from.\<close>

lemma path_frame:
  assumes "field_laws E" and "nodes_ok E lf t" and "nodes_ok E (lf(unat i := h)) t'"
  shows "path_steps E (path_for E t' i) = path_steps E (path_for E t i)"
proof -
  have "(x XOR 1) \<noteq> (x :: nat)" for x by (simp add: xor_1_nat) presburger
  then show ?thesis
    unfolding path_for_steps [OF assms(1,2)] path_for_steps [OF assms(1,3)]
    by (simp add: node_frame)
qed

definition wire_leaf_hash :: "'fr prims \<Rightarrow> imt_leaf \<Rightarrow> 'fr" where
  "wire_leaf_hash E l =
     poseidon4 E (fr_from_be_bytes E (il_value l)) (fr_of E (ucast (il_next_index l)))
       (fr_from_be_bytes E (il_next_value l)) (fr_of E 0)"

lemma wire_leaf_hash_to_wire [simp]:
  "field_laws E \<Longrightarrow> wire_leaf_hash E (to_wire E l) = leaf_hash E l"
  by (simp add: wire_leaf_hash_def to_wire_def leaf_hash_def)

text \<open>What the insertion witness certifies: the low leaf was in the old tree, rewriting it gives
  a tree in which the new slot is still empty, and filling that slot gives the new root.\<close>

definition insert_witness_ok :: "'fr prims \<Rightarrow> bytes32 \<Rightarrow> bytes32 \<Rightarrow> imt_insert_witness \<Rightarrow> bool" where
  "insert_witness_ok E old_root new_root w \<longleftrightarrow>
     fr_to_be_bytes E (path_root E (wire_leaf_hash E (iw_low_leaf_before w))
        (path_steps E (iw_low_leaf_path w))) = old_root \<and>
     path_root E (wire_leaf_hash E (iw_low_leaf_after w)) (path_steps E (iw_low_leaf_path w)) =
       path_root E (imt_empty_level E 0) (path_steps E (iw_new_leaf_path w)) \<and>
     fr_to_be_bytes E (path_root E (wire_leaf_hash E (iw_new_leaf w))
        (path_steps E (iw_new_leaf_path w))) = new_root \<and>
     iw_new_root w = new_root"

lemma imt_insert_absent:
  assumes E: "field_laws E" and ok: "imt_ok E t" and len: "imt_size t < 2 ^ IMT_DEPTH"
    and v: "fr_from_be_bytes E value \<notin> set (imt_values t)"
  shows "\<exists>w t'. imt_insert E t value = Inr (w, t') \<and> imt_ok E t'
    \<and> imt_values t' = imt_values t @ [fr_from_be_bytes E value]
    \<and> insert_witness_ok E (imt_root E t) (imt_root E t') w"
proof -
  let ?v = "fr_from_be_bytes E value" and ?ls = "imt_leaves t"
  have so: "sorted_list_ok E ?ls" and no: "nodes_ok E (leaf_hashes E ?ls) t"
    using ok by (simp_all add: imt_ok_def)
  have v': "?v \<notin> lf_value ` set ?ls" and len': "length ?ls < 2 ^ IMT_DEPTH"
    using v len by (simp_all add: imt_values_def imt_size_def)
  from low_scan_leaves(2) [OF E so v'] obtain i where i: "i < length ?ls" "is_low E ?v (?ls ! i)"
    and scan: "try_fold (low_scan E ?v) None (enumerated ?ls) = Inr (Some i)" by blast
  let ?ix = "word_of_nat i :: u32" and ?nx = "word_of_nat (length ?ls) :: u32"
  have ui: "unat ?ix = i" "unat ?nx = length ?ls" using i len' by (simp_all add: index_small)
  define lo where "lo = (?ls ! i)\<lparr>lf_next_index := ?nx, lf_next_value := ?v\<rparr>"
  define nw where "nw = \<lparr>lf_value = ?v, lf_next_index = lf_next_index (?ls ! i),
    lf_next_value = lf_next_value (?ls ! i)\<rparr>"
  define t1 where "t1 = set_leaf_hash E (t\<lparr>imt_leaves := ?ls[i := lo]\<rparr>) ?ix (leaf_hash E lo)"
  define t2 where "t2 = set_leaf_hash E (t1\<lparr>imt_leaves := ?ls[i := lo] @ [nw]\<rparr>) ?nx (leaf_hash E nw)"
  let ?f1 = "leaf_hashes E (?ls[i := lo])" and ?f2 = "leaf_hashes E (?ls[i := lo] @ [nw])"
  have n1: "nodes_ok E ?f1 t1" "imt_leaves t1 = ?ls[i := lo]"
    using set_leaf_hash_nodes [of E "leaf_hashes E ?ls" "t\<lparr>imt_leaves := ?ls[i := lo]\<rparr>" ?ix] no i ui
    by (simp_all add: t1_def leaf_hashes_update)
  have n2: "nodes_ok E ?f2 t2" "imt_leaves t2 = ?ls[i := lo] @ [nw]"
    using set_leaf_hash_nodes [of E ?f1 "t1\<lparr>imt_leaves := ?ls[i := lo] @ [nw]\<rparr>" ?nx] n1 ui
    by (simp_all add: t2_def leaf_hashes_snoc)
  have ins: "imt_insert E t value = Inr (\<lparr>iw_low_leaf_before = to_wire E (?ls ! i),
      iw_low_leaf_after = to_wire E lo, iw_low_leaf_index = ?ix, iw_low_leaf_path = path_for E t ?ix,
      iw_new_leaf = to_wire E nw, iw_new_leaf_index = ?nx, iw_new_leaf_path = path_for E t2 ?nx,
      iw_new_root = imt_root E t2\<rparr>, t2)" (is "_ = Inr (?w, _)")
    using len' scan ui n1(2) unfolding lo_def nw_def t1_def t2_def
    by (simp add: imt_insert_def find_low_leaf_index_def imt_root_def Let_def)
  have ok2: "imt_ok E t2" "imt_values t2 = imt_values t @ [?v]"
    using sorted_list_insert [OF E so v' len' i] n2
    by (simp_all add: imt_ok_def imt_values_def lo_def nw_def)
  have small: "unat ?ix < 2 ^ IMT_DEPTH" "unat ?nx < 2 ^ IMT_DEPTH" using ui i len' by simp_all
  have p1: "path_root E (leaf_hash E (?ls ! i)) (path_steps E (path_for E t ?ix)) = root_fr t"
    using path_for_root [OF E no small(1)] ui i by (simp add: leaf_hashes_def)
  have p2: "path_root E (leaf_hash E lo) (path_steps E (path_for E t ?ix)) = root_fr t1"
    using path_for_root [OF E n1(1) small(1)] path_frame [OF E no, of ?ix "leaf_hash E lo" t1] n1(1) ui i
    by (simp add: leaf_hashes_update)
  have p3: "path_root E (imt_empty_level E 0) (path_steps E (path_for E t2 ?nx)) = root_fr t1"
    using path_for_root [OF E n1(1) small(2)] path_frame [OF E n1(1), of ?nx "leaf_hash E nw" t2] n2(1) ui
    by (simp add: leaf_hashes_snoc) (simp add: leaf_hashes_def)
  have p4: "path_root E (leaf_hash E nw) (path_steps E (path_for E t2 ?nx)) = root_fr t2"
    using path_for_root [OF E n2(1) small(2)] ui by (simp add: leaf_hashes_snoc)
  have "insert_witness_ok E (imt_root E t) (imt_root E t2) ?w"
    using E p1 p2 p3 p4 by (simp add: insert_witness_ok_def imt_root_def)
  with ins ok2 show ?thesis by blast
qed

lemma imt_insert_present:
  assumes "field_laws E" and "imt_ok E t" and "imt_size t < 2 ^ IMT_DEPTH"
    and "fr_from_be_bytes E value \<in> set (imt_values t)"
  shows "imt_insert E t value = Inl DuplicateInsertion"
  using assms low_scan_leaves(1) [of E "imt_leaves t" "fr_from_be_bytes E value"]
  by (simp add: imt_ok_def imt_values_def imt_size_def imt_insert_def find_low_leaf_index_def Let_def)

lemma imt_insert_full:
  "2 ^ IMT_DEPTH \<le> imt_size t \<Longrightarrow> imt_insert E t value = Inl (CapacityExhausted IMT_DEPTH)"
  by (simp add: imt_size_def imt_insert_def Let_def)

lemma imt_size_values: "length (imt_values t) = imt_size t"
  by (simp add: imt_values_def imt_size_def)

section \<open>Lookups\<close>

lemma find_enumerated:
  assumes "i < length xs" and "P (xs ! i)" and "\<And>j. j < length xs \<Longrightarrow> P (xs ! j) \<Longrightarrow> j = i"
  shows "find (\<lambda>(k, x). P x) (enumerated xs) = Some (i, xs ! i)"
proof -
  have "enumerated xs ! i = (i, xs ! i)" using assms(1) by (simp add: enumerated_def)
  moreover have "\<not> P (snd (enumerated xs ! j))" if "j < i" for j
  proof
    assume "P (snd (enumerated xs ! j))"
    then have "P (xs ! j)" "j < length xs" using that assms(1) by (simp_all add: enumerated_def)
    then have "j = i" by (intro assms(3))
    with that show False by simp
  qed
  ultimately show ?thesis
    unfolding find_Some_iff using assms(1,2) by (intro exI [of _ i]) (simp add: split_beta)
qed

lemma membership_present:
  assumes E: "field_laws E" and ok: "imt_ok E t" and v: "fr_from_be_bytes E value \<in> set (imt_values t)"
  shows "\<exists>i < imt_size t. membership E t value =
      Some \<lparr>im_leaf = to_wire E (imt_leaves t ! i), im_leaf_index = word_of_nat i,
            im_path = path_for E t (word_of_nat i)\<rparr>
    \<and> imt_values t ! i = fr_from_be_bytes E value
    \<and> path_root E (wire_leaf_hash E (to_wire E (imt_leaves t ! i)))
        (path_steps E (path_for E t (word_of_nat i))) = root_fr t"
proof -
  from v obtain i where i: "i < length (imt_leaves t)" "imt_values t ! i = fr_from_be_bytes E value"
    by (auto simp: imt_values_def in_set_conv_nth)
  have d: "distinct (imt_values t)" and len: "length (imt_leaves t) \<le> 2 ^ IMT_DEPTH"
    and no: "nodes_ok E (leaf_hashes E (imt_leaves t)) t"
    using ok by (simp_all add: imt_ok_def sorted_list_ok_def imt_values_def)
  have "find (\<lambda>(k, l). lf_value l = fr_from_be_bytes E value) (enumerated (imt_leaves t)) =
      Some (i, imt_leaves t ! i)"
  proof (rule find_enumerated)
    fix j assume "j < length (imt_leaves t)" "lf_value (imt_leaves t ! j) = fr_from_be_bytes E value"
    with i d show "j = i" by (metis imt_values_def length_map nth_eq_iff_index_eq nth_map)
  qed (use i in \<open>simp_all add: imt_values_def\<close>)
  moreover have "unat (word_of_nat i :: u32) = i" using i len by (simp add: index_small)
  ultimately show ?thesis
    using i E path_for_root [OF E no, of "word_of_nat i"] len
    by (intro exI [of _ i]) (simp add: membership_def imt_size_def leaf_hashes_def)
qed

lemma membership_absent:
  "fr_from_be_bytes E value \<notin> set (imt_values t) \<Longrightarrow> membership E t value = None"
  by (auto simp: membership_def find_None_iff set_enumerated imt_values_def dest: nth_mem)
     (metis imageI nth_mem)

lemma non_membership_absent:
  assumes "field_laws E" and "imt_ok E t" and "fr_from_be_bytes E value \<notin> set (imt_values t)"
  shows "\<exists>i < imt_size t. non_membership E t value =
      Some \<lparr>inm_low_leaf = to_wire E (imt_leaves t ! i), inm_low_leaf_index = word_of_nat i,
            inm_low_leaf_path = path_for E t (word_of_nat i)\<rparr>
    \<and> is_low E (fr_from_be_bytes E value) (imt_leaves t ! i)
    \<and> path_root E (wire_leaf_hash E (to_wire E (imt_leaves t ! i)))
        (path_steps E (path_for E t (word_of_nat i))) = root_fr t"
proof -
  let ?v = "fr_from_be_bytes E value"
  have so: "sorted_list_ok E (imt_leaves t)" and len: "length (imt_leaves t) \<le> 2 ^ IMT_DEPTH"
    and no: "nodes_ok E (leaf_hashes E (imt_leaves t)) t"
    using assms(2) by (simp_all add: imt_ok_def sorted_list_ok_def)
  from low_scan_leaves(2) [OF assms(1) so] assms(3) obtain i where
    i: "i < length (imt_leaves t)" "is_low E ?v (imt_leaves t ! i)"
    "try_fold (low_scan E ?v) None (enumerated (imt_leaves t)) = Inr (Some i)"
    by (auto simp: imt_values_def)
  moreover have "unat (word_of_nat i :: u32) = i" using i len by (simp add: index_small)
  ultimately show ?thesis
    using assms(1) path_for_root [OF assms(1) no, of "word_of_nat i"] len
    by (intro exI [of _ i]) (simp add: non_membership_def imt_size_def leaf_hashes_def)
qed

lemma non_membership_present:
  assumes "field_laws E" and "imt_ok E t" and "fr_from_be_bytes E value \<in> set (imt_values t)"
  shows "non_membership E t value = None"
  using assms low_scan_leaves(1) [of E "imt_leaves t" "fr_from_be_bytes E value"]
  by (simp add: non_membership_def imt_ok_def imt_values_def)

section \<open>The port\<close>

text \<open>What the registry, the relayer and the resolver rely on: an insertion appends one absent
  value or fails without effect, and the lookups decide membership.\<close>

definition insert_seq ::
    "('s \<Rightarrow> bytes32 \<Rightarrow> (imt_error, 'w \<times> 's) result) \<Rightarrow> 's \<Rightarrow> bytes32 list \<Rightarrow> (imt_error, 's) result" where
  "insert_seq ins = try_fold (\<lambda>s b. and_then (ins s b) (\<lambda>(w, s'). Inr s'))"

locale imt_store =
  fixes ok :: "'s \<Rightarrow> bool"
    and vals :: "'s \<Rightarrow> 'v list"
    and key :: "bytes32 \<Rightarrow> 'v"
    and cap :: nat
    and ins :: "'s \<Rightarrow> bytes32 \<Rightarrow> (imt_error, 'w \<times> 's) result"
    and mem :: "'s \<Rightarrow> bytes32 \<Rightarrow> 'm option"
    and non_mem :: "'s \<Rightarrow> bytes32 \<Rightarrow> 'n option"
  assumes insert_absent:
      "ok s \<Longrightarrow> length (vals s) < cap \<Longrightarrow> key b \<notin> set (vals s) \<Longrightarrow>
       \<exists>w s'. ins s b = Inr (w, s') \<and> ok s' \<and> vals s' = vals s @ [key b]"
    and insert_present:
      "ok s \<Longrightarrow> length (vals s) < cap \<Longrightarrow> key b \<in> set (vals s) \<Longrightarrow> ins s b = Inl DuplicateInsertion"
    and insert_full: "ok s \<Longrightarrow> cap \<le> length (vals s) \<Longrightarrow> \<exists>e. ins s b = Inl e"
    and mem_iff: "ok s \<Longrightarrow> mem s b \<noteq> None \<longleftrightarrow> key b \<in> set (vals s)"
    and non_mem_iff: "ok s \<Longrightarrow> non_mem s b \<noteq> None \<longleftrightarrow> key b \<notin> set (vals s)"
begin

lemma insert_result:
  assumes "ok s" and "ins s b = Inr (w, s')"
  shows "ok s' \<and> vals s' = vals s @ [key b] \<and> key b \<notin> set (vals s) \<and> length (vals s) < cap"
proof -
  have len: "length (vals s) < cap" using insert_full [OF assms(1), of b] assms(2) by fastforce
  have "key b \<notin> set (vals s)" using insert_present [OF assms(1) len, of b] assms(2) by auto
  with insert_absent [OF assms(1) len this] assms(2) len show ?thesis by auto
qed

lemma insert_seq_result:
  "ok s \<Longrightarrow> insert_seq ins s bs = Inr s' \<Longrightarrow> ok s' \<and> vals s' = vals s @ map key bs
     \<and> distinct (map key bs) \<and> set (map key bs) \<inter> set (vals s) = {}"
proof (induction bs arbitrary: s)
  case (Cons b bs)
  from Cons.prems obtain w s1 where s1: "ins s b = Inr (w, s1)" "insert_seq ins s1 bs = Inr s'"
    by (auto simp: insert_seq_def and_then_eq_Inr)
  from insert_result [OF Cons.prems(1) s1(1)] Cons.IH [OF _ s1(2)] show ?case by auto
qed (simp add: insert_seq_def)

lemma insert_seq_succeeds:
  "ok s \<Longrightarrow> distinct (map key bs) \<Longrightarrow> set (map key bs) \<inter> set (vals s) = {} \<Longrightarrow>
   length (vals s) + length bs \<le> cap \<Longrightarrow> \<exists>s'. insert_seq ins s bs = Inr s'"
proof (induction bs arbitrary: s)
  case (Cons b bs)
  then obtain w s1 where s1: "ins s b = Inr (w, s1)" "ok s1" "vals s1 = vals s @ [key b]"
    using insert_absent [of s b] by auto
  with Cons have "\<exists>s'. insert_seq ins s1 bs = Inr s'" by (intro Cons.IH) auto
  with s1 show ?case by (auto simp: insert_seq_def)
qed (simp add: insert_seq_def)

text \<open>After a sequence of insertions a lookup finds exactly the old and the inserted values.\<close>

lemma lookup_after_seq:
  "ok s \<Longrightarrow> insert_seq ins s bs = Inr s' \<Longrightarrow>
   mem s' b \<noteq> None \<longleftrightarrow> key b \<in> set (vals s) \<union> key ` set bs"
  using insert_seq_result [of s bs s'] mem_iff [of s' b] by auto

end

interpretation civic_imt: imt_store
  "\<lambda>t. field_laws E \<and> imt_ok E t" imt_values "fr_from_be_bytes E" "2 ^ IMT_DEPTH"
  "imt_insert E" "membership E" "non_membership E"
  for E
proof
  fix t :: "'a imt" and b
  assume ok: "field_laws E \<and> imt_ok E t"
  show "\<exists>w t'. imt_insert E t b = Inr (w, t') \<and> (field_laws E \<and> imt_ok E t')
      \<and> imt_values t' = imt_values t @ [fr_from_be_bytes E b]"
    if "length (imt_values t) < 2 ^ IMT_DEPTH" "fr_from_be_bytes E b \<notin> set (imt_values t)"
    using imt_insert_absent [of E t b] ok that by (auto simp: imt_size_values)
  show "imt_insert E t b = Inl DuplicateInsertion"
    if "length (imt_values t) < 2 ^ IMT_DEPTH" "fr_from_be_bytes E b \<in> set (imt_values t)"
    using imt_insert_present [of E t b] ok that by (simp add: imt_size_values)
  show "\<exists>e. imt_insert E t b = Inl e" if "2 ^ IMT_DEPTH \<le> length (imt_values t)"
    using imt_insert_full that by (auto simp: imt_size_values)
  show "membership E t b \<noteq> None \<longleftrightarrow> fr_from_be_bytes E b \<in> set (imt_values t)"
    using membership_present [of E t b] membership_absent [of E b t] ok
    by (cases "fr_from_be_bytes E b \<in> set (imt_values t)") auto
  show "non_membership E t b \<noteq> None \<longleftrightarrow> fr_from_be_bytes E b \<notin> set (imt_values t)"
    using non_membership_present [of E t b] non_membership_absent [of E t b] ok
    by (cases "fr_from_be_bytes E b \<in> set (imt_values t)") auto
qed

text \<open>The root an insertion witness reports is the root of the tree it leaves.\<close>

lemma imt_insert_root:
  assumes "field_laws E" and "imt_ok E t" and "imt_insert E t b = Inr (w, t')"
  shows "iw_new_root w = imt_root E t'"
proof -
  from civic_imt.insert_result [of E t b w t'] assms
  have "imt_size t < 2 ^ IMT_DEPTH" "fr_from_be_bytes E b \<notin> set (imt_values t)"
    by (auto simp: imt_size_values)
  from imt_insert_absent [OF assms(1,2) this] obtain w1 t1
    where "imt_insert E t b = Inr (w1, t1)" "insert_witness_ok E (imt_root E t) (imt_root E t1) w1" by blast
  with assms(3) show ?thesis by (simp add: insert_witness_ok_def)
qed

lemma imt_new_values: "imt_values (imt_new E) = [fr_of E 0]"
  using imt_new_leaves [of E] by (simp add: imt_values_def empty_leaf_def)

lemma imt_new_ok: "imt_ok E (imt_new E)"
  using imt_new_leaves by blast

lemma insert_seq_append:
  "insert_seq ins s (xs @ ys) = and_then (insert_seq ins s xs) (\<lambda>s'. insert_seq ins s' ys)"
  by (simp add: insert_seq_def try_fold_append)

lemma insert_seq_Cons:
  "insert_seq ins s (b # bs) = Inr s' \<longleftrightarrow> (\<exists>w s1. ins s b = Inr (w, s1) \<and> insert_seq ins s1 bs = Inr s')"
  by (force simp: insert_seq_def and_then_eq_Inr)

lemma fold_set_level_leaves: "imt_leaves (fst (fold (set_level E) ls (t, i))) = imt_leaves t"
  by (induction ls arbitrary: t i) (simp_all add: set_level_def Let_def split: prod.splits)

lemma set_leaf_hash_leaves: "imt_leaves (set_leaf_hash E t i h) = imt_leaves t"
  by (simp add: set_leaf_hash_def fold_set_level_leaves Let_def)

text \<open>The leaves an insertion leaves behind, given the leaf it comes after.\<close>

lemma imt_insert_leaves:
  assumes "imt_insert E t value = Inr (w, t')" and "find_low_leaf_index E t (fr_from_be_bytes E value) = Inr low"
  shows "imt_leaves t' = (imt_leaves t)[unat low := (imt_leaves t ! unat low)
      \<lparr>lf_next_index := word_of_nat (imt_size t), lf_next_value := fr_from_be_bytes E value\<rparr>]
    @ [\<lparr>lf_value = fr_from_be_bytes E value, lf_next_index = lf_next_index (imt_leaves t ! unat low),
        lf_next_value = lf_next_value (imt_leaves t ! unat low)\<rparr>]"
  using assms by (auto simp: imt_insert_def imt_size_def set_leaf_hash_leaves Let_def split: if_splits)

end
