(* ===== verification/Fsrt.thy ===== *)
theory Fsrt
  imports Imt
begin

text \<open>
  \<open>src/fsrt.rs\<close>: the forward-secure ratchet of a signer. A seed is expanded into one value per
  slot; a Merkle tree over the values is committed at enrollment; the ratchet head moves forward
  only, and journaling a finalized slot erases the values and seeds up to it. A panic (a failed
  assertion, an index out of range, the slot counter at its limit) is \<open>None\<close>. Persisting the
  journal is an argument: the effect of the file operations on the bytes written, an error or
  nothing.

  Shown here: the sparse root and path algorithms agree with the complete tree of depth 24; the
  caterpillar holds exactly the completed left subtrees, so its path recomputes the root of the
  values absorbed so far; journaling is atomic with respect to persistence and erases the past;
  and a path taken after journaling no longer leads to the enrolled root.
\<close>

section \<open>Chain and tree\<close>

record 'fr expanded_chain =
  ec_v_values :: "'fr list"
  ec_s_seeds :: "'fr list"

fun expand_loop :: "'fr prims \<Rightarrow> nat \<Rightarrow> 'fr \<Rightarrow> 'fr list \<times> 'fr list" where
  "expand_loop E 0 s = ([], [])"
| "expand_loop E (Suc n) s =
     (case fsrt_prg_step E s of
        (v, s') \<Rightarrow> (case expand_loop E n s' of (vs, ss) \<Rightarrow> (v # vs, s # ss)))"

definition expand_chain :: "'fr prims \<Rightarrow> 'fr \<Rightarrow> u32 option \<Rightarrow> 'fr expanded_chain" where
  "expand_chain E s_0 n_override =
     (let n = unat (case n_override of Some n \<Rightarrow> n | None \<Rightarrow> FSRT_SLOT_COUNT)
      in case expand_loop E n s_0 of (vs, ss) \<Rightarrow> \<lparr>ec_v_values = vs, ec_s_seeds = ss\<rparr>)"

fun fsrt_empty_level :: "'fr prims \<Rightarrow> nat \<Rightarrow> 'fr" where
  "fsrt_empty_level E 0 = fr_of E 0"
| "fsrt_empty_level E (Suc i) = hash_merkle_node E (fsrt_empty_level E i) (fsrt_empty_level E i)"

definition fsrt_compute_empty_subtree :: "'fr prims \<Rightarrow> 'fr list" where
  "fsrt_compute_empty_subtree E = map (fsrt_empty_level E) [0..<FSRT_DEPTH + 1]"

text \<open>\<open>chunks(2)\<close> on a layer of even length.\<close>

fun pair_up :: "'fr prims \<Rightarrow> 'fr list \<Rightarrow> 'fr list" where
  "pair_up E (a # b # rest) = hash_merkle_node E a b # pair_up E rest"
| "pair_up E _ = []"

definition pad_even :: "'fr list \<Rightarrow> 'fr \<Rightarrow> 'fr list" where
  "pad_even layer e = (if length layer mod 2 \<noteq> 0 then layer @ [e] else layer)"

fun root_levels :: "'fr prims \<Rightarrow> 'fr list \<Rightarrow> nat list \<Rightarrow> 'fr list \<Rightarrow> 'fr" where
  "root_levels E empties [] layer = layer ! 0"
| "root_levels E empties (level # levels) layer =
     (if length layer = 1
      then foldl (\<lambda>cur sib. hash_merkle_node E cur sib) (layer ! 0) (map (nth empties) (level # levels))
      else root_levels E empties levels (pair_up E (pad_even layer (empties ! level))))"

definition compute_chain_root :: "'fr prims \<Rightarrow> 'fr list \<Rightarrow> 'fr" where
  "compute_chain_root E v_values =
     (let empties = fsrt_compute_empty_subtree E in
      if v_values = [] then empties ! FSRT_DEPTH
      else root_levels E empties [0..<FSRT_DEPTH] v_values)"

fun chain_path_levels :: "'fr prims \<Rightarrow> 'fr list \<Rightarrow> nat list \<Rightarrow> 'fr list \<Rightarrow> nat \<Rightarrow> ('fr \<times> u8) list" where
  "chain_path_levels E empties [] layer idx = []"
| "chain_path_levels E empties (level # levels) layer idx =
     (if length layer \<le> 1 then map (\<lambda>l. (empties ! l, 0)) (level # levels)
      else
        (let layer = pad_even layer (empties ! level);
             sib_idx = idx XOR 1;
             sib = (if sib_idx < length layer then layer ! sib_idx else empties ! level)
         in (sib, word_of_nat (idx mod 2))
              # chain_path_levels E empties levels (pair_up E layer) (idx div 2)))"

definition compute_path :: "'fr prims \<Rightarrow> 'fr list \<Rightarrow> u32 \<Rightarrow> 'fr list \<times> u8 list" where
  "compute_path E v_values index =
     (let steps = chain_path_levels E (fsrt_compute_empty_subtree E) [0..<FSRT_DEPTH] v_values (unat index)
      in (map fst steps, map snd steps))"

section \<open>Caterpillar\<close>

record 'fr caterpillar =
  cp_frontier :: "'fr list"
  cp_active :: "'fr option list"
  cp_t :: u32
  cp_empty_subtree :: "'fr list"

definition caterpillar_empty :: "'fr prims \<Rightarrow> 'fr caterpillar" where
  "caterpillar_empty E =
     \<lparr>cp_frontier = replicate FSRT_DEPTH (fr_of E 0), cp_active = replicate FSRT_DEPTH None,
      cp_t = 0, cp_empty_subtree = fsrt_compute_empty_subtree E\<rparr>"

definition active_or_empty :: "'fr caterpillar \<Rightarrow> nat \<Rightarrow> 'fr" where
  "active_or_empty c level =
     (case cp_active c ! level of Some h \<Rightarrow> h | None \<Rightarrow> cp_empty_subtree c ! level)"

fun advance_levels :: "'fr prims \<Rightarrow> nat list \<Rightarrow> 'fr \<Rightarrow> nat \<Rightarrow> 'fr caterpillar \<Rightarrow> 'fr caterpillar" where
  "advance_levels E [] carry idx c = c"
| "advance_levels E (level # levels) carry idx c =
     (if idx mod 2 = 0 then c\<lparr>cp_active := (cp_active c)[level := Some carry]\<rparr>
      else
        (let left = active_or_empty c level;
             c = c\<lparr>cp_frontier := (cp_frontier c)[level := left],
                   cp_active := (cp_active c)[level := None]\<rparr>
         in advance_levels E levels (hash_merkle_node E left carry) (idx div 2) c))"

definition caterpillar_advance :: "'fr prims \<Rightarrow> 'fr caterpillar \<Rightarrow> u32 \<Rightarrow> 'fr \<Rightarrow> 'fr caterpillar option" where
  "caterpillar_advance E c slot v_slot =
     (if slot \<noteq> cp_t c then None
      else
        (let c' = advance_levels E [0..<FSRT_DEPTH] v_slot (unat (cp_t c)) c
         in map_option (\<lambda>t. c'\<lparr>cp_t := t\<rparr>) (checked_add (cp_t c) 1)))"

fun cat_path_levels :: "'fr caterpillar \<Rightarrow> nat list \<Rightarrow> nat \<Rightarrow> ('fr \<times> u8) list" where
  "cat_path_levels c [] idx = []"
| "cat_path_levels c (level # levels) idx =
     ((if idx mod 2 = 0 then cp_empty_subtree c ! level else active_or_empty c level),
      word_of_nat (idx mod 2)) # cat_path_levels c levels (idx div 2)"

definition path_for_current_slot :: "'fr caterpillar \<Rightarrow> 'fr list \<times> u8 list" where
  "path_for_current_slot c =
     (let steps = cat_path_levels c [0..<FSRT_DEPTH] (unat (cp_t c))
      in (map fst steps, map snd steps))"

definition caterpillar_to_bytes :: "'fr prims \<Rightarrow> 'fr caterpillar \<Rightarrow> bytes32 list" where
  "caterpillar_to_bytes E c = map (\<lambda>i. fr_to_be_bytes E (active_or_empty c i)) [0..<FSRT_DEPTH]"

section \<open>Signer chain state\<close>

record 'fr chain_state =
  ch_s_curr :: 'fr
  ch_t :: u32
  ch_caterpillar :: "'fr caterpillar"
  ch_chain_root :: 'fr
  ch_attr_version :: u32
  ch_v_values :: "'fr list"
  ch_s_seeds :: "'fr list"

definition chain_drop :: "'fr prims \<Rightarrow> 'fr chain_state \<Rightarrow> 'fr chain_state" where
  "chain_drop E st =
     st\<lparr>ch_v_values := map (\<lambda>_. fr_of E 0) (ch_v_values st),
        ch_s_seeds := map (\<lambda>_. fr_of E 0) (ch_s_seeds st), ch_s_curr := fr_of E 0\<rparr>"

definition chain_enroll :: "'fr prims \<Rightarrow> 'fr \<Rightarrow> u32 \<Rightarrow> u32 \<Rightarrow> 'fr chain_state" where
  "chain_enroll E s_0 chain_len attr_version =
     (let expanded = expand_chain E s_0 (Some chain_len)
      in \<lparr>ch_s_curr = s_0, ch_t = 0, ch_caterpillar = caterpillar_empty E,
          ch_chain_root = compute_chain_root E (ec_v_values expanded),
          ch_attr_version = attr_version, ch_v_values = ec_v_values expanded,
          ch_s_seeds = ec_s_seeds expanded\<rparr>)"

definition chain_len :: "'fr chain_state \<Rightarrow> u32" where
  "chain_len st = word_of_nat (length (ch_v_values st))"

text \<open>The loop \<open>while self.t < target_slot\<close> runs \<open>target_slot - self.t\<close> times.\<close>

fun advance_loop :: "'fr prims \<Rightarrow> nat \<Rightarrow> 'fr chain_state \<Rightarrow> 'fr chain_state option" where
  "advance_loop E 0 st = Some st"
| "advance_loop E (Suc n) st =
     Option.bind
       (caterpillar_advance E (ch_caterpillar st) (ch_t st) (ch_v_values st ! unat (ch_t st)))
       (\<lambda>c. advance_loop E n (st\<lparr>ch_caterpillar := c, ch_t := ch_t st + 1\<rparr>))"

definition advance_to :: "'fr prims \<Rightarrow> u32 \<Rightarrow> 'fr chain_state \<Rightarrow> 'fr chain_state option" where
  "advance_to E target_slot st =
     (if \<not> target_slot < chain_len st \<or> target_slot < ch_t st then None
      else advance_loop E (unat target_slot - unat (ch_t st)) st)"

definition v_at_current_slot :: "'fr chain_state \<Rightarrow> 'fr option" where
  "v_at_current_slot st =
     (if unat (ch_t st) < length (ch_v_values st) then Some (ch_v_values st ! unat (ch_t st)) else None)"

definition s_at :: "'fr prims \<Rightarrow> 'fr chain_state \<Rightarrow> u32 \<Rightarrow> 'fr" where
  "s_at E st slot =
     (if unat slot < length (ch_s_seeds st) then ch_s_seeds st ! unat slot else fr_of E 0)"

definition merkle_path_for_current_slot :: "'fr prims \<Rightarrow> 'fr chain_state \<Rightarrow> 'fr list \<times> u8 list" where
  "merkle_path_for_current_slot E st = compute_path E (ch_v_values st) (ch_t st)"

definition chain_to_bytes :: "'fr prims \<Rightarrow> 'fr chain_state \<Rightarrow> signer_state_bytes" where
  "chain_to_bytes E st =
     \<lparr>st_s_curr = fr_to_be_bytes E (ch_s_curr st), st_t = ch_t st,
      st_caterpillar = caterpillar_to_bytes E (ch_caterpillar st),
      st_chain_root = fr_to_be_bytes E (ch_chain_root st), st_attr_version = ch_attr_version st\<rparr>"

definition chain_root_from_bytes :: "'fr prims \<Rightarrow> signer_state_bytes \<Rightarrow> 'fr" where
  "chain_root_from_bytes E s = fr_from_be_bytes E (st_chain_root s)"

text \<open>The bytes of the journal file, and the erasure of the entries up to a slot.\<close>

definition journal_bytes :: "signer_state_bytes \<Rightarrow> u8 list" where
  "journal_bytes s =
     st_s_curr s @ u32_to_be (st_t s) @ concat (st_caterpillar s) @ st_chain_root s
       @ u32_to_be (st_attr_version s)"

definition wipe_upto :: "'fr prims \<Rightarrow> nat \<Rightarrow> 'fr list \<Rightarrow> 'fr list" where
  "wipe_upto E slot xs = map (\<lambda>(i, x). if i \<le> slot then fr_of E 0 else x) (enumerated xs)"

definition journal_finalized_signing ::
    "'fr prims \<Rightarrow> (u8 list \<Rightarrow> ('io, unit) result) \<Rightarrow> u32 \<Rightarrow> 'fr chain_state
     \<Rightarrow> (('io, signer_state_bytes) result \<times> 'fr chain_state) option" where
  "journal_finalized_signing E persist slot st =
     (if slot \<noteq> ch_t st then None
      else if length (ch_s_seeds st) \<le> unat slot \<or> length (ch_v_values st) \<le> unat slot then None
      else
        (let s_next = snd (fsrt_prg_step E (ch_s_seeds st ! unat slot));
             v_slot = ch_v_values st ! unat slot
         in Option.bind (caterpillar_advance E (ch_caterpillar st) slot v_slot) (\<lambda>next_caterpillar.
              (let next_t = slot + 1;
                   next_state = \<lparr>st_s_curr = fr_to_be_bytes E s_next, st_t = next_t,
                     st_caterpillar = caterpillar_to_bytes E next_caterpillar,
                     st_chain_root = fr_to_be_bytes E (ch_chain_root st),
                     st_attr_version = ch_attr_version st\<rparr>
               in case persist (journal_bytes next_state) of
                    Inl e \<Rightarrow> Some (Inl e, st)
                  | Inr _ \<Rightarrow>
                      Some (Inr next_state,
                        st\<lparr>ch_s_curr := s_next, ch_caterpillar := next_caterpillar, ch_t := next_t,
                           ch_v_values := wipe_upto E (unat slot) (ch_v_values st),
                           ch_s_seeds := wipe_upto E (unat slot) (ch_s_seeds st)\<rparr>)))))"

section \<open>Sparse and complete trees\<close>

definition slot_leaves :: "'fr prims \<Rightarrow> 'fr list \<Rightarrow> nat \<Rightarrow> 'fr" where
  "slot_leaves E vs i = (if i < length vs then vs ! i else fr_of E 0)"

definition layer_at :: "'fr prims \<Rightarrow> 'fr list \<Rightarrow> nat \<Rightarrow> nat \<Rightarrow> 'fr" where
  "layer_at E layer l i = (if i < length layer then layer ! i else fsrt_empty_level E l)"

definition is_layer :: "'fr prims \<Rightarrow> (nat \<Rightarrow> 'fr) \<Rightarrow> nat \<Rightarrow> 'fr list \<Rightarrow> bool" where
  "is_layer E lf l layer \<longleftrightarrow> (\<forall>i. node E lf l i = layer_at E layer l i)"

lemma is_layer_0: "is_layer E (slot_leaves E vs) 0 vs"
  by (simp add: is_layer_def layer_at_def slot_leaves_def)

lemma length_pair_up: "length (pair_up E xs) = length xs div 2"
  by (induction E xs rule: pair_up.induct) auto

lemma nth_pair_up:
  "2 * i + 1 < length xs \<Longrightarrow> pair_up E xs ! i = hash_merkle_node E (xs ! (2 * i)) (xs ! (2 * i + 1))"
proof (induction E xs arbitrary: i rule: pair_up.induct)
  case (1 E a b rest)
  then show ?case by (cases i) auto
qed auto

lemma pad_even_even: "even (length (pad_even layer e))"
  by (simp add: pad_even_def even_iff_mod_2_eq_zero [symmetric])

lemma layer_at_pad: "layer_at E (pad_even layer (fsrt_empty_level E l)) l = layer_at E layer l"
  by (auto simp: layer_at_def pad_even_def fun_eq_iff nth_append)

lemma is_layer_step:
  assumes "is_layer E lf l layer"
  shows "is_layer E lf (Suc l) (pair_up E (pad_even layer (fsrt_empty_level E l)))"
  unfolding is_layer_def
proof
  fix i
  let ?p = "pad_even layer (fsrt_empty_level E l)"
  have n: "node E lf l k = layer_at E ?p l k" for k
    using assms by (simp add: is_layer_def layer_at_pad)
  obtain m where m: "length ?p = 2 * m" using pad_even_even [of layer "fsrt_empty_level E l"] by (auto elim: evenE)
  show "node E lf (Suc l) i = layer_at E (pair_up E ?p) (Suc l) i"
  proof (cases "i < m")
    case True
    then show ?thesis by (simp add: n) (simp add: layer_at_def length_pair_up nth_pair_up m)
  next
    case False
    then show ?thesis by (simp add: n) (simp add: layer_at_def length_pair_up m)
  qed
qed

lemma fsrt_empty_nth: "l \<le> FSRT_DEPTH \<Longrightarrow> fsrt_compute_empty_subtree E ! l = fsrt_empty_level E l"
  unfolding fsrt_compute_empty_subtree_def using nth_upt [of 0 l "FSRT_DEPTH + 1"]
  by (subst nth_map) (auto simp del: upt_Suc)

lemma length_pad_pair:
  "layer \<noteq> [] \<Longrightarrow> length layer \<le> 2 ^ Suc k \<Longrightarrow>
   pair_up E (pad_even layer e) \<noteq> [] \<and> length (pair_up E (pad_even layer e)) \<le> 2 ^ k"
  by (cases layer) (auto simp: length_pair_up pad_even_def simp flip: length_greater_0_conv)

text \<open>A single node followed by empty siblings climbs the leftmost spine.\<close>

lemma spine:
  assumes "is_layer E lf l [h]" and "l \<le> n" and "n \<le> FSRT_DEPTH"
  shows "foldl (\<lambda>cur sib. hash_merkle_node E cur sib) h
      (map (nth (fsrt_compute_empty_subtree E)) [l..<n]) = node E lf n 0
    \<and> (\<forall>i. 0 < i \<longrightarrow> node E lf n i = fsrt_empty_level E n)"
  using assms(2,3)
proof (induction n)
  case 0
  then show ?case using assms(1) by (simp add: is_layer_def layer_at_def)
next
  case (Suc n)
  show ?case
  proof (cases "l = Suc n")
    case True
    then show ?thesis using assms(1) by (simp add: is_layer_def layer_at_def del: tree_node.simps)
  next
    case False
    with Suc show ?thesis by (simp add: fsrt_empty_nth)
  qed
qed

lemma root_levels_node:
  assumes "is_layer E lf l layer" and "layer \<noteq> []" and "length layer \<le> 2 ^ (FSRT_DEPTH - l)"
    and "l \<le> FSRT_DEPTH"
  shows "root_levels E (fsrt_compute_empty_subtree E) [l..<FSRT_DEPTH] layer = node E lf FSRT_DEPTH 0"
  using assms
proof (induction "FSRT_DEPTH - l" arbitrary: l layer)
  case 0
  then show ?case by (simp add: is_layer_def layer_at_def)
next
  case (Suc k)
  then have l: "l < FSRT_DEPTH" and u: "[l..<FSRT_DEPTH] = l # [Suc l..<FSRT_DEPTH]"
    by (simp_all add: upt_conv_Cons)
  show ?case
  proof (cases "length layer = 1")
    case True
    then obtain h where h: "layer = [h]" by (auto simp: length_Suc_conv)
    have "root_levels E (fsrt_compute_empty_subtree E) [l..<FSRT_DEPTH] layer =
        foldl (\<lambda>cur sib. hash_merkle_node E cur sib) h (map (nth (fsrt_compute_empty_subtree E)) [l..<FSRT_DEPTH])"
      by (simp add: u h)
    with spine [of E lf l h FSRT_DEPTH] Suc.prems l h show ?thesis by simp
  next
    case False
    let ?next = "pair_up E (pad_even layer (fsrt_empty_level E l))"
    have k: "FSRT_DEPTH - l = Suc k" "FSRT_DEPTH - Suc l = k" using Suc.hyps(2) by simp_all
    have "root_levels E (fsrt_compute_empty_subtree E) [Suc l..<FSRT_DEPTH] ?next = node E lf FSRT_DEPTH 0"
      using Suc.prems k l length_pad_pair [of layer k E]
      by (intro Suc.hyps(1) is_layer_step) auto
    with False l show ?thesis by (simp add: u fsrt_empty_nth)
  qed
qed

lemma fsrt_node_empty: "node E (\<lambda>_. fr_of E 0) l i = fsrt_empty_level E l"
  by (induction l arbitrary: i) simp_all

lemma compute_chain_root_node:
  assumes "length vs \<le> 2 ^ FSRT_DEPTH"
  shows "compute_chain_root E vs = node E (slot_leaves E vs) FSRT_DEPTH 0"
proof (cases "vs = []")
  case True
  then have "slot_leaves E vs = (\<lambda>_. fr_of E 0)" by (simp add: slot_leaves_def fun_eq_iff)
  with True show ?thesis by (simp add: compute_chain_root_def fsrt_empty_nth fsrt_node_empty)
next
  case False
  with root_levels_node [OF is_layer_0 False, of E] assms show ?thesis
    by (simp add: compute_chain_root_def)
qed

lemma empty_path_root:
  assumes "is_layer E lf l [h]" and "l \<le> FSRT_DEPTH"
  shows "path_root E h (map (\<lambda>k. (fsrt_compute_empty_subtree E ! k, 0)) [l..<FSRT_DEPTH]) = node E lf FSRT_DEPTH 0"
proof -
  have p: "path_root E x (map (\<lambda>k. (f k, 0)) ks) = foldl (\<lambda>cur sib. hash_merkle_node E cur sib) x (map f ks)" for x f ks
    by (induction ks arbitrary: x) auto
  show ?thesis unfolding p using spine [OF assms order_refl] by blast
qed

lemma chain_path_levels_root:
  assumes "is_layer E lf l layer" and "idx < length layer" and "length layer \<le> 2 ^ (FSRT_DEPTH - l)"
    and "l \<le> FSRT_DEPTH"
  shows "path_root E (layer ! idx)
      (chain_path_levels E (fsrt_compute_empty_subtree E) [l..<FSRT_DEPTH] layer idx) = node E lf FSRT_DEPTH 0"
  using assms
proof (induction "FSRT_DEPTH - l" arbitrary: l layer idx)
  case 0
  then have "idx = 0" "l = FSRT_DEPTH" by auto
  with 0 show ?case by (auto simp: is_layer_def layer_at_def)
next
  case (Suc k)
  then have l: "l < FSRT_DEPTH" and u: "[l..<FSRT_DEPTH] = l # [Suc l..<FSRT_DEPTH]"
    by (simp_all add: upt_conv_Cons)
  show ?case
  proof (cases "length layer \<le> 1")
    case True
    then obtain h where h: "layer = [h]" using Suc.prems(2) by (cases layer) auto
    have "chain_path_levels E (fsrt_compute_empty_subtree E) [l..<FSRT_DEPTH] layer idx =
        map (\<lambda>k. (fsrt_compute_empty_subtree E ! k, 0)) [l..<FSRT_DEPTH]"
      by (simp add: u h)
    with empty_path_root [of E lf l h] Suc.prems l h show ?thesis by simp
  next
    case False
    let ?p = "pad_even layer (fsrt_empty_level E l)"
    let ?next = "pair_up E ?p"
    have k: "FSRT_DEPTH - l = Suc k" "FSRT_DEPTH - Suc l = k" using Suc.hyps(2) by simp_all
    obtain m where m: "length ?p = 2 * m" using pad_even_even [of layer "fsrt_empty_level E l"] by (auto elim: evenE)
    have ip: "idx < length ?p" "?p ! idx = layer ! idx" using Suc.prems(2) by (auto simp: pad_even_def nth_append)
    have sib: "(idx XOR 1) < length ?p" using ip(1) m by (auto simp: xor_1_nat)
    have i2: "idx div 2 < length ?next" using ip(1) m by (simp add: length_pair_up)
    have nxt: "?next ! (idx div 2) = (if idx mod 2 = 0 then hash_merkle_node E (?p ! idx) (?p ! (idx XOR 1))
        else hash_merkle_node E (?p ! (idx XOR 1)) (?p ! idx))"
    proof (cases "idx mod 2 = 0")
      case True
      then have "2 * (idx div 2) = idx" by auto
      with True show ?thesis using nth_pair_up [of "idx div 2" ?p E] sib by (simp add: xor_1_nat)
    next
      case False
      then have "2 * (idx div 2) = idx - 1" "Suc (idx - 1) = idx" by presburger+
      with False show ?thesis using nth_pair_up [of "idx div 2" ?p E] ip(1) by (simp add: xor_1_nat)
    qed
    have "path_root E (?next ! (idx div 2))
        (chain_path_levels E (fsrt_compute_empty_subtree E) [Suc l..<FSRT_DEPTH] ?next (idx div 2)) = node E lf FSRT_DEPTH 0"
    proof (rule Suc.hyps(1))
      show "is_layer E lf (Suc l) ?next" using Suc.prems(1) by (rule is_layer_step)
      have "layer \<noteq> []" using Suc.prems(2) by auto
      then show "length ?next \<le> 2 ^ (FSRT_DEPTH - Suc l)"
        using length_pad_pair [of layer k E "fsrt_empty_level E l"] Suc.prems(3) k by simp
    qed (use k l i2 in simp_all)
    moreover have "chain_path_levels E (fsrt_compute_empty_subtree E) [l..<FSRT_DEPTH] layer idx =
        (?p ! (idx XOR 1), word_of_nat (idx mod 2))
          # chain_path_levels E (fsrt_compute_empty_subtree E) [Suc l..<FSRT_DEPTH] ?next (idx div 2)"
      using False l sib by (simp add: u fsrt_empty_nth Let_def)
    ultimately show ?thesis
      using nxt ip(2) by (cases "idx mod 2 = 0") simp_all
  qed
qed

lemma compute_path_root:
  assumes "length vs \<le> 2 ^ FSRT_DEPTH" and "unat i < length vs"
  shows "path_root E (vs ! unat i) (zip (fst (compute_path E vs i)) (snd (compute_path E vs i)))
     = compute_chain_root E vs"
  using chain_path_levels_root [OF is_layer_0, of "unat i" vs E] assms compute_chain_root_node [OF assms(1), of E]
  by (simp add: compute_path_def Let_def zip_map_fst_snd)

section \<open>The caterpillar\<close>

lemma slot_leaves_snoc: "slot_leaves E (vs @ [v]) = (slot_leaves E vs)(length vs := v)"
  by (auto simp: slot_leaves_def fun_eq_iff nth_append)

lemma node_beyond:
  "length vs \<le> i * 2 ^ l \<Longrightarrow> node E (slot_leaves E vs) l i = fsrt_empty_level E l"
proof (induction l arbitrary: i)
  case (Suc l)
  have "node E (slot_leaves E vs) l (2 * i) = fsrt_empty_level E l"
    "node E (slot_leaves E vs) l (2 * i + 1) = fsrt_empty_level E l"
    by (rule Suc.IH; use Suc.prems in \<open>simp add: algebra_simps\<close>)+
  then show ?case by simp
qed (simp add: slot_leaves_def)

definition cat_level :: "'fr prims \<Rightarrow> 'fr list \<Rightarrow> nat \<Rightarrow> 'fr option" where
  "cat_level E vs l =
     (if odd (length vs div 2 ^ l) then Some (node E (slot_leaves E vs) l (length vs div 2 ^ l - 1)) else None)"

definition cat_ok :: "'fr prims \<Rightarrow> 'fr list \<Rightarrow> 'fr caterpillar \<Rightarrow> bool" where
  "cat_ok E vs c \<longleftrightarrow>
     unat (cp_t c) = length vs \<and> cp_empty_subtree c = fsrt_compute_empty_subtree E \<and>
     length (cp_active c) = FSRT_DEPTH \<and> (\<forall>l < FSRT_DEPTH. cp_active c ! l = cat_level E vs l)"

lemma cat_empty_ok: "cat_ok E [] (caterpillar_empty E)"
  by (simp add: cat_ok_def caterpillar_empty_def cat_level_def)

text \<open>Levels above the one that absorbs the carry do not see the new value.\<close>

lemma cat_level_above:
  assumes "Suc (length vs) div 2 ^ l = length vs div 2 ^ l"
  shows "cat_level E (vs @ [v]) l = cat_level E vs l"
proof -
  let ?n = "length vs"
  have "node E ((slot_leaves E vs)(?n := v)) l (?n div 2 ^ l - 1) = node E (slot_leaves E vs) l (?n div 2 ^ l - 1)"
    if "odd (?n div 2 ^ l)"
    by (rule node_frame) (use that in \<open>auto elim!: oddE\<close>)
  then show ?thesis using assms by (simp add: cat_level_def slot_leaves_snoc)
qed

lemma div_pow_stable:
  assumes "(m :: nat) div 2 ^ l = n div 2 ^ l" and "l \<le> j"
  shows "m div 2 ^ j = n div 2 ^ j"
  using assms(2,1) by (induction rule: dec_induct) (simp_all only: div_pow_Suc)

lemma advance_levels_ok:
  fixes E :: "'fr prims" and vs and v :: 'fr
  defines "n \<equiv> length vs" and "lf \<equiv> slot_leaves E (vs @ [v])"
  assumes "advance_levels E [l..<FSRT_DEPTH] carry (n div 2 ^ l) c = c'" and "l \<le> FSRT_DEPTH"
    and "Suc n div 2 ^ l = Suc (n div 2 ^ l)" and "carry = node E lf l (n div 2 ^ l)"
    and "length (cp_active c) = FSRT_DEPTH"
    and "\<forall>j < l. cp_active c ! j = cat_level E (vs @ [v]) j"
    and "\<forall>j. l \<le> j \<and> j < FSRT_DEPTH \<longrightarrow> cp_active c ! j = cat_level E vs j"
  shows "cp_t c' = cp_t c \<and> cp_empty_subtree c' = cp_empty_subtree c \<and> length (cp_active c') = FSRT_DEPTH
     \<and> (\<forall>j < FSRT_DEPTH. cp_active c' ! j = cat_level E (vs @ [v]) j)"
  using assms(3-)
proof (induction "FSRT_DEPTH - l" arbitrary: l carry c)
  case 0
  then show ?case by auto
next
  case (Suc k)
  let ?idx = "n div 2 ^ l"
  from Suc.hyps(2) have l: "l < FSRT_DEPTH" and u: "[l..<FSRT_DEPTH] = l # [Suc l..<FSRT_DEPTH]"
    by (simp_all add: upt_conv_Cons)
  have lf: "lf = (slot_leaves E vs)(n := v)" by (simp add: lf_def n_def slot_leaves_snoc)
  show ?case
  proof (cases "?idx mod 2 = 0")
    case True
    then have c': "c' = c\<lparr>cp_active := (cp_active c)[l := Some carry]\<rparr>" using Suc.prems(1) by (simp add: u)
    have "Suc n div 2 ^ Suc l = n div 2 ^ Suc l"
      using even_Suc_div_two [of ?idx] True Suc.prems(3)
      by (simp add: div_pow_Suc even_iff_mod_2_eq_zero del: power_Suc)
    then have above: "cat_level E (vs @ [v]) j = cat_level E vs j" if "l < j" for j
      using div_pow_stable [of "Suc n" "Suc l" n j] that by (intro cat_level_above) (simp add: n_def)
    have at: "cat_level E (vs @ [v]) l = Some carry"
      using True Suc.prems(3,4) by (simp add: cat_level_def lf_def n_def even_iff_mod_2_eq_zero mod_Suc)
    have "cp_active c' ! j = cat_level E (vs @ [v]) j" if "j < FSRT_DEPTH" for j
      using Suc.prems(5-) l that above at by (cases j l rule: linorder_cases) (simp_all add: c')
    then show ?thesis using Suc.prems(5) by (simp add: c')
  next
    case False
    then have odd: "odd ?idx" by (simp add: odd_iff_mod_2_eq_one)
    let ?left = "active_or_empty c l"
    let ?c = "c\<lparr>cp_frontier := (cp_frontier c)[l := ?left], cp_active := (cp_active c)[l := None]\<rparr>"
    have step: "advance_levels E [Suc l..<FSRT_DEPTH] (hash_merkle_node E ?left carry) (n div 2 ^ Suc l) ?c = c'"
      using Suc.prems(1) False by (simp add: u Let_def div_pow_Suc del: power_Suc)
    have "cp_active c ! l = Some (node E (slot_leaves E vs) l (?idx - 1))"
      using Suc.prems(7) l odd by (simp add: cat_level_def n_def)
    moreover have "node E lf l (?idx - 1) = node E (slot_leaves E vs) l (?idx - 1)"
      unfolding lf by (rule node_frame) (use odd in \<open>auto elim!: oddE\<close>)
    ultimately have "?left = node E lf l (?idx - 1)" by (simp add: active_or_empty_def)
    then have carry: "hash_merkle_node E ?left carry = node E lf (Suc l) (n div 2 ^ Suc l)"
      unfolding div_pow_Suc node_parent using False Suc.prems(4) by (simp add: xor_1_nat)
    have up: "Suc n div 2 ^ Suc l = Suc (n div 2 ^ Suc l)"
      using odd_Suc_div_two [OF odd] Suc.prems(3) by (simp add: div_pow_Suc del: power_Suc)
    have none: "cat_level E (vs @ [v]) l = None"
      using odd Suc.prems(3) by (simp add: cat_level_def n_def)
    have "cp_t c' = cp_t ?c \<and> cp_empty_subtree c' = cp_empty_subtree ?c \<and> length (cp_active c') = FSRT_DEPTH
       \<and> (\<forall>j < FSRT_DEPTH. cp_active c' ! j = cat_level E (vs @ [v]) j)"
    proof (rule Suc.hyps(1) [OF _ step _ up carry])
      show "k = FSRT_DEPTH - Suc l" "Suc l \<le> FSRT_DEPTH" using Suc.hyps(2) l by simp_all
      show "length (cp_active ?c) = FSRT_DEPTH" using Suc.prems(5) by simp
      show "\<forall>j < Suc l. cp_active ?c ! j = cat_level E (vs @ [v]) j"
        using Suc.prems(5,6) none l by (auto simp: less_Suc_eq)
      show "\<forall>j. Suc l \<le> j \<and> j < FSRT_DEPTH \<longrightarrow> cp_active ?c ! j = cat_level E vs j"
        using Suc.prems(7) by simp
    qed
    then show ?thesis by simp
  qed
qed

lemma caterpillar_advance_ok:
  assumes "cat_ok E vs c" and "length vs < 2 ^ 32 - 1"
  shows "\<exists>c'. caterpillar_advance E c (cp_t c) v = Some c' \<and> cat_ok E (vs @ [v]) c'"
proof -
  let ?c = "advance_levels E [0..<FSRT_DEPTH] v (unat (cp_t c)) c"
  have t: "unat (cp_t c) = length vs" using assms(1) by (simp add: cat_ok_def)
  have "cp_t ?c = cp_t c \<and> cp_empty_subtree ?c = cp_empty_subtree c \<and> length (cp_active ?c) = FSRT_DEPTH
     \<and> (\<forall>j < FSRT_DEPTH. cp_active ?c ! j = cat_level E (vs @ [v]) j)"
    using assms(1) advance_levels_ok [of E 0 v vs c ?c v] t
    by (simp add: cat_ok_def slot_leaves_def)
  moreover have "unat (cp_t c + 1) = length vs + 1" "checked_add (cp_t c) 1 = Some (cp_t c + 1)"
    using assms(2) t by (simp_all add: checked_add_def unat_word_ariths)
  ultimately show ?thesis using assms(1) by (simp add: caterpillar_advance_def cat_ok_def Let_def)
qed

lemma cat_path_levels_map:
  "cat_path_levels c [m..<n] (i div 2 ^ m) =
     map (\<lambda>l. (if i div 2 ^ l mod 2 = 0 then cp_empty_subtree c ! l else active_or_empty c l,
               word_of_nat (i div 2 ^ l mod 2))) [m..<n]"
proof (induction "n - m" arbitrary: m)
  case (Suc k)
  then have "[m..<n] = m # [Suc m..<n]" by (simp add: upt_conv_Cons)
  moreover have "i div 2 ^ m div 2 = i div 2 ^ Suc m" by (simp only: div_pow_Suc)
  ultimately show ?case using Suc.hyps(1) [of "Suc m"] Suc.hyps(2) by simp
qed simp

lemma caterpillar_path_root:
  assumes "cat_ok E vs c" and "length vs < 2 ^ FSRT_DEPTH"
  shows "path_root E v (zip (fst (path_for_current_slot c)) (snd (path_for_current_slot c)))
     = compute_chain_root E (vs @ [v])"
proof -
  let ?n = "length vs" and ?lf = "slot_leaves E (vs @ [v])"
  have t: "unat (cp_t c) = ?n" using assms(1) by (simp add: cat_ok_def)
  have sib: "(if ?n div 2 ^ l mod 2 = 0 then cp_empty_subtree c ! l else active_or_empty c l)
      = node E ?lf l (?n div 2 ^ l XOR 1)" if "l < FSRT_DEPTH" for l
  proof (cases "?n div 2 ^ l mod 2 = 0")
    case True
    have "?n < Suc (?n div 2 ^ l) * 2 ^ l"
      by (metis add.commute dividend_less_div_times mult_Suc zero_less_numeral zero_less_power)
    then have "node E ?lf l (Suc (?n div 2 ^ l)) = fsrt_empty_level E l"
      by (intro node_beyond) simp
    with True that assms(1) show ?thesis by (simp add: cat_ok_def fsrt_empty_nth xor_1_nat)
  next
    case False
    then have odd: "odd (?n div 2 ^ l)" by (simp add: odd_iff_mod_2_eq_one)
    have "node E ((slot_leaves E vs)(?n := v)) l (?n div 2 ^ l - 1) = node E (slot_leaves E vs) l (?n div 2 ^ l - 1)"
      by (rule node_frame) (use odd in \<open>auto elim!: oddE\<close>)
    with False odd that assms(1) show ?thesis
      by (simp add: cat_ok_def active_or_empty_def cat_level_def slot_leaves_snoc xor_1_nat)
  qed
  have "map (\<lambda>l. (if ?n div 2 ^ l mod 2 = 0 then cp_empty_subtree c ! l else active_or_empty c l,
          word_of_nat (?n div 2 ^ l mod 2) :: u8)) [0..<FSRT_DEPTH]
      = map (\<lambda>l. (node E ?lf l (?n div 2 ^ l XOR 1), word_of_nat (?n div 2 ^ l mod 2))) [0..<FSRT_DEPTH]"
    by (rule map_cong [OF refl]) (simp only: sib set_upt atLeastLessThan_iff)
  then have steps: "cat_path_levels c [0..<FSRT_DEPTH] ?n =
      map (\<lambda>l. (node E ?lf l (?n div 2 ^ l XOR 1), word_of_nat (?n div 2 ^ l mod 2))) [0..<FSRT_DEPTH]"
    using cat_path_levels_map [of c 0 FSRT_DEPTH ?n] by (simp only: power_0 div_by_1)
  have "path_root E v (cat_path_levels c [0..<FSRT_DEPTH] ?n)
      = path_root E (?lf ?n) (map (\<lambda>l. (node E ?lf l (?n div 2 ^ l XOR 1), word_of_nat (?n div 2 ^ l mod 2))) [0..<FSRT_DEPTH])"
    unfolding steps by (simp add: slot_leaves_def)
  also have "\<dots> = node E ?lf FSRT_DEPTH (?n div 2 ^ FSRT_DEPTH)" by (rule path_root_node)
  also have "\<dots> = compute_chain_root E (vs @ [v])"
    using assms(2) by (simp add: compute_chain_root_node)
  finally show ?thesis by (simp add: path_for_current_slot_def t Let_def zip_map_fst_snd)
qed

section \<open>The ratchet\<close>

text \<open>\<open>vs\<close> are the values committed at enrollment; those before the head may have been erased.\<close>

definition chain_ok :: "'fr prims \<Rightarrow> 'fr list \<Rightarrow> 'fr chain_state \<Rightarrow> bool" where
  "chain_ok E vs st \<longleftrightarrow>
     length vs \<le> 2 ^ FSRT_DEPTH \<and> ch_chain_root st = compute_chain_root E vs \<and>
     length (ch_v_values st) = length vs \<and> length (ch_s_seeds st) = length vs \<and>
     unat (ch_t st) \<le> length vs \<and> drop (unat (ch_t st)) (ch_v_values st) = drop (unat (ch_t st)) vs \<and>
     cat_ok E (take (unat (ch_t st)) vs) (ch_caterpillar st)"

lemma chain_ok_suffix:
  "chain_ok E vs st \<Longrightarrow> unat (ch_t st) \<le> i \<Longrightarrow> i < length vs \<Longrightarrow> ch_v_values st ! i = vs ! i"
  using nth_drop [of "unat (ch_t st)" "ch_v_values st" "i - unat (ch_t st)"]
    nth_drop [of "unat (ch_t st)" vs "i - unat (ch_t st)"]
  by (simp add: chain_ok_def)

lemma drop_Suc_cong: "drop n xs = drop n ys \<Longrightarrow> drop (Suc n) xs = drop (Suc n) ys"
  by (simp add: drop_Suc flip: tl_drop)

lemma length_expand_loop: "length (fst (expand_loop E n s)) = n \<and> length (snd (expand_loop E n s)) = n"
proof (induction n arbitrary: s)
  case (Suc n)
  obtain v s' where "fsrt_prg_step E s = (v, s')" by fastforce
  moreover obtain vs ss where "expand_loop E n s' = (vs, ss)" by fastforce
  ultimately show ?case using Suc.IH [of s'] by simp
qed simp

lemma chain_enroll_ok:
  assumes "unat n \<le> 2 ^ FSRT_DEPTH"
  shows "chain_ok E (ch_v_values (chain_enroll E s_0 n av)) (chain_enroll E s_0 n av)"
    and "length (ch_v_values (chain_enroll E s_0 n av)) = unat n"
  using assms length_expand_loop [of E "unat n" s_0] cat_empty_ok [of E]
  by (auto simp: chain_ok_def chain_enroll_def expand_chain_def Let_def split: prod.splits)

lemma chain_step_ok:
  assumes "chain_ok E vs st" and "unat (ch_t st) < length vs"
  shows "\<exists>c. caterpillar_advance E (ch_caterpillar st) (ch_t st) (ch_v_values st ! unat (ch_t st)) = Some c
     \<and> cat_ok E (take (Suc (unat (ch_t st))) vs) c \<and> unat (ch_t st + 1) = Suc (unat (ch_t st))"
proof -
  let ?t = "unat (ch_t st)"
  have len: "length vs \<le> 2 ^ 24" using assms(1) by (simp add: chain_ok_def FSRT_DEPTH_def)
  have c: "cat_ok E (take ?t vs) (ch_caterpillar st)" using assms(1) by (simp add: chain_ok_def)
  then have "unat (cp_t (ch_caterpillar st)) = ?t" using assms(2) by (simp add: cat_ok_def)
  then have ct: "cp_t (ch_caterpillar st) = ch_t st" by (simp add: word_unat_eq_iff)
  have v: "ch_v_values st ! ?t = vs ! ?t" using chain_ok_suffix [OF assms(1)] assms(2) by simp
  have "length (take ?t vs) < 2 ^ 32 - 1" using len assms(2) by simp
  from caterpillar_advance_ok [OF c this, of "vs ! ?t"] ct v
  have "\<exists>c'. caterpillar_advance E (ch_caterpillar st) (ch_t st) (ch_v_values st ! ?t) = Some c'
      \<and> cat_ok E (take (Suc ?t) vs) c'"
    using assms(2) by (simp add: take_Suc_conv_app_nth)
  moreover have "unat (ch_t st + 1) = Suc ?t" using len assms(2) by (simp add: unat_word_ariths)
  ultimately show ?thesis by blast
qed

lemma advance_loop_ok:
  "chain_ok E vs st \<Longrightarrow> unat (ch_t st) + n < length vs \<Longrightarrow>
   \<exists>st'. advance_loop E n st = Some st' \<and> chain_ok E vs st' \<and> unat (ch_t st') = unat (ch_t st) + n
     \<and> ch_v_values st' = ch_v_values st \<and> ch_s_seeds st' = ch_s_seeds st
     \<and> ch_chain_root st' = ch_chain_root st \<and> ch_attr_version st' = ch_attr_version st"
proof (induction n arbitrary: st)
  case (Suc n)
  let ?t = "unat (ch_t st)"
  from chain_step_ok [OF Suc.prems(1)] Suc.prems(2) obtain c where
    c: "caterpillar_advance E (ch_caterpillar st) (ch_t st) (ch_v_values st ! ?t) = Some c"
    "cat_ok E (take (Suc ?t) vs) c" "unat (ch_t st + 1) = Suc ?t" by auto
  let ?st = "st\<lparr>ch_caterpillar := c, ch_t := ch_t st + 1\<rparr>"
  have "drop (Suc ?t) (ch_v_values st) = drop (Suc ?t) vs"
    using Suc.prems(1) by (intro drop_Suc_cong) (simp add: chain_ok_def)
  then have "chain_ok E vs ?st" using Suc.prems c by (simp add: chain_ok_def)
  from Suc.IH [OF this] c Suc.prems(2) show ?case by auto
qed simp

lemma advance_to_ok:
  assumes "chain_ok E vs st" and "ch_t st \<le> target" and "unat target < length vs"
  shows "\<exists>st'. advance_to E target st = Some st' \<and> chain_ok E vs st' \<and> ch_t st' = target
     \<and> ch_v_values st' = ch_v_values st \<and> ch_s_seeds st' = ch_s_seeds st
     \<and> ch_chain_root st' = ch_chain_root st \<and> ch_attr_version st' = ch_attr_version st"
proof -
  have len: "length (ch_v_values st) = length vs" "length vs \<le> 2 ^ 24"
    using assms(1) by (simp_all add: chain_ok_def FSRT_DEPTH_def)
  have "unat (chain_len st) = length vs" using len by (simp add: chain_len_def)
  then have g: "target < chain_len st" using assms(3) by (simp add: word_less_nat_alt)
  have le: "unat (ch_t st) \<le> unat target" using assms(2) by (simp add: word_le_nat_alt)
  with advance_loop_ok [OF assms(1), of "unat target - unat (ch_t st)"] assms(3)
  obtain st' where "advance_loop E (unat target - unat (ch_t st)) st = Some st'" "chain_ok E vs st'"
    "unat (ch_t st') = unat target" "ch_v_values st' = ch_v_values st" "ch_s_seeds st' = ch_s_seeds st"
    "ch_chain_root st' = ch_chain_root st" "ch_attr_version st' = ch_attr_version st" by auto
  with g assms(2) show ?thesis by (auto simp: advance_to_def word_unat_eq_iff not_less)
qed

lemma length_wipe [simp]: "length (wipe_upto E n xs) = length xs"
  by (simp add: wipe_upto_def)

lemma nth_wipe: "i < length xs \<Longrightarrow> wipe_upto E n xs ! i = (if i \<le> n then fr_of E 0 else xs ! i)"
  by (simp add: wipe_upto_def enumerated_def)

lemma drop_wipe: "drop (Suc n) (wipe_upto E n xs) = drop (Suc n) xs"
  by (rule nth_equalityI) (simp_all add: nth_wipe)

lemma journal_ok:
  assumes "chain_ok E vs st" and "unat (ch_t st) < length vs"
  shows "\<exists>s st'. journal_finalized_signing E persist (ch_t st) st =
       (case persist (journal_bytes s) of Inl e \<Rightarrow> Some (Inl e, st) | Inr _ \<Rightarrow> Some (Inr s, st'))
     \<and> chain_ok E vs st' \<and> s = chain_to_bytes E st' \<and> unat (ch_t st') = Suc (unat (ch_t st))
     \<and> ch_v_values st' = wipe_upto E (unat (ch_t st)) (ch_v_values st)
     \<and> ch_s_seeds st' = wipe_upto E (unat (ch_t st)) (ch_s_seeds st)
     \<and> ch_s_curr st' = snd (fsrt_prg_step E (ch_s_seeds st ! unat (ch_t st)))"
proof -
  let ?t = "unat (ch_t st)"
  have len: "length (ch_v_values st) = length vs" "length (ch_s_seeds st) = length vs"
    using assms(1) by (simp_all add: chain_ok_def)
  from chain_step_ok [OF assms] obtain c where
    c: "caterpillar_advance E (ch_caterpillar st) (ch_t st) (ch_v_values st ! ?t) = Some c"
    "cat_ok E (take (Suc ?t) vs) c" "unat (ch_t st + 1) = Suc ?t" by blast
  define st' where "st' = st\<lparr>ch_s_curr := snd (fsrt_prg_step E (ch_s_seeds st ! ?t)), ch_caterpillar := c,
    ch_t := ch_t st + 1, ch_v_values := wipe_upto E ?t (ch_v_values st), ch_s_seeds := wipe_upto E ?t (ch_s_seeds st)\<rparr>"
  have "drop (Suc ?t) (ch_v_values st) = drop (Suc ?t) vs"
    using assms(1) by (intro drop_Suc_cong) (simp add: chain_ok_def)
  then have "chain_ok E vs st'" using assms c by (simp add: st'_def chain_ok_def drop_wipe)
  moreover have "journal_finalized_signing E persist (ch_t st) st =
      (case persist (journal_bytes (chain_to_bytes E st')) of
         Inl e \<Rightarrow> Some (Inl e, st) | Inr _ \<Rightarrow> Some (Inr (chain_to_bytes E st'), st'))"
    using c(1) assms(2) len 
    by (simp add: journal_finalized_signing_def st'_def chain_to_bytes_def Let_def split: sum.split)
  ultimately show ?thesis using c(3)
    by (intro exI [of _ "chain_to_bytes E st'"] exI [of _ st']) (simp add: st'_def)
qed

text \<open>Two vectors with one root agree everywhere, or their trees show a collision of the node hash.\<close>

definition tree_collision :: "'fr prims \<Rightarrow> (nat \<Rightarrow> 'fr) \<Rightarrow> (nat \<Rightarrow> 'fr) \<Rightarrow> nat \<Rightarrow> bool" where
  "tree_collision E lf lf' n \<longleftrightarrow>
     (\<exists>l < n. \<exists>i < 2 ^ (n - Suc l).
        (node E lf l (2 * i), node E lf l (2 * i + 1)) \<noteq> (node E lf' l (2 * i), node E lf' l (2 * i + 1)) \<and>
        node E lf (Suc l) i = node E lf' (Suc l) i)"

lemma node_inject:
  assumes "\<not> tree_collision E lf lf' n" and "node E lf l i = node E lf' l i" and "l \<le> n" and "i < 2 ^ (n - l)"
    and "i * 2 ^ l \<le> j" and "j < Suc i * 2 ^ l"
  shows "lf j = lf' j"
  using assms(2-)
proof (induction l arbitrary: i)
  case (Suc l)
  have eq: "node E lf l (2 * i) = node E lf' l (2 * i)" "node E lf l (2 * i + 1) = node E lf' l (2 * i + 1)"
    using assms(1) Suc.prems(1-3) unfolding tree_collision_def by (metis Pair_inject Suc_le_lessD)+
  have "n - l = Suc (n - Suc l)" using Suc.prems(2) by simp
  then have small: "2 * i < 2 ^ (n - l)" "2 * i + 1 < 2 ^ (n - l)" using Suc.prems(3) by simp_all
  have "(2 * i * 2 ^ l \<le> j \<and> j < Suc (2 * i) * 2 ^ l) \<or>
      ((2 * i + 1) * 2 ^ l \<le> j \<and> j < Suc (2 * i + 1) * 2 ^ l)"
    using Suc.prems(4,5) by (auto simp: algebra_simps)
  then show ?case using Suc.IH [OF eq(1) _ small(1)] Suc.IH [OF eq(2) _ small(2)] Suc.prems(2) by auto
qed (simp add: less_Suc_eq_le)

lemma chain_root_inject:
  assumes "\<not> tree_collision E (slot_leaves E vs) (slot_leaves E ws) FSRT_DEPTH"
    and "compute_chain_root E vs = compute_chain_root E ws"
    and "length vs = length ws" and "length vs \<le> 2 ^ FSRT_DEPTH"
  shows "vs = ws"
proof (rule nth_equalityI [OF assms(3)])
  fix j assume "j < length vs"
  moreover have "node E (slot_leaves E vs) FSRT_DEPTH 0 = node E (slot_leaves E ws) FSRT_DEPTH 0"
    using assms(2) compute_chain_root_node [of vs E] compute_chain_root_node [of ws E] assms(3,4) by simp
  from node_inject [OF assms(1) this, of j] have "slot_leaves E vs j = slot_leaves E ws j"
    using \<open>j < length vs\<close> assms(4) by simp
  ultimately show "vs ! j = ws ! j" using assms(3) by (simp add: slot_leaves_def)
qed

section \<open>What the caterpillar knows\<close>

lemma caterpillar_fed:
  assumes "length vs < 2 ^ 24"
  shows "\<exists>c. foldl (\<lambda>oc v. Option.bind oc (\<lambda>c. caterpillar_advance E c (cp_t c) v)) (Some (caterpillar_empty E)) vs = Some c
    \<and> cat_ok E vs c"
  using assms
proof (induction vs rule: rev_induct)
  case (snoc v vs)
  then obtain c where c: "foldl (\<lambda>oc v. Option.bind oc (\<lambda>c. caterpillar_advance E c (cp_t c) v)) (Some (caterpillar_empty E)) vs = Some c"
    "cat_ok E vs c" by auto
  from caterpillar_advance_ok [OF c(2), of v] snoc.prems c(1) show ?case by auto
qed (simp add: cat_empty_ok)

lemma slot_leaves_take:
  assumes "t < length vs"
  shows "slot_leaves E (take (Suc t) vs) = slot_leaves E vs \<longleftrightarrow> (\<forall>i. t < i \<and> i < length vs \<longrightarrow> vs ! i = fr_of E 0)"
  using assms by (auto simp: slot_leaves_def fun_eq_iff less_Suc_eq_le split: if_splits) (metis not_le)

lemma prefix_root_iff:
  assumes "t < length vs" and "length vs \<le> 2 ^ 24"
  shows "(\<forall>i. t < i \<and> i < length vs \<longrightarrow> vs ! i = fr_of E 0) \<Longrightarrow> compute_chain_root E (take (Suc t) vs) = compute_chain_root E vs"
    and "compute_chain_root E (take (Suc t) vs) = compute_chain_root E vs \<Longrightarrow>
      (\<forall>i. t < i \<and> i < length vs \<longrightarrow> vs ! i = fr_of E 0)
      \<or> tree_collision E (slot_leaves E (take (Suc t) vs)) (slot_leaves E vs) 24"
proof -
  have n: "compute_chain_root E (take (Suc t) vs) = node E (slot_leaves E (take (Suc t) vs)) FSRT_DEPTH 0"
    "compute_chain_root E vs = node E (slot_leaves E vs) FSRT_DEPTH 0"
    using assms by (simp_all add: compute_chain_root_node FSRT_DEPTH_def)
  show "compute_chain_root E (take (Suc t) vs) = compute_chain_root E vs"
    if "\<forall>i. t < i \<and> i < length vs \<longrightarrow> vs ! i = fr_of E 0"
    using that slot_leaves_take [OF assms(1), of E] n by simp
  assume "compute_chain_root E (take (Suc t) vs) = compute_chain_root E vs"
  then have eq: "node E (slot_leaves E (take (Suc t) vs)) 24 0 = node E (slot_leaves E vs) 24 0"
    using n by (simp only: FSRT_DEPTH_def)
  have "vs ! i = fr_of E 0"
    if "\<not> tree_collision E (slot_leaves E (take (Suc t) vs)) (slot_leaves E vs) 24" "t < i" "i < length vs" for i
    using node_inject [OF that(1) eq, of i] that(2,3) assms(2) by (simp add: slot_leaves_def)
  then show "(\<forall>i. t < i \<and> i < length vs \<longrightarrow> vs ! i = fr_of E 0)
      \<or> tree_collision E (slot_leaves E (take (Suc t) vs)) (slot_leaves E vs) 24" by blast
qed

end
