(* ===== verification/Blob.thy ===== *)
theory Blob
  imports Types
begin

text \<open>
  \<open>src/blob.rs\<close>: the layout of a batch in a blob. A record has 96 bytes and fills four 32-byte
  field elements, 31 content bytes each behind a zero byte; a blob has room for 1000 records. The
  BLS12-381 scalar field (crate ark-bls12-381) is the record \<open>bls_prims\<close>.

  Shown here: a record and a blob survive encoding and decoding (a blob up to its first all-zero
  record, where the decoder stops); the scalars the batch proof commits to are the field elements
  of the blob; the bit-reversed evaluation exponents are distinct.
\<close>

section \<open>Constants\<close>

definition FE_PER_RECORD :: nat where "FE_PER_RECORD = 4"
definition CONTENT_PER_FE :: nat where "CONTENT_PER_FE = 31"
definition KZG_OPENING_COUNT :: nat where "KZG_OPENING_COUNT = BATCH_SIZE_MAX * FE_PER_RECORD"
definition BLOB_FIELD_ELEMENTS :: u64 where "BLOB_FIELD_ELEMENTS = 4096"

lemmas blob_consts = FE_PER_RECORD_def CONTENT_PER_FE_def RECORD_LEN_def RECORDS_PER_BLOB_def

definition fe_index :: "nat \<Rightarrow> nat \<Rightarrow> u32" where
  "fe_index i j = word_of_nat (FE_PER_RECORD * i + j)"

section \<open>Records\<close>

definition encode_record :: "record_entry \<Rightarrow> u8 list" where
  "encode_record r =
     copy_at 64 (u16_to_be (re_class_tag r))
       (copy_at 32 (re_identity_tag r) (copy_at 0 (re_nullifier r) (zeros RECORD_LEN)))"

definition decode_record :: "u8 list \<Rightarrow> record_entry" where
  "decode_record bytes =
     \<lparr>re_nullifier = slice 0 32 bytes, re_identity_tag = slice 32 64 bytes,
      re_class_tag = from_be [bytes ! 64, bytes ! 65]\<rparr>"

section \<open>Field elements\<close>

text \<open>Field element \<open>j\<close> of a record, and the record bytes read back from field elements.\<close>

definition record_fe :: "u8 list \<Rightarrow> nat \<Rightarrow> bytes32" where
  "record_fe record_bytes j =
     (let start = j * CONTENT_PER_FE; fin = min ((j + 1) * CONTENT_PER_FE) RECORD_LEN
      in copy_at 1 (slice start fin record_bytes) (zeros 32))"

definition put_fe :: "u8 list \<Rightarrow> nat \<times> bytes32 \<Rightarrow> u8 list" where
  "put_fe record_bytes = (\<lambda>(j, fe).
     let start = j * CONTENT_PER_FE; fin = min ((j + 1) * CONTENT_PER_FE) RECORD_LEN;
         n = fin - start
     in copy_at start (slice 1 (1 + n) fe) record_bytes)"

definition assemble_record :: "bytes32 list \<Rightarrow> u8 list" where
  "assemble_record fes = foldl put_fe (zeros RECORD_LEN) (enumerated fes)"

section \<open>Blobs\<close>

definition encode_blob :: "record_entry list \<Rightarrow> (blob_error, bytes32 list) result" where
  "encode_blob records =
     (if RECORDS_PER_BLOB < length records then Inl (Capacity (length records) RECORDS_PER_BLOB)
      else Inr (concat (map
        (\<lambda>i. let record_bytes =
                   (if i < length records then encode_record (records ! i) else zeros RECORD_LEN)
             in map (record_fe record_bytes) [0..<FE_PER_RECORD])
        [0..<RECORDS_PER_BLOB])))"

fun decode_loop :: "bytes32 list \<Rightarrow> nat list \<Rightarrow> record_entry list" where
  "decode_loop field_elements [] = []"
| "decode_loop field_elements (i # is) =
     (let record_bytes =
            assemble_record (map (\<lambda>j. field_elements ! (FE_PER_RECORD * i + j)) [0..<FE_PER_RECORD])
      in if list_all (\<lambda>b. b = 0) (take 66 record_bytes) then []
         else decode_record record_bytes # decode_loop field_elements is)"

definition decode_blob :: "bytes32 list \<Rightarrow> (blob_error, record_entry list) result" where
  "decode_blob field_elements =
     (if length field_elements \<noteq> RECORDS_PER_BLOB * FE_PER_RECORD
      then Inl (BlobMalformed ''blob field element count'')
      else Inr (decode_loop field_elements [0..<RECORDS_PER_BLOB]))"

definition compute_batch_versioned_hash :: "'fr prims \<Rightarrow> bytes32 list \<Rightarrow> bytes32" where
  "compute_batch_versioned_hash E field_elements =
     (copy_at 0 (sha256 E (concat field_elements)) (zeros 32))[0 := 0]"

definition record_to_bls_fields :: "'fr prims \<Rightarrow> record_entry \<Rightarrow> 'fr list" where
  "record_to_bls_fields E r =
     map (\<lambda>j. fr_from_be_bytes E (record_fe (encode_record r) j)) [0..<FE_PER_RECORD]"

section \<open>Evaluation points\<close>

record 'b bls_prims =
  root_of_unity :: "u64 \<Rightarrow> 'b option"
  bls_pow :: "'b \<Rightarrow> u64 \<Rightarrow> 'b"
  bls_to_bytes_be :: "'b \<Rightarrow> u8 list"

definition reverse_bits :: "u32 \<Rightarrow> u32" where
  "reverse_bits k = foldl (\<lambda>acc i. 2 * acc + (if bit k i then 1 else 0)) 0 [0..<32]"

definition bit_reverse :: "u32 \<Rightarrow> nat \<Rightarrow> u32" where
  "bit_reverse k log_n = drop_bit (32 - log_n) (reverse_bits k)"

definition bls_fr_to_be_bytes :: "'b bls_prims \<Rightarrow> 'b \<Rightarrow> bytes32" where
  "bls_fr_to_be_bytes P x =
     (let be = bls_to_bytes_be P x in copy_at (32 - length be) be (zeros 32))"

text \<open>\<open>None\<close> is the panic on a field without a 4096th root of unity; the count of trailing zeros
  of 4096 is 12.\<close>

definition canonical_eval_points :: "'b bls_prims \<Rightarrow> bytes32 list option" where
  "canonical_eval_points P =
     map_option
       (\<lambda>omega. map (\<lambda>k. bls_fr_to_be_bytes P (bls_pow P omega (ucast (bit_reverse (word_of_nat k) 12))))
                  [0..<KZG_OPENING_COUNT])
       (root_of_unity P BLOB_FIELD_ELEMENTS)"

definition bls_omega_4096_be :: "'b bls_prims \<Rightarrow> bytes32 option" where
  "bls_omega_4096_be P = map_option (bls_fr_to_be_bytes P) (root_of_unity P BLOB_FIELD_ELEMENTS)"

section \<open>Round trips\<close>

definition wf_record :: "record_entry \<Rightarrow> bool" where
  "wf_record r \<longleftrightarrow> length (re_nullifier r) = 32 \<and> length (re_identity_tag r) = 32"

lemma encode_record_eq:
  "wf_record r \<Longrightarrow>
   encode_record r = re_nullifier r @ re_identity_tag r @ u16_to_be (re_class_tag r) @ zeros 30"
  by (simp add: encode_record_def wf_record_def copy_at_def RECORD_LEN_def)

lemma length_encode_record [simp]: "wf_record r \<Longrightarrow> length (encode_record r) = 96"
  by (simp add: encode_record_eq) (simp add: wf_record_def)

lemma decode_encode_record [simp]:
  assumes "wf_record r" shows "decode_record (encode_record r) = r"
proof -
  have l: "length (re_nullifier r) = 32" "length (re_identity_tag r) = 32"
    using assms by (simp_all add: wf_record_def)
  have "[u16_to_be c ! 0, u16_to_be c ! Suc 0] = u16_to_be c" for c
    by (simp add: u16_to_be_def numeral_2_eq_2)
  then show ?thesis
    using assms l by (simp add: decode_record_def encode_record_eq slice_def nth_append)
qed

lemma length_record_fe [simp]: "j < 4 \<Longrightarrow> length b = 96 \<Longrightarrow> length (record_fe b j) = 32"
  by (simp add: record_fe_def blob_consts copy_at_def Let_def)

lemma record_fe_high_byte [simp]: "j < 4 \<Longrightarrow> length b = 96 \<Longrightarrow> record_fe b j ! 0 = 0"
  by (simp add: record_fe_def blob_consts copy_at_def Let_def zeros_def numeral_eq_Suc)

lemma upt_4: "[0..<4] = [0, 1, 2, 3::nat]"
  by (simp add: upt_rec)

lemma record_fe_content:
  assumes "length b = 96"
  shows "slice 1 32 (record_fe b 0) = take 31 b" "slice 1 32 (record_fe b 1) = take 31 (drop 31 b)"
    "slice 1 32 (record_fe b 2) = take 31 (drop 62 b)" "slice 1 4 (record_fe b 3) = drop 93 b"
  using assms by (simp_all add: record_fe_def blob_consts copy_at_def slice_def Let_def)

lemma assemble_four:
  assumes "length a = 32" "length b = 32" "length c = 32" "length d = 32"
  shows "assemble_record [a, b, c, d] = slice 1 32 a @ slice 1 32 b @ slice 1 32 c @ slice 1 4 d"
  using assms
  by (simp add: assemble_record_def enumerated_def put_fe_def blob_consts copy_at_def Let_def upt_rec slice_def)

lemma assemble_record_fes:
  assumes "length b = 96"
  shows "assemble_record (map (record_fe b) [0..<4]) = b"
proof -
  have "assemble_record (map (record_fe b) [0..<4]) =
      take 31 b @ take 31 (drop 31 b) @ take 31 (drop 62 b) @ drop 93 b"
    using assms by (simp add: upt_4 assemble_four record_fe_content [simplified])
  also have "\<dots> = b"
  proof -
    have "take 31 (drop 62 b) @ drop 93 b = drop 62 b"
      using append_take_drop_id [of 31 "drop 62 b"] by simp
    moreover have "take 31 (drop 31 b) @ drop 62 b = drop 31 b"
      using append_take_drop_id [of 31 "drop 31 b"] by simp
    ultimately show ?thesis by simp
  qed
  finally show ?thesis .
qed

lemma length_concat_uniform:
  "(\<And>i. i < n \<Longrightarrow> length (f i) = k) \<Longrightarrow> length (concat (map f [0..<n])) = k * n"
  by (induction n) auto

lemma nth_concat_uniform:
  assumes "\<And>i. i < n \<Longrightarrow> length (f i) = k" and "i < n" and "j < k"
  shows "concat (map f [0..<n]) ! (k * i + j) = f i ! j"
  using assms
proof (induction n)
  case (Suc n)
  have len: "length (concat (map f [0..<n])) = k * n" using Suc.prems by (intro length_concat_uniform) auto
  show ?case
  proof (cases "i < n")
    case True
    then have "k * i + j < k * n" using Suc.prems(3)
      by (metis add.commute add_less_cancel_left less_le_trans mult_Suc_right mult_le_mono2 Suc_leI)
    then show ?thesis using Suc True len by (simp add: nth_append)
  next
    case False
    then have "i = n" using Suc.prems by simp
    then show ?thesis using len by (simp add: nth_append)
  qed
qed simp

definition padded_bytes :: "record_entry list \<Rightarrow> nat \<Rightarrow> u8 list" where
  "padded_bytes records i = (if i < length records then encode_record (records ! i) else zeros RECORD_LEN)"

lemma length_padded_bytes [simp]:
  "\<forall>r \<in> set records. wf_record r \<Longrightarrow> length (padded_bytes records i) = 96"
  by (simp add: padded_bytes_def RECORD_LEN_def)

lemma encode_blob_fes:
  assumes "encode_blob records = Inr fes"
  shows "length fes = 4000"
    and "\<And>i j. i < 1000 \<Longrightarrow> j < 4 \<Longrightarrow> fes ! (4 * i + j) = record_fe (padded_bytes records i) j"
proof -
  have f: "fes = concat (map (\<lambda>i. map (record_fe (padded_bytes records i)) [0..<4]) [0..<1000])"
    using assms by (simp add: encode_blob_def padded_bytes_def blob_consts Let_def split: if_splits)
  show "length fes = 4000" unfolding f by (subst length_concat_uniform [of _ _ 4]) auto
  show "fes ! (4 * i + j) = record_fe (padded_bytes records i) j" if "i < 1000" "j < 4" for i j
    unfolding f using that by (subst nth_concat_uniform) auto
qed

lemma all_zero_record:
  assumes "wf_record r"
  shows "list_all (\<lambda>b. b = 0) (take 66 (encode_record r)) \<longleftrightarrow>
    r = \<lparr>re_nullifier = zeros 32, re_identity_tag = zeros 32, re_class_tag = 0\<rparr>"
proof -
  have "take 66 (encode_record r) = re_nullifier r @ re_identity_tag r @ u16_to_be (re_class_tag r)"
    using assms by (simp add: encode_record_eq) (simp add: wf_record_def)
  moreover have "list_all (\<lambda>b. b = 0) (u16_to_be c) \<longleftrightarrow> c = 0" for c
    by (simp add: all_zero_iff_be_nat unat_eq_0)
  moreover have "list_all (\<lambda>b. b = 0) (re_nullifier r) \<longleftrightarrow> re_nullifier r = zeros 32"
    "list_all (\<lambda>b. b = 0) (re_identity_tag r) \<longleftrightarrow> re_identity_tag r = zeros 32"
    using assms list_all_zero_iff [of "re_nullifier r"] list_all_zero_iff [of "re_identity_tag r"]
    by (simp_all add: wf_record_def)
  ultimately show ?thesis by (cases r) simp
qed

definition zero_record :: record_entry where
  "zero_record = \<lparr>re_nullifier = zeros 32, re_identity_tag = zeros 32, re_class_tag = 0\<rparr>"

text \<open>The decoder reads the records up to the first all-zero one.\<close>

lemma decode_loop_encoded:
  assumes wf: "\<forall>r \<in> set records. wf_record r" and enc: "encode_blob records = Inr fes"
    and "k \<le> 1000"
  shows "decode_loop fes [k..<1000] = takeWhile (\<lambda>r. r \<noteq> zero_record) (drop k records)"
  using assms(3)
proof (induction "1000 - k" arbitrary: k)
  case 0
  moreover have "length records \<le> 1000"
    using enc by (simp add: encode_blob_def blob_consts split: if_splits)
  ultimately show ?case by simp
next
  case (Suc n)
  then have k: "k < 1000" and u: "[k..<1000] = k # [Suc k..<1000]" by (simp_all add: upt_conv_Cons)
  have "map (\<lambda>j. fes ! (4 * k + j)) [0..<4] = map (record_fe (padded_bytes records k)) [0..<4]"
    using encode_blob_fes(2) [OF enc k] by simp
  then have a: "assemble_record (map (\<lambda>j. fes ! (4 * k + j)) [0..<4]) = padded_bytes records k"
    using wf by (simp only: assemble_record_fes length_padded_bytes)
  have IH: "decode_loop fes [Suc k..<1000] = takeWhile (\<lambda>r. r \<noteq> zero_record) (drop (Suc k) records)"
    using Suc k by (intro Suc.hyps) auto
  show ?case
  proof (cases "k < length records")
    case True
    then have w: "wf_record (records ! k)" using wf by simp
    have d: "drop k records = records ! k # drop (Suc k) records" using True by (simp add: Cons_nth_drop_Suc)
    show ?thesis
      using a IH True w unfolding u d
      by (simp add: FE_PER_RECORD_def padded_bytes_def all_zero_record zero_record_def [symmetric])
  next
    case False
    then show ?thesis using a unfolding u by (simp add: FE_PER_RECORD_def padded_bytes_def)
  qed
qed

lemma decode_encode_blob:
  assumes "\<forall>r \<in> set records. wf_record r" and "encode_blob records = Inr fes"
  shows "decode_blob fes = Inr (takeWhile (\<lambda>r. r \<noteq> zero_record) records)"
  using decode_loop_encoded [OF assms, of 0] encode_blob_fes(1) [OF assms(2)]
  by (simp add: decode_blob_def blob_consts)

lemma encode_blob_ok: "length records \<le> 1000 \<Longrightarrow> \<exists>fes. encode_blob records = Inr fes"
  by (simp add: encode_blob_def blob_consts)

lemma bls_fields_of_blob:
  assumes "field_laws E" and "\<forall>r \<in> set records. wf_record r" and "encode_blob records = Inr fes"
    and "i < length records" and "j < 4"
  shows "fr_to_be_bytes E (record_to_bls_fields E (records ! i) ! j) = fes ! (4 * i + j)"
proof -
  have "length records \<le> 1000"
    using assms(3) by (simp add: encode_blob_def blob_consts split: if_splits)
  then have "fes ! (4 * i + j) = record_fe (encode_record (records ! i)) j"
    using encode_blob_fes(2) [OF assms(3), of i j] assms(4,5) by (simp add: padded_bytes_def)
  moreover have "wf_record (records ! i)" using assms(2,4) by simp
  ultimately show ?thesis
    using assms(1,5) fr_from_high_byte_zero [of E "record_fe (encode_record (records ! i)) j"]
    by (simp add: record_to_bls_fields_def FE_PER_RECORD_def)
qed

lemma versioned_hash_bytes:
  assumes "digest_laws E"
  shows "length (compute_batch_versioned_hash E fes) = 32" and "compute_batch_versioned_hash E fes ! 0 = 0"
  using assms by (simp_all add: compute_batch_versioned_hash_def digest_laws_def)

lemma versioned_hash_scalar [simp]:
  "field_laws E \<Longrightarrow> digest_laws E \<Longrightarrow>
   fr_to_be_bytes E (fr_from_be_bytes E (compute_batch_versioned_hash E fes)) =
   compute_batch_versioned_hash E fes"
  by (rule fr_from_high_byte_zero) (simp_all add: versioned_hash_bytes)

section \<open>Bit reversal\<close>

lemma bit_double_plus:
  fixes w :: "'a::len word"
  shows "bit (2 * w + of_bool b) j \<longleftrightarrow> j < LENGTH('a) \<and> (if j = 0 then b else bit w (j - 1))"
proof -
  have "push_bit 1 w AND of_bool b = 0"
    by (rule bit_eqI) (simp only: bit_and_iff bit_push_bit_iff bit_of_bool_iff bit_0_eq bot_apply; simp)
  then have "push_bit 1 w + of_bool b = push_bit 1 w OR of_bool b" by (rule disjunctive_add_eq_or)
  then have "bit (2 * w + of_bool b) j \<longleftrightarrow> bit (push_bit 1 w OR of_bool b) j" by (simp add: push_bit_eq_mult mult.commute)
  then show ?thesis unfolding bit_or_iff bit_push_bit_iff bit_of_bool_iff by auto
qed

lemma reverse_fold_bits:
  fixes k :: u32
  assumes "n \<le> 32"
  shows "bit (foldl (\<lambda>acc i. 2 * acc + (if bit k i then 1 else 0)) (0 :: u32) [0..<n]) j \<longleftrightarrow> j < n \<and> bit k (n - 1 - j)"
  using assms
proof (induction n arbitrary: j)
  case (Suc n)
  let ?f = "foldl (\<lambda>acc i. 2 * acc + (if bit k i then 1 else 0)) (0 :: u32) [0..<n]"
  have "bit (foldl (\<lambda>acc i. 2 * acc + (if bit k i then 1 else 0)) (0 :: u32) [0..<Suc n]) j = bit (2 * ?f + of_bool (bit k n)) j"
    by (simp add: of_bool_def)
  also have "\<dots> \<longleftrightarrow> j < Suc n \<and> bit k (Suc n - 1 - j)"
    using Suc.IH [of "j - 1"] Suc.prems by (cases j) (auto simp: bit_double_plus)
  finally show ?case .
qed simp

lemma bit_bit_reverse: "bit (bit_reverse k 12) j \<longleftrightarrow> j < 12 \<and> bit k (11 - j)"
  unfolding bit_reverse_def reverse_bits_def
  by (auto simp: bit_drop_bit_eq reverse_fold_bits)

lemma bit_reverse_involution:
  assumes "unat k < 4096"
  shows "bit_reverse (bit_reverse k 12) 12 = k" and "unat (bit_reverse k 12) < 4096"
proof -
  have self: "take_bit 12 w = w \<longleftrightarrow> unat w < 4096" for w :: u32
    by (simp add: word_unat_eq_iff unsigned_take_bit_eq take_bit_nat_eq_self_iff)
  have high: "\<not> bit k j" if "12 \<le> j" for j
  proof -
    have "take_bit 12 k = k" using assms self by simp
    then show ?thesis using that by (metis bit_take_bit_iff not_le)
  qed
  show "bit_reverse (bit_reverse k 12) 12 = k"
  proof (rule bit_eqI)
    fix n show "bit (bit_reverse (bit_reverse k 12) 12) n = bit k n"
      using high [of n] by (cases "n < 12") (auto simp: bit_bit_reverse not_less)
  qed
  have "take_bit 12 (bit_reverse k 12) = bit_reverse k 12"
    by (rule bit_eqI) (auto simp: bit_bit_reverse bit_take_bit_iff)
  then show "unat (bit_reverse k 12) < 4096" using self by simp
qed

end
