(* ===== verification/Ports.thy ===== *)
theory Ports
  imports Blob
begin

text \<open>
  \<open>src/ports\<close>: the interfaces between the actors and their infrastructure. A trait is a record of
  operations (the dictionary an actor is built with), its receiver an explicit state; what an
  actor may rely on is a locale, interpreted in the theory \<open>Adapters\<close> on the in-process
  implementations. \<open>src/clock.rs\<close> is the block number an actor reads during a call.
\<close>

section \<open>Operations\<close>

record 'fr proof_backend =
  generate_signer_proof ::
    "'fr signer_public_inputs \<Rightarrow> 'fr signer_private_inputs \<Rightarrow> (proof_error, u8 list) result"
  generate_batch_proof ::
    "'fr batch_public_inputs \<Rightarrow> 'fr batch_position_witness list \<Rightarrow> (proof_error, u8 list) result"
  generate_resolution_proof ::
    "'fr resolution_public_inputs \<Rightarrow> 'fr resolution_private_inputs \<Rightarrow> (proof_error, u8 list) result"
  verify_signer_proof :: "u8 list \<Rightarrow> 'fr signer_public_inputs \<Rightarrow> (proof_error, unit) result"
  verify_batch_proof :: "u8 list \<Rightarrow> 'fr batch_public_inputs \<Rightarrow> (proof_error, unit) result"
  verify_resolution_proof :: "u8 list \<Rightarrow> 'fr resolution_public_inputs \<Rightarrow> (proof_error, unit) result"

record 'c blob_carrier =
  bc_publish :: "'c \<Rightarrow> record_entry list \<Rightarrow> (blob_error, bytes32 \<times> 'c) result"
  bc_open :: "'c \<Rightarrow> bytes32 \<Rightarrow> u32 \<Rightarrow> (blob_error, kzg_opening) result"
  bc_verify :: "'c \<Rightarrow> bytes32 \<Rightarrow> kzg_opening \<Rightarrow> (blob_error, unit) result"
  bc_fetch_records :: "'c \<Rightarrow> bytes32 \<Rightarrow> (blob_error, record_entry list) result"

record ri_path =
  ri_siblings :: "bytes32 list"
  ri_indices :: "u8 list"

record 'r ri_layer =
  ri_append_leaf :: "'r \<Rightarrow> bytes32 \<Rightarrow> u64 \<Rightarrow> u32 \<times> 'r"
  ri_root :: "'r \<Rightarrow> bytes32"
  ri_merkle_path :: "'r \<Rightarrow> u32 \<Rightarrow> (merkle_error, ri_path) result"
  ri_root_first_seen :: "'r \<Rightarrow> bytes32 \<Rightarrow> u64 option"

datatype submission_error = UnknownRelay | Rejected string

section \<open>The clock\<close>

type_synonym block_clock = u64

definition clock_new :: "u64 \<Rightarrow> block_clock" where "clock_new at = at"
definition clock_set :: "block_clock \<Rightarrow> u64 \<Rightarrow> block_clock" where "clock_set c at = at"
definition clock_advance :: "block_clock \<Rightarrow> u64 \<Rightarrow> block_clock" where "clock_advance c by_n = c + by_n"
definition block_number :: "block_clock \<Rightarrow> u64" where "block_number c = c"

section \<open>Contracts\<close>

text \<open>A proof backend is complete: what it generates it verifies, given the \<open>laws\<close> of the
  primitives it is built on.\<close>

locale complete_backend =
  fixes laws :: bool
    and gen :: "'pub \<Rightarrow> 'priv \<Rightarrow> (proof_error, u8 list) result"
    and ver :: "u8 list \<Rightarrow> 'pub \<Rightarrow> (proof_error, unit) result"
  assumes generated_verifies: "laws \<Longrightarrow> gen pub priv = Inr p \<Longrightarrow> ver p pub = Inr ()"
begin

lemma rejected_not_generated: "laws \<Longrightarrow> ver p pub = Inl e \<Longrightarrow> gen pub priv \<noteq> Inr p"
  using generated_verifies by fastforce

end

text \<open>A backend that also ties a proof to its public inputs: the same bytes verify against two
  inputs only when the inputs digest alike.\<close>

locale binding_backend = complete_backend laws gen ver
  for laws :: bool and gen :: "'pub \<Rightarrow> 'priv \<Rightarrow> (proof_error, u8 list) result"
    and ver :: "u8 list \<Rightarrow> 'pub \<Rightarrow> (proof_error, unit) result" +
  fixes digest :: "'pub \<Rightarrow> u8 list"
  assumes verified_binds: "ver p pub = Inr () \<Longrightarrow> ver p pub' = Inr () \<Longrightarrow> digest pub = digest pub'"
begin

lemma generated_binds:
  "laws \<Longrightarrow> gen pub priv = Inr p \<Longrightarrow> ver p pub' = Inr () \<Longrightarrow> digest pub = digest pub'"
  using generated_verifies verified_binds by blast

end

text \<open>A blob carrier keeps what was published under its versioned hash, and verifies exactly the
  field elements it opens.\<close>

locale blob_store =
  fixes ok :: "'c \<Rightarrow> bool"
    and vhash :: "bytes32 list \<Rightarrow> bytes32"
    and pub :: "'c \<Rightarrow> record_entry list \<Rightarrow> (blob_error, bytes32 \<times> 'c) result"
    and opn :: "'c \<Rightarrow> bytes32 \<Rightarrow> u32 \<Rightarrow> (blob_error, kzg_opening) result"
    and ver :: "'c \<Rightarrow> bytes32 \<Rightarrow> kzg_opening \<Rightarrow> (blob_error, unit) result"
    and fetch :: "'c \<Rightarrow> bytes32 \<Rightarrow> (blob_error, record_entry list) result"
  assumes publish_ok:
      "ok c \<Longrightarrow> encode_blob rs = Inr fes \<Longrightarrow>
       \<exists>c'. pub c rs = Inr (vhash fes, c') \<and> ok c' \<and> fetch c' (vhash fes) = Inr rs
         \<and> (\<forall>vh. vh \<noteq> vhash fes \<longrightarrow> fetch c' vh = fetch c vh)"
    and publish_full: "ok c \<Longrightarrow> encode_blob rs = Inl e \<Longrightarrow> pub c rs = Inl e"
    and fetch_encodes:
      "ok c \<Longrightarrow> fetch c vh = Inr rs \<Longrightarrow> \<exists>fes. encode_blob rs = Inr fes \<and> vhash fes = vh"
    and open_iff:
      "ok c \<Longrightarrow> fetch c vh = Inr rs \<Longrightarrow> encode_blob rs = Inr fes \<Longrightarrow>
       opn c vh i = Inr opening \<Longrightarrow>
       unat i < length fes \<and> ko_field_element_index opening = i \<and> ko_claimed_value opening = fes ! unat i
         \<and> ver c vh opening = Inr ()"
    and open_ok:
      "ok c \<Longrightarrow> fetch c vh = Inr rs \<Longrightarrow> encode_blob rs = Inr fes \<Longrightarrow> unat i < length fes \<Longrightarrow>
       \<exists>opening. opn c vh i = Inr opening"
    and open_fetched: "ok c \<Longrightarrow> opn c vh i = Inr opening \<Longrightarrow> \<exists>rs. fetch c vh = Inr rs"
    and verify_sound:
      "ok c \<Longrightarrow> ver c vh opening = Inr () \<Longrightarrow>
       \<exists>rs fes. fetch c vh = Inr rs \<and> encode_blob rs = Inr fes
         \<and> unat (ko_field_element_index opening) < length fes
         \<and> ko_claimed_value opening = fes ! unat (ko_field_element_index opening)"
begin

text \<open>Republishing the same records changes nothing, and nobody can open a hash to two values.\<close>

lemma publish_fetch:
  assumes "ok c" and "pub c rs = Inr (vh, c')"
  shows "ok c' \<and> fetch c' vh = Inr rs \<and> (\<forall>vh'. vh' \<noteq> vh \<longrightarrow> fetch c' vh' = fetch c vh')"
proof (cases "encode_blob rs")
  case (Inl e)
  with publish_full [OF assms(1)] assms(2) show ?thesis by auto
next
  case (Inr fes)
  with publish_ok [OF assms(1) Inr] assms(2) show ?thesis by auto
qed

lemma verified_values_agree:
  assumes "ok c" and "ver c vh a = Inr ()" and "ver c vh b = Inr ()"
    and "ko_field_element_index a = ko_field_element_index b"
  shows "ko_claimed_value a = ko_claimed_value b"
  using verify_sound [OF assms(1,2)] verify_sound [OF assms(1,3)] assms(4) by auto

lemma opened_verifies:
  assumes "ok c" and "opn c vh i = Inr opening"
  shows "ver c vh opening = Inr ()"
proof -
  from open_fetched [OF assms] obtain rs where "fetch c vh = Inr rs" by blast
  with fetch_encodes [OF assms(1)] open_iff [OF assms(1) _ _ assms(2)] show ?thesis by blast
qed

end

text \<open>A submission channel is a family of queues: a submission reaches the end of the queue it is
  addressed to and no other.\<close>

locale relay_channel =
  fixes queue :: "'q \<Rightarrow> bytes32 \<Rightarrow> signer_submission list option"
    and submit :: "'q \<Rightarrow> bytes32 \<Rightarrow> signer_submission \<Rightarrow> (submission_error, 'q) result"
  assumes submit_known:
      "queue m i = Some q \<Longrightarrow> \<exists>m'. submit m i s = Inr m' \<and> queue m' i = Some (q @ [s])
         \<and> (\<forall>j. j \<noteq> i \<longrightarrow> queue m' j = queue m j)"
    and submit_unknown: "queue m i = None \<Longrightarrow> submit m i s = Inl UnknownRelay"
begin

text \<open>Every relay receives exactly what was addressed to it, in the order it was sent.\<close>

lemma submissions_fifo:
  assumes "try_fold (\<lambda>m (i, s). submit m i s) m xs = Inr m'" and "queue m i = Some q"
  shows "queue m' i = Some (q @ map snd (filter (\<lambda>(j, s). j = i) xs))"
  using assms
proof (induction xs arbitrary: m q)
  case (Cons x xs)
  obtain j s where x: "x = (j, s)" by fastforce
  from Cons.prems obtain m1 where m1: "submit m j s = Inr m1"
    "try_fold (\<lambda>m (i, s). submit m i s) m1 xs = Inr m'"
    by (auto simp: x and_then_eq_Inr)
  then obtain qj where "queue m j = Some qj" using submit_unknown [of m j s] by fastforce
  from submit_known [OF this, of s] m1(1)
  have "queue m1 i = Some (if j = i then q @ [s] else q)" using Cons.prems(2) \<open>queue m j = Some qj\<close> by auto
  from Cons.IH [OF m1(2) this] show ?case by (auto simp: x)
qed simp

end

end
