(* ===== verification/PredicateLang.thy ===== *)
theory PredicateLang
  imports Types
begin

text \<open>
  \<open>src/predicate.rs\<close>: the postfix predicate language. A definition is a list of comparison
  tuples and a list of operations on a boolean stack; the code validates it, encodes and decodes
  its wire form, evaluates it over an attribute vector, runs the class-binding taint analysis
  over the same operations, and packs the wire form into 34 scalars for hashing. A Rust stack is
  a \<open>Vec\<close> whose top is the last element; here the top is the head of the list.

  Shown here: encoding round trips and decoding accepts only encodings (up to trailing bytes);
  evaluation is the meaning of the expression the operations spell; a predicate that passes the
  taint analysis forces the class attribute; the packing into scalars is injective.
\<close>

section \<open>Structural validation\<close>

definition op_count :: "predicate_def \<Rightarrow> nat" where
  "op_count d = length (pd_ops d)"

definition tuple_count :: "predicate_def \<Rightarrow> nat" where
  "tuple_count d = length (pd_tuples d)"

definition is_int64_in_range :: "bytes32 \<Rightarrow> bool" where
  "is_int64_in_range bytes \<longleftrightarrow> list_all (\<lambda>b. b = 0) (take 24 bytes)"

definition is_bool_operand :: "bytes32 \<Rightarrow> bool" where
  "is_bool_operand bytes \<longleftrightarrow> list_all (\<lambda>b. b = 0) (take 31 bytes) \<and> bytes ! 31 \<le> 1"

definition validate_op :: "predicate_def \<Rightarrow> unit \<Rightarrow> op \<Rightarrow> (predicate_error, unit) result" where
  "validate_op d u p =
     (if op_code p = PushTuple then
        (if length (pd_tuples d) \<le> unat (op_operand p)
         then Inl (OperandOutOfRange (op_operand p) (word_of_nat (length (pd_tuples d))))
         else Inr ())
      else if op_operand p \<noteq> 0 then Inl (Malformed ''non-PUSH op has nonzero operand'')
      else Inr ())"

fun validate_tuple :: "unit \<Rightarrow> tuple \<Rightarrow> (predicate_error, unit) result" where
  "validate_tuple u t =
     (case (tp_type_tag t, tp_comparator t) of
        (Int64, _) \<Rightarrow>
          if \<not> is_int64_in_range (tp_operand t) then Inl Int64OperandOutOfRange else Inr ()
      | (Hash, Eq) \<Rightarrow> Inr ()
      | (Hash, _) \<Rightarrow> Inl (TypeMismatch ''HASH supports == only'')
      | (Bool, Eq) \<Rightarrow>
          if \<not> is_bool_operand (tp_operand t)
          then Inl (TypeMismatch ''BOOL operand must be 0 or 1'') else Inr ()
      | (Bool, _) \<Rightarrow> Inl (TypeMismatch ''BOOL supports == only''))"

definition validate :: "predicate_def \<Rightarrow> (predicate_error, unit) result" where
  "validate d =
     (if \<not> (1 \<le> length (pd_tuples d) \<and> length (pd_tuples d) \<le> PREDICATE_TUPLE_MAX)
      then Inl (TupleCountOutOfRange (length (pd_tuples d)))
      else if \<not> (1 \<le> length (pd_ops d) \<and> length (pd_ops d) \<le> PREDICATE_OP_MAX)
      then Inl (OpCountOutOfRange (length (pd_ops d)))
      else and_then (try_fold (validate_op d) () (pd_ops d))
             (\<lambda>_. try_fold validate_tuple () (pd_tuples d)))"

section \<open>Wire form\<close>

definition serialized_len :: "predicate_def \<Rightarrow> nat" where
  "serialized_len d = 1 + length (pd_tuples d) * 35 + 1 + length (pd_ops d) * 2"

definition encode_tuple :: "tuple \<Rightarrow> u8 list" where
  "encode_tuple t =
     [tp_claim_index t] @ tp_operand t @ [type_tag_u8 (tp_type_tag t), comparator_u8 (tp_comparator t)]"

definition encode_op :: "op \<Rightarrow> u8 list" where
  "encode_op p = [op_code_u8 (op_code p), op_operand p]"

definition encode :: "predicate_def \<Rightarrow> (predicate_error, u8 list) result" where
  "encode d =
     and_then (validate d) (\<lambda>_.
       if PREDICATE_BYTES_MAX < serialized_len d then Inl TooLarge
       else Inr ([word_of_nat (length (pd_tuples d))] @ concat (map encode_tuple (pd_tuples d))
                 @ [word_of_nat (length (pd_ops d))] @ concat (map encode_op (pd_ops d))))"

fun decode_tuples ::
    "u8 list \<Rightarrow> nat \<Rightarrow> nat \<Rightarrow> tuple list \<Rightarrow> (predicate_error, tuple list \<times> nat) result" where
  "decode_tuples bytes 0 idx tuples = Inr (tuples, idx)"
| "decode_tuples bytes (Suc n) idx tuples =
     and_then (map_err BadTypeTag (type_tag_try_from (bytes ! (idx + 33)))) (\<lambda>tag.
     and_then (map_err BadComparator (comparator_try_from (bytes ! (idx + 34)))) (\<lambda>cmp.
       decode_tuples bytes n (idx + 35)
         (tuples @ [\<lparr>tp_claim_index = bytes ! idx, tp_operand = slice (idx + 1) (idx + 33) bytes,
                     tp_type_tag = tag, tp_comparator = cmp\<rparr>])))"

fun decode_ops ::
    "u8 list \<Rightarrow> nat \<Rightarrow> nat \<Rightarrow> op list \<Rightarrow> (predicate_error, op list \<times> nat) result" where
  "decode_ops bytes 0 idx ops = Inr (ops, idx)"
| "decode_ops bytes (Suc n) idx ops =
     and_then (map_err BadOpcode (op_code_try_from (bytes ! idx))) (\<lambda>code.
       decode_ops bytes n (idx + 2) (ops @ [\<lparr>op_code = code, op_operand = bytes ! (idx + 1)\<rparr>]))"

definition decode :: "u8 list \<Rightarrow> (predicate_error, predicate_def) result" where
  "decode bytes =
     (if PREDICATE_BYTES_MAX < length bytes then Inl TooLarge
      else if length bytes < 2 then Inl (Malformed ''buffer too short'')
      else
        (let tuple_count = unat (bytes ! 0) in
         if PREDICATE_TUPLE_MAX < tuple_count then Inl (TupleCountOutOfRange tuple_count)
         else if length bytes < 1 + tuple_count * 35 + 1 then Inl (Malformed ''truncated tuples'')
         else
           and_then (decode_tuples bytes tuple_count 1 []) (\<lambda>(tuples, idx).
             (let op_count = unat (bytes ! idx); idx = idx + 1 in
              if length bytes < idx + op_count * 2 then Inl (Malformed ''truncated ops'')
              else
                and_then (decode_ops bytes op_count idx []) (\<lambda>(ops, _).
                  (let d = \<lparr>pd_tuples = tuples, pd_ops = ops\<rparr>
                   in and_then (validate d) (\<lambda>_. Inr d)))))))"

section \<open>Evaluation\<close>

definition fr_to_u64_low :: "'fr prims \<Rightarrow> 'fr \<Rightarrow> u64" where
  "fr_to_u64_low E x = from_be (slice 24 32 (fr_to_be_bytes E x))"

definition eval_tuple :: "'fr prims \<Rightarrow> tuple \<Rightarrow> 'fr list \<Rightarrow> (predicate_error, bool) result" where
  "eval_tuple E t attr_vector =
     (if length attr_vector \<le> unat (tp_claim_index t)
      then Inl (Malformed ''claim_index out of range'')
      else
        (let attr_fr = attr_vector ! unat (tp_claim_index t);
             operand_fr = fr_from_be_bytes E (tp_operand t);
             attr_u = fr_to_u64_low E attr_fr;
             op_u = from_be (slice 24 32 (tp_operand t))
         in case (tp_type_tag t, tp_comparator t) of
              (Bool, Eq) \<Rightarrow> Inr (attr_fr = operand_fr)
            | (Hash, Eq) \<Rightarrow> Inr (attr_fr = operand_fr)
            | (Int64, Eq) \<Rightarrow> Inr (attr_fr = operand_fr)
            | (Int64, Le) \<Rightarrow> Inr (attr_u \<le> op_u)
            | (Int64, Ge) \<Rightarrow> Inr (op_u \<le> attr_u)
            | _ \<Rightarrow> Inl (TypeMismatch ''tuple type comparator not allowed'')))"

fun pop_two :: "nat \<Rightarrow> 'a list \<Rightarrow> (predicate_error, ('a \<times> 'a) \<times> 'a list) result" where
  "pop_two i (b # a # rest) = Inr ((a, b), rest)"
| "pop_two i _ = Inl (StackUnderflow i)"

fun pop_one :: "nat \<Rightarrow> 'a list \<Rightarrow> (predicate_error, 'a \<times> 'a list) result" where
  "pop_one i (a # rest) = Inr (a, rest)"
| "pop_one i [] = Inl (StackUnderflow i)"

definition eval_op ::
    "'fr prims \<Rightarrow> tuple list \<Rightarrow> 'fr list \<Rightarrow> nat \<Rightarrow> bool list \<Rightarrow> op \<Rightarrow> (predicate_error, bool list) result"
where
  "eval_op E tuples attrs i stack p =
     (case op_code p of
        PushTuple \<Rightarrow>
          and_then (eval_tuple E (tuples ! unat (op_operand p)) attrs) (\<lambda>v. Inr (v # stack))
      | AndOp \<Rightarrow> and_then (pop_two i stack) (\<lambda>((a, b), rest). Inr ((a \<and> b) # rest))
      | OrOp \<Rightarrow> and_then (pop_two i stack) (\<lambda>((a, b), rest). Inr ((a \<or> b) # rest))
      | NotOp \<Rightarrow> and_then (pop_one i stack) (\<lambda>(a, rest). Inr ((\<not> a) # rest))
      | Nop \<Rightarrow> Inr stack)"

fun eval_ops ::
    "'fr prims \<Rightarrow> tuple list \<Rightarrow> 'fr list \<Rightarrow> nat \<Rightarrow> bool list \<Rightarrow> op list \<Rightarrow> (predicate_error, bool list) result"
where
  "eval_ops E tuples attrs i stack [] = Inr stack"
| "eval_ops E tuples attrs i stack (p # ps) =
     and_then (eval_op E tuples attrs i stack p) (\<lambda>s. eval_ops E tuples attrs (Suc i) s ps)"

definition evaluate :: "'fr prims \<Rightarrow> predicate_def \<Rightarrow> 'fr list \<Rightarrow> (predicate_error, bool) result" where
  "evaluate E d attr_vector =
     and_then (validate d) (\<lambda>_.
     and_then (eval_ops E (pd_tuples d) attr_vector 0 [] (pd_ops d)) (\<lambda>stack.
       if length stack \<noteq> 1 then Inl (NonSingletonResult (length stack)) else Inr (stack ! 0)))"

section \<open>Class binding\<close>

datatype tag = Bound | Free | Tainted

definition taint_and :: "tag \<Rightarrow> tag \<Rightarrow> tag" where
  "taint_and a b =
     (if a = Bound \<or> b = Bound then Bound
      else if a = Tainted \<or> b = Tainted then Tainted else Free)"

definition taint_or :: "tag \<Rightarrow> tag \<Rightarrow> tag" where
  "taint_or a b =
     (if a = Bound \<and> b = Bound then Bound
      else if a = Bound \<or> b = Bound \<or> a = Tainted \<or> b = Tainted then Tainted else Free)"

definition taint_not :: "tag \<Rightarrow> tag" where
  "taint_not a = (if a = Bound then Tainted else a)"

definition taint_op :: "nat list \<Rightarrow> nat \<Rightarrow> tag list \<Rightarrow> op \<Rightarrow> (predicate_error, tag list) result" where
  "taint_op binding i stack p =
     (case op_code p of
        PushTuple \<Rightarrow>
          Inr ((if unat (op_operand p) \<in> set binding then Bound else Free) # stack)
      | AndOp \<Rightarrow> and_then (pop_two i stack) (\<lambda>((a, b), rest). Inr (taint_and a b # rest))
      | OrOp \<Rightarrow> and_then (pop_two i stack) (\<lambda>((a, b), rest). Inr (taint_or a b # rest))
      | NotOp \<Rightarrow> and_then (pop_one i stack) (\<lambda>(a, rest). Inr (taint_not a # rest))
      | Nop \<Rightarrow> Inr stack)"

fun taint_ops :: "nat list \<Rightarrow> nat \<Rightarrow> tag list \<Rightarrow> op list \<Rightarrow> (predicate_error, tag list) result" where
  "taint_ops binding i stack [] = Inr stack"
| "taint_ops binding i stack (p # ps) =
     and_then (taint_op binding i stack p) (\<lambda>s. taint_ops binding (Suc i) s ps)"

definition evaluate_class_binding_taint :: "op list \<Rightarrow> nat list \<Rightarrow> (predicate_error, tag) result" where
  "evaluate_class_binding_taint ops binding =
     and_then (taint_ops binding 0 [] ops) (\<lambda>stack.
       if length stack \<noteq> 1 then Inl (NonSingletonResult (length stack)) else Inr (stack ! 0))"

definition class_tag_be :: "class_tag \<Rightarrow> bytes32" where
  "class_tag_be c = copy_at 30 (u16_to_be c) (zeros 32)"

definition validate_class_binding ::
    "predicate_def \<Rightarrow> u8 \<Rightarrow> class_tag \<Rightarrow> (predicate_error, unit) result" where
  "validate_class_binding d class_index class_tag =
     (let binding = map fst (filter
            (\<lambda>(i, t). tp_claim_index t = class_index \<and> tp_comparator t = Eq
                      \<and> tp_operand t = class_tag_be class_tag) (enumerated (pd_tuples d)))
      in if binding = [] then Inl MissingClassBinding
         else and_then (evaluate_class_binding_taint (pd_ops d) binding) (\<lambda>t.
                if t = Bound then Inr () else Inl MissingClassBinding))"

definition find_class_binding_operand ::
    "predicate_def \<Rightarrow> u8 \<Rightarrow> (predicate_error, class_tag) result" where
  "find_class_binding_operand d class_index =
     (let hits = filter
            (\<lambda>(i, t). tp_claim_index t = class_index \<and> tp_comparator t = Eq
                      \<and> list_all (\<lambda>b. b = 0) (take 30 (tp_operand t))) (enumerated (pd_tuples d));
          binding = map fst hits;
          operands = map (\<lambda>(i, t). from_be [tp_operand t ! 30, tp_operand t ! 31]) hits
      in if binding = [] then Inl MissingClassBinding
         else and_then (evaluate_class_binding_taint (pd_ops d) binding) (\<lambda>t.
                if t = Bound then Inr (operands ! 0) else Inl MissingClassBinding))"

section \<open>Canonical scalars\<close>

definition canonical_segment :: "u8 list \<Rightarrow> nat \<Rightarrow> nat \<Rightarrow> u8 list \<times> nat" where
  "canonical_segment encoded seg cursor =
     (let buf = zeros 32;
          buf = (if seg = 0
                 then (buf[1 := word_of_nat (length encoded div 256)])
                        [2 := word_of_nat (length encoded mod 256)]
                 else buf);
          content_off = (if seg = 0 then 3 else 1);
          content_max = (if seg = 0 then 29 else 31);
          n = min content_max (length encoded - cursor)
      in (copy_at content_off (slice cursor (cursor + n) encoded) buf, cursor + n))"

fun canonical_segments :: "u8 list \<Rightarrow> nat list \<Rightarrow> nat \<Rightarrow> u8 list list" where
  "canonical_segments encoded [] cursor = []"
| "canonical_segments encoded (seg # segs) cursor =
     (case canonical_segment encoded seg cursor of
        (buf, cursor') \<Rightarrow> buf # canonical_segments encoded segs cursor')"

definition canonical_scalars :: "'fr prims \<Rightarrow> u8 list \<Rightarrow> (predicate_error, 'fr list) result" where
  "canonical_scalars E encoded =
     (if PREDICATE_BYTES_MAX < length encoded then Inl TooLarge
      else Inr (map (fr_from_be_bytes E) (canonical_segments encoded [0..<34] 0)))"

section \<open>Round trips of the wire form\<close>

definition wf_predicate :: "predicate_def \<Rightarrow> bool" where
  "wf_predicate d \<longleftrightarrow> (\<forall>t \<in> set (pd_tuples d). length (tp_operand t) = 32)"

lemma tuple_collapse [simp]:
  "\<lparr>tp_claim_index = tp_claim_index t, tp_operand = tp_operand t, tp_type_tag = tp_type_tag t,
    tp_comparator = tp_comparator t\<rparr> = t"
  by (cases t) simp

lemma op_collapse [simp]: "\<lparr>op_code = op_code p, op_operand = op_operand p\<rparr> = p"
  by (cases p) simp

lemma predicate_collapse [simp]: "\<lparr>pd_tuples = pd_tuples d, pd_ops = pd_ops d\<rparr> = d"
  by (cases d) simp

lemma decode_tuples_encode:
  assumes "\<forall>t \<in> set ts. length (tp_operand t) = 32"
    and "bytes = pre @ concat (map encode_tuple ts) @ rest"
  shows "decode_tuples bytes (length ts) (length pre) acc =
           Inr (acc @ ts, length pre + 35 * length ts)"
  using assms
proof (induction ts arbitrary: pre acc)
  case (Cons t ts)
  let ?pre = "pre @ encode_tuple t"
  have len: "length (tp_operand t) = 32" using Cons.prems by simp
  have b: "bytes = ?pre @ concat (map encode_tuple ts) @ rest"
    using Cons.prems by simp
  have at: "bytes ! length pre = tp_claim_index t"
    "bytes ! (length pre + 33) = type_tag_u8 (tp_type_tag t)"
    "bytes ! (length pre + 34) = comparator_u8 (tp_comparator t)"
    "slice (length pre + 1) (length pre + 33) bytes = tp_operand t"
    using len by (simp_all add: b encode_tuple_def nth_append slice_def nth_Cons')
  have "decode_tuples bytes (length ts) (length ?pre) (acc @ [t]) =
          Inr ((acc @ [t]) @ ts, length ?pre + 35 * length ts)"
    by (rule Cons.IH) (use Cons.prems b in auto)
  moreover have "length ?pre = length pre + 35" using len by (simp add: encode_tuple_def)
  ultimately show ?case
    using at by simp
qed simp

lemma decode_ops_encode:
  assumes "bytes = pre @ concat (map encode_op ps) @ rest"
  shows "decode_ops bytes (length ps) (length pre) acc = Inr (acc @ ps, length pre + 2 * length ps)"
  using assms
proof (induction ps arbitrary: pre acc)
  case (Cons p ps)
  let ?pre = "pre @ encode_op p"
  have b: "bytes = ?pre @ concat (map encode_op ps) @ rest" using Cons.prems by simp
  have at: "bytes ! length pre = op_code_u8 (op_code p)" "bytes ! (length pre + 1) = op_operand p"
    by (simp_all add: b encode_op_def nth_append)
  have "decode_ops bytes (length ps) (length ?pre) (acc @ [p]) =
          Inr ((acc @ [p]) @ ps, length ?pre + 2 * length ps)"
    by (rule Cons.IH) (use b in simp)
  moreover have "length ?pre = length pre + 2" by (simp add: encode_op_def)
  ultimately show ?case using at by simp
qed simp

lemma length_concat_encode_tuples:
  "\<forall>t \<in> set ts. length (tp_operand t) = 32 \<Longrightarrow> length (concat (map encode_tuple ts)) = 35 * length ts"
  by (induction ts) (auto simp: encode_tuple_def)

lemma length_concat_encode_ops: "length (concat (map encode_op ps)) = 2 * length ps"
  by (induction ps) (auto simp: encode_op_def)

lemmas predicate_caps = PREDICATE_TUPLE_MAX_def PREDICATE_OP_MAX_def PREDICATE_BYTES_MAX_def

lemma validate_counts:
  "validate d = Inr u \<Longrightarrow> 1 \<le> length (pd_tuples d) \<and> length (pd_tuples d) \<le> 20
     \<and> 1 \<le> length (pd_ops d) \<and> length (pd_ops d) \<le> 20"
  by (auto simp: validate_def predicate_caps split: if_splits)

lemma encode_decode:
  assumes wf: "wf_predicate d" and enc: "encode d = Inr bytes"
  shows "decode bytes = Inr d"
proof -
  let ?T = "concat (map encode_tuple (pd_tuples d))" and ?P = "concat (map encode_op (pd_ops d))"
  let ?n = "length (pd_tuples d)" and ?m = "length (pd_ops d)"
  from enc obtain v: "validate d = Inr ()" and s: "serialized_len d \<le> 1024"
    and b: "bytes = word_of_nat ?n # ?T @ word_of_nat ?m # ?P"
    by (auto simp: encode_def and_then_eq_Inr PREDICATE_BYTES_MAX_def split: if_splits)
  from validate_counts [OF v] have c: "?n \<le> 20" "?m \<le> 20" by auto
  have T: "\<forall>t \<in> set (pd_tuples d). length (tp_operand t) = 32"
    using wf by (simp add: wf_predicate_def)
  have lt: "length ?T = 35 * ?n" and lp: "length ?P = 2 * ?m"
    using T by (simp_all add: length_concat_encode_tuples length_concat_encode_ops)
  have lb: "length bytes = 2 + 35 * ?n + 2 * ?m" by (simp add: b lt lp)
  have u: "unat (word_of_nat ?n :: u8) = ?n" "unat (word_of_nat ?m :: u8) = ?m"
    using c by simp_all
  have dt: "decode_tuples bytes ?n 1 [] = Inr (pd_tuples d, 1 + 35 * ?n)"
    using decode_tuples_encode [OF T, of bytes "[word_of_nat ?n]" "word_of_nat ?m # ?P" "[]"]
    by (simp add: b)
  have at: "bytes ! 0 = word_of_nat ?n" "bytes ! (1 + 35 * ?n) = word_of_nat ?m"
    by (simp_all add: b nth_append lt)
  have dp: "decode_ops bytes ?m (2 + 35 * ?n) [] = Inr (pd_ops d, 2 + 35 * ?n + 2 * ?m)"
    using decode_ops_encode [of bytes "word_of_nat ?n # ?T @ [word_of_nat ?m]" "pd_ops d" "[]" "[]"]
    by (simp add: b lt)
  show ?thesis
    using c s v lb dt dp at u
    by (simp add: decode_def predicate_caps serialized_len_def Let_def)
qed

lemma tuple_slice:
  assumes "idx + 35 \<le> length bytes"
  shows "take 35 (drop idx bytes) =
    [bytes ! idx] @ slice (idx + 1) (idx + 33) bytes @ [bytes ! (idx + 33), bytes ! (idx + 34)]"
proof -
  have "take 35 (drop idx bytes) = bytes ! idx # take 34 (drop (idx + 1) bytes)"
    using assms by (simp add: Cons_nth_drop_Suc [symmetric])
  also have "take 34 (drop (idx + 1) bytes) =
      take 32 (drop (idx + 1) bytes) @ take 2 (drop 32 (drop (idx + 1) bytes))"
    using take_add [of 32 2 "drop (idx + 1) bytes"] by simp
  also have "take 2 (drop 32 (drop (idx + 1) bytes)) = [bytes ! (idx + 33), bytes ! (idx + 34)]"
    using assms take_2_drop [of "idx + 33" bytes] by (simp add: add.commute)
  finally show ?thesis by (simp add: slice_def)
qed

lemma decode_tuples_sound:
  assumes "decode_tuples bytes n idx acc = Inr (ts, idx')" and "idx + 35 * n \<le> length bytes"
  shows "idx' = idx + 35 * n \<and> (\<exists>ts'. ts = acc @ ts' \<and> length ts' = n
           \<and> take (35 * n) (drop idx bytes) = concat (map encode_tuple ts')
           \<and> (\<forall>t \<in> set ts'. length (tp_operand t) = 32))"
  using assms
proof (induction n arbitrary: idx acc)
  case (Suc n)
  from Suc.prems(1) obtain tag cmp where
    tag: "type_tag_try_from (bytes ! (idx + 33)) = Inr tag" and
    cmp: "comparator_try_from (bytes ! (idx + 34)) = Inr cmp" and
    rest: "decode_tuples bytes n (idx + 35) (acc @ [\<lparr>tp_claim_index = bytes ! idx,
      tp_operand = slice (idx + 1) (idx + 33) bytes, tp_type_tag = tag, tp_comparator = cmp\<rparr>])
      = Inr (ts, idx')"
    by (auto simp: and_then_eq_Inr map_err_eq_Inr)
  let ?t = "\<lparr>tp_claim_index = bytes ! idx, tp_operand = slice (idx + 1) (idx + 33) bytes,
    tp_type_tag = tag, tp_comparator = cmp\<rparr>"
  from Suc.IH [OF rest] Suc.prems(2) obtain ts' where ts': "idx' = idx + 35 + 35 * n"
    "ts = (acc @ [?t]) @ ts'" "length ts' = n"
    "take (35 * n) (drop (idx + 35) bytes) = concat (map encode_tuple ts')"
    "\<forall>t \<in> set ts'. length (tp_operand t) = 32" by auto
  have "take 35 (drop idx bytes) = encode_tuple ?t"
    using tuple_slice [of idx bytes] Suc.prems(2)
      type_tag_u8_of_try_from [OF tag] comparator_u8_of_try_from [OF cmp]
    by (simp add: encode_tuple_def)
  moreover have "take (35 * Suc n) (drop idx bytes) =
      take 35 (drop idx bytes) @ take (35 * n) (drop (idx + 35) bytes)"
    using take_add [of 35 "35 * n" "drop idx bytes"] by (simp add: add.commute)
  ultimately have "take (35 * Suc n) (drop idx bytes) = concat (map encode_tuple (?t # ts'))"
    using ts'(4) by simp
  moreover have "length (tp_operand ?t) = 32" using Suc.prems(2) by simp
  ultimately show ?case using ts' by (intro conjI exI [of _ "?t # ts'"]) auto
qed simp

lemma decode_ops_sound:
  assumes "decode_ops bytes n idx acc = Inr (ps, idx')" and "idx + 2 * n \<le> length bytes"
  shows "\<exists>ps'. ps = acc @ ps' \<and> length ps' = n
           \<and> take (2 * n) (drop idx bytes) = concat (map encode_op ps')"
  using assms
proof (induction n arbitrary: idx acc)
  case (Suc n)
  from Suc.prems(1) obtain code where
    code: "op_code_try_from (bytes ! idx) = Inr code" and
    rest: "decode_ops bytes n (idx + 2) (acc @ [\<lparr>op_code = code, op_operand = bytes ! (idx + 1)\<rparr>])
      = Inr (ps, idx')"
    by (auto simp: and_then_eq_Inr map_err_eq_Inr)
  let ?p = "\<lparr>op_code = code, op_operand = bytes ! (idx + 1)\<rparr>"
  from Suc.IH [OF rest] Suc.prems(2) obtain ps' where ps': "ps = (acc @ [?p]) @ ps'"
    "length ps' = n" "take (2 * n) (drop (idx + 2) bytes) = concat (map encode_op ps')" by auto
  have "take 2 (drop idx bytes) = encode_op ?p"
    using Suc.prems(2) op_code_u8_of_try_from [OF code]
    by (simp add: encode_op_def take_2_drop)
  moreover have "take (2 * Suc n) (drop idx bytes) =
      take 2 (drop idx bytes) @ take (2 * n) (drop (idx + 2) bytes)"
    using take_add [of 2 "2 * n" "drop idx bytes"] by (simp add: add.commute)
  ultimately show ?case using ps' by (intro exI [of _ "?p # ps'"]) auto
qed simp

lemma decode_encode_prefix:
  assumes "decode bytes = Inr d"
  shows "wf_predicate d \<and> encode d = Inr (take (serialized_len d) bytes)"
proof -
  let ?n = "unat (bytes ! 0)"
  define i where "i = 1 + 35 * ?n"
  let ?m = "unat (bytes ! i)"
  from assms obtain ts ps idx j where
    len: "length bytes \<le> 1024" "2 \<le> length bytes" "?n \<le> 20" "2 + 35 * ?n \<le> length bytes" and
    dt: "decode_tuples bytes ?n 1 [] = Inr (ts, idx)" and
    lo: "idx + 1 + 2 * unat (bytes ! idx) \<le> length bytes" and
    dp: "decode_ops bytes (unat (bytes ! idx)) (idx + 1) [] = Inr (ps, j)" and
    v: "validate \<lparr>pd_tuples = ts, pd_ops = ps\<rparr> = Inr ()" and d: "d = \<lparr>pd_tuples = ts, pd_ops = ps\<rparr>"
    by (auto simp: decode_def predicate_caps Let_def and_then_eq_Inr split: if_splits prod.splits)
  from decode_tuples_sound [OF dt] len have ts: "idx = i" "length ts = ?n"
    "take (35 * ?n) (drop 1 bytes) = concat (map encode_tuple ts)"
    "\<forall>t \<in> set ts. length (tp_operand t) = 32" by (auto simp: i_def)
  from decode_ops_sound [OF dp] lo have ps: "length ps = ?m"
    "take (2 * ?m) (drop (i + 1) bytes) = concat (map encode_op ps)" by (auto simp: ts)
  have sl: "serialized_len d = 1 + (35 * ?n + (1 + 2 * ?m))"
    by (simp add: serialized_len_def d ts ps)
  have "take (serialized_len d) bytes =
      take 1 bytes @ take (35 * ?n) (drop 1 bytes) @ take 1 (drop i bytes) @ take (2 * ?m) (drop (i + 1) bytes)"
    unfolding sl take_add by (simp add: i_def add.commute)
  also have "take 1 bytes = [bytes ! 0]" using len by (cases bytes) auto
  also have "take 1 (drop i bytes) = [bytes ! i]"
    using len by (simp add: i_def take_1_drop)
  finally have t: "take (serialized_len d) bytes =
      [bytes ! 0] @ concat (map encode_tuple ts) @ [bytes ! i] @ concat (map encode_op ps)"
    by (simp only: ts(3) ps(2))
  have "serialized_len d \<le> 1024" using sl lo len by (simp add: ts i_def)
  then show ?thesis
    using v t ts ps d by (simp add: encode_def PREDICATE_BYTES_MAX_def wf_predicate_def)
qed

section \<open>Meaning\<close>

text \<open>Expressions, and the operations that spell them.\<close>

datatype pexpr = Tup nat | And_e pexpr pexpr | Or_e pexpr pexpr | Not_e pexpr

fun pexpr_sem :: "'fr prims \<Rightarrow> tuple list \<Rightarrow> 'fr list \<Rightarrow> pexpr \<Rightarrow> (predicate_error, bool) result" where
  "pexpr_sem E ts as (Tup i) = eval_tuple E (ts ! i) as"
| "pexpr_sem E ts as (And_e a b) =
     and_then (pexpr_sem E ts as a) (\<lambda>x. and_then (pexpr_sem E ts as b) (\<lambda>y. Inr (x \<and> y)))"
| "pexpr_sem E ts as (Or_e a b) =
     and_then (pexpr_sem E ts as a) (\<lambda>x. and_then (pexpr_sem E ts as b) (\<lambda>y. Inr (x \<or> y)))"
| "pexpr_sem E ts as (Not_e a) = and_then (pexpr_sem E ts as a) (\<lambda>x. Inr (\<not> x))"

fun spell_op :: "op \<Rightarrow> pexpr list \<Rightarrow> pexpr list option" where
  "spell_op p stack =
     (case op_code p of
        PushTuple \<Rightarrow> Some (Tup (unat (op_operand p)) # stack)
      | AndOp \<Rightarrow> (case stack of b # a # rest \<Rightarrow> Some (And_e a b # rest) | _ \<Rightarrow> None)
      | OrOp \<Rightarrow> (case stack of b # a # rest \<Rightarrow> Some (Or_e a b # rest) | _ \<Rightarrow> None)
      | NotOp \<Rightarrow> (case stack of a # rest \<Rightarrow> Some (Not_e a # rest) | _ \<Rightarrow> None)
      | Nop \<Rightarrow> Some stack)"

fun spell :: "op list \<Rightarrow> pexpr list \<Rightarrow> pexpr list option" where
  "spell [] stack = Some stack"
| "spell (p # ps) stack = (case spell_op p stack of None \<Rightarrow> None | Some s \<Rightarrow> spell ps s)"

definition postfix_expr :: "op list \<Rightarrow> pexpr option" where
  "postfix_expr ops = (case spell ops [] of Some [e] \<Rightarrow> Some e | _ \<Rightarrow> None)"

definition denotes :: "'fr prims \<Rightarrow> tuple list \<Rightarrow> 'fr list \<Rightarrow> pexpr \<Rightarrow> bool \<Rightarrow> bool" where
  "denotes E ts as e b \<longleftrightarrow> pexpr_sem E ts as e = Inr b"

lemma denotes_simps [simp]:
  "denotes E ts as (Tup i) b \<longleftrightarrow> eval_tuple E (ts ! i) as = Inr b"
  "denotes E ts as (And_e a c) b \<longleftrightarrow>
     (\<exists>x y. denotes E ts as a x \<and> denotes E ts as c y \<and> b = (x \<and> y))"
  "denotes E ts as (Or_e a c) b \<longleftrightarrow>
     (\<exists>x y. denotes E ts as a x \<and> denotes E ts as c y \<and> b = (x \<or> y))"
  "denotes E ts as (Not_e a) b \<longleftrightarrow> (\<exists>x. denotes E ts as a x \<and> b = (\<not> x))"
  by (auto simp: denotes_def and_then_eq_Inr)

lemma pop_two_eq_Inr: "pop_two i st = Inr ((a, b), rest) \<longleftrightarrow> st = b # a # rest"
  by (cases "(i, st)" rule: pop_two.cases) auto

lemma pop_one_eq_Inr: "pop_one i st = Inr (a, rest) \<longleftrightarrow> st = a # rest"
  by (cases st) auto

lemma denotes_fun: "denotes E ts as e b \<Longrightarrow> denotes E ts as e c \<Longrightarrow> b = c"
  by (simp add: denotes_def)

lemma list_all2_denotes_fun:
  "list_all2 (denotes E ts as) es st \<Longrightarrow> list_all2 (denotes E ts as) es st' \<Longrightarrow> st = st'"
proof (induction es arbitrary: st st')
  case (Cons e es)
  then obtain b s b' s' where "st = b # s" "st' = b' # s'"
    "denotes E ts as e b" "denotes E ts as e b'"
    "list_all2 (denotes E ts as) es s" "list_all2 (denotes E ts as) es s'"
    by (auto simp only: list_all2_Cons1)
  with Cons.IH denotes_fun show ?case by blast
qed simp

text \<open>One operation acts on values as it acts on the expressions that denote them.\<close>

lemma eval_op_spells:
  assumes "list_all2 (denotes E ts as) es st"
    and "eval_op E ts as i st p = Inr st'"
  shows "\<exists>es'. spell_op p es = Some es' \<and> list_all2 (denotes E ts as) es' st'"
proof (cases "op_code p")
  case PushTuple
  then show ?thesis using assms by (auto simp: eval_op_def and_then_eq_Inr)
next
  case AndOp
  then show ?thesis using assms
    by (fastforce simp: eval_op_def and_then_eq_Inr pop_two_eq_Inr list_all2_Cons2)
next
  case OrOp
  then show ?thesis using assms
    by (fastforce simp: eval_op_def and_then_eq_Inr pop_two_eq_Inr list_all2_Cons2)
next
  case NotOp
  then show ?thesis using assms
    by (fastforce simp: eval_op_def and_then_eq_Inr pop_one_eq_Inr list_all2_Cons2)
next
  case Nop
  then show ?thesis using assms by (simp add: eval_op_def)
qed

lemma spell_op_evals:
  assumes "list_all2 (denotes E ts as) es st"
    and "spell_op p es = Some es'" and "list_all2 (denotes E ts as) es' st'"
  shows "eval_op E ts as i st p = Inr st'"
proof -
  have "\<exists>s. eval_op E ts as i st p = Inr s"
    using assms
    by (cases "op_code p") (auto simp: eval_op_def list_all2_Cons1 split: list.splits)
  then obtain s where s: "eval_op E ts as i st p = Inr s" by blast
  with eval_op_spells [OF assms(1) s] assms(2) have "list_all2 (denotes E ts as) es' s" by auto
  with assms(3) s list_all2_denotes_fun show ?thesis by blast
qed

text \<open>Every operation keeps the stack of expressions meaningful when its result is.\<close>

lemma spell_op_denotes:
  assumes "spell_op p es = Some es'" and "list_all2 (denotes E ts as) es' st'"
  shows "\<exists>st. list_all2 (denotes E ts as) es st"
  using assms
  by (cases "op_code p") (fastforce simp: list_all2_Cons1 split: list.splits)+

lemma spell_denotes:
  assumes "spell ps es = Some es'" and "list_all2 (denotes E ts as) es' st'"
  shows "\<exists>st. list_all2 (denotes E ts as) es st"
  using assms
proof (induction ps arbitrary: es)
  case (Cons p ps)
  then obtain e1 where e1: "spell_op p es = Some e1" "spell ps e1 = Some es'"
    by (simp split: option.splits)
  with Cons show ?case using spell_op_denotes by blast
qed auto

lemma eval_ops_spells:
  assumes "list_all2 (denotes E ts as) es st"
  shows "eval_ops E ts as i st ps = Inr st' \<longleftrightarrow>
           (\<exists>es'. spell ps es = Some es' \<and> list_all2 (denotes E ts as) es' st')"
  using assms
proof (induction ps arbitrary: es st i)
  case Nil
  then show ?case by (auto intro: list_all2_denotes_fun)
next
  case (Cons p ps)
  show ?case
  proof
    assume "eval_ops E ts as i st (p # ps) = Inr st'"
    then obtain s1 where s1: "eval_op E ts as i st p = Inr s1" "eval_ops E ts as (Suc i) s1 ps = Inr st'"
      by (auto simp: and_then_eq_Inr)
    from eval_op_spells [OF Cons.prems s1(1)] s1(2) Cons.IH
    show "\<exists>es'. spell (p # ps) es = Some es' \<and> list_all2 (denotes E ts as) es' st'" by fastforce
  next
    assume "\<exists>es'. spell (p # ps) es = Some es' \<and> list_all2 (denotes E ts as) es' st'"
    then obtain e1 es' where e1: "spell_op p es = Some e1" "spell ps e1 = Some es'"
      "list_all2 (denotes E ts as) es' st'" by (auto split: option.splits)
    from spell_denotes [OF e1(2,3)] obtain s1 where s1: "list_all2 (denotes E ts as) e1 s1" by blast
    with spell_op_evals [OF Cons.prems e1(1) s1, of i] Cons.IH [OF s1] e1
    show "eval_ops E ts as i st (p # ps) = Inr st'" by auto
  qed
qed

lemma evaluate_denotes:
  "evaluate E d as = Inr b \<longleftrightarrow>
     validate d = Inr () \<and>
     (\<exists>e. postfix_expr (pd_ops d) = Some e \<and> pexpr_sem E (pd_tuples d) as e = Inr b)"
proof -
  have "(\<exists>es. spell (pd_ops d) [] = Some es \<and> list_all2 (denotes E (pd_tuples d) as) es [b]) \<longleftrightarrow>
        (\<exists>e. postfix_expr (pd_ops d) = Some e \<and> denotes E (pd_tuples d) as e b)"
    by (auto simp: postfix_expr_def list_all2_Cons2 split: option.splits list.splits)
  then show ?thesis
    using eval_ops_spells [of E "pd_tuples d" as "[]" "[]" 0 "pd_ops d" "[b]"]
    by (auto simp: evaluate_def and_then_eq_Inr denotes_def length_Suc_conv split: if_splits)
qed

section \<open>Soundness of the taint analysis\<close>

text \<open>The taint tags over-approximate: a bound stack entry is true only when the property is.\<close>

definition tag_rel :: "bool \<Rightarrow> tag \<Rightarrow> bool \<Rightarrow> bool" where
  "tag_rel Q t b \<longleftrightarrow> (t = Bound \<longrightarrow> b \<longrightarrow> Q)"

lemma taint_op_sim:
  assumes "list_all2 (tag_rel Q) tags st"
    and "taint_op binding i tags p = Inr tags'" and "eval_op E ts as j st p = Inr st'"
    and "\<And>k b. k \<in> set binding \<Longrightarrow> k = unat (op_operand p) \<Longrightarrow> op_code p = PushTuple \<Longrightarrow>
           eval_tuple E (ts ! k) as = Inr True \<Longrightarrow> Q"
  shows "list_all2 (tag_rel Q) tags' st'"
proof (cases "op_code p")
  case PushTuple
  then show ?thesis using assms
    by (auto simp: eval_op_def taint_op_def and_then_eq_Inr tag_rel_def)
next
  case AndOp
  then show ?thesis using assms
    by (auto simp: eval_op_def taint_op_def and_then_eq_Inr pop_two_eq_Inr tag_rel_def taint_and_def)
next
  case OrOp
  then show ?thesis using assms
    by (auto simp: eval_op_def taint_op_def and_then_eq_Inr pop_two_eq_Inr tag_rel_def taint_or_def
        split: if_splits)
next
  case NotOp
  then show ?thesis using assms
    by (auto simp: eval_op_def taint_op_def and_then_eq_Inr pop_one_eq_Inr tag_rel_def taint_not_def
        split: if_splits)
next
  case Nop
  then show ?thesis using assms by (simp add: eval_op_def taint_op_def)
qed

lemma taint_ops_sim:
  assumes "list_all2 (tag_rel Q) tags st"
    and "taint_ops binding i tags ps = Inr tags'" and "eval_ops E ts as j st ps = Inr st'"
    and "\<And>k p. k \<in> set binding \<Longrightarrow> p \<in> set ps \<Longrightarrow> op_code p = PushTuple \<Longrightarrow>
           k = unat (op_operand p) \<Longrightarrow> eval_tuple E (ts ! k) as = Inr True \<Longrightarrow> Q"
  shows "list_all2 (tag_rel Q) tags' st'"
  using assms
proof (induction ps arbitrary: tags st i j)
  case (Cons p ps)
  then obtain t1 s1 where t1: "taint_op binding i tags p = Inr t1"
    "taint_ops binding (Suc i) t1 ps = Inr tags'"
    "eval_op E ts as j st p = Inr s1" "eval_ops E ts as (Suc j) s1 ps = Inr st'"
    by (auto simp: and_then_eq_Inr)
  have "list_all2 (tag_rel Q) t1 s1"
    by (rule taint_op_sim [OF Cons.prems(1) t1(1,3)]) (use Cons.prems(4) in auto)
  then show ?case
    by (rule Cons.IH [OF _ t1(2,4)]) (use Cons.prems(4) in auto)
qed simp

lemma taint_sound:
  assumes "evaluate_class_binding_taint (pd_ops d) binding = Inr Bound"
    and "evaluate E d as = Inr True"
  shows "\<exists>k \<in> set binding. k < length (pd_tuples d) \<and> eval_tuple E (pd_tuples d ! k) as = Inr True"
proof -
  let ?Q = "\<exists>k \<in> set binding. k < length (pd_tuples d) \<and> eval_tuple E (pd_tuples d ! k) as = Inr True"
  from assms obtain u where v: "validate d = Inr u"
    and t: "taint_ops binding 0 [] (pd_ops d) = Inr [Bound]"
    and e: "eval_ops E (pd_tuples d) as 0 [] (pd_ops d) = Inr [True]"
    by (auto simp: evaluate_class_binding_taint_def evaluate_def and_then_eq_Inr length_Suc_conv
        split: if_splits)
  from v have "try_fold (validate_op d) () (pd_ops d) = Inr ()"
    by (auto simp: validate_def and_then_eq_Inr split: if_splits)
  then have "\<forall>p \<in> set (pd_ops d). op_code p = PushTuple \<longrightarrow> unat (op_operand p) < length (pd_tuples d)"
    by (auto simp: try_fold_unit validate_op_def split: if_splits)
  then have "list_all2 (tag_rel ?Q) [Bound] [True]"
    by (intro taint_ops_sim [OF _ t e]) auto
  then show ?thesis by (simp add: tag_rel_def)
qed

lemma class_tag_be_nat: "be_nat (class_tag_be c) = unat c" and length_class_tag_be [simp]: "length (class_tag_be c) = 32"
  by (simp_all add: class_tag_be_def copy_at_def be_nat_append)

lemma fr_of_class_tag:
  "field_laws E \<Longrightarrow> fr_from_be_bytes E (class_tag_be c) = fr_of E (ucast c)"
  by (simp add: fr_of_conv, rule fr_from_be_bytes_cong) (simp_all add: class_tag_be_nat)

lemma eval_tuple_Eq_True:
  "eval_tuple E t as = Inr True \<Longrightarrow> tp_comparator t = Eq \<Longrightarrow>
   unat (tp_claim_index t) < length as \<and> as ! unat (tp_claim_index t) = fr_from_be_bytes E (tp_operand t)"
  by (auto simp: eval_tuple_def Let_def split: if_splits type_tag.splits)

lemma class_binding_sound:
  assumes "field_laws E"
    and "validate_class_binding d class_index class_tag = Inr ()"
    and "evaluate E d attrs = Inr True"
  shows "unat class_index < length attrs \<and> attrs ! unat class_index = fr_of E (ucast class_tag)"
proof -
  let ?hit = "\<lambda>(i::nat, t). tp_claim_index t = class_index \<and> tp_comparator t = Eq
    \<and> tp_operand t = class_tag_be class_tag"
  have "evaluate_class_binding_taint (pd_ops d) (map fst (filter ?hit (enumerated (pd_tuples d)))) = Inr Bound"
    using assms(2) by (auto simp: validate_class_binding_def Let_def and_then_eq_Inr split: if_splits)
  from taint_sound [OF this assms(3)] obtain k t where k: "(k, t) \<in> set (enumerated (pd_tuples d))" "?hit (k, t)"
    "eval_tuple E (pd_tuples d ! k) attrs = Inr True" by auto
  then show ?thesis
    using eval_tuple_Eq_True [of E t attrs] fr_of_class_tag [OF assms(1), of class_tag]
    by (auto simp: set_enumerated)
qed

text \<open>Registration only learns that some tuple binds the class attribute to a 16-bit operand.\<close>

lemma short_operand:
  assumes "length bs = 32" and "list_all (\<lambda>b. b = 0) (take 30 bs)"
  shows "bs = class_tag_be (from_be [bs ! 30, bs ! 31])"
proof (rule be_nat_eqD)
  have "drop 30 bs = [bs ! 30, bs ! 31]"
    using assms(1) take_2_drop [of 30 bs] by simp
  then have "be_nat bs = be_nat [bs ! 30, bs ! 31]"
    using be_nat_zero_prefix [OF assms(2)] by simp
  moreover have "be_nat [bs ! 30, bs ! 31] < 2 ^ 16"
    using be_nat_less [of "[bs ! 30, bs ! 31]"] by simp
  ultimately show "be_nat bs = be_nat (class_tag_be (from_be [bs ! 30, bs ! 31]))"
    using unat_of_nat_small [where 'a = 16, of "be_nat [bs ! 30, bs ! 31]"]
    by (simp only: class_tag_be_nat from_be_def len_num1 len_bit0 len_bit1) simp
qed (use assms in simp)

lemma find_class_binding_sound:
  assumes "field_laws E" and "wf_predicate d"
    and "find_class_binding_operand d class_index = Inr class_tag"
    and "evaluate E d attrs = Inr True"
  shows "unat class_index < length attrs \<and> (\<exists>c :: class_tag. attrs ! unat class_index = fr_of E (ucast c))"
proof -
  let ?hit = "\<lambda>(i::nat, t). tp_claim_index t = class_index \<and> tp_comparator t = Eq
    \<and> list_all (\<lambda>b. b = 0) (take 30 (tp_operand t))"
  have "evaluate_class_binding_taint (pd_ops d) (map fst (filter ?hit (enumerated (pd_tuples d)))) = Inr Bound"
    using assms(3) by (auto simp: find_class_binding_operand_def Let_def and_then_eq_Inr split: if_splits)
  from taint_sound [OF this assms(4)] obtain k t where k: "(k, t) \<in> set (enumerated (pd_tuples d))" "?hit (k, t)"
    "eval_tuple E (pd_tuples d ! k) attrs = Inr True" by auto
  then have t: "t \<in> set (pd_tuples d)" "eval_tuple E t attrs = Inr True" by (auto simp: set_enumerated)
  with assms(2) have "length (tp_operand t) = 32" by (simp add: wf_predicate_def)
  with k(2) obtain c where "tp_operand t = class_tag_be c" using short_operand [of "tp_operand t"] by auto
  then show ?thesis
    using eval_tuple_Eq_True [OF t(2)] k(2) fr_of_class_tag [OF assms(1)] by (auto simp: split_beta)
qed

section \<open>Injectivity of the packing\<close>

text \<open>The 34 segments spell the length and the bytes of the encoding.\<close>

lemma canonical_segment_eq:
  assumes "seg \<noteq> 0" and "cursor \<le> length encoded"
  shows "canonical_segment encoded seg cursor =
    (let n = min 31 (length encoded - cursor)
     in (0 # take 31 (drop cursor encoded) @ zeros (31 - n), cursor + n))"
proof -
  have "zeros 32 = 0 # zeros 31" by (simp add: zeros_def numeral_eq_Suc)
  then show ?thesis using assms
    by (auto simp: canonical_segment_def copy_at_def slice_def Let_def min_def)
qed

lemma canonical_segments_content:
  assumes "0 \<notin> set segs" and "cursor \<le> length encoded"
    and "length encoded - cursor \<le> 31 * length segs"
  shows "concat (map tl (canonical_segments encoded segs cursor)) =
           drop cursor encoded @ zeros (31 * length segs - (length encoded - cursor))"
  using assms
proof (induction segs arbitrary: cursor)
  case (Cons seg segs)
  let ?n = "min 31 (length encoded - cursor)"
  from Cons.prems have s: "canonical_segment encoded seg cursor =
      (0 # take 31 (drop cursor encoded) @ zeros (31 - ?n), cursor + ?n)"
    by (simp add: canonical_segment_eq Let_def)
  have IH: "concat (map tl (canonical_segments encoded segs (cursor + ?n))) =
      drop (cursor + ?n) encoded @ zeros (31 * length segs - (length encoded - (cursor + ?n)))"
    using Cons.prems by (intro Cons.IH) auto
  show ?case
  proof (cases "length encoded - cursor \<le> 31")
    case True
    then show ?thesis using s IH Cons.prems by (simp add: min_def ac_simps)
  next
    case False
    then have "drop cursor encoded = take 31 (drop cursor encoded) @ drop (cursor + 31) encoded"
      by (metis add.commute append_take_drop_id drop_drop)
    then have "take 31 (drop cursor encoded) @ drop (cursor + 31) encoded @ zs =
        drop cursor encoded @ zs" for zs by (metis append_assoc)
    with False show ?thesis using s IH by (simp add: min_def ac_simps)
  qed
qed simp

lemma zeros_32: "zeros 32 = 0 # 0 # 0 # zeros 29"
  by (simp add: zeros_def numeral_eq_Suc)

lemma canonical_segment_0:
  "canonical_segment encoded 0 0 =
    (0 # word_of_nat (length encoded div 256) # word_of_nat (length encoded mod 256)
       # take 29 encoded @ zeros (29 - min 29 (length encoded)), min 29 (length encoded))"
  by (auto simp: canonical_segment_def Let_def copy_at_def slice_def zeros_32 min_def numeral_3_eq_3)

lemma canonical_segments_high_byte:
  assumes "0 \<notin> set segs" and "cursor \<le> length encoded"
  shows "list_all (\<lambda>b. length b = 32 \<and> b ! 0 = 0) (canonical_segments encoded segs cursor)"
  using assms
proof (induction segs arbitrary: cursor)
  case (Cons seg segs)
  then show ?case by (auto simp: canonical_segment_eq Let_def min_def)
qed simp

lemma upt_34: "[0..<34] = 0 # [1..<34]"
  by (simp add: upt_conv_Cons)

lemma canonical_segments_34_high_byte:
  "list_all (\<lambda>b. length b = 32 \<and> b ! 0 = 0) (canonical_segments encoded [0..<34] 0)"
  unfolding upt_34
  by (auto simp: canonical_segment_0 min_def intro!: canonical_segments_high_byte)

lemma canonical_segments_34:
  assumes "length encoded \<le> 1024"
  shows "\<exists>b bs. canonical_segments encoded [0..<34] 0 = b # bs
    \<and> unat (b ! 1) * 256 + unat (b ! 2) = length encoded
    \<and> take (length encoded) (drop 3 b @ concat (map tl bs)) = encoded"
proof -
  let ?n = "min 29 (length encoded)"
  define b where "b = 0 # word_of_nat (length encoded div 256) # word_of_nat (length encoded mod 256)
        # take 29 encoded @ zeros (29 - ?n)"
  have bs: "concat (map tl (canonical_segments encoded [1..<34] ?n)) =
      drop ?n encoded @ zeros (31 * length [1..<34] - (length encoded - ?n))"
    by (rule canonical_segments_content) (use assms in auto)
  have "canonical_segments encoded [0..<34] 0 = b # canonical_segments encoded [1..<34] ?n"
    unfolding upt_34 by (simp add: canonical_segment_0 b_def)
  moreover have "unat (b ! 1) * 256 + unat (b ! 2) = length encoded"
    using assms by (simp add: b_def unat_u8_of_nat)
  moreover have "take (length encoded) (drop 3 b @ concat (map tl (canonical_segments encoded [1..<34] ?n))) = encoded"
    unfolding bs by (simp add: b_def numeral_3_eq_3 min_def)
  ultimately show ?thesis by blast
qed

lemma map_fr_from_inject:
  assumes "field_laws E" and "list_all (\<lambda>b. length b = 32 \<and> b ! 0 = 0) xs"
    and "list_all (\<lambda>b. length b = 32 \<and> b ! 0 = 0) ys"
    and "map (fr_from_be_bytes E) xs = map (fr_from_be_bytes E) ys"
  shows "xs = ys"
proof (rule map_inj_on [OF assms(4)], rule inj_onI)
  have wf: "length z = 32 \<and> z ! 0 = 0" if "z \<in> set xs \<union> set ys" for z
    using that assms(2,3) unfolding list_all_iff by blast
  fix x y assume xy: "x \<in> set xs \<union> set ys" "y \<in> set xs \<union> set ys"
    and eq: "fr_from_be_bytes E x = fr_from_be_bytes E y"
  have "x = fr_to_be_bytes E (fr_from_be_bytes E x)"
    using fr_from_high_byte_zero [OF assms(1)] wf [OF xy(1)] by simp
  also have "\<dots> = y"
    unfolding eq using fr_from_high_byte_zero [OF assms(1)] wf [OF xy(2)] by simp
  finally show "x = y" .
qed

lemma canonical_scalars_inject:
  assumes "field_laws E" and "canonical_scalars E a = Inr xs" and "canonical_scalars E b = Inr xs"
  shows "a = b"
proof -
  have la: "length a \<le> 1024" and lb: "length b \<le> 1024"
    and eq: "map (fr_from_be_bytes E) (canonical_segments a [0..<34] 0) =
      map (fr_from_be_bytes E) (canonical_segments b [0..<34] 0)"
    using assms by (auto simp: canonical_scalars_def PREDICATE_BYTES_MAX_def split: if_splits)
  have "canonical_segments a [0..<34] 0 = canonical_segments b [0..<34] 0"
    by (rule map_fr_from_inject [OF assms(1) _ _ eq]) (rule canonical_segments_34_high_byte)+
  with canonical_segments_34 [OF la] canonical_segments_34 [OF lb] show ?thesis by auto
qed

end
