(* ===== verification/Signer.thy ===== *)
theory Signer
  imports Fsrt Ports PredicateLang
begin

text \<open>
  \<open>src/signer\<close>: enrollment, signing and journaling. Randomness is an argument (the bytes the
  operating system returns); a panic is \<open>None\<close>. \<open>sign\<close> returns the signer with its result, since the
  ratchet may have advanced when it fails.
\<close>

record enrollment_artifact =
  ea_attr_hash :: bytes32
  ea_chain_root :: bytes32
  ea_attr_version :: u32

record petition_meta =
  pm_petition_id :: petition_id
  pm_r_root :: bytes32
  pm_predicate_hash :: bytes32
  pm_slot :: u32
  pm_class_index :: u8
  pm_class_tag :: class_tag
  pm_predicate_def :: predicate_def
  pm_salt :: bytes32
  pm_ri_leaf_index :: u32

datatype signer_error =
    SlotInPast u32 u32
  | SlotOutOfRange u32 u32
  | RiLookup merkle_error
  | SigPredicate predicate_error
  | SigProof proof_error
  | SigMerkle merkle_error
  | SigInvariant string

record ('fr, 'r) signer =
  sg_credentials :: signer_credentials
  sg_chain :: "'fr chain_state"
  sg_ri :: 'r

definition signer_enroll ::
    "'fr prims \<Rightarrow> 'r ri_layer \<Rightarrow> 'r \<Rightarrow> 'fr list \<Rightarrow> u32 \<Rightarrow> u32 \<Rightarrow> u64 \<Rightarrow> bytes32 option \<Rightarrow> bytes32 \<Rightarrow> bytes32
     \<Rightarrow> (('fr, 'r) signer \<times> enrollment_artifact) option" where
  "signer_enroll E RI ri attr_vector n attr_version posted_at_block seed os_seed os_secret =
     (let s_0_bytes = (case seed of Some b \<Rightarrow> b | None \<Rightarrow> os_seed);
          chain = chain_enroll E (fr_from_be_bytes E s_0_bytes) n attr_version
      in map_option
           (\<lambda>attr_hash.
              (let attr_hash_be = fr_to_be_bytes E attr_hash
               in case ri_append_leaf RI ri attr_hash_be posted_at_block of
                    (ri_leaf_index, ri') \<Rightarrow>
                      (\<lparr>sg_credentials = \<lparr>sc_identity_secret = os_secret,
                          sc_attr_vector = map (fr_to_be_bytes E) attr_vector,
                          sc_ri_leaf_index = ri_leaf_index\<rparr>,
                        sg_chain = chain, sg_ri = ri'\<rparr>,
                       \<lparr>ea_attr_hash = attr_hash_be, ea_chain_root = fr_to_be_bytes E (ch_chain_root chain),
                        ea_attr_version = attr_version\<rparr>)))
           (hash_attr E attr_vector (ch_chain_root chain) attr_version (fr_from_be_bytes E os_secret)))"

text \<open>The checks before the ratchet moves.\<close>

definition sign_checks ::
    "'fr prims \<Rightarrow> petition_meta \<Rightarrow> ('fr, 'r) signer \<Rightarrow> (signer_error, unit) result" where
  "sign_checks E p sg =
     (let chain = sg_chain sg;
          attrs = map (fr_from_be_bytes E) (sc_attr_vector (sg_credentials sg)) in
      if pm_slot p < ch_t chain then Inl (SlotInPast (pm_slot p) (ch_t chain))
      else if chain_len chain \<le> pm_slot p then Inl (SlotOutOfRange (pm_slot p) (chain_len chain))
      else if length attrs \<le> unat (pm_class_index p) then Inl (SigInvariant ''class_index out of range'')
      else if attrs ! unat (pm_class_index p) \<noteq> fr_of E (ucast (pm_class_tag p))
      then Inl (SigInvariant ''class binding mismatch: attr != class_tag'')
      else Inr ())"

definition sign_public ::
    "'fr prims \<Rightarrow> petition_meta \<Rightarrow> 'fr \<Rightarrow> 'fr \<Rightarrow> 'fr signer_public_inputs" where
  "sign_public E p nullifier identity_tag =
     \<lparr>sp_r_root = fr_from_be_bytes E (pm_r_root p), sp_petition_id = fr_from_be_bytes E (pm_petition_id p),
      sp_predicate_hash = fr_from_be_bytes E (pm_predicate_hash p),
      sp_class_index = fr_of E (ucast (pm_class_index p)), sp_class_tag = fr_of E (ucast (pm_class_tag p)),
      sp_slot = fr_of E (ucast (pm_slot p)), sp_nullifier = nullifier, sp_identity_tag = identity_tag\<rparr>"

definition sign_private ::
    "'fr prims \<Rightarrow> petition_meta \<Rightarrow> ('fr, 'r) signer \<Rightarrow> ri_path \<Rightarrow> 'fr signer_private_inputs" where
  "sign_private E p sg path =
     (let chain = sg_chain sg in
      \<lparr>sv_identity_secret = fr_from_be_bytes E (sc_identity_secret (sg_credentials sg)),
       sv_attr_vector = map (fr_from_be_bytes E) (sc_attr_vector (sg_credentials sg)),
       sv_attr_version = ch_attr_version chain, sv_chain_root = ch_chain_root chain,
       sv_ri_path_siblings = map (fr_from_be_bytes E) (ri_siblings path),
       sv_ri_path_indices = ri_indices path, sv_s_slot = s_at E chain (pm_slot p),
       sv_chain_path_siblings = fst (merkle_path_for_current_slot E chain),
       sv_chain_path_indices = snd (merkle_path_for_current_slot E chain),
       sv_salt = fr_from_be_bytes E (pm_salt p), sv_predicate_def = pm_predicate_def p\<rparr>)"

definition signer_tags ::
    "'fr prims \<Rightarrow> petition_meta \<Rightarrow> ('fr, 'r) signer \<Rightarrow> 'fr \<Rightarrow> ('fr \<times> 'fr) option" where
  "signer_tags E p sg v_slot =
     map_option (\<lambda>nullifier. (nullifier, hash_identity_tag E v_slot (fr_from_be_bytes E (pm_petition_id p))))
       (hash_nullifier E v_slot (fr_from_be_bytes E (pm_petition_id p)) (fr_of E (ucast (pm_class_index p)))
          (fr_of E (ucast (pm_class_tag p))) (fr_from_be_bytes E (sc_identity_secret (sg_credentials sg))))"

text \<open>After the ratchet has advanced to the petition's slot.\<close>

definition sign_at_slot ::
    "'fr prims \<Rightarrow> 'fr proof_backend \<Rightarrow> 'r ri_layer \<Rightarrow> petition_meta \<Rightarrow> ('fr, 'r) signer
     \<Rightarrow> (signer_error, signer_submission) result option" where
  "sign_at_slot E PB RI p sg =
     Option.bind (v_at_current_slot (sg_chain sg)) (\<lambda>v_slot.
     map_option
       (\<lambda>(nullifier, identity_tag).
          and_then (map_err RiLookup (ri_merkle_path RI (sg_ri sg) (sc_ri_leaf_index (sg_credentials sg))))
            (\<lambda>path.
          and_then (map_err SigProof (generate_signer_proof PB (sign_public E p nullifier identity_tag)
                      (sign_private E p sg path))) (\<lambda>proof.
            Inr \<lparr>ss_petition_id = pm_petition_id p, ss_r_root = pm_r_root p,
                 ss_predicate_hash = pm_predicate_hash p, ss_class_index = pm_class_index p,
                 ss_slot = pm_slot p, ss_nullifier = fr_to_be_bytes E nullifier,
                 ss_identity_tag = fr_to_be_bytes E identity_tag, ss_class_tag = pm_class_tag p,
                 ss_proof_bytes = proof\<rparr>)))
       (signer_tags E p sg v_slot))"

definition sign ::
    "'fr prims \<Rightarrow> 'fr proof_backend \<Rightarrow> 'r ri_layer \<Rightarrow> petition_meta \<Rightarrow> ('fr, 'r) signer
     \<Rightarrow> ((signer_error, signer_submission) result \<times> ('fr, 'r) signer) option" where
  "sign E PB RI p sg =
     (case sign_checks E p sg of
        Inl e \<Rightarrow> Some (Inl e, sg)
      | Inr _ \<Rightarrow>
          Option.bind (advance_to E (pm_slot p) (sg_chain sg)) (\<lambda>chain.
            (let sg' = sg\<lparr>sg_chain := chain\<rparr>
             in map_option (\<lambda>r. (r, sg')) (sign_at_slot E PB RI p sg'))))"

definition journal_finalized ::
    "'fr prims \<Rightarrow> (u8 list \<Rightarrow> ('io, unit) result) \<Rightarrow> u32 \<Rightarrow> ('fr, 'r) signer
     \<Rightarrow> (('io, signer_state_bytes) result \<times> ('fr, 'r) signer) option" where
  "journal_finalized E persist slot sg =
     map_option (\<lambda>(r, chain). (r, sg\<lparr>sg_chain := chain\<rparr>))
       (journal_finalized_signing E persist slot (sg_chain sg))"

end
