(* ===== verification/Relayer.thy ===== *)
theory Relayer
  imports Imt Disputant
begin

text \<open>
  \<open>src/relayer\<close>: verifying signer submissions and packing them into a batch. The relayer keeps
  replicas of the petition's trees and advances them while it builds; a failure leaves them as far
  as they got, so \<open>build_batch\<close> returns the replica (and the blob carrier) with its result.
\<close>

record 'fr relayer_petition_state =
  rps_running_imt :: "'fr imt"
  rps_identity_tag_imt :: "'fr imt"
  rps_leaf_count :: u64

record petition_view =
  pv_petition_id :: petition_id
  pv_r_root :: bytes32
  pv_predicate_hash :: bytes32
  pv_class_index :: u8
  pv_class_set :: "class_tag list"
  pv_slot :: u32
  pv_running_root :: bytes32
  pv_identity_tag_set_root :: bytes32
  pv_leaf_count :: u64
  pv_signer_vk_hash :: bytes32

record batch_position =
  bps_submission :: signer_submission
  bps_leaf_insert :: imt_insert_witness
  bps_identity_tag_insert :: imt_insert_witness

datatype relayer_error =
    EmptyBatch
  | BatchSizeExceeded nat nat
  | DuplicateNullifier nat nat
  | DuplicateIdentityTag nat nat
  | SignerProofInvalid nat proof_error
  | RelClassTagOutOfSet u16 nat
  | PetitionIdMismatch nat
  | StateDiverged
  | LeafCountOverflow
  | RelBlob blob_error
  | RelImt imt_error
  | RelProof proof_error

definition rps_new :: "'fr prims \<Rightarrow> 'fr relayer_petition_state" where
  "rps_new E = \<lparr>rps_running_imt = imt_new E, rps_identity_tag_imt = imt_new E, rps_leaf_count = 0\<rparr>"

section \<open>Verification\<close>

type_synonym 'fr verified = "signer_submission \<times> 'fr signer_public_inputs \<times> 'fr \<times> class_tag"

definition submission_public :: "'fr prims \<Rightarrow> signer_submission \<Rightarrow> 'fr signer_public_inputs" where
  "submission_public E s =
     \<lparr>sp_r_root = fr_from_be_bytes E (ss_r_root s), sp_petition_id = fr_from_be_bytes E (ss_petition_id s),
      sp_predicate_hash = fr_from_be_bytes E (ss_predicate_hash s),
      sp_class_index = fr_of E (ucast (ss_class_index s)), sp_class_tag = fr_of E (ucast (ss_class_tag s)),
      sp_slot = fr_of E (ucast (ss_slot s)), sp_nullifier = fr_from_be_bytes E (ss_nullifier s),
      sp_identity_tag = fr_from_be_bytes E (ss_identity_tag s)\<rparr>"

definition verify_submission ::
    "'fr prims \<Rightarrow> 'fr proof_backend \<Rightarrow> nat \<Rightarrow> signer_submission \<Rightarrow> petition_view
     \<Rightarrow> (relayer_error, 'fr signer_public_inputs \<times> 'fr \<times> class_tag) result" where
  "verify_submission E PB idx s view =
     (if ss_petition_id s \<noteq> pv_petition_id view then Inl (PetitionIdMismatch idx)
      else if ss_class_tag s \<notin> set (pv_class_set view)
      then Inl (RelClassTagOutOfSet (ss_class_tag s) idx)
      else
        (let public = submission_public E s in
         and_then (map_err (SignerProofInvalid idx) (verify_signer_proof PB (ss_proof_bytes s) public))
           (\<lambda>_. Inr (public, hash_leaf E (sp_nullifier public) (sp_class_tag public), ss_class_tag s))))"

definition verify_all ::
    "'fr prims \<Rightarrow> 'fr proof_backend \<Rightarrow> petition_view \<Rightarrow> signer_submission list
     \<Rightarrow> (relayer_error, 'fr verified list) result" where
  "verify_all E PB view subs =
     try_map (\<lambda>(i, s). and_then (verify_submission E PB i s view) (\<lambda>(public, leaf, ct).
       Inr (s, public, leaf, ct))) (enumerated subs)"

definition dedup_step ::
    "(bytes32 \<rightharpoonup> nat) \<times> (bytes32 \<rightharpoonup> nat) \<Rightarrow> nat \<times> 'fr verified
     \<Rightarrow> (relayer_error, (bytes32 \<rightharpoonup> nat) \<times> (bytes32 \<rightharpoonup> nat)) result" where
  "dedup_step = (\<lambda>(seen_nullifiers, seen_ids) (i, s, _, _, _).
     case seen_nullifiers (ss_nullifier s) of
       Some j \<Rightarrow> Inl (DuplicateNullifier j i)
     | None \<Rightarrow>
         (case seen_ids (ss_identity_tag s) of
            Some j \<Rightarrow> Inl (DuplicateIdentityTag j i)
          | None \<Rightarrow> Inr (seen_nullifiers(ss_nullifier s \<mapsto> i), seen_ids(ss_identity_tag s \<mapsto> i))))"

section \<open>Insertion\<close>

definition record_of :: "signer_submission \<Rightarrow> record_entry" where
  "record_of s = \<lparr>re_nullifier = ss_nullifier s, re_identity_tag = ss_identity_tag s,
                  re_class_tag = ss_class_tag s\<rparr>"

fun insert_positions ::
    "'fr prims \<Rightarrow> 'fr verified list \<Rightarrow> 'fr relayer_petition_state
     \<Rightarrow> (relayer_error, batch_position list) result \<times> 'fr relayer_petition_state" where
  "insert_positions E [] pst = (Inr [], pst)"
| "insert_positions E ((s, public, leaf, ct) # vs) pst =
     (case imt_insert E (rps_running_imt pst) (fr_to_be_bytes E leaf) of
        Inl e \<Rightarrow> (Inl (RelImt e), pst)
      | Inr (w1, running) \<Rightarrow>
          (let pst = pst\<lparr>rps_running_imt := running\<rparr> in
           case imt_insert E (rps_identity_tag_imt pst) (ss_identity_tag s) of
             Inl e \<Rightarrow> (Inl (RelImt e), pst)
           | Inr (w2, idtag) \<Rightarrow>
               (case insert_positions E vs (pst\<lparr>rps_identity_tag_imt := idtag\<rparr>) of
                  (Inl e, pst) \<Rightarrow> (Inl e, pst)
                | (Inr ps, pst) \<Rightarrow>
                    (Inr (\<lparr>bps_submission = s, bps_leaf_insert = w1, bps_identity_tag_insert = w2\<rparr> # ps),
                     pst))))"

definition resize_fields :: "'fr prims \<Rightarrow> nat \<Rightarrow> 'fr list \<Rightarrow> 'fr list" where
  "resize_fields E n xs = take n xs @ replicate (n - length xs) (fr_of E 0)"

definition batch_public_of ::
    "'fr prims \<Rightarrow> petition_view \<Rightarrow> 'fr relayer_petition_state \<Rightarrow> 'fr relayer_petition_state
     \<Rightarrow> record_entry list \<Rightarrow> bytes32 \<Rightarrow> 'fr batch_public_inputs" where
  "batch_public_of E view pst0 pst records vh =
     \<lparr>bp_petition_id = fr_from_be_bytes E (pv_petition_id view),
      bp_r_root = fr_from_be_bytes E (pv_r_root view),
      bp_predicate_hash = fr_from_be_bytes E (pv_predicate_hash view),
      bp_class_index = fr_of E (ucast (pv_class_index view)), bp_slot = fr_of E (ucast (pv_slot view)),
      bp_batch_size = fr_of E (word_of_nat (length records)),
      bp_prior_running_root = fr_from_be_bytes E (imt_root E (rps_running_imt pst0)),
      bp_new_running_root = fr_from_be_bytes E (imt_root E (rps_running_imt pst)),
      bp_prior_identity_tag_set_root = fr_from_be_bytes E (imt_root E (rps_identity_tag_imt pst0)),
      bp_new_identity_tag_set_root = fr_from_be_bytes E (imt_root E (rps_identity_tag_imt pst)),
      bp_prior_leaf_count = fr_of E (rps_leaf_count pst0), bp_new_leaf_count = fr_of E (rps_leaf_count pst),
      bp_batch_versioned_hash = fr_from_be_bytes E vh,
      bp_bls_fields = resize_fields E (BATCH_SIZE_MAX * FE_PER_RECORD)
        (concat (map (record_to_bls_fields E) records)),
      bp_signer_vk_hash = fr_from_be_bytes E (pv_signer_vk_hash view)\<rparr>"

definition position_witnesses ::
    "'fr verified list \<Rightarrow> batch_position list \<Rightarrow> 'fr batch_position_witness list" where
  "position_witnesses vs positions =
     map (\<lambda>((s, public, _, _), bp). \<lparr>bw_submission = s, bw_public_inputs = public,
            bw_running_insert = Some (bps_leaf_insert bp),
            bw_idtag_insert = Some (bps_identity_tag_insert bp)\<rparr>) (zip vs positions)"

section \<open>Batches\<close>

definition check_batch ::
    "'fr prims \<Rightarrow> 'fr proof_backend \<Rightarrow> petition_view \<Rightarrow> 'fr relayer_petition_state \<Rightarrow> signer_submission list
     \<Rightarrow> (relayer_error, 'fr verified list) result" where
  "check_batch E PB view pst subs =
     (if subs = [] then Inl EmptyBatch
      else if BATCH_SIZE_MAX < length subs then Inl (BatchSizeExceeded (length subs) BATCH_SIZE_MAX)
      else if imt_root E (rps_running_imt pst) \<noteq> pv_running_root view
              \<or> imt_root E (rps_identity_tag_imt pst) \<noteq> pv_identity_tag_set_root view
      then Inl StateDiverged
      else
        and_then (verify_all E PB view subs) (\<lambda>verified.
        and_then (try_fold dedup_step (Map.empty, Map.empty) (enumerated verified)) (\<lambda>_.
          Inr (sort_key (\<lambda>(_, _, leaf, _). fr_to_be_bytes E leaf) verified))))"

definition build_batch ::
    "'fr prims \<Rightarrow> 'fr proof_backend \<Rightarrow> 'c blob_carrier \<Rightarrow> 'c \<Rightarrow> petition_view \<Rightarrow> 'fr relayer_petition_state
     \<Rightarrow> signer_submission list
     \<Rightarrow> (relayer_error, 'fr batch_submission \<times> batch_position list) result
        \<times> 'fr relayer_petition_state \<times> 'c" where
  "build_batch E PB BC carrier view pst subs =
     (case check_batch E PB view pst subs of
        Inl e \<Rightarrow> (Inl e, pst, carrier)
      | Inr verified \<Rightarrow>
          (case insert_positions E verified pst of
             (Inl e, pst') \<Rightarrow> (Inl e, pst', carrier)
           | (Inr positions, pst') \<Rightarrow>
               (case checked_add (rps_leaf_count pst) (word_of_nat (length positions)) of
                  None \<Rightarrow> (Inl LeafCountOverflow, pst', carrier)
                | Some new_lc \<Rightarrow>
                    (let pst' = pst'\<lparr>rps_leaf_count := new_lc\<rparr>;
                         records = map (\<lambda>(s, _, _, _). record_of s) verified
                     in case bc_publish BC carrier records of
                          Inl e \<Rightarrow> (Inl (RelBlob e), pst', carrier)
                        | Inr (vh, carrier') \<Rightarrow>
                            (let public = batch_public_of E view pst pst' records vh
                             in (and_then (map_err RelProof
                                   (generate_batch_proof PB public (position_witnesses verified positions)))
                                   (\<lambda>proof. Inr (\<lparr>bs_public_inputs = public, bs_records = records,
                                                  bs_proof_bytes = proof\<rparr>, positions)),
                                 pst', carrier'))))))"

end
