(* ===== verification/Organizer.thy ===== *)
theory Organizer
  imports PredicateLang
begin

text \<open>
  \<open>src/organizer\<close>: the draft of a petition and the checks the organizer makes before sending it.
\<close>

record petition_draft =
  dr_organizer :: address
  dr_r_root :: bytes32
  dr_predicate_def :: predicate_def
  dr_salt :: bytes32
  dr_class_set :: "class_tag list"
  dr_class_thresholds :: "u64 list"
  dr_class_index :: u8
  dr_close_at_block :: u64
  dr_bounty :: u256_be

datatype organizer_error =
    ClassSetSize nat nat
  | ThresholdLenMismatch nat nat
  | ClassIndexOutOfRange u8
  | ClassSetNotSorted
  | OrgPredicate predicate_error
  | CloseInPast
  | SigningWindowTooLong

definition build_petition ::
    "address \<Rightarrow> bytes32 \<Rightarrow> predicate_def \<Rightarrow> bytes32 \<Rightarrow> class_tag list \<Rightarrow> u64 list \<Rightarrow> u8 \<Rightarrow> u64 \<Rightarrow> u64
     \<Rightarrow> u256_be \<Rightarrow> (organizer_error, petition_draft) result" where
  "build_petition organizer_address r_root predicate_def salt class_set class_thresholds class_index
       registration_block close_at_block bounty =
     (if class_set = [] \<or> MAX_CLASS_SET_LEN < length class_set
      then Inl (ClassSetSize (length class_set) MAX_CLASS_SET_LEN)
      else if \<not> strictly_increasing class_set then Inl ClassSetNotSorted
      else if length class_thresholds \<noteq> length class_set
      then Inl (ThresholdLenMismatch (length class_thresholds) (length class_set))
      else if MAX_CLASS_SET_LEN \<le> unat class_index then Inl (ClassIndexOutOfRange class_index)
      else
        and_then (map_err OrgPredicate (validate predicate_def)) (\<lambda>_.
        and_then (map_err OrgPredicate (find_class_binding_operand predicate_def class_index)) (\<lambda>operand.
          if operand \<notin> set class_set then Inl (OrgPredicate MissingClassBinding)
          else if close_at_block \<le> registration_block then Inl CloseInPast
          else if MAX_SIGNING_WINDOW_BLOCKS < close_at_block - registration_block
          then Inl SigningWindowTooLong
          else Inr \<lparr>dr_organizer = organizer_address, dr_r_root = r_root,
                    dr_predicate_def = predicate_def, dr_salt = salt, dr_class_set = class_set,
                    dr_class_thresholds = class_thresholds, dr_class_index = class_index,
                    dr_close_at_block = close_at_block, dr_bounty = bounty\<rparr>)))"

end
