(* ===== verification/Registry.thy ===== *)
theory Registry
  imports Imt Organizer Disputant
begin

text \<open>
  \<open>src/registry\<close>: the petition registry, the component every actor talks to. A handler returns its
  result together with the registry, because advancing the lifecycle persists even when the
  handler fails afterwards. The services a registry is built with are the record \<open>ports\<close>; their
  states (identity layer, blob carrier) and the block number the clock shows are fields of the
  registry. The one-field struct \<open>InternalBatch\<close> is its \<open>batch_record\<close>. \<open>register\<close> and
  \<open>publish_batch\<close> are split into the sections their bodies have.
\<close>

section \<open>Types\<close>

definition TOMBSTONE_MARKER :: bytes32 where "TOMBSTONE_MARKER = (zeros 32)[31 := 1]"

record batch_prior_mismatch =
  expected_rr :: bytes32
  expected_idt :: bytes32
  expected_lc :: u64
  got_rr :: bytes32
  got_idt :: bytes32
  got_lc :: u64

datatype registry_error =
    DuplicatePetition
  | UnknownPetition
  | BadState petition_state string
  | RRootTooYoung
  | AlphaOutOfBounds u64 u64 u64
  | BountyBelowMinimum u128 u128
  | SlotCounterExhausted u32
  | RegPredicate predicate_error
  | BadBatchProof proof_error
  | BatchPriorMismatch batch_prior_mismatch
  | BatchSizeOutOfRange nat
  | BadResolutionProof proof_error
  | ResolutionStateMismatch
  | BadDisputeOpening blob_error
  | DisputePredicateNotMet
  | DisputeUnknownBatch u32
  | DisputeBatchAlreadyRepudiated u32
  | DisputeWindowClosed
  | RegImt imt_error
  | RegBlob blob_error

record registered_petition =
  rgp_petition_id :: petition_id
  rgp_slot :: u32
  rgp_predicate_hash :: bytes32
  rgp_registered_at_block :: u64

record petition_registered_event =
  pre_petition_id :: petition_id
  pre_slot :: u32
  pre_r_root :: bytes32
  pre_predicate_hash :: bytes32
  pre_class_set :: "class_tag list"
  pre_class_thresholds :: "u64 list"
  pre_class_index :: u8
  pre_close_at_block :: u64
  pre_bounty :: u128

record batch_published_event =
  bpe_petition_id :: petition_id
  bpe_batch_index :: u32
  bpe_batch_versioned_hash :: bytes32
  bpe_new_running_root :: bytes32
  bpe_new_identity_tag_set_root :: bytes32
  bpe_new_leaf_count :: u64

record batch_repudiated_event =
  bre_petition_id :: petition_id
  bre_batch_index :: u32
  bre_new_running_root :: bytes32
  bre_new_identity_tag_set_root :: bytes32
  bre_new_leaf_count :: u64

record petition_resolved_event =
  pse_petition_id :: petition_id
  pse_b :: bool
  pse_b_per_class :: "bool list"

record petition_unresolved_event =
  pue_petition_id :: petition_id

record bounty_paid_event =
  bpd_petition_id :: petition_id
  bpd_recipient :: address
  bpd_amount :: u128

record bounty_refunded_event =
  brf_petition_id :: petition_id
  brf_recipient :: address
  brf_amount :: u128

record alpha_updated_event =
  aue_old_alpha :: u64
  aue_new_alpha :: u64

record petition_state_view =
  psv_petition_id :: petition_id
  psv_r_root :: bytes32
  psv_predicate_hash :: bytes32
  psv_class_set :: "class_tag list"
  psv_class_thresholds :: "u64 list"
  psv_class_index :: u8
  psv_slot :: u32
  psv_running_root :: bytes32
  psv_identity_tag_set_root :: bytes32
  psv_leaf_count :: u64

record 'fr petition_entry =
  pe_record :: petition_record
  pe_batches :: "batch_record list"
  pe_running_imt :: "'fr imt"
  pe_identity_tag_imt :: "'fr imt"

record ('fr, 'c, 'r) ports =
  pt_proof :: "'fr proof_backend"
  pt_blob :: "'c blob_carrier"
  pt_ri :: "'r ri_layer"

record ('fr, 'c, 'r) registry =
  rg_address :: address
  rg_global :: global_state
  rg_clock :: block_clock
  rg_ri :: 'r
  rg_blob_carrier :: 'c
  rg_petitions :: "petition_id \<rightharpoonup> 'fr petition_entry"
  rg_empty_imt_root :: bytes32

section \<open>Construction and views\<close>

definition registry_new ::
    "'fr prims \<Rightarrow> address \<Rightarrow> global_state \<Rightarrow> block_clock \<Rightarrow> 'r \<Rightarrow> 'c \<Rightarrow> ('fr, 'c, 'r) registry" where
  "registry_new E address global clock ri blob_carrier =
     \<lparr>rg_address = address, rg_global = global, rg_clock = clock, rg_ri = ri,
      rg_blob_carrier = blob_carrier, rg_petitions = Map.empty,
      rg_empty_imt_root = imt_root E (imt_new E)\<rparr>"

definition now :: "('fr, 'c, 'r) registry \<Rightarrow> u64" where
  "now reg = block_number (rg_clock reg)"

definition petition :: "('fr, 'c, 'r) registry \<Rightarrow> petition_id \<Rightarrow> (registry_error, 'fr petition_entry) result" where
  "petition reg pid = ok_or UnknownPetition (rg_petitions reg pid)"

definition put_petition ::
    "petition_id \<Rightarrow> 'fr petition_entry \<Rightarrow> ('fr, 'c, 'r) registry \<Rightarrow> ('fr, 'c, 'r) registry" where
  "put_petition pid entry reg = reg\<lparr>rg_petitions := (rg_petitions reg)(pid \<mapsto> entry)\<rparr>"

definition next_lifecycle :: "u64 \<Rightarrow> petition_record \<Rightarrow> petition_state option" where
  "next_lifecycle block r =
     (case pr_state r of
        Registered \<Rightarrow> Some SigningOpen
      | SigningOpen \<Rightarrow> if pr_close_at_block r \<le> block then Some SigningClosed else None
      | SigningClosed \<Rightarrow> Some Cooldown
      | Cooldown \<Rightarrow>
          if pr_close_at_block r + COOLDOWN_BLOCKS \<le> block then Some DisputeWindow else None
      | _ \<Rightarrow> None)"

function lifecycle_loop :: "u64 \<Rightarrow> petition_record \<Rightarrow> petition_record" where
  "lifecycle_loop block r =
     (case next_lifecycle block r of
        Some s \<Rightarrow> lifecycle_loop block (r\<lparr>pr_state := s\<rparr>)
      | None \<Rightarrow> r)"
  by pat_completeness auto
termination
  by (relation "measure (\<lambda>(b, r). 6 - lifecycle_rank (pr_state r))")
     (auto simp: next_lifecycle_def split: petition_state.splits if_splits)

declare lifecycle_loop.simps [simp del]

definition step_state ::
    "('fr, 'c, 'r) registry \<Rightarrow> petition_id \<Rightarrow> (registry_error, petition_state) result \<times> ('fr, 'c, 'r) registry"
where
  "step_state reg pid =
     (case petition reg pid of
        Inl e \<Rightarrow> (Inl e, reg)
      | Inr entry \<Rightarrow>
          (let r = lifecycle_loop (now reg) (pe_record entry)
           in (Inr (pr_state r), put_petition pid (entry\<lparr>pe_record := r\<rparr>) reg)))"

definition state_view ::
    "('fr, 'c, 'r) registry \<Rightarrow> petition_id \<Rightarrow> (registry_error, petition_state_view) result" where
  "state_view reg pid =
     and_then (petition reg pid) (\<lambda>entry.
       (let r = pe_record entry in
        Inr \<lparr>psv_petition_id = pr_petition_id r, psv_r_root = pr_r_root r,
             psv_predicate_hash = pr_predicate_hash r, psv_class_set = pr_class_set r,
             psv_class_thresholds = pr_class_thresholds r, psv_class_index = pr_class_index r,
             psv_slot = pr_slot r, psv_running_root = pr_running_root r,
             psv_identity_tag_set_root = pr_identity_tag_set_root r, psv_leaf_count = pr_leaf_count r\<rparr>))"

definition current_state ::
    "('fr, 'c, 'r) registry \<Rightarrow> petition_id \<Rightarrow> (registry_error, petition_state) result" where
  "current_state reg pid = and_then (petition reg pid) (\<lambda>entry. Inr (pr_state (pe_record entry)))"

definition active_batch_versioned_hashes ::
    "('fr, 'c, 'r) registry \<Rightarrow> petition_id \<Rightarrow> (registry_error, bytes32 list) result" where
  "active_batch_versioned_hashes reg pid =
     and_then (petition reg pid) (\<lambda>entry.
       Inr (map br_batch_versioned_hash (filter (\<lambda>b. br_state b = Active) (pe_batches entry))))"

section \<open>Integer conversions\<close>

definition fr_to_u64 :: "'fr prims \<Rightarrow> 'fr \<Rightarrow> (registry_error, u64) result" where
  "fr_to_u64 E x =
     (let be = fr_to_be_bytes E x in
      if \<not> list_all (\<lambda>b. b = 0) (take 24 be)
      then Inl (BadBatchProof (Verification ''public-input field element exceeds u64 range''))
      else Inr (from_be (slice 24 32 be)))"

definition u256_to_u128 :: "u256_be \<Rightarrow> (registry_error, u128) result" where
  "u256_to_u128 v =
     (if \<not> list_all (\<lambda>b. b = 0) (take 16 v)
      then Inl (RegPredicate (Malformed ''bounty exceeds u128 range''))
      else Inr (from_be (slice 16 32 v)))"

section \<open>Registration\<close>

definition register_structure :: "global_state \<Rightarrow> petition_draft \<Rightarrow> (registry_error, unit) result" where
  "register_structure g d =
     and_then (map_err RegPredicate (validate (dr_predicate_def d))) (\<lambda>_.
     if dr_class_set d = [] then Inl (RegPredicate (Malformed ''class_set must be non-empty''))
     else if length (dr_class_thresholds d) \<noteq> length (dr_class_set d)
     then Inl (RegPredicate (Malformed ''class_thresholds.len() != class_set.len()''))
     else if 0 \<in> set (dr_class_thresholds d)
     then Inl (RegPredicate (Malformed ''every class_thresholds[i] must be >= 1''))
     else if \<not> strictly_increasing (dr_class_set d)
     then Inl (RegPredicate (Malformed ''class_set must be strictly increasing''))
     else if unat (gs_n g) \<le> unat (dr_class_index d)
     then Inl (RegPredicate (Malformed ''class_index >= n''))
     else
       and_then (map_err RegPredicate (find_class_binding_operand (dr_predicate_def d) (dr_class_index d)))
         (\<lambda>operand. if operand \<notin> set (dr_class_set d)
                    then Inl (RegPredicate MissingClassBinding) else Inr ()))"

definition register_timing ::
    "('fr, 'c, 'r) ports \<Rightarrow> ('fr, 'c, 'r) registry \<Rightarrow> petition_draft \<Rightarrow> (registry_error, unit) result" where
  "register_timing P reg d =
     and_then (ok_or (RegPredicate (Malformed ''R is not a known RI root''))
                 (ri_root_first_seen (pt_ri P) (rg_ri reg) (dr_r_root d))) (\<lambda>root_first_seen.
     if now reg < root_first_seen \<or> now reg - root_first_seen < MIN_R_AGE_BLOCKS then Inl RRootTooYoung
     else if dr_close_at_block d \<le> now reg
     then Inl (RegPredicate (Malformed ''close_at_block must be in the future''))
     else if MAX_SIGNING_WINDOW_BLOCKS < dr_close_at_block d - now reg
     then Inl (RegPredicate (Malformed ''signing window exceeds 11.5 days''))
     else Inr ())"

text \<open>The wire form, the petition identifier and the predicate hash.\<close>

definition register_identity ::
    "'fr prims \<Rightarrow> ('fr, 'c, 'r) registry \<Rightarrow> petition_draft
     \<Rightarrow> (registry_error, u8 list \<times> petition_id \<times> bytes32) result" where
  "register_identity E reg d =
     and_then (map_err RegPredicate (encode (dr_predicate_def d))) (\<lambda>encoded.
     and_then (map_err RegPredicate (canonical_scalars E encoded)) (\<lambda>canonical.
       (let salt = fr_from_be_bytes E (dr_salt d);
            pre_id_hash_be = fr_to_be_bytes E (hash_predicate E canonical (fr_of E 0) salt);
            s = gs_s (rg_global reg) in
        if FSRT_SLOT_COUNT \<le> s then Inl (SlotCounterExhausted s)
        else
          (let petition_id = derive_petition_id E (gs_chain_id (rg_global reg)) (rg_address reg)
                 (dr_organizer d) s pre_id_hash_be (dr_close_at_block d) in
           if rg_petitions reg petition_id \<noteq> None then Inl DuplicatePetition
           else Inr (encoded, petition_id,
                  fr_to_be_bytes E (hash_predicate E canonical (fr_from_be_bytes E petition_id) salt))))))"

definition register_bounty :: "global_state \<Rightarrow> petition_draft \<Rightarrow> (registry_error, u128) result" where
  "register_bounty g d =
     (let alpha = gs_alpha g;
          overflow = (\<lambda>m. RegPredicate (Malformed m)) in
      if \<not> (gs_alpha_min g \<le> alpha \<and> alpha \<le> gs_alpha_max g)
      then Inl (AlphaOutOfBounds alpha (gs_alpha_min g) (gs_alpha_max g))
      else
        and_then (try_fold (\<lambda>acc t. ok_or (overflow ''class_thresholds sum overflow'') (checked_add acc (ucast t)))
                    0 (dr_class_thresholds d)) (\<lambda>threshold_sum :: u128.
        and_then (ok_or (overflow ''N_expected overflow'') (checked_mul threshold_sum 10)) (\<lambda>n_expected.
        and_then (ok_or (overflow ''B_min overflow'')
                    (Option.bind (checked_mul (ucast alpha) n_expected)
                       (\<lambda>x. checked_mul x (word_of_nat (op_count (dr_predicate_def d)))))) (\<lambda>b_min.
        and_then (u256_to_u128 (dr_bounty d)) (\<lambda>bounty.
          if bounty < b_min then Inl (BountyBelowMinimum bounty b_min) else Inr bounty)))))"

definition new_entry ::
    "'fr prims \<Rightarrow> ('fr, 'c, 'r) registry \<Rightarrow> petition_draft \<Rightarrow> u8 list \<Rightarrow> petition_id \<Rightarrow> bytes32
     \<Rightarrow> 'fr petition_entry" where
  "new_entry E reg d encoded pid predicate_hash =
     \<lparr>pe_record =
        \<lparr>pr_petition_id = pid, pr_slot = gs_s (rg_global reg), pr_r_root = dr_r_root d,
         pr_predicate_def = encoded, pr_predicate_hash = predicate_hash, pr_salt = dr_salt d,
         pr_class_set = dr_class_set d, pr_class_thresholds = dr_class_thresholds d,
         pr_class_index = dr_class_index d, pr_close_at_block = dr_close_at_block d,
         pr_bounty = dr_bounty d, pr_alpha_at_registration = gs_alpha (rg_global reg),
         pr_organizer = dr_organizer d, pr_running_root = rg_empty_imt_root reg,
         pr_identity_tag_set_root = rg_empty_imt_root reg, pr_leaf_count = 0,
         pr_resolution_proof = [], pr_b = False, pr_b_per_class = [], pr_state = Registered,
         pr_registration_block = now reg\<rparr>,
      pe_batches = [], pe_running_imt = imt_new E, pe_identity_tag_imt = imt_new E\<rparr>"

definition register ::
    "'fr prims \<Rightarrow> ('fr, 'c, 'r) ports \<Rightarrow> ('fr, 'c, 'r) registry \<Rightarrow> petition_draft
     \<Rightarrow> (registry_error, registered_petition \<times> petition_registered_event) result \<times> ('fr, 'c, 'r) registry"
where
  "register E P reg d =
     (case and_then (register_structure (rg_global reg) d) (\<lambda>_.
           and_then (register_timing P reg d) (\<lambda>_.
           and_then (register_identity E reg d) (\<lambda>(encoded, pid, ph).
           and_then (register_bounty (rg_global reg) d) (\<lambda>bounty.
           and_then (ok_or (SlotCounterExhausted (gs_s (rg_global reg)))
                       (checked_add (gs_s (rg_global reg)) 1)) (\<lambda>s'.
             Inr (encoded, pid, ph, bounty, s')))))) of
        Inl e \<Rightarrow> (Inl e, reg)
      | Inr (encoded, pid, ph, bounty, s') \<Rightarrow>
          (let slot = gs_s (rg_global reg);
               reg' = put_petition pid (new_entry E reg d encoded pid ph)
                        (reg\<lparr>rg_global := (rg_global reg)\<lparr>gs_s := s'\<rparr>\<rparr>)
           in case step_state reg' pid of
                (Inl e, reg'') \<Rightarrow> (Inl e, reg'')
              | (Inr _, reg'') \<Rightarrow>
                  (Inr (\<lparr>rgp_petition_id = pid, rgp_slot = slot, rgp_predicate_hash = ph,
                         rgp_registered_at_block = now reg\<rparr>,
                        \<lparr>pre_petition_id = pid, pre_slot = slot, pre_r_root = dr_r_root d,
                         pre_predicate_hash = ph, pre_class_set = dr_class_set d,
                         pre_class_thresholds = dr_class_thresholds d,
                         pre_class_index = dr_class_index d,
                         pre_close_at_block = dr_close_at_block d, pre_bounty = bounty\<rparr>),
                   reg'')))"

section \<open>Batch publication\<close>

text \<open>Payload hash and proof, before the entry is looked at.\<close>

definition publish_header ::
    "'fr prims \<Rightarrow> ('fr, 'c, 'r) ports \<Rightarrow> 'fr batch_submission \<Rightarrow> (registry_error, bytes32) result" where
  "publish_header E P sub =
     and_then (map_err RegBlob (encode_blob (bs_records sub))) (\<lambda>fes.
       (let local_vh = compute_batch_versioned_hash E fes; public = bs_public_inputs sub in
        if local_vh \<noteq> fr_to_be_bytes E (bp_batch_versioned_hash public)
        then Inl (RegBlob (BlobMalformed ''batch_versioned_hash mismatch''))
        else and_then (map_err BadBatchProof (verify_batch_proof (pt_proof P) (bs_proof_bytes sub) public))
               (\<lambda>_. Inr local_vh)))"

text \<open>Petition bindings, batch size, prior state and leaf count; yields the new leaf count.\<close>

definition publish_bindings ::
    "'fr prims \<Rightarrow> petition_record \<Rightarrow> 'fr batch_submission \<Rightarrow> (registry_error, u64) result" where
  "publish_bindings E r sub =
     (let public = bs_public_inputs sub;
          bad = (\<lambda>m. BadBatchProof (Verification m)) in
      if bp_petition_id public \<noteq> fr_from_be_bytes E (pr_petition_id r)
         \<or> bp_r_root public \<noteq> fr_from_be_bytes E (pr_r_root r)
         \<or> bp_predicate_hash public \<noteq> fr_from_be_bytes E (pr_predicate_hash r)
         \<or> bp_class_index public \<noteq> fr_of E (ucast (pr_class_index r))
      then Inl (bad ''batch public-input petition bindings mismatch'')
      else if bp_slot public \<noteq> fr_of E (ucast (pr_slot r))
      then Inl (bad ''batch public-input slot mismatch'')
      else
        and_then (fr_to_u64 E (bp_batch_size public)) (\<lambda>batch_size.
        if batch_size = 0 \<or> word_of_nat BATCH_SIZE_MAX < batch_size
        then Inl (BatchSizeOutOfRange (unat batch_size))
        else if length (bs_records sub) \<noteq> unat batch_size
        then Inl (BatchSizeOutOfRange (length (bs_records sub)))
        else
          (let prior_rr = fr_to_be_bytes E (bp_prior_running_root public);
               prior_idt = fr_to_be_bytes E (bp_prior_identity_tag_set_root public) in
           and_then (fr_to_u64 E (bp_prior_leaf_count public)) (\<lambda>prior_lc.
           if prior_rr \<noteq> pr_running_root r \<or> prior_idt \<noteq> pr_identity_tag_set_root r
              \<or> prior_lc \<noteq> pr_leaf_count r
           then Inl (BatchPriorMismatch
                  \<lparr>expected_rr = pr_running_root r, expected_idt = pr_identity_tag_set_root r,
                   expected_lc = pr_leaf_count r, got_rr = prior_rr, got_idt = prior_idt,
                   got_lc = prior_lc\<rparr>)
           else
             and_then (fr_to_u64 E (bp_new_leaf_count public)) (\<lambda>new_lc.
             and_then (ok_or (bad ''prior_leaf_count + batch_size overflow'')
                         (checked_add prior_lc batch_size)) (\<lambda>expected_new_lc.
             if new_lc \<noteq> expected_new_lc
             then Inl (bad ''new_leaf_count != prior_leaf_count + batch_size'')
             else Inr new_lc))))))"

record 'fr replay_state =
  ry_running :: "'fr imt"
  ry_idtag :: "'fr imt"
  ry_prev_leaf :: "bytes32 option"
  ry_last_rr :: bytes32
  ry_last_idt :: bytes32

definition publish_record ::
    "'fr prims \<Rightarrow> class_tag list \<Rightarrow> 'fr replay_state \<Rightarrow> record_entry \<Rightarrow> (registry_error, 'fr replay_state) result"
where
  "publish_record E class_set s r =
     (let bad = (\<lambda>m. BadBatchProof (Verification m)) in
      if re_class_tag r \<notin> set class_set then Inl (bad ''class_tag not in petition's class_set'')
      else
        (let leaf = fr_to_be_bytes E (record_leaf E r) in
         if (case ry_prev_leaf s of Some prev \<Rightarrow> leaf \<le> prev | None \<Rightarrow> False)
         then Inl (bad ''leaf ordering violation'')
         else
           and_then (map_err (\<lambda>_. bad ''running_imt insert'') (imt_insert E (ry_running s) leaf))
             (\<lambda>(w1, running).
           and_then (map_err (\<lambda>_. bad ''identity_tag_imt insert'')
                       (imt_insert E (ry_idtag s) (re_identity_tag r)))
             (\<lambda>(w2, idtag).
             Inr \<lparr>ry_running = running, ry_idtag = idtag, ry_prev_leaf = Some leaf,
                  ry_last_rr = iw_new_root w1, ry_last_idt = iw_new_root w2\<rparr>))))"

definition publish_replay ::
    "'fr prims \<Rightarrow> 'fr petition_entry \<Rightarrow> 'fr batch_submission \<Rightarrow> (registry_error, 'fr replay_state) result" where
  "publish_replay E entry sub =
     (let public = bs_public_inputs sub;
          bad = (\<lambda>m. BadBatchProof (Verification m));
          s0 = \<lparr>ry_running = pe_running_imt entry, ry_idtag = pe_identity_tag_imt entry,
                ry_prev_leaf = None, ry_last_rr = fr_to_be_bytes E (bp_prior_running_root public),
                ry_last_idt = fr_to_be_bytes E (bp_prior_identity_tag_set_root public)\<rparr> in
      and_then (try_fold (publish_record E (pr_class_set (pe_record entry))) s0 (bs_records sub)) (\<lambda>s.
      if fr_to_be_bytes E (bp_new_running_root public) \<noteq> ry_last_rr s
      then Inl (bad ''submitted new_running_root disagrees with registry IMT'')
      else if fr_to_be_bytes E (bp_new_identity_tag_set_root public) \<noteq> ry_last_idt s
      then Inl (bad ''submitted new_identity_tag_set_root disagrees with registry IMT'')
      else Inr s))"

definition batch_of ::
    "'fr prims \<Rightarrow> petition_id \<Rightarrow> address \<Rightarrow> u64 \<Rightarrow> 'fr petition_entry \<Rightarrow> 'fr batch_submission \<Rightarrow> bytes32
     \<Rightarrow> u64 \<Rightarrow> batch_record" where
  "batch_of E pid relayer block entry sub vh new_lc =
     (let public = bs_public_inputs sub in
      \<lparr>br_petition_id = pid, br_batch_index = word_of_nat (length (pe_batches entry)),
       br_batch_versioned_hash = vh,
       br_new_running_root = fr_to_be_bytes E (bp_new_running_root public),
       br_new_identity_tag_set_root = fr_to_be_bytes E (bp_new_identity_tag_set_root public),
       br_prior_running_root = fr_to_be_bytes E (bp_prior_running_root public),
       br_prior_identity_tag_set_root = fr_to_be_bytes E (bp_prior_identity_tag_set_root public),
       br_prior_leaf_count = pr_leaf_count (pe_record entry), br_new_leaf_count = new_lc,
       br_relayer = relayer, br_submitted_at_block = block, br_state = Active\<rparr>)"

text \<open>The trees are committed before the batch index is converted, as in the code.\<close>

definition publish_commit ::
    "'fr prims \<Rightarrow> petition_id \<Rightarrow> address \<Rightarrow> u64 \<Rightarrow> 'fr petition_entry \<Rightarrow> 'fr batch_submission \<Rightarrow> bytes32
     \<Rightarrow> u64 \<Rightarrow> 'fr replay_state \<Rightarrow> (registry_error, batch_published_event) result \<times> 'fr petition_entry" where
  "publish_commit E pid relayer block entry sub vh new_lc s =
     (let entry1 = entry\<lparr>pe_running_imt := ry_running s, pe_identity_tag_imt := ry_idtag s\<rparr>;
          b = batch_of E pid relayer block entry sub vh new_lc in
      if 2 ^ 32 \<le> length (pe_batches entry)
      then (Inl (BadBatchProof (Verification ''batch index overflow'')), entry1)
      else
        (Inr \<lparr>bpe_petition_id = pid, bpe_batch_index = br_batch_index b,
              bpe_batch_versioned_hash = vh, bpe_new_running_root = br_new_running_root b,
              bpe_new_identity_tag_set_root = br_new_identity_tag_set_root b,
              bpe_new_leaf_count = new_lc\<rparr>,
         entry1\<lparr>pe_record := (pe_record entry)\<lparr>pr_running_root := br_new_running_root b,
                   pr_identity_tag_set_root := br_new_identity_tag_set_root b,
                   pr_leaf_count := new_lc\<rparr>,
                pe_batches := pe_batches entry @ [b]\<rparr>))"

definition publish_checks ::
    "'fr prims \<Rightarrow> ('fr, 'c, 'r) ports \<Rightarrow> ('fr, 'c, 'r) registry \<Rightarrow> petition_state \<Rightarrow> petition_id
     \<Rightarrow> 'fr batch_submission \<Rightarrow> (registry_error, bytes32 \<times> 'fr petition_entry \<times> u64 \<times> 'fr replay_state) result"
where
  "publish_checks E P reg state pid sub =
     (if state \<noteq> SigningOpen then Inl (BadState state ''publish_batch'')
      else
        and_then (publish_header E P sub) (\<lambda>vh.
        and_then (petition reg pid) (\<lambda>entry.
        and_then (publish_bindings E (pe_record entry) sub) (\<lambda>new_lc.
        and_then (publish_replay E entry sub) (\<lambda>s.
          Inr (vh, entry, new_lc, s))))))"

definition publish_batch ::
    "'fr prims \<Rightarrow> ('fr, 'c, 'r) ports \<Rightarrow> ('fr, 'c, 'r) registry \<Rightarrow> petition_id \<Rightarrow> address
     \<Rightarrow> 'fr batch_submission \<Rightarrow> (registry_error, batch_published_event) result \<times> ('fr, 'c, 'r) registry"
where
  "publish_batch E P reg pid relayer sub =
     (case step_state reg pid of
        (Inl e, reg) \<Rightarrow> (Inl e, reg)
      | (Inr state, reg) \<Rightarrow>
          (case publish_checks E P reg state pid sub of
             Inl e \<Rightarrow> (Inl e, reg)
           | Inr (vh, entry, new_lc, s) \<Rightarrow>
               (case publish_commit E pid relayer (now reg) entry sub vh new_lc s of
                  (r, entry') \<Rightarrow> (r, put_petition pid entry' reg))))"

section \<open>Disputes\<close>

definition slot_opening ::
    "u32 \<Rightarrow> kzg_opening option list option \<Rightarrow> kzg_opening \<Rightarrow> kzg_opening option list option" where
  "slot_opening base acc opening =
     Option.bind acc (\<lambda>by_offset.
       case checked_sub (ko_field_element_index opening) base of
         None \<Rightarrow> Some by_offset
       | Some off \<Rightarrow>
           if \<not> off < 4 then Some by_offset
           else if by_offset ! unat off \<noteq> None then None
           else Some (by_offset[unat off := Some opening]))"

fun all_some :: "'a option list \<Rightarrow> 'a list option" where
  "all_some [] = Some []"
| "all_some (x # xs) = Option.bind x (\<lambda>y. map_option ((#) y) (all_some xs))"

definition derive_evidence :: "dispute \<Rightarrow> u32 \<Rightarrow> record_entry option" where
  "derive_evidence d position =
     Option.bind (checked_mul position 4) (\<lambda>base.
     Option.bind (checked_add base 3) (\<lambda>last.
       if word_of_nat (RECORDS_PER_BLOB * FE_PER_RECORD) \<le> last then None
       else
         Option.bind (foldl (slot_opening base) (Some (replicate 4 None)) (dp_openings d)) (\<lambda>by_offset.
         map_option (\<lambda>os. decode_record (assemble_record (map ko_claimed_value os)))
           (all_some by_offset))))"

definition check_violation ::
    "'fr prims \<Rightarrow> class_tag list \<Rightarrow> dispute \<Rightarrow> (registry_error, unit) result" where
  "check_violation E class_set d =
     (let bad = (\<lambda>m. BadDisputeOpening (BlobMalformed m)) in
      and_then (ok_or (bad ''could not derive evidence_i from openings'')
                  (derive_evidence d (dp_position_i d))) (\<lambda>ev_i.
      case dp_violation_type d of
        ClassTagOutOfSet \<Rightarrow>
          if re_class_tag ev_i \<in> set class_set then Inl DisputePredicateNotMet else Inr ()
      | IntraBatchDuplicateIdentityTag \<Rightarrow>
          and_then (ok_or (bad ''missing position_j'') (dp_position_j d)) (\<lambda>pos_j.
          if pos_j = dp_position_i d then Inl DisputePredicateNotMet
          else
            and_then (ok_or (bad ''could not derive evidence_j from openings'') (derive_evidence d pos_j))
              (\<lambda>ev_j. if re_identity_tag ev_i \<noteq> re_identity_tag ev_j
                      then Inl DisputePredicateNotMet else Inr ()))
      | LeafOrderingViolation \<Rightarrow>
          and_then (ok_or (bad ''missing position_j'') (dp_position_j d)) (\<lambda>pos_j.
          and_then (ok_or (bad ''position_i overflow'') (checked_add (dp_position_i d) 1)) (\<lambda>expected_j.
          if pos_j \<noteq> expected_j then Inl DisputePredicateNotMet
          else
            and_then (ok_or (bad ''could not derive evidence_j from openings'') (derive_evidence d pos_j))
              (\<lambda>ev_j. if \<not> leaf_ordering_violated E (record_leaf E ev_i) (record_leaf E ev_j)
                      then Inl DisputePredicateNotMet else Inr ())))))"

definition roll_back_to_predecessor ::
    "batch_record list \<Rightarrow> nat \<Rightarrow> bytes32 \<Rightarrow> bytes32 \<times> bytes32 \<times> u64" where
  "roll_back_to_predecessor batches repudiated_idx empty_imt_root =
     (case find (\<lambda>b. br_state b = Active) (rev (take repudiated_idx batches)) of
        Some b \<Rightarrow> (br_new_running_root b, br_new_identity_tag_set_root b, br_new_leaf_count b)
      | None \<Rightarrow> (empty_imt_root, empty_imt_root, 0))"

definition replay_record ::
    "'fr prims \<Rightarrow> 'fr imt \<times> 'fr imt \<Rightarrow> record_entry \<Rightarrow> (registry_error, 'fr imt \<times> 'fr imt) result" where
  "replay_record E = (\<lambda>(running, idtag) r.
     and_then (map_err RegImt (imt_insert E running (fr_to_be_bytes E (record_leaf E r)))) (\<lambda>(_, running').
     and_then (map_err RegImt (imt_insert E idtag (re_identity_tag r))) (\<lambda>(_, idtag').
       Inr (running', idtag'))))"

definition replay_batches ::
    "'fr prims \<Rightarrow> ('fr, 'c, 'r) ports \<Rightarrow> 'c \<Rightarrow> bytes32 list \<Rightarrow> (registry_error, 'fr imt \<times> 'fr imt) result" where
  "replay_batches E P carrier vhs =
     and_then (map_err RegBlob (try_map (bc_fetch_records (pt_blob P) carrier) vhs)) (\<lambda>rss.
       try_fold (replay_record E) (imt_new E, imt_new E) (concat rss))"

definition repudiate_from :: "nat \<Rightarrow> batch_record list \<Rightarrow> batch_record list" where
  "repudiate_from i batches = take i batches @ map (\<lambda>b. b\<lparr>br_state := Repudiated\<rparr>) (drop i batches)"

definition dispute_batch ::
    "'fr prims \<Rightarrow> ('fr, 'c, 'r) ports \<Rightarrow> ('fr, 'c, 'r) registry \<Rightarrow> petition_state \<Rightarrow> dispute
     \<Rightarrow> (registry_error, batch_repudiated_event \<times> 'fr petition_entry) result" where
  "dispute_batch E P reg state d =
     (if state \<noteq> DisputeWindow then Inl (BadState state ''dispute'')
      else
        and_then (petition reg (dp_petition_id d)) (\<lambda>entry.
        and_then (ok_or (BadState state ''dispute'')
           (checked_add (pr_close_at_block (pe_record entry)) RESOLUTION_DEADLINE_BLOCKS)) (\<lambda>dispute_close.
        if dispute_close \<le> now reg then Inl DisputeWindowClosed
        else
          (let batch_idx = unat (dp_batch_index d) in
           if length (pe_batches entry) \<le> batch_idx then Inl (DisputeUnknownBatch (dp_batch_index d))
           else if br_state (pe_batches entry ! batch_idx) = Repudiated
           then Inl (DisputeBatchAlreadyRepudiated (dp_batch_index d))
           else
             (let vh = br_batch_versioned_hash (pe_batches entry ! batch_idx) in
              and_then (try_fold (\<lambda>_ opening. map_err BadDisputeOpening
                          (bc_verify (pt_blob P) (rg_blob_carrier reg) vh opening)) () (dp_openings d)) (\<lambda>_.
              and_then (check_violation E (pr_class_set (pe_record entry)) d) (\<lambda>_.
              and_then (replay_batches E P (rg_blob_carrier reg)
                 (map br_batch_versioned_hash
                    (filter (\<lambda>b. br_state b = Active) (take batch_idx (pe_batches entry))))) (\<lambda>(running, idtag).
              (case roll_back_to_predecessor (pe_batches entry) batch_idx (rg_empty_imt_root reg) of
                 (rb_rr, rb_idt, rb_lc) \<Rightarrow>
                   Inr (\<lparr>bre_petition_id = dp_petition_id d, bre_batch_index = dp_batch_index d,
                         bre_new_running_root = rb_rr, bre_new_identity_tag_set_root = rb_idt,
                         bre_new_leaf_count = rb_lc\<rparr>,
                        entry\<lparr>pe_batches := repudiate_from batch_idx (pe_batches entry),
                              pe_record := (pe_record entry)\<lparr>pr_running_root := rb_rr,
                                pr_identity_tag_set_root := rb_idt, pr_leaf_count := rb_lc\<rparr>,
                              pe_running_imt := running, pe_identity_tag_imt := idtag\<rparr>)))))))))) "

definition dispute ::
    "'fr prims \<Rightarrow> ('fr, 'c, 'r) ports \<Rightarrow> ('fr, 'c, 'r) registry \<Rightarrow> dispute
     \<Rightarrow> (registry_error, batch_repudiated_event) result \<times> ('fr, 'c, 'r) registry" where
  "dispute E P reg d =
     (case step_state reg (dp_petition_id d) of
        (Inl e, reg) \<Rightarrow> (Inl e, reg)
      | (Inr state, reg) \<Rightarrow>
          (case dispute_batch E P reg state d of
             Inl e \<Rightarrow> (Inl e, reg)
           | Inr (ev, entry') \<Rightarrow> (Inr ev, put_petition (dp_petition_id d) entry' reg)))"

section \<open>Resolution\<close>

text \<open>Agreement of the public inputs with the petition's state.\<close>

definition resolution_matches ::
    "'fr prims \<Rightarrow> petition_record \<Rightarrow> 'fr resolution_public_inputs \<Rightarrow> (registry_error, unit) result" where
  "resolution_matches E r public =
     and_then (fr_to_u64 E (rp_leaf_count public)) (\<lambda>leaf_count.
     if fr_to_be_bytes E (rp_predicate_hash public) \<noteq> pr_predicate_hash r
        \<or> fr_to_be_bytes E (rp_r_root public) \<noteq> pr_r_root r
        \<or> fr_to_be_bytes E (rp_running_root public) \<noteq> pr_running_root r
        \<or> leaf_count \<noteq> pr_leaf_count r
     then Inl ResolutionStateMismatch
     else if length (rp_class_set public) \<noteq> length (pr_class_set r)
        \<or> length (rp_class_thresholds public) \<noteq> length (pr_class_thresholds r)
        \<or> length (rp_b_per_class public) \<noteq> length (pr_class_set r)
     then Inl ResolutionStateMismatch
     else
       try_fold (\<lambda>_ (i, c).
         if rp_class_set public ! i \<noteq> fr_of E (ucast c) then Inl ResolutionStateMismatch
         else if rp_class_thresholds public ! i \<noteq> fr_of E (pr_class_thresholds r ! i)
         then Inl ResolutionStateMismatch
         else Inr ()) () (enumerated (pr_class_set r)))"

definition resolve_checks ::
    "'fr prims \<Rightarrow> ('fr, 'c, 'r) ports \<Rightarrow> ('fr, 'c, 'r) registry \<Rightarrow> petition_state \<Rightarrow> petition_id
     \<Rightarrow> 'fr resolution_submission \<Rightarrow> (registry_error, 'fr petition_entry) result" where
  "resolve_checks E P reg state pid sub =
     (if state \<noteq> DisputeWindow then Inl (BadState state ''resolve'')
      else
        and_then (petition reg pid) (\<lambda>entry.
        and_then (ok_or (BadState state ''resolve'')
           (checked_add (pr_close_at_block (pe_record entry)) RESOLUTION_DEADLINE_BLOCKS)) (\<lambda>deadline.
        if now reg < deadline then Inl (BadState state ''resolve'')
        else
          and_then (map_err BadResolutionProof
             (verify_resolution_proof (pt_proof P) (rs_proof_bytes sub) (rs_public_inputs sub))) (\<lambda>_.
          and_then (resolution_matches E (pe_record entry) (rs_public_inputs sub)) (\<lambda>_.
            Inr entry)))))"

definition resolved_entry ::
    "'fr prims \<Rightarrow> 'fr resolution_submission \<Rightarrow> 'fr petition_entry \<Rightarrow> 'fr petition_entry" where
  "resolved_entry E sub entry =
     entry\<lparr>pe_record := (pe_record entry)\<lparr>pr_b := (rp_b (rs_public_inputs sub) \<noteq> fr_of E 0),
       pr_b_per_class := map (\<lambda>x. x \<noteq> fr_of E 0) (rp_b_per_class (rs_public_inputs sub)),
       pr_state := Resolved, pr_resolution_proof := rs_proof_bytes sub\<rparr>\<rparr>"

text \<open>The outcome is written before the bounty is converted, as in the code.\<close>

definition resolve ::
    "'fr prims \<Rightarrow> ('fr, 'c, 'r) ports \<Rightarrow> ('fr, 'c, 'r) registry \<Rightarrow> petition_id \<Rightarrow> address
     \<Rightarrow> 'fr resolution_submission
     \<Rightarrow> (registry_error, petition_resolved_event \<times> bounty_paid_event) result \<times> ('fr, 'c, 'r) registry" where
  "resolve E P reg pid resolver sub =
     (case step_state reg pid of
        (Inl e, reg) \<Rightarrow> (Inl e, reg)
      | (Inr state, reg) \<Rightarrow>
          (case resolve_checks E P reg state pid sub of
             Inl e \<Rightarrow> (Inl e, reg)
           | Inr entry \<Rightarrow>
               (let entry' = resolved_entry E sub entry
                in (and_then (u256_to_u128 (pr_bounty (pe_record entry'))) (\<lambda>amount.
                      Inr (\<lparr>pse_petition_id = pid, pse_b = pr_b (pe_record entry'),
                            pse_b_per_class = pr_b_per_class (pe_record entry')\<rparr>,
                           \<lparr>bpd_petition_id = pid, bpd_recipient = resolver, bpd_amount = amount\<rparr>)),
                    put_petition pid entry' reg))))"

section \<open>Expiry and governance\<close>

definition expiry_checks ::
    "('fr, 'c, 'r) registry \<Rightarrow> petition_state \<Rightarrow> petition_id \<Rightarrow> (registry_error, 'fr petition_entry \<times> u128) result"
where
  "expiry_checks reg state pid =
     and_then (petition reg pid) (\<lambda>entry.
     and_then (ok_or (BadState state ''mark_unresolved'')
        (Option.bind (checked_add (pr_close_at_block (pe_record entry)) RESOLUTION_DEADLINE_BLOCKS)
           (\<lambda>d. checked_add d MARK_UNRESOLVED_GRACE_BLOCKS))) (\<lambda>deadline.
     if now reg < deadline then Inl (BadState state ''mark_unresolved'')
     else if state \<noteq> DisputeWindow then Inl (BadState state ''mark_unresolved'')
     else and_then (u256_to_u128 (pr_bounty (pe_record entry))) (\<lambda>bounty_total. Inr (entry, bounty_total))))"

definition unresolved_entry :: "'fr petition_entry \<Rightarrow> 'fr petition_entry" where
  "unresolved_entry entry =
     entry\<lparr>pe_record := (pe_record entry)\<lparr>pr_running_root := TOMBSTONE_MARKER, pr_state := Unresolved\<rparr>\<rparr>"

definition mark_unresolved ::
    "('fr, 'c, 'r) registry \<Rightarrow> petition_id \<Rightarrow> address \<Rightarrow> u128
     \<Rightarrow> (registry_error, petition_unresolved_event \<times> bounty_refunded_event \<times> bounty_refunded_event) result
        \<times> ('fr, 'c, 'r) registry" where
  "mark_unresolved reg pid caller gas_rebate =
     (case step_state reg pid of
        (Inl e, reg) \<Rightarrow> (Inl e, reg)
      | (Inr state, reg) \<Rightarrow>
          (case expiry_checks reg state pid of
             Inl e \<Rightarrow> (Inl e, reg)
           | Inr (entry, bounty_total) \<Rightarrow>
               (let rebate_cap = bounty_total div 100;
                    rebate = min gas_rebate rebate_cap;
                    refund = bounty_total - rebate
                in (Inr (\<lparr>pue_petition_id = pid\<rparr>,
                         \<lparr>brf_petition_id = pid, brf_recipient = pr_organizer (pe_record entry),
                          brf_amount = refund\<rparr>,
                         \<lparr>brf_petition_id = pid, brf_recipient = caller, brf_amount = rebate\<rparr>),
                    put_petition pid (unresolved_entry entry) reg))))"

definition update_alpha ::
    "('fr, 'c, 'r) registry \<Rightarrow> u64 \<Rightarrow> (registry_error, alpha_updated_event) result \<times> ('fr, 'c, 'r) registry"
where
  "update_alpha reg new_alpha =
     (let g = rg_global reg in
      if \<not> (gs_alpha_min g \<le> new_alpha \<and> new_alpha \<le> gs_alpha_max g)
      then (Inl (AlphaOutOfBounds new_alpha (gs_alpha_min g) (gs_alpha_max g)), reg)
      else (Inr \<lparr>aue_old_alpha = gs_alpha g, aue_new_alpha = new_alpha\<rparr>,
            reg\<lparr>rg_global := g\<lparr>gs_alpha := new_alpha\<rparr>\<rparr>))"

end
