(* ===== verification/Registry_Lifecycle.thy ===== *)
theory Registry_Lifecycle
  imports Registry
begin

text \<open>
  The petition lifecycle of \<open>src/registry/core.rs\<close> as a state machine: every call of a handler, the
  passing of blocks and changes of the services' own state are steps of \<open>reg_step\<close>, and the
  theorems are invariants of its reachable states: petition terms never change, states only move
  forward, a resolved or expired petition is frozen, the signing, dispute and resolution windows
  do not overlap, and no two petitions share a slot.
\<close>

section \<open>The lifecycle loop\<close>

lemma lifecycle_loop_state:
  "lifecycle_loop block r =
     r\<lparr>pr_state :=
       (let closed = (if pr_close_at_block r + 600 \<le> block then DisputeWindow else Cooldown) in
        case pr_state r of
          Registered \<Rightarrow> if pr_close_at_block r \<le> block then closed else SigningOpen
        | SigningOpen \<Rightarrow> if pr_close_at_block r \<le> block then closed else SigningOpen
        | SigningClosed \<Rightarrow> closed
        | Cooldown \<Rightarrow> closed
        | s \<Rightarrow> s)\<rparr>"
proof -
  have D: "lifecycle_loop block r = r" if "pr_state r = DisputeWindow \<or> pr_state r = Resolved \<or> pr_state r = Unresolved" for r
    using that by (subst lifecycle_loop.simps) (auto simp: next_lifecycle_def)
  have C: "lifecycle_loop block r =
      r\<lparr>pr_state := if pr_close_at_block r + 600 \<le> block then DisputeWindow else Cooldown\<rparr>"
    if "pr_state r = Cooldown" for r
    using that by (subst lifecycle_loop.simps) (auto simp: next_lifecycle_def D)
  have S: "lifecycle_loop block r =
      r\<lparr>pr_state := if pr_close_at_block r + 600 \<le> block then DisputeWindow else Cooldown\<rparr>"
    if "pr_state r = SigningClosed" for r
    using that by (subst lifecycle_loop.simps) (auto simp: next_lifecycle_def C)
  have O: "lifecycle_loop block r = r\<lparr>pr_state := if pr_close_at_block r \<le> block then
      (if pr_close_at_block r + 600 \<le> block then DisputeWindow else Cooldown) else SigningOpen\<rparr>"
    if "pr_state r = SigningOpen" for r
    using that by (subst lifecycle_loop.simps) (auto simp: next_lifecycle_def S)
  have R: "lifecycle_loop block r = r\<lparr>pr_state := if pr_close_at_block r \<le> block then
      (if pr_close_at_block r + 600 \<le> block then DisputeWindow else Cooldown) else SigningOpen\<rparr>"
    if "pr_state r = Registered" for r
    using that by (subst lifecycle_loop.simps) (auto simp: next_lifecycle_def O)
  show ?thesis
    by (cases "pr_state r") (auto simp: D C S O R Let_def)
qed
section \<open>What a handler does to its petition\<close>

text \<open>Every handler first advances the lifecycle of the entry it names.\<close>

definition stepped :: "u64 \<Rightarrow> 'fr petition_entry \<Rightarrow> 'fr petition_entry" where
  "stepped block e = e\<lparr>pe_record := lifecycle_loop block (pe_record e)\<rparr>"

lemma put_petition_simps [simp]:
  "rg_petitions (put_petition pid e reg) = (rg_petitions reg)(pid \<mapsto> e)"
  "put_petition pid e (put_petition pid e' reg) = put_petition pid e reg"
  "now (put_petition pid e reg) = now reg" "rg_global (put_petition pid e reg) = rg_global reg"
  "rg_blob_carrier (put_petition pid e reg) = rg_blob_carrier reg"
  "rg_empty_imt_root (put_petition pid e reg) = rg_empty_imt_root reg"
  "rg_clock (put_petition pid e reg) = rg_clock reg" "rg_ri (put_petition pid e reg) = rg_ri reg"
  by (simp_all add: put_petition_def now_def)

lemma petition_put [simp]: "petition (put_petition pid e reg) pid = Inr e"
  by (simp add: petition_def)

lemma step_state_unknown [simp]:
  "rg_petitions reg pid = None \<Longrightarrow> step_state reg pid = (Inl UnknownPetition, reg)"
  by (simp add: step_state_def petition_def)

lemma step_state_known [simp]:
  "rg_petitions reg pid = Some e \<Longrightarrow>
   step_state reg pid =
     (Inr (pr_state (pe_record (stepped (now reg) e))), put_petition pid (stepped (now reg) e) reg)"
  by (simp add: step_state_def petition_def stepped_def Let_def)

lemma stepped_simps [simp]:
  "pe_batches (stepped b e) = pe_batches e" "pe_running_imt (stepped b e) = pe_running_imt e"
  "pe_identity_tag_imt (stepped b e) = pe_identity_tag_imt e"
  "pr_petition_id (pe_record (stepped b e)) = pr_petition_id (pe_record e)"
  "pr_slot (pe_record (stepped b e)) = pr_slot (pe_record e)"
  "pr_r_root (pe_record (stepped b e)) = pr_r_root (pe_record e)"
  "pr_predicate_hash (pe_record (stepped b e)) = pr_predicate_hash (pe_record e)"
  "pr_class_set (pe_record (stepped b e)) = pr_class_set (pe_record e)"
  "pr_class_thresholds (pe_record (stepped b e)) = pr_class_thresholds (pe_record e)"
  "pr_class_index (pe_record (stepped b e)) = pr_class_index (pe_record e)"
  "pr_close_at_block (pe_record (stepped b e)) = pr_close_at_block (pe_record e)"
  "pr_bounty (pe_record (stepped b e)) = pr_bounty (pe_record e)"
  "pr_organizer (pe_record (stepped b e)) = pr_organizer (pe_record e)"
  "pr_running_root (pe_record (stepped b e)) = pr_running_root (pe_record e)"
  "pr_identity_tag_set_root (pe_record (stepped b e)) = pr_identity_tag_set_root (pe_record e)"
  "pr_leaf_count (pe_record (stepped b e)) = pr_leaf_count (pe_record e)"
  by (simp_all add: stepped_def lifecycle_loop_state)

text \<open>The outcomes of a handler on a known petition; an unknown one is reported and nothing changes.\<close>

lemma handler_unknown:
  assumes "rg_petitions reg pid = None"
  shows "publish_batch E P reg pid a sub = (Inl UnknownPetition, reg)"
    and "dp_petition_id d = pid \<Longrightarrow> dispute E P reg d = (Inl UnknownPetition, reg)"
    and "resolve E P reg pid a rsub = (Inl UnknownPetition, reg)"
    and "mark_unresolved reg pid a g = (Inl UnknownPetition, reg)"
  using assms by (simp_all add: publish_batch_def dispute_def resolve_def mark_unresolved_def)

lemma publish_checks_Inr:
  "publish_checks E P reg state pid sub = Inr (vh, entry, new_lc, s) \<longleftrightarrow>
     state = SigningOpen \<and> publish_header E P sub = Inr vh \<and> petition reg pid = Inr entry \<and>
     publish_bindings E (pe_record entry) sub = Inr new_lc \<and> publish_replay E entry sub = Inr s"
  by (auto simp: publish_checks_def and_then_eq_Inr)

lemma publish_batch_known:
  assumes "rg_petitions reg pid = Some e" and "publish_batch E P reg pid relayer sub = (r, reg')"
  shows "(\<exists>err. r = Inl err \<and> reg' = put_petition pid (stepped (now reg) e) reg) \<or>
    (\<exists>vh new_lc s. pr_state (pe_record (stepped (now reg) e)) = SigningOpen
       \<and> publish_header E P sub = Inr vh
       \<and> publish_bindings E (pe_record (stepped (now reg) e)) sub = Inr new_lc
       \<and> publish_replay E (stepped (now reg) e) sub = Inr s
       \<and> (r, reg') = (case publish_commit E pid relayer (now reg) (stepped (now reg) e) sub vh new_lc s of
                        (r, e') \<Rightarrow> (r, put_petition pid e' reg)))"
proof -
  let ?e = "stepped (now reg) e"
  let ?c = "publish_checks E P (put_petition pid ?e reg) (pr_state (pe_record ?e)) pid sub"
  show ?thesis
  proof (cases ?c)
    case (Inl err)
    with assms show ?thesis by (auto simp: publish_batch_def)
  next
    case (Inr x)
    obtain vh entry new_lc s where x: "x = (vh, entry, new_lc, s)" by (cases x)
    note c = Inr [unfolded x publish_checks_Inr petition_put]
    from assms Inr x have "(r, reg') = (case publish_commit E pid relayer (now reg) entry sub vh new_lc s of
        (r, e') \<Rightarrow> (r, put_petition pid e' reg))"
      by (simp add: publish_batch_def split: prod.splits)
    with c show ?thesis by blast
  qed
qed

lemma dispute_known:
  assumes "rg_petitions reg (dp_petition_id d) = Some e" and "dispute E P reg d = (r, reg')"
  shows "(\<exists>err. r = Inl err \<and> reg' = put_petition (dp_petition_id d) (stepped (now reg) e) reg) \<or>
    (\<exists>ev e'. r = Inr ev \<and> reg' = put_petition (dp_petition_id d) e' reg
       \<and> dispute_batch E P (put_petition (dp_petition_id d) (stepped (now reg) e) reg)
           (pr_state (pe_record (stepped (now reg) e))) d = Inr (ev, e'))"
proof (cases "dispute_batch E P (put_petition (dp_petition_id d) (stepped (now reg) e) reg)
           (pr_state (pe_record (stepped (now reg) e))) d")
  case (Inl err)
  with assms show ?thesis by (auto simp: dispute_def)
next
  case (Inr x)
  with assms show ?thesis by (cases x) (auto simp: dispute_def)
qed

lemma resolve_known:
  assumes "rg_petitions reg pid = Some e" and "resolve E P reg pid resolver sub = (r, reg')"
  shows "(\<exists>err. r = Inl err \<and> reg' = put_petition pid (stepped (now reg) e) reg) \<or>
    (resolve_checks E P (put_petition pid (stepped (now reg) e) reg)
         (pr_state (pe_record (stepped (now reg) e))) pid sub = Inr (stepped (now reg) e)
       \<and> reg' = put_petition pid (resolved_entry E sub (stepped (now reg) e)) reg)"
proof (cases "resolve_checks E P (put_petition pid (stepped (now reg) e) reg)
         (pr_state (pe_record (stepped (now reg) e))) pid sub")
  case (Inl err)
  with assms show ?thesis by (auto simp: resolve_def)
next
  case (Inr x)
  then have "x = stepped (now reg) e"
    by (auto simp: resolve_checks_def and_then_eq_Inr split: if_splits)
  with Inr assms show ?thesis by (simp add: resolve_def Let_def)
qed

lemma mark_unresolved_known:
  assumes "rg_petitions reg pid = Some e" and "mark_unresolved reg pid caller gas = (r, reg')"
  shows "(\<exists>err. r = Inl err \<and> reg' = put_petition pid (stepped (now reg) e) reg) \<or>
    (\<exists>total. expiry_checks (put_petition pid (stepped (now reg) e) reg)
         (pr_state (pe_record (stepped (now reg) e))) pid = Inr (stepped (now reg) e, total)
       \<and> reg' = put_petition pid (unresolved_entry (stepped (now reg) e)) reg
       \<and> r = Inr (\<lparr>pue_petition_id = pid\<rparr>,
             \<lparr>brf_petition_id = pid, brf_recipient = pr_organizer (pe_record e),
              brf_amount = total - min gas (total div 100)\<rparr>,
             \<lparr>brf_petition_id = pid, brf_recipient = caller, brf_amount = min gas (total div 100)\<rparr>))"
proof (cases "expiry_checks (put_petition pid (stepped (now reg) e) reg)
         (pr_state (pe_record (stepped (now reg) e))) pid")
  case (Inl err)
  with assms show ?thesis by (auto simp: mark_unresolved_def)
next
  case (Inr x)
  then obtain total where "x = (stepped (now reg) e, total)"
    by (auto simp: expiry_checks_def and_then_eq_Inr split: if_splits)
  with Inr assms show ?thesis by (auto simp: mark_unresolved_def Let_def)
qed

section \<open>The state machine\<close>

inductive reg_step ::
    "'fr prims \<Rightarrow> ('fr, 'c, 'r) ports \<Rightarrow> ('fr, 'c, 'r) registry \<Rightarrow> ('fr, 'c, 'r) registry \<Rightarrow> bool"
  for E P
where
  Register: "register E P reg d = (r, reg') \<Longrightarrow> reg_step E P reg reg'"
| Publish: "publish_batch E P reg pid relayer sub = (r, reg') \<Longrightarrow> reg_step E P reg reg'"
| Dispute: "dispute E P reg d = (r, reg') \<Longrightarrow> reg_step E P reg reg'"
| Resolve: "resolve E P reg pid resolver rsub = (r, reg') \<Longrightarrow> reg_step E P reg reg'"
| Expire: "mark_unresolved reg pid caller gas = (r, reg') \<Longrightarrow> reg_step E P reg reg'"
| Govern: "update_alpha reg alpha = (r, reg') \<Longrightarrow> reg_step E P reg reg'"
| Tick: "now reg \<le> t \<Longrightarrow> reg_step E P reg (reg\<lparr>rg_clock := t\<rparr>)"
| Services: "reg_step E P reg (reg\<lparr>rg_ri := x, rg_blob_carrier := c\<rparr>)"

inductive_cases reg_stepE: "reg_step E P reg reg'"

definition petition_terms where
  "petition_terms r =
     (pr_petition_id r, pr_slot r, pr_r_root r, pr_predicate_def r, pr_predicate_hash r, pr_salt r,
      pr_class_set r, pr_class_thresholds r, pr_class_index r, pr_close_at_block r, pr_bounty r,
      pr_alpha_at_registration r, pr_organizer r, pr_registration_block r)"

abbreviation state_of :: "'fr petition_entry \<Rightarrow> petition_state" where
  "state_of e \<equiv> pr_state (pe_record e)"

abbreviation close_of :: "'fr petition_entry \<Rightarrow> u64" where
  "close_of e \<equiv> pr_close_at_block (pe_record e)"

text \<open>How one step may change an entry that is already there.\<close>

definition evolves :: "u64 \<Rightarrow> 'fr petition_entry \<Rightarrow> 'fr petition_entry \<Rightarrow> bool" where
  "evolves b e e' \<longleftrightarrow>
     e' = e \<or> e' = stepped b e \<or>
     (petition_terms (pe_record e') = petition_terms (pe_record e) \<and>
      (state_of (stepped b e) = SigningOpen \<and> state_of e' = SigningOpen \<or>
       state_of (stepped b e) = DisputeWindow \<and>
         (state_of e' = DisputeWindow \<or>
          (\<exists>d. checked_add (close_of e) RESOLUTION_DEADLINE_BLOCKS = Some d \<and> d \<le> b) \<and>
          (state_of e' = Resolved \<or> state_of e' = Unresolved))))"

lemma petition_terms_stepped [simp]: "petition_terms (pe_record (stepped b e)) = petition_terms (pe_record e)"
  by (simp add: petition_terms_def stepped_def lifecycle_loop_state)

lemma publish_commit_terms:
  "petition_terms (pe_record (snd (publish_commit E pid a b e sub vh lc s))) = petition_terms (pe_record e)"
  "state_of (snd (publish_commit E pid a b e sub vh lc s)) = state_of e"
  by (simp_all add: publish_commit_def petition_terms_def Let_def)

lemma dispute_batch_Inr:
  assumes "dispute_batch E P reg state d = Inr (ev, e')"
  obtains entry dispute_close running idtag where
    "state = DisputeWindow" "petition reg (dp_petition_id d) = Inr entry"
    "checked_add (close_of entry) RESOLUTION_DEADLINE_BLOCKS = Some dispute_close" "now reg < dispute_close"
    "unat (dp_batch_index d) < length (pe_batches entry)"
    "br_state (pe_batches entry ! unat (dp_batch_index d)) = Active"
    "\<forall>opening \<in> set (dp_openings d). bc_verify (pt_blob P) (rg_blob_carrier reg)
       (br_batch_versioned_hash (pe_batches entry ! unat (dp_batch_index d))) opening = Inr ()"
    "check_violation E (pr_class_set (pe_record entry)) d = Inr ()"
    "replay_batches E P (rg_blob_carrier reg) (map br_batch_versioned_hash
       (filter (\<lambda>b. br_state b = Active) (take (unat (dp_batch_index d)) (pe_batches entry)))) = Inr (running, idtag)"
    "e' = (case roll_back_to_predecessor (pe_batches entry) (unat (dp_batch_index d)) (rg_empty_imt_root reg) of
       (rr, idt, lc) \<Rightarrow> entry\<lparr>pe_batches := repudiate_from (unat (dp_batch_index d)) (pe_batches entry),
          pe_record := (pe_record entry)\<lparr>pr_running_root := rr, pr_identity_tag_set_root := idt, pr_leaf_count := lc\<rparr>,
          pe_running_imt := running, pe_identity_tag_imt := idtag\<rparr>)"
proof -
  let ?i = "unat (dp_batch_index d)"
  from assms obtain entry dispute_close where 1: "state = DisputeWindow" "petition reg (dp_petition_id d) = Inr entry"
    "checked_add (close_of entry) RESOLUTION_DEADLINE_BLOCKS = Some dispute_close" "\<not> dispute_close \<le> now reg"
    "\<not> length (pe_batches entry) \<le> ?i" "br_state (pe_batches entry ! ?i) \<noteq> Repudiated"
    by (auto simp: dispute_batch_def Let_def and_then_eq_Inr ok_or_eq_Inr split: if_splits)
  with assms obtain running idtag where 2:
    "try_fold (\<lambda>_ opening. map_err BadDisputeOpening (bc_verify (pt_blob P) (rg_blob_carrier reg)
       (br_batch_versioned_hash (pe_batches entry ! ?i)) opening)) () (dp_openings d) = Inr ()"
    "check_violation E (pr_class_set (pe_record entry)) d = Inr ()"
    "replay_batches E P (rg_blob_carrier reg) (map br_batch_versioned_hash
       (filter (\<lambda>b. br_state b = Active) (take ?i (pe_batches entry)))) = Inr (running, idtag)"
    "(case roll_back_to_predecessor (pe_batches entry) ?i (rg_empty_imt_root reg) of
       (rr, idt, lc) \<Rightarrow> entry\<lparr>pe_batches := repudiate_from ?i (pe_batches entry),
          pe_record := (pe_record entry)\<lparr>pr_running_root := rr, pr_identity_tag_set_root := idt, pr_leaf_count := lc\<rparr>,
          pe_running_imt := running, pe_identity_tag_imt := idtag\<rparr>) = e'"
    by (simp add: dispute_batch_def Let_def and_then_eq_Inr) (auto simp: case_prod_unfold and_then_eq_Inr)
  from 1(6) have "br_state (pe_batches entry ! ?i) = Active" by (cases "br_state (pe_batches entry ! ?i)") auto
  with that 1 2 show ?thesis by (simp add: try_fold_unit map_err_eq_Inr not_le)
qed

lemma dispute_batch_entry:
  assumes "dispute_batch E P reg state d = Inr (ev, e')"
  shows "\<exists>entry. petition reg (dp_petition_id d) = Inr entry \<and> state = DisputeWindow \<and>
    petition_terms (pe_record e') = petition_terms (pe_record entry) \<and> state_of e' = state_of entry"
  using assms by (elim dispute_batch_Inr) (auto simp: petition_terms_def case_prod_unfold)

lemma resolve_checks_deadline:
  assumes "resolve_checks E P reg state pid sub = Inr entry"
  shows "state = DisputeWindow \<and> petition reg pid = Inr entry \<and>
    (\<exists>d. checked_add (close_of entry) RESOLUTION_DEADLINE_BLOCKS = Some d \<and> d \<le> now reg)"
  using assms by (auto simp: resolve_checks_def and_then_eq_Inr ok_or_eq_Inr not_less split: if_splits)

lemma expiry_checks_deadline:
  assumes "expiry_checks reg state pid = Inr (entry, amount)"
  shows "state = DisputeWindow \<and> petition reg pid = Inr entry \<and>
    u256_to_u128 (pr_bounty (pe_record entry)) = Inr amount \<and>
    (\<exists>d d'. checked_add (close_of entry) RESOLUTION_DEADLINE_BLOCKS = Some d \<and>
       checked_add d MARK_UNRESOLVED_GRACE_BLOCKS = Some d' \<and> d' \<le> now reg)"
  using assms
  by (auto simp: expiry_checks_def and_then_eq_Inr ok_or_eq_Inr not_less bind_eq_Some_conv split: if_splits)

lemma final_entries [simp]:
  "petition_terms (pe_record (resolved_entry E sub e)) = petition_terms (pe_record e)"
  "petition_terms (pe_record (unresolved_entry e)) = petition_terms (pe_record e)"
  "state_of (resolved_entry E sub e) = Resolved" "state_of (unresolved_entry e) = Unresolved"
  by (simp_all add: resolved_entry_def unresolved_entry_def petition_terms_def)

lemma checked_add_mono: "checked_add x y = Some z \<Longrightarrow> x \<le> z"
  using checked_add_SomeD [of x y z] by (simp add: word_le_nat_alt)

lemma handler_evolves:
  assumes "rg_petitions reg pid = Some e"
  shows "publish_batch E P reg pid a sub = (r1, reg') \<Longrightarrow>
      \<exists>e'. reg' = put_petition pid e' reg \<and> evolves (now reg) e e'"
    and "dispute E P reg d = (r2, reg') \<Longrightarrow> dp_petition_id d = pid \<Longrightarrow>
      \<exists>e'. reg' = put_petition pid e' reg \<and> evolves (now reg) e e'"
    and "resolve E P reg pid a rsub = (r3, reg') \<Longrightarrow>
      \<exists>e'. reg' = put_petition pid e' reg \<and> evolves (now reg) e e'"
    and "mark_unresolved reg pid a g = (r4, reg') \<Longrightarrow>
      \<exists>e'. reg' = put_petition pid e' reg \<and> evolves (now reg) e e'"
proof -
  let ?e = "stepped (now reg) e"
  have st: "evolves (now reg) e ?e" by (simp add: evolves_def)
  show "\<exists>e'. reg' = put_petition pid e' reg \<and> evolves (now reg) e e'"
    if "publish_batch E P reg pid a sub = (r1, reg')"
    using publish_batch_known [OF assms that]
  proof
    assume "\<exists>err. r1 = Inl err \<and> reg' = put_petition pid ?e reg"
    with st show ?thesis by blast
  next
    assume "\<exists>vh new_lc s. state_of ?e = SigningOpen \<and> publish_header E P sub = Inr vh
       \<and> publish_bindings E (pe_record ?e) sub = Inr new_lc \<and> publish_replay E ?e sub = Inr s
       \<and> (r1, reg') = (case publish_commit E pid a (now reg) ?e sub vh new_lc s of
                        (r, e') \<Rightarrow> (r, put_petition pid e' reg))"
    then obtain vh lc s where o: "state_of ?e = SigningOpen"
      and "reg' = put_petition pid (snd (publish_commit E pid a (now reg) ?e sub vh lc s)) reg"
      by (auto simp: split_beta)
    moreover have "evolves (now reg) e (snd (publish_commit E pid a (now reg) ?e sub vh lc s))"
      using o by (simp add: evolves_def publish_commit_terms)
    ultimately show ?thesis by blast
  qed
  show "\<exists>e'. reg' = put_petition pid e' reg \<and> evolves (now reg) e e'"
    if "dispute E P reg d = (r2, reg')" "dp_petition_id d = pid"
  proof -
    from dispute_known [of reg d e E P r2 reg'] assms that consider "reg' = put_petition pid ?e reg"
      | ev e' where "reg' = put_petition pid e' reg"
        "dispute_batch E P (put_petition pid ?e reg) (state_of ?e) d = Inr (ev, e')" by auto
    then show ?thesis
    proof cases
      case 2
      from dispute_batch_entry [OF 2(2)] that(2) have "evolves (now reg) e e'" by (auto simp: evolves_def)
      with 2 show ?thesis by blast
    qed (use st in blast)
  qed
  show "\<exists>e'. reg' = put_petition pid e' reg \<and> evolves (now reg) e e'"
    if "resolve E P reg pid a rsub = (r3, reg')"
  proof -
    from resolve_known [OF assms that] consider "reg' = put_petition pid ?e reg"
      | "resolve_checks E P (put_petition pid ?e reg) (state_of ?e) pid rsub = Inr ?e"
        "reg' = put_petition pid (resolved_entry E rsub ?e) reg" by blast
    then show ?thesis
    proof cases
      case 2
      from resolve_checks_deadline [OF 2(1)] have "evolves (now reg) e (resolved_entry E rsub ?e)"
        by (auto simp: evolves_def)
      with 2 show ?thesis by blast
    qed (use st in blast)
  qed
  show "\<exists>e'. reg' = put_petition pid e' reg \<and> evolves (now reg) e e'"
    if "mark_unresolved reg pid a g = (r4, reg')"
  proof -
    from mark_unresolved_known [OF assms that] consider "reg' = put_petition pid ?e reg"
      | amount where "expiry_checks (put_petition pid ?e reg) (state_of ?e) pid = Inr (?e, amount)"
        "reg' = put_petition pid (unresolved_entry ?e) reg" by blast
    then show ?thesis
    proof cases
      case 2
      from expiry_checks_deadline [OF 2(1)] obtain d d' where d: "state_of ?e = DisputeWindow"
        "checked_add (close_of e) RESOLUTION_DEADLINE_BLOCKS = Some d"
        "checked_add d MARK_UNRESOLVED_GRACE_BLOCKS = Some d'" "d' \<le> now reg" by auto
      from checked_add_mono [OF d(3)] d(4) have "d \<le> now reg" by simp
      with d have "evolves (now reg) e (unresolved_entry ?e)" by (auto simp: evolves_def)
      with 2 show ?thesis by blast
    qed (use st in blast)
  qed
qed

section \<open>Registration\<close>

lemma register_identity_Inr:
  assumes "register_identity E reg d = Inr (encoded, pid, ph)"
  shows "gs_s (rg_global reg) < FSRT_SLOT_COUNT \<and> rg_petitions reg pid = None \<and>
    encode (dr_predicate_def d) = Inr encoded \<and>
    (\<exists>canonical. canonical_scalars E encoded = Inr canonical \<and>
      pid = derive_petition_id E (gs_chain_id (rg_global reg)) (rg_address reg) (dr_organizer d) (gs_s (rg_global reg))
        (fr_to_be_bytes E (hash_predicate E canonical (fr_of E 0) (fr_from_be_bytes E (dr_salt d))))
        (dr_close_at_block d) \<and>
      ph = fr_to_be_bytes E (hash_predicate E canonical (fr_from_be_bytes E pid) (fr_from_be_bytes E (dr_salt d))))"
  using assms
  by (auto simp: register_identity_def and_then_eq_Inr map_err_eq_Inr Let_def not_le split: if_splits)

lemma register_outcome:
  assumes "register E P reg d = (r, reg')"
  shows "(\<exists>err. r = Inl err \<and> reg' = reg) \<or>
    (\<exists>encoded pid ph bounty s'. register_structure (rg_global reg) d = Inr () \<and> register_timing P reg d = Inr ()
       \<and> register_identity E reg d = Inr (encoded, pid, ph) \<and> register_bounty (rg_global reg) d = Inr bounty
       \<and> checked_add (gs_s (rg_global reg)) 1 = Some s'
       \<and> reg' = put_petition pid (stepped (now reg) (new_entry E reg d encoded pid ph))
           (reg\<lparr>rg_global := (rg_global reg)\<lparr>gs_s := s'\<rparr>\<rparr>)
       \<and> (\<exists>ev. r = Inr (\<lparr>rgp_petition_id = pid, rgp_slot = gs_s (rg_global reg), rgp_predicate_hash = ph,
             rgp_registered_at_block = now reg\<rparr>, ev) \<and> pre_bounty ev = bounty))"
proof -
  let ?c = "and_then (register_structure (rg_global reg) d) (\<lambda>_.
           and_then (register_timing P reg d) (\<lambda>_.
           and_then (register_identity E reg d) (\<lambda>(encoded, pid, ph).
           and_then (register_bounty (rg_global reg) d) (\<lambda>bounty.
           and_then (ok_or (SlotCounterExhausted (gs_s (rg_global reg)))
                       (checked_add (gs_s (rg_global reg)) 1)) (\<lambda>s'.
             Inr (encoded, pid, ph, bounty, s'))))))"
  show ?thesis
  proof (cases ?c)
    case (Inl err)
    with assms show ?thesis by (auto simp: register_def)
  next
    case (Inr x)
    obtain encoded pid ph bounty s' where x: "x = (encoded, pid, ph, bounty, s')" by (cases x)
    from Inr x have c: "register_structure (rg_global reg) d = Inr ()" "register_timing P reg d = Inr ()"
      "register_identity E reg d = Inr (encoded, pid, ph)" "register_bounty (rg_global reg) d = Inr bounty"
      "checked_add (gs_s (rg_global reg)) 1 = Some s'"
      by (auto simp: and_then_eq_Inr ok_or_eq_Inr)
    let ?reg = "reg\<lparr>rg_global := (rg_global reg)\<lparr>gs_s := s'\<rparr>\<rparr>"
    have n: "now ?reg = now reg" by (simp add: now_def)
    have "reg' = put_petition pid (stepped (now reg) (new_entry E reg d encoded pid ph)) ?reg"
      "\<exists>ev. r = Inr (\<lparr>rgp_petition_id = pid, rgp_slot = gs_s (rg_global reg), rgp_predicate_hash = ph,
         rgp_registered_at_block = now reg\<rparr>, ev) \<and> pre_bounty ev = bounty"
      using assms Inr x n by (auto simp: register_def Let_def)
    with c show ?thesis by blast
  qed
qed

text \<open>A registered petition starts in \<open>SigningOpen\<close>, since its close lies in the future.\<close>

lemma new_entry_state:
  assumes "register_timing P reg d = Inr ()"
  shows "state_of (stepped (now reg) (new_entry E reg d encoded pid ph)) = SigningOpen"
    and "now reg < dr_close_at_block d"
  using assms
  by (auto simp: register_timing_def and_then_eq_Inr stepped_def lifecycle_loop_state new_entry_def not_le
      split: if_splits)

section \<open>Invariants\<close>

lemma reg_step_evolves:
  assumes "reg_step E P reg reg'" and "rg_petitions reg pid = Some e"
  shows "\<exists>e'. rg_petitions reg' pid = Some e' \<and> evolves (now reg) e e'"
proof -
  have same: "evolves (now reg) e e" by (simp add: evolves_def)
  have put: "\<exists>e'. rg_petitions reg' pid = Some e' \<and> evolves (now reg) e e'"
    if "\<And>e. rg_petitions reg p = Some e \<Longrightarrow> \<exists>e'. reg' = put_petition p e' reg \<and> evolves (now reg) e e'"
      and "rg_petitions reg p = None \<Longrightarrow> reg' = reg" for p
  proof (cases "rg_petitions reg p")
    case None
    with that assms(2) same show ?thesis by auto
  next
    case (Some e1)
    with that(1) [OF Some] assms(2) same show ?thesis by (cases "p = pid") auto
  qed
  from assms(1) show ?thesis
  proof cases
    case (Register d r)
    from register_outcome [OF Register] assms(2) show ?thesis
      using register_identity_Inr same by fastforce
  next
    case (Publish p a sub r)
    show ?thesis by (rule put [of p]) (use Publish handler_evolves(1) handler_unknown(1) in fastforce)+
  next
    case (Dispute d r)
    show ?thesis by (rule put [of "dp_petition_id d"]) (use Dispute handler_evolves(2) handler_unknown(2) in fastforce)+
  next
    case (Resolve p a rsub r)
    show ?thesis by (rule put [of p]) (use Resolve handler_evolves(3) handler_unknown(3) in fastforce)+
  next
    case (Expire p a g r)
    show ?thesis
    proof (rule put [of p])
      show "\<exists>e'. reg' = put_petition p e' reg \<and> evolves (now reg) e e'" if "rg_petitions reg p = Some e" for e
        using that Expire by (rule handler_evolves(4))
      show "reg' = reg" if "rg_petitions reg p = None"
        using handler_unknown(4) [OF that, of a g] Expire by (metis prod.inject)
    qed
  next
    case (Govern alpha r)
    then have "rg_petitions reg' = rg_petitions reg" by (auto simp: update_alpha_def Let_def split: if_splits)
    with assms(2) same show ?thesis by auto
  qed (use assms(2) same in auto)
qed

lemma same_update [simp]:
  "pr_state r = s \<Longrightarrow> r\<lparr>pr_state := s\<rparr> = r" "e\<lparr>pe_record := pe_record e\<rparr> = e"
  by (cases r, simp) (cases e, simp)

lemma stepped_terminal: "DisputeWindow \<le> state_of e \<Longrightarrow> stepped b e = e"
  by (cases "state_of e") (simp_all add: stepped_def lifecycle_loop_state lifecycle_simps)

lemma stepped_mono: "state_of e \<le> state_of (stepped b e)"
  by (auto simp: stepped_def lifecycle_loop_state lifecycle_simps Let_def split: petition_state.splits)

lemma evolves_terms: "evolves b e e' \<Longrightarrow> petition_terms (pe_record e') = petition_terms (pe_record e)"
  by (auto simp: evolves_def)

lemma evolves_mono: "evolves b e e' \<Longrightarrow> state_of e \<le> state_of e'"
  using stepped_mono [of e b] by (auto simp: evolves_def lifecycle_simps)

lemma evolves_frozen: "evolves b e e' \<Longrightarrow> Resolved \<le> state_of e \<Longrightarrow> e' = e"
  using stepped_terminal [of e b] by (auto simp: evolves_def lifecycle_simps split: petition_state.splits)

text \<open>Steps that add no petition leave the others alone; the clock does not run backwards.\<close>

lemma reg_step_clock: "reg_step E P reg reg' \<Longrightarrow> now reg \<le> now reg'"
proof (erule reg_step.cases, goal_cases)
  case (1 reg d r reg')
  with register_outcome [OF 1(3)] show ?case by (auto simp: now_def put_petition_def)
next
  case (2 reg pid a sub r reg')
  then show ?case using handler_evolves(1) handler_unknown(1) by (cases "rg_petitions reg pid") fastforce+
next
  case (3 reg d r reg')
  then show ?case using handler_evolves(2) handler_unknown(2)
    by (cases "rg_petitions reg (dp_petition_id d)") fastforce+
next
  case (4 reg pid a sub r reg')
  then show ?case using handler_evolves(3) handler_unknown(3) by (cases "rg_petitions reg pid") fastforce+
next
  case (5 reg pid a g r reg')
  then show ?case using handler_evolves(4) handler_unknown(4) by (cases "rg_petitions reg pid") fastforce+
qed (auto simp: now_def update_alpha_def Let_def block_number_def split: if_splits)

section \<open>Reachable states\<close>

inductive reachable :: "'fr prims \<Rightarrow> ('fr, 'c, 'r) ports \<Rightarrow> ('fr, 'c, 'r) registry \<Rightarrow> bool" for E P where
  init: "reachable E P (registry_new E address global clock ri carrier)"
| step: "reachable E P reg \<Longrightarrow> reg_step E P reg reg' \<Longrightarrow> reachable E P reg'"

text \<open>A petition that is new after a step was registered by it.\<close>

lemma reg_step_new:
  assumes "reg_step E P reg reg'" and "rg_petitions reg pid = None" and "rg_petitions reg' pid = Some e'"
  obtains d encoded ph bounty s' where "register_timing P reg d = Inr ()"
    "register_structure (rg_global reg) d = Inr ()"
    "register_identity E reg d = Inr (encoded, pid, ph)"
    "register_bounty (rg_global reg) d = Inr bounty"
    "checked_add (gs_s (rg_global reg)) 1 = Some s'"
    "e' = stepped (now reg) (new_entry E reg d encoded pid ph)"
    "reg' = put_petition pid e' (reg\<lparr>rg_global := (rg_global reg)\<lparr>gs_s := s'\<rparr>\<rparr>)"
proof -
  have no: False if "rg_petitions reg p = Some e \<Longrightarrow> \<exists>e'. reg' = put_petition p e' reg"
    "rg_petitions reg p = None \<Longrightarrow> reg' = reg" "rg_petitions reg p = None \<or> rg_petitions reg p = Some e" for p e
    using that assms(2,3) by (auto split: if_splits)
  have opt: "\<exists>e. rg_petitions reg p = None \<or> rg_petitions reg p = Some e" for p by (cases "rg_petitions reg p") auto
  from assms(1) show thesis
  proof cases
    case (Register d r)
    from register_outcome [OF Register] assms(2,3) that show thesis by (auto split: if_splits)
  next
    case (Publish p a sub r)
    from opt [of p] obtain e where "rg_petitions reg p = None \<or> rg_petitions reg p = Some e" by blast
    then show thesis using no [of p e] handler_evolves(1) [OF _ Publish] handler_unknown(1) [of reg p E P a sub] Publish by fastforce
  next
    case (Dispute d r)
    from opt [of "dp_petition_id d"] obtain e
      where "rg_petitions reg (dp_petition_id d) = None \<or> rg_petitions reg (dp_petition_id d) = Some e" by blast
    then show thesis
      using no [of "dp_petition_id d" e] handler_evolves(2) [OF _ Dispute] handler_unknown(2) [of reg "dp_petition_id d" d E P] Dispute
      by fastforce
  next
    case (Resolve p a rsub r)
    from opt [of p] obtain e where "rg_petitions reg p = None \<or> rg_petitions reg p = Some e" by blast
    then show thesis using no [of p e] handler_evolves(3) [OF _ Resolve] handler_unknown(3) [of reg p E P a rsub] Resolve by fastforce
  next
    case (Expire p a g r)
    from opt [of p] obtain e where "rg_petitions reg p = None \<or> rg_petitions reg p = Some e" by blast
    then show thesis using no [of p e] handler_evolves(4) [OF _ Expire] handler_unknown(4) [of reg p a g] Expire by fastforce
  next
    case (Govern alpha r)
    with assms(2,3) show thesis by (auto simp: update_alpha_def Let_def split: if_splits)
  qed (use assms(2,3) in auto)
qed

text \<open>A state is reached only when its block has come.\<close>

definition time_ok :: "u64 \<Rightarrow> 'fr petition_entry \<Rightarrow> bool" where
  "time_ok b e \<longleftrightarrow>
     state_of e \<noteq> Registered \<and> state_of e \<noteq> SigningClosed \<and>
     (state_of e \<noteq> SigningOpen \<longrightarrow> close_of e \<le> b) \<and>
     (DisputeWindow \<le> state_of e \<longrightarrow> close_of e + COOLDOWN_BLOCKS \<le> b) \<and>
     (Resolved \<le> state_of e \<longrightarrow>
        (\<exists>d. checked_add (close_of e) RESOLUTION_DEADLINE_BLOCKS = Some d \<and> d \<le> b))"

lemma time_ok_mono: "time_ok b e \<Longrightarrow> b \<le> b' \<Longrightarrow> time_ok b' e"
  unfolding time_ok_def by (meson order_trans)

lemma time_ok_stepped: "time_ok b e \<Longrightarrow> time_ok b (stepped b e)"
  by (cases "state_of e")
     (auto simp: time_ok_def stepped_def lifecycle_loop_state lifecycle_simps Let_def not_le)

lemma time_ok_evolves:
  assumes "time_ok b e" and "evolves b e e'"
  shows "time_ok b e'"
proof -
  have t: "time_ok b (stepped b e)" by (rule time_ok_stepped [OF assms(1)])
  have c: "close_of e' = close_of e" using evolves_terms [OF assms(2)] by (simp add: petition_terms_def)
  from assms(2) show ?thesis
    unfolding evolves_def
  proof (elim disjE conjE)
    assume "state_of (stepped b e) = SigningOpen" "state_of e' = SigningOpen"
    then show ?thesis by (simp add: time_ok_def lifecycle_simps)
  next
    assume "state_of (stepped b e) = DisputeWindow" "state_of e' = DisputeWindow"
    then show ?thesis using t c by (simp add: time_ok_def lifecycle_simps)
  next
    assume "state_of (stepped b e) = DisputeWindow" "state_of e' = Resolved"
      "\<exists>d. checked_add (close_of e) RESOLUTION_DEADLINE_BLOCKS = Some d \<and> d \<le> b"
    then show ?thesis using t c by (simp add: time_ok_def lifecycle_simps)
  next
    assume "state_of (stepped b e) = DisputeWindow" "state_of e' = Unresolved"
      "\<exists>d. checked_add (close_of e) RESOLUTION_DEADLINE_BLOCKS = Some d \<and> d \<le> b"
    then show ?thesis using t c by (simp add: time_ok_def lifecycle_simps)
  qed (use assms t in auto)
qed

lemma reachable_time_ok:
  assumes "reachable E P reg" and "rg_petitions reg pid = Some e"
  shows "time_ok (now reg) e"
  using assms
proof (induction arbitrary: e rule: reachable.induct)
  case (step reg reg')
  have "time_ok (now reg) e"
  proof (cases "rg_petitions reg pid")
    case None
    from reg_step_new [OF step.hyps(2) None step.prems] obtain d encoded ph where
      "register_timing P reg d = Inr ()" "e = stepped (now reg) (new_entry E reg d encoded pid ph)" by metis
    then show ?thesis
      using new_entry_state(1) [of P reg d E encoded pid ph] by (simp add: time_ok_def lifecycle_simps)
  next
    case (Some e0)
    from reg_step_evolves [OF step.hyps(2) Some] step.prems step.IH [OF Some] time_ok_evolves
    show ?thesis by auto
  qed
  then show ?case using reg_step_clock [OF step.hyps(2)] by (rule time_ok_mono)
qed (simp add: registry_new_def)

section \<open>Slots\<close>

definition slots_ok :: "('fr, 'c, 'r) registry \<Rightarrow> bool" where
  "slots_ok reg \<longleftrightarrow>
     (\<forall>pid e. rg_petitions reg pid = Some e \<longrightarrow>
        pr_petition_id (pe_record e) = pid \<and> pr_slot (pe_record e) < gs_s (rg_global reg) \<and>
        pr_slot (pe_record e) < FSRT_SLOT_COUNT) \<and>
     (\<forall>pid pid' e e'. rg_petitions reg pid = Some e \<longrightarrow> rg_petitions reg pid' = Some e' \<longrightarrow>
        pr_slot (pe_record e) = pr_slot (pe_record e') \<longrightarrow> pid = pid')"

lemma slots_ok_evolve:
  assumes "slots_ok reg" and "gs_s (rg_global reg') = gs_s (rg_global reg)"
    and "\<And>pid. rg_petitions reg pid = None \<Longrightarrow> rg_petitions reg' pid = None"
    and "\<And>pid e. rg_petitions reg pid = Some e \<Longrightarrow>
      \<exists>e'. rg_petitions reg' pid = Some e' \<and> petition_terms (pe_record e') = petition_terms (pe_record e)"
  shows "slots_ok reg'"
proof -
  have old: "\<exists>e0. rg_petitions reg pid = Some e0 \<and> pr_petition_id (pe_record e) = pr_petition_id (pe_record e0)
      \<and> pr_slot (pe_record e) = pr_slot (pe_record e0)" if "rg_petitions reg' pid = Some e" for pid e
    using assms(3,4) [of pid] that by (cases "rg_petitions reg pid") (auto simp: petition_terms_def)
  show ?thesis
    unfolding slots_ok_def assms(2)
  proof (intro conjI allI impI)
    fix p e assume "rg_petitions reg' p = Some e"
    from old [OF this] assms(1)
    show "pr_petition_id (pe_record e) = p" "pr_slot (pe_record e) < gs_s (rg_global reg)"
      "pr_slot (pe_record e) < FSRT_SLOT_COUNT" unfolding slots_ok_def by fastforce+
  next
    fix p p' e e'
    assume p: "rg_petitions reg' p = Some e" "rg_petitions reg' p' = Some e'"
      and s: "pr_slot (pe_record e) = pr_slot (pe_record e')"
    from old [OF p(1)] old [OF p(2)] s assms(1) show "p = p'" unfolding slots_ok_def by fastforce
  qed
qed

lemma update_alpha_slots: "update_alpha reg a = (r, reg') \<Longrightarrow> gs_s (rg_global reg') = gs_s (rg_global reg)
    \<and> rg_petitions reg' = rg_petitions reg"
  by (auto simp: update_alpha_def Let_def split: if_splits)

lemma put_global: "reg' = put_petition p e reg \<or> reg' = reg \<Longrightarrow> rg_global reg' = rg_global reg"
  by auto

lemma reg_step_slot_counter:
  assumes "reg_step E P reg reg'" and "\<And>pid. rg_petitions reg pid = None \<Longrightarrow> rg_petitions reg' pid = None"
  shows "gs_s (rg_global reg') = gs_s (rg_global reg)"
  using assms(1)
proof cases
  case (Register d r)
  from register_outcome [OF Register] show ?thesis
  proof (elim disjE exE conjE)
    fix encoded pid ph bounty s'
    assume "register_identity E reg d = Inr (encoded, pid, ph)"
      "reg' = put_petition pid (stepped (now reg) (new_entry E reg d encoded pid ph))
           (reg\<lparr>rg_global := (rg_global reg)\<lparr>gs_s := s'\<rparr>\<rparr>)"
    with register_identity_Inr [of E reg d encoded pid ph] assms(2) [of pid] show ?thesis by simp
  qed simp
next
  case (Publish p a sub r)
  then show ?thesis using handler_evolves(1) [OF _ Publish] handler_unknown(1) [of reg p E P a sub]
    by (cases "rg_petitions reg p") auto
next
  case (Dispute d r)
  then show ?thesis using handler_evolves(2) [OF _ Dispute refl] handler_unknown(2) [of reg "dp_petition_id d" d E P]
    by (cases "rg_petitions reg (dp_petition_id d)") auto
next
  case (Resolve p a rsub r)
  then show ?thesis using handler_evolves(3) [OF _ Resolve] handler_unknown(3) [of reg p E P a rsub]
    by (cases "rg_petitions reg p") auto
next
  case (Expire p a g r)
  then show ?thesis using handler_evolves(4) [OF _ Expire] handler_unknown(4) [of reg p a g]
    by (cases "rg_petitions reg p") auto
next
  case (Govern alpha r)
  then show ?thesis using update_alpha_slots by blast
qed auto

lemma slots_ok_register:
  assumes "slots_ok reg" and "register_identity E reg d = Inr (encoded, pid, ph)"
    and "checked_add (gs_s (rg_global reg)) 1 = Some s'"
  shows "slots_ok (put_petition pid (stepped b (new_entry E reg d encoded pid ph))
      (reg\<lparr>rg_global := (rg_global reg)\<lparr>gs_s := s'\<rparr>\<rparr>))" (is "slots_ok ?reg")
proof -
  let ?s = "gs_s (rg_global reg)"
  have s: "?s < FSRT_SLOT_COUNT" using register_identity_Inr [OF assms(2)] by blast
  have s': "?s < s'" using checked_add_SomeD [OF assms(3)] by (simp add: word_less_nat_alt)
  have new: "pr_petition_id (pe_record (new_entry E reg d encoded pid ph)) = pid"
    "pr_slot (pe_record (new_entry E reg d encoded pid ph)) = ?s" by (simp_all add: new_entry_def)
  have old: "pr_petition_id (pe_record e) = p \<and> pr_slot (pe_record e) < ?s \<and> pr_slot (pe_record e) < FSRT_SLOT_COUNT"
    if "rg_petitions reg p = Some e" for p e using assms(1) that by (simp add: slots_ok_def)
  have inj: "p = p'" if "rg_petitions reg p = Some e" "rg_petitions reg p' = Some e'"
      "pr_slot (pe_record e) = pr_slot (pe_record e')" for p p' e e'
    using assms(1) that unfolding slots_ok_def by blast
  show ?thesis
    unfolding slots_ok_def
  proof (intro conjI allI impI)
    fix p e assume p: "rg_petitions ?reg p = Some e"
    show "pr_petition_id (pe_record e) = p" "pr_slot (pe_record e) < gs_s (rg_global ?reg)"
      "pr_slot (pe_record e) < FSRT_SLOT_COUNT"
      using p new old [of p e] s s' by (auto split: if_splits)
  next
    fix p p' e e'
    assume p: "rg_petitions ?reg p = Some e" "rg_petitions ?reg p' = Some e'"
      "pr_slot (pe_record e) = pr_slot (pe_record e')"
    show "p = p'"
    proof (cases "p = pid \<or> p' = pid")
      case True
      with p new old [of p e] old [of p' e'] show ?thesis by (cases "p = pid"; cases "p' = pid") auto
    next
      case False
      with p inj [of p e p' e'] show ?thesis by simp
    qed
  qed
qed

lemma reachable_slots_ok: "reachable E P reg \<Longrightarrow> slots_ok reg"
proof (induction rule: reachable.induct)
  case init
  then show ?case by (simp add: slots_ok_def registry_new_def)
next
  case (step reg reg')
  show ?case
  proof (cases "\<exists>pid e. rg_petitions reg pid = None \<and> rg_petitions reg' pid = Some e")
    case True
    then obtain pid e where n: "rg_petitions reg pid = None" "rg_petitions reg' pid = Some e" by blast
    from reg_step_new [OF step.hyps(2) n] obtain d encoded ph s' where
      "register_identity E reg d = Inr (encoded, pid, ph)" "checked_add (gs_s (rg_global reg)) 1 = Some s'"
      "e = stepped (now reg) (new_entry E reg d encoded pid ph)"
      "reg' = put_petition pid e (reg\<lparr>rg_global := (rg_global reg)\<lparr>gs_s := s'\<rparr>\<rparr>)" by metis
    with slots_ok_register [OF step.IH] show ?thesis by simp
  next
    case False
    then have no: "rg_petitions reg' pid = None" if "rg_petitions reg pid = None" for pid
      using that False by (cases "rg_petitions reg' pid") blast+
    show ?thesis
      by (rule slots_ok_evolve [OF step.IH reg_step_slot_counter [OF step.hyps(2) no] no])
         (use reg_step_evolves [OF step.hyps(2)] evolves_terms in blast)+
  qed
qed

section \<open>Well-formed terms\<close>

text \<open>What registration guarantees about the terms of every petition.\<close>

definition terms_ok :: "'fr prims \<Rightarrow> petition_record \<Rightarrow> bool" where
  "terms_ok E r \<longleftrightarrow>
     pr_class_set r \<noteq> [] \<and> sorted_wrt (<) (pr_class_set r) \<and>
     length (pr_class_thresholds r) = length (pr_class_set r) \<and> 0 \<notin> set (pr_class_thresholds r) \<and>
     fr_to_be_bytes E (fr_from_be_bytes E (pr_predicate_hash r)) = pr_predicate_hash r \<and>
     is_ok (u256_to_u128 (pr_bounty r))"

lemma terms_ok_cong: "petition_terms r = petition_terms r' \<Longrightarrow> terms_ok E r \<longleftrightarrow> terms_ok E r'"
  by (simp add: petition_terms_def terms_ok_def)

lemma terms_ok_new:
  assumes "field_laws E" "register_structure g d = Inr ()" "register_identity E reg d = Inr (encoded, pid, ph)"
    "register_bounty g d = Inr bounty"
  shows "terms_ok E (pe_record (new_entry E reg d encoded pid ph))"
proof -
  have "dr_class_set d \<noteq> []" "sorted_wrt (<) (dr_class_set d)"
    "length (dr_class_thresholds d) = length (dr_class_set d)" "0 \<notin> set (dr_class_thresholds d)"
    using assms(2) by (auto simp: register_structure_def and_then_eq_Inr strictly_increasing_iff split: if_splits)
  moreover have "is_ok (u256_to_u128 (dr_bounty d))"
    using assms(4) by (auto simp: register_bounty_def Let_def and_then_eq_Inr split: if_splits)
  moreover have "fr_to_be_bytes E (fr_from_be_bytes E ph) = ph"
    using register_identity_Inr [OF assms(3)] assms(1) by auto
  ultimately show ?thesis by (simp add: terms_ok_def new_entry_def)
qed

lemma reachable_terms_ok:
  assumes "reachable E P reg" and "field_laws E" and "rg_petitions reg pid = Some e"
  shows "terms_ok E (pe_record e)"
  using assms(1,3)
proof (induction arbitrary: e rule: reachable.induct)
  case (step reg reg')
  show ?case
  proof (cases "rg_petitions reg pid")
    case None
    from reg_step_new [OF step.hyps(2) None step.prems] obtain d encoded ph bounty where
      "register_structure (rg_global reg) d = Inr ()" "register_identity E reg d = Inr (encoded, pid, ph)"
      "register_bounty (rg_global reg) d = Inr bounty"
      "e = stepped (now reg) (new_entry E reg d encoded pid ph)" by metis
    with terms_ok_new [OF assms(2)] terms_ok_cong [OF petition_terms_stepped] show ?thesis by blast
  next
    case (Some e0)
    from reg_step_evolves [OF step.hyps(2) Some] step.prems have "evolves (now reg) e0 e" by auto
    with step.IH [OF Some] terms_ok_cong [OF evolves_terms] show ?thesis by blast
  qed
qed (simp add: registry_new_def)

section \<open>Integer conversions\<close>

lemma fr_to_u64_of [simp]:
  assumes "field_laws E" shows "fr_to_u64 E (fr_of E n) = Inr n"
proof -
  have "fr_to_be_bytes E (fr_of E n) = zeros 24 @ u64_to_be n" by (rule fr_to_be_bytes_of [OF assms])
  then show ?thesis by (simp add: fr_to_u64_def slice_def)
qed

lemma u256_to_u128_value: "length v = 32 \<Longrightarrow> u256_to_u128 v = Inr x \<Longrightarrow> unat x = be_nat v"
proof -
  assume v: "length v = 32" "u256_to_u128 v = Inr x"
  then have z: "list_all (\<lambda>b. b = 0) (take 16 v)" and x: "x = from_be (slice 16 32 v)"
    by (auto simp: u256_to_u128_def split: if_splits)
  have s: "slice 16 32 v = drop 16 v" using v(1) by (simp add: slice_def)
  have "be_nat v = be_nat (take 16 v) * 256 ^ 16 + be_nat (drop 16 v)"
    using be_nat_append [of "take 16 v" "drop 16 v"] v(1) by simp
  moreover have "be_nat (take 16 v) = 0" using z by (simp add: all_zero_iff_be_nat)
  moreover have "be_nat (drop 16 v) < 256 ^ 16" using be_nat_less [of "drop 16 v"] v(1) by simp
  ultimately show ?thesis by (simp add: x s from_be_def)
qed

lemma stepped_dispute_window:
  assumes "state_of e < Resolved" and "checked_add (close_of e) RESOLUTION_DEADLINE_BLOCKS = Some d" and "d \<le> b"
    and "state_of e \<noteq> Registered" and "state_of e \<noteq> SigningClosed"
  shows "state_of (stepped b e) = DisputeWindow"
proof -
  have d: "unat d = unat (close_of e) + 100800" using checked_add_SomeD [OF assms(2)] by simp
  then have "unat (close_of e) + 100800 < 2 ^ 64" using unat_bound [of d] by simp
  then have "unat (close_of e + 600) = unat (close_of e) + 600" by (simp add: unat_word_ariths)
  with d assms(3) have "close_of e + 600 \<le> b" "close_of e \<le> b" by (simp_all add: word_le_nat_alt)
  with assms(1,4,5) show ?thesis
    by (cases "state_of e") (simp_all add: stepped_def lifecycle_loop_state lifecycle_simps)
qed

lemma u256_round_trip: "u256_to_u128 (u256_from_u64 n) = Inr (ucast n)"
proof -
  have b: "u256_from_u64 n = zeros 24 @ u64_to_be n" by (simp add: u256_from_u64_def copy_at_def zeros_def)
  have z: "take 16 (zeros 24) = zeros 16" "drop 16 (zeros 24) = zeros 8" by (simp_all add: zeros_def)
  then have "slice 16 32 (u256_from_u64 n) = zeros 8 @ u64_to_be n" by (simp add: b slice_def)
  moreover have "be_nat (zeros 8 @ u64_to_be n) = unat n" by (simp add: be_nat_append zeros_def)
  ultimately show ?thesis using z by (simp add: u256_to_u128_def b from_be_def of_nat_unat)
qed

end
