(* ===== verification/Registry_Ledger.thy ===== *)
theory Registry_Ledger
  imports Registry_Lifecycle
begin

text \<open>
  The registry as an implementation of an abstract ledger. The abstract state of a petition is the
  list of the record lists of its active batches; publication appends a batch, a dispute cuts the
  list at the repudiated batch. The machine \<open>ledger_step\<close> runs the handlers of the registry next to
  this abstract state, and \<open>ledger_ok\<close> is the refinement relation it keeps. A dispute replays
  records from the blob carrier; that the carrier returns the records that were published is the
  hypothesis \<open>carrier_serves\<close> of that step.
\<close>

section \<open>Replaying records\<close>

definition replay :: "'fr prims \<Rightarrow> record_entry list \<Rightarrow> (registry_error, 'fr imt \<times> 'fr imt) result" where
  "replay E rs = try_fold (replay_record E) (imt_new E, imt_new E) rs"

text \<open>The two trees grow independently: one by the leaves, one by the identity tags.\<close>

lemma replay_fold_seq:
  "try_fold (replay_record E) (a, b) rs = Inr (a', b') \<longleftrightarrow>
     insert_seq (imt_insert E) a (map (\<lambda>r. fr_to_be_bytes E (record_leaf E r)) rs) = Inr a' \<and>
     insert_seq (imt_insert E) b (map re_identity_tag rs) = Inr b'"
  by (induction rs arbitrary: a b)
     (auto simp: insert_seq_def replay_record_def and_then_eq_Inr map_err_eq_Inr)

lemma replay_fold_ok:
  assumes "field_laws E" and "imt_ok E a" and "imt_ok E b"
    and "try_fold (replay_record E) (a, b) rs = Inr (a', b')"
  shows "imt_ok E a' \<and> imt_ok E b' \<and> imt_values a' = imt_values a @ map (record_leaf E) rs
    \<and> imt_values b' = imt_values b @ map (fr_from_be_bytes E \<circ> re_identity_tag) rs"
  using assms civic_imt.insert_seq_result [of E a "map (\<lambda>r. fr_to_be_bytes E (record_leaf E r)) rs" a']
    civic_imt.insert_seq_result [of E b "map re_identity_tag rs" b']
  by (auto simp: replay_fold_seq o_def)

lemma imt_ok_size: "imt_ok E t \<Longrightarrow> length (imt_values t) \<le> 2 ^ IMT_DEPTH"
  and imt_ok_distinct: "imt_ok E t \<Longrightarrow> distinct (imt_values t)"
  by (simp_all add: imt_ok_def sorted_list_ok_def imt_values_def)

lemma replay_facts:
  assumes "field_laws E" and "replay E rs = Inr (t, u)"
  shows "imt_ok E t" and "imt_ok E u"
    and "imt_values t = fr_of E 0 # map (record_leaf E) rs"
    and "imt_values u = fr_of E 0 # map (fr_from_be_bytes E \<circ> re_identity_tag) rs"
    and "length rs < 2 ^ 24"
proof -
  from replay_fold_ok [OF assms(1) imt_new_ok imt_new_ok] assms(2)
  have r: "imt_ok E t \<and> imt_ok E u \<and> imt_values t = imt_values (imt_new E) @ map (record_leaf E) rs
    \<and> imt_values u = imt_values (imt_new E) @ map (fr_from_be_bytes E \<circ> re_identity_tag) rs"
    by (simp add: replay_def)
  then show "imt_ok E t" "imt_ok E u" "imt_values t = fr_of E 0 # map (record_leaf E) rs"
    "imt_values u = fr_of E 0 # map (fr_from_be_bytes E \<circ> re_identity_tag) rs"
    by (simp_all add: imt_new_values)
  moreover from r have "length (imt_values t) \<le> 2 ^ IMT_DEPTH" using imt_ok_size by blast
  ultimately show "length rs < 2 ^ 24" by (simp add: IMT_DEPTH_def)
qed

text \<open>Publication replays the same insertions, with the guards on top.\<close>

definition leaf_bytes :: "'fr prims \<Rightarrow> record_entry \<Rightarrow> bytes32" where
  "leaf_bytes E r = fr_to_be_bytes E (record_leaf E r)"

lemma publish_records_replay:
  assumes "field_laws E" and "imt_ok E (ry_running s)" and "imt_ok E (ry_idtag s)"
    and "try_fold (publish_record E cs) s rs = Inr s'"
  shows "try_fold (replay_record E) (ry_running s, ry_idtag s) rs = Inr (ry_running s', ry_idtag s')
    \<and> (\<forall>r \<in> set rs. re_class_tag r \<in> set cs)
    \<and> sorted_wrt (<) ((case ry_prev_leaf s of None \<Rightarrow> [] | Some l \<Rightarrow> [l]) @ map (leaf_bytes E) rs)
    \<and> (rs \<noteq> [] \<longrightarrow> ry_last_rr s' = imt_root E (ry_running s') \<and> ry_last_idt s' = imt_root E (ry_idtag s'))"
  using assms(2-)
proof (induction rs arbitrary: s)
  case Nil
  then show ?case by (auto split: option.splits)
next
  case (Cons r rs)
  from Cons.prems(3) obtain s1 where s1: "publish_record E cs s r = Inr s1"
    "try_fold (publish_record E cs) s1 rs = Inr s'" by (auto simp: and_then_eq_Inr)
  from s1(1) obtain w1 t w2 u where p: "re_class_tag r \<in> set cs"
    "imt_insert E (ry_running s) (leaf_bytes E r) = Inr (w1, t)"
    "imt_insert E (ry_idtag s) (re_identity_tag r) = Inr (w2, u)"
    "\<not> (case ry_prev_leaf s of Some prev \<Rightarrow> leaf_bytes E r \<le> prev | None \<Rightarrow> False)"
    "s1 = \<lparr>ry_running = t, ry_idtag = u, ry_prev_leaf = Some (leaf_bytes E r),
           ry_last_rr = iw_new_root w1, ry_last_idt = iw_new_root w2\<rparr>"
    unfolding leaf_bytes_def
    by (auto simp: publish_record_def and_then_eq_Inr map_err_eq_Inr Let_def split: if_splits)
  have ok: "imt_ok E t" "imt_ok E u" "iw_new_root w1 = imt_root E t" "iw_new_root w2 = imt_root E u"
    using civic_imt.insert_result [of E "ry_running s" _ w1 t] civic_imt.insert_result [of E "ry_idtag s" _ w2 u]
      imt_insert_root [OF assms(1) Cons.prems(1) p(2)] imt_insert_root [OF assms(1) Cons.prems(2) p(3)]
      p Cons.prems assms(1) by auto
  have IH: "try_fold (replay_record E) (t, u) rs = Inr (ry_running s', ry_idtag s')"
    "\<forall>r \<in> set rs. re_class_tag r \<in> set cs" "sorted_wrt (<) (leaf_bytes E r # map (leaf_bytes E) rs)"
    "rs \<noteq> [] \<longrightarrow> ry_last_rr s' = imt_root E (ry_running s') \<and> ry_last_idt s' = imt_root E (ry_idtag s')"
    using Cons.IH [OF _ _ s1(2)] ok p(5) by auto
  have "sorted_wrt (<) ((case ry_prev_leaf s of None \<Rightarrow> [] | Some l \<Rightarrow> [l]) @ map (leaf_bytes E) (r # rs))"
    using IH(3) p(4) by (auto split: option.splits)
  moreover have "replay_record E (ry_running s, ry_idtag s) r = Inr (t, u)"
    using p by (simp add: replay_record_def leaf_bytes_def)
  moreover have "rs = [] \<Longrightarrow> s' = s1" using s1(2) by simp
  ultimately show ?case using IH p ok by (cases "rs = []") auto
qed

lemma publish_bindings_facts:
  assumes "publish_bindings E r sub = Inr lc"
  shows "unat lc = unat (pr_leaf_count r) + length (bs_records sub)"
    and "1 \<le> length (bs_records sub)" and "length (bs_records sub) \<le> 6"
    and "fr_to_be_bytes E (bp_prior_running_root (bs_public_inputs sub)) = pr_running_root r"
    and "fr_to_be_bytes E (bp_prior_identity_tag_set_root (bs_public_inputs sub)) = pr_identity_tag_set_root r"
proof -
  let ?p = "bs_public_inputs sub"
  from assms obtain n where n: "fr_to_u64 E (bp_batch_size ?p) = Inr n" "n \<noteq> 0" "\<not> word_of_nat BATCH_SIZE_MAX < n"
    "length (bs_records sub) = unat n"
    "fr_to_be_bytes E (bp_prior_running_root ?p) = pr_running_root r"
    "fr_to_be_bytes E (bp_prior_identity_tag_set_root ?p) = pr_identity_tag_set_root r"
    "checked_add (pr_leaf_count r) n = Some lc"
    by (auto simp: publish_bindings_def Let_def and_then_eq_Inr ok_or_eq_Inr split: if_splits)
  from checked_add_SomeD [OF n(7)] n(4) show "unat lc = unat (pr_leaf_count r) + length (bs_records sub)" by simp
  show "1 \<le> length (bs_records sub)" using n(2,4) by (simp add: unat_gt_0 Suc_le_eq)
  show "length (bs_records sub) \<le> 6" using n(3,4) by (simp add: BATCH_SIZE_MAX_def word_less_nat_alt)
qed (use assms in \<open>auto simp: publish_bindings_def Let_def and_then_eq_Inr split: if_splits\<close>)

section \<open>The ledger of a petition\<close>

text \<open>The abstract state of a petition is the list of its active batches' records. The stored
  entry implements it: the active batches are a prefix, each filed under the versioned hash of its
  records with the roots and leaf count of the prefix it completes, and the trees, roots and leaf
  count of the petition are those of all the records.\<close>

definition batch_matches :: "'fr prims \<Rightarrow> batch_record \<Rightarrow> record_entry list \<Rightarrow> bool" where
  "batch_matches E b rs \<longleftrightarrow>
     (\<exists>fes. encode_blob rs = Inr fes \<and> br_batch_versioned_hash b = compute_batch_versioned_hash E fes)"

definition completes :: "'fr prims \<Rightarrow> batch_record \<Rightarrow> record_entry list \<Rightarrow> bool" where
  "completes E b rs \<longleftrightarrow>
     (\<exists>t u. replay E rs = Inr (t, u) \<and> br_new_running_root b = imt_root E t \<and>
        br_new_identity_tag_set_root b = imt_root E u \<and> unat (br_new_leaf_count b) = length rs)"

definition batch_shape :: "'fr prims \<Rightarrow> class_tag list \<Rightarrow> record_entry list \<Rightarrow> bool" where
  "batch_shape E cs rs \<longleftrightarrow>
     1 \<le> length rs \<and> length rs \<le> 6 \<and> sorted_wrt (<) (map (leaf_bytes E) rs) \<and>
     (\<forall>r \<in> set rs. re_class_tag r \<in> set cs)"

definition active_prefix :: "batch_record list \<Rightarrow> nat \<Rightarrow> bool" where
  "active_prefix bs n \<longleftrightarrow>
     n \<le> length bs \<and> (\<forall>k < length bs. br_state (bs ! k) = (if k < n then Active else Repudiated))"

definition ledger_ok :: "'fr prims \<Rightarrow> 'fr petition_entry \<Rightarrow> record_entry list list \<Rightarrow> bool" where
  "ledger_ok E e rss \<longleftrightarrow>
     active_prefix (pe_batches e) (length rss) \<and>
     (state_of e = SigningOpen \<longrightarrow> length (pe_batches e) = length rss) \<and>
     (\<forall>k < length rss. batch_matches E (pe_batches e ! k) (rss ! k) \<and>
        completes E (pe_batches e ! k) (concat (take (Suc k) rss)) \<and>
        batch_shape E (pr_class_set (pe_record e)) (rss ! k)) \<and>
     replay E (concat rss) = Inr (pe_running_imt e, pe_identity_tag_imt e) \<and>
     (state_of e \<noteq> Unresolved \<longrightarrow> pr_running_root (pe_record e) = imt_root E (pe_running_imt e)) \<and>
     pr_identity_tag_set_root (pe_record e) = imt_root E (pe_identity_tag_imt e) \<and>
     unat (pr_leaf_count (pe_record e)) = length (concat rss)"

lemma ledger_new:
  "rg_empty_imt_root reg = imt_root E (imt_new E) \<Longrightarrow> ledger_ok E (new_entry E reg d encoded pid ph) []"
  by (simp add: ledger_ok_def new_entry_def active_prefix_def replay_def)

lemma ledger_stepped:
  assumes "ledger_ok E e rss" and "state_of e \<noteq> SigningClosed" "state_of e = Registered \<longrightarrow> pe_batches e = [] \<and> rss = []"
  shows "ledger_ok E (stepped b e) rss"
proof -
  have "state_of (stepped b e) = SigningOpen \<Longrightarrow> state_of e = SigningOpen \<or> state_of e = Registered"
    "state_of (stepped b e) \<noteq> Unresolved \<Longrightarrow> state_of e \<noteq> Unresolved"
    by (cases "state_of e"; simp add: stepped_def lifecycle_loop_state Let_def split: if_splits)+
  then show ?thesis using assms by (auto simp: ledger_ok_def)
qed

lemma length_le_concat: "(\<forall>k < length rss. 1 \<le> length (rss ! k)) \<Longrightarrow> length rss \<le> length (concat rss)"
proof (induction rss)
  case (Cons rs rss)
  have "1 \<le> length rs" using Cons.prems by force
  moreover have "length rss \<le> length (concat rss)" using Cons.prems by (intro Cons.IH) force
  ultimately show ?case by simp
qed simp

lemma publish_header_hash:
  "publish_header E P sub = Inr vh \<Longrightarrow>
   \<exists>fes. encode_blob (bs_records sub) = Inr fes \<and> vh = compute_batch_versioned_hash E fes"
  by (auto simp: publish_header_def and_then_eq_Inr map_err_eq_Inr Let_def split: if_splits)

lemma ledger_publish:
  assumes E: "field_laws E" and ok: "ledger_ok E e rss" and st: "state_of e = SigningOpen"
    and h: "publish_header E P sub = Inr vh" and b: "publish_bindings E (pe_record e) sub = Inr lc"
    and r: "publish_replay E e sub = Inr s"
  shows "length (pe_batches e) < 2 ^ 24"
    and "ledger_ok E (snd (publish_commit E pid relayer block e sub vh lc s)) (rss @ [bs_records sub])"
proof -
  let ?rs = "bs_records sub" and ?p = "bs_public_inputs sub"
  let ?e' = "snd (publish_commit E pid relayer block e sub vh lc s)"
  have rep: "replay E (concat rss) = Inr (pe_running_imt e, pe_identity_tag_imt e)"
    and len: "length (pe_batches e) = length rss"
    and shapes: "\<forall>k < length rss. 1 \<le> length (rss ! k)"
    using ok st by (simp_all add: ledger_ok_def batch_shape_def)
  note trees = replay_facts [OF E rep]
  show bound: "length (pe_batches e) < 2 ^ 24"
    using length_le_concat [OF shapes] trees(5) len by simp
  define s0 where "s0 = \<lparr>ry_running = pe_running_imt e, ry_idtag = pe_identity_tag_imt e, ry_prev_leaf = None,
    ry_last_rr = fr_to_be_bytes E (bp_prior_running_root ?p),
    ry_last_idt = fr_to_be_bytes E (bp_prior_identity_tag_set_root ?p)\<rparr>"
  from r have s0: "ry_running s0 = pe_running_imt e" "ry_idtag s0 = pe_identity_tag_imt e"
    "ry_prev_leaf s0 = None" "try_fold (publish_record E (pr_class_set (pe_record e))) s0 ?rs = Inr s"
    "fr_to_be_bytes E (bp_new_running_root ?p) = ry_last_rr s"
    "fr_to_be_bytes E (bp_new_identity_tag_set_root ?p) = ry_last_idt s"
    by (auto simp: publish_replay_def s0_def and_then_eq_Inr Let_def split: if_splits)
  from publish_records_replay [OF E _ _ s0(4)] s0 trees publish_bindings_facts(2) [OF b]
  have f: "try_fold (replay_record E) (pe_running_imt e, pe_identity_tag_imt e) ?rs = Inr (ry_running s, ry_idtag s)"
    "\<forall>r \<in> set ?rs. re_class_tag r \<in> set (pr_class_set (pe_record e))"
    "sorted_wrt (<) (map (leaf_bytes E) ?rs)"
    "ry_last_rr s = imt_root E (ry_running s)" "ry_last_idt s = imt_root E (ry_idtag s)" by auto
  have rep': "replay E (concat rss @ ?rs) = Inr (ry_running s, ry_idtag s)"
    using rep f(1) by (simp add: replay_def try_fold_append)
  have lc: "unat lc = length (concat rss) + length ?rs"
    using publish_bindings_facts(1) [OF b] ok by (simp add: ledger_ok_def)
  have e': "pe_batches ?e' = pe_batches e @ [batch_of E pid relayer block e sub vh lc]"
    "pe_running_imt ?e' = ry_running s" "pe_identity_tag_imt ?e' = ry_idtag s"
    "state_of ?e' = SigningOpen" "pr_class_set (pe_record ?e') = pr_class_set (pe_record e)"
    "pr_running_root (pe_record ?e') = imt_root E (ry_running s)"
    "pr_identity_tag_set_root (pe_record ?e') = imt_root E (ry_idtag s)"
    "unat (pr_leaf_count (pe_record ?e')) = length (concat rss) + length ?rs"
    using bound st lc s0(5,6) f(4,5) by (simp_all add: publish_commit_def batch_of_def Let_def)
  from publish_header_hash [OF h] obtain fes where "encode_blob ?rs = Inr fes" "vh = compute_batch_versioned_hash E fes"
    by blast
  then have new: "batch_matches E (batch_of E pid relayer block e sub vh lc) ?rs"
    "completes E (batch_of E pid relayer block e sub vh lc) (concat rss @ ?rs)"
    "batch_shape E (pr_class_set (pe_record e)) ?rs"
    using rep' s0(5,6) f lc publish_bindings_facts(2,3) [OF b]
    by (simp_all add: batch_matches_def completes_def batch_shape_def batch_of_def Let_def)
  have act: "active_prefix (pe_batches ?e') (Suc (length rss))"
    using ok len by (auto simp: ledger_ok_def active_prefix_def e' nth_append batch_of_def Let_def less_Suc_eq)
  have "batch_matches E (pe_batches ?e' ! k) ((rss @ [?rs]) ! k)
      \<and> completes E (pe_batches ?e' ! k) (concat (take (Suc k) (rss @ [?rs])))
      \<and> batch_shape E (pr_class_set (pe_record ?e')) ((rss @ [?rs]) ! k)" if "k < Suc (length rss)" for k
  proof (cases "k < length rss")
    case True
    with ok len show ?thesis by (simp add: ledger_ok_def e' nth_append)
  next
    case False
    with that have "k = length rss" by simp
    with new len show ?thesis by (simp add: e' nth_append)
  qed
  with act e' rep' len show "ledger_ok E ?e' (rss @ [?rs])"
    by (simp add: ledger_ok_def)
qed

definition carrier_serves ::
    "('fr, 'c, 'r) ports \<Rightarrow> 'c \<Rightarrow> batch_record list \<Rightarrow> record_entry list list \<Rightarrow> bool" where
  "carrier_serves P c bs rss \<longleftrightarrow>
     (\<forall>k < length rss. bc_fetch_records (pt_blob P) c (br_batch_versioned_hash (bs ! k)) = Inr (rss ! k))"

lemma take_active:
  assumes "active_prefix bs n" and "i \<le> n"
  shows "filter (\<lambda>b. br_state b = Active) (take i bs) = take i bs"
  using assms by (auto simp: active_prefix_def filter_id_conv in_set_conv_nth)

lemma active_index: "active_prefix bs n \<Longrightarrow> i < length bs \<Longrightarrow> br_state (bs ! i) = Active \<Longrightarrow> i < n"
  by (auto simp: active_prefix_def split: if_splits)

lemma roll_back_active:
  assumes "active_prefix bs n" and "i \<le> n"
  shows "roll_back_to_predecessor bs i r =
    (if i = 0 then (r, r, 0)
     else (br_new_running_root (bs ! (i - 1)), br_new_identity_tag_set_root (bs ! (i - 1)), br_new_leaf_count (bs ! (i - 1))))"
proof (cases i)
  case 0
  then show ?thesis by (simp add: roll_back_to_predecessor_def)
next
  case (Suc j)
  then have "j < length bs" "br_state (bs ! j) = Active" using assms by (auto simp: active_prefix_def)
  with Suc show ?thesis by (simp add: roll_back_to_predecessor_def take_Suc_conv_app_nth)
qed

lemma repudiate_prefix:
  assumes "active_prefix bs n" and "i \<le> n"
  shows "active_prefix (repudiate_from i bs) i"
proof -
  have n: "n \<le> length bs" "\<And>k. k < n \<Longrightarrow> br_state (bs ! k) = Active"
    using assms(1) by (auto simp: active_prefix_def)
  have "br_state (repudiate_from i bs ! k) = (if k < i then Active else Repudiated)" if "k < length bs" for k
    using that n assms(2) by (auto simp: repudiate_from_def nth_append min_def)
  moreover have "length (repudiate_from i bs) = length bs" by (simp add: repudiate_from_def)
  ultimately show ?thesis using assms(2) n(1) by (simp add: active_prefix_def)
qed

lemma nth_repudiate: "k < i \<Longrightarrow> k < length bs \<Longrightarrow> repudiate_from i bs ! k = bs ! k"
  by (simp add: repudiate_from_def nth_append)

lemma replay_batches_served:
  assumes "carrier_serves P c bs rss" and "i \<le> length rss" and "i \<le> length bs"
  shows "replay_batches E P c (map br_batch_versioned_hash (take i bs)) = replay E (concat (take i rss))"
proof -
  have "try_map (bc_fetch_records (pt_blob P) c) (map br_batch_versioned_hash (take i bs)) = Inr (take i rss)"
    using assms by (auto simp: try_map_eq_Inr list_all2_conv_all_nth carrier_serves_def)
  then show ?thesis by (simp add: replay_batches_def replay_def)
qed

text \<open>A successful dispute of batch \<open>i\<close> leaves the ledger of the batches before it.\<close>

lemma ledger_dispute:
  assumes E: "field_laws E" and ok: "ledger_ok E e rss" and root: "rg_empty_imt_root reg = imt_root E (imt_new E)"
    and pet: "petition reg (dp_petition_id d) = Inr e"
    and serves: "carrier_serves P (rg_blob_carrier reg) (pe_batches e) rss"
    and disp: "dispute_batch E P reg (state_of e) d = Inr (ev, e')"
  shows "unat (dp_batch_index d) < length rss" and "ledger_ok E e' (take (unat (dp_batch_index d)) rss)"
proof -
  let ?i = "unat (dp_batch_index d)" and ?bs = "pe_batches e"
  have pre: "active_prefix ?bs (length rss)" using ok by (simp add: ledger_ok_def)
  from disp obtain running idtag where d: "state_of e = DisputeWindow" "?i < length ?bs" "br_state (?bs ! ?i) = Active"
    "replay_batches E P (rg_blob_carrier reg) (map br_batch_versioned_hash
       (filter (\<lambda>b. br_state b = Active) (take ?i ?bs))) = Inr (running, idtag)"
    "e' = (case roll_back_to_predecessor ?bs ?i (rg_empty_imt_root reg) of
       (rr, idt, lc) \<Rightarrow> e\<lparr>pe_batches := repudiate_from ?i ?bs,
          pe_record := (pe_record e)\<lparr>pr_running_root := rr, pr_identity_tag_set_root := idt, pr_leaf_count := lc\<rparr>,
          pe_running_imt := running, pe_identity_tag_imt := idtag\<rparr>)"
    using pet by (elim dispute_batch_Inr) auto
  show i: "?i < length rss" by (rule active_index [OF pre d(2,3)])
  then have rep: "replay E (concat (take ?i rss)) = Inr (running, idtag)"
    using d(4) take_active [OF pre, of ?i] replay_batches_served [OF serves, of ?i E] d(2) by simp
  obtain rr idt lc where rb: "roll_back_to_predecessor ?bs ?i (rg_empty_imt_root reg) = (rr, idt, lc)"
    by (cases "roll_back_to_predecessor ?bs ?i (rg_empty_imt_root reg)")
  have roots: "rr = imt_root E running \<and> idt = imt_root E idtag \<and> unat lc = length (concat (take ?i rss))"
  proof (cases ?i)
    case 0
    then show ?thesis using rb roll_back_active [OF pre, of ?i] root rep by (auto simp: replay_def)
  next
    case (Suc j)
    then have "completes E (?bs ! j) (concat (take ?i rss))" using ok i by (simp add: ledger_ok_def)
    with Suc rb roll_back_active [OF pre, of ?i] i rep show ?thesis by (auto simp: completes_def)
  qed
  have old: "batch_matches E (repudiate_from ?i ?bs ! k) (take ?i rss ! k)
      \<and> completes E (repudiate_from ?i ?bs ! k) (concat (take (Suc k) (take ?i rss)))
      \<and> batch_shape E (pr_class_set (pe_record e)) (take ?i rss ! k)" if "k < ?i" for k
    using ok that i d(2) by (simp add: ledger_ok_def nth_repudiate min_def)
  have l: "length (take ?i rss) = ?i" using i by simp
  have e': "pe_batches e' = repudiate_from ?i ?bs" "pe_running_imt e' = running" "pe_identity_tag_imt e' = idtag"
    "state_of e' = DisputeWindow" "pr_class_set (pe_record e') = pr_class_set (pe_record e)"
    "pr_running_root (pe_record e') = rr" "pr_identity_tag_set_root (pe_record e') = idt"
    "pr_leaf_count (pe_record e') = lc" using d(1,5) rb by simp_all
  show "ledger_ok E e' (take ?i rss)"
    unfolding ledger_ok_def l e'
    using repudiate_prefix [OF pre, of ?i] i old rep roots by simp
qed

lemma ledger_final:
  "ledger_ok E e rss \<Longrightarrow> state_of e \<noteq> SigningOpen \<Longrightarrow> state_of e \<noteq> Unresolved \<Longrightarrow>
   ledger_ok E (resolved_entry E' sub e) rss"
  "ledger_ok E e rss \<Longrightarrow> ledger_ok E (unresolved_entry e) rss"
  by (simp_all add: ledger_ok_def resolved_entry_def unresolved_entry_def)

section \<open>The machine with its abstract state\<close>

type_synonym history = "petition_id \<Rightarrow> record_entry list list"

inductive ledger_step ::
    "'fr prims \<Rightarrow> ('fr, 'c, 'r) ports \<Rightarrow> ('fr, 'c, 'r) registry \<times> history \<Rightarrow> ('fr, 'c, 'r) registry \<times> history \<Rightarrow> bool"
  for E P
where
  L_register: "register E P reg d = (r, reg') \<Longrightarrow>
     ledger_step E P (reg, h) (reg', case r of Inl _ \<Rightarrow> h | Inr (p, _) \<Rightarrow> h(rgp_petition_id p := []))"
| L_publish: "publish_batch E P reg pid relayer sub = (r, reg') \<Longrightarrow>
     ledger_step E P (reg, h) (reg', if is_ok r then h(pid := h pid @ [bs_records sub]) else h)"
| L_dispute: "dispute E P reg d = (r, reg') \<Longrightarrow>
     (\<And>e. rg_petitions reg (dp_petition_id d) = Some e \<Longrightarrow>
        carrier_serves P (rg_blob_carrier reg) (pe_batches e) (h (dp_petition_id d))) \<Longrightarrow>
     ledger_step E P (reg, h) (reg', if is_ok r
       then h(dp_petition_id d := take (unat (dp_batch_index d)) (h (dp_petition_id d))) else h)"
| L_resolve: "resolve E P reg pid resolver rsub = (r, reg') \<Longrightarrow> ledger_step E P (reg, h) (reg', h)"
| L_expire: "mark_unresolved reg pid caller gas = (r, reg') \<Longrightarrow> ledger_step E P (reg, h) (reg', h)"
| L_govern: "update_alpha reg alpha = (r, reg') \<Longrightarrow> ledger_step E P (reg, h) (reg', h)"
| L_tick: "now reg \<le> t \<Longrightarrow> ledger_step E P (reg, h) (reg\<lparr>rg_clock := t\<rparr>, h)"
| L_services: "ledger_step E P (reg, h) (reg\<lparr>rg_ri := x, rg_blob_carrier := c\<rparr>, h)"

inductive ledger_reachable ::
    "'fr prims \<Rightarrow> ('fr, 'c, 'r) ports \<Rightarrow> ('fr, 'c, 'r) registry \<times> history \<Rightarrow> bool" for E P where
  L_init: "ledger_reachable E P (registry_new E address global clock ri carrier, h)"
| L_step: "ledger_reachable E P s \<Longrightarrow> ledger_step E P s s' \<Longrightarrow> ledger_reachable E P s'"

lemma ledger_step_reg: "ledger_step E P s s' \<Longrightarrow> reg_step E P (fst s) (fst s')"
  by (cases rule: ledger_step.cases) (auto intro: reg_step.intros)

lemma ledger_reachable_reg: "ledger_reachable E P s \<Longrightarrow> reachable E P (fst s)"
  by (induction rule: ledger_reachable.induct) (auto intro: reachable.intros ledger_step_reg)

lemma reg_step_empty_root:
  assumes "reg_step E P reg reg'" shows "rg_empty_imt_root reg' = rg_empty_imt_root reg"
  using assms
proof cases
  case (Register d r)
  from register_outcome [OF Register] show ?thesis by auto
next
  case (Publish p a sub r)
  then show ?thesis using handler_evolves(1) [OF _ Publish] handler_unknown(1) [of reg p E P a sub]
    by (cases "rg_petitions reg p") auto
next
  case (Dispute d r)
  then show ?thesis using handler_evolves(2) [OF _ Dispute refl] handler_unknown(2) [of reg "dp_petition_id d" d E P]
    by (cases "rg_petitions reg (dp_petition_id d)") auto
next
  case (Resolve p a rsub r)
  then show ?thesis using handler_evolves(3) [OF _ Resolve] handler_unknown(3) [of reg p E P a rsub]
    by (cases "rg_petitions reg p") auto
next
  case (Expire p a g r)
  then show ?thesis using handler_evolves(4) [OF _ Expire] handler_unknown(4) [of reg p a g]
    by (cases "rg_petitions reg p") auto
next
  case (Govern alpha r)
  then show ?thesis by (auto simp: update_alpha_def Let_def split: if_splits)
qed auto

lemma reachable_empty_root: "reachable E P reg \<Longrightarrow> rg_empty_imt_root reg = imt_root E (imt_new E)"
  by (induction rule: reachable.induct) (simp_all add: registry_new_def reg_step_empty_root)

lemma ledger_publish_batch:
  assumes E: "field_laws E" and ok: "ledger_ok E (stepped (now reg) e) rss"
    and e: "rg_petitions reg pid = Some e" and p: "publish_batch E P reg pid relayer sub = (r, reg')"
  shows "\<exists>e'. reg' = put_petition pid e' reg \<and>
    ledger_ok E e' (if is_ok r then rss @ [bs_records sub] else rss)"
  using publish_batch_known [OF e p]
proof (elim disjE exE conjE)
  fix err assume "r = Inl err" "reg' = put_petition pid (stepped (now reg) e) reg"
  with ok show ?thesis by auto
next
  let ?e = "stepped (now reg) e"
  fix vh lc s
  assume st: "state_of ?e = SigningOpen" and h: "publish_header E P sub = Inr vh"
    and b: "publish_bindings E (pe_record ?e) sub = Inr lc" and s: "publish_replay E ?e sub = Inr s"
    and res: "(r, reg') = (case publish_commit E pid relayer (now reg) ?e sub vh lc s of (r, e') \<Rightarrow> (r, put_petition pid e' reg))"
  have "length (pe_batches ?e) < 2 ^ 24" by (rule ledger_publish(1) [OF E ok st h b s])
  then have "\<exists>ev. fst (publish_commit E pid relayer (now reg) ?e sub vh lc s) = Inr ev"
    by (simp add: publish_commit_def Let_def)
  with res ledger_publish(2) [OF E ok st h b s, of pid relayer "now reg"] show ?thesis
    by (auto simp: split_beta)
qed

lemma ledger_dispute_batch:
  assumes E: "field_laws E" and ok: "ledger_ok E (stepped (now reg) e) rss"
    and root: "rg_empty_imt_root reg = imt_root E (imt_new E)"
    and e: "rg_petitions reg (dp_petition_id d) = Some e" and p: "dispute E P reg d = (r, reg')"
    and serves: "carrier_serves P (rg_blob_carrier reg) (pe_batches e) rss"
  shows "\<exists>e'. reg' = put_petition (dp_petition_id d) e' reg \<and>
    ledger_ok E e' (if is_ok r then take (unat (dp_batch_index d)) rss else rss)"
  using dispute_known [OF e p]
proof (elim disjE exE conjE)
  fix err assume "r = Inl err" "reg' = put_petition (dp_petition_id d) (stepped (now reg) e) reg"
  with ok show ?thesis by auto
next
  let ?e = "stepped (now reg) e"
  fix ev e' assume r: "r = Inr ev" "reg' = put_petition (dp_petition_id d) e' reg"
    and d: "dispute_batch E P (put_petition (dp_petition_id d) ?e reg) (state_of ?e) d = Inr (ev, e')"
  have "ledger_ok E e' (take (unat (dp_batch_index d)) rss)"
    by (rule ledger_dispute(2) [OF E ok _ _ _ d]) (use root serves in simp_all)
  with r show ?thesis by auto
qed

lemma ledger_invariant:
  assumes "ledger_reachable E P s" and E: "field_laws E"
  shows "\<forall>pid e. rg_petitions (fst s) pid = Some e \<longrightarrow> ledger_ok E e (snd s pid)"
  using assms(1)
proof (induction rule: ledger_reachable.induct)
  case (L_step s s')
  have reach: "reachable E P (fst s)" by (rule ledger_reachable_reg [OF L_step.hyps(1)])
  note root = reachable_empty_root [OF reach]
  have step_ok: "ledger_ok E (stepped (now (fst s)) e) (snd s pid)" if "rg_petitions (fst s) pid = Some e" for pid e
    using L_step.IH that reachable_time_ok [OF reach that] by (auto simp: time_ok_def intro: ledger_stepped)
  have upd: ?case if "fst s' = put_petition p e' (fst s)" "ledger_ok E e' (snd s' p)"
    "\<And>q. q \<noteq> p \<Longrightarrow> snd s' q = snd s q" for p e'
    using that L_step.IH by auto
  have same: ?case if "rg_petitions (fst s') = rg_petitions (fst s)" "snd s' = snd s"
    using that L_step.IH by simp
  from L_step.hyps(2) show ?case
  proof cases
    case (L_register reg d r reg' h)
    from register_outcome [OF L_register(3)] show ?thesis
    proof (elim disjE exE conjE)
      fix err assume "r = Inl err" "reg' = reg"
      with L_register same show ?thesis by simp
    next
      fix encoded pid ph bounty s1
      assume t: "register_timing P reg d = Inr ()"
        and reg': "reg' = put_petition pid (stepped (now reg) (new_entry E reg d encoded pid ph))
             (reg\<lparr>rg_global := (rg_global reg)\<lparr>gs_s := s1\<rparr>\<rparr>)"
      fix ev assume r: "r = Inr (\<lparr>rgp_petition_id = pid, rgp_slot = gs_s (rg_global reg), rgp_predicate_hash = ph,
         rgp_registered_at_block = now reg\<rparr>, ev)"
      let ?n = "new_entry E reg d encoded pid ph"
      have "ledger_ok E ?n []" using root L_register(1) by (simp add: ledger_new)
      then have "ledger_ok E (stepped (now reg) ?n) []"
        by (rule ledger_stepped) (simp_all add: new_entry_def)
      with r reg' L_register L_step.IH show ?thesis by (auto split: if_splits)
    qed
  next
    case (L_publish reg pid a sub r reg' h)
    show ?thesis
    proof (cases "rg_petitions reg pid")
      case None
      with handler_unknown(1) [OF None, of E P a sub] L_publish same show ?thesis by simp
    next
      case (Some e)
      with step_ok L_publish have "ledger_ok E (stepped (now reg) e) (h pid)" by simp
      from ledger_publish_batch [OF E this Some L_publish(3)] obtain e' where
        "reg' = put_petition pid e' reg" "ledger_ok E e' (if is_ok r then h pid @ [bs_records sub] else h pid)" by blast
      then show ?thesis using L_publish by (intro upd [of pid e']) auto
    qed
  next
    case (L_dispute reg d r reg' h)
    let ?pid = "dp_petition_id d"
    show ?thesis
    proof (cases "rg_petitions reg ?pid")
      case None
      with handler_unknown(2) [OF None refl, of E P] L_dispute same show ?thesis by simp
    next
      case (Some e)
      with step_ok L_dispute have "ledger_ok E (stepped (now reg) e) (h ?pid)" by simp
      from ledger_dispute_batch [OF E this _ Some L_dispute(3)] L_dispute(4) [OF Some] root L_dispute(1) obtain e' where
        "reg' = put_petition ?pid e' reg"
        "ledger_ok E e' (if is_ok r then take (unat (dp_batch_index d)) (h ?pid) else h ?pid)" by auto
      then show ?thesis using L_dispute by (intro upd [of ?pid e']) auto
    qed
  next
    case (L_resolve reg pid a rsub r reg' h)
    show ?thesis
    proof (cases "rg_petitions reg pid")
      case None
      with handler_unknown(3) [OF None, of E P a rsub] L_resolve same show ?thesis by simp
    next
      case (Some e)
      with step_ok L_resolve have k: "ledger_ok E (stepped (now reg) e) (h pid)" by simp
      from resolve_known [OF Some L_resolve(3)] consider "reg' = put_petition pid (stepped (now reg) e) reg"
        | "state_of (stepped (now reg) e) = DisputeWindow"
          "reg' = put_petition pid (resolved_entry E rsub (stepped (now reg) e)) reg"
        using resolve_checks_deadline by blast
      then show ?thesis
      proof cases
        case 1
        with k L_resolve show ?thesis by (intro upd [of pid "stepped (now reg) e"]) auto
      next
        case 2
        with k ledger_final(1) [OF k] L_resolve show ?thesis
          by (intro upd [of pid "resolved_entry E rsub (stepped (now reg) e)"]) auto
      qed
    qed
  next
    case (L_expire reg pid a g r reg' h)
    show ?thesis
    proof (cases "rg_petitions reg pid")
      case None
      with handler_unknown(4) [OF None, of a g] L_expire same show ?thesis by simp
    next
      case (Some e)
      with step_ok L_expire have k: "ledger_ok E (stepped (now reg) e) (h pid)" by simp
      from mark_unresolved_known [OF Some L_expire(3)] consider "reg' = put_petition pid (stepped (now reg) e) reg"
        | "reg' = put_petition pid (unresolved_entry (stepped (now reg) e)) reg" by blast
      then show ?thesis
      proof cases
        case 1
        with k L_expire show ?thesis by (intro upd [of pid "stepped (now reg) e"]) auto
      next
        case 2
        with ledger_final(2) [OF k] L_expire show ?thesis
          by (intro upd [of pid "unresolved_entry (stepped (now reg) e)"]) auto
      qed
    qed
  next
    case (L_govern reg alpha r reg' h)
    then show ?thesis using update_alpha_slots same by fastforce
  qed (use same in auto)
qed (simp add: registry_new_def)

text \<open>The invariant at the block a handler reads: advancing the lifecycle keeps it.\<close>

lemma ledger_now:
  assumes "ledger_reachable E P (reg, h)" and "field_laws E" and "rg_petitions reg pid = Some e"
  shows "ledger_ok E (stepped (now reg) e) (h pid)"
proof -
  have reach: "reachable E P reg" using ledger_reachable_reg [OF assms(1)] by simp
  have "ledger_ok E e (h pid)" using ledger_invariant [OF assms(1,2)] assms(3) by simp
  then show ?thesis using reachable_time_ok [OF reach assms(3)] by (auto simp: time_ok_def intro: ledger_stepped)
qed

end
