(* ===== verification/Adapters.thy ===== *)
theory Adapters
  imports Ports
begin

text \<open>
  \<open>src/adapters\<close>: the in-process implementations of the ports. \<open>InMemoryBlobCarrier\<close>,
  \<open>MockProofBackend\<close>, \<open>DirectRelaySubmission\<close> and \<open>InMemoryRi\<close> are here; the lean incremental
  Merkle tree behind the last (crate lean-imt) is the record \<open>lean_imt\<close>. The contracts of the
  theory \<open>Ports\<close> are interpreted on them.
\<close>

section \<open>In-memory blob carrier\<close>

record blob_entry =
  be_fes :: "bytes32 list"
  be_records :: "record_entry list"

type_synonym in_memory_blob = "bytes32 \<rightharpoonup> blob_entry"

definition imb_new :: in_memory_blob where "imb_new = Map.empty"

definition opening_proof_bytes :: "'fr prims \<Rightarrow> bytes32 \<Rightarrow> u32 \<Rightarrow> bytes32 \<Rightarrow> u8 list" where
  "opening_proof_bytes E versioned_hash index value =
     sha256 E (ascii ''RCP-mock-kzg/v1'' @ versioned_hash @ u32_to_be index @ value)"

definition imb_publish ::
    "'fr prims \<Rightarrow> in_memory_blob \<Rightarrow> record_entry list \<Rightarrow> (blob_error, bytes32 \<times> in_memory_blob) result" where
  "imb_publish E c records =
     and_then (encode_blob records) (\<lambda>fes.
       (let vh = compute_batch_versioned_hash E fes
        in Inr (vh, c(vh \<mapsto> \<lparr>be_fes = fes, be_records = records\<rparr>))))"

definition imb_open ::
    "'fr prims \<Rightarrow> in_memory_blob \<Rightarrow> bytes32 \<Rightarrow> u32 \<Rightarrow> (blob_error, kzg_opening) result" where
  "imb_open E c vh i =
     and_then (ok_or NotFound (c vh)) (\<lambda>entry.
       if length (be_fes entry) \<le> unat i then Inl (BlobMalformed ''fe index out of range'')
       else
         (let value = be_fes entry ! unat i
          in Inr \<lparr>ko_field_element_index = i, ko_claimed_value = value,
                  ko_proof_bytes = opening_proof_bytes E vh i value\<rparr>))"

definition imb_verify ::
    "'fr prims \<Rightarrow> in_memory_blob \<Rightarrow> bytes32 \<Rightarrow> kzg_opening \<Rightarrow> (blob_error, unit) result" where
  "imb_verify E c vh opening =
     and_then (ok_or NotFound (c vh)) (\<lambda>entry.
       (let idx = unat (ko_field_element_index opening) in
        if length (be_fes entry) \<le> idx then Inl (InvalidOpening ''fe index out of range'')
        else if be_fes entry ! idx \<noteq> ko_claimed_value opening
        then Inl (InvalidOpening ''opening claims a value the published blob does not carry'')
        else if opening_proof_bytes E vh (ko_field_element_index opening) (ko_claimed_value opening)
                  \<noteq> ko_proof_bytes opening
        then Inl (InvalidOpening ''mock KZG opening proof mismatch'')
        else Inr ()))"

definition imb_fetch_records ::
    "in_memory_blob \<Rightarrow> bytes32 \<Rightarrow> (blob_error, record_entry list) result" where
  "imb_fetch_records c vh = ok_or NotFound (map_option be_records (c vh))"

definition in_memory_blob_carrier :: "'fr prims \<Rightarrow> in_memory_blob blob_carrier" where
  "in_memory_blob_carrier E =
     \<lparr>bc_publish = imb_publish E, bc_open = imb_open E, bc_verify = imb_verify E,
      bc_fetch_records = imb_fetch_records\<rparr>"

section \<open>Mock proof backend\<close>

definition signer_digest :: "'fr prims \<Rightarrow> 'fr signer_public_inputs \<Rightarrow> bytes32" where
  "signer_digest E p =
     sha256 E (ascii ''RCP-mock/signer/v1'' @ concat (map (fr_to_be_bytes E)
       [sp_r_root p, sp_petition_id p, sp_predicate_hash p, sp_class_index p, sp_class_tag p,
        sp_slot p, sp_nullifier p, sp_identity_tag p]))"

definition batch_digest :: "'fr prims \<Rightarrow> 'fr batch_public_inputs \<Rightarrow> bytes32" where
  "batch_digest E p =
     sha256 E (ascii ''RCP-mock/batch/v1'' @ concat (map (fr_to_be_bytes E)
       [bp_petition_id p, bp_r_root p, bp_predicate_hash p, bp_class_index p, bp_slot p,
        bp_batch_size p, bp_prior_running_root p, bp_new_running_root p,
        bp_prior_identity_tag_set_root p, bp_new_identity_tag_set_root p, bp_prior_leaf_count p,
        bp_new_leaf_count p, bp_batch_versioned_hash p, bp_signer_vk_hash p])
      @ concat (map (fr_to_be_bytes E) (bp_bls_fields p)))"

definition resolution_digest :: "'fr prims \<Rightarrow> 'fr resolution_public_inputs \<Rightarrow> bytes32" where
  "resolution_digest E p =
     sha256 E (ascii ''RCP-mock/resolution/v1'' @ concat (map (fr_to_be_bytes E)
       [rp_predicate_hash p, rp_r_root p, rp_running_root p, rp_leaf_count p, rp_b p, rp_class_index p])
      @ concat (map (fr_to_be_bytes E) (rp_class_set p))
      @ concat (map (fr_to_be_bytes E) (rp_class_thresholds p))
      @ concat (map (fr_to_be_bytes E) (rp_b_per_class p)))"

definition mock_generate_signer_proof ::
    "'fr prims \<Rightarrow> 'fr signer_public_inputs \<Rightarrow> 'fr signer_private_inputs \<Rightarrow> (proof_error, u8 list) result"
where
  "mock_generate_signer_proof E p w =
     (if sv_attr_vector w = [] then Inl (WitnessSerialization ''empty attr_vector'')
      else if sv_chain_root w = fr_of E 0
      then Inl (WitnessSerialization ''chain_root must be non-zero'')
      else Inr (signer_digest E p @ ascii ''signer-mock''))"

definition mock_check_position ::
    "'fr prims \<Rightarrow> unit \<Rightarrow> 'fr batch_position_witness \<Rightarrow> (proof_error, unit) result" where
  "mock_check_position E u p =
     (let expected = signer_digest E (bw_public_inputs p); pf = ss_proof_bytes (bw_submission p)
      in if length pf < 32 \<or> take 32 pf \<noteq> expected
         then Inl (Verification ''batch position signer proof failed mock recursion check'')
         else Inr ())"

definition mock_generate_batch_proof ::
    "'fr prims \<Rightarrow> 'fr batch_public_inputs \<Rightarrow> 'fr batch_position_witness list \<Rightarrow> (proof_error, u8 list) result"
where
  "mock_generate_batch_proof E p positions =
     (if positions = [] then Inl (WitnessSerialization ''batch has no positions'')
      else and_then (try_fold (mock_check_position E) () positions) (\<lambda>_.
             Inr (batch_digest E p @ ascii ''batch-mock'')))"

definition mock_generate_resolution_proof ::
    "'fr prims \<Rightarrow> 'fr resolution_public_inputs \<Rightarrow> 'fr resolution_private_inputs \<Rightarrow> (proof_error, u8 list) result"
where
  "mock_generate_resolution_proof E p w =
     (if rv_leaves w = [] then Inl (WitnessSerialization ''resolution has no leaves'')
      else if length (rv_imt_membership_paths w) \<noteq> length (rv_leaves w)
      then Inl (WitnessSerialization ''resolution leaves != imt membership paths'')
      else Inr (resolution_digest E p @ ascii ''resolution-mock''))"

definition mock_verify_signer_proof ::
    "'fr prims \<Rightarrow> u8 list \<Rightarrow> 'fr signer_public_inputs \<Rightarrow> (proof_error, unit) result" where
  "mock_verify_signer_proof E pf p =
     (if length pf < 32 \<or> take 32 pf \<noteq> signer_digest E p
      then Inl (Verification ''signer proof mismatch'') else Inr ())"

definition mock_verify_batch_proof ::
    "'fr prims \<Rightarrow> u8 list \<Rightarrow> 'fr batch_public_inputs \<Rightarrow> (proof_error, unit) result" where
  "mock_verify_batch_proof E pf p =
     (if length pf < 32 \<or> take 32 pf \<noteq> batch_digest E p
      then Inl (Verification ''batch proof mismatch'') else Inr ())"

definition mock_verify_resolution_proof ::
    "'fr prims \<Rightarrow> u8 list \<Rightarrow> 'fr resolution_public_inputs \<Rightarrow> (proof_error, unit) result" where
  "mock_verify_resolution_proof E pf p =
     (if length pf < 32 \<or> take 32 pf \<noteq> resolution_digest E p
      then Inl (Verification ''resolution proof mismatch'') else Inr ())"

definition mock_backend :: "'fr prims \<Rightarrow> 'fr proof_backend" where
  "mock_backend E =
     \<lparr>generate_signer_proof = mock_generate_signer_proof E,
      generate_batch_proof = mock_generate_batch_proof E,
      generate_resolution_proof = mock_generate_resolution_proof E,
      verify_signer_proof = mock_verify_signer_proof E,
      verify_batch_proof = mock_verify_batch_proof E,
      verify_resolution_proof = mock_verify_resolution_proof E\<rparr>"

section \<open>Direct relay submission\<close>

text \<open>One inbox per relay of the roster; the mutex makes each operation atomic.\<close>

type_synonym inboxes = "bytes32 \<rightharpoonup> signer_submission list"

definition relay_new :: "bytes32 list \<Rightarrow> inboxes" where
  "relay_new relay_ids = map_of (map (\<lambda>i. (i, [])) relay_ids)"

definition relay_submit ::
    "inboxes \<Rightarrow> bytes32 \<Rightarrow> signer_submission \<Rightarrow> (submission_error, inboxes) result" where
  "relay_submit m relay_id s =
     and_then (ok_or UnknownRelay (m relay_id)) (\<lambda>q. Inr (m(relay_id \<mapsto> q @ [s])))"

section \<open>In-memory identity layer\<close>

record 't lean_imt =
  li_new :: 't
  li_size :: "'t \<Rightarrow> nat"
  li_insert :: "'t \<Rightarrow> bytes32 \<Rightarrow> 't"
  li_root :: "'t \<Rightarrow> bytes32 option"
  li_generate_proof :: "'t \<Rightarrow> nat \<Rightarrow> (string, bytes32 list \<times> nat) result"

definition poseidon_hasher :: "'fr prims \<Rightarrow> u8 list \<Rightarrow> bytes32" where
  "poseidon_hasher E input =
     fr_to_be_bytes E (hash_merkle_node E (fr_from_be_bytes E (slice 0 32 input))
       (fr_from_be_bytes E (drop 32 input)))"

record 't in_memory_ri =
  imr_tree :: 't
  imr_root_first_seen :: "bytes32 \<rightharpoonup> u64"

definition imr_root :: "'t lean_imt \<Rightarrow> 't in_memory_ri \<Rightarrow> bytes32" where
  "imr_root L s = (case li_root L (imr_tree s) of Some r \<Rightarrow> r | None \<Rightarrow> zeros 32)"

definition or_insert :: "('k \<rightharpoonup> 'v) \<Rightarrow> 'k \<Rightarrow> 'v \<Rightarrow> ('k \<rightharpoonup> 'v)" where
  "or_insert m k v = (if m k = None then m(k \<mapsto> v) else m)"

definition imr_new :: "'t lean_imt \<Rightarrow> 't in_memory_ri" where
  "imr_new L =
     (let s = \<lparr>imr_tree = li_new L, imr_root_first_seen = Map.empty\<rparr>
      in s\<lparr>imr_root_first_seen := or_insert (imr_root_first_seen s) (imr_root L s) 0\<rparr>)"

definition imr_append_leaf :: "'t lean_imt \<Rightarrow> 't in_memory_ri \<Rightarrow> bytes32 \<Rightarrow> u64 \<Rightarrow> u32 \<times> 't in_memory_ri" where
  "imr_append_leaf L s attr_hash posted_at_block =
     (let idx = li_size L (imr_tree s);
          s = s\<lparr>imr_tree := li_insert L (imr_tree s) attr_hash\<rparr>;
          s = s\<lparr>imr_root_first_seen :=
                  or_insert (imr_root_first_seen s) (imr_root L s) posted_at_block\<rparr>
      in (word_of_nat idx, s))"

definition imr_merkle_path :: "'t lean_imt \<Rightarrow> 't in_memory_ri \<Rightarrow> u32 \<Rightarrow> (merkle_error, ri_path) result" where
  "imr_merkle_path L s leaf_index =
     (if li_size L (imr_tree s) = 0 then Inl EmptyTree
      else if li_size L (imr_tree s) \<le> unat leaf_index
      then Inl (OutOfRange (unat leaf_index) (li_size L (imr_tree s)))
      else and_then (map_err ProofFailure (li_generate_proof L (imr_tree s) (unat leaf_index)))
             (\<lambda>(siblings, index). Inr \<lparr>ri_siblings = siblings,
                ri_indices = map (\<lambda>i. word_of_nat (index div 2 ^ i mod 2)) [0..<length siblings]\<rparr>))"

definition imr_root_first_seen_at :: "'t in_memory_ri \<Rightarrow> bytes32 \<Rightarrow> u64 option" where
  "imr_root_first_seen_at s root = imr_root_first_seen s root"

definition in_memory_ri_layer :: "'t lean_imt \<Rightarrow> 't in_memory_ri ri_layer" where
  "in_memory_ri_layer L =
     \<lparr>ri_append_leaf = imr_append_leaf L, ri_root = imr_root L, ri_merkle_path = imr_merkle_path L,
      ri_root_first_seen = imr_root_first_seen_at\<rparr>"

section \<open>The contracts hold\<close>

text \<open>Every stored entry is the encoding of its records, filed under its versioned hash.\<close>

definition imb_ok :: "'fr prims \<Rightarrow> in_memory_blob \<Rightarrow> bool" where
  "imb_ok E c \<longleftrightarrow> (\<forall>vh e. c vh = Some e \<longrightarrow>
     encode_blob (be_records e) = Inr (be_fes e) \<and> compute_batch_versioned_hash E (be_fes e) = vh)"

lemma imb_new_ok: "imb_ok E imb_new"
  by (simp add: imb_ok_def imb_new_def)

interpretation memory_blob: blob_store
  "imb_ok E" "compute_batch_versioned_hash E" "imb_publish E" "imb_open E" "imb_verify E" imb_fetch_records
  for E
proof
  fix c rs fes assume "imb_ok E c" "encode_blob rs = Inr fes"
  then show "\<exists>c'. imb_publish E c rs = Inr (compute_batch_versioned_hash E fes, c') \<and> imb_ok E c'
      \<and> imb_fetch_records c' (compute_batch_versioned_hash E fes) = Inr rs
      \<and> (\<forall>vh. vh \<noteq> compute_batch_versioned_hash E fes \<longrightarrow> imb_fetch_records c' vh = imb_fetch_records c vh)"
    by (auto simp: imb_publish_def imb_ok_def imb_fetch_records_def Let_def)
next
  fix c rs e assume "encode_blob rs = Inl e"
  then show "imb_publish E c rs = Inl e" by (simp add: imb_publish_def)
next
  fix c vh rs fes and i :: u32
  assume "imb_ok E c" "imb_fetch_records c vh = Inr rs" "encode_blob rs = Inr fes" "unat i < length fes"
  then obtain e where "c vh = Some e" "be_fes e = fes"
    by (auto simp: imb_ok_def imb_fetch_records_def ok_or_eq_Inr)
  with \<open>unat i < length fes\<close> show "\<exists>opening. imb_open E c vh i = Inr opening"
    by (simp add: imb_open_def Let_def)
qed (auto simp: imb_ok_def imb_fetch_records_def imb_open_def imb_verify_def ok_or_eq_Inr and_then_eq_Inr
    Let_def split: if_splits)

lemma length_digests [simp]:
  "digest_laws E \<Longrightarrow> length (signer_digest E s) = 32" "digest_laws E \<Longrightarrow> length (batch_digest E b) = 32"
  "digest_laws E \<Longrightarrow> length (resolution_digest E r) = 32"
  by (simp_all add: signer_digest_def batch_digest_def resolution_digest_def digest_laws_def)

interpretation mock_signer: binding_backend
  "digest_laws E" "mock_generate_signer_proof E" "mock_verify_signer_proof E" "signer_digest E" for E
  by unfold_locales
     (auto simp: mock_generate_signer_proof_def mock_verify_signer_proof_def split: if_splits)

interpretation mock_batch: binding_backend
  "digest_laws E" "mock_generate_batch_proof E" "mock_verify_batch_proof E" "batch_digest E" for E
  by unfold_locales
     (auto simp: mock_generate_batch_proof_def mock_verify_batch_proof_def and_then_eq_Inr split: if_splits)

interpretation mock_resolution: binding_backend
  "digest_laws E" "mock_generate_resolution_proof E" "mock_verify_resolution_proof E" "resolution_digest E"
  for E
  by unfold_locales
     (auto simp: mock_generate_resolution_proof_def mock_verify_resolution_proof_def split: if_splits)

interpretation direct_relay: relay_channel "\<lambda>m i. m i" relay_submit
  by unfold_locales (auto simp: relay_submit_def)

lemma imb_publish_hash:
  "bc_publish (in_memory_blob_carrier E) c rs = Inr (vh, c') \<Longrightarrow>
   \<exists>fes. encode_blob rs = Inr fes \<and> vh = compute_batch_versioned_hash E fes"
  by (auto simp: in_memory_blob_carrier_def imb_publish_def and_then_eq_Inr Let_def)

lemma mock_completes:
  "digest_laws E \<Longrightarrow> generate_batch_proof (mock_backend E) pub priv = Inr pf \<Longrightarrow> verify_batch_proof (mock_backend E) pf pub = Inr ()"
  "digest_laws E \<Longrightarrow> generate_signer_proof (mock_backend E) spub spriv = Inr pf \<Longrightarrow> verify_signer_proof (mock_backend E) pf spub = Inr ()"
  using mock_batch.generated_verifies [of E pub priv pf] mock_signer.generated_verifies [of E spub spriv pf]
  by (simp_all add: mock_backend_def)

end
