(* ===== verification/Batching.thy ===== *)
theory Batching
  imports Fsrt Relayer Registry_Ledger Adapters "HOL-Library.Multiset"
begin

text \<open>
  The relayer against the registry: what a successful \<open>RelayerClient::build_batch\<close> of
  \<open>src/relayer/core.rs\<close> contains, when it succeeds, that \<open>PetitionRegistry::publish_batch\<close>
  accepts it and leaves the relayer's replica equal to the registry's trees, and that a build that
  fails half-way leaves the replica ahead of the registry.
\<close>

section \<open>What a built batch contains\<close>

lemma verify_submission_Inr:
  "verify_submission E PB i s view = Inr (public, leaf, ct) \<longleftrightarrow>
     ss_petition_id s = pv_petition_id view \<and> ss_class_tag s \<in> set (pv_class_set view)
     \<and> verify_signer_proof PB (ss_proof_bytes s) (submission_public E s) = Inr ()
     \<and> public = submission_public E s \<and> leaf = record_leaf E (record_of s) \<and> ct = ss_class_tag s"
  by (auto simp: verify_submission_def Let_def and_then_eq_Inr map_err_eq_Inr submission_public_def
      record_leaf_def record_of_def split: if_splits)

definition sub_leaf :: "'fr prims \<Rightarrow> signer_submission \<Rightarrow> bytes32" where
  "sub_leaf E s = leaf_bytes E (record_of s)"

definition verified_of :: "'fr prims \<Rightarrow> signer_submission \<Rightarrow> 'fr verified" where
  "verified_of E s = (s, submission_public E s, record_leaf E (record_of s), ss_class_tag s)"

definition acceptable :: "'fr prims \<Rightarrow> 'fr proof_backend \<Rightarrow> petition_view \<Rightarrow> signer_submission \<Rightarrow> bool" where
  "acceptable E PB view s \<longleftrightarrow>
     ss_petition_id s = pv_petition_id view \<and> ss_class_tag s \<in> set (pv_class_set view)
     \<and> verify_signer_proof PB (ss_proof_bytes s) (submission_public E s) = Inr ()"

lemma verify_all_eq:
  "verify_all E PB view subs = Inr vs \<longleftrightarrow> vs = map (verified_of E) subs \<and> (\<forall>s \<in> set subs. acceptable E PB view s)"
proof -
  have f: "and_then (verify_submission E PB i s view) (\<lambda>(public, leaf, ct). Inr (s, public, leaf, ct)) = Inr v \<longleftrightarrow>
      v = verified_of E s \<and> acceptable E PB view s" for i s v
    by (auto simp: and_then_eq_Inr verify_submission_Inr verified_of_def acceptable_def)
  have n: "enumerated subs ! i = (i, subs ! i)" if "i < length subs" for i using that by (simp add: enumerated_def)
  have "verify_all E PB view subs = Inr vs \<longleftrightarrow> length vs = length subs
      \<and> (\<forall>i < length subs. vs ! i = verified_of E (subs ! i) \<and> acceptable E PB view (subs ! i))"
    unfolding verify_all_def try_map_eq_Inr list_all2_conv_all_nth by (auto simp: n f)
  then show ?thesis unfolding list_eq_iff_nth_eq all_set_conv_all_nth by auto
qed

lemma insert_positions_step:
  "insert_positions E (verified_of E s # vs) pst =
     (case imt_insert E (rps_running_imt pst) (sub_leaf E s) of
        Inl e \<Rightarrow> (Inl (RelImt e), pst)
      | Inr (w1, t) \<Rightarrow>
          (case imt_insert E (rps_identity_tag_imt pst) (ss_identity_tag s) of
             Inl e \<Rightarrow> (Inl (RelImt e), pst\<lparr>rps_running_imt := t\<rparr>)
           | Inr (w2, u) \<Rightarrow>
               (case insert_positions E vs (pst\<lparr>rps_running_imt := t, rps_identity_tag_imt := u\<rparr>) of
                  (Inl e, p) \<Rightarrow> (Inl e, p)
                | (Inr ps, p) \<Rightarrow>
                    (Inr (\<lparr>bps_submission = s, bps_leaf_insert = w1, bps_identity_tag_insert = w2\<rparr> # ps), p))))"
  by (simp add: verified_of_def sub_leaf_def leaf_bytes_def Let_def split: sum.split prod.split)

lemma insert_positions_ok:
  assumes "insert_seq (imt_insert E) (rps_running_imt pst) (map (sub_leaf E) subs) = Inr running"
    and "insert_seq (imt_insert E) (rps_identity_tag_imt pst) (map ss_identity_tag subs) = Inr idtag"
  shows "\<exists>ps. insert_positions E (map (verified_of E) subs) pst =
      (Inr ps, pst\<lparr>rps_running_imt := running, rps_identity_tag_imt := idtag\<rparr>) \<and> length ps = length subs"
  using assms
proof (induction subs arbitrary: pst)
  case Nil
  then show ?case by (simp add: insert_seq_def)
next
  case (Cons s subs)
  from Cons.prems obtain w1 t w2 u where
    i: "imt_insert E (rps_running_imt pst) (sub_leaf E s) = Inr (w1, t)"
    "imt_insert E (rps_identity_tag_imt pst) (ss_identity_tag s) = Inr (w2, u)"
    "insert_seq (imt_insert E) t (map (sub_leaf E) subs) = Inr running"
    "insert_seq (imt_insert E) u (map ss_identity_tag subs) = Inr idtag"
    by (auto simp: insert_seq_Cons)
  from Cons.IH [of "pst\<lparr>rps_running_imt := t, rps_identity_tag_imt := u\<rparr>"] i obtain ps where
    "insert_positions E (map (verified_of E) subs) (pst\<lparr>rps_running_imt := t, rps_identity_tag_imt := u\<rparr>) =
       (Inr ps, pst\<lparr>rps_running_imt := running, rps_identity_tag_imt := idtag\<rparr>)" "length ps = length subs" by auto
  with i show ?case by (simp add: insert_positions_step)
qed

lemma insert_positions_Inr:
  assumes "insert_positions E (map (verified_of E) subs) pst = (Inr ps, pst')"
  shows "\<exists>running idtag.
      insert_seq (imt_insert E) (rps_running_imt pst) (map (sub_leaf E) subs) = Inr running
    \<and> insert_seq (imt_insert E) (rps_identity_tag_imt pst) (map ss_identity_tag subs) = Inr idtag
    \<and> pst' = pst\<lparr>rps_running_imt := running, rps_identity_tag_imt := idtag\<rparr> \<and> length ps = length subs"
  using assms
proof (induction subs arbitrary: pst ps)
  case Nil
  then show ?case by (simp add: insert_seq_def)
next
  case (Cons s subs)
  from Cons.prems obtain w1 t w2 u qs where
    i: "imt_insert E (rps_running_imt pst) (sub_leaf E s) = Inr (w1, t)"
    "imt_insert E (rps_identity_tag_imt pst) (ss_identity_tag s) = Inr (w2, u)"
    "insert_positions E (map (verified_of E) subs) (pst\<lparr>rps_running_imt := t, rps_identity_tag_imt := u\<rparr>) = (Inr qs, pst')"
    "length ps = Suc (length qs)"
    by (auto simp: insert_positions_step split: sum.splits prod.splits)
  from Cons.IH [OF i(3)] i show ?case by (auto simp: insert_seq_Cons)
qed

lemma verified_of_sort:
  "sort_key (\<lambda>(_, _, leaf, _). fr_to_be_bytes E leaf) (map (verified_of E) subs) =
     map (verified_of E) (sort_key (sub_leaf E) subs)"
proof -
  have "insort_key (\<lambda>(_, _, leaf, _). fr_to_be_bytes E leaf) (verified_of E x) (map (verified_of E) xs) =
      map (verified_of E) (insort_key (sub_leaf E) x xs)" for x xs
    by (induction xs) (simp_all add: verified_of_def sub_leaf_def leaf_bytes_def)
  then show ?thesis by (induction subs) (simp_all add: sort_key_def)
qed

definition dup_free :: "signer_submission list \<Rightarrow> bool" where
  "dup_free subs \<longleftrightarrow> distinct (map ss_nullifier subs) \<and> distinct (map ss_identity_tag subs)"

lemma dedup_fold:
  "is_ok (try_fold dedup_step (m, n) (map (\<lambda>(i, s). (i, verified_of E s)) ps)) \<longleftrightarrow>
     dup_free (map snd ps) \<and> (\<forall>s \<in> snd ` set ps. ss_nullifier s \<notin> dom m \<and> ss_identity_tag s \<notin> dom n)"
proof (induction ps arbitrary: m n)
  case (Cons p ps)
  obtain i s where p: "p = (i, s)" by fastforce
  show ?case
  proof (cases "m (ss_nullifier s) = None \<and> n (ss_identity_tag s) = None")
    case True
    define m' n' where "m' = m(ss_nullifier s \<mapsto> i)" and "n' = n(ss_identity_tag s \<mapsto> i)"
    then have d: "dom m' = insert (ss_nullifier s) (dom m)" "dom n' = insert (ss_identity_tag s) (dom n)" by simp_all
    have "dedup_step (m, n) (i, verified_of E s) = Inr (m', n')"
      using True by (simp add: dedup_step_def verified_of_def m'_def n'_def)
    then have "is_ok (try_fold dedup_step (m, n) (map (\<lambda>(i, s). (i, verified_of E s)) (p # ps))) \<longleftrightarrow>
        dup_free (map snd ps) \<and> (\<forall>s \<in> snd ` set ps. ss_nullifier s \<notin> dom m' \<and> ss_identity_tag s \<notin> dom n')"
      by (simp add: p Cons.IH)
    also have "\<dots> \<longleftrightarrow> dup_free (map snd (p # ps))
        \<and> (\<forall>s \<in> snd ` set (p # ps). ss_nullifier s \<notin> dom m \<and> ss_identity_tag s \<notin> dom n)"
      using True unfolding d by (simp add: p dup_free_def image_iff ball_Un domIff) (metis (no_types, opaque_lifting))
    finally show ?thesis .
  next
    case False
    then have "\<not> is_ok (dedup_step (m, n) (i, verified_of E s))"
      by (auto simp: dedup_step_def verified_of_def split: option.splits)
    then show ?thesis using False by (cases "dedup_step (m, n) (i, verified_of E s)") (auto simp: p)
  qed
qed (simp add: dup_free_def)

lemma check_batch_Inr:
  "check_batch E PB view pst subs = Inr vs \<longleftrightarrow>
     subs \<noteq> [] \<and> length subs \<le> 6 \<and> imt_root E (rps_running_imt pst) = pv_running_root view
     \<and> imt_root E (rps_identity_tag_imt pst) = pv_identity_tag_set_root view
     \<and> (\<forall>s \<in> set subs. acceptable E PB view s) \<and> dup_free subs
     \<and> vs = map (verified_of E) (sort_key (sub_leaf E) subs)"
proof -
  have e: "enumerated (map (verified_of E) subs) = map (\<lambda>(i, s). (i, verified_of E s)) (enumerated subs)"
    by (auto simp: enumerated_def intro: nth_equalityI)
  have s: "map snd (enumerated subs) = subs" by (simp add: enumerated_def map_snd_zip)
  have d: "is_ok (try_fold dedup_step (Map.empty, Map.empty) (enumerated (map (verified_of E) subs))) \<longleftrightarrow> dup_free subs"
    unfolding e using dedup_fold [of Map.empty Map.empty E "enumerated subs"] by (simp add: s)
  show ?thesis
    using d by (auto simp: check_batch_def BATCH_SIZE_MAX_def and_then_eq_Inr verify_all_eq verified_of_sort is_ok_iff)
qed

section \<open>A built batch is publishable\<close>

lemma publish_records_ok:
  assumes E: "field_laws E"
    and "try_fold (replay_record E) (ry_running s, ry_idtag s) rs = Inr (t, u)"
    and "\<forall>r \<in> set rs. re_class_tag r \<in> set cs"
    and "sorted_wrt (<) ((case ry_prev_leaf s of None \<Rightarrow> [] | Some l \<Rightarrow> [l]) @ map (leaf_bytes E) rs)"
  shows "\<exists>s'. try_fold (publish_record E cs) s rs = Inr s'"
  using assms(2-)
proof (induction rs arbitrary: s)
  case (Cons r rs)
  from Cons.prems(1) obtain w1 t1 w2 u1 where i: "imt_insert E (ry_running s) (leaf_bytes E r) = Inr (w1, t1)"
    "imt_insert E (ry_idtag s) (re_identity_tag r) = Inr (w2, u1)"
    "try_fold (replay_record E) (t1, u1) rs = Inr (t, u)"
    by (auto simp: replay_record_def leaf_bytes_def and_then_eq_Inr map_err_eq_Inr)
  let ?s = "\<lparr>ry_running = t1, ry_idtag = u1, ry_prev_leaf = Some (leaf_bytes E r),
     ry_last_rr = iw_new_root w1, ry_last_idt = iw_new_root w2\<rparr>"
  have "\<not> (case ry_prev_leaf s of Some prev \<Rightarrow> leaf_bytes E r \<le> prev | None \<Rightarrow> False)"
    using Cons.prems(3) by (auto split: option.splits)
  then have "publish_record E cs s r = Inr ?s"
    using i Cons.prems(2) by (simp add: publish_record_def Let_def flip: leaf_bytes_def)
  moreover have "\<exists>s'. try_fold (publish_record E cs) ?s rs = Inr s'"
    using i Cons.prems(2,3) by (intro Cons.IH) (auto split: option.splits)
  ultimately show ?case by simp
qed simp

definition relayer_view_of :: "bytes32 \<Rightarrow> 'fr petition_entry \<Rightarrow> petition_view" where
  "relayer_view_of vk e =
     (let r = pe_record e in
      \<lparr>pv_petition_id = pr_petition_id r, pv_r_root = pr_r_root r, pv_predicate_hash = pr_predicate_hash r,
       pv_class_index = pr_class_index r, pv_class_set = pr_class_set r, pv_slot = pr_slot r,
       pv_running_root = pr_running_root r, pv_identity_tag_set_root = pr_identity_tag_set_root r,
       pv_leaf_count = pr_leaf_count r, pv_signer_vk_hash = vk\<rparr>)"

text \<open>The relayer's replica equals the trees the registry keeps.\<close>

definition in_sync :: "'fr relayer_petition_state \<Rightarrow> 'fr petition_entry \<Rightarrow> bool" where
  "in_sync pst e \<longleftrightarrow> rps_running_imt pst = pe_running_imt e \<and>
     rps_identity_tag_imt pst = pe_identity_tag_imt e \<and> rps_leaf_count pst = pr_leaf_count (pe_record e)"

lemma stepped_views [simp]:
  "relayer_view_of vk (stepped b e) = relayer_view_of vk e" "in_sync pst (stepped b e) = in_sync pst e"
  by (simp_all add: relayer_view_of_def in_sync_def Let_def)

text \<open>The contract of \<open>build_batch\<close>: what a success says about its outputs.\<close>

lemma build_batch_Inr:
  assumes "build_batch E PB BC c view pst subs = (Inr (sub, ps), pst', c')"
  shows "\<exists>running idtag lc vh pf. check_batch E PB view pst subs = Inr (map (verified_of E) (sort_key (sub_leaf E) subs))
    \<and> insert_seq (imt_insert E) (rps_running_imt pst) (map (sub_leaf E) (sort_key (sub_leaf E) subs)) = Inr running
    \<and> insert_seq (imt_insert E) (rps_identity_tag_imt pst) (map ss_identity_tag (sort_key (sub_leaf E) subs)) = Inr idtag
    \<and> checked_add (rps_leaf_count pst) (word_of_nat (length subs)) = Some lc
    \<and> pst' = \<lparr>rps_running_imt = running, rps_identity_tag_imt = idtag, rps_leaf_count = lc\<rparr>
    \<and> bc_publish BC c (map record_of (sort_key (sub_leaf E) subs)) = Inr (vh, c')
    \<and> sub = \<lparr>bs_public_inputs = batch_public_of E view pst pst' (map record_of (sort_key (sub_leaf E) subs)) vh,
             bs_records = map record_of (sort_key (sub_leaf E) subs), bs_proof_bytes = pf\<rparr>
    \<and> generate_batch_proof PB (bs_public_inputs sub)
        (position_witnesses (map (verified_of E) (sort_key (sub_leaf E) subs)) ps) = Inr pf"
proof -
  let ?ss = "sort_key (sub_leaf E) subs"
  from assms obtain vs where c: "check_batch E PB view pst subs = Inr vs"
    by (cases "check_batch E PB view pst subs") (auto simp: build_batch_def)
  then have vs: "vs = map (verified_of E) ?ss" by (simp add: check_batch_Inr)
  obtain r p where ins: "insert_positions E vs pst = (r, p)" by fastforce
  with assms c obtain qs where r: "r = Inr qs" by (cases r) (auto simp: build_batch_def)
  from insert_positions_Inr [of E ?ss pst qs p] ins r vs obtain running idtag where
    i: "insert_seq (imt_insert E) (rps_running_imt pst) (map (sub_leaf E) ?ss) = Inr running"
    "insert_seq (imt_insert E) (rps_identity_tag_imt pst) (map ss_identity_tag ?ss) = Inr idtag"
    "p = pst\<lparr>rps_running_imt := running, rps_identity_tag_imt := idtag\<rparr>" "length qs = length subs" by auto
  have rec: "map (\<lambda>(s, _, _, _). record_of s) vs = map record_of ?ss" by (simp add: vs verified_of_def)
  from assms c ins r i(4) obtain lc where lc: "checked_add (rps_leaf_count pst) (word_of_nat (length subs)) = Some lc"
    by (cases "checked_add (rps_leaf_count pst) (word_of_nat (length subs))") (auto simp: build_batch_def)
  let ?p = "p\<lparr>rps_leaf_count := lc\<rparr>"
  from assms c ins r i(4) lc rec obtain vh c1 where vh: "bc_publish BC c (map record_of ?ss) = Inr (vh, c1)"
    by (cases "bc_publish BC c (map record_of ?ss)") (auto simp: build_batch_def Let_def)
  have "build_batch E PB BC c view pst subs = (and_then (map_err RelProof (generate_batch_proof PB
        (batch_public_of E view pst ?p (map record_of ?ss) vh) (position_witnesses vs qs)))
        (\<lambda>proof. Inr (\<lparr>bs_public_inputs = batch_public_of E view pst ?p (map record_of ?ss) vh,
           bs_records = map record_of ?ss, bs_proof_bytes = proof\<rparr>, qs)), ?p, c1)"
    using c ins r i(4) lc rec vh by (simp add: build_batch_def Let_def)
  with assms obtain pf where "pst' = ?p" "c' = c1" "ps = qs"
    "generate_batch_proof PB (batch_public_of E view pst ?p (map record_of ?ss) vh) (position_witnesses vs qs) = Inr pf"
    "sub = \<lparr>bs_public_inputs = batch_public_of E view pst ?p (map record_of ?ss) vh, bs_records = map record_of ?ss, bs_proof_bytes = pf\<rparr>"
    by (cases "generate_batch_proof PB (batch_public_of E view pst ?p (map record_of ?ss) vh) (position_witnesses vs qs)") auto
  with c vs i lc vh show ?thesis by (cases pst) auto
qed

lemma sync_replay:
  "insert_seq (imt_insert E) a (map (sub_leaf E) ss) = Inr a' \<Longrightarrow>
   insert_seq (imt_insert E) b (map ss_identity_tag ss) = Inr b' \<Longrightarrow>
   try_fold (replay_record E) (a, b) (map record_of ss) = Inr (a', b')"
proof -
  assume i: "insert_seq (imt_insert E) a (map (sub_leaf E) ss) = Inr a'"
    "insert_seq (imt_insert E) b (map ss_identity_tag ss) = Inr b'"
  have "map (\<lambda>r. fr_to_be_bytes E (record_leaf E r)) (map record_of ss) = map (sub_leaf E) ss"
    "map re_identity_tag (map record_of ss) = map ss_identity_tag ss"
    by (simp_all add: sub_leaf_def leaf_bytes_def record_of_def)
  with i show ?thesis by (simp only: replay_fold_seq)
qed

text \<open>A built batch is strictly ordered: sorting orders it, the insertions exclude equal leaves.\<close>

lemma built_sorted:
  assumes "field_laws E" and "imt_ok E t" and "insert_seq (imt_insert E) t (map (sub_leaf E) (sort_key (sub_leaf E) subs)) = Inr t'"
  shows "sorted_wrt (<) (map (sub_leaf E) (sort_key (sub_leaf E) subs))"
proof -
  let ?ls = "map (sub_leaf E) (sort_key (sub_leaf E) subs)"
  have "distinct (map (fr_from_be_bytes E) ?ls)" using civic_imt.insert_seq_result [of E t ?ls t'] assms by simp
  then have "distinct ?ls" by (simp only: distinct_map)
  moreover have "sorted ?ls" by (rule sorted_sort_key)
  ultimately show ?thesis by (simp add: strict_sorted_iff)
qed

lemma publish_bindings_built:
  assumes "field_laws E" and "r = pe_record e" and "in_sync pst e"
    and "pr_running_root r = imt_root E (pe_running_imt e)" and "pr_identity_tag_set_root r = imt_root E (pe_identity_tag_imt e)"
    and "rs \<noteq> []" and "length rs \<le> 6" and "checked_add (rps_leaf_count pst) (word_of_nat (length rs)) = Some (rps_leaf_count pst')"
  shows "publish_bindings E r \<lparr>bs_public_inputs = batch_public_of E (relayer_view_of vk e) pst pst' rs vh,
      bs_records = rs, bs_proof_bytes = pf\<rparr> = Inr (rps_leaf_count pst')"
proof -
  have n: "unat (word_of_nat (length rs) :: u64) = length rs" using assms(7) by (intro unat_of_nat_small) simp
  have "word_of_nat (length rs) \<noteq> (0 :: u64)" using n assms(6) by (metis length_0_conv unat_0)
  moreover have "\<not> word_of_nat BATCH_SIZE_MAX < (word_of_nat (length rs) :: u64)"
    using n assms(7) by (simp add: word_less_nat_alt BATCH_SIZE_MAX_def)
  ultimately show ?thesis
    using assms(1,3-5,8) n unfolding assms(2)
    by (simp add: publish_bindings_def batch_public_of_def relayer_view_of_def in_sync_def Let_def imt_root_def)
qed

lemma built_batch_published:
  assumes E: "field_laws E" "digest_laws E" and e: "rg_petitions reg pid = Some e"
    and st: "state_of (stepped (now reg) e) = SigningOpen" and ok: "ledger_ok E (stepped (now reg) e) rss"
    and sync: "in_sync pst e"
    and built: "build_batch E (pt_proof P) BC c (relayer_view_of vk e) pst subs = (Inr (sub, ps), pst', c')"
    and carrier: "\<And>rs vh c'. bc_publish BC c rs = Inr (vh, c') \<Longrightarrow>
      \<exists>fes. encode_blob rs = Inr fes \<and> vh = compute_batch_versioned_hash E fes"
    and complete: "\<And>pub priv pf. generate_batch_proof (pt_proof P) pub priv = Inr pf \<Longrightarrow>
      verify_batch_proof (pt_proof P) pf pub = Inr ()"
  shows "\<exists>ev e'. publish_batch E P reg pid relayer sub = (Inr ev, put_petition pid e' reg) \<and> in_sync pst' e'
    \<and> ledger_ok E e' (rss @ [bs_records sub]) \<and> mset (bs_records sub) = image_mset record_of (mset subs)"
proof -
  let ?e = "stepped (now reg) e" and ?ss = "sort_key (sub_leaf E) subs"
  let ?rs = "map record_of ?ss"
  from build_batch_Inr [OF built] obtain running idtag lc vh pf where
    b: "check_batch E (pt_proof P) (relayer_view_of vk e) pst subs = Inr (map (verified_of E) ?ss)"
    "insert_seq (imt_insert E) (rps_running_imt pst) (map (sub_leaf E) ?ss) = Inr running"
    "insert_seq (imt_insert E) (rps_identity_tag_imt pst) (map ss_identity_tag ?ss) = Inr idtag"
    "checked_add (rps_leaf_count pst) (word_of_nat (length subs)) = Some lc"
    "pst' = \<lparr>rps_running_imt = running, rps_identity_tag_imt = idtag, rps_leaf_count = lc\<rparr>"
    "bc_publish BC c ?rs = Inr (vh, c')"
    "sub = \<lparr>bs_public_inputs = batch_public_of E (relayer_view_of vk e) pst pst' ?rs vh, bs_records = ?rs, bs_proof_bytes = pf\<rparr>"
    "generate_batch_proof (pt_proof P) (bs_public_inputs sub) (position_witnesses (map (verified_of E) ?ss) ps) = Inr pf"
    by blast
  have rep: "replay E (concat rss) = Inr (pe_running_imt e, pe_identity_tag_imt e)"
    and roots: "pr_running_root (pe_record e) = imt_root E (pe_running_imt e)"
      "pr_identity_tag_set_root (pe_record e) = imt_root E (pe_identity_tag_imt e)"
    using ok st by (simp_all add: ledger_ok_def)
  note trees = replay_facts [OF E(1) rep]
  have chk: "subs \<noteq> []" "length subs \<le> 6" "\<forall>s \<in> set subs. ss_class_tag s \<in> set (pr_class_set (pe_record e))"
    using b(1) by (auto simp: check_batch_Inr acceptable_def relayer_view_of_def Let_def)
  have ss: "?ss \<noteq> []" using chk(1) length_sort [of "sub_leaf E" subs] by (metis length_0_conv)
  from carrier [OF b(6)] obtain fes where fes: "encode_blob ?rs = Inr fes" "vh = compute_batch_versioned_hash E fes" by blast
  have h: "publish_header E P sub = Inr vh"
    using fes complete [OF b(8)] E by (simp add: publish_header_def b(7) batch_public_of_def Let_def)
  have bind: "publish_bindings E (pe_record ?e) sub = Inr lc"
    using publish_bindings_built [OF E(1) refl, of pst ?e ?rs pst' vk vh pf] sync roots chk ss b(4,5)
    unfolding b(7) by simp
  have fold: "try_fold (replay_record E) (pe_running_imt e, pe_identity_tag_imt e) ?rs = Inr (running, idtag)"
    using sync_replay [OF b(2,3)] sync by (simp add: in_sync_def)
  have sorted: "sorted_wrt (<) (map (leaf_bytes E) ?rs)"
    using built_sorted [OF E(1) trees(1)] b(2) sync by (simp add: in_sync_def o_def sub_leaf_def [abs_def])
  define s0 where "s0 = \<lparr>ry_running = pe_running_imt e, ry_idtag = pe_identity_tag_imt e, ry_prev_leaf = None,
    ry_last_rr = fr_to_be_bytes E (bp_prior_running_root (bs_public_inputs sub)),
    ry_last_idt = fr_to_be_bytes E (bp_prior_identity_tag_set_root (bs_public_inputs sub))\<rparr>"
  have "\<exists>s'. try_fold (publish_record E (pr_class_set (pe_record e))) s0 ?rs = Inr s'"
    using fold chk(3) sorted by (intro publish_records_ok [OF E(1)]) (auto simp: s0_def record_of_def)
  then obtain s' where s': "try_fold (publish_record E (pr_class_set (pe_record e))) s0 ?rs = Inr s'" by blast
  from publish_records_replay [OF E(1) _ _ s'] trees(1,2) fold ss
  have f: "ry_running s' = running" "ry_idtag s' = idtag" "ry_last_rr s' = imt_root E running" "ry_last_idt s' = imt_root E idtag"
    by (auto simp: s0_def)
  have rp: "publish_replay E ?e sub = Inr s'"
    using s' E(1) f unfolding s0_def by (simp add: publish_replay_def b(5,7) batch_public_of_def Let_def imt_root_def)
  have c: "publish_checks E P (put_petition pid ?e reg) (state_of ?e) pid sub = Inr (vh, ?e, lc, s')"
    unfolding publish_checks_Inr using st h bind rp by simp
  note led = ledger_publish [OF E(1) ok st h bind rp]
  let ?c = "publish_commit E pid relayer (now reg) ?e sub vh lc s'"
  obtain ev where ev: "fst ?c = Inr ev" using led(1) by (simp add: publish_commit_def Let_def)
  have "publish_batch E P reg pid relayer sub = (Inr ev, put_petition pid (snd ?c) reg)"
    using e c ev by (simp add: publish_batch_def split_beta)
  moreover have "in_sync pst' (snd ?c)"
    using led(1) f by (simp add: in_sync_def publish_commit_def Let_def b(5))
  moreover have "mset (bs_records sub) = image_mset record_of (mset subs)" by (simp add: b(7))
  ultimately show ?thesis using led(2) by blast
qed

section \<open>When a batch can be built\<close>

lemma mock_batch_proof_ok:
  assumes "digest_laws E" and "ss \<noteq> []" and "length ps = length ss"
    and "\<forall>s \<in> set ss. verify_signer_proof (mock_backend E) (ss_proof_bytes s) (submission_public E s) = Inr ()"
  shows "\<exists>pf. generate_batch_proof (mock_backend E) public (position_witnesses (map (verified_of E) ss) ps) = Inr pf"
proof -
  have "mock_check_position E () w = Inr ()" if "w \<in> set (position_witnesses (map (verified_of E) ss) ps)" for w
  proof -
    from that obtain s bp where w: "s \<in> set ss" "bw_submission w = s" "bw_public_inputs w = submission_public E s"
      by (auto simp: position_witnesses_def verified_of_def dest!: set_zip_leftD)
    with assms(4) have "mock_verify_signer_proof E (ss_proof_bytes s) (submission_public E s) = Inr ()"
      by (simp add: mock_backend_def)
    then show ?thesis
      by (simp add: w mock_check_position_def mock_verify_signer_proof_def Let_def split: if_splits)
  qed
  then have "try_fold (mock_check_position E) () (position_witnesses (map (verified_of E) ss) ps) = Inr ()"
    by (simp add: try_fold_unit)
  moreover have "position_witnesses (map (verified_of E) ss) ps \<noteq> []"
    using assms(2,3) by (cases ss; cases ps) (auto simp: position_witnesses_def)
  ultimately show ?thesis by (simp add: mock_backend_def mock_generate_batch_proof_def)
qed

lemma distinct_map_sort: "distinct (map f (sort_key g xs)) \<longleftrightarrow> distinct (map f xs)"
  by (rule mset_eq_imp_distinct_iff) simp

lemma build_batch_succeeds:
  assumes E: "field_laws E" "digest_laws E" and ok: "imt_ok E (rps_running_imt pst)" "imt_ok E (rps_identity_tag_imt pst)"
    and roots: "imt_root E (rps_running_imt pst) = pv_running_root view" "imt_root E (rps_identity_tag_imt pst) = pv_identity_tag_set_root view"
    and n: "subs \<noteq> []" "length subs \<le> 6" and acc: "\<forall>s \<in> set subs. acceptable E (mock_backend E) view s" "dup_free subs"
    and leaves: "distinct (map (record_leaf E \<circ> record_of) subs)"
      "record_leaf E ` record_of ` set subs \<inter> set (imt_values (rps_running_imt pst)) = {}"
    and tags: "distinct (map (fr_from_be_bytes E \<circ> ss_identity_tag) subs)"
      "fr_from_be_bytes E ` ss_identity_tag ` set subs \<inter> set (imt_values (rps_identity_tag_imt pst)) = {}"
    and room: "imt_size (rps_running_imt pst) + length subs \<le> 2 ^ IMT_DEPTH"
      "imt_size (rps_identity_tag_imt pst) + length subs \<le> 2 ^ IMT_DEPTH" "unat (rps_leaf_count pst) + length subs < 2 ^ 64"
  shows "\<exists>sub ps pst' c'. build_batch E (mock_backend E) (in_memory_blob_carrier E) c view pst subs = (Inr (sub, ps), pst', c')"
proof -
  let ?ss = "sort_key (sub_leaf E) subs" and ?PB = "mock_backend E" and ?BC = "in_memory_blob_carrier E"
  have key: "map (fr_from_be_bytes E) (map (sub_leaf E) ?ss) = map (record_leaf E \<circ> record_of) ?ss"
    "map (fr_from_be_bytes E) (map ss_identity_tag ?ss) = map (fr_from_be_bytes E \<circ> ss_identity_tag) ?ss"
    using E(1) by (simp_all add: sub_leaf_def leaf_bytes_def)
  have 1: "\<exists>t. insert_seq (imt_insert E) (rps_running_imt pst) (map (sub_leaf E) ?ss) = Inr t"
    by (rule civic_imt.insert_seq_succeeds)
       (use E ok room leaves in \<open>auto simp: imt_size_values key(1) distinct_map_sort simp del: map_map simp flip: image_comp\<close>)
  have 2: "\<exists>u. insert_seq (imt_insert E) (rps_identity_tag_imt pst) (map ss_identity_tag ?ss) = Inr u"
    by (rule civic_imt.insert_seq_succeeds)
       (use E ok room tags in \<open>auto simp: imt_size_values key(2) distinct_map_sort simp del: map_map simp flip: image_comp\<close>)
  from 1 2 obtain t u where tu: "insert_seq (imt_insert E) (rps_running_imt pst) (map (sub_leaf E) ?ss) = Inr t"
    "insert_seq (imt_insert E) (rps_identity_tag_imt pst) (map ss_identity_tag ?ss) = Inr u" by blast
  from insert_positions_ok [OF tu] obtain ps where
    ps: "insert_positions E (map (verified_of E) ?ss) pst = (Inr ps, pst\<lparr>rps_running_imt := t, rps_identity_tag_imt := u\<rparr>)"
    "length ps = length ?ss" by blast
  have c: "check_batch E ?PB view pst subs = Inr (map (verified_of E) ?ss)"
    using roots n acc by (simp add: check_batch_Inr)
  obtain lc where lc: "checked_add (rps_leaf_count pst) (word_of_nat (length ps)) = Some lc"
    using room(3) n(2) ps(2) unat_of_nat_small [of "length subs"] by (auto simp: checked_add_def)
  have "length (map (\<lambda>(s, _, _, _). record_of s) (map (verified_of E) ?ss)) \<le> 1000" using n(2) by simp
  from encode_blob_ok [OF this] obtain vh c' where
    pub: "bc_publish ?BC c (map (\<lambda>(s, _, _, _). record_of s) (map (verified_of E) ?ss)) = Inr (vh, c')"
    by (auto simp: in_memory_blob_carrier_def imb_publish_def Let_def)
  let ?pst = "pst\<lparr>rps_running_imt := t, rps_identity_tag_imt := u, rps_leaf_count := lc\<rparr>"
  have "?ss \<noteq> []" using n(1) length_sort [of "sub_leaf E" subs] by (metis length_0_conv)
  from mock_batch_proof_ok [OF E(2) this ps(2)] acc(1) obtain pf where
    "generate_batch_proof ?PB (batch_public_of E view pst ?pst (map (\<lambda>(s, _, _, _). record_of s) (map (verified_of E) ?ss)) vh)
       (position_witnesses (map (verified_of E) ?ss) ps) = Inr pf" by (auto simp: acceptable_def)
  then show ?thesis
    using c ps(1) lc pub by (simp add: build_batch_def Let_def)
qed

text \<open>A tree that has grown has another root, or its nodes or its leaves show a collision.\<close>

lemma grown_root:
  assumes E: "field_laws E" and t: "imt_ok E t" and t': "imt_ok E t'"
    and v: "imt_values t' = imt_values t @ ls" "ls \<noteq> []" and r: "imt_root E t' = imt_root E t"
  shows "tree_collision E (leaf_hashes E (imt_leaves t')) (leaf_hashes E (imt_leaves t)) IMT_DEPTH
    \<or> (leaf_hash E (imt_leaves t' ! imt_size t) = leaf_hash E (empty_leaf E) \<and> imt_leaves t' ! imt_size t \<noteq> empty_leaf E)"
proof -
  let ?n = "imt_size t"
  have len: "length (imt_leaves t') = ?n + length ls"
    using arg_cong [OF v(1), of length] by (simp add: imt_values_def imt_size_def)
  have n: "?n < length (imt_leaves t')" "?n < 2 ^ IMT_DEPTH"
    using len v(2) t' by (cases ls; simp add: imt_ok_def sorted_list_ok_def)+
  have "imt_leaves t' ! ?n \<noteq> empty_leaf E"
  proof
    assume "imt_leaves t' ! ?n = empty_leaf E"
    then have "lf_value (imt_leaves t' ! ?n) = lf_value (imt_leaves t' ! 0)"
      using t' by (simp add: imt_ok_def sorted_list_ok_def empty_leaf_def)
    moreover have "?n \<noteq> 0" using t by (simp add: imt_ok_def sorted_list_ok_def imt_size_def)
    ultimately show False
      using t' n(1) nth_eq_iff_index_eq [of "map lf_value (imt_leaves t')" ?n 0] by (simp add: imt_ok_def sorted_list_ok_def)
  qed
  moreover have "leaf_hash E (imt_leaves t' ! ?n) = leaf_hash E (empty_leaf E)"
    if nc: "\<not> tree_collision E (leaf_hashes E (imt_leaves t')) (leaf_hashes E (imt_leaves t)) IMT_DEPTH"
  proof -
    have "root_fr t' = root_fr t" using arg_cong [OF r, of "fr_from_be_bytes E"] E by (simp add: imt_root_def)
    then have "node E (leaf_hashes E (imt_leaves t')) IMT_DEPTH 0 = node E (leaf_hashes E (imt_leaves t)) IMT_DEPTH 0"
      using t t' by (simp add: imt_ok_def nodes_ok_def root_fr_def)
    from node_inject [OF nc this, of ?n] n show ?thesis by (simp add: leaf_hashes_def leaf_hash_empty imt_size_def)
  qed
  ultimately show ?thesis by blast
qed

lemma sub_leaf_value: "field_laws E \<Longrightarrow> fr_from_be_bytes E (sub_leaf E s) = record_leaf E (record_of s)"
  by (simp add: sub_leaf_def leaf_bytes_def)

lemma insert_positions_prefix:
  assumes E: "field_laws E" and "imt_ok E (rps_running_imt pst)" and "insert_positions E (map (verified_of E) ss) pst = (r, pst')"
  shows "\<exists>n \<le> length ss. imt_ok E (rps_running_imt pst')
    \<and> imt_values (rps_running_imt pst') = imt_values (rps_running_imt pst) @ map (\<lambda>s. record_leaf E (record_of s)) (take n ss)
    \<and> (n = 0 \<longrightarrow> ss = [] \<or> (\<exists>e. imt_insert E (rps_running_imt pst) (sub_leaf E (hd ss)) = Inl e))"
  using assms(2,3)
proof (induction ss arbitrary: pst r)
  case (Cons s ss)
  show ?case
  proof (cases "imt_insert E (rps_running_imt pst) (sub_leaf E s)")
    case (Inl e)
    then show ?thesis using Cons.prems by (intro exI [of _ 0]) (auto simp: insert_positions_step)
  next
    case (Inr wt)
    obtain w t where t: "imt_insert E (rps_running_imt pst) (sub_leaf E s) = Inr (w, t)" using Inr by (cases wt) auto
    have ok: "imt_ok E t" "imt_values t = imt_values (rps_running_imt pst) @ [record_leaf E (record_of s)]"
      using civic_imt.insert_result [of E "rps_running_imt pst" "sub_leaf E s" w t] E Cons.prems(1) t sub_leaf_value [OF E] by auto
    show ?thesis
    proof (cases "imt_insert E (rps_identity_tag_imt pst) (ss_identity_tag s)")
      case (Inl e)
      then show ?thesis using Cons.prems(2) t ok by (intro exI [of _ 1]) (auto simp: insert_positions_step)
    next
      case (Inr wu)
      obtain w2 u where u: "imt_insert E (rps_identity_tag_imt pst) (ss_identity_tag s) = Inr (w2, u)" using Inr by (cases wu) auto
      let ?p = "pst\<lparr>rps_running_imt := t, rps_identity_tag_imt := u\<rparr>"
      obtain q p where q: "insert_positions E (map (verified_of E) ss) ?p = (q, p)" by fastforce
      then have q': "insert_positions E (map (verified_of E) ss) ?p = (q, pst')"
        using Cons.prems(2) t u by (auto simp: insert_positions_step split: sum.splits)
      then obtain n where "n \<le> length ss" "imt_ok E (rps_running_imt pst')"
          "imt_values (rps_running_imt pst') = imt_values t @ map (\<lambda>s. record_leaf E (record_of s)) (take n ss)"
        using Cons.IH [OF _ q'] ok(1) by auto
      then show ?thesis using ok(2) by (intro exI [of _ "Suc n"]) simp
    qed
  qed
qed simp

lemma build_batch_trees:
  assumes "check_batch E PB view pst subs = Inr vs" and "build_batch E PB BC c view pst subs = (r, pst', c')"
  shows "\<exists>q p. insert_positions E vs pst = (q, p) \<and> rps_running_imt pst' = rps_running_imt p"
  using assms by (auto simp: build_batch_def Let_def split: prod.splits sum.splits option.splits)

lemma diverged_build:
  assumes "imt_root E (rps_running_imt pst) \<noteq> pv_running_root view" and "subs \<noteq> []" and "length subs \<le> 6"
  shows "build_batch E PB BC c view pst subs = (Inl StateDiverged, pst, c)"
  using assms by (simp add: build_batch_def check_batch_def BATCH_SIZE_MAX_def)

text \<open>A build that fails after its checks leaves the leaves inserted so far in the replica.\<close>

lemma failed_build_drifts:
  assumes E: "field_laws E" and ok: "imt_ok E (rps_running_imt pst)" and room: "imt_size (rps_running_imt pst) < 2 ^ IMT_DEPTH"
    and chk: "check_batch E PB view pst subs = Inr vs"
    and new: "record_leaf E (record_of (fst (hd vs))) \<notin> set (imt_values (rps_running_imt pst))"
    and bld: "build_batch E PB BC c view pst subs = (Inl e, pst', c')"
  shows "\<exists>n. 0 < n \<and> n \<le> length vs \<and> imt_ok E (rps_running_imt pst') \<and> imt_values (rps_running_imt pst') =
      imt_values (rps_running_imt pst) @ map (\<lambda>(s, _). record_leaf E (record_of s)) (take n vs)"
proof -
  let ?ss = "sort_key (sub_leaf E) subs"
  have "length ?ss \<noteq> 0" using chk by (simp add: check_batch_Inr)
  then have vs: "vs = map (verified_of E) ?ss" "?ss \<noteq> []" using chk by (auto simp only: check_batch_Inr length_0_conv)
  obtain q p where q: "insert_positions E (map (verified_of E) ?ss) pst = (q, p)" "rps_running_imt pst' = rps_running_imt p"
    using build_batch_trees [OF chk bld] vs by blast
  have "fst (hd vs) = hd ?ss" using vs by (simp add: hd_map verified_of_def)
  then have "\<nexists>e. imt_insert E (rps_running_imt pst) (sub_leaf E (hd ?ss)) = Inl e"
    using imt_insert_absent [OF E ok room, of "sub_leaf E (hd ?ss)"] new by (auto simp: sub_leaf_value [OF E])
  then obtain n where "0 < n" "n \<le> length ?ss" "imt_ok E (rps_running_imt p)"
      "imt_values (rps_running_imt p) = imt_values (rps_running_imt pst) @ map (\<lambda>s. record_leaf E (record_of s)) (take n ?ss)"
    using insert_positions_prefix [OF E ok q(1)] vs(2) by auto
  then show ?thesis using q(2) vs(1) by (intro exI [of _ n]) (simp add: take_map comp_def verified_of_def)
qed

text \<open>One way to fail: the identity tag is already in the tree, but not the leaf.\<close>

lemma repeated_tag_fails:
  assumes E: "field_laws E" and ok: "imt_ok E (rps_running_imt pst)" "imt_ok E (rps_identity_tag_imt pst)"
    and roots: "imt_root E (rps_running_imt pst) = pv_running_root view" "imt_root E (rps_identity_tag_imt pst) = pv_identity_tag_set_root view"
    and acc: "acceptable E PB view s"
    and leaf: "record_leaf E (record_of s) \<notin> set (imt_values (rps_running_imt pst))" "imt_size (rps_running_imt pst) < 2 ^ IMT_DEPTH"
    and tag: "fr_from_be_bytes E (ss_identity_tag s) \<in> set (imt_values (rps_identity_tag_imt pst))"
      "imt_size (rps_identity_tag_imt pst) < 2 ^ IMT_DEPTH"
  shows "\<exists>pst'. build_batch E PB BC c view pst [s] = (Inl (RelImt DuplicateInsertion), pst', c)"
proof -
  from imt_insert_absent [OF E ok(1) leaf(2), of "sub_leaf E s"] leaf(1) obtain w t where
    t: "imt_insert E (rps_running_imt pst) (sub_leaf E s) = Inr (w, t)" by (auto simp: sub_leaf_value [OF E])
  have "check_batch E PB view pst [s] = Inr [verified_of E s]"
    using roots acc by (simp add: check_batch_Inr dup_free_def)
  then show ?thesis using t imt_insert_present [OF E ok(2) tag(2,1)] by (simp add: build_batch_def insert_positions_step)
qed

lemma build_batch_publishes:
  assumes "build_batch E PB BC c view pst subs = (Inr (sub, ps), pst', c')"
  shows "\<exists>vh. bc_publish BC c (bs_records sub) = Inr (vh, c')"
  using build_batch_Inr [OF assms] by auto

end
