(* ===== verification/Signing.thy ===== *)
theory Signing
  imports Signer Batching
begin

text \<open>
  The signer of \<open>src/signer/core.rs\<close> over its ratchet: signing is total on a well-formed chain,
  its tags depend only on the slot's value and the petition, a signature it produces passes the
  relayer's verification, and the Merkle path it proves with leads to the enrolled root until a
  slot has been journaled.
\<close>

section \<open>Signing\<close>

definition signer_ok :: "'fr prims \<Rightarrow> 'fr list \<Rightarrow> ('fr, 'r) signer \<Rightarrow> bool" where
  "signer_ok E vs sg \<longleftrightarrow> chain_ok E vs (sg_chain sg)"

lemma chain_len_unat: "chain_ok E vs st \<Longrightarrow> unat (chain_len st) = length vs"
  unfolding chain_len_def by (subst unat_of_nat_small) (auto simp: chain_ok_def FSRT_DEPTH_def)

text \<open>The tags a signer derives for a petition.\<close>

definition nullifier_of :: "'fr prims \<Rightarrow> petition_meta \<Rightarrow> bytes32 \<Rightarrow> 'fr \<Rightarrow> 'fr" where
  "nullifier_of E p secret v =
     poseidon_circom E [domain_nullifier E, v, fr_from_be_bytes E (pm_petition_id p), fr_of E (ucast (pm_class_index p)),
       fr_of E (ucast (pm_class_tag p)), fr_from_be_bytes E secret]"

lemma signer_tags_eq:
  "signer_tags E p sg v = Some (nullifier_of E p (sc_identity_secret (sg_credentials sg)) v,
     hash_identity_tag E v (fr_from_be_bytes E (pm_petition_id p)))"
  by (simp add: signer_tags_def hash_nullifier_def poseidon_n_def nullifier_of_def)

lemma sign_checks_slot:
  assumes "signer_ok E vs sg" and "sign_checks E p sg = Inr ()"
  shows "ch_t (sg_chain sg) \<le> pm_slot p \<and> unat (pm_slot p) < length vs"
proof -
  have "\<not> pm_slot p < ch_t (sg_chain sg)" "\<not> chain_len (sg_chain sg) \<le> pm_slot p"
    using assms(2) by (auto simp: sign_checks_def Let_def split: if_splits)
  with chain_len_unat [of E vs "sg_chain sg"] assms(1) show ?thesis by (auto simp: signer_ok_def word_le_nat_alt not_less)
qed

text \<open>Signing never panics on a well-formed chain. A failed check leaves the signer alone; after the
  checks the head is at the petition's slot whatever the outcome.\<close>

lemma sign_result:
  assumes ok: "signer_ok E vs sg"
  shows "(\<exists>e. sign_checks E p sg = Inl e \<and> sign E PB RI p sg = Some (Inl e, sg)) \<or>
    (\<exists>sg' r. sign_checks E p sg = Inr () \<and> sign E PB RI p sg = Some (r, sg') \<and> signer_ok E vs sg'
      \<and> ch_t (sg_chain sg') = pm_slot p \<and> sg_credentials sg' = sg_credentials sg \<and> sg_ri sg' = sg_ri sg
      \<and> ch_v_values (sg_chain sg') = ch_v_values (sg_chain sg) \<and> ch_s_seeds (sg_chain sg') = ch_s_seeds (sg_chain sg)
      \<and> ch_chain_root (sg_chain sg') = ch_chain_root (sg_chain sg)
      \<and> sign_at_slot E PB RI p sg' = Some r)"
proof (cases "sign_checks E p sg")
  case (Inl e)
  then show ?thesis by (simp add: sign_def)
next
  case (Inr u)
  then have c: "sign_checks E p sg = Inr ()" by simp
  note s = sign_checks_slot [OF ok c]
  from advance_to_ok [of E vs "sg_chain sg" "pm_slot p"] ok s obtain st where
    st: "advance_to E (pm_slot p) (sg_chain sg) = Some st" "chain_ok E vs st" "ch_t st = pm_slot p"
    "ch_v_values st = ch_v_values (sg_chain sg)" "ch_s_seeds st = ch_s_seeds (sg_chain sg)"
    "ch_chain_root st = ch_chain_root (sg_chain sg)" by (auto simp: signer_ok_def)
  let ?sg = "sg\<lparr>sg_chain := st\<rparr>"
  have "length (ch_v_values st) = length vs" using st(2) by (simp add: chain_ok_def)
  then obtain v where "v_at_current_slot st = Some v" using s st(3) by (auto simp: v_at_current_slot_def)
  then have "\<exists>r. sign_at_slot E PB RI p ?sg = Some r" by (simp add: sign_at_slot_def signer_tags_eq)
  then obtain r where r: "sign_at_slot E PB RI p ?sg = Some r" by blast
  then have "sign E PB RI p sg = Some (r, ?sg)" using c st(1) by (simp add: sign_def Let_def)
  with c st r show ?thesis by (auto simp: signer_ok_def)
qed

lemma slot_value:
  assumes "signer_ok E vs sg" and "unat (ch_t (sg_chain sg)) < length vs"
  shows "v_at_current_slot (sg_chain sg) = Some (vs ! unat (ch_t (sg_chain sg)))"
  using assms chain_ok_suffix [of E vs "sg_chain sg" "unat (ch_t (sg_chain sg))"]
  by (simp add: signer_ok_def v_at_current_slot_def chain_ok_def)

text \<open>What a submission contains.\<close>

lemma sign_submission:
  assumes ok: "signer_ok E vs sg" and sub: "sign E PB RI p sg = Some (Inr sub, sg')"
  shows "\<exists>path. ri_merkle_path RI (sg_ri sg) (sc_ri_leaf_index (sg_credentials sg)) = Inr path
    \<and> unat (pm_slot p) < length vs
    \<and> ss_nullifier sub = fr_to_be_bytes E (nullifier_of E p (sc_identity_secret (sg_credentials sg)) (vs ! unat (pm_slot p)))
    \<and> ss_identity_tag sub = fr_to_be_bytes E (hash_identity_tag E (vs ! unat (pm_slot p)) (fr_from_be_bytes E (pm_petition_id p)))
    \<and> ss_petition_id sub = pm_petition_id p \<and> ss_r_root sub = pm_r_root p \<and> ss_predicate_hash sub = pm_predicate_hash p
    \<and> ss_class_index sub = pm_class_index p \<and> ss_slot sub = pm_slot p \<and> ss_class_tag sub = pm_class_tag p
    \<and> generate_signer_proof PB (sign_public E p (nullifier_of E p (sc_identity_secret (sg_credentials sg)) (vs ! unat (pm_slot p)))
        (hash_identity_tag E (vs ! unat (pm_slot p)) (fr_from_be_bytes E (pm_petition_id p)))) (sign_private E p sg' path)
      = Inr (ss_proof_bytes sub)"
proof -
  from sign_result [OF ok, of p PB RI] sub have r: "sign_checks E p sg = Inr ()" "signer_ok E vs sg'"
    "ch_t (sg_chain sg') = pm_slot p" "sg_credentials sg' = sg_credentials sg" "sg_ri sg' = sg_ri sg"
    "sign_at_slot E PB RI p sg' = Some (Inr sub)" by auto
  have slot: "unat (pm_slot p) < length vs" using sign_checks_slot [OF ok r(1)] by blast
  have v: "v_at_current_slot (sg_chain sg') = Some (vs ! unat (pm_slot p))"
    using slot_value [OF r(2)] r(3) slot by simp
  from r(6) v obtain path pf where "ri_merkle_path RI (sg_ri sg) (sc_ri_leaf_index (sg_credentials sg)) = Inr path"
    "generate_signer_proof PB (sign_public E p (nullifier_of E p (sc_identity_secret (sg_credentials sg)) (vs ! unat (pm_slot p)))
        (hash_identity_tag E (vs ! unat (pm_slot p)) (fr_from_be_bytes E (pm_petition_id p)))) (sign_private E p sg' path) = Inr pf"
    "sub = \<lparr>ss_petition_id = pm_petition_id p, ss_r_root = pm_r_root p, ss_predicate_hash = pm_predicate_hash p,
       ss_class_index = pm_class_index p, ss_slot = pm_slot p,
       ss_nullifier = fr_to_be_bytes E (nullifier_of E p (sc_identity_secret (sg_credentials sg)) (vs ! unat (pm_slot p))),
       ss_identity_tag = fr_to_be_bytes E (hash_identity_tag E (vs ! unat (pm_slot p)) (fr_from_be_bytes E (pm_petition_id p))),
       ss_class_tag = pm_class_tag p, ss_proof_bytes = pf\<rparr>"
    by (auto simp: sign_at_slot_def signer_tags_eq r(4,5) and_then_eq_Inr map_err_eq_Inr)
  with slot show ?thesis by simp
qed

lemma sign_acceptable:
  assumes E: "field_laws E" and ok: "signer_ok E vs sg" and sub: "sign E PB RI p sg = Some (Inr sub, sg')"
    and complete: "\<And>pub priv pf. generate_signer_proof PB pub priv = Inr pf \<Longrightarrow> verify_signer_proof PB pf pub = Inr ()"
    and view: "pm_petition_id p = pv_petition_id view" "pm_class_tag p \<in> set (pv_class_set view)"
  shows "acceptable E PB view sub"
proof -
  note s = sign_submission [OF ok sub]
  then have "submission_public E sub = sign_public E p
      (nullifier_of E p (sc_identity_secret (sg_credentials sg)) (vs ! unat (pm_slot p)))
      (hash_identity_tag E (vs ! unat (pm_slot p)) (fr_from_be_bytes E (pm_petition_id p)))"
    using E by (auto simp: submission_public_def sign_public_def)
  with s complete view show ?thesis by (auto simp: acceptable_def)
qed

section \<open>Enrollment\<close>

lemma enroll_ok:
  assumes "length attr_vector = 4" and "unat n \<le> 2 ^ FSRT_DEPTH"
  shows "\<exists>sg art vs. signer_enroll E RI ri attr_vector n attr_version block seed os_seed os_secret = Some (sg, art)
    \<and> length vs = unat n \<and> signer_ok E vs sg \<and> ch_v_values (sg_chain sg) = vs \<and> ch_t (sg_chain sg) = 0
    \<and> ea_chain_root art = fr_to_be_bytes E (compute_chain_root E vs)
    \<and> sc_ri_leaf_index (sg_credentials sg) = fst (ri_append_leaf RI ri (ea_attr_hash art) block)
    \<and> sg_ri sg = snd (ri_append_leaf RI ri (ea_attr_hash art) block)"
proof -
  let ?st = "chain_enroll E (fr_from_be_bytes E (case seed of Some b \<Rightarrow> b | None \<Rightarrow> os_seed)) n attr_version"
  have c: "chain_ok E (ch_v_values ?st) ?st" "length (ch_v_values ?st) = unat n"
    by (rule chain_enroll_ok [OF assms(2)])+
  obtain h where "hash_attr E attr_vector (ch_chain_root ?st) attr_version (fr_from_be_bytes E os_secret) = Some h"
    using assms(1) by (simp add: hash_attr_def)
  moreover have "ch_t ?st = 0" by (simp add: chain_enroll_def Let_def)
  moreover have "ch_chain_root ?st = compute_chain_root E (ch_v_values ?st)" using c(1) by (simp add: chain_ok_def)
  ultimately show ?thesis
    using c by (auto simp: signer_enroll_def signer_ok_def Let_def split: prod.split)
qed

section \<open>The witness path\<close>

text \<open>While nothing is journaled, the path in the private inputs leads from the slot's value to the
  enrolled root.\<close>

lemma sign_path_ok:
  assumes "signer_ok E vs sg" and "ch_v_values (sg_chain sg) = vs" and "unat (ch_t (sg_chain sg)) < length vs"
  shows "path_root E (vs ! unat (ch_t (sg_chain sg)))
      (zip (sv_chain_path_siblings (sign_private E p sg path)) (sv_chain_path_indices (sign_private E p sg path)))
    = sv_chain_root (sign_private E p sg path)"
  using assms compute_path_root [of vs "ch_t (sg_chain sg)" E]
  by (simp add: sign_private_def merkle_path_for_current_slot_def signer_ok_def chain_ok_def Let_def)

text \<open>After journaling it does so only if the erased values were zero or the two trees collide.\<close>

lemma wiped_path_fails:
  assumes ok: "chain_ok E vs st" and w: "ch_v_values st = wipe_upto E n vs" and t: "n < unat (ch_t st)" "unat (ch_t st) < length vs"
    and path: "path_root E (vs ! unat (ch_t st)) (zip (fst (merkle_path_for_current_slot E st)) (snd (merkle_path_for_current_slot E st)))
      = ch_chain_root st"
    and nc: "\<not> tree_collision E (slot_leaves E (wipe_upto E n vs)) (slot_leaves E vs) FSRT_DEPTH" and i: "i \<le> n"
  shows "vs ! i = fr_of E 0"
proof -
  have len: "length vs \<le> 2 ^ FSRT_DEPTH" and root: "ch_chain_root st = compute_chain_root E vs"
    using ok by (simp_all add: chain_ok_def)
  have "wipe_upto E n vs ! unat (ch_t st) = vs ! unat (ch_t st)" using t by (simp add: nth_wipe)
  with compute_path_root [of "wipe_upto E n vs" "ch_t st" E] path root len t
  have "compute_chain_root E (wipe_upto E n vs) = compute_chain_root E vs"
    by (simp add: merkle_path_for_current_slot_def w)
  from chain_root_inject [OF nc this] len have "wipe_upto E n vs = vs" by simp
  with nth_wipe [of i vs E n] i t show ?thesis by simp
qed

end
