(* ===== verification/Disputes.thy ===== *)
theory Disputes
  imports Registry_Ledger Adapters
begin

text \<open>
  Disputes of \<open>src/registry/core.rs\<close> (\<open>dispute\<close>, \<open>derive_evidence\<close>) and of \<open>src/disputant/core.rs\<close>
  against the blob contract: the evidence the registry derives from verified openings is the
  record the blob holds at that position, the padding record beyond the batch; an envelope built
  by the disputant is accepted; and, because publication replays a batch in full, the only
  disputes that can succeed against a published batch argue about padding.
\<close>

section \<open>Evidence\<close>

text \<open>The record a blob holds at a position: the padding record beyond the batch.\<close>

definition padded_record :: "record_entry list \<Rightarrow> nat \<Rightarrow> record_entry" where
  "padded_record rs i = (if i < length rs then rs ! i else zero_record)"

lemma decode_padded:
  "\<forall>r \<in> set rs. wf_record r \<Longrightarrow> decode_record (padded_bytes rs i) = padded_record rs i"
  by (simp add: padded_bytes_def padded_record_def)
     (simp add: decode_record_def zero_record_def RECORD_LEN_def slice_def zeros_def from_be_def numeral_eq_Suc)

definition opening_at :: "u32 \<Rightarrow> nat \<Rightarrow> kzg_opening \<Rightarrow> bool" where
  "opening_at base k o1 \<longleftrightarrow> unat (ko_field_element_index o1) = unat base + k"

lemma slot_opening_Some:
  assumes "unat base + 3 < 2 ^ 32"
  shows "slot_opening base (Some by_off) o1 =
    (if \<exists>k < 4. opening_at base k o1
     then (let k = unat (ko_field_element_index o1) - unat base in
           if by_off ! k \<noteq> None then None else Some (by_off[k := Some o1]))
     else Some by_off)"
proof -
  let ?i = "ko_field_element_index o1"
  show ?thesis
  proof (cases "base \<le> ?i")
    case True
    then have s: "checked_sub ?i base = Some (?i - base)" "unat (?i - base) = unat ?i - unat base"
      by (simp_all add: checked_sub_def unat_sub word_le_nat_alt)
    have "(\<exists>k < 4. opening_at base k o1) \<longleftrightarrow> ?i - base < 4"
      using True s(2) by (auto simp: opening_at_def word_less_nat_alt word_le_nat_alt intro!: exI [of _ "unat ?i - unat base"])
    then show ?thesis using s by (simp add: slot_opening_def Let_def)
  next
    case False
    then have "checked_sub ?i base = None" "\<not> (\<exists>k < 4. opening_at base k o1)"
      by (auto simp: checked_sub_def opening_at_def word_le_nat_alt)
    then show ?thesis by (auto simp: slot_opening_def)
  qed
qed

lemma slot_fold_None [simp]: "foldl (slot_opening base) None os = None"
  by (induction os) (simp_all add: slot_opening_def)

lemma slot_fold_sound:
  assumes "unat base + 3 < 2 ^ 32" and "foldl (slot_opening base) (Some by_off) os = Some by'" and "length by_off = 4"
    and "k < 4" and "by' ! k = Some o1"
  shows "length by' = 4 \<and> (by_off ! k = Some o1 \<or> o1 \<in> set os \<and> opening_at base k o1)"
  using assms(2-)
proof (induction os arbitrary: by_off)
  case (Cons a os)
  from Cons.prems(1) obtain b where b: "slot_opening base (Some by_off) a = Some b"
    "foldl (slot_opening base) (Some b) os = Some by'"
    by (cases "slot_opening base (Some by_off) a") auto
  have "length b = 4 \<and> (b = by_off \<or> (\<exists>j < 4. opening_at base j a \<and> b = by_off[j := Some a]))"
    using b(1) Cons.prems(2) unfolding slot_opening_Some [OF assms(1)]
    by (auto simp: opening_at_def Let_def split: if_splits)
  with Cons.IH [OF b(2)] Cons.prems show ?case by (auto simp: nth_list_update split: if_splits)
qed simp

lemma slot_fold_complete:
  assumes "unat base + 3 < 2 ^ 32" and "distinct (map ko_field_element_index os)" and "length by_off = 4"
    and "\<And>k. k < 4 \<Longrightarrow> \<exists>o1 \<in> set os. opening_at base k o1 \<Longrightarrow> by_off ! k = None"
  shows "\<exists>by'. foldl (slot_opening base) (Some by_off) os = Some by' \<and> length by' = 4 \<and>
    (\<forall>k < 4. \<forall>o1. (by' ! k = Some o1 \<longleftrightarrow> by_off ! k = Some o1 \<or> o1 \<in> set os \<and> opening_at base k o1))"
  using assms(2-)
proof (induction os arbitrary: by_off)
  case (Cons a os)
  show ?case
  proof (cases "\<exists>j < 4. opening_at base j a")
    case True
    then obtain j where j: "j < 4" "opening_at base j a" by blast
    then have "slot_opening base (Some by_off) a = Some (by_off[j := Some a])"
      using Cons.prems(3) [of j] unfolding slot_opening_Some [OF assms(1)]
      by (auto simp: opening_at_def Let_def)
    moreover have "\<exists>by'. foldl (slot_opening base) (Some (by_off[j := Some a])) os = Some by' \<and> length by' = 4 \<and>
      (\<forall>k < 4. \<forall>o1. (by' ! k = Some o1 \<longleftrightarrow> by_off[j := Some a] ! k = Some o1 \<or> o1 \<in> set os \<and> opening_at base k o1))"
    proof (rule Cons.IH)
      fix k assume k: "k < 4" "\<exists>o1 \<in> set os. opening_at base k o1"
      then have "k \<noteq> j" using Cons.prems(1) j(2) by (auto simp: opening_at_def word_unat_eq_iff [symmetric] image_iff) (metis word_unat_eq_iff)
      then show "by_off[j := Some a] ! k = None" using k Cons.prems(3) [of k] by auto
    qed (use Cons.prems in auto)
    ultimately show ?thesis
      using j Cons.prems(2) Cons.prems(3) [of j] by (fastforce simp: nth_list_update opening_at_def)
  next
    case False
    then have "slot_opening base (Some by_off) a = Some by_off" by (auto simp: slot_opening_Some [OF assms(1)])
    with Cons.IH [of by_off] Cons.prems False show ?thesis by auto
  qed
qed simp

lemma all_some_Some: "all_some xs = Some ys \<longleftrightarrow> xs = map Some ys"
  by (induction xs arbitrary: ys) (auto simp: bind_eq_Some_conv Cons_eq_map_conv)

lemma all_some_map [simp]: "all_some (map Some ys) = Some ys"
  by (simp add: all_some_Some)

lemma derive_evidence_base:
  assumes "derive_evidence d position = Some ev"
  obtains base by' os where "unat base = 4 * unat position" "unat position < 1000"
    "foldl (slot_opening base) (Some (replicate 4 None)) (dp_openings d) = Some by'"
    "by' = map Some os" "ev = decode_record (assemble_record (map ko_claimed_value os))"
proof -
  from assms obtain base last by' os where d: "checked_mul position 4 = Some base" "checked_add base 3 = Some last"
    "\<not> word_of_nat (RECORDS_PER_BLOB * FE_PER_RECORD) \<le> last"
    "foldl (slot_opening base) (Some (replicate 4 None)) (dp_openings d) = Some by'"
    "all_some by' = Some os" "ev = decode_record (assemble_record (map ko_claimed_value os))"
    by (auto simp: derive_evidence_def bind_eq_Some_conv split: if_splits)
  have b: "unat base = 4 * unat position" "unat last = unat base + 3"
    using checked_mul_SomeD [OF d(1)] checked_add_SomeD [OF d(2)] by simp_all
  have "unat last < 4000" using d(3) by (simp add: word_le_nat_alt blob_consts not_le)
  with b d that show ?thesis by (auto simp: all_some_Some)
qed

lemma derive_evidence_complete:
  assumes "unat position < 1000" and "distinct (map ko_field_element_index (dp_openings d))"
    and "\<And>k. k < 4 \<Longrightarrow> \<exists>o1 \<in> set (dp_openings d). unat (ko_field_element_index o1) = 4 * unat position + k
           \<and> ko_claimed_value o1 = f k"
  shows "derive_evidence d position = Some (decode_record (assemble_record (map f [0..<4])))"
proof -
  have b: "unat (position * 4) = 4 * unat position"
    using assms(1) by (simp add: unat_word_ariths)
  have l: "unat (position * 4 + 3) = 4 * unat position + 3"
    using assms(1) b by (simp add: unat_word_ariths(1) [of "position * 4" 3])
  have m: "checked_mul position 4 = Some (position * 4)" "checked_add (position * 4) 3 = Some (position * 4 + 3)"
    using assms(1) b by (simp_all add: checked_mul_def checked_add_def)
  have lt: "\<not> word_of_nat (RECORDS_PER_BLOB * FE_PER_RECORD) \<le> position * 4 + 3"
    using l assms(1) by (simp add: word_le_nat_alt blob_consts)
  have "unat (position * 4) + 3 < 2 ^ 32" using b assms(1) by simp
  from slot_fold_complete [OF this assms(2), of "replicate 4 None"] obtain by' where
    by': "foldl (slot_opening (position * 4)) (Some (replicate 4 None)) (dp_openings d) = Some by'" "length by' = 4"
    "\<And>k o1. k < 4 \<Longrightarrow> by' ! k = Some o1 \<longleftrightarrow> o1 \<in> set (dp_openings d) \<and> opening_at (position * 4) k o1"
    by auto
  have v: "\<exists>o1. by' ! k = Some o1 \<and> ko_claimed_value o1 = f k" if "k < 4" for k
    using assms(3) [OF that] by'(3) [OF that] by (auto simp: opening_at_def b)
  define os where "os = map the by'"
  have os: "by' = map Some os" "map ko_claimed_value os = map f [0..<4]"
    using v by'(2) by (auto simp: os_def list_eq_iff_nth_eq) (metis option.sel)+
  then show ?thesis
    using m lt by'(1) by (simp add: derive_evidence_def)
qed

context blob_store
begin

text \<open>What the registry derives from verified openings is the record the blob holds there.\<close>

lemma evidence_is_record:
  assumes "ok c" and "fetch c vh = Inr rs" and "\<forall>r \<in> set rs. wf_record r"
    and "\<forall>o1 \<in> set (dp_openings d). ver c vh o1 = Inr ()" and "derive_evidence d position = Some ev"
  shows "unat position < 1000 \<and> ev = padded_record rs (unat position)"
proof -
  let ?p = "unat position"
  from derive_evidence_base [OF assms(5)] obtain base os where
    b: "unat base = 4 * ?p" "?p < 1000"
    "foldl (slot_opening base) (Some (replicate 4 None)) (dp_openings d) = Some (map Some os)"
    "ev = decode_record (assemble_record (map ko_claimed_value os))" by blast
  from fetch_encodes [OF assms(1,2)] obtain fes where fes: "encode_blob rs = Inr fes" by blast
  have len: "length os = 4"
  proof -
    have "length by1 = 4 \<Longrightarrow> foldl (slot_opening base) (Some by1) xs = Some by2 \<Longrightarrow> length by2 = 4" for by1 by2 xs
    proof (induction xs arbitrary: by1)
      case (Cons a xs)
      then obtain b1 where "slot_opening base (Some by1) a = Some b1" "foldl (slot_opening base) (Some b1) xs = Some by2"
        by (cases "slot_opening base (Some by1) a") auto
      moreover from this(1) have "length b1 = length by1"
        by (auto simp: slot_opening_def bind_eq_Some_conv Let_def split: option.splits if_splits)
      ultimately show ?case using Cons by auto
    qed simp
    from this [OF _ b(3)] show ?thesis by simp
  qed
  have "ko_claimed_value (os ! k) = record_fe (padded_bytes rs ?p) k" if "k < 4" for k
  proof -
    have "unat base + 3 < 2 ^ 32" using b by simp
    from slot_fold_sound [OF this b(3), of k "os ! k"] that len
    have o1: "os ! k \<in> set (dp_openings d)" "opening_at base k (os ! k)" by auto
    with assms(4) have "ver c vh (os ! k) = Inr ()" by blast
    from verify_sound [OF assms(1) this] assms(2) fes o1(2) b(1)
    have "ko_claimed_value (os ! k) = fes ! (4 * ?p + k)" by (auto simp: opening_at_def)
    also have "\<dots> = record_fe (padded_bytes rs ?p) k" by (rule encode_blob_fes(2) [OF fes b(2) that])
    finally show ?thesis .
  qed
  then have "map ko_claimed_value os = map (record_fe (padded_bytes rs ?p)) [0..<4]"
    using len by (intro nth_equalityI) auto
  then show ?thesis
    using b(2,4) assemble_record_fes [OF length_padded_bytes [OF assms(3)], of ?p] decode_padded [OF assms(3)] by simp
qed

end

section \<open>What a dispute proves\<close>

definition violation ::
    "'fr prims \<Rightarrow> class_tag list \<Rightarrow> record_entry list \<Rightarrow> violation_type \<Rightarrow> nat \<Rightarrow> nat \<Rightarrow> bool" where
  "violation E cs rs v i j \<longleftrightarrow>
     (case v of
        ClassTagOutOfSet \<Rightarrow> re_class_tag (padded_record rs i) \<notin> set cs
      | IntraBatchDuplicateIdentityTag \<Rightarrow>
          i \<noteq> j \<and> re_identity_tag (padded_record rs i) = re_identity_tag (padded_record rs j)
      | LeafOrderingViolation \<Rightarrow>
          j = Suc i \<and> leaf_bytes E (padded_record rs j) \<le> leaf_bytes E (padded_record rs i))"

text \<open>The positions a dispute argues about.\<close>

definition disputed_positions :: "dispute \<Rightarrow> nat list" where
  "disputed_positions d =
     unat (dp_position_i d) # (if dp_violation_type d = ClassTagOutOfSet then []
       else case dp_position_j d of Some j \<Rightarrow> [unat j] | None \<Rightarrow> [])"

lemma check_violation_proves:
  assumes ev: "\<And>p ev. derive_evidence d p = Some ev \<Longrightarrow> unat p < 1000 \<and> ev = padded_record rs (unat p)"
    and chk: "check_violation E cs d = Inr ()"
  shows "\<exists>j. set (disputed_positions d) \<subseteq> {unat (dp_position_i d), j} \<and> (\<forall>p \<in> set (disputed_positions d). p < 1000)
    \<and> violation E cs rs (dp_violation_type d) (unat (dp_position_i d)) j
    \<and> (dp_violation_type d \<noteq> ClassTagOutOfSet \<longrightarrow> j \<in> set (disputed_positions d))"
proof -
  from chk obtain ev_i where i: "derive_evidence d (dp_position_i d) = Some ev_i"
    by (auto simp: check_violation_def Let_def and_then_eq_Inr ok_or_eq_Inr)
  note i' = ev [OF i]
  show ?thesis
  proof (cases "dp_violation_type d")
    case ClassTagOutOfSet
    with chk i i' show ?thesis
      by (auto simp: check_violation_def violation_def disputed_positions_def Let_def split: if_splits)
  next
    case IntraBatchDuplicateIdentityTag
    with chk i obtain pj ev_j where j: "dp_position_j d = Some pj" "pj \<noteq> dp_position_i d" "derive_evidence d pj = Some ev_j"
      "re_identity_tag ev_i = re_identity_tag ev_j"
      by (auto simp: check_violation_def Let_def and_then_eq_Inr ok_or_eq_Inr split: if_splits)
    with ev [OF j(3)] i' IntraBatchDuplicateIdentityTag show ?thesis
      by (auto simp: violation_def disputed_positions_def word_unat_eq_iff intro!: exI [of _ "unat pj"])
  next
    case LeafOrderingViolation
    with chk i obtain pj ev_j where j: "dp_position_j d = Some pj" "checked_add (dp_position_i d) 1 = Some pj"
      "derive_evidence d pj = Some ev_j" "leaf_ordering_violated E (record_leaf E ev_i) (record_leaf E ev_j)"
      by (auto simp: check_violation_def Let_def and_then_eq_Inr ok_or_eq_Inr split: if_splits)
    with ev [OF j(3)] i' checked_add_SomeD [OF j(2)] LeafOrderingViolation show ?thesis
      by (auto simp: violation_def disputed_positions_def leaf_ordering_violated_def leaf_bytes_def intro!: exI [of _ "unat pj"])
  qed
qed

text \<open>Inside a batch of the ledger there is nothing to dispute.\<close>

lemma honest_no_violation:
  assumes shape: "batch_shape E cs rs" and tags: "distinct (map (fr_from_be_bytes E \<circ> re_identity_tag) rs)"
    and "i < length rs" and "v \<noteq> ClassTagOutOfSet \<Longrightarrow> j < length rs"
  shows "\<not> violation E cs rs v i j"
proof (cases v)
  case ClassTagOutOfSet
  then show ?thesis using shape assms(3) by (simp add: violation_def padded_record_def batch_shape_def)
next
  case IntraBatchDuplicateIdentityTag
  have "i = j" if "re_identity_tag (rs ! i) = re_identity_tag (rs ! j)"
    using tags assms(3,4) IntraBatchDuplicateIdentityTag that nth_eq_iff_index_eq [OF tags, of i j] by simp
  then show ?thesis using IntraBatchDuplicateIdentityTag assms(3,4) by (auto simp: violation_def padded_record_def)
next
  case LeafOrderingViolation
  have "leaf_bytes E (rs ! i) < leaf_bytes E (rs ! Suc i)" if "Suc i < length rs"
    using shape that sorted_wrt_nth_less [of "(<)" "map (leaf_bytes E) rs" i "Suc i"] by (simp add: batch_shape_def)
  then show ?thesis using LeafOrderingViolation assms(3,4) by (auto simp: violation_def padded_record_def not_le)
qed

lemma ledger_batch_tags:
  assumes "field_laws E" and "ledger_ok E e rss" and "k < length rss"
  shows "distinct (map (fr_from_be_bytes E \<circ> re_identity_tag) (rss ! k))"
proof -
  have rep: "replay E (concat rss) = Inr (pe_running_imt e, pe_identity_tag_imt e)" using assms(2) by (simp add: ledger_ok_def)
  have "distinct (map (fr_from_be_bytes E \<circ> re_identity_tag) (concat rss))"
    using imt_ok_distinct [OF replay_facts(2) [OF assms(1) rep]] replay_facts(4) [OF assms(1) rep] by simp
  moreover have "concat rss = concat (take k rss) @ rss ! k @ concat (drop (Suc k) rss)"
    using id_take_nth_drop [OF assms(3)] by (metis concat.simps(2) concat_append)
  ultimately show ?thesis by simp
qed

lemma dispute_needs_padding:
  assumes E: "field_laws E" and ok: "ledger_ok E e rss"
    and pet: "petition reg (dp_petition_id d) = Inr e" and disp: "dispute_batch E P reg (state_of e) d = Inr (ev, e')"
    and blob: "pt_blob P = in_memory_blob_carrier E" "imb_ok E (rg_blob_carrier reg)"
    and serves: "carrier_serves P (rg_blob_carrier reg) (pe_batches e) rss"
    and wf: "\<forall>rs \<in> set rss. \<forall>r \<in> set rs. wf_record r"
  shows "unat (dp_batch_index d) < length rss \<and>
    (\<exists>p \<in> set (disputed_positions d). length (rss ! unat (dp_batch_index d)) \<le> p)"
proof -
  let ?i = "unat (dp_batch_index d)" and ?c = "rg_blob_carrier reg"
  let ?vh = "br_batch_versioned_hash (pe_batches e ! ?i)" and ?rs = "rss ! ?i"
  have pre: "active_prefix (pe_batches e) (length rss)" using ok by (simp add: ledger_ok_def)
  from disp have d: "?i < length (pe_batches e)" "br_state (pe_batches e ! ?i) = Active"
    "\<forall>o1 \<in> set (dp_openings d). bc_verify (pt_blob P) ?c ?vh o1 = Inr ()"
    "check_violation E (pr_class_set (pe_record e)) d = Inr ()"
    using pet by (elim dispute_batch_Inr; auto)+
  have i: "?i < length rss" by (rule active_index [OF pre d(1,2)])
  have f: "imb_fetch_records ?c ?vh = Inr ?rs"
    using serves i blob(1) by (simp add: carrier_serves_def in_memory_blob_carrier_def)
  have wf': "\<forall>r \<in> set ?rs. wf_record r" using wf i by auto
  have ev: "unat p < 1000 \<and> ev = padded_record ?rs (unat p)" if "derive_evidence d p = Some ev" for p ev
    using memory_blob.evidence_is_record [OF blob(2) f wf' _ that] d(3) blob(1) by (simp add: in_memory_blob_carrier_def)
  from check_violation_proves [OF ev d(4)] obtain j where
    j: "set (disputed_positions d) \<subseteq> {unat (dp_position_i d), j}"
    "violation E (pr_class_set (pe_record e)) ?rs (dp_violation_type d) (unat (dp_position_i d)) j"
    "dp_violation_type d \<noteq> ClassTagOutOfSet \<longrightarrow> j \<in> set (disputed_positions d)" by blast
  have shape: "batch_shape E (pr_class_set (pe_record e)) ?rs" using ok i by (simp add: ledger_ok_def)
  have pi: "unat (dp_position_i d) \<in> set (disputed_positions d)" by (simp add: disputed_positions_def)
  have "\<not> (\<forall>p \<in> set (disputed_positions d). p < length ?rs)"
    using honest_no_violation [OF shape ledger_batch_tags [OF E ok i], of "unat (dp_position_i d)" "dp_violation_type d" j] j pi
    by auto
  with i show ?thesis by (auto simp: not_less)
qed

section \<open>What a disputant builds\<close>

lemma fe_index_value: "i < 1000 \<Longrightarrow> j < 4 \<Longrightarrow> unat (fe_index i j) = 4 * i + j"
  unfolding fe_index_def FE_PER_RECORD_def by (rule unat_of_nat_small) simp

lemma read_record_ok:
  assumes ok: "imb_ok E c" and f: "imb_fetch_records c vh = Inr rs" and wf: "\<forall>r \<in> set rs. wf_record r"
    and p: "unat position < 1000"
  shows "\<exists>os. read_record (in_memory_blob_carrier E) c vh position = Inr (padded_record rs (unat position), os)
    \<and> length os = 4 \<and> (\<forall>k < 4. unat (ko_field_element_index (os ! k)) = 4 * unat position + k
      \<and> ko_claimed_value (os ! k) = record_fe (padded_bytes rs (unat position)) k \<and> imb_verify E c vh (os ! k) = Inr ())"
proof -
  let ?p = "unat position"
  from memory_blob.fetch_encodes [OF ok f] obtain fes where fes: "encode_blob rs = Inr fes" by blast
  have "\<exists>o1. imb_open E c vh (fe_index ?p j) = Inr o1" if "j \<in> set [0..<4]" for j
    using memory_blob.open_ok [OF ok f fes, of "fe_index ?p j"] that p fe_index_value [OF p, of j] encode_blob_fes(1) [OF fes] by auto
  from try_map_total [of "[0..<4]" "\<lambda>j. imb_open E c vh (fe_index ?p j)", OF this] obtain os where
    os: "try_map (\<lambda>j. imb_open E c vh (fe_index ?p j)) [0..<4] = Inr os" "length os = 4" by auto
  have k: "ko_field_element_index (os ! k) = fe_index ?p k \<and> ko_claimed_value (os ! k) = fes ! (4 * ?p + k)
      \<and> imb_verify E c vh (os ! k) = Inr ()" if "k < 4" for k
  proof -
    have "imb_open E c vh (fe_index ?p k) = Inr (os ! k)"
      using os that by (auto simp: try_map_eq_Inr list_all2_conv_all_nth)
    from memory_blob.open_iff [OF ok f fes this] fe_index_value [OF p that] show ?thesis by simp
  qed
  have val: "ko_claimed_value (os ! k) = record_fe (padded_bytes rs ?p) k" if "k < 4" for k
    using k [OF that] encode_blob_fes(2) [OF fes p that] by simp
  then have "map ko_claimed_value os = map (record_fe (padded_bytes rs ?p)) [0..<4]"
    using os(2) by (intro nth_equalityI) auto
  then have "read_record (in_memory_blob_carrier E) c vh position = Inr (padded_record rs ?p, os)"
    using os(1) assemble_record_fes [OF length_padded_bytes [OF wf], of ?p] decode_padded [OF wf]
    by (simp add: read_record_def in_memory_blob_carrier_def)
  then show ?thesis using os(2) k val fe_index_value [OF p] by (intro exI [of _ os]) simp
qed

text \<open>Openings read at one position let the registry derive the record at that position.\<close>

lemma read_openings_evidence:
  assumes "\<forall>r \<in> set rs. wf_record r" and "unat position < 1000" and "length os = 4"
    and os: "\<forall>k < 4. unat (ko_field_element_index (os ! k)) = 4 * unat position + k
      \<and> ko_claimed_value (os ! k) = record_fe (padded_bytes rs (unat position)) k"
    and d: "dp_openings d = sort_key ko_field_element_index os"
  shows "derive_evidence d position = Some (padded_record rs (unat position))"
proof -
  have "distinct (map ko_field_element_index os)"
    using os assms(3) by (auto simp: distinct_conv_nth) (metis add_left_cancel)
  then have "distinct (map ko_field_element_index (dp_openings d))"
    unfolding d by (simp add: distinct_map distinct_sort)
  moreover have "\<exists>o1 \<in> set (dp_openings d). unat (ko_field_element_index o1) = 4 * unat position + k
      \<and> ko_claimed_value o1 = record_fe (padded_bytes rs (unat position)) k" if "k < 4" for k
    using os that assms(3) unfolding d by (intro bexI [of _ "os ! k"]) auto
  ultimately show ?thesis
    using derive_evidence_complete [OF assms(2), of d "record_fe (padded_bytes rs (unat position))"]
      assemble_record_fes [OF length_padded_bytes [OF assms(1)], of "unat position"] decode_padded [OF assms(1)] by simp
qed

lemma padding_envelope:
  assumes ok: "imb_ok E c" and f: "imb_fetch_records c (dc_batch_versioned_hash ctx) = Inr rs"
    and wf: "\<forall>r \<in> set rs. wf_record r" and p: "unat position < 1000"
    and v: "re_class_tag (padded_record rs (unat position)) \<notin> set (dc_class_set ctx)"
  shows "\<exists>d. build_class_tag_out_of_set (in_memory_blob_carrier E) c ctx position = Inr d
    \<and> dp_petition_id d = dc_petition_id ctx \<and> dp_batch_index d = dc_batch_index ctx
    \<and> (\<forall>o1 \<in> set (dp_openings d). imb_verify E c (dc_batch_versioned_hash ctx) o1 = Inr ())
    \<and> check_violation E (dc_class_set ctx) d = Inr ()"
proof -
  from read_record_ok [OF ok f wf p] obtain os where
    os: "read_record (in_memory_blob_carrier E) c (dc_batch_versioned_hash ctx) position = Inr (padded_record rs (unat position), os)"
    "length os = 4" "\<forall>k < 4. unat (ko_field_element_index (os ! k)) = 4 * unat position + k
      \<and> ko_claimed_value (os ! k) = record_fe (padded_bytes rs (unat position)) k
      \<and> imb_verify E c (dc_batch_versioned_hash ctx) (os ! k) = Inr ()" by blast
  let ?d = "\<lparr>dp_petition_id = dc_petition_id ctx, dp_batch_index = dc_batch_index ctx, dp_violation_type = ClassTagOutOfSet,
    dp_position_i = position, dp_position_j = None, dp_openings = sort_key ko_field_element_index os\<rparr>"
  have "derive_evidence ?d position = Some (padded_record rs (unat position))"
    using os by (intro read_openings_evidence [OF wf p os(2)]) auto
  then have "check_violation E (dc_class_set ctx) ?d = Inr ()" using v by (simp add: check_violation_def)
  moreover have "\<forall>o1 \<in> set os. imb_verify E c (dc_batch_versioned_hash ctx) o1 = Inr ()"
    using os(2,3) by (auto simp: in_set_conv_nth)
  ultimately show ?thesis
    using os(1) v by (intro exI [of _ ?d]) (simp add: build_class_tag_out_of_set_def)
qed

lemma dispute_batch_succeeds:
  assumes E: "field_laws E" and ok: "ledger_ok E e rss" and pet: "petition reg (dp_petition_id d) = Inr e"
    and st: "state_of e = DisputeWindow"
    and t: "checked_add (close_of e) RESOLUTION_DEADLINE_BLOCKS = Some t" "now reg < t"
    and i: "unat (dp_batch_index d) < length rss"
    and serves: "carrier_serves P (rg_blob_carrier reg) (pe_batches e) rss"
    and v: "\<forall>o1 \<in> set (dp_openings d). bc_verify (pt_blob P) (rg_blob_carrier reg)
        (br_batch_versioned_hash (pe_batches e ! unat (dp_batch_index d))) o1 = Inr ()"
    and chk: "check_violation E (pr_class_set (pe_record e)) d = Inr ()"
  shows "\<exists>ev e'. dispute_batch E P reg (state_of e) d = Inr (ev, e')"
proof -
  let ?i = "unat (dp_batch_index d)"
  have pre: "active_prefix (pe_batches e) (length rss)" using ok by (simp add: ledger_ok_def)
  then have b: "?i < length (pe_batches e)" "br_state (pe_batches e ! ?i) = Active"
    using i by (auto simp: active_prefix_def)
  have "\<exists>x. replay E (concat (take ?i rss)) = Inr x"
  proof (cases ?i)
    case (Suc k)
    then have "completes E (pe_batches e ! k) (concat (take (Suc k) rss))" using ok i by (simp add: ledger_ok_def)
    with Suc show ?thesis by (auto simp: completes_def)
  qed (simp add: replay_def)
  then obtain running idtag where r: "replay_batches E P (rg_blob_carrier reg) (map br_batch_versioned_hash
      (filter (\<lambda>b. br_state b = Active) (take ?i (pe_batches e)))) = Inr (running, idtag)"
    using take_active [OF pre, of ?i] replay_batches_served [OF serves, of ?i E] i b(1) by auto
  have op: "try_fold (\<lambda>_ opening. map_err BadDisputeOpening (bc_verify (pt_blob P) (rg_blob_carrier reg)
      (br_batch_versioned_hash (pe_batches e ! ?i)) opening)) () (dp_openings d) = Inr ()"
    using v by (simp add: try_fold_unit)
  show ?thesis
    using st pet t b r op chk by (simp add: dispute_batch_def Let_def not_le split: prod.split)
qed

end
