(* ===== verification/Resolver.thy ===== *)
theory Resolver
  imports Imt Disputant
begin

text \<open>
  \<open>src/resolver\<close>: rebuilding the leaf set from the active batches and computing the outcome. The
  binary search of the standard library is used on the strictly increasing class set of a
  registered petition, where it returns the position of the tag.
\<close>

record resolver_view =
  rw_petition_id :: petition_id
  rw_r_root :: bytes32
  rw_predicate_hash :: bytes32
  rw_running_root :: bytes32
  rw_leaf_count :: u64
  rw_class_set :: "class_tag list"
  rw_class_thresholds :: "u64 list"
  rw_class_index :: u8
  rw_active_batch_versioned_hashes :: "bytes32 list"

datatype resolver_error =
    ResBadState
  | NoBatches
  | LeafCountMismatch u64 u64
  | RootMismatch
  | LeafOrderingFailure nat
  | ResBlob blob_error
  | ResImt imt_error
  | ResProof proof_error

type_synonym 'fr leaf_entry = "'fr \<times> 'fr \<times> 'fr"

definition entry_of :: "'fr prims \<Rightarrow> record_entry \<Rightarrow> 'fr leaf_entry" where
  "entry_of E r =
     (let nullifier = fr_from_be_bytes E (re_nullifier r); class_tag = fr_of E (ucast (re_class_tag r))
      in (hash_leaf E nullifier class_tag, nullifier, class_tag))"

definition reconstruct_record ::
    "'fr prims \<Rightarrow> 'fr imt \<times> 'fr leaf_entry list \<Rightarrow> record_entry
     \<Rightarrow> (resolver_error, 'fr imt \<times> 'fr leaf_entry list) result" where
  "reconstruct_record E = (\<lambda>(imt, entries) r.
     and_then (map_err ResImt (imt_insert E imt (fr_to_be_bytes E (fst (entry_of E r))))) (\<lambda>(_, imt').
       Inr (imt', entries @ [entry_of E r])))"

definition reconstruct_batch ::
    "'fr prims \<Rightarrow> 'c blob_carrier \<Rightarrow> 'c \<Rightarrow> 'fr imt \<times> 'fr leaf_entry list \<Rightarrow> bytes32
     \<Rightarrow> (resolver_error, 'fr imt \<times> 'fr leaf_entry list) result" where
  "reconstruct_batch E BC c st vh =
     and_then (map_err ResBlob (bc_fetch_records BC c vh)) (\<lambda>records.
       try_fold (reconstruct_record E) st records)"

definition reconstruct ::
    "'fr prims \<Rightarrow> 'c blob_carrier \<Rightarrow> 'c \<Rightarrow> resolver_view \<Rightarrow> (resolver_error, 'fr leaf_entry list) result" where
  "reconstruct E BC c view =
     (if rw_active_batch_versioned_hashes view = [] then Inl NoBatches
      else
        and_then (try_fold (reconstruct_batch E BC c) (imt_new E, [])
                    (rw_active_batch_versioned_hashes view)) (\<lambda>(imt, entries).
        if word_of_nat (length entries) \<noteq> rw_leaf_count view
        then Inl (LeafCountMismatch (word_of_nat (length entries)) (rw_leaf_count view))
        else if imt_root E imt \<noteq> rw_running_root view then Inl RootMismatch
        else Inr entries))"

text \<open>\<open>[T]::binary_search\<close>: halve the candidate range until one index is left, then compare.\<close>

function bisect :: "'a::linorder list \<Rightarrow> 'a \<Rightarrow> nat \<Rightarrow> nat \<Rightarrow> nat" where
  "bisect xs x base n =
     (if 1 < n
      then (let half = n div 2; mid = base + half
            in bisect xs x (if x < xs ! mid then base else mid) (n - half))
      else base)"
  by pat_completeness auto
termination
  by (relation "measure (\<lambda>(xs, x, base, n). n)") auto

declare bisect.simps [simp del]

definition binary_search :: "'a::linorder list \<Rightarrow> 'a \<Rightarrow> nat option" where
  "binary_search xs x =
     (if xs = [] then None
      else (let base = bisect xs x 0 (length xs) in if xs ! base = x then Some base else None))"

definition count_entry :: "'fr prims \<Rightarrow> class_tag list \<Rightarrow> u64 list \<Rightarrow> 'fr leaf_entry \<Rightarrow> u64 list" where
  "count_entry E class_set counts = (\<lambda>(_, _, class_tag).
     let bytes = fr_to_be_bytes E class_tag; tag = from_be [bytes ! 30, bytes ! 31]
     in case binary_search class_set tag of
          Some i \<Rightarrow> counts[i := counts ! i + 1]
        | None \<Rightarrow> counts)"

definition compute_outcome :: "'fr prims \<Rightarrow> resolver_view \<Rightarrow> 'fr leaf_entry list \<Rightarrow> bool \<times> bool list" where
  "compute_outcome E view entries =
     (let counts = foldl (count_entry E (rw_class_set view)) (replicate (length (rw_class_set view)) 0) entries;
          b_per_class = map (\<lambda>(c, t). t \<le> c) (zip counts (rw_class_thresholds view))
      in (list_all (\<lambda>x. x) b_per_class, b_per_class))"

definition hash_imt_leaf :: "'fr prims \<Rightarrow> imt_leaf \<Rightarrow> 'fr" where
  "hash_imt_leaf E l =
     poseidon4 E (fr_from_be_bytes E (il_value l)) (fr_of E (ucast (il_next_index l)))
       (fr_from_be_bytes E (il_next_value l)) (fr_of E 0)"

definition membership_fr :: "'fr prims \<Rightarrow> imt_membership \<Rightarrow> 'fr imt_membership_fr" where
  "membership_fr E m =
     \<lparr>mf_leaf_hash = hash_imt_leaf E (im_leaf m), mf_leaf_index = im_leaf_index m,
      mf_next_index = il_next_index (im_leaf m),
      mf_next_value = fr_from_be_bytes E (il_next_value (im_leaf m)),
      mf_siblings = map (fr_from_be_bytes E) (ip_siblings (im_path m)),
      mf_indices = ip_indices (im_path m)\<rparr>"

definition resolution_public_of ::
    "'fr prims \<Rightarrow> resolver_view \<Rightarrow> bool \<Rightarrow> bool list \<Rightarrow> 'fr resolution_public_inputs" where
  "resolution_public_of E view b b_per_class =
     \<lparr>rp_predicate_hash = fr_from_be_bytes E (rw_predicate_hash view),
      rp_r_root = fr_from_be_bytes E (rw_r_root view),
      rp_running_root = fr_from_be_bytes E (rw_running_root view),
      rp_leaf_count = fr_of E (rw_leaf_count view),
      rp_class_set = map (\<lambda>c. fr_of E (ucast c)) (rw_class_set view),
      rp_class_thresholds = map (fr_of E) (rw_class_thresholds view),
      rp_b = fr_of E (of_bool b), rp_b_per_class = map (\<lambda>x. fr_of E (of_bool x)) b_per_class,
      rp_class_index = fr_of E (ucast (rw_class_index view))\<rparr>"

definition build_submission ::
    "'fr prims \<Rightarrow> 'fr proof_backend \<Rightarrow> resolver_view \<Rightarrow> 'fr leaf_entry list
     \<Rightarrow> (resolver_error, 'fr resolution_submission) result" where
  "build_submission E PB view entries =
     (case compute_outcome E view entries of
        (b, b_per_class) \<Rightarrow>
          and_then (map_err ResImt (insert_seq (imt_insert E) (imt_new E)
                      (map (\<lambda>(leaf, _, _). fr_to_be_bytes E leaf) entries))) (\<lambda>imt.
          and_then (try_map (\<lambda>(leaf, _, _). ok_or RootMismatch
                      (map_option (membership_fr E) (membership E imt (fr_to_be_bytes E leaf)))) entries)
            (\<lambda>paths.
              (let public = resolution_public_of E view b b_per_class;
                   private = \<lparr>rv_leaves = map fst entries, rv_imt_membership_paths = paths,
                              rv_witness_pairs = map snd entries\<rparr>
               in and_then (map_err ResProof (generate_resolution_proof PB public private)) (\<lambda>proof.
                    Inr \<lparr>rs_public_inputs = public, rs_proof_bytes = proof\<rparr>)))))"

definition resolver_resolve ::
    "'fr prims \<Rightarrow> 'fr proof_backend \<Rightarrow> 'c blob_carrier \<Rightarrow> 'c \<Rightarrow> resolver_view
     \<Rightarrow> (resolver_error, 'fr resolution_submission) result" where
  "resolver_resolve E PB BC c view =
     and_then (reconstruct E BC c view) (build_submission E PB view)"

end
