(* ===== verification/Resolution.thy ===== *)
theory Resolution
  imports Resolver Registry_Ledger Adapters
begin

text \<open>
  The resolver against the registry: what \<open>src/resolver/core.rs\<close> rebuilds from the blobs is the
  list of records of the active batches, the outcome it computes is the count of these records per
  class against the thresholds, and the submission it builds passes every check of
  \<open>PetitionRegistry::resolve\<close>.
\<close>

section \<open>The outcome is the count of the records\<close>

lemma bisect_step:
  "1 < n \<Longrightarrow> bisect xs x base n = bisect xs x (if x < xs ! (base + n div 2) then base else base + n div 2) (n - n div 2)"
  "n \<le> 1 \<Longrightarrow> bisect xs x base n = base"
  by (simp_all add: bisect.simps [of xs x base n] Let_def)

lemma bisect_range: "1 \<le> n \<Longrightarrow> base \<le> bisect xs x base n \<and> bisect xs x base n < base + n"
proof (induction xs x base n rule: bisect.induct)
  case (1 xs x base n)
  show ?case
  proof (cases "1 < n")
    case True
    define base' where "base' = (if x < xs ! (base + n div 2) then base else base + n div 2)"
    have "base' \<le> bisect xs x base' (n - n div 2) \<and> bisect xs x base' (n - n div 2) < base' + (n - n div 2)"
      using 1(1) [OF True refl refl] True by (simp add: base'_def)
    moreover have "base \<le> base'" "base' \<le> base + n div 2" by (simp_all add: base'_def)
    moreover have "bisect xs x base n = bisect xs x base' (n - n div 2)" unfolding base'_def by (rule bisect_step(1) [OF True])
    ultimately show ?thesis by linarith
  qed (use 1(2) in \<open>simp add: bisect_step\<close>)
qed

lemma bisect_finds:
  "sorted_wrt (<) xs \<Longrightarrow> base \<le> k \<Longrightarrow> k < base + n \<Longrightarrow> base + n \<le> length xs \<Longrightarrow> x = xs ! k \<Longrightarrow>
   bisect xs x base n = k"
proof (induction xs x base n rule: bisect.induct)
  case (1 xs x base n)
  show ?case
  proof (cases "1 < n")
    case True
    define base' where "base' = (if x < xs ! (base + n div 2) then base else base + n div 2)"
    have h: "n div 2 \<le> n - n div 2" "n div 2 < n" using True by auto
    have lt: "xs ! i < xs ! j" if "i < j" "j < length xs" for i j
      using 1(2) that by (simp add: sorted_wrt_iff_nth_less)
    have "x < xs ! (base + n div 2) \<longleftrightarrow> k < base + n div 2"
    proof (cases "k < base + n div 2")
      case True
      then show ?thesis using lt [OF True] 1(5,6) h by simp
    next
      case False
      then have "k = base + n div 2 \<or> base + n div 2 < k" by auto
      then show ?thesis using lt [of "base + n div 2" k] 1(4-6) False by auto
    qed
    then have "base' \<le> k" "k < base' + (n - n div 2)" "base' + (n - n div 2) \<le> length xs"
      using 1(3-5) h by (auto simp: base'_def)
    then have "bisect xs x base' (n - n div 2) = k"
      using 1(1) [OF True refl refl 1(2)] 1(6) by (simp add: base'_def)
    then show ?thesis using bisect_step(1) [OF True, of xs x base] base'_def by metis
  qed (use 1(3,4) in \<open>simp add: bisect_step\<close>)
qed

lemma binary_search_None:
  assumes "x \<notin> set xs"
  shows "binary_search xs x = None"
proof (cases "xs = []")
  case False
  then have "bisect xs x 0 (length xs) < length xs" using bisect_range [of "length xs" 0 xs x] by (simp add: Suc_le_eq)
  then have "xs ! bisect xs x 0 (length xs) \<noteq> x" using assms nth_mem by metis
  with False show ?thesis by (simp add: binary_search_def Let_def)
qed (simp add: binary_search_def)

lemma binary_search_Some:
  assumes "sorted_wrt (<) xs" and "i < length xs"
  shows "binary_search xs (xs ! i) = Some i"
  using bisect_finds [OF assms(1), of 0 i "length xs"] assms(2) by (auto simp: binary_search_def Let_def)

lemma class_tag_bytes:
  assumes "field_laws E"
  shows "from_be [fr_to_be_bytes E (fr_of E (ucast (c :: class_tag))) ! 30,
                  fr_to_be_bytes E (fr_of E (ucast c)) ! 31] = c"
proof -
  let ?b = "fr_to_be_bytes E (fr_of E (ucast c))"
  have l: "length ?b = 32" using assms by simp
  have "drop 30 ?b = [?b ! 30, ?b ! 31]" using l by (simp add: Cons_nth_drop_Suc [symmetric])
  then have "?b = take 30 ?b @ [?b ! 30, ?b ! 31]" by (metis append_take_drop_id)
  then have "be_nat ?b = be_nat (take 30 ?b) * 65536 + be_nat [?b ! 30, ?b ! 31]"
    using be_nat_append [of "take 30 ?b" "[?b ! 30, ?b ! 31]"] by simp
  moreover have "be_nat ?b = unat c"
    using fr_val_of [OF assms, of "ucast c"] by (simp add: fr_val_def)
  moreover have "unat c < 65536" using unat_bound [of c] by simp
  ultimately have "be_nat [?b ! 30, ?b ! 31] = unat c" by (cases "be_nat (take 30 ?b)") auto
  then show ?thesis by (simp add: from_be_def)
qed

lemma count_entry_of:
  "field_laws E \<Longrightarrow> count_entry E cs counts (entry_of E r) =
     (case binary_search cs (re_class_tag r) of Some i \<Rightarrow> counts[i := counts ! i + 1] | None \<Rightarrow> counts)"
  by (simp add: count_entry_def entry_of_def Let_def class_tag_bytes)

definition class_count :: "class_tag \<Rightarrow> record_entry list \<Rightarrow> nat" where
  "class_count c rs = length (filter (\<lambda>r. re_class_tag r = c) rs)"

lemma counts_fold:
  assumes "field_laws E" and "sorted_wrt (<) cs" and "length counts = length cs"
  shows "foldl (count_entry E cs) counts (map (entry_of E) rs) =
    map (\<lambda>i. counts ! i + word_of_nat (class_count (cs ! i) rs)) [0..<length cs]"
  using assms(3)
proof (induction rs arbitrary: counts)
  case Nil
  then show ?case by (simp add: class_count_def map_nth flip: Nil)
next
  case (Cons r rs)
  let ?c = "count_entry E cs counts (entry_of E r)"
  have c: "length ?c = length cs \<and> (\<forall>i < length cs. ?c ! i = counts ! i + (if re_class_tag r = cs ! i then 1 else 0))"
  proof (cases "re_class_tag r \<in> set cs")
    case True
    then obtain k where k: "k < length cs" "re_class_tag r = cs ! k" by (auto simp: in_set_conv_nth)
    moreover have "distinct cs" using assms(2) by (simp add: strict_sorted_iff)
    ultimately show ?thesis using Cons.prems assms(2)
      by (simp add: count_entry_of assms(1) binary_search_Some nth_list_update nth_eq_iff_index_eq)
  next
    case False
    then show ?thesis using Cons.prems by (auto simp: count_entry_of assms(1) binary_search_None)
  qed
  then show ?case using Cons.IH [of ?c] by (auto simp: class_count_def algebra_simps)
qed

text \<open>The specification: a class passes when its records reach its threshold, the petition when
  every class does.\<close>

definition outcome_spec :: "class_tag list \<Rightarrow> u64 list \<Rightarrow> record_entry list \<Rightarrow> bool \<times> bool list" where
  "outcome_spec cs ths rs =
     (let per = map (\<lambda>(c, t). unat t \<le> class_count c rs) (zip cs ths) in (list_all (\<lambda>x. x) per, per))"

lemma compute_outcome_spec:
  assumes "field_laws E" and "sorted_wrt (<) (rw_class_set view)"
    and "length (rw_class_thresholds view) = length (rw_class_set view)" and "length rs < 2 ^ 64"
  shows "compute_outcome E view (map (entry_of E) rs) =
    outcome_spec (rw_class_set view) (rw_class_thresholds view) rs"
proof -
  let ?cs = "rw_class_set view" and ?ts = "rw_class_thresholds view"
  have le: "class_count c rs < 2 ^ 64" for c
    unfolding class_count_def by (rule le_less_trans [OF length_filter_le assms(4)])
  have "foldl (count_entry E ?cs) (replicate (length ?cs) 0) (map (entry_of E) rs) =
      map (\<lambda>c. word_of_nat (class_count c rs)) ?cs"
    using counts_fold [OF assms(1,2), of "replicate (length ?cs) 0" rs] by (auto intro: nth_equalityI)
  moreover have "map (\<lambda>(c, t). t \<le> c) (zip (map (\<lambda>c. word_of_nat (class_count c rs) :: u64) ?cs) ?ts) =
      map (\<lambda>(c, t). unat t \<le> class_count c rs) (zip ?cs ?ts)"
    using le by (auto simp: zip_map1 word_le_nat_alt)
  ultimately show ?thesis by (simp add: compute_outcome_def outcome_spec_def Let_def)
qed

section \<open>Reconstruction\<close>

lemma reconstruct_record_fold:
  "try_fold (reconstruct_record E) (t, es) rs =
     and_then (map_err ResImt (insert_seq (imt_insert E) t (map (leaf_bytes E) rs)))
       (\<lambda>t'. Inr (t', es @ map (entry_of E) rs))"
proof (induction rs arbitrary: t es)
  case (Cons r rs)
  have l: "fr_to_be_bytes E (fst (entry_of E r)) = leaf_bytes E r"
    by (simp add: entry_of_def leaf_bytes_def record_leaf_def Let_def)
  have "reconstruct_record E (t, es) r =
      and_then (map_err ResImt (imt_insert E t (leaf_bytes E r))) (\<lambda>(_, t'). Inr (t', es @ [entry_of E r]))"
    by (simp add: reconstruct_record_def l)
  then show ?case
    by (cases "imt_insert E t (leaf_bytes E r)") (auto simp: Cons.IH insert_seq_def)
qed (simp add: insert_seq_def)

lemma reconstruct_batch_fold:
  assumes "\<And>k. k < length rss \<Longrightarrow> bc_fetch_records BC c (vhs ! k) = Inr (rss ! k)" and "length vhs = length rss"
  shows "try_fold (reconstruct_batch E BC c) (t, es) vhs =
     and_then (map_err ResImt (insert_seq (imt_insert E) t (map (leaf_bytes E) (concat rss))))
       (\<lambda>t'. Inr (t', es @ map (entry_of E) (concat rss)))"
  using assms
proof (induction rss arbitrary: vhs t es)
  case (Cons rs rss)
  then obtain vh vhs' where v: "vhs = vh # vhs'" by (cases vhs) auto
  have "bc_fetch_records BC c vh = Inr rs" using Cons.prems(1) [of 0] v by simp
  moreover have "bc_fetch_records BC c (vhs' ! k) = Inr (rss ! k)" if "k < length rss" for k
    using Cons.prems(1) [of "Suc k"] that v by simp
  ultimately show ?case
    using Cons.IH [of vhs'] Cons.prems(2) v
    by (cases "insert_seq (imt_insert E) t (map (leaf_bytes E) rs)")
       (simp_all add: reconstruct_batch_def reconstruct_record_fold insert_seq_append)
qed (simp add: insert_seq_def)

text \<open>What the registry shows a resolver about a petition.\<close>

definition resolver_view_of :: "'fr petition_entry \<Rightarrow> resolver_view" where
  "resolver_view_of e =
     (let r = pe_record e in
      \<lparr>rw_petition_id = pr_petition_id r, rw_r_root = pr_r_root r, rw_predicate_hash = pr_predicate_hash r,
       rw_running_root = pr_running_root r, rw_leaf_count = pr_leaf_count r, rw_class_set = pr_class_set r,
       rw_class_thresholds = pr_class_thresholds r, rw_class_index = pr_class_index r,
       rw_active_batch_versioned_hashes =
         map br_batch_versioned_hash (filter (\<lambda>b. br_state b = Active) (pe_batches e))\<rparr>)"

lemma active_filter:
  assumes "active_prefix bs n"
  shows "filter (\<lambda>b. br_state b = Active) bs = take n bs"
proof -
  have "filter (\<lambda>b. br_state b = Active) (drop n bs) = []"
    using assms by (auto simp: active_prefix_def filter_empty_conv in_set_conv_nth)
  then show ?thesis
    using take_active [OF assms order_refl] filter_append [of "\<lambda>b. br_state b = Active" "take n bs" "drop n bs"] by simp
qed

lemma replay_leaves:
  "replay E rs = Inr (t, u) \<Longrightarrow> insert_seq (imt_insert E) (imt_new E) (map (leaf_bytes E) rs) = Inr t"
  unfolding replay_def replay_fold_seq by (simp add: leaf_bytes_def [abs_def])

lemma reconstruct_ledger:
  assumes "field_laws E" and ok: "ledger_ok E e rss" and "rss \<noteq> []" and "state_of e \<noteq> Unresolved"
    and "carrier_serves P c (pe_batches e) rss"
  shows "reconstruct E (pt_blob P) c (resolver_view_of e) = Inr (map (entry_of E) (concat rss))"
proof -
  let ?vhs = "rw_active_batch_versioned_hashes (resolver_view_of e)"
  have pre: "active_prefix (pe_batches e) (length rss)" using ok by (simp add: ledger_ok_def)
  then have n: "length rss \<le> length (pe_batches e)" by (simp add: active_prefix_def)
  have v: "?vhs = map br_batch_versioned_hash (take (length rss) (pe_batches e))"
    by (simp add: resolver_view_of_def Let_def active_filter [OF pre])
  have ne: "?vhs \<noteq> []" using v n assms(3) by (cases rss) auto
  have rep: "replay E (concat rss) = Inr (pe_running_imt e, pe_identity_tag_imt e)"
    "pr_running_root (pe_record e) = imt_root E (pe_running_imt e)"
    "unat (pr_leaf_count (pe_record e)) = length (concat rss)"
    using ok assms(4) by (simp_all add: ledger_ok_def)
  have "try_fold (reconstruct_batch E (pt_blob P) c) (imt_new E, []) ?vhs =
      Inr (pe_running_imt e, map (entry_of E) (concat rss))"
    using reconstruct_batch_fold [of rss "pt_blob P" c ?vhs E "imt_new E" "[]"] assms(5) n
    by (simp add: v carrier_serves_def replay_leaves [OF rep(1)])
  moreover have "word_of_nat (length (concat rss)) = pr_leaf_count (pe_record e)"
    unfolding rep(3) [symmetric] by simp
  ultimately show ?thesis
    using ne rep(2) by (simp add: reconstruct_def) (simp add: resolver_view_of_def Let_def)
qed

section \<open>The resolver's submission\<close>

lemma build_submission_ok:
  assumes "field_laws E" and "replay E rs = Inr (t, u)" and "rs \<noteq> []"
  shows "\<exists>pf. build_submission E (mock_backend E) view (map (entry_of E) rs) =
      Inr \<lparr>rs_public_inputs = (case compute_outcome E view (map (entry_of E) rs) of
             (b, per) \<Rightarrow> resolution_public_of E view b per), rs_proof_bytes = pf\<rparr>
    \<and> (digest_laws E \<longrightarrow> verify_resolution_proof (mock_backend E) pf
          (case compute_outcome E view (map (entry_of E) rs) of (b, per) \<Rightarrow> resolution_public_of E view b per) = Inr ())"
proof -
  obtain b per where o: "compute_outcome E view (map (entry_of E) rs) = (b, per)" by fastforce
  let ?f = "\<lambda>(leaf, _, _). ok_or RootMismatch (map_option (membership_fr E) (membership E t (fr_to_be_bytes E leaf)))"
  have leaf: "map (\<lambda>(leaf, _, _). fr_to_be_bytes E leaf) (map (entry_of E) rs) = map (leaf_bytes E) rs"
    by (simp add: entry_of_def leaf_bytes_def record_leaf_def Let_def)
  have "\<exists>y. ?f x = Inr y" if "x \<in> set (map (entry_of E) rs)" for x
  proof -
    from that obtain r where r: "r \<in> set rs" "x = entry_of E r" by auto
    then have "fst x \<in> set (imt_values t)"
      using replay_facts(3) [OF assms(1,2)] by (auto simp: entry_of_def record_leaf_def Let_def)
    with membership_present [OF assms(1) replay_facts(1) [OF assms(1,2)], of "fr_to_be_bytes E (fst x)"] assms(1)
    show ?thesis by (cases x) auto
  qed
  from try_map_total [of "map (entry_of E) rs" ?f, OF this] obtain paths where
    p: "try_map ?f (map (entry_of E) rs) = Inr paths" "length paths = length rs" by auto
  let ?pub = "resolution_public_of E view b per"
  have "build_submission E (mock_backend E) view (map (entry_of E) rs) =
      Inr \<lparr>rs_public_inputs = ?pub, rs_proof_bytes = resolution_digest E ?pub @ ascii ''resolution-mock''\<rparr>"
    using assms(3) p unfolding build_submission_def o prod.case leaf replay_leaves [OF assms(2)]
    by (simp add: Let_def mock_backend_def mock_generate_resolution_proof_def)
  then show ?thesis unfolding o
    by (auto simp: mock_backend_def mock_verify_resolution_proof_def)
qed

lemma resolution_matches_view:
  assumes "field_laws E" and "terms_ok E r" and "r = pe_record e"
    and "fr_to_be_bytes E (fr_from_be_bytes E (pr_r_root r)) = pr_r_root r"
    and "pr_running_root r = fr_to_be_bytes E x" and "length per = length (pr_class_set r)"
  shows "resolution_matches E r (resolution_public_of E (resolver_view_of e) b per) = Inr ()"
proof -
  define p where "p = resolution_public_of E (resolver_view_of e) b per"
  have p: "rp_predicate_hash p = fr_from_be_bytes E (pr_predicate_hash r)" "rp_r_root p = fr_from_be_bytes E (pr_r_root r)"
    "rp_running_root p = x" "rp_leaf_count p = fr_of E (pr_leaf_count r)"
    "rp_class_set p = map (\<lambda>c. fr_of E (ucast c)) (pr_class_set r)"
    "rp_class_thresholds p = map (fr_of E) (pr_class_thresholds r)" "length (rp_b_per_class p) = length (pr_class_set r)"
    using assms by (simp_all add: p_def resolution_public_of_def resolver_view_of_def Let_def)
  have "(case ic of (i, c) \<Rightarrow> if rp_class_set p ! i \<noteq> fr_of E (ucast c) then Inl ResolutionStateMismatch
      else if rp_class_thresholds p ! i \<noteq> fr_of E (pr_class_thresholds r ! i) then Inl ResolutionStateMismatch
      else Inr ()) = Inr ()" if "ic \<in> set (enumerated (pr_class_set r))" for ic
  proof -
    obtain i c where "ic = (i, c)" by fastforce
    with that assms(2) show ?thesis by (simp add: p set_enumerated terms_ok_def)
  qed
  then have loop: "try_fold (\<lambda>_ (i, c). if rp_class_set p ! i \<noteq> fr_of E (ucast c) then Inl ResolutionStateMismatch
      else if rp_class_thresholds p ! i \<noteq> fr_of E (pr_class_thresholds r ! i) then Inl ResolutionStateMismatch
      else Inr ()) () (enumerated (pr_class_set r)) = Inr ()" by (simp only: try_fold_unit) blast
  have "length (rp_class_set p) = length (pr_class_set r)" "length (rp_class_thresholds p) = length (pr_class_thresholds r)"
    by (simp_all add: p)
  then show ?thesis
    unfolding p_def [symmetric] using assms(1,2,4,5) loop
    by (simp add: resolution_matches_def p(1-4,7) terms_ok_def)
qed

lemma resolved_bits:
  assumes "field_laws E"
  shows "(fr_of E (of_bool b) \<noteq> fr_of E 0) = b" "map (\<lambda>x. x \<noteq> fr_of E 0) (map (\<lambda>x. fr_of E (of_bool x)) bs) = bs"
  using assms by (simp_all add: fr_of_inject o_def of_bool_def map_idI)

section \<open>From the ledger to the registry\<close>

lemma resolve_accepts:
  assumes E: "field_laws E" "digest_laws E" and e: "rg_petitions reg pid = Some e"
    and st: "state_of (stepped (now reg) e) = DisputeWindow" and t: "terms_ok E (pe_record e)"
    and d: "checked_add (close_of e) RESOLUTION_DEADLINE_BLOCKS = Some d" "d \<le> now reg"
    and ok: "ledger_ok E (stepped (now reg) e) rss" and ne: "rss \<noteq> []"
    and serves: "carrier_serves P (rg_blob_carrier reg) (pe_batches e) rss"
    and pb: "pt_proof P = mock_backend E"
    and rr: "fr_to_be_bytes E (fr_from_be_bytes E (pr_r_root (pe_record e))) = pr_r_root (pe_record e)"
    and len: "length (pr_bounty (pe_record e)) = 32"
  shows "\<exists>sub ev paid reg'. resolver_resolve E (pt_proof P) (pt_blob P) (rg_blob_carrier reg) (resolver_view_of e) = Inr sub
    \<and> resolve E P reg pid resolver sub = (Inr (ev, paid), reg')
    \<and> (pse_b ev, pse_b_per_class ev) =
        outcome_spec (pr_class_set (pe_record e)) (pr_class_thresholds (pe_record e)) (concat rss)
    \<and> bpd_recipient paid = resolver \<and> unat (bpd_amount paid) = be_nat (pr_bounty (pe_record e))"
proof -
  let ?e = "stepped (now reg) e" and ?rs = "concat rss"
  have view: "resolver_view_of ?e = resolver_view_of e" by (simp add: resolver_view_of_def Let_def)
  have rep: "replay E ?rs = Inr (pe_running_imt e, pe_identity_tag_imt e)"
    and root: "pr_running_root (pe_record e) = imt_root E (pe_running_imt e)"
    and shape: "\<forall>k < length rss. 1 \<le> length (rss ! k)"
    using ok st by (simp_all add: ledger_ok_def batch_shape_def)
  have rs: "?rs \<noteq> []" using length_le_concat [OF shape] ne by (cases "?rs = []") auto
  have rec: "reconstruct E (pt_blob P) (rg_blob_carrier reg) (resolver_view_of e) = Inr (map (entry_of E) ?rs)"
    using reconstruct_ledger [OF E(1) ok ne _] serves st by (simp add: view)
  obtain b per where o: "outcome_spec (pr_class_set (pe_record e)) (pr_class_thresholds (pe_record e)) ?rs = (b, per)"
    by fastforce
  have o': "compute_outcome E (resolver_view_of e) (map (entry_of E) ?rs) = (b, per)"
    using compute_outcome_spec [OF E(1), of "resolver_view_of e" ?rs] t replay_facts(5) [OF E(1) rep] o
    by (simp add: resolver_view_of_def terms_ok_def Let_def)
  have len_per: "length per = length (pr_class_set (pe_record e))"
    using o t by (auto simp: outcome_spec_def Let_def terms_ok_def)
  let ?pub = "resolution_public_of E (resolver_view_of e) b per"
  from build_submission_ok [OF E(1) rep rs, of "resolver_view_of e"] o' E(2) obtain pf where
    sub: "build_submission E (mock_backend E) (resolver_view_of e) (map (entry_of E) ?rs) =
      Inr \<lparr>rs_public_inputs = ?pub, rs_proof_bytes = pf\<rparr>"
    "verify_resolution_proof (mock_backend E) pf ?pub = Inr ()" by auto
  let ?sub = "\<lparr>rs_public_inputs = ?pub, rs_proof_bytes = pf\<rparr>"
  have t': "terms_ok E (pe_record ?e)" using t terms_ok_cong [OF petition_terms_stepped] by blast
  have m: "resolution_matches E (pe_record ?e) ?pub = Inr ()"
    using resolution_matches_view [OF E(1) t' refl, of "root_fr (pe_running_imt e)" per b] rr root len_per
    by (simp add: view imt_root_def)
  have c: "resolve_checks E P (put_petition pid ?e reg) (state_of ?e) pid ?sub = Inr ?e"
    using st d m sub(2) pb by (simp add: resolve_checks_def)
  obtain x where x: "u256_to_u128 (pr_bounty (pe_record e)) = Inr x"
    using t by (auto simp: terms_ok_def is_ok_iff)
  have bits: "rp_b ?pub = fr_of E (of_bool b)" "rp_b_per_class ?pub = map (\<lambda>x. fr_of E (of_bool x)) per"
    by (simp_all add: resolution_public_of_def)
  have rs: "resolver_resolve E (pt_proof P) (pt_blob P) (rg_blob_carrier reg) (resolver_view_of e) = Inr ?sub"
    using rec sub(1) pb by (simp add: resolver_resolve_def)
  let ?e' = "resolved_entry E ?sub ?e"
  have e': "pr_b (pe_record ?e') = b" "pr_b_per_class (pe_record ?e') = per" "pr_bounty (pe_record ?e') = pr_bounty (pe_record e)"
    using resolved_bits [OF E(1)] by (simp_all add: resolved_entry_def bits del: map_map)
  have res: "resolve E P reg pid resolver ?sub = (Inr (\<lparr>pse_petition_id = pid, pse_b = b, pse_b_per_class = per\<rparr>,
      \<lparr>bpd_petition_id = pid, bpd_recipient = resolver, bpd_amount = x\<rparr>), put_petition pid ?e' reg)"
    using e c x unfolding resolve_def by (simp add: Let_def e')
  show ?thesis
    by (intro exI, rule conjI [OF rs], rule conjI [OF res]) (simp add: o u256_to_u128_value [OF len x])
qed

end
