(* ===== verification/Sample_Run.thy ===== *)
theory Sample_Run
  imports Sample Signing Disputes Resolution
begin

text \<open>
  One run of the whole system on the sample primitives: a petition is registered, a relayer batches
  two submissions, the registry accepts the batch, the blob carrier serves it, and the clock moves
  past the signing window, to a dispute and to a resolution. The witnesses of the properties refer
  to the states of this run.
\<close>

section \<open>Primitives and services\<close>

definition sample_lean :: "bytes32 list lean_imt" where
  "sample_lean = \<lparr>li_new = [], li_size = length, li_insert = (\<lambda>t b. t @ [b]),
     li_root = (\<lambda>t. if t = [] then None else Some (last t)), li_generate_proof = (\<lambda>t i. Inr ([], i))\<rparr>"

definition sample_ports :: "(sample_fr, in_memory_blob, bytes32 list in_memory_ri) ports" where
  "sample_ports = \<lparr>pt_proof = mock_backend sample, pt_blob = in_memory_blob_carrier sample,
     pt_ri = in_memory_ri_layer sample_lean\<rparr>"

definition sample_global :: global_state where
  "sample_global = \<lparr>gs_s = 0, gs_alpha = 1, gs_alpha_min = 1, gs_alpha_max = 10, gs_srs_hash = zeros 32,
     gs_chain_id = 1, gs_n = 4\<rparr>"

definition sample_reg0 :: "(sample_fr, in_memory_blob, bytes32 list in_memory_ri) registry" where
  "sample_reg0 = registry_new sample (zeros 20) sample_global 300000 (imr_new sample_lean) imb_new"

section \<open>A petition\<close>

definition sample_predicate :: predicate_def where
  "sample_predicate = \<lparr>pd_tuples = [\<lparr>tp_claim_index = 0, tp_operand = zeros 31 @ [1], tp_type_tag = Int64, tp_comparator = Eq\<rparr>],
     pd_ops = [\<lparr>op_code = PushTuple, op_operand = 0\<rparr>]\<rparr>"

definition sample_draft :: petition_draft where
  "sample_draft = \<lparr>dr_organizer = replicate 20 1, dr_r_root = zeros 32, dr_predicate_def = sample_predicate,
     dr_salt = zeros 32, dr_class_set = [1, 2], dr_class_thresholds = [1, 1], dr_class_index = 0,
     dr_close_at_block = 300100, dr_bounty = u256_from_u64 1000\<rparr>"

lemma nth_zeros_snoc: "(zeros 31 @ [x]) ! 31 = x" "(zeros 31 @ [x]) ! 30 = 0"
  by (simp_all add: zeros_def nth_append)

lemma sample_validate: "validate sample_predicate = Inr ()"
  by (simp add: validate_def sample_predicate_def validate_op_def predicate_caps is_int64_in_range_def zeros_def
      list_all_iff)

lemma sample_operand: "find_class_binding_operand sample_predicate 0 = Inr 1"
  by (simp add: find_class_binding_operand_def sample_predicate_def enumerated_def evaluate_class_binding_taint_def
      taint_op_def nth_zeros_snoc from_be_def list_all_zero_iff Let_def)

lemma sample_structure: "register_structure sample_global sample_draft = Inr ()"
  using sample_validate sample_operand by (simp add: register_structure_def sample_draft_def sample_global_def)

lemma sample_timing: "register_timing sample_ports sample_reg0 sample_draft = Inr ()"
  by (simp add: register_timing_def sample_ports_def in_memory_ri_layer_def sample_reg0_def registry_new_def sample_draft_def
      imr_new_def imr_root_def imr_root_first_seen_at_def or_insert_def sample_lean_def now_def block_number_def Let_def)

lemma sample_bounty: "register_bounty sample_global sample_draft = Inr 1000"
  by (simp add: register_bounty_def sample_global_def sample_draft_def checked_add_def checked_mul_def op_count_def
      sample_predicate_def u256_round_trip Let_def)

definition sample_ids :: "u8 list \<times> petition_id \<times> bytes32" where
  "sample_ids = (case register_identity sample sample_reg0 sample_draft of Inr x \<Rightarrow> x | Inl _ \<Rightarrow> ([], [], []))"

definition sample_pid :: petition_id where "sample_pid = fst (snd sample_ids)"

lemma sample_identity:
  "register_identity sample sample_reg0 sample_draft = Inr (fst sample_ids, sample_pid, snd (snd sample_ids))"
proof -
  have "serialized_len sample_predicate = 39" by (simp add: serialized_len_def sample_predicate_def)
  then have "encode sample_predicate = Inr (word_of_nat (length (pd_tuples sample_predicate))
      # concat (map encode_tuple (pd_tuples sample_predicate)) @ word_of_nat (length (pd_ops sample_predicate))
      # concat (map encode_op (pd_ops sample_predicate)))" (is "_ = Inr ?b")
    using sample_validate by (simp add: encode_def predicate_caps)
  moreover have "length ?b = 39" by (simp add: sample_predicate_def encode_tuple_def encode_op_def)
  ultimately have "\<exists>x. register_identity sample sample_reg0 sample_draft = Inr x"
    by (simp add: register_identity_def sample_draft_def sample_reg0_def registry_new_def sample_global_def
        FSRT_SLOT_COUNT_def canonical_scalars_def predicate_caps Let_def)
  then show ?thesis by (auto simp: sample_ids_def sample_pid_def)
qed

definition sample_entry :: "sample_fr petition_entry" where
  "sample_entry = stepped 300000 (new_entry sample sample_reg0 sample_draft (fst sample_ids) sample_pid (snd (snd sample_ids)))"

definition sample_reg1 :: "(sample_fr, in_memory_blob, bytes32 list in_memory_ri) registry" where
  "sample_reg1 = snd (register sample sample_ports sample_reg0 sample_draft)"

lemma sample_now: "now sample_reg0 = 300000"
  by (simp add: sample_reg0_def registry_new_def now_def block_number_def)

lemma sample_register:
  "\<exists>p ev. register sample sample_ports sample_reg0 sample_draft = (Inr (p, ev), sample_reg1) \<and> rgp_petition_id p = sample_pid"
  "rg_petitions sample_reg1 = [sample_pid \<mapsto> sample_entry]" "now sample_reg1 = 300000"
  "rg_blob_carrier sample_reg1 = imb_new"
proof -
  have g: "rg_global sample_reg0 = sample_global" by (simp add: sample_reg0_def registry_new_def)
  have "\<not> (\<exists>err. fst (register sample sample_ports sample_reg0 sample_draft) = Inl err)"
    using sample_structure sample_timing sample_identity sample_bounty
    by (simp add: register_def g sample_global_def checked_add_def)
  then show 1: "\<exists>p ev. register sample sample_ports sample_reg0 sample_draft = (Inr (p, ev), sample_reg1) \<and> rgp_petition_id p = sample_pid"
    using register_outcome [of sample sample_ports sample_reg0 sample_draft _ sample_reg1] sample_identity
    by (cases "register sample sample_ports sample_reg0 sample_draft") (auto simp: sample_reg1_def)
  then obtain s' where r: "sample_reg1 = put_petition sample_pid sample_entry (sample_reg0\<lparr>rg_global := (rg_global sample_reg0)\<lparr>gs_s := s'\<rparr>\<rparr>)"
    using register_outcome [of sample sample_ports sample_reg0 sample_draft _ sample_reg1] sample_identity
    by (auto simp: sample_entry_def sample_now)
  show "rg_petitions sample_reg1 = [sample_pid \<mapsto> sample_entry]" "now sample_reg1 = 300000" "rg_blob_carrier sample_reg1 = imb_new"
    unfolding r by (simp_all add: now_def block_number_def sample_reg0_def registry_new_def)
qed

lemma sample_reachable1: "ledger_reachable sample sample_ports (sample_reg1, \<lambda>_. [])"
proof -
  from sample_register(1) obtain p ev where r: "register sample sample_ports sample_reg0 sample_draft = (Inr (p, ev), sample_reg1)" by blast
  have "ledger_reachable sample sample_ports (sample_reg0, \<lambda>_. [])"
    unfolding sample_reg0_def by (rule ledger_reachable.L_init)
  from ledger_reachable.L_step [OF this ledger_step.L_register [OF r]] show ?thesis
    by (simp add: fun_upd_idem)
qed

section \<open>A batch\<close>

definition sample_sub :: "nat \<Rightarrow> class_tag \<Rightarrow> signer_submission" where
  "sample_sub n c =
     (let s = \<lparr>ss_petition_id = sample_pid, ss_r_root = zeros 32, ss_predicate_hash = snd (snd sample_ids), ss_class_index = 0,
               ss_slot = 0, ss_nullifier = be_bytes 32 n, ss_identity_tag = be_bytes 32 (n + 10), ss_class_tag = c,
               ss_proof_bytes = []\<rparr>
      in s\<lparr>ss_proof_bytes := signer_digest sample (submission_public sample s)\<rparr>)"

abbreviation sample_subs :: "signer_submission list" where
  "sample_subs \<equiv> [sample_sub 5 1, sample_sub 6 2]"

lemma sample_sub_simps [simp]:
  "ss_petition_id (sample_sub n c) = sample_pid" "ss_class_tag (sample_sub n c) = c"
  "ss_nullifier (sample_sub n c) = be_bytes 32 n" "ss_identity_tag (sample_sub n c) = be_bytes 32 (n + 10)"
  by (simp_all add: sample_sub_def Let_def)

lemma sample_entry_facts:
  "state_of sample_entry = SigningOpen" "pr_class_set (pe_record sample_entry) = [1, 2]"
  "pr_class_thresholds (pe_record sample_entry) = [1, 1]"
  "pr_petition_id (pe_record sample_entry) = sample_pid" "pr_leaf_count (pe_record sample_entry) = 0"
  "pe_running_imt sample_entry = imt_new sample" "pe_identity_tag_imt sample_entry = imt_new sample"
  "close_of sample_entry = 300100" "pr_bounty (pe_record sample_entry) = u256_from_u64 1000"
  "pr_running_root (pe_record sample_entry) = imt_root sample (imt_new sample)"
  "pr_identity_tag_set_root (pe_record sample_entry) = imt_root sample (imt_new sample)"
  "pr_r_root (pe_record sample_entry) = zeros 32" "pe_batches sample_entry = []"
proof -
  have "state_of (stepped (now sample_reg0) (new_entry sample sample_reg0 sample_draft (fst sample_ids) sample_pid (snd (snd sample_ids)))) = SigningOpen"
    by (rule new_entry_state [OF sample_timing])
  then show "state_of sample_entry = SigningOpen" by (simp add: sample_entry_def sample_now)
qed (simp_all add: sample_entry_def new_entry_def sample_draft_def sample_reg0_def registry_new_def)

definition sample_view :: petition_view where
  "sample_view = relayer_view_of (zeros 32) sample_entry"

lemma sample_acceptable: "c \<in> {1, 2} \<Longrightarrow> acceptable sample (mock_backend sample) sample_view (sample_sub n c)"
proof -
  assume c: "c \<in> {1, 2}"
  have "submission_public sample (sample_sub n c) = submission_public sample (sample_sub n c\<lparr>ss_proof_bytes := []\<rparr>)"
    by (simp add: submission_public_def)
  moreover have "ss_proof_bytes (sample_sub n c) = signer_digest sample (submission_public sample (sample_sub n c\<lparr>ss_proof_bytes := []\<rparr>))"
    by (simp add: sample_sub_def Let_def)
  ultimately show ?thesis
    using c sample_digest_laws
    by (auto simp: acceptable_def mock_backend_def mock_verify_signer_proof_def sample_view_def relayer_view_of_def
        sample_entry_facts Let_def)
qed

lemma sample_scalars [simp]:
  "n < 2 ^ 64 \<Longrightarrow> fr_from_be_bytes sample (be_bytes 32 n) = word_of_nat n" "fr_of sample m = ucast m"
proof -
  assume "n < 2 ^ 64"
  then have "n mod 256 ^ 32 = n" by (intro mod_less) (rule less_trans, assumption, simp)
  then have "be_nat (be_bytes 32 n) = n" by (simp only: be_nat_be_bytes)
  then show "fr_from_be_bytes sample (be_bytes 32 n) = word_of_nat n"
    by (simp only: fr_from_be_bytes_def sample_def prims.select_convs)
qed (simp only: sample_def prims.select_convs)

lemma sample_poseidon: "poseidon_circom sample = sample_hash"
  by (simp only: sample_def prims.select_convs)

lemma sample_leaf: "n < 2 ^ 64 \<Longrightarrow> record_leaf sample (record_of (sample_sub n c)) = 54 + 3 * word_of_nat n + ucast (ucast c :: u64)"
  by (simp add: record_leaf_def record_of_def hash_leaf_def poseidon3_def domain_leaf_def sample_poseidon sample_hash_def)

definition sample_build where
  "sample_build = build_batch sample (mock_backend sample) (in_memory_blob_carrier sample) imb_new sample_view (rps_new sample) sample_subs"

lemma sample_built:
  "\<exists>sub ps pst c. sample_build = (Inr (sub, ps), pst, c)"
  unfolding sample_build_def
proof (rule build_batch_succeeds [OF sample_field_laws sample_digest_laws])
  show "imt_root sample (rps_running_imt (rps_new sample)) = pv_running_root sample_view"
    "imt_root sample (rps_identity_tag_imt (rps_new sample)) = pv_identity_tag_set_root sample_view"
    by (simp_all add: rps_new_def sample_view_def relayer_view_of_def sample_entry_facts Let_def)
  show "\<forall>s \<in> set sample_subs. acceptable sample (mock_backend sample) sample_view s" by (simp add: sample_acceptable)
  show "dup_free sample_subs" by (simp add: dup_free_def be_bytes_inject)
  show "distinct (map (record_leaf sample \<circ> record_of) sample_subs)" by (simp add: sample_leaf)
  show "record_leaf sample ` record_of ` set sample_subs \<inter> set (imt_values (rps_running_imt (rps_new sample))) = {}"
    by (simp add: sample_leaf rps_new_def imt_new_values)
  show "distinct (map (fr_from_be_bytes sample \<circ> ss_identity_tag) sample_subs)" by simp
  show "fr_from_be_bytes sample ` ss_identity_tag ` set sample_subs \<inter> set (imt_values (rps_identity_tag_imt (rps_new sample))) = {}"
    by (simp add: rps_new_def imt_new_values)
qed (simp_all add: rps_new_def imt_new_ok imt_size_values [symmetric] imt_new_values IMT_DEPTH_def)

definition sample_batch :: "sample_fr batch_submission" where "sample_batch = fst (projr (fst sample_build))"
definition sample_pst :: "sample_fr relayer_petition_state" where "sample_pst = fst (snd sample_build)"
definition sample_carrier :: in_memory_blob where "sample_carrier = snd (snd sample_build)"

lemma sample_build_parts: "\<exists>ps. sample_build = (Inr (sample_batch, ps), sample_pst, sample_carrier)"
proof -
  from sample_built obtain sub ps pst c where b: "sample_build = (Inr (sub, ps), pst, c)" by blast
  then have "sample_batch = sub" "sample_pst = pst" "sample_carrier = c"
    by (simp_all only: sample_batch_def sample_pst_def sample_carrier_def b fst_conv snd_conv sum.sel)
  with b have "sample_build = (Inr (sample_batch, ps), sample_pst, sample_carrier)" by simp
  then show ?thesis by blast
qed

definition sample_reg2 :: "(sample_fr, in_memory_blob, bytes32 list in_memory_ri) registry" where
  "sample_reg2 = snd (publish_batch sample sample_ports sample_reg1 sample_pid (zeros 20) sample_batch)"

definition sample_entry2 :: "sample_fr petition_entry" where
  "sample_entry2 = the (rg_petitions sample_reg2 sample_pid)"

abbreviation sample_records :: "record_entry list" where "sample_records \<equiv> bs_records sample_batch"

lemma sample_entry_ledger: "ledger_ok sample (stepped 300000 sample_entry) []"
  using sample_entry_facts by (intro ledger_stepped) (simp_all add: ledger_ok_def active_prefix_def replay_def)

lemma sample_entry_open: "state_of (stepped 300000 sample_entry) = SigningOpen"
  using sample_entry_facts(1,8) by (simp add: stepped_def lifecycle_loop_state)

lemma sample_publish:
  "\<exists>ev. publish_batch sample sample_ports sample_reg1 sample_pid (zeros 20) sample_batch = (Inr ev, sample_reg2)"
  "sample_reg2 = put_petition sample_pid sample_entry2 sample_reg1" "in_sync sample_pst sample_entry2"
  "ledger_ok sample sample_entry2 [sample_records]" "mset sample_records = image_mset record_of (mset sample_subs)"
proof -
  have e: "rg_petitions sample_reg1 sample_pid = Some sample_entry" by (simp add: sample_register)
  from sample_build_parts obtain ps where
    b: "build_batch sample (pt_proof sample_ports) (in_memory_blob_carrier sample) imb_new (relayer_view_of (zeros 32) sample_entry)
       (rps_new sample) sample_subs = (Inr (sample_batch, ps), sample_pst, sample_carrier)"
    by (auto simp: sample_build_def sample_view_def sample_ports_def)
  have sync: "in_sync (rps_new sample) sample_entry" by (simp add: in_sync_def rps_new_def sample_entry_facts)
  have c: "verify_batch_proof (pt_proof sample_ports) pf pub = Inr ()"
    if "generate_batch_proof (pt_proof sample_ports) pub priv = Inr pf" for pub priv pf
    using that mock_completes(1) [OF sample_digest_laws] by (simp add: sample_ports_def)
  have "\<exists>ev e'. publish_batch sample sample_ports sample_reg1 sample_pid (zeros 20) sample_batch = (Inr ev, put_petition sample_pid e' sample_reg1)
     \<and> in_sync sample_pst e' \<and> ledger_ok sample e' ([] @ [sample_records]) \<and> mset sample_records = image_mset record_of (mset sample_subs)"
    by (rule built_batch_published [OF sample_field_laws sample_digest_laws e _ _ sync b imb_publish_hash c])
       (simp_all add: sample_register sample_entry_open sample_entry_ledger)
  then obtain ev e' where p: "publish_batch sample sample_ports sample_reg1 sample_pid (zeros 20) sample_batch = (Inr ev, put_petition sample_pid e' sample_reg1)"
    "in_sync sample_pst e'" "ledger_ok sample e' [sample_records]" "mset sample_records = image_mset record_of (mset sample_subs)" by auto
  moreover from p(1) have r: "sample_reg2 = put_petition sample_pid e' sample_reg1" by (simp add: sample_reg2_def)
  moreover have "sample_entry2 = e'" by (simp add: sample_entry2_def r)
  ultimately show "\<exists>ev. publish_batch sample sample_ports sample_reg1 sample_pid (zeros 20) sample_batch = (Inr ev, sample_reg2)"
    "sample_reg2 = put_petition sample_pid sample_entry2 sample_reg1" "in_sync sample_pst sample_entry2"
    "ledger_ok sample sample_entry2 [sample_records]" "mset sample_records = image_mset record_of (mset sample_subs)"
    by simp_all
qed

lemma sample_entry2_facts:
  "state_of sample_entry2 = SigningOpen" "petition_terms (pe_record sample_entry2) = petition_terms (pe_record sample_entry)"
proof -
  from sample_publish(1) obtain ev where p: "publish_batch sample sample_ports sample_reg1 sample_pid (zeros 20) sample_batch = (Inr ev, sample_reg2)" by blast
  have e: "rg_petitions sample_reg1 sample_pid = Some sample_entry" by (simp add: sample_register)
  from handler_evolves(1) [OF e p] have ev: "evolves 300000 sample_entry sample_entry2"
    using sample_register(3) sample_publish(2) by (metis fun_upd_same option.inject put_petition_simps(1))
  from evolves_terms [OF ev] show "petition_terms (pe_record sample_entry2) = petition_terms (pe_record sample_entry)" .
  from ev show "state_of sample_entry2 = SigningOpen"
    using sample_entry_open sample_entry_facts(1) by (auto simp: evolves_def)
qed

section \<open>After the signing window\<close>

text \<open>The registry with the published blob available, at block \<open>t\<close>.\<close>

definition sample_reg3 :: "u64 \<Rightarrow> (sample_fr, in_memory_blob, bytes32 list in_memory_ri) registry" where
  "sample_reg3 t = sample_reg2\<lparr>rg_ri := rg_ri sample_reg2, rg_blob_carrier := sample_carrier\<rparr>\<lparr>rg_clock := t\<rparr>"

definition sample_history :: history where "sample_history = (\<lambda>_. [])(sample_pid := [sample_records])"

lemma sample_reg3_facts:
  "rg_petitions (sample_reg3 t) = [sample_pid \<mapsto> sample_entry2]" "now (sample_reg3 t) = t"
  "rg_blob_carrier (sample_reg3 t) = sample_carrier"
  unfolding sample_reg3_def sample_publish(2) by (simp_all add: sample_register now_def block_number_def)

lemma sample_reachable3: "300000 \<le> t \<Longrightarrow> ledger_reachable sample sample_ports (sample_reg3 t, sample_history)"
proof -
  assume t: "300000 \<le> t"
  from sample_publish(1) obtain ev where p: "publish_batch sample sample_ports sample_reg1 sample_pid (zeros 20) sample_batch = (Inr ev, sample_reg2)" by blast
  have "ledger_reachable sample sample_ports (sample_reg2, sample_history)"
    using ledger_reachable.L_step [OF sample_reachable1 ledger_step.L_publish [OF p]] by (simp add: sample_history_def)
  then have "ledger_reachable sample sample_ports (sample_reg2\<lparr>rg_ri := rg_ri sample_reg2, rg_blob_carrier := sample_carrier\<rparr>, sample_history)"
    by (rule ledger_reachable.L_step) (rule ledger_step.L_services)
  then show ?thesis
    unfolding sample_reg3_def
    by (rule ledger_reachable.L_step) (intro ledger_step.L_tick, use t in \<open>simp add: sample_publish(2) now_def block_number_def\<close>,
        use sample_register(3) t in \<open>simp add: now_def block_number_def\<close>)
qed

lemma sample_serves: "carrier_serves sample_ports sample_carrier (pe_batches sample_entry2) [sample_records]"
  "imb_ok sample sample_carrier"
proof -
  from sample_build_parts obtain ps where "sample_build = (Inr (sample_batch, ps), sample_pst, sample_carrier)" by blast
  from build_batch_publishes [OF this [unfolded sample_build_def]] obtain vh where pub: "imb_publish sample imb_new sample_records = Inr (vh, sample_carrier)"
    by (auto simp: in_memory_blob_carrier_def)
  from memory_blob.publish_fetch [OF imb_new_ok pub] show "imb_ok sample sample_carrier" by blast
  from imb_publish_hash [of sample imb_new sample_records vh sample_carrier] pub obtain fes where
    "encode_blob sample_records = Inr fes" "vh = compute_batch_versioned_hash sample fes"
    by (auto simp: in_memory_blob_carrier_def)
  with sample_publish(4) have "br_batch_versioned_hash (pe_batches sample_entry2 ! 0) = vh"
    by (auto simp: ledger_ok_def batch_matches_def)
  with memory_blob.publish_fetch [OF imb_new_ok pub]
  show "carrier_serves sample_ports sample_carrier (pe_batches sample_entry2) [sample_records]"
    by (simp add: carrier_serves_def sample_ports_def in_memory_blob_carrier_def)
qed

lemma sample_records_wf: "\<forall>r \<in> set sample_records. wf_record r" "length sample_records = 2"
proof -
  have "set_mset (mset sample_records) = set_mset (image_mset record_of (mset sample_subs))" by (simp only: sample_publish(5))
  then have s: "set sample_records = record_of ` set sample_subs" by simp
  show "\<forall>r \<in> set sample_records. wf_record r" unfolding s by (simp add: wf_record_def record_of_def)
  have "size (mset sample_records) = 2" by (simp only: sample_publish(5)) simp
  then show "length sample_records = 2" by simp
qed

lemma sample_terms2:
  "close_of sample_entry2 = 300100" "pr_class_set (pe_record sample_entry2) = [1, 2]"
  "pr_class_thresholds (pe_record sample_entry2) = [1, 1]" "pr_r_root (pe_record sample_entry2) = zeros 32"
  "pr_bounty (pe_record sample_entry2) = u256_from_u64 1000" "pr_petition_id (pe_record sample_entry2) = sample_pid"
  using sample_entry2_facts(2) sample_entry_facts by (simp_all add: petition_terms_def)

lemma sample_window: "300700 \<le> t \<Longrightarrow> state_of (stepped t sample_entry2) = DisputeWindow"
proof -
  assume t: "300700 \<le> t"
  then have "300100 \<le> t" by (rule order_trans [rotated]) simp
  with t show ?thesis using sample_entry2_facts(1) by (simp add: stepped_def lifecycle_loop_state sample_terms2)
qed

lemma sample_known: "rg_petitions (sample_reg3 t) sample_pid = Some sample_entry2"
  by (simp add: sample_reg3_facts)

lemma sample_ledger: "ledger_ok sample (stepped t sample_entry2) [sample_records]"
  by (rule ledger_stepped [OF sample_publish(4)]) (simp_all add: sample_entry2_facts)

lemma sample_terms_ok: "terms_ok sample (pe_record sample_entry2)"
  using reachable_terms_ok [OF _ sample_field_laws, of sample_ports "sample_reg3 300000" sample_pid sample_entry2]
    ledger_reachable_reg [OF sample_reachable3, of 300000] by (simp add: sample_reg3_facts)

section \<open>A resolution\<close>

definition sample_resolution :: "sample_fr resolution_submission" where
  "sample_resolution = projr (resolver_resolve sample (pt_proof sample_ports) (pt_blob sample_ports) sample_carrier
     (resolver_view_of sample_entry2))"

definition sample_reg4 :: "(sample_fr, in_memory_blob, bytes32 list in_memory_ri) registry" where
  "sample_reg4 = snd (resolve sample sample_ports (sample_reg3 400900) sample_pid (zeros 20) sample_resolution)"

lemma sample_ports_proof: "pt_proof sample_ports = mock_backend sample"
  and sample_ports_blob: "pt_blob sample_ports = in_memory_blob_carrier sample"
  by (simp_all add: sample_ports_def)

lemma sample_zeros: "fr_to_be_bytes sample (fr_from_be_bytes sample (zeros 32)) = zeros 32"
  by (rule fr_from_high_byte_zero [OF sample_field_laws]) (simp_all add: zeros_def)

lemma sample_resolved:
  "\<exists>x. resolve sample sample_ports (sample_reg3 400900) sample_pid (zeros 20) sample_resolution = (Inr x, sample_reg4)"
proof -
  have "\<exists>sub ev paid reg'. resolver_resolve sample (pt_proof sample_ports) (pt_blob sample_ports)
       (rg_blob_carrier (sample_reg3 400900)) (resolver_view_of sample_entry2) = Inr sub
    \<and> resolve sample sample_ports (sample_reg3 400900) sample_pid (zeros 20) sub = (Inr (ev, paid), reg')
    \<and> (pse_b ev, pse_b_per_class ev) = outcome_spec (pr_class_set (pe_record sample_entry2))
        (pr_class_thresholds (pe_record sample_entry2)) (concat [sample_records])
    \<and> bpd_recipient paid = zeros 20 \<and> unat (bpd_amount paid) = be_nat (pr_bounty (pe_record sample_entry2))"
    by (rule resolve_accepts [where d = 400900, OF sample_field_laws sample_digest_laws sample_known])
       (simp_all add: sample_reg3_facts sample_window sample_terms_ok sample_terms2 sample_ledger sample_serves
         sample_zeros checked_add_def u256_from_u64_def sample_ports_proof)
  then obtain sub ev paid reg' where r: "resolver_resolve sample (pt_proof sample_ports) (pt_blob sample_ports)
       sample_carrier (resolver_view_of sample_entry2) = Inr sub"
    "resolve sample sample_ports (sample_reg3 400900) sample_pid (zeros 20) sub = (Inr (ev, paid), reg')"
    by (auto simp: sample_reg3_facts)
  have "sample_resolution = sub" unfolding sample_resolution_def r(1) by simp
  with r(2) show ?thesis unfolding sample_reg4_def by simp
qed

lemma sample_reg4_entry: "\<exists>e. rg_petitions sample_reg4 sample_pid = Some e \<and> state_of e = Resolved"
proof -
  from sample_resolved obtain x where
    "resolve sample sample_ports (sample_reg3 400900) sample_pid (zeros 20) sample_resolution = (Inr x, sample_reg4)" by blast
  from resolve_known [OF sample_known this] have r:
    "sample_reg4 = put_petition sample_pid (resolved_entry sample sample_resolution (stepped 400900 sample_entry2)) (sample_reg3 400900)"
    by (auto simp: sample_reg3_facts)
  show ?thesis unfolding r by simp
qed

section \<open>A dispute about padding\<close>

definition sample_context :: dispute_context where
  "sample_context = \<lparr>dc_petition_id = sample_pid,
     dc_batch_versioned_hash = br_batch_versioned_hash (pe_batches sample_entry2 ! 0), dc_batch_index = 0, dc_class_set = [1, 2]\<rparr>"

definition sample_dispute :: dispute where
  "sample_dispute = projr (build_class_tag_out_of_set (in_memory_blob_carrier sample) sample_carrier sample_context 2)"

definition sample_reg5 :: "(sample_fr, in_memory_blob, bytes32 list in_memory_ri) registry" where
  "sample_reg5 = snd (dispute sample sample_ports (sample_reg3 300700) sample_dispute)"

lemma sample_fetch: "imb_fetch_records sample_carrier (br_batch_versioned_hash (pe_batches sample_entry2 ! 0)) = Inr sample_records"
  using sample_serves(1) by (simp add: carrier_serves_def sample_ports_def in_memory_blob_carrier_def)

lemma sample_envelope:
  "build_class_tag_out_of_set (in_memory_blob_carrier sample) sample_carrier sample_context 2 = Inr sample_dispute"
  "dp_petition_id sample_dispute = sample_pid" "dp_batch_index sample_dispute = 0"
  "\<forall>o1 \<in> set (dp_openings sample_dispute). imb_verify sample sample_carrier (dc_batch_versioned_hash sample_context) o1 = Inr ()"
  "check_violation sample [1, 2] sample_dispute = Inr ()"
proof -
  have "\<exists>d. build_class_tag_out_of_set (in_memory_blob_carrier sample) sample_carrier sample_context 2 = Inr d
    \<and> dp_petition_id d = dc_petition_id sample_context \<and> dp_batch_index d = dc_batch_index sample_context
    \<and> (\<forall>o1 \<in> set (dp_openings d). imb_verify sample sample_carrier (dc_batch_versioned_hash sample_context) o1 = Inr ())
    \<and> check_violation sample (dc_class_set sample_context) d = Inr ()"
    by (rule padding_envelope [OF sample_serves(2) _ sample_records_wf(1)])
       (simp_all add: sample_context_def sample_fetch padded_record_def sample_records_wf zero_record_def)
  then obtain d where d: "build_class_tag_out_of_set (in_memory_blob_carrier sample) sample_carrier sample_context 2 = Inr d"
    "dp_petition_id d = sample_pid" "dp_batch_index d = 0"
    "\<forall>o1 \<in> set (dp_openings d). imb_verify sample sample_carrier (dc_batch_versioned_hash sample_context) o1 = Inr ()"
    "check_violation sample [1, 2] d = Inr ()"
    by (auto simp: sample_context_def)
  moreover have "sample_dispute = d" by (simp add: sample_dispute_def d(1))
  ultimately show
    "build_class_tag_out_of_set (in_memory_blob_carrier sample) sample_carrier sample_context 2 = Inr sample_dispute"
    "dp_petition_id sample_dispute = sample_pid" "dp_batch_index sample_dispute = 0"
    "\<forall>o1 \<in> set (dp_openings sample_dispute). imb_verify sample sample_carrier (dc_batch_versioned_hash sample_context) o1 = Inr ()"
    "check_violation sample [1, 2] sample_dispute = Inr ()" by simp_all
qed

lemma sample_disputed: "\<exists>ev. dispute sample sample_ports (sample_reg3 300700) sample_dispute = (Inr ev, sample_reg5)"
proof -
  let ?e = "stepped 300700 sample_entry2" and ?reg = "put_petition sample_pid (stepped 300700 sample_entry2) (sample_reg3 300700)"
  have "\<exists>ev e'. dispute_batch sample sample_ports ?reg (state_of ?e) sample_dispute = Inr (ev, e')"
  proof (rule dispute_batch_succeeds [where t = 400900, OF sample_field_laws sample_ledger])
    show "carrier_serves sample_ports (rg_blob_carrier ?reg) (pe_batches ?e) [sample_records]"
      using sample_serves(1) by (simp add: sample_reg3_facts)
    show "\<forall>o1 \<in> set (dp_openings sample_dispute). bc_verify (pt_blob sample_ports) (rg_blob_carrier ?reg)
        (br_batch_versioned_hash (pe_batches ?e ! unat (dp_batch_index sample_dispute))) o1 = Inr ()"
      using sample_envelope(4) by (simp add: sample_reg3_facts sample_envelope(3) sample_context_def sample_ports_def in_memory_blob_carrier_def)
  qed (simp_all add: sample_envelope sample_window sample_terms2 sample_reg3_facts checked_add_def)
  then obtain ev e' where "dispute_batch sample sample_ports ?reg (state_of ?e) sample_dispute = Inr (ev, e')" by blast
  then have "dispute sample sample_ports (sample_reg3 300700) sample_dispute = (Inr ev, put_petition sample_pid e' (sample_reg3 300700))"
    using sample_known [of 300700] by (simp add: dispute_def sample_envelope(2) sample_reg3_facts)
  then show ?thesis by (simp add: sample_reg5_def)
qed

section \<open>An expiry\<close>

lemma sample_expired:
  "fst (mark_unresolved (sample_reg3 401200) sample_pid (zeros 20) 50) =
     Inr (\<lparr>pue_petition_id = sample_pid\<rparr>,
       \<lparr>brf_petition_id = sample_pid, brf_recipient = replicate 20 1, brf_amount = 990\<rparr>,
       \<lparr>brf_petition_id = sample_pid, brf_recipient = zeros 20, brf_amount = 10\<rparr>)"
proof -
  have "pr_organizer (pe_record sample_entry2) = pr_organizer (pe_record sample_entry)"
    using sample_entry2_facts(2) by (simp add: petition_terms_def)
  then have org: "pr_organizer (pe_record sample_entry2) = replicate 20 1"
    by (simp add: sample_entry_def new_entry_def sample_draft_def)
  have "expiry_checks (put_petition sample_pid (stepped 401200 sample_entry2) (sample_reg3 401200))
      (state_of (stepped 401200 sample_entry2)) sample_pid = Inr (stepped 401200 sample_entry2, 1000)"
    by (simp add: expiry_checks_def sample_window sample_terms2 sample_reg3_facts checked_add_def MARK_UNRESOLVED_GRACE_BLOCKS_def
        u256_round_trip)
  then show ?thesis
    using sample_known [of 401200] by (simp add: mark_unresolved_def sample_reg3_facts org Let_def min_def)
qed

section \<open>Roots on the sample\<close>

text \<open>The node hash of the sample is linear, so trees that differ only in their first four leaves can be compared.\<close>

lemma sample_node: "hash_merkle_node sample a b = 9 + 3 * a + b"
  by (simp add: hash_merkle_node_def poseidon2_def sample_poseidon sample_hash_def)

lemma sample_node_2: "node sample f 2 0 = 45 + 9 * f 0 + 3 * f 1 + 3 * f 2 + f 3"
proof -
  have "node sample f (Suc (Suc 0)) 0 = 45 + 9 * f 0 + 3 * f 1 + 3 * f (Suc (Suc 0)) + f (Suc (Suc (Suc 0)))"
    by (simp add: sample_node algebra_simps)
  then show ?thesis by (simp only: numeral_2_eq_2 numeral_3_eq_3)
qed

lemma sample_node_step:
  assumes "\<And>j. 2 ^ m \<le> j \<Longrightarrow> f j = g j"
  shows "node sample f (Suc m) 0 - node sample g (Suc m) 0 = 3 * (node sample f m 0 - node sample g m 0)"
proof -
  have "node sample f m 1 = node sample g m (1 - 0)"
    by (rule tree_node_cong [where d = 0]) (use assms in auto)
  then show ?thesis by (simp add: sample_node algebra_simps)
qed

lemma sample_node_diff:
  assumes "\<And>j. 4 \<le> j \<Longrightarrow> f j = g j"
  shows "node sample f (2 + n) 0 - node sample g (2 + n) 0 = 3 ^ n * (node sample f 2 0 - node sample g 2 0)"
proof (induction n)
  case (Suc n)
  have "f j = g j" if "2 ^ (2 + n) \<le> j" for j
    using that by (intro assms order.trans [of 4 "2 ^ (2 + n)" j]) simp_all
  from sample_node_step [OF this] Suc show ?case
    by (simp only: add_Suc_right power_Suc mult.assoc)
qed simp

lemma sample_nodes_differ:
  assumes "\<And>j. 4 \<le> j \<Longrightarrow> f j = g j" and "3 ^ 22 * (node sample f 2 0 - node sample g 2 0) \<noteq> 0"
  shows "node sample f 24 0 \<noteq> node sample g 24 0"
  using sample_node_diff [of f g 22] assms by auto

lemma sample_leaf_hash: "leaf_hash sample l = 81 + 27 * lf_value l + 9 * ucast (ucast (lf_next_index l) :: u64) + 3 * lf_next_value l"
  by (simp add: leaf_hash_def poseidon4_def sample_poseidon sample_hash_def algebra_simps)

lemma sample_empty: "poseidon4 sample 0 0 0 0 = 81"
  by (simp add: poseidon4_def sample_poseidon sample_hash_def)

lemma sample_roots_differ:
  assumes "imt_ok sample t" and "imt_ok sample t'"
    and "\<And>j. 4 \<le> j \<Longrightarrow> leaf_hashes sample (imt_leaves t) j = leaf_hashes sample (imt_leaves t') j"
    and "3 ^ 22 * (node sample (leaf_hashes sample (imt_leaves t)) 2 0 - node sample (leaf_hashes sample (imt_leaves t')) 2 0) \<noteq> 0"
  shows "imt_root sample t \<noteq> imt_root sample t'"
proof
  assume "imt_root sample t = imt_root sample t'"
  from arg_cong [OF this, of "fr_from_be_bytes sample"] have "root_fr t = root_fr t'"
    using sample_field_laws by (simp add: imt_root_def)
  then show False
    using sample_nodes_differ [OF assms(3,4)] assms(1,2) by (simp add: imt_ok_def nodes_ok_def root_fr_def IMT_DEPTH_def)
qed

lemma fr_less_sample: "fr_less sample = (<)"
  by (simp only: sample_def prims.select_convs)

text \<open>A replica after one batch with one submission, and the view that goes with it.\<close>

definition sample_replica :: "sample_fr relayer_petition_state" where
  "sample_replica = fst (snd (build_batch sample (mock_backend sample) (in_memory_blob_carrier sample) imb_new sample_view
     (rps_new sample) [sample_sub 5 1]))"

definition replica_view :: petition_view where
  "replica_view = sample_view\<lparr>pv_running_root := imt_root sample (rps_running_imt sample_replica),
     pv_identity_tag_set_root := imt_root sample (rps_identity_tag_imt sample_replica), pv_leaf_count := 1\<rparr>"

lemma sample_replica_built:
  "\<exists>sub ps c. build_batch sample (mock_backend sample) (in_memory_blob_carrier sample) imb_new sample_view (rps_new sample)
      [sample_sub 5 1] = (Inr (sub, ps), sample_replica, c)"
proof -
  have view: "pv_running_root sample_view = imt_root sample (imt_new sample)"
      "pv_identity_tag_set_root sample_view = imt_root sample (imt_new sample)"
    by (simp_all add: sample_view_def relayer_view_of_def sample_entry_facts Let_def)
  have "\<exists>sub ps pst c. build_batch sample (mock_backend sample) (in_memory_blob_carrier sample) imb_new sample_view (rps_new sample)
      [sample_sub 5 1] = (Inr (sub, ps), pst, c)"
    using view
    by (intro build_batch_succeeds [OF sample_field_laws sample_digest_laws])
      (simp_all add: rps_new_def imt_new_ok sample_acceptable dup_free_def sample_leaf imt_new_values imt_size_values [symmetric]
        IMT_DEPTH_def)
  then show ?thesis by (auto simp: sample_replica_def)
qed

lemma sample_replica_trees:
  "imt_ok sample (rps_running_imt sample_replica)" "imt_ok sample (rps_identity_tag_imt sample_replica)"
  "imt_leaves (rps_running_imt sample_replica) = [\<lparr>lf_value = 0, lf_next_index = 1, lf_next_value = 70\<rparr>,
     \<lparr>lf_value = 70, lf_next_index = 0, lf_next_value = 0\<rparr>]"
  "imt_values (rps_identity_tag_imt sample_replica) = [0, 15]"
proof -
  obtain sub ps c where "build_batch sample (mock_backend sample) (in_memory_blob_carrier sample) imb_new sample_view (rps_new sample)
      [sample_sub 5 1] = (Inr (sub, ps), sample_replica, c)" using sample_replica_built by blast
  from build_batch_Inr [OF this] obtain running idtag lc where
    seq: "insert_seq (imt_insert sample) (imt_new sample) [sub_leaf sample (sample_sub 5 1)] = Inr running"
      "insert_seq (imt_insert sample) (imt_new sample) [be_bytes 32 15] = Inr idtag"
    and rep: "sample_replica = \<lparr>rps_running_imt = running, rps_identity_tag_imt = idtag, rps_leaf_count = lc\<rparr>"
    by (auto simp: rps_new_def)
  have "running = rps_running_imt sample_replica" "idtag = rps_identity_tag_imt sample_replica"
    using arg_cong [OF rep, of rps_running_imt] arg_cong [OF rep, of rps_identity_tag_imt] by simp_all
  with seq obtain w where
    t: "imt_insert sample (imt_new sample) (sub_leaf sample (sample_sub 5 1)) = Inr (w, rps_running_imt sample_replica)"
    and u: "\<exists>w. imt_insert sample (imt_new sample) (be_bytes 32 15) = Inr (w, rps_identity_tag_imt sample_replica)"
    by (auto simp: insert_seq_def and_then_eq_Inr)
  have v: "fr_from_be_bytes sample (sub_leaf sample (sample_sub 5 1)) = 70"
    by (simp add: sub_leaf_value [OF sample_field_laws] sample_leaf)
  have low: "find_low_leaf_index sample (imt_new sample) (fr_from_be_bytes sample (sub_leaf sample (sample_sub 5 1))) = Inr 0"
    by (simp add: v find_low_leaf_index_def imt_new_leaves enumerated_def low_scan_def empty_leaf_def is_low_def fr_less_sample)
  show "imt_leaves (rps_running_imt sample_replica) = [\<lparr>lf_value = 0, lf_next_index = 1, lf_next_value = 70\<rparr>,
     \<lparr>lf_value = 70, lf_next_index = 0, lf_next_value = 0\<rparr>]"
    using imt_insert_leaves [OF t low] v by (simp add: imt_new_leaves empty_leaf_def imt_size_def)
  show "imt_ok sample (rps_running_imt sample_replica)"
    using civic_imt.insert_result [OF _ t] sample_field_laws imt_new_ok by blast
  show "imt_ok sample (rps_identity_tag_imt sample_replica)" "imt_values (rps_identity_tag_imt sample_replica) = [0, 15]"
    using civic_imt.insert_result [of sample "imt_new sample" "be_bytes 32 15"] u sample_field_laws imt_new_ok
    by (auto simp: imt_new_values)
qed


definition repeating_sub :: signer_submission where
  "repeating_sub =
     (let s = (sample_sub 7 1)\<lparr>ss_identity_tag := ss_identity_tag (sample_sub 5 1)\<rparr>
      in s\<lparr>ss_proof_bytes := signer_digest sample (submission_public sample s)\<rparr>)"

lemma repeating_sub_facts:
  "acceptable sample (mock_backend sample) replica_view repeating_sub"
  "record_leaf sample (record_of repeating_sub) = 76" "ss_identity_tag repeating_sub = be_bytes 32 15"
proof -
  let ?s = "(sample_sub 7 1)\<lparr>ss_identity_tag := ss_identity_tag (sample_sub 5 1)\<rparr>"
  have pub: "submission_public sample repeating_sub = submission_public sample ?s"
    by (simp add: repeating_sub_def submission_public_def Let_def)
  have "record_leaf sample (record_of repeating_sub) = record_leaf sample (record_of (sample_sub 7 1))"
    by (simp add: repeating_sub_def record_of_def record_leaf_def Let_def)
  then show "record_leaf sample (record_of repeating_sub) = 76" by (simp add: sample_leaf)
  show "ss_identity_tag repeating_sub = be_bytes 32 15" by (simp add: repeating_sub_def Let_def)
  show "acceptable sample (mock_backend sample) replica_view repeating_sub"
    using length_digests(1) [OF sample_digest_laws]
    by (simp add: acceptable_def pub mock_backend_def mock_verify_signer_proof_def)
      (simp add: repeating_sub_def replica_view_def sample_view_def relayer_view_of_def sample_entry_facts Let_def)
qed

end
