(* ===== verification/Registry_Theorems.thy ===== *)
theory Registry_Theorems
  imports Sample_Run
begin

text \<open>The properties of the petition registry (registry/core.rs): the refinement of the abstract signature
  ledger by the handlers, the lifecycle and its block windows, what each successful handler call guarantees,
  and what an error leaves behind.  Every property with a hypothesis is followed by its instance on the
  concrete run of theory \<open>Sample_Run\<close>.\<close>

section \<open>The ledger\<close>

text \<open>C2: In every reachable state of the registry and its history, each petition's stored entry
  implements the list of its active batches: the active batches are a prefix filed under the hash of
  their records, and trees, roots and leaf count are those of replaying all the records.\<close>

theorem registry_refines_ledger:
  assumes "ledger_reachable E P (reg, h)" and "field_laws E" and "rg_petitions reg pid = Some e"
  shows "ledger_ok E e (h pid)"
  using ledger_invariant [OF assms(1,2)] assms(3) by simp

theorem registry_refines_ledger_witness:
  "ledger_ok sample sample_entry2 [sample_records] \<and> length sample_records = 2"
  using registry_refines_ledger [OF sample_reachable3 [of 300000] sample_field_laws sample_known] sample_records_wf(2)
  by (simp add: sample_history_def)

text \<open>C3: No signature is counted twice. Over all active batches of a petition the leaves are pairwise
  different and so are the identity tags, every class tag belongs to the petition's class set, and the
  stored leaf count is the number of records.\<close>

theorem active_records_distinct:
  assumes "ledger_reachable E P (reg, h)" and "field_laws E" and "rg_petitions reg pid = Some e"
  shows "distinct (map (record_leaf E) (concat (h pid))) \<and>
    distinct (map (fr_from_be_bytes E \<circ> re_identity_tag) (concat (h pid))) \<and>
    (\<forall>r \<in> set (concat (h pid)). re_class_tag r \<in> set (pr_class_set (pe_record e))) \<and>
    unat (pr_leaf_count (pe_record e)) = length (concat (h pid)) \<and> length (concat (h pid)) < 2 ^ 24"
proof -
  have ok: "ledger_ok E e (h pid)" using ledger_invariant [OF assms(1,2)] assms(3) by simp
  then have rep: "replay E (concat (h pid)) = Inr (pe_running_imt e, pe_identity_tag_imt e)" by (simp add: ledger_ok_def)
  note r = replay_facts [OF assms(2) rep]
  have "distinct (imt_values (pe_running_imt e))" "distinct (imt_values (pe_identity_tag_imt e))"
    using r(1,2) by (auto intro: imt_ok_distinct)
  moreover have "\<forall>rs \<in> set (h pid). \<forall>r \<in> set rs. re_class_tag r \<in> set (pr_class_set (pe_record e))"
    unfolding all_set_conv_all_nth [of "h pid"] using ok by (simp add: ledger_ok_def batch_shape_def)
  ultimately show ?thesis using r(3-5) ok by (simp add: ledger_ok_def)
qed

theorem active_records_distinct_witness:
  "distinct (map (record_leaf sample) sample_records) \<and> unat (pr_leaf_count (pe_record sample_entry2)) = 2"
  using active_records_distinct [OF sample_reachable3 [of 300000] sample_field_laws sample_known] sample_records_wf(2)
  by (simp add: sample_history_def)

text \<open>C6: A successful dispute of batch \<open>i\<close> repudiates it and every later batch: the petition afterwards
  implements the ledger cut before batch \<open>i\<close>. An unsuccessful one keeps the ledger.\<close>

theorem dispute_cuts_ledger:
  assumes "ledger_reachable E P (reg, h)" and "field_laws E" and "rg_petitions reg (dp_petition_id d) = Some e"
    and "carrier_serves P (rg_blob_carrier reg) (pe_batches e) (h (dp_petition_id d))"
    and "dispute E P reg d = (r, reg')"
  shows "\<exists>e'. reg' = put_petition (dp_petition_id d) e' reg \<and>
    ledger_ok E e' (if is_ok r then take (unat (dp_batch_index d)) (h (dp_petition_id d)) else h (dp_petition_id d))"
proof -
  have reach: "reachable E P reg" using ledger_reachable_reg [OF assms(1)] by simp
  have "ledger_ok E e (h (dp_petition_id d))" using ledger_invariant [OF assms(1,2)] assms(3) by simp
  then have "ledger_ok E (stepped (now reg) e) (h (dp_petition_id d))"
    using reachable_time_ok [OF reach assms(3)] by (auto simp: time_ok_def intro: ledger_stepped)
  from ledger_dispute_batch [OF assms(2) this reachable_empty_root [OF reach] assms(3,5,4)] show ?thesis .
qed

theorem dispute_cuts_ledger_witness:
  "\<exists>e'. sample_reg5 = put_petition sample_pid e' (sample_reg3 300700) \<and> ledger_ok sample e' []"
proof -
  from sample_disputed obtain ev where d: "dispute sample sample_ports (sample_reg3 300700) sample_dispute = (Inr ev, sample_reg5)" by blast
  have "rg_petitions (sample_reg3 300700) (dp_petition_id sample_dispute) = Some sample_entry2"
    by (simp add: sample_envelope sample_known)
  from dispute_cuts_ledger [OF sample_reachable3 [of 300700] sample_field_laws this _ d] show ?thesis
    by (simp add: sample_envelope sample_reg3_facts sample_history_def sample_serves)
qed

section \<open>The lifecycle\<close>

text \<open>A petition is in a state only when its block has come: it is never left in \<open>Registered\<close> or
  \<open>SigningClosed\<close>, it leaves \<open>SigningOpen\<close> only at its closing block, it is in the dispute window or later
  only after the cooldown, and final only after the resolution deadline.\<close>

lemma lifecycle_windows:
  assumes "reachable E P reg" and "rg_petitions reg pid = Some e"
  shows "state_of e \<noteq> Registered \<and> state_of e \<noteq> SigningClosed \<and>
    (state_of e \<noteq> SigningOpen \<longrightarrow> close_of e \<le> now reg) \<and>
    (DisputeWindow \<le> state_of e \<longrightarrow> close_of e + COOLDOWN_BLOCKS \<le> now reg) \<and>
    (Resolved \<le> state_of e \<longrightarrow>
       (\<exists>d. checked_add (close_of e) RESOLUTION_DEADLINE_BLOCKS = Some d \<and> d \<le> now reg))"
  using reachable_time_ok [OF assms] unfolding time_ok_def .

text \<open>The lifecycle loop ends: after at most four turns no transition is enabled, and what it returns is the
  record after those turns.\<close>

lemma lifecycle_loop_ends:
  "next_lifecycle block (lifecycle_loop block r) = None \<and>
   lifecycle_loop block r =
     ((\<lambda>r. case next_lifecycle block r of Some s \<Rightarrow> r\<lparr>pr_state := s\<rparr> | None \<Rightarrow> r) ^^ 4) r"
  by (cases "pr_state r") (auto simp: lifecycle_loop_state next_lifecycle_def Let_def eval_nat_numeral)

text \<open>C29: Whatever step the registry takes, an existing petition stays, its terms do not change, and its
  state moves forward only.\<close>

theorem terms_immutable_state_monotone:
  assumes "reg_step E P reg reg'" and "rg_petitions reg pid = Some e"
  shows "\<exists>e'. rg_petitions reg' pid = Some e' \<and> petition_terms (pe_record e') = petition_terms (pe_record e) \<and>
    state_of e \<le> state_of e'"
  using reg_step_evolves [OF assms] evolves_terms evolves_mono by blast

theorem terms_immutable_state_monotone_witness:
  "\<exists>e'. rg_petitions sample_reg2 sample_pid = Some e' \<and> petition_terms (pe_record e') = petition_terms (pe_record sample_entry)"
proof -
  from sample_publish(1) obtain ev where
    "publish_batch sample sample_ports sample_reg1 sample_pid (zeros 20) sample_batch = (Inr ev, sample_reg2)" by blast
  then have "reg_step sample sample_ports sample_reg1 sample_reg2" by (rule reg_step.Publish)
  from terms_immutable_state_monotone [OF this, of sample_pid sample_entry] show ?thesis by (auto simp: sample_register)
qed

text \<open>A resolved or expired petition is frozen: no step changes anything in its entry.\<close>

lemma final_petition_frozen:
  assumes "reg_step E P reg reg'" and "rg_petitions reg pid = Some e" and "Resolved \<le> state_of e"
  shows "rg_petitions reg' pid = Some e"
  using reg_step_evolves [OF assms(1,2)] evolves_frozen [OF _ assms(3)] by auto

text \<open>No two petitions share a slot of the signers' ratchets, every petition is filed under its own
  identifier, and every slot is below the ratchet's capacity and below the slot counter.\<close>

lemma slots_unique:
  assumes "reachable E P reg" and "rg_petitions reg p = Some e" and "rg_petitions reg q = Some e'"
  shows "pr_petition_id (pe_record e) = p \<and> pr_slot (pe_record e) < FSRT_SLOT_COUNT \<and>
    pr_slot (pe_record e) < gs_s (rg_global reg) \<and>
    (pr_slot (pe_record e) = pr_slot (pe_record e') \<longrightarrow> p = q)"
  using reachable_slots_ok [OF assms(1)] assms(2,3) unfolding slots_ok_def by blast

section \<open>Registration\<close>

text \<open>The checked sums of the minimum bounty are exact.\<close>

lemma unat_ucast_u64_u128: "unat (ucast (t :: u64) :: u128) = unat t"
proof -
  have "unat t < 2 ^ 128" using unat_bound [of t] by simp
  then show ?thesis by (simp add: unsigned_ucast_eq take_bit_nat_eq_self)
qed

lemma threshold_sum:
  "try_fold (\<lambda>acc t. ok_or err (checked_add acc (ucast t))) (a :: u128) (ts :: u64 list) = Inr b \<Longrightarrow>
   unat b = unat a + sum_list (map unat ts)"
proof (induction ts arbitrary: a)
  case (Cons t ts)
  then obtain a1 where a1: "checked_add a (ucast t) = Some a1"
    "try_fold (\<lambda>acc t. ok_or err (checked_add acc (ucast t))) a1 ts = Inr b"
    by (auto simp: and_then_eq_Inr ok_or_eq_Inr)
  have "unat (ucast t :: u128) = unat t" by (rule unat_ucast_u64_u128)
  with Cons.IH [OF a1(2)] checked_add_SomeD [OF a1(1)] show ?case by simp
qed simp

lemma register_bounty_minimum:
  assumes "register_bounty g d = Inr b" and "op_count (dr_predicate_def d) \<le> 20"
  shows "gs_alpha_min g \<le> gs_alpha g \<and> gs_alpha g \<le> gs_alpha_max g \<and> u256_to_u128 (dr_bounty d) = Inr b \<and>
    unat (gs_alpha g) * (sum_list (map unat (dr_class_thresholds d)) * 10) * op_count (dr_predicate_def d) \<le> unat b"
proof -
  let ?n = "word_of_nat (op_count (dr_predicate_def d)) :: u128"
  from assms(1) obtain ts n x m where a: "gs_alpha_min g \<le> gs_alpha g" "gs_alpha g \<le> gs_alpha_max g"
    "try_fold (\<lambda>acc t. ok_or (RegPredicate (Malformed ''class_thresholds sum overflow'')) (checked_add acc (ucast t)))
       (0 :: u128) (dr_class_thresholds d) = Inr ts"
    "checked_mul ts 10 = Some n" "checked_mul (ucast (gs_alpha g)) n = Some x" "checked_mul x ?n = Some m"
    "u256_to_u128 (dr_bounty d) = Inr b" "\<not> b < m"
    by (auto simp: register_bounty_def Let_def and_then_eq_Inr ok_or_eq_Inr bind_eq_Some_conv split: if_splits)
  have "unat ?n = op_count (dr_predicate_def d)" using assms(2) by (intro unat_of_nat_small) simp
  then have "unat m = unat (gs_alpha g) * (sum_list (map unat (dr_class_thresholds d)) * 10) * op_count (dr_predicate_def d)"
    using threshold_sum [OF a(3)] checked_mul_SomeD [OF a(4)] checked_mul_SomeD [OF a(5)] checked_mul_SomeD [OF a(6)]
    by (simp add: unat_ucast_u64_u128)
  with a show ?thesis by (simp add: word_le_nat_alt not_less)
qed

lemma register_structure_facts:
  assumes "register_structure g d = Inr ()"
  shows "validate (dr_predicate_def d) = Inr ()" and "sorted_wrt (<) (dr_class_set d)" and "dr_class_set d \<noteq> []"
    and "length (dr_class_thresholds d) = length (dr_class_set d)" and "0 \<notin> set (dr_class_thresholds d)"
    and "unat (dr_class_index d) < unat (gs_n g)"
    and "\<exists>c \<in> set (dr_class_set d). find_class_binding_operand (dr_predicate_def d) (dr_class_index d) = Inr c"
  using assms by (auto simp: register_structure_def and_then_eq_Inr map_err_eq_Inr strictly_increasing_iff not_le split: if_splits)

lemma register_timing_facts:
  assumes "register_timing P reg d = Inr ()"
  shows "\<exists>first. ri_root_first_seen (pt_ri P) (rg_ri reg) (dr_r_root d) = Some first \<and>
    unat first + 216000 \<le> unat (now reg) \<and> unat (now reg) < unat (dr_close_at_block d) \<and>
    unat (dr_close_at_block d) \<le> unat (now reg) + 82800"
proof -
  from assms obtain first where f: "ri_root_first_seen (pt_ri P) (rg_ri reg) (dr_r_root d) = Some first"
    "\<not> now reg < first" "\<not> now reg - first < MIN_R_AGE_BLOCKS" "\<not> dr_close_at_block d \<le> now reg"
    "\<not> MAX_SIGNING_WINDOW_BLOCKS < dr_close_at_block d - now reg"
    by (auto simp: register_timing_def and_then_eq_Inr ok_or_eq_Inr split: if_splits)
  have "unat (now reg - first) = unat (now reg) - unat first" "unat (dr_close_at_block d - now reg) = unat (dr_close_at_block d) - unat (now reg)"
    using f(2,4) by (simp_all add: unat_sub not_less)
  with f show ?thesis by (auto simp: word_less_nat_alt word_le_nat_alt not_less)
qed

text \<open>What a successful registration has checked and done: a fresh identifier, a valid predicate bound
  to a class of the strictly increasing class set, one positive threshold per class, a root old enough, a
  signing window of at most 11.5 days in the future, a bounty of at least \<open>alpha * 10 * sum of thresholds *
  predicate operations\<close> computed without wrap-around; the petition is stored open for signing with an empty
  ledger, nothing else changes but the slot counter.\<close>

lemma register_success:
  assumes "register E P reg d = (Inr (p, ev), reg')"
  shows "\<exists>e. rg_petitions reg (rgp_petition_id p) = None
    \<and> rg_petitions reg' = (rg_petitions reg)(rgp_petition_id p \<mapsto> e)
    \<and> gs_s (rg_global reg') = gs_s (rg_global reg) + 1 \<and> rgp_slot p = gs_s (rg_global reg) \<and> pr_slot (pe_record e) = rgp_slot p
    \<and> state_of e = SigningOpen \<and> pe_batches e = [] \<and> pe_running_imt e = imt_new E \<and> pe_identity_tag_imt e = imt_new E
    \<and> validate (dr_predicate_def d) = Inr ()
    \<and> (\<exists>c \<in> set (dr_class_set d). find_class_binding_operand (dr_predicate_def d) (dr_class_index d) = Inr c)
    \<and> sorted_wrt (<) (dr_class_set d) \<and> length (dr_class_thresholds d) = length (dr_class_set d) \<and> 0 \<notin> set (dr_class_thresholds d)
    \<and> (\<exists>first. ri_root_first_seen (pt_ri P) (rg_ri reg) (dr_r_root d) = Some first \<and> unat first + 216000 \<le> unat (now reg))
    \<and> unat (now reg) < unat (dr_close_at_block d) \<and> unat (dr_close_at_block d) \<le> unat (now reg) + 82800
    \<and> unat (gs_alpha (rg_global reg)) * (sum_list (map unat (dr_class_thresholds d)) * 10) * op_count (dr_predicate_def d)
        \<le> unat (pre_bounty ev)"
proof -
  from register_outcome [OF assms] obtain encoded pid ph b s' where
    o: "register_structure (rg_global reg) d = Inr ()" "register_timing P reg d = Inr ()"
    "register_identity E reg d = Inr (encoded, pid, ph)" "register_bounty (rg_global reg) d = Inr b"
    "checked_add (gs_s (rg_global reg)) 1 = Some s'"
    "reg' = put_petition pid (stepped (now reg) (new_entry E reg d encoded pid ph)) (reg\<lparr>rg_global := (rg_global reg)\<lparr>gs_s := s'\<rparr>\<rparr>)"
    "p = \<lparr>rgp_petition_id = pid, rgp_slot = gs_s (rg_global reg), rgp_predicate_hash = ph, rgp_registered_at_block = now reg\<rparr>"
    "pre_bounty ev = b" by auto
  note st = register_structure_facts [OF o(1)]
  have "op_count (dr_predicate_def d) \<le> 20" using validate_counts [OF st(1)] by (simp add: op_count_def)
  note bm = register_bounty_minimum [OF o(4) this]
  have s': "s' = gs_s (rg_global reg) + 1" using o(5) by (simp add: checked_add_def split: if_splits)
  have "rg_petitions reg pid = None" using register_identity_Inr [OF o(3)] by blast
  with o(6-8) st bm s' register_timing_facts [OF o(2)] new_entry_state [OF o(2)] show ?thesis
    by (intro exI [of _ "stepped (now reg) (new_entry E reg d encoded pid ph)"]) (auto simp: new_entry_def)
qed

section \<open>Publication\<close>

text \<open>A batch is accepted only while its petition is open for signing and only on top of the current
  state: 1 to 6 records, prior roots and leaf count equal to the stored ones; the leaf count grows by the
  size of the batch, the batch is appended as active under the hash of its blob, and only this petition
  changes.\<close>

lemma publish_success:
  assumes "rg_petitions reg pid = Some e" and "publish_batch E P reg pid relayer sub = (Inr ev, reg')"
  shows "\<exists>e' b fes. reg' = put_petition pid e' reg \<and> state_of (stepped (now reg) e) = SigningOpen \<and> state_of e' = SigningOpen
    \<and> 1 \<le> length (bs_records sub) \<and> length (bs_records sub) \<le> 6
    \<and> fr_to_be_bytes E (bp_prior_running_root (bs_public_inputs sub)) = pr_running_root (pe_record e)
    \<and> fr_to_be_bytes E (bp_prior_identity_tag_set_root (bs_public_inputs sub)) = pr_identity_tag_set_root (pe_record e)
    \<and> unat (pr_leaf_count (pe_record e')) = unat (pr_leaf_count (pe_record e)) + length (bs_records sub)
    \<and> pe_batches e' = pe_batches e @ [b] \<and> br_state b = Active \<and> br_relayer b = relayer
    \<and> encode_blob (bs_records sub) = Inr fes \<and> br_batch_versioned_hash b = compute_batch_versioned_hash E fes
    \<and> verify_batch_proof (pt_proof P) (bs_proof_bytes sub) (bs_public_inputs sub) = Inr ()"
proof -
  let ?e = "stepped (now reg) e"
  from publish_batch_known [OF assms] obtain vh lc s where
    p: "state_of ?e = SigningOpen" "publish_header E P sub = Inr vh" "publish_bindings E (pe_record ?e) sub = Inr lc"
    "publish_replay E ?e sub = Inr s"
    "(Inr ev, reg') = (case publish_commit E pid relayer (now reg) ?e sub vh lc s of (r, e') \<Rightarrow> (r, put_petition pid e' reg))"
    by auto
  let ?c = "publish_commit E pid relayer (now reg) ?e sub vh lc s"
  from p(5) have c: "fst ?c = Inr ev" "reg' = put_petition pid (snd ?c) reg" by (auto simp: split_beta)
  from publish_header_hash [OF p(2)] obtain fes where fes: "encode_blob (bs_records sub) = Inr fes"
    "vh = compute_batch_versioned_hash E fes" by blast
  have ver: "verify_batch_proof (pt_proof P) (bs_proof_bytes sub) (bs_public_inputs sub) = Inr ()"
    using p(2) by (auto simp: publish_header_def and_then_eq_Inr map_err_eq_Inr Let_def split: if_splits)
  note b = publish_bindings_facts [OF p(3)]
  have e': "pe_batches (snd ?c) = pe_batches e @ [batch_of E pid relayer (now reg) ?e sub vh lc]"
    "pr_leaf_count (pe_record (snd ?c)) = lc" "state_of (snd ?c) = SigningOpen"
    using c(1) p(1) by (simp_all add: publish_commit_def Let_def split: if_splits)
  show ?thesis
    using c(2) p(1) b fes ver e'
    by (intro exI [of _ "snd ?c"] exI [of _ "batch_of E pid relayer (now reg) ?e sub vh lc"] exI [of _ fes])
       (simp add: batch_of_def Let_def)
qed

section \<open>Resolution and expiry\<close>

text \<open>Although the code writes the outcome before it converts the bounty, a resolution that reports an
  error has changed nothing but the lifecycle state it advanced first: on a reachable registry the bounty
  of a petition always fits 128 bits.\<close>

lemma resolve_error_atomic:
  assumes "reachable E P reg" and "field_laws E" and "rg_petitions reg pid = Some e"
    and "resolve E P reg pid resolver sub = (Inl err, reg')"
  shows "reg' = put_petition pid (stepped (now reg) e) reg"
  using resolve_known [OF assms(3,4)]
proof (elim disjE exE conjE)
  let ?e = "stepped (now reg) e"
  assume c: "resolve_checks E P (put_petition pid ?e reg) (state_of ?e) pid sub = Inr ?e"
  from reachable_terms_ok [OF assms(1-3)] obtain x where "u256_to_u128 (pr_bounty (pe_record e)) = Inr x"
    by (auto simp: terms_ok_def is_ok_iff)
  then have "\<exists>y. fst (resolve E P reg pid resolver sub) = Inr y"
    using assms(3) c by (simp add: resolve_def resolved_entry_def Let_def)
  with assms(4) show ?thesis by simp
qed auto

definition sample_early :: "sample_fr resolution_submission" where
  "sample_early = \<lparr>rs_public_inputs = resolution_public_of sample (resolver_view_of sample_entry2) True [True, True],
     rs_proof_bytes = []\<rparr>"

text \<open>C30: Expiry pays the bounty out exactly once: the organizer's refund and the caller's rebate add up to
  the bounty, the rebate is at most the requested gas and at most one percent, and it happens only in
  the dispute window after the deadline and the grace period, leaving the petition unresolved.\<close>

theorem expiry_conserves_bounty:
  assumes "rg_petitions reg pid = Some e" and "length (pr_bounty (pe_record e)) = 32"
    and "mark_unresolved reg pid caller gas = (Inr (ev, refund, rebate), reg')"
  shows "unat (brf_amount refund) + unat (brf_amount rebate) = be_nat (pr_bounty (pe_record e)) \<and>
    brf_recipient refund = pr_organizer (pe_record e) \<and> brf_recipient rebate = caller \<and>
    100 * unat (brf_amount rebate) \<le> be_nat (pr_bounty (pe_record e)) \<and> brf_amount rebate \<le> gas \<and>
    (\<exists>e'. reg' = put_petition pid e' reg \<and> state_of e' = Unresolved) \<and>
    unat (close_of e) + 100800 + 300 \<le> unat (now reg)"
proof -
  let ?e = "stepped (now reg) e"
  from mark_unresolved_known [OF assms(1,3)] obtain amount where
    m: "expiry_checks (put_petition pid ?e reg) (state_of ?e) pid = Inr (?e, amount)"
    "reg' = put_petition pid (unresolved_entry ?e) reg"
    "refund = \<lparr>brf_petition_id = pid, brf_recipient = pr_organizer (pe_record e), brf_amount = amount - min gas (amount div 100)\<rparr>"
    "rebate = \<lparr>brf_petition_id = pid, brf_recipient = caller, brf_amount = min gas (amount div 100)\<rparr>" by auto
  from expiry_checks_deadline [OF m(1)] obtain d d' where
    x: "u256_to_u128 (pr_bounty (pe_record e)) = Inr amount" and d: "checked_add (close_of e) RESOLUTION_DEADLINE_BLOCKS = Some d"
    "checked_add d MARK_UNRESOLVED_GRACE_BLOCKS = Some d'" "d' \<le> now reg" by auto
  have a: "unat amount = be_nat (pr_bounty (pe_record e))" by (rule u256_to_u128_value [OF assms(2) x])
  define rb where "rb = min gas (amount div 100)"
  have q: "unat (amount div 100) = unat amount div 100" by (simp add: unat_div_distrib)
  have "rb \<le> amount div 100" by (simp add: rb_def)
  then have r1: "unat rb \<le> unat amount div 100" using q by (simp add: word_le_nat_alt)
  have "rb \<le> gas" by (simp add: rb_def)
  note r = r1 this
  have "rb \<le> amount" unfolding word_le_nat_alt using r1 div_le_dividend [of "unat amount" 100] by linarith
  then have "unat (amount - rb) + unat rb = unat amount" by (simp add: unat_sub word_le_nat_alt)
  moreover have "100 * unat rb \<le> unat amount" using r(1) by linarith
  moreover have "unat (close_of e) + 100800 + 300 \<le> unat (now reg)"
    using checked_add_SomeD [OF d(1)] checked_add_SomeD [OF d(2)] d(3)
    by (simp add: MARK_UNRESOLVED_GRACE_BLOCKS_def word_le_nat_alt)
  ultimately show ?thesis using m(2-4) a r(2) by (auto simp flip: rb_def)
qed

theorem expiry_conserves_bounty_witness:
  "be_nat (u256_from_u64 1000) = 990 + 10"
proof -
  obtain reg' where "mark_unresolved (sample_reg3 401200) sample_pid (zeros 20) 50 =
      (Inr (\<lparr>pue_petition_id = sample_pid\<rparr>,
       \<lparr>brf_petition_id = sample_pid, brf_recipient = replicate 20 1, brf_amount = 990\<rparr>,
       \<lparr>brf_petition_id = sample_pid, brf_recipient = zeros 20, brf_amount = 10\<rparr>), reg')"
    using sample_expired by (metis prod.collapse)
  from expiry_conserves_bounty [OF sample_known _ this] show ?thesis
    by (simp add: sample_terms2 u256_from_u64_def)
qed

section \<open>Organizer and registry\<close>

text \<open>The registry's structural checks on a draft the organizer built reduce to two the organizer does not
  make: every threshold positive, and the class index below the registry's attribute count.\<close>

lemma organizer_draft_structure:
  assumes "build_petition a root pd salt cs ts ci block close bounty = Inr d"
  shows "is_ok (register_structure g d) \<longleftrightarrow> 0 \<notin> set ts \<and> unat ci < unat (gs_n g)"
  using assms
  by (auto simp: build_petition_def register_structure_def and_then_eq_Inr map_err_eq_Inr is_ok_iff split: if_splits)

end
