(* ===== verification/Sample_Signer.thy ===== *)
theory Sample_Signer
  imports Sample_Run Signing
begin

text \<open>A concrete signer whose signature the sample petition accepts, for the instances of the signing
  properties.\<close>

section \<open>A signer\<close>

lemma sample_empty_odd: "odd (fsrt_empty_level sample (Suc l))"
  by (simp add: sample_node)

lemma sample_fold_odd:
  "odd x \<Longrightarrow> \<forall>s \<in> set sibs. odd s \<Longrightarrow> odd (foldl (hash_merkle_node sample) x sibs)"
  by (induction sibs arbitrary: x) (simp_all add: sample_node)

lemma sample_root_odd:
  assumes "even v"
  shows "odd (compute_chain_root sample [v])"
proof -
  have "[0..<24] = 0 # map Suc [0..<23]" by (simp only: map_Suc_upt) (simp add: upt_conv_Cons)
  then have s: "map ((!) (fsrt_compute_empty_subtree sample)) [0..<24] =
      fr_of sample 0 # map (\<lambda>l. fsrt_empty_level sample (Suc l)) [0..<23]"
    by (simp add: fsrt_empty_nth FSRT_DEPTH_def del: upt_rec_numeral)
  have "compute_chain_root sample [v] =
      foldl (hash_merkle_node sample) v (map ((!) (fsrt_compute_empty_subtree sample)) [0..<24])"
    by (simp add: compute_chain_root_def FSRT_DEPTH_def Let_def upt_conv_Cons [of 0 24])
  also have "odd \<dots>" unfolding s foldl_Cons
    by (rule sample_fold_odd) (use assms in \<open>simp add: sample_node\<close>, auto simp: sample_empty_odd simp del: fsrt_empty_level.simps)
  finally show ?thesis .
qed

text \<open>The slot value and the secret are chosen so that neither the identity tag nor the leaf is zero.\<close>

definition sample_value :: sample_fr where
  "sample_value = (if hash_identity_tag sample 2 (fr_from_be_bytes sample sample_pid) = 0 then 4 else 2)"

definition sample_meta :: petition_meta where
  "sample_meta = \<lparr>pm_petition_id = sample_pid, pm_r_root = zeros 32, pm_predicate_hash = snd (snd sample_ids),
     pm_slot = 0, pm_class_index = 0, pm_class_tag = 1, pm_predicate_def = sample_predicate, pm_salt = zeros 32,
     pm_ri_leaf_index = 0\<rparr>"

definition sample_secret :: bytes32 where
  "sample_secret = be_bytes 32
     (if hash_leaf sample (nullifier_of sample sample_meta (be_bytes 32 0) sample_value) 1 = 0 then 1 else 0)"

definition sample_chain :: "sample_fr chain_state" where
  "sample_chain = \<lparr>ch_s_curr = 7, ch_t = 0, ch_caterpillar = caterpillar_empty sample,
     ch_chain_root = compute_chain_root sample [sample_value], ch_attr_version = 0,
     ch_v_values = [sample_value], ch_s_seeds = [7]\<rparr>"

definition sample_signer :: "(sample_fr, bytes32 list in_memory_ri) signer" where
  "sample_signer = \<lparr>sg_credentials = \<lparr>sc_identity_secret = sample_secret,
       sc_attr_vector = [be_bytes 32 1, be_bytes 32 0, be_bytes 32 0, be_bytes 32 0], sc_ri_leaf_index = 0\<rparr>,
     sg_chain = sample_chain, sg_ri = snd (imr_append_leaf sample_lean (imr_new sample_lean) (zeros 32) 0)\<rparr>"

lemma sample_signer_ok: "signer_ok sample [sample_value] sample_signer"
  by (simp add: signer_ok_def chain_ok_def sample_signer_def sample_chain_def FSRT_DEPTH_def cat_empty_ok)

lemma sample_signs:
  "\<exists>sub. sign sample (mock_backend sample) (in_memory_ri_layer sample_lean) sample_meta sample_signer = Some (Inr sub, sample_signer)"
proof -
  have "even sample_value" by (simp add: sample_value_def)
  from sample_root_odd [OF this] have root: "compute_chain_root sample [sample_value] \<noteq> 0" by auto
  have checks: "sign_checks sample sample_meta sample_signer = Inr ()"
    by (simp add: sign_checks_def sample_meta_def sample_signer_def sample_chain_def chain_len_def)
  have adv: "advance_to sample (pm_slot sample_meta) (sg_chain sample_signer) = Some (sg_chain sample_signer)"
    by (simp add: advance_to_def sample_meta_def sample_signer_def sample_chain_def chain_len_def)
  have "\<exists>sub. sign_at_slot sample (mock_backend sample) (in_memory_ri_layer sample_lean) sample_meta sample_signer = Some (Inr sub)"
    using root
    by (simp add: sign_at_slot_def signer_tags_eq v_at_current_slot_def in_memory_ri_layer_def imr_merkle_path_def
        mock_backend_def mock_generate_signer_proof_def sign_private_def sample_signer_def sample_chain_def
        imr_append_leaf_def sample_lean_def imr_new_def Let_def and_then_def)
  with checks adv show ?thesis by (auto simp: sign_def)
qed

definition sample_signed :: signer_submission where
  "sample_signed = (case sign sample (mock_backend sample) (in_memory_ri_layer sample_lean) sample_meta sample_signer of
     Some (Inr sub, _) \<Rightarrow> sub | _ \<Rightarrow> sample_sub 0 0)"

lemma sample_sign:
  "sign sample (mock_backend sample) (in_memory_ri_layer sample_lean) sample_meta sample_signer = Some (Inr sample_signed, sample_signer)"
  using sample_signs by (auto simp: sample_signed_def)

lemma sample_tag_nonzero: "hash_identity_tag sample sample_value (fr_from_be_bytes sample sample_pid) \<noteq> 0"
proof -
  have "hash_identity_tag sample 4 p \<noteq> 0" if "hash_identity_tag sample 2 p = 0" for p
  proof -
    have "hash_identity_tag sample 4 p = hash_identity_tag sample 2 p + 6"
      by (simp add: hash_identity_tag_def poseidon3_def sample_poseidon sample_hash_def)
    with that show ?thesis by simp
  qed
  then show ?thesis by (simp add: sample_value_def)
qed

lemma sample_leaf_nonzero:
  "hash_leaf sample (nullifier_of sample sample_meta sample_secret sample_value) 1 \<noteq> 0"
proof -
  have "hash_leaf sample (nullifier_of sample sample_meta (be_bytes 32 1) v) 1 =
      hash_leaf sample (nullifier_of sample sample_meta (be_bytes 32 0) v) 1 + 3" for v
    by (simp add: hash_leaf_def nullifier_of_def poseidon3_def sample_poseidon sample_hash_def)
  then show ?thesis by (simp add: sample_secret_def)
qed

end
