(* ===== verification/Component_Theorems.thy ===== *)
theory Component_Theorems
  imports Sample_Signer
begin

text \<open>The properties of the components below the registry: the predicate language, the indexed Merkle tree,
  blobs, 256-bit amounts, relay inboxes, the ratchet tree and the signer.  Every property with a hypothesis
  is followed by an instance at a concrete input.\<close>

section \<open>Predicate language\<close>

text \<open>A predicate that encodes decodes to itself (operands being 32 bytes, as the type says).\<close>

lemma predicate_encode_decode:
  assumes "wf_predicate d" and "encode d = Inr bytes"
  shows "decode bytes = Inr d"
  by (rule encode_decode [OF assms])

text \<open>Whatever decodes is a valid predicate whose encoding is the prefix of the input that was read:
  decoding is injective up to trailing bytes, which it ignores.\<close>

lemma predicate_decode_encode:
  assumes "decode bytes = Inr d"
  shows "wf_predicate d \<and> validate d = Inr () \<and> encode d = Inr (take (serialized_len d) bytes)"
  using decode_encode_prefix [OF assms] by (auto simp: encode_def and_then_eq_Inr)

text \<open>C39: The stack machine computes the boolean expression its postfix program spells: it returns a bit
  exactly when the predicate is valid, the program spells one expression and that expression has the
  bit as its value on the attributes.\<close>

theorem evaluate_is_expression_value:
  "evaluate E d as = Inr b \<longleftrightarrow>
     validate d = Inr () \<and> (\<exists>e. postfix_expr (pd_ops d) = Some e \<and> pexpr_sem E (pd_tuples d) as e = Inr b)"
  by (rule evaluate_denotes)

text \<open>C38: What the taint analysis of the class binding promises: a predicate the registry accepted for a class
  index holds only for attribute vectors whose attribute at this index is a 16-bit class tag; and one
  accepted for a fixed tag holds only when the attribute is that tag.\<close>

theorem class_binding_forces_attribute:
  assumes "field_laws E" and "evaluate E d attrs = Inr True"
  shows "(validate_class_binding d class_index class_tag = Inr () \<longrightarrow>
           unat class_index < length attrs \<and> attrs ! unat class_index = fr_of E (ucast class_tag))
       \<and> (wf_predicate d \<and> find_class_binding_operand d class_index = Inr operand \<longrightarrow>
           unat class_index < length attrs \<and> (\<exists>c :: class_tag. attrs ! unat class_index = fr_of E (ucast c)))"
  using class_binding_sound [OF assms(1) _ assms(2)] find_class_binding_sound [OF assms(1) _ _ assms(2)] by blast

theorem class_binding_forces_attribute_witness:
  "\<exists>c :: class_tag. [1 :: sample_fr, 0, 0, 0] ! unat (0 :: u8) = fr_of sample (ucast c)"
proof -
  have wf: "wf_predicate sample_predicate" by (simp add: wf_predicate_def sample_predicate_def)
  have "zeros 31 @ [1] = be_bytes 32 1" by code_simp
  then have "fr_from_be_bytes sample (zeros 31 @ [1]) = 1" by simp
  then have "eval_tuple sample (pd_tuples sample_predicate ! 0) [1, 0, 0, 0] = Inr True"
    by (simp add: eval_tuple_def sample_predicate_def)
  then have "evaluate sample sample_predicate [1, 0, 0, 0] = Inr True"
    unfolding evaluate_denotes using sample_validate
    by (auto simp: sample_predicate_def postfix_expr_def)
  from class_binding_forces_attribute [OF sample_field_laws this] wf sample_operand show ?thesis by blast
qed

text \<open>The field elements a predicate is hashed as determine its bytes: length and contents.\<close>

lemma canonical_scalars_determine_bytes:
  assumes "field_laws E" and "canonical_scalars E a = Inr xs" and "canonical_scalars E b = Inr xs"
  shows "a = b"
  by (rule canonical_scalars_inject [OF assms])

section \<open>Indexed Merkle tree\<close>

text \<open>C31: Insertion, on every branch. On a well-formed tree it fails exactly when the tree is full or the
  value is stored; otherwise it stores the value as a new last leaf, keeps the tree well formed, and the
  witness it returns proves the step from the old root to the new one.\<close>

theorem imt_insert_behaviour:
  assumes "field_laws E" and "imt_ok E t"
  shows "if 2 ^ 24 \<le> imt_size t then imt_insert E t val = Inl (CapacityExhausted 24)
     else if fr_from_be_bytes E val \<in> set (imt_values t) then imt_insert E t val = Inl DuplicateInsertion
     else \<exists>w t'. imt_insert E t val = Inr (w, t') \<and> imt_ok E t'
       \<and> imt_values t' = imt_values t @ [fr_from_be_bytes E val]
       \<and> insert_witness_ok E (imt_root E t) (imt_root E t') w"
  using imt_insert_full [of t E val] imt_insert_present [OF assms, of val] imt_insert_absent [OF assms, of val]
  by (simp add: IMT_DEPTH_def)

theorem imt_insert_behaviour_witness:
  "\<exists>w t'. imt_insert sample (imt_new sample) (be_bytes 32 7) = Inr (w, t') \<and> imt_values t' = [0, 7]"
proof -
  have "imt_ok sample (imt_new sample)" by (rule imt_new_ok)
  from imt_insert_behaviour [OF sample_field_laws this, of "be_bytes 32 7"]
  show ?thesis by (auto simp: imt_new_values imt_size_values [symmetric])
qed

text \<open>Lookups are total and sound. Exactly one of the two proofs exists for each value, according to
  whether it is stored; both carry a path from the leaf they show to the current root, the membership leaf
  holds the value and the non-membership leaf brackets it.\<close>

lemma imt_lookup_behaviour:
  assumes "field_laws E" and "imt_ok E t"
  shows "if fr_from_be_bytes E val \<in> set (imt_values t)
    then non_membership E t val = None \<and> (\<exists>m. membership E t val = Some m
      \<and> fr_from_be_bytes E (il_value (im_leaf m)) = fr_from_be_bytes E val
      \<and> path_root E (wire_leaf_hash E (im_leaf m)) (path_steps E (im_path m)) = root_fr t)
    else membership E t val = None \<and> (\<exists>m i. non_membership E t val = Some m
      \<and> inm_low_leaf m = to_wire E (imt_leaves t ! i) \<and> i < imt_size t
      \<and> is_low E (fr_from_be_bytes E val) (imt_leaves t ! i)
      \<and> path_root E (wire_leaf_hash E (inm_low_leaf m)) (path_steps E (inm_low_leaf_path m)) = root_fr t)"
proof (cases "fr_from_be_bytes E val \<in> set (imt_values t)")
  case True
  from membership_present [OF assms True] obtain i where "i < imt_size t" and
    "membership E t val = Some \<lparr>im_leaf = to_wire E (imt_leaves t ! i), im_leaf_index = word_of_nat i,
       im_path = path_for E t (word_of_nat i)\<rparr>" "imt_values t ! i = fr_from_be_bytes E val"
    "path_root E (wire_leaf_hash E (to_wire E (imt_leaves t ! i))) (path_steps E (path_for E t (word_of_nat i))) = root_fr t"
    by blast
  then show ?thesis using True non_membership_present [OF assms True] assms(1)
    by (simp add: to_wire_def imt_values_def imt_size_def)
next
  case False
  with non_membership_absent [OF assms False] membership_absent [OF False] show ?thesis
    by (simp add: Bex_def) (metis imt_non_membership.select_convs(1,3))
qed

text \<open>A run of insertions into a fresh tree succeeds exactly when the values are pairwise distinct, none
  is zero, and they fit; the tree then holds zero and the values in order, and finds those and no others.\<close>

lemma imt_insertions_are_a_set:
  assumes "field_laws E" and "length bs < 2 ^ 24"
  shows "((\<exists>t. insert_seq (imt_insert E) (imt_new E) bs = Inr t) \<longleftrightarrow>
      distinct (map (fr_from_be_bytes E) bs) \<and> fr_of E 0 \<notin> fr_from_be_bytes E ` set bs)
    \<and> (\<forall>t. insert_seq (imt_insert E) (imt_new E) bs = Inr t \<longrightarrow>
         imt_ok E t \<and> imt_values t = fr_of E 0 # map (fr_from_be_bytes E) bs \<and>
         (\<forall>b. membership E t b \<noteq> None \<longleftrightarrow> fr_from_be_bytes E b = fr_of E 0 \<or> fr_from_be_bytes E b \<in> fr_from_be_bytes E ` set bs))"
proof -
  have ok: "field_laws E \<and> imt_ok E (imt_new E)" using assms(1) imt_new_ok by blast
  note r = civic_imt.insert_seq_result [OF ok] civic_imt.insert_seq_succeeds [OF ok, of bs] civic_imt.lookup_after_seq [OF ok]
  show ?thesis using r assms(2) by (auto simp: imt_new_values IMT_DEPTH_def)
qed

text \<open>Authentication paths bind: two paths of the same shape that lead to the same root start from the same
  leaf hash and have the same siblings, or they exhibit two inputs on which the node hash collides.\<close>

lemma imt_path_binding:
  assumes "map snd p = map snd q" and "path_root E h p = path_root E h' q"
  shows "h = h' \<and> p = q \<or> path_collision E h p h' q"
  by (rule path_root_binding [OF assms])

section \<open>Blobs\<close>

text \<open>C40: Decoding an encoded blob gives the records back, up to the first all-zero record; a blob is 4000
  elements of 32 bytes with a zero top byte, so that each is a canonical scalar of both fields.\<close>

theorem blob_round_trip:
  assumes "\<forall>r \<in> set records. wf_record r" and "encode_blob records = Inr fes"
  shows "decode_blob fes = Inr (takeWhile (\<lambda>r. r \<noteq> zero_record) records) \<and> length fes = 4000 \<and>
    (\<forall>k < 4000. length (fes ! k) = 32 \<and> fes ! k ! 0 = 0)"
proof -
  have "length (fes ! k) = 32 \<and> fes ! k ! 0 = 0" if "k < 4000" for k
    using encode_blob_fes(2) [OF assms(2), of "k div 4" "k mod 4"] that assms(1) by simp
  with decode_encode_blob [OF assms] encode_blob_fes(1) [OF assms(2)] show ?thesis by blast
qed

theorem blob_round_trip_witness:
  "\<exists>fes. encode_blob sample_records = Inr fes \<and> decode_blob fes = Inr sample_records"
proof -
  have "set sample_records = record_of ` set sample_subs"
    using arg_cong [OF sample_publish(5), of set_mset] by simp
  then have "takeWhile (\<lambda>r. r \<noteq> zero_record) sample_records = sample_records"
    unfolding takeWhile_eq_all_conv by (auto simp: record_of_def zero_record_def)
  moreover from encode_blob_ok [of sample_records] obtain fes where f: "encode_blob sample_records = Inr fes"
    by (auto simp: sample_records_wf)
  ultimately show ?thesis using blob_round_trip [OF sample_records_wf(1) f] f by simp
qed

section \<open>256-bit amounts\<close>

text \<open>The byte-wise addition of 256-bit amounts is addition, and it reports overflow exactly when the sum
  does not fit.\<close>

lemma u256_addition:
  assumes "length a = 32" and "length b = 32"
  shows "u256_checked_add a b =
    (if be_nat a + be_nat b < 2 ^ 256 then Some (be_bytes 32 (be_nat a + be_nat b)) else None)"
proof -
  obtain out carry where f: "foldr u256_add_step (zip a b) ([], 0) = (out, carry)" by force
  have v: "length out = 32" "unat carry \<le> 1" "be_nat out + unat carry * 256 ^ 32 = be_nat a + be_nat b"
    using u256_foldr_value [OF _ f] assms by auto
  have p: "(256 :: nat) ^ 32 = 2 ^ 256" by (simp add: power_mult [symmetric, of 2 8 32, simplified])
  have lt: "be_nat out < 2 ^ 256" using be_nat_less [of out] v(1) p by simp
  show ?thesis
  proof (cases "carry = 0")
    case True
    then have "be_nat a + be_nat b < 2 ^ 256" "be_bytes 32 (be_nat a + be_nat b) = out"
      using v lt be_bytes_be_nat [of out] by simp_all
    with True f show ?thesis by (simp add: u256_checked_add_def)
  next
    case False
    then have "unat carry = 1" using v(2) by (metis One_nat_def le_Suc_eq le_zero_eq unat_eq_zero)
    then have "\<not> be_nat a + be_nat b < 2 ^ 256" using v(3) p by simp
    with False f show ?thesis by (simp add: u256_checked_add_def)
  qed
qed

section \<open>Relay inboxes\<close>

text \<open>A relay's inbox is first in, first out: after any run of accepted submissions it holds what it held,
  followed by the submissions addressed to it, in order.\<close>

lemma relay_inbox_fifo:
  assumes "try_fold (\<lambda>m (i, s). relay_submit m i s) m xs = Inr m'" and "m i = Some q"
  shows "m' i = Some (q @ map snd (filter (\<lambda>(j, s). j = i) xs))"
  by (rule direct_relay.submissions_fifo [OF assms])

section \<open>Forward-secure ratchet tree\<close>

text \<open>The chain root commits to the slot values: chains of the same length with the same root are equal, or
  the two trees exhibit two inputs on which the node hash collides.\<close>

lemma chain_root_commits:
  assumes "compute_chain_root E vs = compute_chain_root E ws" and "length vs = length ws" and "length vs \<le> 2 ^ 24"
  shows "vs = ws \<or> tree_collision E (slot_leaves E vs) (slot_leaves E ws) 24"
  using chain_root_inject [of E vs ws] assms by (auto simp: FSRT_DEPTH_def)

text \<open>C32: What the caterpillar knows. Fed the values of the slots before the current one it never refuses one,
  and the path it then gives for the current slot is good for a chain that ends there: it leads to the
  root over the slots up to the current one. For a chain that goes on it leads to the chain root only if all
  later slot values are zero or the node hash collides, since the siblings to the right are taken as empty; in the
  last slot it always does.\<close>

theorem caterpillar_sees_prefix:
  assumes "t < length vs" and "length vs \<le> 2 ^ 24"
  shows "\<exists>c. foldl (\<lambda>oc v. Option.bind oc (\<lambda>c. caterpillar_advance E c (cp_t c) v)) (Some (caterpillar_empty E)) (take t vs) = Some c
    \<and> unat (cp_t c) = t
    \<and> (let root = path_root E (vs ! t) (zip (fst (path_for_current_slot c)) (snd (path_for_current_slot c))) in
       root = compute_chain_root E (take (Suc t) vs)
       \<and> ((\<forall>i. t < i \<and> i < length vs \<longrightarrow> vs ! i = fr_of E 0) \<longrightarrow> root = compute_chain_root E vs)
       \<and> (root = compute_chain_root E vs \<longrightarrow> (\<forall>i. t < i \<and> i < length vs \<longrightarrow> vs ! i = fr_of E 0)
            \<or> tree_collision E (slot_leaves E (take (Suc t) vs)) (slot_leaves E vs) 24))"
proof -
  have len: "length (take t vs) < 2 ^ 24" using assms by simp
  from caterpillar_fed [OF len, of E] obtain c where
    c: "foldl (\<lambda>oc v. Option.bind oc (\<lambda>c. caterpillar_advance E c (cp_t c) v)) (Some (caterpillar_empty E)) (take t vs) = Some c"
    "cat_ok E (take t vs) c" by blast
  have "path_root E (vs ! t) (zip (fst (path_for_current_slot c)) (snd (path_for_current_slot c))) = compute_chain_root E (take (Suc t) vs)"
    using caterpillar_path_root [OF c(2), of "vs ! t"] len assms(1) by (simp add: take_Suc_conv_app_nth FSRT_DEPTH_def)
  moreover have "unat (cp_t c) = t" using c(2) assms(1) by (simp add: cat_ok_def)
  ultimately show ?thesis using c(1) prefix_root_iff [OF assms, of E] by (auto simp: Let_def)
qed

theorem caterpillar_sees_prefix_witness:
  "\<exists>c. foldl (\<lambda>oc v. Option.bind oc (\<lambda>c. caterpillar_advance sample c (cp_t c) v)) (Some (caterpillar_empty sample)) [4, 5] = Some c
    \<and> unat (cp_t c) = 2
    \<and> path_root sample 6 (zip (fst (path_for_current_slot c)) (snd (path_for_current_slot c))) = compute_chain_root sample [4, 5, 6]
    \<and> path_root sample 6 (zip (fst (path_for_current_slot c)) (snd (path_for_current_slot c))) \<noteq> compute_chain_root sample [4, 5, 6, 7]"
proof -
  let ?f = "slot_leaves sample [4, 5, 6]" and ?g = "slot_leaves sample [4, 5, 6, 7]"
  have "node sample ?f 24 0 \<noteq> node sample ?g 24 0"
    by (rule sample_nodes_differ) (simp_all add: slot_leaves_def sample_node_2)
  then have "compute_chain_root sample [4, 5, 6] \<noteq> compute_chain_root sample [4, 5, 6, 7]"
    by (simp add: compute_chain_root_node FSRT_DEPTH_def)
  moreover have "2 < length [4, 5, 6, 7 :: sample_fr]" "length [4, 5, 6, 7 :: sample_fr] \<le> 2 ^ 24" by simp_all
  note caterpillar_sees_prefix [OF this, of sample]
  ultimately show ?thesis by (auto simp: Let_def)
qed

text \<open>Journaling is atomic. When persisting the new state fails, the state in memory is unchanged; when it succeeds what was
  persisted is the new state, the head has moved one slot, and every seed and value up to the signed slot is
  erased, so that no earlier slot can be signed from the state.\<close>

lemma journal_is_atomic:
  assumes "chain_ok E vs st" and "unat (ch_t st) < length vs"
  shows "\<exists>s st'. journal_finalized_signing E persist (ch_t st) st =
       (case persist (journal_bytes s) of Inl e \<Rightarrow> Some (Inl e, st) | Inr _ \<Rightarrow> Some (Inr s, st'))
     \<and> chain_ok E vs st' \<and> s = chain_to_bytes E st' \<and> unat (ch_t st') = Suc (unat (ch_t st))
     \<and> (\<forall>i < length vs. (i \<le> unat (ch_t st) \<longrightarrow> ch_v_values st' ! i = fr_of E 0 \<and> ch_s_seeds st' ! i = fr_of E 0)
          \<and> (unat (ch_t st) < i \<longrightarrow> ch_v_values st' ! i = ch_v_values st ! i \<and> ch_s_seeds st' ! i = ch_s_seeds st ! i))"
proof -
  from journal_ok [OF assms, of persist] obtain s st' where
    j: "journal_finalized_signing E persist (ch_t st) st =
       (case persist (journal_bytes s) of Inl e \<Rightarrow> Some (Inl e, st) | Inr _ \<Rightarrow> Some (Inr s, st'))"
    "chain_ok E vs st'" "s = chain_to_bytes E st'" "unat (ch_t st') = Suc (unat (ch_t st))"
    and w: "ch_v_values st' = wipe_upto E (unat (ch_t st)) (ch_v_values st)"
      "ch_s_seeds st' = wipe_upto E (unat (ch_t st)) (ch_s_seeds st)" by metis
  have "length (ch_v_values st) = length vs" "length (ch_s_seeds st) = length vs" using assms(1) by (simp_all add: chain_ok_def)
  then show ?thesis using j by (intro exI [of _ s] exI [of _ st']) (simp add: w nth_wipe)
qed

text \<open>C33: After journaling, the path a signer presents for its next slot no longer leads to its chain root, unless
  all erased values were zero or the node hash collides: the path is recomputed from the erased values.\<close>

theorem journaled_path_broken:
  assumes "chain_ok E vs st" and "ch_v_values st = vs" and "Suc (unat (ch_t st)) < length vs"
    and "journal_finalized_signing E persist (ch_t st) st = Some (Inr s, st')"
  shows "path_root E (vs ! unat (ch_t st')) (zip (fst (merkle_path_for_current_slot E st')) (snd (merkle_path_for_current_slot E st')))
      \<noteq> ch_chain_root st'
    \<or> (\<forall>i \<le> unat (ch_t st). vs ! i = fr_of E 0)
    \<or> tree_collision E (slot_leaves E (wipe_upto E (unat (ch_t st)) vs)) (slot_leaves E vs) 24"
proof -
  from journal_ok [OF assms(1), of persist] assms(3) obtain x y where
    j: "journal_finalized_signing E persist (ch_t st) st =
       (case persist (journal_bytes x) of Inl e \<Rightarrow> Some (Inl e, st) | Inr _ \<Rightarrow> Some (Inr x, y))"
    "chain_ok E vs y" "unat (ch_t y) = Suc (unat (ch_t st))" "ch_v_values y = wipe_upto E (unat (ch_t st)) vs"
    by (auto simp: assms(2))
  from j(1) assms(4) have "st' = y" by (cases "persist (journal_bytes x)") auto
  with j(2-4) have
    "chain_ok E vs st'" "unat (ch_t st') = Suc (unat (ch_t st))" "ch_v_values st' = wipe_upto E (unat (ch_t st)) vs"
    by auto
  with wiped_path_fails [of E vs st' "unat (ch_t st)"] assms(3) show ?thesis by (auto simp: FSRT_DEPTH_def)
qed

theorem journaled_path_broken_witness:
  "\<exists>st'. unat (ch_t st') = 1
    \<and> (path_root sample 2 (zip (fst (merkle_path_for_current_slot sample st')) (snd (merkle_path_for_current_slot sample st'))) \<noteq> ch_chain_root st'
       \<or> tree_collision sample (slot_leaves sample [0, 2]) (slot_leaves sample [6, 2]) 24)"
proof -
  let ?st = "sample_chain\<lparr>ch_v_values := [6, 2], ch_s_seeds := [7, 8], ch_chain_root := compute_chain_root sample [6, 2]\<rparr>"
  have ok: "chain_ok sample [6, 2] ?st" by (simp add: chain_ok_def sample_chain_def FSRT_DEPTH_def cat_empty_ok)
  from journal_ok [OF ok, of "\<lambda>_. Inr ()"] obtain s st' where
    j: "journal_finalized_signing sample (\<lambda>_. Inr ()) (ch_t ?st) ?st = Some (Inr s, st')" "unat (ch_t st') = 1"
    by (auto simp: sample_chain_def)
  have w: "wipe_upto sample 0 [6, 2] = [0, 2]" by (simp add: wipe_upto_def enumerated_def)
  from journaled_path_broken [OF ok _ _ j(1)] j(2) show ?thesis by (auto simp: sample_chain_def w)
qed

section \<open>Signing\<close>

text \<open>C34: Signing never panics on a well-formed signer. If the checks fail nothing changes. If they pass the
  head moves to the petition's slot -- also when the lookup of the credential or the proof generation fails
  afterwards -- while values, seeds, root, credentials and identity layer stay, and the signer stays well formed.\<close>

theorem sign_total:
  assumes "signer_ok E vs sg"
  shows "\<exists>r sg'. sign E PB RI p sg = Some (r, sg') \<and> signer_ok E vs sg'
    \<and> (case sign_checks E p sg of Inl e \<Rightarrow> r = Inl e \<and> sg' = sg
       | Inr _ \<Rightarrow> ch_t (sg_chain sg') = pm_slot p \<and> sg_credentials sg' = sg_credentials sg \<and> sg_ri sg' = sg_ri sg
           \<and> ch_v_values (sg_chain sg') = ch_v_values (sg_chain sg) \<and> ch_s_seeds (sg_chain sg') = ch_s_seeds (sg_chain sg)
           \<and> ch_chain_root (sg_chain sg') = ch_chain_root (sg_chain sg))"
  using sign_result [OF assms, of p PB RI] assms by auto

theorem sign_total_witness:
  "\<exists>r sg'. sign sample (mock_backend sample) (in_memory_ri_layer sample_lean) (sample_meta\<lparr>pm_slot := 1\<rparr>) sample_signer = Some (r, sg')
    \<and> r = Inl (SlotOutOfRange 1 1) \<and> sg' = sample_signer"
proof -
  have "sign_checks sample (sample_meta\<lparr>pm_slot := 1\<rparr>) sample_signer = Inl (SlotOutOfRange 1 1)"
    by (simp add: sign_checks_def sample_signer_def sample_chain_def chain_len_def Let_def)
  with sign_total [OF sample_signer_ok, of "mock_backend sample" "in_memory_ri_layer sample_lean" "sample_meta\<lparr>pm_slot := 1\<rparr>"]
  show ?thesis by auto
qed

text \<open>C35: One signature per signer and petition. Whatever a signer does in between, two signatures for the same
  petition carry the same nullifier and identity tag, and the relayer refuses a batch with both.\<close>

theorem double_signature_refused:
  assumes "signer_ok E vs sg" and "signer_ok E vs sg2" and "sg_credentials sg = sg_credentials sg2"
    and "sign E PB RI p sg = Some (Inr a, sg')" and "sign E PB RI p sg2 = Some (Inr b, sg2')"
  shows "ss_nullifier a = ss_nullifier b \<and> ss_identity_tag a = ss_identity_tag b
    \<and> (\<exists>e. build_batch E PB' BC c view pst [a, b] = (Inl e, pst, c))"
proof -
  from sign_submission [OF assms(1,4)] sign_submission [OF assms(2,5)] assms(3)
  have eq: "ss_nullifier a = ss_nullifier b" "ss_identity_tag a = ss_identity_tag b" by metis+
  then have "\<not> dup_free [a, b]" by (simp add: dup_free_def)
  then have "\<nexists>vs. check_batch E PB' view pst [a, b] = Inr vs" by (simp add: check_batch_Inr)
  then obtain e where "check_batch E PB' view pst [a, b] = Inl e" by (cases "check_batch E PB' view pst [a, b]") auto
  with eq show ?thesis by (simp add: build_batch_def)
qed

theorem double_signature_refused_witness:
  "\<exists>e. build_batch sample (mock_backend sample) (in_memory_blob_carrier sample) imb_new sample_view (rps_new sample)
     [sample_signed, sample_signed] = (Inl e, rps_new sample, imb_new)"
  by (rule double_signature_refused [OF sample_signer_ok sample_signer_ok refl sample_sign sample_sign, THEN conjunct2, THEN conjunct2])

text \<open>Enrollment and signing fit together: a signer enrolled with attributes that match the petition's class
  can sign in every slot of its chain, and the witness it hands to the prover carries a path from its slot
  value to the chain root published in its enrollment artifact.\<close>

lemma enrolled_signer_authenticates:
  assumes "field_laws E" and "length attrs = 4" and "unat n \<le> 2 ^ 24" and "unat (pm_slot p) < unat n"
    and "unat (pm_class_index p) < 4" and "attrs ! unat (pm_class_index p) = fr_of E (ucast (pm_class_tag p))"
  shows "\<exists>sg art r sg' v. signer_enroll E RI ri attrs n attr_version block seed os_seed os_secret = Some (sg, art)
    \<and> sign_checks E p sg = Inr () \<and> sign E PB RI p sg = Some (r, sg')
    \<and> v_at_current_slot (sg_chain sg') = Some v \<and> ea_chain_root art = fr_to_be_bytes E (sv_chain_root (sign_private E p sg' path))
    \<and> path_root E v (zip (sv_chain_path_siblings (sign_private E p sg' path)) (sv_chain_path_indices (sign_private E p sg' path)))
        = sv_chain_root (sign_private E p sg' path)"
proof -
  from enroll_ok [OF assms(2), of n E RI ri attr_version block seed os_seed os_secret] assms(3) obtain sg art vs where
    e: "signer_enroll E RI ri attrs n attr_version block seed os_seed os_secret = Some (sg, art)" "length vs = unat n"
    "signer_ok E vs sg" "ch_v_values (sg_chain sg) = vs" "ch_t (sg_chain sg) = 0"
    "ea_chain_root art = fr_to_be_bytes E (compute_chain_root E vs)"
    by (auto simp: FSRT_DEPTH_def)
  have a: "sc_attr_vector (sg_credentials sg) = map (fr_to_be_bytes E) attrs"
    using e(1) by (auto simp: signer_enroll_def Let_def split_beta)
  have "unat (chain_len (sg_chain sg)) = unat n" using chain_len_unat e(2,3) by (metis signer_ok_def)
  then have c: "sign_checks E p sg = Inr ()"
    using assms a e(5) by (simp add: sign_checks_def Let_def word_le_nat_alt)
  from sign_result [OF e(3), of p PB RI] c obtain r sg' where
    s: "sign E PB RI p sg = Some (r, sg')" "signer_ok E vs sg'" "ch_t (sg_chain sg') = pm_slot p" "ch_v_values (sg_chain sg') = vs"
    using e(4) by auto
  have "sv_chain_root (sign_private E p sg' path) = compute_chain_root E vs"
    using s(2) by (simp add: sign_private_def signer_ok_def chain_ok_def Let_def)
  with s sign_path_ok [OF s(2,4)] slot_value [OF s(2)] assms(4) e c show ?thesis by auto
qed

end
