(* ===== verification/Validium.thy ===== *)
theory Validium
  imports Merkle
begin

text \<open>
  The proof of concept \<open>pocs/diy-validium\<close>: the crate \<open>guest-crypto\<close>, the four guest
  programs (\<open>transfer.rs\<close>, \<open>withdrawal.rs\<close>, \<open>disclosure.rs\<close>, \<open>membership.rs\<close>) and the host
  library (\<open>merkle.rs\<close>, \<open>accounts.rs\<close>, \<open>journal.rs\<close>).

  SHA-256 (crate sha2) is the argument \<open>H\<close> of every definition that uses it. A guest program
  is a function from the values it reads, in the order it reads them, to the bytes it commits
  to its journal; an \<open>assert\<close>, an \<open>expect\<close> and an index out of bounds are errors. The encoder
  of \<open>env::commit\<close> (crate risc0-zkvm) is an argument of the one program that uses it. Vectors
  and tree depths are not bounded by the address space of the machine.
\<close>

datatype validium_error =
    MerkleRootMismatch
  | SelfTransfer
  | AmountNotPositive
  | InsufficientBalance
  | RecipientBalanceOverflow
  | SenderRecipientSame
  | IndexOutOfBounds
  | NewRootMismatch
  | BalanceBelowThreshold
  | DisclosureKeyHashMismatch
  | LeafPubkeyMismatch
  | JournalSize nat nat

type_synonym sha = "u8 list \<Rightarrow> bytes32"

section \<open>Shared cryptography\<close>

definition u64_to_le :: "u64 \<Rightarrow> u8 list" where
  "u64_to_le w = rev (u64_to_be w)"

definition hash_pair :: "sha \<Rightarrow> bytes32 \<Rightarrow> bytes32 \<Rightarrow> bytes32" where
  "hash_pair H left right = H (left @ right)"

definition account_commitment :: "sha \<Rightarrow> bytes32 \<Rightarrow> u64 \<Rightarrow> bytes32 \<Rightarrow> bytes32" where
  "account_commitment H pubkey balance salt = H (pubkey @ u64_to_le balance @ salt)"

definition compute_root :: "sha \<Rightarrow> bytes32 \<Rightarrow> bytes32 list \<Rightarrow> bool list \<Rightarrow> bytes32" where
  "compute_root H leaf path indices =
     foldl (\<lambda>current (sibling, is_right).
              if is_right then hash_pair H sibling current else hash_pair H current sibling)
       leaf (zip path indices)"

definition verify_membership ::
    "sha \<Rightarrow> bytes32 \<Rightarrow> bytes32 list \<Rightarrow> bool list \<Rightarrow> bytes32 \<Rightarrow> (validium_error, unit) result" where
  "verify_membership H leaf path indices expected_root =
     (if compute_root H leaf path indices \<noteq> expected_root then Inl MerkleRootMismatch else Inr ())"

section \<open>The root after two leaves change\<close>

text \<open>\<open>(0..depth).rev().find(|&i| sender_indices[i] != recipient_indices[i])\<close>.\<close>

fun find_divergence :: "bool list \<Rightarrow> bool list \<Rightarrow> nat \<Rightarrow> (validium_error, nat) result" where
  "find_divergence sender_indices recipient_indices 0 = Inl SenderRecipientSame"
| "find_divergence sender_indices recipient_indices (Suc i) =
     (if length sender_indices \<le> i \<or> length recipient_indices \<le> i then Inl IndexOutOfBounds
      else if sender_indices ! i \<noteq> recipient_indices ! i then Inr i
      else find_divergence sender_indices recipient_indices i)"

definition climb_step ::
    "sha \<Rightarrow> bytes32 list \<Rightarrow> bool list \<Rightarrow> bytes32 \<Rightarrow> nat \<Rightarrow> (validium_error, bytes32) result" where
  "climb_step H path indices current i =
     (if length indices \<le> i \<or> length path \<le> i then Inl IndexOutOfBounds
      else Inr (if indices ! i then hash_pair H (path ! i) current else hash_pair H current (path ! i)))"

definition compute_new_root ::
    "sha \<Rightarrow> bytes32 \<Rightarrow> bool list \<Rightarrow> bytes32 \<Rightarrow> bool list \<Rightarrow> bytes32 list \<Rightarrow> bytes32 list
     \<Rightarrow> (validium_error, bytes32) result" where
  "compute_new_root H sender_leaf sender_indices recipient_leaf recipient_indices sender_path recipient_path =
     (let depth = length sender_indices in
      and_then (find_divergence sender_indices recipient_indices depth) (\<lambda>divergence.
      and_then (try_fold (climb_step H sender_path sender_indices) sender_leaf [0..<divergence]) (\<lambda>sender_hash.
      and_then (try_fold (climb_step H recipient_path recipient_indices) recipient_leaf [0..<divergence])
        (\<lambda>recipient_hash.
        let current =
          (if sender_indices ! divergence then hash_pair H recipient_hash sender_hash
           else hash_pair H sender_hash recipient_hash)
        in try_fold (climb_step H sender_path sender_indices) current [divergence + 1..<depth]))))"

section \<open>Guest programs\<close>

record transfer_input =
  ti_sender_sk :: bytes32
  ti_sender_balance :: u64
  ti_sender_salt :: bytes32
  ti_sender_path :: "bytes32 list"
  ti_sender_indices :: "bool list"
  ti_amount :: u64
  ti_recipient_pubkey :: bytes32
  ti_recipient_balance :: u64
  ti_recipient_salt :: bytes32
  ti_recipient_path :: "bytes32 list"
  ti_recipient_indices :: "bool list"
  ti_new_sender_salt :: bytes32
  ti_new_recipient_salt :: bytes32

definition transfer_main :: "sha \<Rightarrow> transfer_input \<Rightarrow> (validium_error, u8 list) result" where
  "transfer_main H inp =
     (let sender_pubkey = H (ti_sender_sk inp); amount = ti_amount inp in
      if sender_pubkey = ti_recipient_pubkey inp then Inl SelfTransfer
      else if \<not> 0 < amount then Inl AmountNotPositive
      else if \<not> amount \<le> ti_sender_balance inp then Inl InsufficientBalance
      else if \<not> ti_recipient_balance inp \<le> - 1 - amount then Inl RecipientBalanceOverflow
      else
        (let sender_old_leaf = account_commitment H sender_pubkey (ti_sender_balance inp) (ti_sender_salt inp);
             old_root = compute_root H sender_old_leaf (ti_sender_path inp) (ti_sender_indices inp);
             recipient_old_leaf =
               account_commitment H (ti_recipient_pubkey inp) (ti_recipient_balance inp) (ti_recipient_salt inp)
         in and_then (verify_membership H recipient_old_leaf (ti_recipient_path inp)
                        (ti_recipient_indices inp) old_root) (\<lambda>_.
            let new_sender_balance = ti_sender_balance inp - amount;
                new_recipient_balance = ti_recipient_balance inp + amount;
                sender_new_leaf = account_commitment H sender_pubkey new_sender_balance (ti_new_sender_salt inp);
                recipient_new_leaf =
                  account_commitment H (ti_recipient_pubkey inp) new_recipient_balance (ti_new_recipient_salt inp)
            in and_then (compute_new_root H sender_new_leaf (ti_sender_indices inp) recipient_new_leaf
                           (ti_recipient_indices inp) (ti_sender_path inp) (ti_recipient_path inp)) (\<lambda>new_root.
               Inr (old_root @ new_root)))))"

record withdrawal_input =
  wi_secret_key :: bytes32
  wi_balance :: u64
  wi_salt :: bytes32
  wi_path :: "bytes32 list"
  wi_indices :: "bool list"
  wi_amount :: u64
  wi_new_salt :: bytes32
  wi_recipient :: address

definition withdrawal_main :: "sha \<Rightarrow> withdrawal_input \<Rightarrow> (validium_error, u8 list) result" where
  "withdrawal_main H inp =
     (let pubkey = H (wi_secret_key inp);
          old_leaf = account_commitment H pubkey (wi_balance inp) (wi_salt inp);
          old_root = compute_root H old_leaf (wi_path inp) (wi_indices inp);
          amount = wi_amount inp in
      if \<not> 0 < amount then Inl AmountNotPositive
      else if \<not> amount \<le> wi_balance inp then Inl InsufficientBalance
      else
        (let new_balance = wi_balance inp - amount;
             new_leaf = account_commitment H pubkey new_balance (wi_new_salt inp);
             new_root = compute_root H new_leaf (wi_path inp) (wi_indices inp)
         in Inr (old_root @ new_root @ u64_to_be amount @ wi_recipient inp)))"

record disclosure_input =
  di_secret_key :: bytes32
  di_balance :: u64
  di_salt :: bytes32
  di_path :: "bytes32 list"
  di_indices :: "bool list"
  di_threshold :: u64
  di_auditor_pubkey :: bytes32

definition disclosure_tag :: "u8 list" where
  "disclosure_tag = map (\<lambda>c. word_of_nat (of_char c)) ''disclosure_v1''"

definition disclosure_main :: "sha \<Rightarrow> disclosure_input \<Rightarrow> (validium_error, u8 list) result" where
  "disclosure_main H inp =
     (let pubkey = H (di_secret_key inp);
          leaf = account_commitment H pubkey (di_balance inp) (di_salt inp);
          merkle_root = compute_root H leaf (di_path inp) (di_indices inp) in
      if \<not> di_threshold inp \<le> di_balance inp then Inl BalanceBelowThreshold
      else
        (let disclosure_key_hash = H (pubkey @ di_auditor_pubkey inp @ disclosure_tag)
         in Inr (merkle_root @ u64_to_be (di_threshold inp) @ disclosure_key_hash)))"

record membership_input =
  mi_leaf :: bytes32
  mi_path :: "bytes32 list"
  mi_indices :: "bool list"
  mi_expected_root :: bytes32
  mi_pubkey :: bytes32

definition membership_main ::
    "sha \<Rightarrow> (bytes32 \<Rightarrow> u8 list) \<Rightarrow> membership_input \<Rightarrow> (validium_error, u8 list) result" where
  "membership_main H commit inp =
     (if mi_leaf inp \<noteq> mi_pubkey inp then Inl LeafPubkeyMismatch
      else
        (let computed_root = compute_root H (mi_leaf inp) (mi_path inp) (mi_indices inp) in
         if computed_root \<noteq> mi_expected_root inp then Inl MerkleRootMismatch
         else Inr (commit (mi_expected_root inp) @ commit (mi_pubkey inp))))"

section \<open>Host: the Merkle tree\<close>

record merkle_tree =
  mt_nodes :: "bytes32 list"
  mt_depth :: nat

record merkle_proof =
  mp_path :: "bytes32 list"
  mp_indices :: "bool list"

definition fill_leaf ::
    "nat \<Rightarrow> bytes32 list \<Rightarrow> nat \<times> bytes32 \<Rightarrow> (validium_error, bytes32 list) result" where
  "fill_leaf num_leaves nodes = (\<lambda>(i, leaf).
     if length nodes \<le> num_leaves + i then Inl IndexOutOfBounds else Inr (nodes[num_leaves + i := leaf]))"

definition build_node :: "sha \<Rightarrow> nat \<Rightarrow> bytes32 list \<Rightarrow> bytes32 list" where
  "build_node H i nodes = nodes[i := hash_pair H (nodes ! (2 * i)) (nodes ! (2 * i + 1))]"

definition from_leaves :: "sha \<Rightarrow> bytes32 list \<Rightarrow> nat \<Rightarrow> (validium_error, merkle_tree) result" where
  "from_leaves H leaves depth =
     (let num_leaves = 2 ^ depth; total_nodes = 2 * num_leaves in
      and_then (try_fold (fill_leaf num_leaves) (replicate total_nodes (zeros 32)) (enumerated leaves)) (\<lambda>nodes.
        Inr \<lparr>mt_nodes = fold (build_node H) (rev [1..<num_leaves]) nodes, mt_depth = depth\<rparr>))"

definition merkle_new :: "sha \<Rightarrow> bytes32 list \<Rightarrow> (validium_error, merkle_tree) result" where
  "merkle_new H leaves = from_leaves H leaves 20"

definition merkle_root :: "merkle_tree \<Rightarrow> bytes32" where
  "merkle_root t = mt_nodes t ! 1"

fun prove_levels :: "bytes32 list \<Rightarrow> nat \<Rightarrow> nat \<Rightarrow> (validium_error, (bytes32 \<times> bool) list) result" where
  "prove_levels nodes 0 node_idx = Inr []"
| "prove_levels nodes (Suc levels) node_idx =
     (let is_right = odd node_idx;
          sibling_idx = if is_right then node_idx - 1 else node_idx + 1 in
      if length nodes \<le> sibling_idx then Inl IndexOutOfBounds
      else and_then (prove_levels nodes levels (node_idx div 2)) (\<lambda>rest.
             Inr ((nodes ! sibling_idx, is_right) # rest)))"

definition prove :: "merkle_tree \<Rightarrow> nat \<Rightarrow> (validium_error, merkle_proof) result" where
  "prove t index =
     (let num_leaves = 2 ^ mt_depth t in
      and_then (prove_levels (mt_nodes t) (mt_depth t) (num_leaves + index)) (\<lambda>steps.
        Inr \<lparr>mp_path = map fst steps, mp_indices = map snd steps\<rparr>))"

definition proof_verify :: "sha \<Rightarrow> merkle_proof \<Rightarrow> bytes32 \<Rightarrow> bytes32 \<Rightarrow> bool" where
  "proof_verify H p leaf root \<longleftrightarrow>
     foldl (\<lambda>current (sibling, is_right).
              if is_right then hash_pair H sibling current else hash_pair H current sibling)
       leaf (zip (mp_path p) (mp_indices p)) = root"

section \<open>Host: replicas of the guest programs\<close>

definition compute_single_leaf_root :: "sha \<Rightarrow> bytes32 \<Rightarrow> bytes32 list \<Rightarrow> bool list \<Rightarrow> bytes32" where
  "compute_single_leaf_root H new_leaf path indices =
     foldl (\<lambda>current (sibling, is_right).
              if is_right then hash_pair H sibling current else hash_pair H current sibling)
       new_leaf (zip path indices)"

definition verify_transfer ::
    "sha \<Rightarrow> transfer_input \<Rightarrow> bytes32 \<Rightarrow> bytes32 \<Rightarrow> (validium_error, unit) result" where
  "verify_transfer H inp old_root new_root =
     (let sender_pubkey = H (ti_sender_sk inp); amount = ti_amount inp in
      if sender_pubkey = ti_recipient_pubkey inp then Inl SelfTransfer
      else
        (let sender_old_leaf = account_commitment H sender_pubkey (ti_sender_balance inp) (ti_sender_salt inp);
             recipient_old_leaf =
               account_commitment H (ti_recipient_pubkey inp) (ti_recipient_balance inp) (ti_recipient_salt inp)
         in and_then (verify_membership H sender_old_leaf (ti_sender_path inp) (ti_sender_indices inp) old_root) (\<lambda>_.
            and_then (verify_membership H recipient_old_leaf (ti_recipient_path inp)
                        (ti_recipient_indices inp) old_root) (\<lambda>_.
            if \<not> 0 < amount then Inl AmountNotPositive
            else if \<not> amount \<le> ti_sender_balance inp then Inl InsufficientBalance
            else if \<not> ti_recipient_balance inp \<le> - 1 - amount then Inl RecipientBalanceOverflow
            else
              (let new_sender_balance = ti_sender_balance inp - amount;
                   new_recipient_balance = ti_recipient_balance inp + amount;
                   sender_new_leaf = account_commitment H sender_pubkey new_sender_balance (ti_new_sender_salt inp);
                   recipient_new_leaf =
                     account_commitment H (ti_recipient_pubkey inp) new_recipient_balance (ti_new_recipient_salt inp)
               in and_then (compute_new_root H sender_new_leaf (ti_sender_indices inp) recipient_new_leaf
                              (ti_recipient_indices inp) (ti_sender_path inp) (ti_recipient_path inp))
                    (\<lambda>computed_new_root.
                  if computed_new_root \<noteq> new_root then Inl NewRootMismatch else Inr ()))))))"

definition verify_withdrawal ::
    "sha \<Rightarrow> withdrawal_input \<Rightarrow> bytes32 \<Rightarrow> bytes32 \<Rightarrow> (validium_error, unit) result" where
  "verify_withdrawal H inp old_root new_root =
     (let pubkey = H (wi_secret_key inp);
          old_leaf = account_commitment H pubkey (wi_balance inp) (wi_salt inp);
          amount = wi_amount inp
      in and_then (verify_membership H old_leaf (wi_path inp) (wi_indices inp) old_root) (\<lambda>_.
         if \<not> 0 < amount then Inl AmountNotPositive
         else if \<not> amount \<le> wi_balance inp then Inl InsufficientBalance
         else
           (let new_balance = wi_balance inp - amount;
                new_leaf = account_commitment H pubkey new_balance (wi_new_salt inp);
                computed_new_root = compute_single_leaf_root H new_leaf (wi_path inp) (wi_indices inp)
            in if computed_new_root \<noteq> new_root then Inl NewRootMismatch else Inr ())))"

definition compute_disclosure_key_hash :: "sha \<Rightarrow> bytes32 \<Rightarrow> bytes32 \<Rightarrow> bytes32" where
  "compute_disclosure_key_hash H pubkey auditor_pubkey = H (pubkey @ auditor_pubkey @ disclosure_tag)"

definition verify_disclosure ::
    "sha \<Rightarrow> disclosure_input \<Rightarrow> bytes32 \<Rightarrow> bytes32 \<Rightarrow> (validium_error, unit) result" where
  "verify_disclosure H inp expected_root expected_disclosure_key_hash =
     (let pubkey = H (di_secret_key inp);
          leaf = account_commitment H pubkey (di_balance inp) (di_salt inp)
      in and_then (verify_membership H leaf (di_path inp) (di_indices inp) expected_root) (\<lambda>_.
         if \<not> di_threshold inp \<le> di_balance inp then Inl BalanceBelowThreshold
         else if compute_disclosure_key_hash H pubkey (di_auditor_pubkey inp) \<noteq> expected_disclosure_key_hash
         then Inl DisclosureKeyHashMismatch
         else Inr ()))"

section \<open>Host: accounts\<close>

record account =
  ac_pubkey :: bytes32
  ac_balance :: u64
  ac_salt :: bytes32

record account_store =
  as_accounts :: "account list"

definition store_new :: account_store where
  "store_new = \<lparr>as_accounts = []\<rparr>"

definition store_len :: "account_store \<Rightarrow> nat" where
  "store_len s = length (as_accounts s)"

definition store_is_empty :: "account_store \<Rightarrow> bool" where
  "store_is_empty s \<longleftrightarrow> as_accounts s = []"

definition add_account :: "account_store \<Rightarrow> account \<Rightarrow> nat \<times> account_store" where
  "add_account s a = (length (as_accounts s), s\<lparr>as_accounts := as_accounts s @ [a]\<rparr>)"

definition get_account :: "account_store \<Rightarrow> nat \<Rightarrow> (validium_error, account) result" where
  "get_account s index =
     (if length (as_accounts s) \<le> index then Inl IndexOutOfBounds else Inr (as_accounts s ! index))"

definition update_balance ::
    "account_store \<Rightarrow> nat \<Rightarrow> u64 \<Rightarrow> bytes32 \<Rightarrow> (validium_error, account_store) result" where
  "update_balance s index new_balance new_salt =
     (if length (as_accounts s) \<le> index then Inl IndexOutOfBounds
      else Inr (s\<lparr>as_accounts := (as_accounts s)
             [index := (as_accounts s ! index)\<lparr>ac_balance := new_balance, ac_salt := new_salt\<rparr>]\<rparr>))"

definition commitments :: "sha \<Rightarrow> account_store \<Rightarrow> bytes32 list" where
  "commitments H s = map (\<lambda>a. account_commitment H (ac_pubkey a) (ac_balance a) (ac_salt a)) (as_accounts s)"

definition build_tree :: "sha \<Rightarrow> account_store \<Rightarrow> nat \<Rightarrow> (validium_error, merkle_tree) result" where
  "build_tree H s depth = from_leaves H (commitments H s) depth"

section \<open>Host: journals\<close>

record transfer_journal =
  tj_old_root :: bytes32
  tj_new_root :: bytes32

record withdrawal_journal =
  wj_old_root :: bytes32
  wj_new_root :: bytes32
  wj_amount :: u64
  wj_recipient :: address

record disclosure_journal =
  dj_merkle_root :: bytes32
  dj_threshold :: u64
  dj_disclosure_key_hash :: bytes32

definition transfer_journal_from_bytes :: "u8 list \<Rightarrow> (validium_error, transfer_journal) result" where
  "transfer_journal_from_bytes bytes =
     (if length bytes \<noteq> 64 then Inl (JournalSize 64 (length bytes))
      else Inr \<lparr>tj_old_root = slice 0 32 bytes, tj_new_root = slice 32 64 bytes\<rparr>)"

definition withdrawal_journal_from_bytes :: "u8 list \<Rightarrow> (validium_error, withdrawal_journal) result" where
  "withdrawal_journal_from_bytes bytes =
     (if length bytes \<noteq> 92 then Inl (JournalSize 92 (length bytes))
      else Inr \<lparr>wj_old_root = slice 0 32 bytes, wj_new_root = slice 32 64 bytes,
                wj_amount = from_be (slice 64 72 bytes), wj_recipient = slice 72 92 bytes\<rparr>)"

definition disclosure_journal_from_bytes :: "u8 list \<Rightarrow> (validium_error, disclosure_journal) result" where
  "disclosure_journal_from_bytes bytes =
     (if length bytes \<noteq> 72 then Inl (JournalSize 72 (length bytes))
      else Inr \<lparr>dj_merkle_root = slice 0 32 bytes, dj_threshold = from_be (slice 32 40 bytes),
                dj_disclosure_key_hash = slice 40 72 bytes\<rparr>)"

section \<open>Host: requests to the guests\<close>

text \<open>The values \<open>main.rs\<close> writes to the guests for accounts of the store and their proofs.\<close>

definition transfer_env ::
    "bytes32 \<Rightarrow> account \<Rightarrow> merkle_proof \<Rightarrow> u64 \<Rightarrow> account \<Rightarrow> merkle_proof \<Rightarrow> bytes32 \<Rightarrow> bytes32 \<Rightarrow> transfer_input" where
  "transfer_env sender_sk sender sender_proof amount recipient recipient_proof new_sender_salt new_recipient_salt =
     \<lparr>ti_sender_sk = sender_sk, ti_sender_balance = ac_balance sender, ti_sender_salt = ac_salt sender,
      ti_sender_path = mp_path sender_proof, ti_sender_indices = mp_indices sender_proof, ti_amount = amount,
      ti_recipient_pubkey = ac_pubkey recipient, ti_recipient_balance = ac_balance recipient,
      ti_recipient_salt = ac_salt recipient, ti_recipient_path = mp_path recipient_proof,
      ti_recipient_indices = mp_indices recipient_proof, ti_new_sender_salt = new_sender_salt,
      ti_new_recipient_salt = new_recipient_salt\<rparr>"

definition withdrawal_env ::
    "bytes32 \<Rightarrow> account \<Rightarrow> merkle_proof \<Rightarrow> u64 \<Rightarrow> bytes32 \<Rightarrow> address \<Rightarrow> withdrawal_input" where
  "withdrawal_env sk acct prf amount new_salt eth_recipient =
     \<lparr>wi_secret_key = sk, wi_balance = ac_balance acct, wi_salt = ac_salt acct, wi_path = mp_path prf,
      wi_indices = mp_indices prf, wi_amount = amount, wi_new_salt = new_salt, wi_recipient = eth_recipient\<rparr>"

definition disclosure_env ::
    "bytes32 \<Rightarrow> account \<Rightarrow> merkle_proof \<Rightarrow> u64 \<Rightarrow> bytes32 \<Rightarrow> disclosure_input" where
  "disclosure_env sk acct prf threshold auditor_pubkey =
     \<lparr>di_secret_key = sk, di_balance = ac_balance acct, di_salt = ac_salt acct, di_path = mp_path prf,
      di_indices = mp_indices prf, di_threshold = threshold, di_auditor_pubkey = auditor_pubkey\<rparr>"

end
