(* ===== verification/Validium_Tree.thy ===== *)
theory Validium_Tree
  imports Validium
begin

text \<open>
  The trees of the validium against the reference of theory \<open>Merkle\<close>: \<open>from_leaves\<close> fills its
  array with the nodes of the complete tree over the padded leaves, \<open>prove\<close> reads the
  authentication path off it, and \<open>compute_new_root\<close> on the paths of two leaves gives the root of
  the tree in which both are replaced.
\<close>

lemma compute_root_climb: "compute_root H leaf path indices = climb (hash_pair H) leaf (zip path indices)"
  by (simp add: compute_root_def climb_foldl join_def)

lemma proof_verify_climb:
  "proof_verify H p leaf root \<longleftrightarrow> climb (hash_pair H) leaf (zip (mp_path p) (mp_indices p)) = root"
  by (simp add: proof_verify_def climb_foldl join_def)

lemma compute_single_leaf_root_eq [simp]: "compute_single_leaf_root = compute_root"
  by (intro ext) (simp add: compute_single_leaf_root_def compute_root_def)

lemma verify_membership_Inr [simp]:
  "verify_membership H leaf path indices root = Inr u \<longleftrightarrow> compute_root H leaf path indices = root"
  by (simp add: verify_membership_def)

section \<open>Building the tree\<close>

definition padded :: "bytes32 list \<Rightarrow> nat \<Rightarrow> bytes32" where
  "padded leaves i = (if i < length leaves then leaves ! i else zeros 32)"

definition root_of :: "sha \<Rightarrow> nat \<Rightarrow> bytes32 list \<Rightarrow> bytes32" where
  "root_of H d leaves = tree_node (hash_pair H) (padded leaves) d 0"

lemma padded_update: "i < length leaves \<Longrightarrow> padded (leaves[i := x]) = (padded leaves)(i := x)"
  by (auto simp: padded_def)

lemma enumerated_snoc: "enumerated (xs @ [x]) = enumerated xs @ [(length xs, x)]"
  by (simp add: enumerated_def)

lemma fill_leaves:
  "n + length leaves \<le> length ns \<Longrightarrow>
   try_fold (fill_leaf n) ns (enumerated leaves) = Inr (take n ns @ leaves @ drop (n + length leaves) ns)"
proof (induction leaves rule: rev_induct)
  case (snoc x xs)
  let ?ns = "take n ns @ xs @ drop (n + length xs) ns"
  have "?ns[n + length xs := x] = take n ns @ xs @ x # drop (Suc (n + length xs)) ns"
    using snoc.prems by (simp add: list_update_append min_absorb2 Cons_nth_drop_Suc [symmetric])
  then show ?case using snoc by (simp add: enumerated_snoc try_fold_append fill_leaf_def)
qed (simp add: enumerated_def)

lemma fill_leaves_overflow:
  assumes "length ns = 2 * n" and "n < length leaves"
  shows "try_fold (fill_leaf n) ns (enumerated leaves) = Inl IndexOutOfBounds"
proof -
  let ?xs = "take n leaves" and ?x = "leaves ! n" and ?ys = "drop (Suc n) leaves"
  have l: "enumerated leaves = enumerated ?xs @ (n, ?x) # drop (Suc n) (enumerated leaves)"
  proof -
    have "take n (enumerated leaves) = enumerated ?xs"
      using assms(2) by (simp add: enumerated_def take_zip)
    moreover have "enumerated leaves ! n = (n, ?x)" using assms(2) by (simp add: enumerated_def)
    ultimately show ?thesis using id_take_nth_drop [of n "enumerated leaves"] assms(2) by simp
  qed
  have f: "try_fold (fill_leaf n) ns (enumerated ?xs) = Inr (take n ns @ ?xs @ drop (n + length ?xs) ns)"
    by (rule fill_leaves) (use assms in simp)
  show ?thesis
    by (subst l, subst try_fold_append, subst f) (use assms in \<open>simp add: fill_leaf_def\<close>)
qed

lemma build_nodes:
  assumes "1 \<le> a" and "a \<le> n" and "2 * n \<le> length ns"
  shows "length (fold (build_node H) (rev [a..<n]) ns) = length ns
    \<and> (\<forall>k. \<not> (a \<le> k \<and> k < n) \<longrightarrow> fold (build_node H) (rev [a..<n]) ns ! k = ns ! k)
    \<and> (\<forall>k. a \<le> k \<and> k < n \<longrightarrow> fold (build_node H) (rev [a..<n]) ns ! k =
         hash_pair H (fold (build_node H) (rev [a..<n]) ns ! (2 * k)) (fold (build_node H) (rev [a..<n]) ns ! (2 * k + 1)))"
  using assms(2,1)
proof (induction rule: inc_induct)
  case (step a)
  define m where "m = fold (build_node H) (rev [Suc a..<n]) ns"
  have f: "fold (build_node H) (rev [a..<n]) ns = build_node H a m"
    using step.hyps by (simp add: upt_conv_Cons m_def)
  from step.IH have IH: "length m = length ns" "\<And>k. \<not> (Suc a \<le> k \<and> k < n) \<Longrightarrow> m ! k = ns ! k"
    "\<And>k. Suc a \<le> k \<Longrightarrow> k < n \<Longrightarrow> m ! k = hash_pair H (m ! (2 * k)) (m ! (2 * k + 1))"
    unfolding m_def by auto
  have b: "build_node H a m ! k = (if k = a then hash_pair H (m ! (2 * a)) (m ! (2 * a + 1)) else m ! k)" for k
    using step.hyps assms(3) IH(1) by (simp add: build_node_def)
  have "build_node H a m ! k = hash_pair H (build_node H a m ! (2 * k)) (build_node H a m ! (2 * k + 1))"
    if "a \<le> k" "k < n" for k
  proof -
    have "2 * k \<noteq> a" "2 * k + 1 \<noteq> a" using that step.prems by auto
    then show ?thesis using that IH(3) [of k] by (simp add: b)
  qed
  then show ?case unfolding f using IH(1,2) step.hyps by (auto simp: b build_node_def [of H a m])
qed auto

text \<open>Slot \<open>2 ^ (d - l) + i\<close> of the array holds node \<open>i\<close> of level \<open>l\<close>.\<close>

definition tree_holds :: "sha \<Rightarrow> nat \<Rightarrow> bytes32 list \<Rightarrow> merkle_tree \<Rightarrow> bool" where
  "tree_holds H d leaves t \<longleftrightarrow> mt_depth t = d \<and> length (mt_nodes t) = 2 * 2 ^ d
     \<and> (\<forall>l \<le> d. \<forall>i < 2 ^ (d - l). mt_nodes t ! (2 ^ (d - l) + i) = tree_node (hash_pair H) (padded leaves) l i)"

lemma from_leaves_holds:
  assumes "length leaves \<le> 2 ^ d"
  shows "\<exists>t. from_leaves H leaves d = Inr t \<and> tree_holds H d leaves t"
proof -
  let ?n = "2 ^ d :: nat" and ?ns = "replicate (2 * 2 ^ d) (zeros 32)"
  let ?ns1 = "take ?n ?ns @ leaves @ drop (?n + length leaves) ?ns"
  define ns where "ns = fold (build_node H) (rev [1..<?n]) ?ns1"
  have len1: "length ?ns1 = 2 * 2 ^ d" using assms by simp
  have leaf: "?ns1 ! (?n + i) = padded leaves i" if "i < ?n" for i
    using that assms by (auto simp: nth_append padded_def)
  have B: "length ns = 2 * 2 ^ d" "\<And>k. ?n \<le> k \<Longrightarrow> ns ! k = ?ns1 ! k"
    "\<And>k. 1 \<le> k \<Longrightarrow> k < ?n \<Longrightarrow> ns ! k = hash_pair H (ns ! (2 * k)) (ns ! (2 * k + 1))"
    using build_nodes [of 1 ?n ?ns1 H] len1 unfolding ns_def by auto
  have "\<forall>i < 2 ^ (d - l). ns ! (2 ^ (d - l) + i) = tree_node (hash_pair H) (padded leaves) l i" if "l \<le> d" for l
    using that
  proof (induction l)
    case 0
    then show ?case using leaf B(2) by simp
  next
    case (Suc l)
    define q where "q = (2 :: nat) ^ (d - Suc l)"
    have q: "2 ^ (d - l) = 2 * q" using Suc.prems by (simp add: q_def Suc_diff_Suc [symmetric] del: diff_Suc)
    have "2 * q \<le> ?n" unfolding q [symmetric] by simp
    then have p: "ns ! (q + i) = hash_pair H (ns ! (2 * q + 2 * i)) (ns ! (2 * q + (2 * i + 1)))" if "i < q" for i
      using B(3) [of "q + i"] that by (simp add: algebra_simps)
    have c: "ns ! (2 * q + i) = tree_node (hash_pair H) (padded leaves) l i" if "i < 2 * q" for i
      using Suc that by (simp add: q)
    have "ns ! (q + i) = tree_node (hash_pair H) (padded leaves) (Suc l) i" if "i < q" for i
      unfolding tree_node.simps p [OF that] using that by (simp only: c)
    then show ?case unfolding q_def [symmetric] by blast
  qed
  then have "tree_holds H d leaves \<lparr>mt_nodes = ns, mt_depth = d\<rparr>"
    using B(1) by (simp add: tree_holds_def)
  moreover have "from_leaves H leaves d = Inr \<lparr>mt_nodes = ns, mt_depth = d\<rparr>"
    using fill_leaves [of ?n leaves ?ns] assms by (simp add: from_leaves_def ns_def Let_def)
  ultimately show ?thesis by blast
qed

lemma from_leaves_overflow: "2 ^ d < length leaves \<Longrightarrow> from_leaves H leaves d = Inl IndexOutOfBounds"
  by (simp add: from_leaves_def fill_leaves_overflow Let_def)

lemma tree_holds_root: "tree_holds H d leaves t \<Longrightarrow> merkle_root t = root_of H d leaves"
  by (force simp: tree_holds_def merkle_root_def root_of_def)

section \<open>Reading paths off the tree\<close>

lemma prove_levels_path:
  assumes "tree_holds H d leaves t" and "i < 2 ^ d" and "m \<le> d"
  shows "prove_levels (mt_nodes t) (d - m) (2 ^ (d - m) + i div 2 ^ m) =
    Inr (map (\<lambda>l. (tree_node (hash_pair H) (padded leaves) l (sibling (i div 2 ^ l)), odd (i div 2 ^ l))) [m..<d])"
  using assms(3)
proof (induction rule: inc_induct)
  case (step m)
  let ?j = "i div 2 ^ m"
  define q where "q = (2 :: nat) ^ (d - Suc m)"
  have dm: "d - m = Suc (d - Suc m)" and q: "2 ^ (d - m) = 2 * q"
    using step.hyps by (simp_all add: q_def Suc_diff_Suc [symmetric] del: diff_Suc)
  have "?j < 2 ^ (d - m)"
    using assms(2) step.hyps by (simp add: less_mult_imp_div_less power_add [symmetric] mult.commute)
  then have j: "?j div 2 < q" using q by linarith
  have s: "sibling ?j < 2 * q" using j sibling_div [of ?j] by linarith
  have sib: "(if odd (2 * q + ?j) then 2 * q + ?j - 1 else 2 * q + ?j + 1) = 2 * q + sibling ?j"
    by (auto simp: sibling_def elim: oddE)
  have n: "mt_nodes t ! (2 * q + sibling ?j) = tree_node (hash_pair H) (padded leaves) m (sibling ?j)"
    "length (mt_nodes t) = 2 * 2 ^ d"
    using assms(1) step.hyps s q [symmetric] unfolding tree_holds_def by (metis less_imp_le_nat, blast)
  have "2 * q \<le> 2 ^ d" unfolding q [symmetric] by simp
  with s have "\<not> length (mt_nodes t) \<le> 2 * q + sibling ?j" using n(2) by linarith
  moreover have "(2 * q + ?j) div 2 = q + i div 2 ^ Suc m" unfolding div_pow_Suc by simp
  moreover have "2 ^ Suc (d - Suc m) = 2 * q" "odd (2 * q + ?j) = odd ?j" by (simp_all add: q_def)
  moreover have "[m..<d] = m # [Suc m..<d]" using step.hyps by (simp add: upt_conv_Cons)
  ultimately show ?case
    unfolding dm prove_levels.simps Let_def using step.IH n(1) sib by (simp only: q_def [symmetric]) simp
qed simp

lemma prove_path:
  assumes "tree_holds H d leaves t" and "i < 2 ^ d"
  shows "prove t i = Inr \<lparr>mp_path = path_sibs (hash_pair H) (padded leaves) d i, mp_indices = path_bits d i\<rparr>"
  using prove_levels_path [OF assms, of 0] assms(1)
  by (simp add: prove_def tree_holds_def path_sibs_def path_bits_def comp_def)

section \<open>Replacing two leaves\<close>

lemma climb_steps:
  "b \<le> length path \<Longrightarrow> b \<le> length indices \<Longrightarrow> a \<le> b \<Longrightarrow>
   try_fold (climb_step H path indices) c [a..<b] =
     Inr (climb (hash_pair H) c (map (\<lambda>l. (path ! l, indices ! l)) [a..<b]))"
proof (induction b)
  case (Suc b)
  show ?case
  proof (cases "a \<le> b")
    case True
    with Suc show ?thesis by (simp add: try_fold_append climb_append climb_step_def join_def)
  next
    case False
    with Suc.prems show ?thesis by simp
  qed
qed simp

lemma climb_levels:
  "a \<le> b \<Longrightarrow>
   climb h (tree_node h f a (i div 2 ^ a)) (map (\<lambda>l. (tree_node h f l (sibling (i div 2 ^ l)), odd (i div 2 ^ l))) [a..<b])
     = tree_node h f b (i div 2 ^ b)"
proof (induction rule: dec_induct)
  case (step b)
  then show ?case
    by (simp add: climb_append div_pow_Suc tree_node_parent del: tree_node.simps power_Suc)
qed simp

lemma climb_steps_path:
  assumes "b \<le> d" and "a \<le> b" and "\<And>l. a \<le> l \<Longrightarrow> l < b \<Longrightarrow> ps ! l = tree_node (hash_pair H) f l (sibling (i div 2 ^ l))"
    and "length ps = d" and "d \<le> length bs" and "\<And>l. l < b \<Longrightarrow> bs ! l = odd (i div 2 ^ l)"
  shows "try_fold (climb_step H ps bs) (tree_node (hash_pair H) f a (i div 2 ^ a)) [a..<b] =
    Inr (tree_node (hash_pair H) f b (i div 2 ^ b))"
proof -
  have m: "map (\<lambda>l. (ps ! l, bs ! l)) [a..<b] =
    map (\<lambda>l. (tree_node (hash_pair H) f l (sibling (i div 2 ^ l)), odd (i div 2 ^ l))) [a..<b]"
    using assms(3,6) by simp
  show ?thesis using climb_steps [of b ps bs a H] assms(1,2,4,5) by (simp only: m climb_levels)
qed

lemma find_divergence_bits:
  assumes "i \<noteq> j" and "n \<le> d" and "i div 2 ^ n = j div 2 ^ n"
  shows "\<exists>k < n. find_divergence (path_bits d i) (path_bits d j) n = Inr k
    \<and> i div 2 ^ k \<noteq> j div 2 ^ k \<and> i div 2 ^ Suc k = j div 2 ^ Suc k"
  using assms(2,3)
proof (induction n)
  case (Suc n)
  show ?case
  proof (cases "odd (i div 2 ^ n) = odd (j div 2 ^ n)")
    case True
    with Suc.prems(2) have "i div 2 ^ n = j div 2 ^ n" unfolding div_pow_Suc
      by (metis mult_div_mod_eq odd_iff_mod_2_eq_one not_mod_2_eq_1_eq_0)
    with Suc True show ?thesis by (auto simp: less_Suc_eq)
  next
    case False
    with Suc.prems show ?thesis by (auto simp: less_Suc_eq)
  qed
qed (use assms(1) in simp)

text \<open>The optimised routine against the reference: on the paths of two different leaves it gives the
  root of the tree in which both leaves are replaced.\<close>

lemma compute_new_root_two:
  assumes "i < 2 ^ d" and "j < 2 ^ d" and "i \<noteq> j"
  shows "compute_new_root H x (path_bits d i) y (path_bits d j)
      (path_sibs (hash_pair H) f d i) (path_sibs (hash_pair H) f d j) =
    Inr (tree_node (hash_pair H) (f(i := x, j := y)) d 0)"
proof -
  let ?h = "hash_pair H" and ?g = "f(i := x, j := y)"
  have z: "i div 2 ^ d = 0" "j div 2 ^ d = 0" using assms by simp_all
  obtain k where k: "k < d" "find_divergence (path_bits d i) (path_bits d j) d = Inr k"
    and ne: "i div 2 ^ k \<noteq> j div 2 ^ k" and eq: "i div 2 ^ Suc k = j div 2 ^ Suc k"
    using find_divergence_bits [OF assms(3) order_refl, of d] z by auto
  have low: "i div 2 ^ l \<noteq> j div 2 ^ l" if "l \<le> k" for l
    using ne that by (metis div_mult2_eq le_add_diff_inverse power_add)
  have high: "i div 2 ^ l = j div 2 ^ l" if "k < l" for l
    using eq that by (metis Suc_leI div_mult2_eq le_add_diff_inverse power_add)
  have sib: "sibling (i div 2 ^ k) = j div 2 ^ k"
    using ne eq unfolding div_pow_Suc by (metis sibling_iff)
  have 1: "try_fold (climb_step H (path_sibs ?h f d i) (path_bits d i)) x [0..<k] =
      Inr (tree_node ?h (f(i := x)) k (i div 2 ^ k))"
    using climb_steps_path [of k d 0 "path_sibs ?h f d i" H "f(i := x)" i "path_bits d i"] k(1)
    by (simp add: tree_node_frame)
  have 2: "try_fold (climb_step H (path_sibs ?h f d j) (path_bits d j)) y [0..<k] =
      Inr (tree_node ?h (f(j := y)) k (j div 2 ^ k))"
    using climb_steps_path [of k d 0 "path_sibs ?h f d j" H "f(j := y)" j "path_bits d j"] k(1)
    by (simp add: tree_node_frame)
  have b: "tree_node ?h (f(i := x)) k (i div 2 ^ k) = tree_node ?h ?g k (i div 2 ^ k)"
    "tree_node ?h (f(j := y)) k (j div 2 ^ k) = tree_node ?h ?g k (j div 2 ^ k)"
    using ne by (simp add: tree_node_frame) (subst fun_upd_twist [OF assms(3)], use ne in \<open>simp add: tree_node_frame\<close>)
  have cur: "(if path_bits d i ! k then ?h (tree_node ?h ?g k (j div 2 ^ k)) (tree_node ?h ?g k (i div 2 ^ k))
      else ?h (tree_node ?h ?g k (i div 2 ^ k)) (tree_node ?h ?g k (j div 2 ^ k)))
    = tree_node ?h ?g (Suc k) (i div 2 ^ Suc k)"
    unfolding div_pow_Suc tree_node_parent using k(1) sib by (simp add: join_def)
  have "path_sibs ?h f d i ! l = tree_node ?h ?g l (sibling (i div 2 ^ l))" if "Suc k \<le> l" "l < d" for l
    using that high [of l] by (simp add: tree_node_frame)
  then have 3: "try_fold (climb_step H (path_sibs ?h f d i) (path_bits d i))
      (tree_node ?h ?g (Suc k) (i div 2 ^ Suc k)) [Suc k..<d] = Inr (tree_node ?h ?g d 0)"
    using climb_steps_path [of d d "Suc k" "path_sibs ?h f d i" H ?g i "path_bits d i"] k(1) z(1) by simp
  show ?thesis
    unfolding compute_new_root_def Let_def using k(2) 1 2 3 cur b by simp
qed

end
