(* ===== verification/Validium_Store.thy ===== *)
theory Validium_Store
  imports Validium_Tree
begin

text \<open>
  The guest programs on the operator's store: what a transfer and a withdrawal of stored accounts
  commit to, when the guests accept, the journals and their lengths, and the steps of an operator
  (\<open>operator_step\<close>: store, root on the chain, sum paid out) with the invariant that the root is
  the root of the store and no balance is lost or made. SHA-256 is any function with digests of
  32 bytes.
\<close>

section \<open>Stores and balances\<close>

definition total_balance :: "account_store \<Rightarrow> nat" where
  "total_balance s = (\<Sum>a \<leftarrow> as_accounts s. unat (ac_balance a))"

abbreviation acct :: "account_store \<Rightarrow> nat \<Rightarrow> account" where
  "acct s i \<equiv> as_accounts s ! i"

lemma length_commitments [simp]: "length (commitments H s) = length (as_accounts s)"
  by (simp add: commitments_def)

lemma padded_commitments:
  "i < length (as_accounts s) \<Longrightarrow>
   padded (commitments H s) i = account_commitment H (ac_pubkey (acct s i)) (ac_balance (acct s i)) (ac_salt (acct s i))"
  by (simp add: padded_def commitments_def)

lemma build_tree_holds: "build_tree H s d = Inr t \<Longrightarrow> tree_holds H d (commitments H s) t \<and> length (as_accounts s) \<le> 2 ^ d"
  using from_leaves_holds [of "commitments H s" d H] from_leaves_overflow [of d "commitments H s" H]
  by (cases "length (as_accounts s) \<le> 2 ^ d") (auto simp: build_tree_def)

lemma build_tree_total:
  "length (as_accounts s) \<le> 2 ^ d \<Longrightarrow>
   \<exists>t. build_tree H s d = Inr t \<and> merkle_root t = root_of H d (commitments H s)"
  using from_leaves_holds [of "commitments H s" d H] by (auto simp: build_tree_def intro: tree_holds_root)

lemma update_balance_Inr:
  "i < length (as_accounts s) \<Longrightarrow> \<exists>s'. update_balance s i b salt = Inr s'
    \<and> as_accounts s' = (as_accounts s)[i := (acct s i)\<lparr>ac_balance := b, ac_salt := salt\<rparr>]
    \<and> padded (commitments H s') = (padded (commitments H s))(i := account_commitment H (ac_pubkey (acct s i)) b salt)
    \<and> total_balance s' + unat (ac_balance (acct s i)) = total_balance s + unat b"
proof -
  assume i: "i < length (as_accounts s)"
  have "sum_list (map (\<lambda>a. unat (ac_balance a)) ((as_accounts s)[i := a])) + unat (ac_balance (acct s i))
      = total_balance s + unat (ac_balance a)" for a
    using i member_le_sum_list [of "unat (ac_balance (acct s i))" "map (\<lambda>a. unat (ac_balance a)) (as_accounts s)"]
    by (simp add: total_balance_def map_update sum_list_update)
  moreover have "commitments H (s\<lparr>as_accounts := (as_accounts s)[i := a]\<rparr>) =
      (commitments H s)[i := account_commitment H (ac_pubkey a) (ac_balance a) (ac_salt a)]" for a
    by (simp add: commitments_def map_update)
  ultimately show ?thesis using i by (simp add: update_balance_def padded_update total_balance_def)
qed

section \<open>Transfers\<close>

lemma transfer_main_accepts:
  "transfer_main H inp = Inr js \<longleftrightarrow>
     H (ti_sender_sk inp) \<noteq> ti_recipient_pubkey inp \<and> 0 < ti_amount inp \<and> ti_amount inp \<le> ti_sender_balance inp
     \<and> ti_recipient_balance inp \<le> - 1 - ti_amount inp
     \<and> compute_root H (account_commitment H (H (ti_sender_sk inp)) (ti_sender_balance inp) (ti_sender_salt inp))
         (ti_sender_path inp) (ti_sender_indices inp)
       = compute_root H (account_commitment H (ti_recipient_pubkey inp) (ti_recipient_balance inp) (ti_recipient_salt inp))
         (ti_recipient_path inp) (ti_recipient_indices inp)
     \<and> (\<exists>new_root. compute_new_root H
           (account_commitment H (H (ti_sender_sk inp)) (ti_sender_balance inp - ti_amount inp) (ti_new_sender_salt inp))
           (ti_sender_indices inp)
           (account_commitment H (ti_recipient_pubkey inp) (ti_recipient_balance inp + ti_amount inp) (ti_new_recipient_salt inp))
           (ti_recipient_indices inp) (ti_sender_path inp) (ti_recipient_path inp) = Inr new_root
         \<and> js = compute_root H (account_commitment H (H (ti_sender_sk inp)) (ti_sender_balance inp) (ti_sender_salt inp))
             (ti_sender_path inp) (ti_sender_indices inp) @ new_root)"
  by (auto simp: transfer_main_def Let_def and_then_eq_Inr)

lemma no_overflow_iff: "(b :: u64) \<le> - 1 - a \<longleftrightarrow> unat b + unat a < 2 ^ 64"
proof -
  have "unat (- 1 - a) = unat (- 1 :: u64) - unat a" by (rule unat_sub) simp
  also have "unat (- 1 :: u64) = 2 ^ 64 - 1" by (simp add: unsigned_minus_1_eq_mask mask_eq_exp_minus_1)
  finally have u: "unat (- 1 - a) = 2 ^ 64 - 1 - unat a" .
  show ?thesis unfolding word_le_nat_alt u using unat_bound [of a] by auto
qed

lemma transfer_balances:
  "(a :: u64) \<le> b \<Longrightarrow> c \<le> - 1 - a \<Longrightarrow> unat (b - a) + unat (c + a) = unat b + unat c"
  unfolding no_overflow_iff by (simp add: unat_sub word_le_nat_alt unat_word_ariths)

lemma transfer_on_store:
  assumes "build_tree H s d = Inr t" and "i < length (as_accounts s)" and "j < length (as_accounts s)" and "i \<noteq> j"
    and "prove t i = Inr p" and "prove t j = Inr q" and "H sk = ac_pubkey (acct s i)"
  shows "transfer_main H (transfer_env sk (acct s i) p amount (acct s j) q salt1 salt2) =
    (if ac_pubkey (acct s i) = ac_pubkey (acct s j) then Inl SelfTransfer
     else if amount = 0 then Inl AmountNotPositive
     else if unat (ac_balance (acct s i)) < unat amount then Inl InsufficientBalance
     else if 2 ^ 64 \<le> unat (ac_balance (acct s j)) + unat amount then Inl RecipientBalanceOverflow
     else and_then (update_balance s i (ac_balance (acct s i) - amount) salt1) (\<lambda>s'.
          and_then (update_balance s' j (ac_balance (acct s j) + amount) salt2) (\<lambda>s'.
          and_then (build_tree H s' d) (\<lambda>t'. Inr (merkle_root t @ merkle_root t')))))"
proof -
  have th: "tree_holds H d (commitments H s) t" and len: "length (as_accounts s) \<le> 2 ^ d"
    using build_tree_holds [OF assms(1)] by auto
  let ?f = "padded (commitments H s)" and ?h = "hash_pair H" and ?a = "acct s i" and ?b = "acct s j"
  have ij: "i < 2 ^ d" "j < 2 ^ d" using assms(2,3) len by auto
  have p: "p = \<lparr>mp_path = path_sibs ?h ?f d i, mp_indices = path_bits d i\<rparr>"
    and q: "q = \<lparr>mp_path = path_sibs ?h ?f d j, mp_indices = path_bits d j\<rparr>"
    using assms(5,6) prove_path [OF th] ij by auto
  have root: "climb ?h (?f k) (zip (path_sibs ?h ?f d k) (path_bits d k)) = merkle_root t" if "k < 2 ^ d" for k
    using climb_auth_path [of ?h ?f k d] that tree_holds_root [OF th] by (simp add: auth_path_def root_of_def)
  let ?x = "account_commitment H (ac_pubkey ?a) (ac_balance ?a - amount) salt1"
  let ?y = "account_commitment H (ac_pubkey ?b) (ac_balance ?b + amount) salt2"
  obtain s1 where s1: "update_balance s i (ac_balance ?a - amount) salt1 = Inr s1"
    "as_accounts s1 = (as_accounts s)[i := ?a\<lparr>ac_balance := ac_balance ?a - amount, ac_salt := salt1\<rparr>]"
    "padded (commitments H s1) = ?f(i := ?x)"
    using update_balance_Inr [OF assms(2), of "ac_balance ?a - amount" salt1 H] by blast
  have j1: "j < length (as_accounts s1)" "acct s1 j = ?b" using assms(3,4) s1(2) by auto
  obtain s2 where s2: "update_balance s1 j (ac_balance ?b + amount) salt2 = Inr s2"
    "length (as_accounts s2) = length (as_accounts s)" "padded (commitments H s2) = ?f(i := ?x, j := ?y)"
    using update_balance_Inr [OF j1(1), of "ac_balance ?b + amount" salt2 H] s1 j1(2) by auto
  obtain t2 where t2: "build_tree H s2 d = Inr t2" "merkle_root t2 = tree_node ?h (?f(i := ?x, j := ?y)) d 0"
    using build_tree_total [of s2 d H] s2 len by (auto simp: root_of_def)
  have c: "(\<not> amount \<le> ac_balance ?a) = (unat (ac_balance ?a) < unat amount)"
    "(\<not> 0 < amount) = (amount = 0)"
    by (simp_all add: word_le_nat_alt not_le word_neq_0_conv [symmetric])
  show ?thesis
    using root [OF ij(1)] root [OF ij(2)] assms(2,3,7) s1(1) s2(1) t2
      compute_new_root_two [OF ij assms(4), of H ?x ?y ?f]
    by (auto simp: transfer_main_def transfer_env_def p q Let_def compute_root_climb verify_membership_def
        padded_commitments no_overflow_iff c not_less)
qed


definition sender_leaf :: "sha \<Rightarrow> transfer_input \<Rightarrow> bytes32" where
  "sender_leaf H inp = account_commitment H (H (ti_sender_sk inp)) (ti_sender_balance inp) (ti_sender_salt inp)"

definition recipient_leaf :: "sha \<Rightarrow> transfer_input \<Rightarrow> bytes32" where
  "recipient_leaf H inp =
     account_commitment H (ti_recipient_pubkey inp) (ti_recipient_balance inp) (ti_recipient_salt inp)"

definition sender_pos :: "transfer_input \<Rightarrow> nat" where
  "sender_pos inp = bits_index (ti_sender_indices inp)"

definition recipient_pos :: "transfer_input \<Rightarrow> nat" where
  "recipient_pos inp = bits_index (ti_recipient_indices inp)"

lemma length_climb_commitment:
  "\<forall>m. length (H m) = 32 \<Longrightarrow> length (climb (hash_pair H) (account_commitment H k b salt) ps) = 32"
  by (induction ps rule: rev_induct)
     (auto simp: climb_append account_commitment_def join_def hash_pair_def split_paired_all)

lemma find_divergence_same: "n \<le> length b \<Longrightarrow> find_divergence b b n = Inl SenderRecipientSame"
  by (induction n) simp_all

lemma zip_short: "length xs = length ys \<Longrightarrow> zip xs (ys @ zs) = zip xs ys"
  by (simp add: zip_append2)

lemma climb_to_root:
  assumes "tree_holds H d leaves t" and "k < 2 ^ d"
  shows "climb (hash_pair H) (padded leaves k)
    (zip (path_sibs (hash_pair H) (padded leaves) d k) (path_bits d k)) = merkle_root t"
  using climb_auth_path [of "hash_pair H" "padded leaves" k d] assms tree_holds_root [OF assms(1)]
  by (simp add: auth_path_def root_of_def)

text \<open>One direction more than siblings: the two branches are joined above the root.\<close>

lemma doubled_accept:
  assumes "i < 2 ^ d" and "j < 2 ^ d"
  shows "compute_new_root H x (path_bits d i @ [True]) y (path_bits d j @ [False])
      (path_sibs (hash_pair H) f d i) (path_sibs (hash_pair H) f d j) =
    Inr (hash_pair H (tree_node (hash_pair H) (f(j := y)) d 0) (tree_node (hash_pair H) (f(i := x)) d 0))"
proof -
  let ?h = "hash_pair H"
  have c: "try_fold (climb_step H (path_sibs ?h f d k) (path_bits d k @ [b])) z [0..<d] = Inr (tree_node ?h (f(k := z)) d 0)"
    if "k < 2 ^ d" for k b z
    using climb_steps_path [of d d 0 "path_sibs ?h f d k" H "f(k := z)" k "path_bits d k @ [b]"] that
    by (simp add: tree_node_frame nth_append)
  show ?thesis using c [OF assms(1)] c [OF assms(2)] by (simp add: compute_new_root_def nth_append)
qed

section \<open>The host replicas of the guests\<close>

lemma slice_split: "m \<le> n \<Longrightarrow> n \<le> length xs \<Longrightarrow> slice m n xs @ drop n xs = drop m xs"
  unfolding slice_def by (metis append_take_drop_id drop_drop le_add_diff_inverse2)

lemma transfer_journal_iff:
  "transfer_journal_from_bytes js = Inr j \<longleftrightarrow>
   js = tj_old_root j @ tj_new_root j \<and> length (tj_old_root j) = 32 \<and> length (tj_new_root j) = 32"
proof
  assume "transfer_journal_from_bytes js = Inr j"
  then show "js = tj_old_root j @ tj_new_root j \<and> length (tj_old_root j) = 32 \<and> length (tj_new_root j) = 32"
    by (auto simp: transfer_journal_from_bytes_def slice_def split: if_splits)
next
  assume a: "js = tj_old_root j @ tj_new_root j \<and> length (tj_old_root j) = 32 \<and> length (tj_new_root j) = 32"
  then show "transfer_journal_from_bytes js = Inr j"
    by (cases j) (auto simp: transfer_journal_from_bytes_def slice_def)
qed

lemma withdrawal_journal_iff:
  "withdrawal_journal_from_bytes js = Inr j \<longleftrightarrow>
   js = wj_old_root j @ wj_new_root j @ u64_to_be (wj_amount j) @ wj_recipient j
   \<and> length (wj_old_root j) = 32 \<and> length (wj_new_root j) = 32 \<and> length (wj_recipient j) = 20"
proof
  assume a: "withdrawal_journal_from_bytes js = Inr j"
  then have l: "length js = 92" by (simp add: withdrawal_journal_from_bytes_def split: if_splits)
  have "slice 0 32 js @ slice 32 64 js @ slice 64 72 js @ slice 72 92 js = js"
    using slice_split [of 0 32 js] slice_split [of 32 64 js] slice_split [of 64 72 js] slice_split [of 72 92 js] l by simp
  with a l show "js = wj_old_root j @ wj_new_root j @ u64_to_be (wj_amount j) @ wj_recipient j
   \<and> length (wj_old_root j) = 32 \<and> length (wj_new_root j) = 32 \<and> length (wj_recipient j) = 20"
    by (auto simp: withdrawal_journal_from_bytes_def to_be_from_be)
next
  assume "js = wj_old_root j @ wj_new_root j @ u64_to_be (wj_amount j) @ wj_recipient j
   \<and> length (wj_old_root j) = 32 \<and> length (wj_new_root j) = 32 \<and> length (wj_recipient j) = 20"
  then show "withdrawal_journal_from_bytes js = Inr j"
    by (cases j) (auto simp: withdrawal_journal_from_bytes_def slice_def)
qed

lemma disclosure_journal_iff:
  "disclosure_journal_from_bytes js = Inr j \<longleftrightarrow>
   js = dj_merkle_root j @ u64_to_be (dj_threshold j) @ dj_disclosure_key_hash j
   \<and> length (dj_merkle_root j) = 32 \<and> length (dj_disclosure_key_hash j) = 32"
proof
  assume a: "disclosure_journal_from_bytes js = Inr j"
  then have l: "length js = 72" by (simp add: disclosure_journal_from_bytes_def split: if_splits)
  have "slice 0 32 js @ slice 32 40 js @ slice 40 72 js = js"
    using slice_split [of 0 32 js] slice_split [of 32 40 js] slice_split [of 40 72 js] l by simp
  with a l show "js = dj_merkle_root j @ u64_to_be (dj_threshold j) @ dj_disclosure_key_hash j
   \<and> length (dj_merkle_root j) = 32 \<and> length (dj_disclosure_key_hash j) = 32"
    by (auto simp: disclosure_journal_from_bytes_def to_be_from_be)
next
  assume "js = dj_merkle_root j @ u64_to_be (dj_threshold j) @ dj_disclosure_key_hash j
   \<and> length (dj_merkle_root j) = 32 \<and> length (dj_disclosure_key_hash j) = 32"
  then show "disclosure_journal_from_bytes js = Inr j"
    by (cases j) (auto simp: disclosure_journal_from_bytes_def slice_def)
qed

lemma length_root [simp]: "\<forall>m. length (H m) = 32 \<Longrightarrow> length (compute_root H (account_commitment H k b salt) p q) = 32"
  by (simp add: compute_root_climb length_climb_commitment)

lemma length_climb_steps:
  assumes "\<forall>m. length (H m) = 32" and "try_fold (climb_step H p q) c xs = Inr r" and "length c = 32"
  shows "length r = 32"
  using assms(2,3)
  by (rule try_fold_invariant) (auto simp: climb_step_def hash_pair_def assms(1) split: if_splits)

lemma length_new_root:
  assumes "\<forall>m. length (H m) = 32" and "compute_new_root H x bs y bs' ps qs = Inr r"
  shows "length r = 32"
proof -
  obtain k a b where
    "try_fold (climb_step H ps bs) (if bs ! k then hash_pair H b a else hash_pair H a b) [k + 1..<length bs] = Inr r"
    using assms(2) unfolding compute_new_root_def Let_def and_then_eq_Inr by blast
  then show ?thesis by (rule length_climb_steps [OF assms(1)]) (simp add: hash_pair_def assms(1))
qed

lemma verify_transfer_iff:
  assumes "\<forall>m. length (H m) = 32" and "length old_root = 32"
  shows "verify_transfer H inp old_root new_root = Inr () \<longleftrightarrow> transfer_main H inp = Inr (old_root @ new_root)"
  unfolding transfer_main_accepts using assms
  by (auto simp: verify_transfer_def Let_def and_then_eq_Inr append_eq_append_conv split: if_splits)

lemma transfer_journal_lengths:
  assumes "\<forall>m. length (H m) = 32" and "transfer_main H inp = Inr js"
  obtains old new where "js = old @ new" "length old = 32" "length new = 32"
proof -
  from assms(2) [unfolded transfer_main_accepts] obtain x y new where
    "compute_new_root H x (ti_sender_indices inp) y (ti_recipient_indices inp) (ti_sender_path inp) (ti_recipient_path inp) = Inr new"
    "js = compute_root H (account_commitment H (H (ti_sender_sk inp)) (ti_sender_balance inp) (ti_sender_salt inp))
            (ti_sender_path inp) (ti_sender_indices inp) @ new"
    by (elim conjE exE) metis
  with that show ?thesis using length_root [OF assms(1)] length_new_root [OF assms(1)] by metis
qed

section \<open>Conservation\<close>

lemma withdrawal_on_store:
  assumes "build_tree H s d = Inr t" and "i < length (as_accounts s)" and "prove t i = Inr p" and "H sk = ac_pubkey (acct s i)"
  shows "withdrawal_main H (withdrawal_env sk (acct s i) p amount salt recipient) =
    (if amount = 0 then Inl AmountNotPositive
     else if unat (ac_balance (acct s i)) < unat amount then Inl InsufficientBalance
     else and_then (update_balance s i (ac_balance (acct s i) - amount) salt) (\<lambda>s'.
          and_then (build_tree H s' d) (\<lambda>t'. Inr (merkle_root t @ merkle_root t' @ u64_to_be amount @ recipient))))"
proof -
  have th: "tree_holds H d (commitments H s) t" and len: "length (as_accounts s) \<le> 2 ^ d"
    using build_tree_holds [OF assms(1)] by auto
  let ?f = "padded (commitments H s)" and ?h = "hash_pair H" and ?a = "acct s i"
  let ?x = "account_commitment H (ac_pubkey ?a) (ac_balance ?a - amount) salt"
  have i: "i < 2 ^ d" using assms(2) len by simp
  have p: "p = \<lparr>mp_path = path_sibs ?h ?f d i, mp_indices = path_bits d i\<rparr>"
    using assms(3) prove_path [OF th i] by simp
  obtain s1 where s1: "update_balance s i (ac_balance ?a - amount) salt = Inr s1"
    "length (as_accounts s1) = length (as_accounts s)" "padded (commitments H s1) = ?f(i := ?x)"
    using update_balance_Inr [OF assms(2), of "ac_balance ?a - amount" salt H] by auto
  obtain t1 where t1: "build_tree H s1 d = Inr t1" "merkle_root t1 = tree_node ?h (?f(i := ?x)) d 0"
    using build_tree_total [of s1 d H] s1 len by (auto simp: root_of_def)
  have new: "climb ?h ?x (zip (path_sibs ?h ?f d i) (path_bits d i)) = merkle_root t1"
    using climb_auth_path_update [of ?h ?x ?f d i] i t1(2) by (simp add: auth_path_def)
  have c: "(\<not> amount \<le> ac_balance ?a) = (unat (ac_balance ?a) < unat amount)" "(\<not> 0 < amount) = (amount = 0)"
    by (simp_all add: word_le_nat_alt not_le word_neq_0_conv [symmetric])
  show ?thesis
    using climb_to_root [OF th i] new assms(2,4) s1(1) t1(1)
    by (auto simp: withdrawal_main_def withdrawal_env_def p Let_def compute_root_climb padded_commitments c)
qed

text \<open>The operator serves a request of the holder of an account and the chain, which holds the root,
  takes the journal only when it starts from that root.\<close>

inductive operator_step ::
    "sha \<Rightarrow> nat \<Rightarrow> account_store \<times> bytes32 \<times> nat \<Rightarrow> account_store \<times> bytes32 \<times> nat \<Rightarrow> bool" for H d where
  transfer:
    "build_tree H s d = Inr t \<Longrightarrow> get_account s i = Inr a \<Longrightarrow> get_account s j = Inr b \<Longrightarrow>
     prove t i = Inr p \<Longrightarrow> prove t j = Inr q \<Longrightarrow> H sk = ac_pubkey a \<Longrightarrow>
     transfer_main H (transfer_env sk a p amount b q salt1 salt2) = Inr js \<Longrightarrow>
     transfer_journal_from_bytes js = Inr jn \<Longrightarrow> tj_old_root jn = root \<Longrightarrow>
     update_balance s i (ac_balance a - amount) salt1 = Inr s1 \<Longrightarrow>
     update_balance s1 j (ac_balance b + amount) salt2 = Inr s2 \<Longrightarrow>
     operator_step H d (s, root, paid) (s2, tj_new_root jn, paid)"
| withdrawal:
    "build_tree H s d = Inr t \<Longrightarrow> get_account s i = Inr a \<Longrightarrow> prove t i = Inr p \<Longrightarrow> H sk = ac_pubkey a \<Longrightarrow>
     withdrawal_main H (withdrawal_env sk a p amount salt recipient) = Inr js \<Longrightarrow> length recipient = 20 \<Longrightarrow>
     withdrawal_journal_from_bytes js = Inr jn \<Longrightarrow> wj_old_root jn = root \<Longrightarrow>
     update_balance s i (ac_balance a - amount) salt = Inr s1 \<Longrightarrow>
     operator_step H d (s, root, paid) (s1, wj_new_root jn, paid + unat (wj_amount jn))"

definition store_synced :: "sha \<Rightarrow> nat \<Rightarrow> nat \<Rightarrow> account_store \<times> bytes32 \<times> nat \<Rightarrow> bool" where
  "store_synced H d supply = (\<lambda>(s, root, paid).
     (\<exists>t. build_tree H s d = Inr t \<and> merkle_root t = root) \<and> total_balance s + paid = supply)"

lemma length_merkle_root:
  assumes "\<forall>m. length (H m) = 32" and "build_tree H s d = Inr t"
  shows "length (merkle_root t) = 32"
proof -
  have "length (tree_node (hash_pair H) (padded (commitments H s)) l i) = 32" for l i
    by (cases l) (use assms(1) in \<open>auto simp: hash_pair_def padded_def commitments_def account_commitment_def\<close>)
  then show ?thesis using tree_holds_root [OF conjunct1 [OF build_tree_holds [OF assms(2)]]] by (simp add: root_of_def)
qed

lemma get_account_Inr: "get_account s i = Inr a \<longleftrightarrow> i < length (as_accounts s) \<and> a = acct s i"
  by (auto simp: get_account_def)

lemma operator_step_synced:
  assumes "operator_step H d x y" and "\<forall>m. length (H m) = 32" and "store_synced H d supply x"
  shows "store_synced H d supply y"
  using assms(1,3)
proof cases
  case (transfer s t i a j b p q sk amount salt1 salt2 js jn root s1 s2 paid)
  note tr = transfer
  have ia: "i < length (as_accounts s)" "a = acct s i" and jb: "j < length (as_accounts s)" "b = acct s j"
    using tr by (auto simp: get_account_Inr)
  have ne: "i \<noteq> j" using tr ia jb by (auto simp: transfer_main_accepts transfer_env_def)
  from transfer_on_store [OF tr(3) ia(1) jb(1) ne tr(6,7), of sk amount salt1 salt2] tr ia jb
  obtain t2 where ok: "unat amount \<le> unat (ac_balance a)" "unat (ac_balance b) + unat amount < 2 ^ 64"
    and t2: "build_tree H s2 d = Inr t2" "js = merkle_root t @ merkle_root t2"
    by (auto simp: and_then_eq_Inr split: if_splits)
  have "tj_new_root jn = merkle_root t2" using tr(10) t2(2) tr assms(3) unfolding transfer_journal_iff store_synced_def
    by auto
  moreover have "total_balance s2 + unat (ac_balance b) = total_balance s1 + unat (ac_balance b + amount)"
    "total_balance s1 + unat (ac_balance a) = total_balance s + unat (ac_balance a - amount)"
    using update_balance_Inr [OF ia(1), of "ac_balance a - amount" salt1] tr ia jb ne
      update_balance_Inr [of j s1 "ac_balance b + amount" salt2] by auto
  moreover have "unat (ac_balance a - amount) + unat (ac_balance b + amount) = unat (ac_balance a) + unat (ac_balance b)"
    by (rule transfer_balances) (use ok in \<open>simp_all add: no_overflow_iff word_le_nat_alt [of amount]\<close>)
  ultimately show ?thesis using assms(3) tr(1,2) t2(1) by (auto simp: store_synced_def)
next
  case (withdrawal s t i a p sk amount salt recipient js jn root s1 paid)
  note wd = withdrawal
  have ia: "i < length (as_accounts s)" "a = acct s i" using wd by (auto simp: get_account_Inr)
  from withdrawal_on_store [OF wd(3) ia(1) wd(5), of sk amount salt recipient] wd ia
  obtain t1 where ok: "unat amount \<le> unat (ac_balance a)" and t1: "build_tree H s1 d = Inr t1"
    "js = merkle_root t @ merkle_root t1 @ u64_to_be amount @ recipient"
    by (auto simp: and_then_eq_Inr split: if_splits)
  obtain t' where root: "build_tree H s d = Inr t'" "merkle_root t' = root" "total_balance s + paid = supply"
    using assms(3) wd(1) by (auto simp: store_synced_def)
  have "wj_new_root jn = merkle_root t1" "u64_to_be (wj_amount jn) = u64_to_be amount"
    using wd(9,10) t1(2) root wd(3) length_merkle_root [OF assms(2) wd(3)] length_merkle_root [OF assms(2) t1(1)]
    unfolding withdrawal_journal_iff by auto
  moreover have "total_balance s1 + unat (ac_balance a) = total_balance s + unat (ac_balance a - amount)"
    using update_balance_Inr [OF ia(1), of "ac_balance a - amount" salt] wd ia by auto
  moreover have "unat (ac_balance a - amount) = unat (ac_balance a) - unat amount"
    using ok by (simp add: unat_sub word_le_nat_alt)
  moreover have "wj_amount jn = amount" using calculation(2) by (metis from_be_to_be(3))
  ultimately show ?thesis using wd(1,2) t1(1) root(3) ok by (auto simp: store_synced_def)
qed

end
