(* ===== verification/Validium_Theorems.thy ===== *)
theory Validium_Theorems
  imports Validium_Store
begin

text \<open>
  The properties of the validium, each with a witness on a store of two accounts and a function
  with digests of 32 bytes in the place of SHA-256.
\<close>

section \<open>A store\<close>

definition vsha :: sha where
  "vsha m = be_bytes 32 (be_nat m)"

definition vaccount :: "nat \<Rightarrow> u64 \<Rightarrow> account" where
  "vaccount n balance = \<lparr>ac_pubkey = be_bytes 32 n, ac_balance = balance, ac_salt = zeros 32\<rparr>"

definition vstore :: account_store where
  "vstore = \<lparr>as_accounts = [vaccount 0 5, vaccount 1 7]\<rparr>"

lemma vstore_simps [simp]:
  "\<forall>m. length (vsha m) = 32" "as_accounts vstore = [vaccount 0 5, vaccount 1 7]"
  "vstore\<lparr>as_accounts := xs\<rparr> = \<lparr>as_accounts = xs\<rparr>" "total_balance vstore = 12"
  "vsha (zeros 32) = be_bytes 32 0" "be_bytes 32 0 \<noteq> be_bytes 32 (Suc 0)"
  "ac_pubkey (vaccount n b) = be_bytes 32 n" "ac_balance (vaccount n b) = b" "ac_salt (vaccount n b) = zeros 32"
  by (simp_all add: vsha_def vstore_def vaccount_def be_bytes_inject total_balance_def)

lemma vstore_tree:
  obtains t p q where "build_tree vsha vstore 1 = Inr t" "prove t 0 = Inr p" "prove t 1 = Inr q"
    "p = \<lparr>mp_path = path_sibs (hash_pair vsha) (padded (commitments vsha vstore)) 1 0, mp_indices = [False]\<rparr>"
    "q = \<lparr>mp_path = path_sibs (hash_pair vsha) (padded (commitments vsha vstore)) 1 1, mp_indices = [True]\<rparr>"
proof -
  obtain t where t: "build_tree vsha vstore 1 = Inr t" using build_tree_total [of vstore 1 vsha] by auto
  note th = conjunct1 [OF build_tree_holds [OF t]]
  from that [OF t prove_path [OF th, of 0] prove_path [OF th, of 1]] show ?thesis by (simp add: path_bits_def)
qed

lemma vstore_transfer:
  assumes "build_tree vsha vstore 1 = Inr t" "prove t 0 = Inr p" "prove t 1 = Inr q"
  shows "\<exists>t'. build_tree vsha \<lparr>as_accounts = [vaccount 0 3, vaccount 1 9]\<rparr> 1 = Inr t'
    \<and> transfer_main vsha (transfer_env (zeros 32) (vaccount 0 5) p 2 (vaccount 1 7) q (zeros 32) (zeros 32))
      = Inr (merkle_root t @ merkle_root t')"
  using transfer_on_store [OF assms(1) _ _ _ assms(2,3), of "zeros 32" 2 "zeros 32" "zeros 32"]
    build_tree_total [of "\<lparr>as_accounts = [vaccount 0 3, vaccount 1 9]\<rparr>" 1 vsha]
  by (auto simp: update_balance_def vaccount_def)

section \<open>Properties\<close>

text \<open>The Merkle tree of the host is the complete hash tree over the leaves padded with zero hashes: whenever
  the leaves fit it is built, and every slot then has a proof as long as the tree is deep, with the
  directions of the slot, that verifies against the root.\<close>

lemma merkle_paths_authenticate:
  assumes "length leaves \<le> 2 ^ d"
  shows "\<exists>t. from_leaves H leaves d = Inr t \<and> merkle_root t = tree_node (hash_pair H) (padded leaves) d 0 \<and>
    (\<forall>i < 2 ^ d. \<exists>p. prove t i = Inr p \<and> length (mp_path p) = d \<and> length (mp_indices p) = d
       \<and> bits_index (mp_indices p) = i \<and> proof_verify H p (padded leaves i) (merkle_root t))"
proof -
  obtain t where t: "from_leaves H leaves d = Inr t" "tree_holds H d leaves t"
    using from_leaves_holds [OF assms] by blast
  have "climb (hash_pair H) (padded leaves i) (auth_path (hash_pair H) (padded leaves) d i) = root_of H d leaves"
    if "i < 2 ^ d" for i
    using that by (simp add: climb_auth_path root_of_def)
  then show ?thesis
    using t tree_holds_root [OF t(2)]
    by (auto simp: prove_path proof_verify_climb auth_path_def bits_index_path root_of_def)
qed

text \<open>C12: A transfer between two accounts of the store with the proofs of its tree. The guest refuses a transfer
  to oneself, of nothing, of more than the balance or beyond what the recipient's balance can hold, in that
  order; otherwise its journal is the root of the tree and the root of the tree of the store after both
  balances are updated. The root the guest computes from the two paths is the one a rebuild gives.\<close>

theorem transfer_transition:
  assumes "build_tree H s d = Inr t" and "i < length (as_accounts s)" and "j < length (as_accounts s)" and "i \<noteq> j"
    and "prove t i = Inr p" and "prove t j = Inr q" and "H sk = ac_pubkey (acct s i)"
  shows "transfer_main H (transfer_env sk (acct s i) p amount (acct s j) q salt1 salt2) =
    (if ac_pubkey (acct s i) = ac_pubkey (acct s j) then Inl SelfTransfer
     else if amount = 0 then Inl AmountNotPositive
     else if unat (ac_balance (acct s i)) < unat amount then Inl InsufficientBalance
     else if 2 ^ 64 \<le> unat (ac_balance (acct s j)) + unat amount then Inl RecipientBalanceOverflow
     else and_then (update_balance s i (ac_balance (acct s i) - amount) salt1) (\<lambda>s'.
          and_then (update_balance s' j (ac_balance (acct s j) + amount) salt2) (\<lambda>s'.
          and_then (build_tree H s' d) (\<lambda>t'. Inr (merkle_root t @ merkle_root t')))))"
  using assms by (rule transfer_on_store)

theorem transfer_transition_witness:
  "\<exists>t p q s t'. build_tree vsha vstore 1 = Inr t \<and> prove t 0 = Inr p \<and> prove t 1 = Inr q
    \<and> as_accounts s = [vaccount 0 3, vaccount 1 9] \<and> build_tree vsha s 1 = Inr t'
    \<and> transfer_main vsha (transfer_env (zeros 32) (vaccount 0 5) p 2 (vaccount 1 7) q (zeros 32) (zeros 32))
      = Inr (merkle_root t @ merkle_root t')"
proof -
  obtain t p q where t: "build_tree vsha vstore 1 = Inr t" "prove t 0 = Inr p" "prove t 1 = Inr q"
    by (rule vstore_tree)
  let ?s = "\<lparr>as_accounts = [vaccount 0 3, vaccount 1 9]\<rparr>"
  obtain t' where t': "build_tree vsha ?s 1 = Inr t'" using build_tree_total [of ?s 1 vsha] by auto
  have "transfer_main vsha (transfer_env (zeros 32) (vaccount 0 5) p 2 (vaccount 1 7) q (zeros 32) (zeros 32))
      = Inr (merkle_root t @ merkle_root t')"
    using transfer_transition [OF t(1) _ _ _ t(2,3), of "zeros 32" 2 "zeros 32" "zeros 32"] t'
    by (simp add: vstore_simps update_balance_def vaccount_def)
  with t t' show ?thesis by (intro exI [of _ t] exI [of _ p] exI [of _ q] exI [of _ ?s] exI [of _ t']) simp
qed

text \<open>C10: Whatever a prover feeds the transfer guest, as long as the four vectors have the depth of the tree: when
  it accepts from the root of a tree, both commitments are leaves of the tree at different positions, the two
  new balances add up to the two old ones, and the new root is that of the tree with just these leaves
  replaced; or the paths exhibit two inputs on which the node hash collides.\<close>

theorem transfer_sound:
  assumes "\<forall>m. length (H m) = 32" and "transfer_main H inp = Inr js"
    and "take 32 js = tree_node (hash_pair H) (padded leaves) d 0"
    and "length (ti_sender_path inp) = d" and "length (ti_sender_indices inp) = d"
    and "length (ti_recipient_path inp) = d" and "length (ti_recipient_indices inp) = d"
  shows "(padded leaves (sender_pos inp) = sender_leaf H inp \<and> padded leaves (recipient_pos inp) = recipient_leaf H inp
      \<and> sender_pos inp \<noteq> recipient_pos inp
      \<and> unat (ti_sender_balance inp - ti_amount inp) + unat (ti_recipient_balance inp + ti_amount inp)
        = unat (ti_sender_balance inp) + unat (ti_recipient_balance inp)
      \<and> drop 32 js = tree_node (hash_pair H) ((padded leaves)
          (sender_pos inp := account_commitment H (H (ti_sender_sk inp)) (ti_sender_balance inp - ti_amount inp) (ti_new_sender_salt inp),
           recipient_pos inp := account_commitment H (ti_recipient_pubkey inp) (ti_recipient_balance inp + ti_amount inp) (ti_new_recipient_salt inp))) d 0)
    \<or> climb_collision (hash_pair H) (sender_leaf H inp) (zip (ti_sender_path inp) (ti_sender_indices inp))
        (padded leaves (sender_pos inp)) (auth_path (hash_pair H) (padded leaves) d (sender_pos inp))
    \<or> climb_collision (hash_pair H) (recipient_leaf H inp) (zip (ti_recipient_path inp) (ti_recipient_indices inp))
        (padded leaves (recipient_pos inp)) (auth_path (hash_pair H) (padded leaves) d (recipient_pos inp))"
    (is "?ok \<or> ?c1 \<or> ?c2")
proof (cases "?c1 \<or> ?c2")
  case False
  let ?h = "hash_pair H" and ?f = "padded leaves" and ?i = "sender_pos inp" and ?j = "recipient_pos inp"
    and ?x = "sender_leaf H inp" and ?y = "recipient_leaf H inp"
  from assms(2) obtain new_root where acc:
    "ti_amount inp \<le> ti_sender_balance inp" "ti_recipient_balance inp \<le> - 1 - ti_amount inp"
    "climb ?h ?x (zip (ti_sender_path inp) (ti_sender_indices inp)) = climb ?h ?y (zip (ti_recipient_path inp) (ti_recipient_indices inp))"
    "compute_new_root H (account_commitment H (H (ti_sender_sk inp)) (ti_sender_balance inp - ti_amount inp) (ti_new_sender_salt inp))
       (ti_sender_indices inp)
       (account_commitment H (ti_recipient_pubkey inp) (ti_recipient_balance inp + ti_amount inp) (ti_new_recipient_salt inp))
       (ti_recipient_indices inp) (ti_sender_path inp) (ti_recipient_path inp) = Inr new_root"
    "js = climb ?h ?x (zip (ti_sender_path inp) (ti_sender_indices inp)) @ new_root"
    unfolding transfer_main_accepts compute_root_climb sender_leaf_def recipient_leaf_def by blast
  have js: "take 32 js = climb ?h ?x (zip (ti_sender_path inp) (ti_sender_indices inp))" "drop 32 js = new_root"
    using acc(5) length_climb_commitment [OF assms(1)] by (simp_all add: sender_leaf_def)
  have si: "?x = ?f ?i" "ti_sender_path inp = path_sibs ?h ?f d ?i"
    using climb_root_binding [of ?h ?x "ti_sender_path inp" "ti_sender_indices inp" ?f] False js(1) assms(3,4,5)
    by (auto simp: sender_pos_def)
  have sj: "?y = ?f ?j" "ti_recipient_path inp = path_sibs ?h ?f d ?j"
    using climb_root_binding [of ?h ?y "ti_recipient_path inp" "ti_recipient_indices inp" ?f] False js(1) acc(3) assms(3,6,7)
    by (auto simp: recipient_pos_def)
  have bi: "ti_sender_indices inp = path_bits d ?i" "ti_recipient_indices inp = path_bits d ?j"
    using assms(5,7) path_bits_index unfolding sender_pos_def recipient_pos_def by metis+
  have lt: "?i < 2 ^ d" "?j < 2 ^ d"
    using bits_index_less assms(5,7) unfolding sender_pos_def recipient_pos_def by metis+
  have ne: "?i \<noteq> ?j"
    using acc(4) find_divergence_same [of d "path_bits d ?j"] by (auto simp: bi compute_new_root_def)
  have "drop 32 js = tree_node ?h (?f
          (?i := account_commitment H (H (ti_sender_sk inp)) (ti_sender_balance inp - ti_amount inp) (ti_new_sender_salt inp),
           ?j := account_commitment H (ti_recipient_pubkey inp) (ti_recipient_balance inp + ti_amount inp) (ti_new_recipient_salt inp))) d 0"
    using compute_new_root_two [OF lt ne] acc(4) unfolding bi si(2) sj(2) js(2) by simp
  then show ?thesis using si(1) sj(1) ne transfer_balances [OF acc(1,2)] by simp
qed blast

theorem transfer_sound_witness:
  "\<exists>inp js. transfer_main vsha inp = Inr js \<and> ti_amount inp = 2 \<and>
    (sender_pos inp \<noteq> recipient_pos inp
     \<or> climb_collision (hash_pair vsha) (sender_leaf vsha inp) (zip (ti_sender_path inp) (ti_sender_indices inp))
        (padded (commitments vsha vstore) (sender_pos inp))
        (auth_path (hash_pair vsha) (padded (commitments vsha vstore)) 1 (sender_pos inp))
     \<or> climb_collision (hash_pair vsha) (recipient_leaf vsha inp) (zip (ti_recipient_path inp) (ti_recipient_indices inp))
        (padded (commitments vsha vstore) (recipient_pos inp))
        (auth_path (hash_pair vsha) (padded (commitments vsha vstore)) 1 (recipient_pos inp)))"
proof -
  obtain t p q where t: "build_tree vsha vstore 1 = Inr t" "prove t 0 = Inr p" "prove t 1 = Inr q"
    and len: "length (mp_path p) = 1" "length (mp_indices p) = 1" "length (mp_path q) = 1" "length (mp_indices q) = 1"
    by (rule vstore_tree) simp
  let ?inp = "transfer_env (zeros 32) (vaccount 0 5) p 2 (vaccount 1 7) q (zeros 32) (zeros 32)"
  obtain js where js: "transfer_main vsha ?inp = Inr (merkle_root t @ js)"
    using vstore_transfer [OF t] by blast
  have r: "merkle_root t = tree_node (hash_pair vsha) (padded (commitments vsha vstore)) 1 0" "length (merkle_root t) = 32"
    using tree_holds_root [OF conjunct1 [OF build_tree_holds [OF t(1)]]] length_merkle_root [OF _ t(1)]
    by (simp_all add: root_of_def)
  have "take 32 (merkle_root t @ js) = tree_node (hash_pair vsha) (padded (commitments vsha vstore)) 1 0"
    using r by simp
  from transfer_sound [OF vstore_simps(1) js this] len js show ?thesis
    by (intro exI [of _ ?inp] exI [of _ "merkle_root t @ js"]) (auto simp: transfer_env_def)
qed

text \<open>C11: The guest does not check the lengths the previous property assumes. With one direction appended to the
  genuine inputs of a transfer it still accepts from the current root, and the new root is the parent of two
  whole trees: on the left the store with the recipient credited and the sender not debited, on the right the
  store with the sender debited. Every account has a path in both halves, so the balances under the root add up
  to twice the former total.\<close>

theorem transfer_doubles_tree:
  assumes "build_tree H s d = Inr t" and "i < length (as_accounts s)" and "j < length (as_accounts s)"
    and "prove t i = Inr p" and "prove t j = Inr q" and "H sk = ac_pubkey (acct s i)"
    and "ac_pubkey (acct s i) \<noteq> ac_pubkey (acct s j)" and "0 < amount" and "amount \<le> ac_balance (acct s i)"
    and "unat (ac_balance (acct s j)) + unat amount < 2 ^ 64"
  shows "\<exists>debited credited td tc root. update_balance s i (ac_balance (acct s i) - amount) salt1 = Inr debited
    \<and> update_balance s j (ac_balance (acct s j) + amount) salt2 = Inr credited
    \<and> build_tree H debited d = Inr td \<and> build_tree H credited d = Inr tc
    \<and> root = hash_pair H (merkle_root tc) (merkle_root td)
    \<and> transfer_main H ((transfer_env sk (acct s i) p amount (acct s j) q salt1 salt2)
        \<lparr>ti_sender_indices := mp_indices p @ [True], ti_recipient_indices := mp_indices q @ [False]\<rparr>)
      = Inr (merkle_root t @ root)
    \<and> total_balance credited + total_balance debited = 2 * total_balance s
    \<and> (\<forall>k < length (as_accounts s). \<exists>pc pd. prove tc k = Inr pc \<and> prove td k = Inr pd
        \<and> compute_root H (commitments H credited ! k) (mp_path pc @ [merkle_root td]) (mp_indices pc @ [False]) = root
        \<and> compute_root H (commitments H debited ! k) (mp_path pd @ [merkle_root tc]) (mp_indices pd @ [True]) = root)"
proof -
  have th: "tree_holds H d (commitments H s) t" and len: "length (as_accounts s) \<le> 2 ^ d"
    using build_tree_holds [OF assms(1)] by auto
  let ?f = "padded (commitments H s)" and ?h = "hash_pair H" and ?a = "acct s i" and ?b = "acct s j"
  let ?x = "account_commitment H (ac_pubkey ?a) (ac_balance ?a - amount) salt1"
  let ?y = "account_commitment H (ac_pubkey ?b) (ac_balance ?b + amount) salt2"
  have ij: "i < 2 ^ d" "j < 2 ^ d" using assms(2,3) len by auto
  have p: "p = \<lparr>mp_path = path_sibs ?h ?f d i, mp_indices = path_bits d i\<rparr>"
    and q: "q = \<lparr>mp_path = path_sibs ?h ?f d j, mp_indices = path_bits d j\<rparr>"
    using assms(4,5) prove_path [OF th] ij by auto
  obtain debited where sd: "update_balance s i (ac_balance ?a - amount) salt1 = Inr debited"
    "length (as_accounts debited) = length (as_accounts s)" "padded (commitments H debited) = ?f(i := ?x)"
    "total_balance debited + unat (ac_balance ?a) = total_balance s + unat (ac_balance ?a - amount)"
    using update_balance_Inr [OF assms(2), of "ac_balance ?a - amount" salt1 H] by auto
  obtain credited where sc: "update_balance s j (ac_balance ?b + amount) salt2 = Inr credited"
    "length (as_accounts credited) = length (as_accounts s)" "padded (commitments H credited) = ?f(j := ?y)"
    "total_balance credited + unat (ac_balance ?b) = total_balance s + unat (ac_balance ?b + amount)"
    using update_balance_Inr [OF assms(3), of "ac_balance ?b + amount" salt2 H] by auto
  obtain td where td: "build_tree H debited d = Inr td" "merkle_root td = root_of H d (commitments H debited)"
    using build_tree_total [of debited d H] sd(2) len by auto
  obtain tc where tc: "build_tree H credited d = Inr tc" "merkle_root tc = root_of H d (commitments H credited)"
    using build_tree_total [of credited d H] sc(2) len by auto
  let ?r = "?h (merkle_root tc) (merkle_root td)"
  have "total_balance credited + total_balance debited = 2 * total_balance s"
    using sd(4) sc(4) transfer_balances [of amount "ac_balance ?a" "ac_balance ?b"] assms(9,10)
    by (simp add: no_overflow_iff)
  moreover have "transfer_main H ((transfer_env sk ?a p amount ?b q salt1 salt2)
      \<lparr>ti_sender_indices := path_bits d i @ [True], ti_recipient_indices := path_bits d j @ [False]\<rparr>)
      = Inr (merkle_root t @ ?r)"
    using doubled_accept [OF ij, of H ?x ?y ?f] climb_to_root [OF th ij(1)] climb_to_root [OF th ij(2)]
      assms(2,3,6-10) td(2) tc(2) sd(3) sc(3)
    by (simp add: transfer_main_accepts transfer_env_def p q compute_root_climb zip_short no_overflow_iff
        padded_commitments root_of_def)
  moreover have "\<exists>pc pd. prove tc k = Inr pc \<and> prove td k = Inr pd
        \<and> compute_root H (commitments H credited ! k) (mp_path pc @ [merkle_root td]) (mp_indices pc @ [False]) = ?r
        \<and> compute_root H (commitments H debited ! k) (mp_path pd @ [merkle_root tc]) (mp_indices pd @ [True]) = ?r"
    if "k < length (as_accounts s)" for k
  proof -
    have k: "k < 2 ^ d" using that len by simp
    have hc: "tree_holds H d (commitments H credited) tc" and hd: "tree_holds H d (commitments H debited) td"
      using build_tree_holds td(1) tc(1) by auto
    show ?thesis
      using prove_path [OF hc k] prove_path [OF hd k] climb_to_root [OF hc k] climb_to_root [OF hd k] that sc(2) sd(2)
      by (simp add: compute_root_climb climb_append join_def padded_def)
  qed
  ultimately show ?thesis using sd(1) sc(1) td(1) tc(1) p q by auto
qed

theorem transfer_doubles_tree_witness:
  "\<exists>t p q root. build_tree vsha vstore 1 = Inr t \<and> prove t 0 = Inr p \<and> prove t 1 = Inr q
    \<and> transfer_main vsha ((transfer_env (zeros 32) (vaccount 0 5) p 2 (vaccount 1 7) q (zeros 32) (zeros 32))
        \<lparr>ti_sender_indices := mp_indices p @ [True], ti_recipient_indices := mp_indices q @ [False]\<rparr>)
      = Inr (merkle_root t @ root)"
proof -
  obtain t p q where t: "build_tree vsha vstore 1 = Inr t" "prove t 0 = Inr p" "prove t 1 = Inr q"
    by (rule vstore_tree)
  from transfer_doubles_tree [OF t(1) _ _ t(2,3), of "zeros 32" 2 "zeros 32" "zeros 32"] t show ?thesis by auto
qed

text \<open>The checks the host replicates are those of the guests: a guest commits a journal exactly when the journal
  parses and the host's function for it accepts the parsed roots, amount, recipient, threshold and key.\<close>

lemma host_mirrors_guests:
  assumes "\<forall>m. length (H m) = 32" and "length (wi_recipient w) = 20"
  shows "(transfer_main H inp = Inr js \<longleftrightarrow>
      (\<exists>j. transfer_journal_from_bytes js = Inr j \<and> verify_transfer H inp (tj_old_root j) (tj_new_root j) = Inr ()))
    \<and> (withdrawal_main H w = Inr js \<longleftrightarrow>
      (\<exists>j. withdrawal_journal_from_bytes js = Inr j \<and> wj_amount j = wi_amount w \<and> wj_recipient j = wi_recipient w
        \<and> verify_withdrawal H w (wj_old_root j) (wj_new_root j) = Inr ()))
    \<and> (disclosure_main H di = Inr js \<longleftrightarrow>
      (\<exists>j. disclosure_journal_from_bytes js = Inr j \<and> dj_threshold j = di_threshold di
        \<and> verify_disclosure H di (dj_merkle_root j) (dj_disclosure_key_hash j) = Inr ()))"
proof (intro conjI)
  show "transfer_main H inp = Inr js \<longleftrightarrow>
      (\<exists>j. transfer_journal_from_bytes js = Inr j \<and> verify_transfer H inp (tj_old_root j) (tj_new_root j) = Inr ())"
  proof
    assume g: "transfer_main H inp = Inr js"
    then obtain old new where js: "js = old @ new" "length old = 32" "length new = 32"
      by (rule transfer_journal_lengths [OF assms(1)])
    then show "\<exists>j. transfer_journal_from_bytes js = Inr j \<and> verify_transfer H inp (tj_old_root j) (tj_new_root j) = Inr ()"
      using g by (intro exI [of _ "\<lparr>tj_old_root = old, tj_new_root = new\<rparr>"])
        (simp add: transfer_journal_iff verify_transfer_iff [OF assms(1)])
  qed (auto simp: transfer_journal_iff verify_transfer_iff [OF assms(1)])
  show "withdrawal_main H w = Inr js \<longleftrightarrow>
      (\<exists>j. withdrawal_journal_from_bytes js = Inr j \<and> wj_amount j = wi_amount w \<and> wj_recipient j = wi_recipient w
        \<and> verify_withdrawal H w (wj_old_root j) (wj_new_root j) = Inr ())"
    unfolding withdrawal_journal_iff using assms(1,2)
    by (auto simp: withdrawal_main_def verify_withdrawal_def Let_def and_then_eq_Inr split: if_splits
        intro!: exI [of _ "\<lparr>wj_old_root = old, wj_new_root = new, wj_amount = wi_amount w, wj_recipient = wi_recipient w\<rparr>" for old new])
  show "disclosure_main H di = Inr js \<longleftrightarrow>
      (\<exists>j. disclosure_journal_from_bytes js = Inr j \<and> dj_threshold j = di_threshold di
        \<and> verify_disclosure H di (dj_merkle_root j) (dj_disclosure_key_hash j) = Inr ())"
    unfolding disclosure_journal_iff using assms(1)
    by (auto simp: disclosure_main_def verify_disclosure_def compute_disclosure_key_hash_def Let_def and_then_eq_Inr
        split: if_splits
        intro!: exI [of _ "\<lparr>dj_merkle_root = r, dj_threshold = di_threshold di, dj_disclosure_key_hash = k\<rparr>" for r k])
qed

text \<open>C9: Over every run of transfers and withdrawals of an operator who gives the guests the proofs of the tree, the
  root on the chain is the root of the store, and the balances together with what was paid out are the
  initial balances.\<close>

theorem validium_conserves_supply:
  assumes "\<forall>m. length (H m) = 32" and "build_tree H s0 d = Inr t0"
    and "(operator_step H d)\<^sup>*\<^sup>* (s0, merkle_root t0, 0) (s, root, paid)"
  shows "(\<exists>t. build_tree H s d = Inr t \<and> merkle_root t = root) \<and> total_balance s + paid = total_balance s0"
proof -
  have "store_synced H d (total_balance s0) (s0, merkle_root t0, 0)"
    using assms(2) by (simp add: store_synced_def)
  with assms(3) have "store_synced H d (total_balance s0) (s, root, paid)"
    by (induction rule: rtranclp_induct) (auto intro: operator_step_synced [OF _ assms(1)])
  then show ?thesis by (simp add: store_synced_def)
qed

theorem validium_conserves_supply_witness:
  "\<exists>t s root. build_tree vsha vstore 1 = Inr t \<and> (operator_step vsha 1)\<^sup>*\<^sup>* (vstore, merkle_root t, 0) (s, root, 3)
    \<and> total_balance s + 3 = 12"
proof -
  obtain t p q where t: "build_tree vsha vstore 1 = Inr t" "prove t 0 = Inr p" by (rule vstore_tree)
  let ?s = "\<lparr>as_accounts = [vaccount 0 2, vaccount 1 7]\<rparr>"
  obtain t' where t': "build_tree vsha ?s 1 = Inr t'" using build_tree_total [of ?s 1 vsha] by auto
  have u: "update_balance vstore 0 (5 - 3) (zeros 32) = Inr ?s" by (simp add: update_balance_def vaccount_def)
  let ?js = "merkle_root t @ merkle_root t' @ u64_to_be 3 @ zeros 20"
  let ?jn = "\<lparr>wj_old_root = merkle_root t, wj_new_root = merkle_root t', wj_amount = 3, wj_recipient = zeros 20\<rparr>"
  have "withdrawal_main vsha (withdrawal_env (zeros 32) (vaccount 0 5) p 3 (zeros 32) (zeros 20)) = Inr ?js"
    using withdrawal_on_store [OF t(1) _ t(2), of "zeros 32" 3 "zeros 32" "zeros 20"] u t' by simp
  moreover have "withdrawal_journal_from_bytes ?js = Inr ?jn"
    using length_merkle_root [OF _ t(1)] length_merkle_root [OF _ t'] by (simp add: withdrawal_journal_iff)
  ultimately have "operator_step vsha 1 (vstore, merkle_root t, 0) (?s, wj_new_root ?jn, 0 + unat (wj_amount ?jn))"
    by (intro operator_step.withdrawal [OF t(1) _ t(2), where a = "vaccount 0 5"]) (use u in \<open>auto simp: get_account_def\<close>)
  then have run: "(operator_step vsha 1)\<^sup>*\<^sup>* (vstore, merkle_root t, 0) (?s, merkle_root t', 3)" by simp
  from validium_conserves_supply [OF vstore_simps(1) t(1) run] t(1) run show ?thesis by auto
qed

text \<open>C36: The membership guest does not fix the depth either, and leaves of the allowlist are not hashed: every node of
  the tree at every level, the root included, is accepted as the public key of a member.\<close>

theorem membership_accepts_nodes:
  assumes "from_leaves H allowlist d = Inr t" and "l \<le> d" and "i < 2 ^ (d - l)" and "prove t (i * 2 ^ l) = Inr p"
    and "node = tree_node (hash_pair H) (padded allowlist) l i"
  shows "membership_main H commit \<lparr>mi_leaf = node, mi_path = drop l (mp_path p), mi_indices = drop l (mp_indices p),
      mi_expected_root = merkle_root t, mi_pubkey = node\<rparr> = Inr (commit (merkle_root t) @ commit node)"
proof -
  let ?h = "hash_pair H" and ?f = "padded allowlist" and ?k = "i * 2 ^ l"
  have th: "tree_holds H d allowlist t"
    using assms(1) from_leaves_holds [of allowlist d H] from_leaves_overflow [of d allowlist H]
    by (cases "length allowlist \<le> 2 ^ d") auto
  have k: "?k < 2 ^ d"
  proof -
    have "?k < 2 ^ (d - l) * 2 ^ l" using assms(3) by simp
    then show ?thesis using assms(2) by (simp add: power_add [symmetric])
  qed
  have p: "p = \<lparr>mp_path = path_sibs ?h ?f d ?k, mp_indices = path_bits d ?k\<rparr>"
    using prove_path [OF th k] assms(4) by simp
  have "zip (drop l (path_sibs ?h ?f d ?k)) (drop l (path_bits d ?k)) =
      map (\<lambda>m. (tree_node ?h ?f m (sibling (?k div 2 ^ m)), odd (?k div 2 ^ m))) [l..<d]"
    by (rule nth_equalityI) simp_all
  moreover have "climb ?h node (map (\<lambda>m. (tree_node ?h ?f m (sibling (?k div 2 ^ m)), odd (?k div 2 ^ m))) [l..<d]) = merkle_root t"
    using climb_levels [OF assms(2), of ?h ?f ?k] k assms(5) tree_holds_root [OF th] by (simp add: root_of_def)
  ultimately show ?thesis by (simp add: membership_main_def p compute_root_climb)
qed

theorem membership_accepts_nodes_witness:
  "\<exists>t. from_leaves vsha [be_bytes 32 5, be_bytes 32 6] 1 = Inr t \<and>
    membership_main vsha (\<lambda>b. b) \<lparr>mi_leaf = merkle_root t, mi_path = [], mi_indices = [],
      mi_expected_root = merkle_root t, mi_pubkey = merkle_root t\<rparr> = Inr (merkle_root t @ merkle_root t)"
proof -
  let ?l = "[be_bytes 32 5, be_bytes 32 6]"
  obtain t where t: "from_leaves vsha ?l 1 = Inr t" "tree_holds vsha 1 ?l t"
    using from_leaves_holds [of ?l 1 vsha] by auto
  have "prove t (0 * 2 ^ 1) = Inr \<lparr>mp_path = path_sibs (hash_pair vsha) (padded ?l) 1 0, mp_indices = path_bits 1 0\<rparr>"
    using prove_path [OF t(2), of 0] by simp
  from membership_accepts_nodes [OF t(1) _ _ this refl, of "\<lambda>b. b"] t tree_holds_root [OF t(2)]
  show ?thesis by (auto simp: root_of_def)
qed

end
