(* ===== verification/Swap.thy ===== *)
theory Swap
  imports Poseidon
begin

text \<open>
  The proof of concept \<open>pocs/private-trade-settlement/tee_swap\<close>: notes, stealth addresses and salt
  encryption (\<open>crypto\<close>, \<open>domain\<close>), what the parties prepare (\<open>party.rs\<close>), and the coordinator with
  its ports and in-memory adapters (\<open>coordinator.rs\<close>, \<open>ports\<close>, \<open>adapters\<close>).

  BN254 scalars and the Poseidon hash are those of the record \<open>prims\<close>. The Grumpkin group (crate
  ark-grumpkin) is the record \<open>curve\<close>; the laws the protocol relies on are \<open>curve_laws\<close>. Random
  scalars and salts are arguments, as is the time of the system clock.
\<close>

section \<open>Poseidon over 32-byte words\<close>

definition b256_to_fr :: "'fr prims \<Rightarrow> bytes32 \<Rightarrow> 'fr" where
  "b256_to_fr E value = from_be_bytes_mod_order E value"

definition fr_to_b256 :: "'fr prims \<Rightarrow> 'fr \<Rightarrow> bytes32" where
  "fr_to_b256 E value = to_bytes_be E value"

definition B256_ZERO :: bytes32 where "B256_ZERO = zeros 32"

definition u64_b256 :: "u64 \<Rightarrow> bytes32" where
  "u64_b256 v = be_bytes 32 (unat v)"

definition DOMAIN_COMMITMENT :: bytes32 where
  "DOMAIN_COMMITMENT = be_bytes 32 0x00109594dc3faa33ceeeac5e46d290040cdf090cb9883904d1337a9cb26e19a5"
definition DOMAIN_NULLIFIER :: bytes32 where
  "DOMAIN_NULLIFIER = be_bytes 32 0x00225cbdfee768405fd834228dc85d2f6d1f18901486e2f5c8f1a204fccbb393"
definition DOMAIN_STEALTH :: bytes32 where
  "DOMAIN_STEALTH = be_bytes 32 0x0089c0b4bea509c4509d7c93f962f79cddfb03f7a8056b159df275ec7e4e6852"
definition DOMAIN_SALT_ENC :: bytes32 where
  "DOMAIN_SALT_ENC = be_bytes 32 0x00a55fbcf2316286f724b5fbfb530d536e3829c23ad2d1bd01b87792f785bcc4"
definition DOMAIN_BIND_SWAP :: bytes32 where
  "DOMAIN_BIND_SWAP = be_bytes 32 0x00558e73d4477300526f0e29f920a317a62cc425034408d58be6dbe7fc484751"
definition DOMAIN_BIND_R :: bytes32 where
  "DOMAIN_BIND_R = be_bytes 32 0x00b4965ea4c1b3f9e13c36a32782935c2a1b3c49ec54e201de5f4133f2548a94"
definition DOMAIN_BIND_META :: bytes32 where
  "DOMAIN_BIND_META = be_bytes 32 0x00f3241b2bffce1dd293f941d327f2ce2189f7d423501f0dd76a7da8c407502a"
definition DOMAIN_BIND_ENC :: bytes32 where
  "DOMAIN_BIND_ENC = be_bytes 32 0x00d0779ead2e71428d9e8ef698a01482d8f344b17244792086fdc32bdfdf67dd"
definition DOMAIN_SWAP_ID :: bytes32 where
  "DOMAIN_SWAP_ID = be_bytes 32 0x00bd03aa9914bdbecd974336e5cf1171b81a60634487683d9d813e195a9e6a9e"

definition poseidon2_b256 :: "'fr prims \<Rightarrow> bytes32 \<Rightarrow> bytes32 \<Rightarrow> bytes32" where
  "poseidon2_b256 E a b = fr_to_b256 E (poseidon_circom E [b256_to_fr E a, b256_to_fr E b])"

definition poseidon3_b256 :: "'fr prims \<Rightarrow> bytes32 \<Rightarrow> bytes32 \<Rightarrow> bytes32 \<Rightarrow> bytes32" where
  "poseidon3_b256 E a b c = fr_to_b256 E (poseidon_circom E [b256_to_fr E a, b256_to_fr E b, b256_to_fr E c])"

definition poseidon8_b256 ::
    "'fr prims \<Rightarrow> bytes32 \<Rightarrow> bytes32 \<Rightarrow> bytes32 \<Rightarrow> bytes32 \<Rightarrow> bytes32 \<Rightarrow> bytes32 \<Rightarrow> bytes32 \<Rightarrow> bytes32 \<Rightarrow> bytes32" where
  "poseidon8_b256 E a b c d e f g h =
     fr_to_b256 E (poseidon_circom E [b256_to_fr E a, b256_to_fr E b, b256_to_fr E c, b256_to_fr E d,
       b256_to_fr E e, b256_to_fr E f, b256_to_fr E g, b256_to_fr E h])"

text \<open>\<open>None\<close> is the panic of the width assertion.\<close>

definition poseidon_n_b256 :: "'fr prims \<Rightarrow> bytes32 list \<Rightarrow> bytes32 option" where
  "poseidon_n_b256 E inputs =
     (if inputs \<noteq> [] \<and> length inputs \<le> 16
      then Some (fr_to_b256 E (poseidon_circom E (map (b256_to_fr E) inputs))) else None)"

section \<open>Notes\<close>

record swap_note =
  nt_chain_id :: bytes32
  nt_value :: u64
  nt_asset_id :: bytes32
  nt_owner :: bytes32
  nt_fallback_owner :: bytes32
  nt_timeout :: bytes32
  nt_salt :: bytes32

definition note_with_salt ::
    "bytes32 \<Rightarrow> u64 \<Rightarrow> bytes32 \<Rightarrow> bytes32 \<Rightarrow> bytes32 \<Rightarrow> bytes32 \<Rightarrow> bytes32 \<Rightarrow> swap_note" where
  "note_with_salt chain_id value asset_id owner fallback_owner timeout salt =
     \<lparr>nt_chain_id = chain_id, nt_value = value, nt_asset_id = asset_id, nt_owner = owner,
      nt_fallback_owner = fallback_owner, nt_timeout = timeout, nt_salt = salt\<rparr>"

definition note_new ::
    "bytes32 \<Rightarrow> u64 \<Rightarrow> bytes32 \<Rightarrow> bytes32 \<Rightarrow> bytes32 \<Rightarrow> bytes32 \<Rightarrow> u8 list \<Rightarrow> swap_note" where
  "note_new chain_id value asset_id owner fallback_owner timeout salt_bytes =
     (let salt_bytes = salt_bytes[0 := and (salt_bytes ! 0) 0x1F]
      in \<lparr>nt_chain_id = chain_id, nt_value = value, nt_asset_id = asset_id, nt_owner = owner,
          nt_fallback_owner = fallback_owner, nt_timeout = timeout, nt_salt = salt_bytes\<rparr>)"

definition commitment_hash :: "'fr prims \<Rightarrow> swap_note \<Rightarrow> bytes32" where
  "commitment_hash E n =
     poseidon8_b256 E DOMAIN_COMMITMENT (nt_chain_id n) (u64_b256 (nt_value n)) (nt_asset_id n) (nt_owner n)
       (nt_fallback_owner n) (nt_timeout n) (nt_salt n)"

definition nullifier_hash :: "'fr prims \<Rightarrow> bytes32 \<Rightarrow> bytes32 \<Rightarrow> bytes32" where
  "nullifier_hash E commitment salt = poseidon3_b256 E DOMAIN_NULLIFIER commitment salt"

definition note_commitment :: "'fr prims \<Rightarrow> swap_note \<Rightarrow> bytes32" where
  "note_commitment E n =
     poseidon8_b256 E DOMAIN_COMMITMENT (nt_chain_id n) (u64_b256 (nt_value n)) (nt_asset_id n) (nt_owner n)
       (nt_fallback_owner n) (nt_timeout n) (nt_salt n)"

definition note_nullifier :: "'fr prims \<Rightarrow> swap_note \<Rightarrow> bytes32" where
  "note_nullifier E n = poseidon3_b256 E DOMAIN_NULLIFIER (note_commitment E n) (nt_salt n)"

definition bind_swap :: "'fr prims \<Rightarrow> bytes32 \<Rightarrow> bytes32 \<Rightarrow> bytes32" where
  "bind_swap E swap_id salt = poseidon3_b256 E DOMAIN_BIND_SWAP swap_id salt"

definition bind_r :: "'fr prims \<Rightarrow> bytes32 \<Rightarrow> bytes32" where
  "bind_r E r_x = poseidon2_b256 E DOMAIN_BIND_R r_x"

definition bind_meta :: "'fr prims \<Rightarrow> bytes32 \<Rightarrow> bytes32 \<Rightarrow> bytes32" where
  "bind_meta E pk_meta_x salt = poseidon3_b256 E DOMAIN_BIND_META pk_meta_x salt"

definition bind_enc :: "'fr prims \<Rightarrow> bytes32 \<Rightarrow> bytes32" where
  "bind_enc E encrypted_salt = poseidon2_b256 E DOMAIN_BIND_ENC encrypted_salt"

definition swap_id_hash ::
    "'fr prims \<Rightarrow> u64 \<Rightarrow> bytes32 \<Rightarrow> bytes32 \<Rightarrow> u64 \<Rightarrow> bytes32 \<Rightarrow> bytes32 \<Rightarrow> bytes32 \<Rightarrow> bytes32 \<Rightarrow> bytes32 \<Rightarrow> bytes32
     \<Rightarrow> bytes32" where
  "swap_id_hash E value_a asset_id_a chain_id_a value_b asset_id_b chain_id_b timeout pk_meta_a pk_meta_b nonce =
     the (poseidon_n_b256 E [DOMAIN_SWAP_ID, u64_b256 value_a, asset_id_a, chain_id_a, u64_b256 value_b,
       asset_id_b, chain_id_b, timeout, pk_meta_a, pk_meta_b, nonce])"

section \<open>Salt encryption\<close>

definition xor_b256 :: "bytes32 \<Rightarrow> bytes32 \<Rightarrow> bytes32" where
  "xor_b256 a b = map (\<lambda>i. xor (a ! i) (b ! i)) [0..<32]"

definition mask_253 :: "bytes32 \<Rightarrow> bytes32" where
  "mask_253 v = v[0 := and (v ! 0) 0x1F]"

definition encrypt_salt :: "'fr prims \<Rightarrow> bytes32 \<Rightarrow> bytes32 \<Rightarrow> bytes32" where
  "encrypt_salt E salt shared_secret_x =
     (let enc_key = mask_253 (poseidon2_b256 E DOMAIN_SALT_ENC shared_secret_x) in xor_b256 salt enc_key)"

definition decrypt_salt :: "'fr prims \<Rightarrow> bytes32 \<Rightarrow> bytes32 \<Rightarrow> bytes32" where
  "decrypt_salt E encrypted_salt shared_secret_x = encrypt_salt E encrypted_salt shared_secret_x"

section \<open>Stealth addresses\<close>

record ('fr, 'p, 's) curve =
  cv_generator :: 'p
  cv_add :: "'p \<Rightarrow> 'p \<Rightarrow> 'p"
  cv_mul :: "'p \<Rightarrow> 's \<Rightarrow> 'p"
  cv_x :: "'p \<Rightarrow> 'fr"
  cv_y :: "'p \<Rightarrow> 'fr"
  sc_add :: "'s \<Rightarrow> 's \<Rightarrow> 's"
  sc_from_be_bytes_mod_order :: "u8 list \<Rightarrow> 's"
  sc_to_bytes_le :: "'s \<Rightarrow> u8 list"

text \<open>Multiples of the generator commute, and scalar addition is addition of points.\<close>

definition curve_laws :: "('fr, 'p, 's) curve \<Rightarrow> bool" where
  "curve_laws C \<longleftrightarrow>
     (\<forall>a b. cv_mul C (cv_mul C (cv_generator C) a) b = cv_mul C (cv_mul C (cv_generator C) b) a) \<and>
     (\<forall>a b. cv_mul C (cv_generator C) (sc_add C a b)
            = cv_add C (cv_mul C (cv_generator C) a) (cv_mul C (cv_generator C) b))"

definition affine_x_to_b256 :: "'fr prims \<Rightarrow> ('fr, 'p, 's) curve \<Rightarrow> 'p \<Rightarrow> bytes32" where
  "affine_x_to_b256 E C point = fr_to_b256 E (cv_x C point)"

definition affine_y_to_b256 :: "'fr prims \<Rightarrow> ('fr, 'p, 's) curve \<Rightarrow> 'p \<Rightarrow> bytes32" where
  "affine_y_to_b256 E C point = fr_to_b256 E (cv_y C point)"

definition b256_to_grumpkin_scalar :: "('fr, 'p, 's) curve \<Rightarrow> bytes32 \<Rightarrow> 's" where
  "b256_to_grumpkin_scalar C value = sc_from_be_bytes_mod_order C value"

definition derive_stealth_pubkey :: "'fr prims \<Rightarrow> ('fr, 'p, 's) curve \<Rightarrow> 'p \<Rightarrow> 's \<Rightarrow> 'p \<times> 's" where
  "derive_stealth_pubkey E C pk_meta r =
     (let shared = cv_mul C pk_meta r;
          shared_x = affine_x_to_b256 E C shared;
          stealth_hash = poseidon2_b256 E DOMAIN_STEALTH shared_x;
          stealth_scalar = b256_to_grumpkin_scalar C stealth_hash;
          stealth_g = cv_mul C (cv_generator C) stealth_scalar;
          pk_stealth = cv_add C pk_meta stealth_g
      in (pk_stealth, stealth_scalar))"

definition derive_stealth_secret :: "'fr prims \<Rightarrow> ('fr, 'p, 's) curve \<Rightarrow> 's \<Rightarrow> 'p \<Rightarrow> 's" where
  "derive_stealth_secret E C sk_meta r_pub =
     (let shared = cv_mul C r_pub sk_meta;
          shared_x = affine_x_to_b256 E C shared;
          stealth_hash = poseidon2_b256 E DOMAIN_STEALTH shared_x;
          stealth_scalar = b256_to_grumpkin_scalar C stealth_hash
      in sc_add C sk_meta stealth_scalar)"

definition ecdh_shared_secret_x :: "'fr prims \<Rightarrow> ('fr, 'p, 's) curve \<Rightarrow> 'p \<Rightarrow> 's \<Rightarrow> bytes32" where
  "ecdh_shared_secret_x E C pk_meta r = affine_x_to_b256 E C (cv_mul C pk_meta r)"

definition scalar_to_lo_hi :: "('fr, 'p, 's) curve \<Rightarrow> 's \<Rightarrow> bytes32 \<times> bytes32" where
  "scalar_to_lo_hi C scalar =
     (let bytes = sc_to_bytes_le C scalar;
          lo_bytes = copy_at 0 (slice 0 16 bytes) (zeros 32);
          hi_bytes = copy_at 0 (slice 16 32 bytes) (zeros 32)
      in (rev lo_bytes, rev hi_bytes))"

record ('p, 's) meta_key_pair =
  mk_sk :: 's
  mk_pk :: 'p

definition meta_from_secret :: "('fr, 'p, 's) curve \<Rightarrow> 's \<Rightarrow> ('p, 's) meta_key_pair" where
  "meta_from_secret C sk = \<lparr>mk_sk = sk, mk_pk = cv_mul C (cv_generator C) sk\<rparr>"

definition pk_x :: "'fr prims \<Rightarrow> ('fr, 'p, 's) curve \<Rightarrow> ('p, 's) meta_key_pair \<Rightarrow> bytes32" where
  "pk_x E C k = affine_x_to_b256 E C (mk_pk k)"

record ('p, 's) ephemeral_key_pair =
  ek_r :: 's
  ek_r_pub :: 'p

definition ephemeral_generate :: "('fr, 'p, 's) curve \<Rightarrow> 's \<Rightarrow> ('p, 's) ephemeral_key_pair" where
  "ephemeral_generate C r = \<lparr>ek_r = r, ek_r_pub = cv_mul C (cv_generator C) r\<rparr>"

definition r_pub_x :: "'fr prims \<Rightarrow> ('fr, 'p, 's) curve \<Rightarrow> ('p, 's) ephemeral_key_pair \<Rightarrow> bytes32" where
  "r_pub_x E C k = affine_x_to_b256 E C (ek_r_pub k)"

section \<open>Swaps\<close>

record swap_terms =
  st_swap_id :: bytes32
  st_chain_id_a :: bytes32
  st_chain_id_b :: bytes32
  st_value_a :: u64
  st_value_b :: u64
  st_asset_id_a :: bytes32
  st_asset_id_b :: bytes32
  st_timeout :: bytes32
  st_pk_meta_a :: bytes32
  st_pk_meta_b :: bytes32
  st_nonce :: bytes32

definition terms_new ::
    "'fr prims \<Rightarrow> bytes32 \<Rightarrow> bytes32 \<Rightarrow> u64 \<Rightarrow> u64 \<Rightarrow> bytes32 \<Rightarrow> bytes32 \<Rightarrow> bytes32 \<Rightarrow> bytes32 \<Rightarrow> bytes32 \<Rightarrow> bytes32
     \<Rightarrow> swap_terms" where
  "terms_new E chain_id_a chain_id_b value_a value_b asset_id_a asset_id_b timeout pk_meta_a pk_meta_b nonce =
     (let swap_id = swap_id_hash E value_a asset_id_a chain_id_a value_b asset_id_b chain_id_b timeout
                      pk_meta_a pk_meta_b nonce
      in \<lparr>st_swap_id = swap_id, st_chain_id_a = chain_id_a, st_chain_id_b = chain_id_b, st_value_a = value_a,
          st_value_b = value_b, st_asset_id_a = asset_id_a, st_asset_id_b = asset_id_b, st_timeout = timeout,
          st_pk_meta_a = pk_meta_a, st_pk_meta_b = pk_meta_b, st_nonce = nonce\<rparr>)"

record party_submission =
  sub_swap_id :: bytes32
  sub_nonce :: bytes32
  sub_ephemeral_pubkey :: bytes32
  sub_encrypted_salt :: bytes32
  sub_note_details :: swap_note

record swap_announcement =
  an_swap_id :: bytes32
  an_ephemeral_key_a :: bytes32
  an_ephemeral_key_b :: bytes32
  an_encrypted_salt_a :: bytes32
  an_encrypted_salt_b :: bytes32

record swap_lock_data =
  lk_commitment :: bytes32
  lk_timeout :: bytes32
  lk_pk_stealth :: bytes32
  lk_h_swap :: bytes32
  lk_h_r :: bytes32
  lk_h_meta :: bytes32
  lk_h_enc :: bytes32

record transfer_witness =
  tw_nullifier :: bytes32
  tw_root :: bytes32
  tw_new_commitment :: bytes32
  tw_timeout :: bytes32
  tw_pk_stealth :: bytes32
  tw_h_swap :: bytes32
  tw_h_r :: bytes32
  tw_h_meta :: bytes32
  tw_h_enc :: bytes32
  tw_sk_lo :: bytes32
  tw_sk_hi :: bytes32
  tw_in_chain_id :: bytes32
  tw_in_value :: u64
  tw_in_asset_id :: bytes32
  tw_in_owner :: bytes32
  tw_in_fallback_owner :: bytes32
  tw_in_timeout :: bytes32
  tw_in_salt :: bytes32
  tw_proof_length :: u32
  tw_path_elements :: "bytes32 list"
  tw_path_indices :: "u8 list"
  tw_out_chain_id :: bytes32
  tw_out_value :: u64
  tw_out_asset_id :: bytes32
  tw_out_owner :: bytes32
  tw_out_fallback_owner :: bytes32
  tw_out_timeout :: bytes32
  tw_out_salt :: bytes32
  tw_swap_id :: bytes32
  tw_r_lo :: bytes32
  tw_r_hi :: bytes32
  tw_pk_meta_x :: bytes32
  tw_pk_meta_y :: bytes32
  tw_encrypted_salt :: bytes32

section \<open>Parties\<close>

datatype party_role = RoleA | RoleB

definition MAX_COMMITMENT_TREE_DEPTH :: nat where "MAX_COMMITMENT_TREE_DEPTH = 32"

record commitment_merkle_proof =
  cm_path :: "bytes32 list"
  cm_indices :: "u8 list"
  cm_leaf_index :: u64
  cm_proof_length :: nat

definition resize :: "nat \<Rightarrow> 'a \<Rightarrow> 'a list \<Rightarrow> 'a list" where
  "resize n x xs = take n xs @ replicate (n - length xs) x"

definition pad_merkle_proof :: "commitment_merkle_proof \<Rightarrow> bytes32 list \<times> u8 list" where
  "pad_merkle_proof p =
     (resize MAX_COMMITMENT_TREE_DEPTH B256_ZERO (cm_path p), resize MAX_COMMITMENT_TREE_DEPTH 0 (cm_indices p))"

record ('p, 's) lock_output =
  lo_locked_note :: swap_note
  lo_witness :: transfer_witness
  lo_submission :: party_submission
  lo_ephemeral_keypair :: "('p, 's) ephemeral_key_pair"

definition prepare_lock ::
    "'fr prims \<Rightarrow> ('fr, 'p, 's) curve \<Rightarrow> 's \<Rightarrow> u8 list \<Rightarrow> swap_terms \<Rightarrow> ('p, 's) meta_key_pair \<Rightarrow> 'p \<Rightarrow> swap_note
     \<Rightarrow> commitment_merkle_proof \<Rightarrow> bytes32 \<Rightarrow> ('p, 's) lock_output" where
  "prepare_lock E C rnd_r rnd_salt swap_terms own_meta_key counterparty_pk_meta input_note merkle_proof merkle_root =
     (let ephemeral = ephemeral_generate C rnd_r;
          (pk_stealth, _) = derive_stealth_pubkey E C counterparty_pk_meta (ek_r ephemeral);
          pk_stealth_x = affine_x_to_b256 E C pk_stealth;
          locked_note = note_new (nt_chain_id input_note) (nt_value input_note) (nt_asset_id input_note)
            pk_stealth_x (pk_x E C own_meta_key) (st_timeout swap_terms) rnd_salt;
          shared_x = ecdh_shared_secret_x E C counterparty_pk_meta (ek_r ephemeral);
          encrypted_salt = encrypt_salt E (nt_salt locked_note) shared_x;
          h_swap = bind_swap E (st_swap_id swap_terms) (nt_salt locked_note);
          h_r = bind_r E (r_pub_x E C ephemeral);
          h_meta = bind_meta E (affine_x_to_b256 E C counterparty_pk_meta) (nt_salt locked_note);
          h_enc = bind_enc E encrypted_salt;
          (sk_lo, sk_hi) = scalar_to_lo_hi C (mk_sk own_meta_key);
          (r_lo, r_hi) = scalar_to_lo_hi C (ek_r ephemeral);
          (path_elements, path_indices) = pad_merkle_proof merkle_proof;
          nullifier = note_nullifier E input_note;
          output_commitment = note_commitment E locked_note;
          witness =
            \<lparr>tw_nullifier = nullifier, tw_root = merkle_root, tw_new_commitment = output_commitment,
             tw_timeout = nt_timeout locked_note, tw_pk_stealth = pk_stealth_x, tw_h_swap = h_swap, tw_h_r = h_r,
             tw_h_meta = h_meta, tw_h_enc = h_enc, tw_sk_lo = sk_lo, tw_sk_hi = sk_hi,
             tw_in_chain_id = nt_chain_id input_note, tw_in_value = nt_value input_note,
             tw_in_asset_id = nt_asset_id input_note, tw_in_owner = nt_owner input_note,
             tw_in_fallback_owner = nt_fallback_owner input_note, tw_in_timeout = nt_timeout input_note,
             tw_in_salt = nt_salt input_note, tw_proof_length = word_of_nat (cm_proof_length merkle_proof),
             tw_path_elements = path_elements, tw_path_indices = path_indices,
             tw_out_chain_id = nt_chain_id locked_note, tw_out_value = nt_value locked_note,
             tw_out_asset_id = nt_asset_id locked_note, tw_out_owner = nt_owner locked_note,
             tw_out_fallback_owner = nt_fallback_owner locked_note, tw_out_timeout = nt_timeout locked_note,
             tw_out_salt = nt_salt locked_note, tw_swap_id = st_swap_id swap_terms, tw_r_lo = r_lo, tw_r_hi = r_hi,
             tw_pk_meta_x = affine_x_to_b256 E C counterparty_pk_meta,
             tw_pk_meta_y = affine_y_to_b256 E C counterparty_pk_meta, tw_encrypted_salt = encrypted_salt\<rparr>;
          submission =
            \<lparr>sub_swap_id = st_swap_id swap_terms, sub_nonce = st_nonce swap_terms,
             sub_ephemeral_pubkey = r_pub_x E C ephemeral, sub_encrypted_salt = encrypted_salt,
             sub_note_details = locked_note\<rparr>
      in \<lparr>lo_locked_note = locked_note, lo_witness = witness, lo_submission = submission,
          lo_ephemeral_keypair = ephemeral\<rparr>)"

text \<open>The part that claim and refund share: a standard note for the new owner and the witness that
  spends the locked note.\<close>

definition spend_witness ::
    "'fr prims \<Rightarrow> ('fr, 'p, 's) curve \<Rightarrow> swap_note \<Rightarrow> swap_note \<Rightarrow> bytes32 \<Rightarrow> 's \<Rightarrow> commitment_merkle_proof \<Rightarrow> bytes32
     \<Rightarrow> transfer_witness" where
  "spend_witness E C locked_note output_note pk_stealth sk merkle_proof merkle_root =
     (let (sk_lo, sk_hi) = scalar_to_lo_hi C sk;
          (path_elements, path_indices) = pad_merkle_proof merkle_proof;
          nullifier = note_nullifier E locked_note;
          output_commitment = note_commitment E output_note
      in \<lparr>tw_nullifier = nullifier, tw_root = merkle_root, tw_new_commitment = output_commitment,
          tw_timeout = nt_timeout locked_note, tw_pk_stealth = pk_stealth, tw_h_swap = B256_ZERO, tw_h_r = B256_ZERO,
          tw_h_meta = B256_ZERO, tw_h_enc = B256_ZERO, tw_sk_lo = sk_lo, tw_sk_hi = sk_hi,
          tw_in_chain_id = nt_chain_id locked_note, tw_in_value = nt_value locked_note,
          tw_in_asset_id = nt_asset_id locked_note, tw_in_owner = nt_owner locked_note,
          tw_in_fallback_owner = nt_fallback_owner locked_note, tw_in_timeout = nt_timeout locked_note,
          tw_in_salt = nt_salt locked_note, tw_proof_length = word_of_nat (cm_proof_length merkle_proof),
          tw_path_elements = path_elements, tw_path_indices = path_indices,
          tw_out_chain_id = nt_chain_id output_note, tw_out_value = nt_value output_note,
          tw_out_asset_id = nt_asset_id output_note, tw_out_owner = nt_owner output_note,
          tw_out_fallback_owner = nt_fallback_owner output_note, tw_out_timeout = nt_timeout output_note,
          tw_out_salt = nt_salt output_note, tw_swap_id = B256_ZERO, tw_r_lo = B256_ZERO, tw_r_hi = B256_ZERO,
          tw_pk_meta_x = B256_ZERO, tw_pk_meta_y = B256_ZERO, tw_encrypted_salt = B256_ZERO\<rparr>)"

definition prepare_claim ::
    "'fr prims \<Rightarrow> ('fr, 'p, 's) curve \<Rightarrow> u8 list \<Rightarrow> swap_announcement \<Rightarrow> ('p, 's) meta_key_pair \<Rightarrow> 'p \<Rightarrow> swap_terms
     \<Rightarrow> party_role \<Rightarrow> commitment_merkle_proof \<Rightarrow> bytes32 \<Rightarrow> swap_note \<times> transfer_witness" where
  "prepare_claim E C rnd_salt announcement own_meta_key counterparty_r_pub swap_terms role merkle_proof merkle_root =
     (let (encrypted_salt_value, locked_chain_id, locked_value, locked_asset_id, fallback_owner_x) =
            (case role of
               RoleA \<Rightarrow> (an_encrypted_salt_b announcement, st_chain_id_b swap_terms, st_value_b swap_terms,
                         st_asset_id_b swap_terms, st_pk_meta_b swap_terms)
             | RoleB \<Rightarrow> (an_encrypted_salt_a announcement, st_chain_id_a swap_terms, st_value_a swap_terms,
                         st_asset_id_a swap_terms, st_pk_meta_a swap_terms));
          shared_x = ecdh_shared_secret_x E C counterparty_r_pub (mk_sk own_meta_key);
          decrypted_salt = decrypt_salt E encrypted_salt_value shared_x;
          sk_stealth = derive_stealth_secret E C (mk_sk own_meta_key) counterparty_r_pub;
          pk_stealth = cv_mul C (cv_generator C) sk_stealth;
          pk_stealth_x = affine_x_to_b256 E C pk_stealth;
          locked_note = note_with_salt locked_chain_id locked_value locked_asset_id pk_stealth_x fallback_owner_x
            (st_timeout swap_terms) decrypted_salt;
          output_note = note_new (nt_chain_id locked_note) (nt_value locked_note) (nt_asset_id locked_note)
            (pk_x E C own_meta_key) B256_ZERO B256_ZERO rnd_salt
      in (output_note,
          spend_witness E C locked_note output_note (nt_owner locked_note) sk_stealth merkle_proof merkle_root))"

definition prepare_refund ::
    "'fr prims \<Rightarrow> ('fr, 'p, 's) curve \<Rightarrow> u8 list \<Rightarrow> swap_note \<Rightarrow> 's \<Rightarrow> commitment_merkle_proof \<Rightarrow> bytes32
     \<Rightarrow> swap_note \<times> transfer_witness" where
  "prepare_refund E C rnd_salt locked_note own_sk merkle_proof merkle_root =
     (let output_note = note_new (nt_chain_id locked_note) (nt_value locked_note) (nt_asset_id locked_note)
            (nt_fallback_owner locked_note) B256_ZERO B256_ZERO rnd_salt
      in (output_note, spend_witness E C locked_note output_note B256_ZERO own_sk merkle_proof merkle_root))"

end
