(* ===== verification/Swap_Coordinator.thy ===== *)
theory Swap_Coordinator
  imports Swap
begin

text \<open>
  The coordinator of the swaps (\<open>coordinator.rs\<close>) over its two ports. The ports \<open>ChainPort\<close> and
  \<open>SwapStore\<close> are records of the operations the coordinator calls; what the store promises is the
  locale \<open>swap_store\<close>, which the in-memory adapter interprets.

  \<open>handle_submission\<close> is the handler run without interruption. Its body awaits three times, so two
  submissions served at the same time interleave: \<open>task_step\<close> is the handler as a sequence of
  atomic steps, one per await, over the shared state.
\<close>

datatype chain_error =
    CommitmentNotFound bytes32
  | AnnouncementNotFound bytes32
  | TransactionFailed string
  | ChainRpc string

datatype store_error =
    DuplicateSubmission
  | SwapNotFound bytes32
  | StoreInternal string

record tx_receipt =
  tr_tx_hash :: bytes32
  tr_success :: bool

datatype coordinator_error =
    SwapIdMismatch
  | NonceMismatch
  | CommitmentMismatch party_role bytes32 bytes32
  | BindingMismatch party_role string
  | SwapIdRecomputationFailed
  | TimeoutMismatch bytes32 bytes32
  | TimeoutLockMismatch bytes32 bytes32
  | MissingLockData
  | TimeoutTooShort u64 u64
  | UnknownChain bytes32
  | CoChain chain_error
  | CoStore store_error

datatype submission_result =
    Pending
  | Verified swap_announcement tx_receipt

section \<open>Verification\<close>

definition verify_commitment ::
    "'fr prims \<Rightarrow> party_submission \<Rightarrow> swap_lock_data \<Rightarrow> party_role \<Rightarrow> (coordinator_error, unit) result" where
  "verify_commitment E sub lock party =
     (let recomputed = commitment_hash E (sub_note_details sub) in
      if recomputed \<noteq> lk_commitment lock then Inl (CommitmentMismatch party recomputed (lk_commitment lock))
      else Inr ())"

definition verify_bindings ::
    "'fr prims \<Rightarrow> party_submission \<Rightarrow> swap_lock_data \<Rightarrow> bytes32 \<Rightarrow> bytes32 \<Rightarrow> party_role
     \<Rightarrow> (coordinator_error, unit) result" where
  "verify_bindings E sub lock swap_id counterparty_pk_meta party =
     (if bind_swap E swap_id (nt_salt (sub_note_details sub)) \<noteq> lk_h_swap lock
      then Inl (BindingMismatch party ''h_swap'')
      else if bind_r E (sub_ephemeral_pubkey sub) \<noteq> lk_h_r lock then Inl (BindingMismatch party ''h_r'')
      else if bind_meta E counterparty_pk_meta (nt_salt (sub_note_details sub)) \<noteq> lk_h_meta lock
      then Inl (BindingMismatch party ''h_meta'')
      else if bind_enc E (sub_encrypted_salt sub) \<noteq> lk_h_enc lock then Inl (BindingMismatch party ''h_enc'')
      else Inr ())"

text \<open>The identifier of a swap in which the first submission is that of party A.\<close>

definition recomputed_swap_id ::
    "'fr prims \<Rightarrow> party_submission \<Rightarrow> party_submission \<Rightarrow> bytes32 \<Rightarrow> bytes32 \<Rightarrow> bytes32" where
  "recomputed_swap_id E a b timeout nonce =
     (let na = sub_note_details a; nb = sub_note_details b
      in swap_id_hash E (nt_value na) (nt_asset_id na) (nt_chain_id na) (nt_value nb) (nt_asset_id nb)
           (nt_chain_id nb) timeout (nt_fallback_owner na) (nt_fallback_owner nb) nonce)"

definition determine_roles ::
    "'fr prims \<Rightarrow> party_submission \<Rightarrow> party_submission \<Rightarrow> swap_lock_data \<Rightarrow> swap_lock_data \<Rightarrow> bytes32 \<Rightarrow> bytes32
     \<Rightarrow> bytes32
     \<Rightarrow> (coordinator_error, party_submission \<times> party_submission \<times> swap_lock_data \<times> swap_lock_data) result" where
  "determine_roles E sub_1 sub_2 lock_1 lock_2 timeout nonce expected_swap_id =
     (if recomputed_swap_id E sub_1 sub_2 timeout nonce = expected_swap_id then Inr (sub_1, sub_2, lock_1, lock_2)
      else if recomputed_swap_id E sub_2 sub_1 timeout nonce = expected_swap_id
      then Inr (sub_2, sub_1, lock_2, lock_1)
      else Inl SwapIdRecomputationFailed)"

definition verify_swap ::
    "'fr prims \<Rightarrow> party_submission \<Rightarrow> party_submission \<Rightarrow> swap_lock_data \<Rightarrow> swap_lock_data
     \<Rightarrow> (coordinator_error, swap_announcement) result" where
  "verify_swap E sub_1 sub_2 lock_1 lock_2 =
     (if sub_swap_id sub_1 \<noteq> sub_swap_id sub_2 then Inl SwapIdMismatch
      else if sub_nonce sub_1 \<noteq> sub_nonce sub_2 then Inl NonceMismatch
      else
        (let swap_id = sub_swap_id sub_1;
             nonce = sub_nonce sub_1;
             timeout = nt_timeout (sub_note_details sub_1)
         in and_then (determine_roles E sub_1 sub_2 lock_1 lock_2 timeout nonce swap_id)
              (\<lambda>(sub_a, sub_b, lock_a, lock_b).
            and_then (verify_commitment E sub_a lock_a RoleA) (\<lambda>_.
            and_then (verify_commitment E sub_b lock_b RoleB) (\<lambda>_.
            let note_a = sub_note_details sub_a; note_b = sub_note_details sub_b;
                pk_meta_a = nt_fallback_owner note_a; pk_meta_b = nt_fallback_owner note_b
            in and_then (verify_bindings E sub_a lock_a swap_id pk_meta_b RoleA) (\<lambda>_.
               and_then (verify_bindings E sub_b lock_b swap_id pk_meta_a RoleB) (\<lambda>_.
               if nt_timeout note_a \<noteq> nt_timeout note_b
               then Inl (TimeoutMismatch (nt_timeout note_a) (nt_timeout note_b))
               else if lk_timeout lock_a \<noteq> nt_timeout note_a
               then Inl (TimeoutLockMismatch (nt_timeout note_a) (lk_timeout lock_a))
               else if lk_timeout lock_b \<noteq> nt_timeout note_b
               then Inl (TimeoutLockMismatch (nt_timeout note_b) (lk_timeout lock_b))
               else
                 Inr \<lparr>an_swap_id = swap_id,
                      an_ephemeral_key_a = sub_ephemeral_pubkey sub_a, an_ephemeral_key_b = sub_ephemeral_pubkey sub_b,
                      an_encrypted_salt_a = sub_encrypted_salt sub_a,
                      an_encrypted_salt_b = sub_encrypted_salt sub_b\<rparr>)))))))"

section \<open>Ports\<close>

record 'c chain_port =
  cp_get_swap_lock_data :: "'c \<Rightarrow> bytes32 \<Rightarrow> (chain_error, swap_lock_data) result"
  cp_announce_swap :: "'c \<Rightarrow> swap_announcement \<Rightarrow> (chain_error, tx_receipt \<times> 'c) result"
  cp_get_announcement :: "'c \<Rightarrow> bytes32 \<Rightarrow> (chain_error, swap_announcement) result"

record 's store_port =
  sp_submit :: "'s \<Rightarrow> party_submission \<Rightarrow> (store_error, party_submission option \<times> 's) result"
  sp_remove :: "'s \<Rightarrow> bytes32 \<Rightarrow> (store_error, 's) result"
  sp_has_pending :: "'s \<Rightarrow> bytes32 \<Rightarrow> (store_error, bool) result"

section \<open>The coordinator\<close>

record ('c, 's) coordinator =
  co_store :: 's
  co_chains :: "bytes32 \<rightharpoonup> 'c"
  co_announcement_chain_id :: bytes32
  co_pending_lock_data :: "bytes32 \<rightharpoonup> swap_lock_data"
  co_min_timeout_secs :: u64

definition coordinator_new :: "'s \<Rightarrow> (bytes32 \<rightharpoonup> 'c) \<Rightarrow> bytes32 \<Rightarrow> ('c, 's) coordinator" where
  "coordinator_new store chain_map announcement_chain_id =
     \<lparr>co_store = store, co_chains = chain_map, co_announcement_chain_id = announcement_chain_id,
      co_pending_lock_data = Map.empty, co_min_timeout_secs = 0\<rparr>"

definition with_min_timeout :: "('c, 's) coordinator \<Rightarrow> u64 \<Rightarrow> ('c, 's) coordinator" where
  "with_min_timeout co secs = co\<lparr>co_min_timeout_secs := secs\<rparr>"

definition read_lock_data ::
    "'fr prims \<Rightarrow> 'c chain_port \<Rightarrow> ('c, 's) coordinator \<Rightarrow> party_submission
     \<Rightarrow> (coordinator_error, swap_lock_data) result" where
  "read_lock_data E CP co sub =
     (let chain_id = nt_chain_id (sub_note_details sub) in
      and_then (ok_or (UnknownChain chain_id) (co_chains co chain_id)) (\<lambda>chain.
      let commitment = commitment_hash E (sub_note_details sub)
      in map_err CoChain (cp_get_swap_lock_data CP chain commitment)))"

definition saturating_sub :: "u64 \<Rightarrow> u64 \<Rightarrow> u64" where
  "saturating_sub a b = (if b \<le> a then a - b else 0)"

definition check_min_timeout ::
    "('c, 's) coordinator \<Rightarrow> u64 \<Rightarrow> swap_lock_data \<Rightarrow> (coordinator_error, unit) result" where
  "check_min_timeout co clock lock_data =
     (if 0 < co_min_timeout_secs co
      then (let timeout_ts = from_be (slice 24 32 (lk_timeout lock_data));
                remaining = saturating_sub timeout_ts clock
            in if remaining < co_min_timeout_secs co
               then Inl (TimeoutTooShort (co_min_timeout_secs co) remaining) else Inr ())
      else Inr ())"

definition announce ::
    "'c chain_port \<Rightarrow> ('c, 's) coordinator \<Rightarrow> swap_announcement
     \<Rightarrow> (coordinator_error, submission_result) result \<times> ('c, 's) coordinator" where
  "announce CP co announcement =
     (case co_chains co (co_announcement_chain_id co) of
        None \<Rightarrow> (Inl (UnknownChain (co_announcement_chain_id co)), co)
      | Some chain \<Rightarrow>
          (case cp_announce_swap CP chain announcement of
             Inl e \<Rightarrow> (Inl (CoChain e), co)
           | Inr (tx_receipt, chain') \<Rightarrow>
               (Inr (Verified announcement tx_receipt),
                co\<lparr>co_chains := (co_chains co)(co_announcement_chain_id co \<mapsto> chain')\<rparr>)))"

text \<open>What follows the submission to the store: the first submission of a swap leaves its lock data, the
  second takes them, verifies and announces.\<close>

definition buffer_lock_data ::
    "('c, 's) coordinator \<Rightarrow> bytes32 \<Rightarrow> swap_lock_data
     \<Rightarrow> (coordinator_error, submission_result) result \<times> ('c, 's) coordinator" where
  "buffer_lock_data co swap_id lock_data =
     (Inr Pending, co\<lparr>co_pending_lock_data := (co_pending_lock_data co)(swap_id \<mapsto> lock_data)\<rparr>)"

definition match_submissions ::
    "'fr prims \<Rightarrow> 'c chain_port \<Rightarrow> u64 \<Rightarrow> ('c, 's) coordinator \<Rightarrow> party_submission \<Rightarrow> party_submission
     \<Rightarrow> swap_lock_data \<Rightarrow> (coordinator_error, submission_result) result \<times> ('c, 's) coordinator" where
  "match_submissions E CP clock co first_submission sub lock_data =
     (let swap_id = sub_swap_id sub in
      case co_pending_lock_data co swap_id of
        None \<Rightarrow> (Inl MissingLockData, co)
      | Some first_lock_data \<Rightarrow>
          (let co = co\<lparr>co_pending_lock_data := (co_pending_lock_data co)(swap_id := None)\<rparr> in
           case and_then (check_min_timeout co clock lock_data)
                  (\<lambda>_. verify_swap E first_submission sub first_lock_data lock_data) of
             Inl e \<Rightarrow> (Inl e, co)
           | Inr announcement \<Rightarrow> announce CP co announcement))"

definition handle_submission ::
    "'fr prims \<Rightarrow> 'c chain_port \<Rightarrow> 's store_port \<Rightarrow> u64 \<Rightarrow> ('c, 's) coordinator \<Rightarrow> party_submission
     \<Rightarrow> (coordinator_error, submission_result) result \<times> ('c, 's) coordinator" where
  "handle_submission E CP SP clock co sub =
     (case read_lock_data E CP co sub of
        Inl e \<Rightarrow> (Inl e, co)
      | Inr lock_data \<Rightarrow>
          (case sp_submit SP (co_store co) sub of
             Inl e \<Rightarrow> (Inl (CoStore e), co)
           | Inr (None, store) \<Rightarrow> buffer_lock_data (co\<lparr>co_store := store\<rparr>) (sub_swap_id sub) lock_data
           | Inr (Some first_submission, store) \<Rightarrow>
               match_submissions E CP clock (co\<lparr>co_store := store\<rparr>) first_submission sub lock_data))"

definition has_pending ::
    "'s store_port \<Rightarrow> ('c, 's) coordinator \<Rightarrow> bytes32 \<Rightarrow> (coordinator_error, bool) result" where
  "has_pending SP co swap_id = map_err CoStore (sp_has_pending SP (co_store co) swap_id)"

definition get_announcement ::
    "'c chain_port \<Rightarrow> ('c, 's) coordinator \<Rightarrow> bytes32 \<Rightarrow> (coordinator_error, swap_announcement) result" where
  "get_announcement CP co swap_id =
     and_then (ok_or (UnknownChain (co_announcement_chain_id co)) (co_chains co (co_announcement_chain_id co)))
       (\<lambda>chain. map_err CoChain (cp_get_announcement CP chain swap_id))"

section \<open>Adapters in memory\<close>

definition ims_submit ::
    "(bytes32 \<rightharpoonup> party_submission) \<Rightarrow> party_submission
     \<Rightarrow> (store_error, party_submission option \<times> (bytes32 \<rightharpoonup> party_submission)) result" where
  "ims_submit pending sub =
     (let swap_id = sub_swap_id sub in
      case pending swap_id of
        None \<Rightarrow> Inr (None, pending(swap_id \<mapsto> sub))
      | Some first \<Rightarrow> Inr (Some first, pending(swap_id := None)))"

definition ims_remove ::
    "(bytes32 \<rightharpoonup> party_submission) \<Rightarrow> bytes32 \<Rightarrow> (store_error, bytes32 \<rightharpoonup> party_submission) result" where
  "ims_remove pending swap_id =
     (case pending swap_id of None \<Rightarrow> Inl (SwapNotFound swap_id) | Some _ \<Rightarrow> Inr (pending(swap_id := None)))"

definition ims_has_pending :: "(bytes32 \<rightharpoonup> party_submission) \<Rightarrow> bytes32 \<Rightarrow> (store_error, bool) result" where
  "ims_has_pending pending swap_id = Inr (pending swap_id \<noteq> None)"

definition in_memory_swap_store :: "(bytes32 \<rightharpoonup> party_submission) store_port" where
  "in_memory_swap_store =
     \<lparr>sp_submit = ims_submit, sp_remove = ims_remove, sp_has_pending = ims_has_pending\<rparr>"

record mock_chain =
  mc_lock_data :: "bytes32 \<rightharpoonup> swap_lock_data"
  mc_announcements :: "bytes32 \<rightharpoonup> swap_announcement"

definition mc_new :: mock_chain where
  "mc_new = \<lparr>mc_lock_data = Map.empty, mc_announcements = Map.empty\<rparr>"

definition mc_insert_lock_data :: "mock_chain \<Rightarrow> bytes32 \<Rightarrow> swap_lock_data \<Rightarrow> mock_chain" where
  "mc_insert_lock_data c commitment data = c\<lparr>mc_lock_data := (mc_lock_data c)(commitment \<mapsto> data)\<rparr>"

definition mc_get_swap_lock_data :: "mock_chain \<Rightarrow> bytes32 \<Rightarrow> (chain_error, swap_lock_data) result" where
  "mc_get_swap_lock_data c commitment = ok_or (CommitmentNotFound commitment) (mc_lock_data c commitment)"

definition mc_announce_swap :: "mock_chain \<Rightarrow> swap_announcement \<Rightarrow> (chain_error, tx_receipt \<times> mock_chain) result" where
  "mc_announce_swap c announcement =
     Inr (\<lparr>tr_tx_hash = an_swap_id announcement, tr_success = True\<rparr>,
          c\<lparr>mc_announcements := (mc_announcements c)(an_swap_id announcement \<mapsto> announcement)\<rparr>)"

definition mc_get_announcement :: "mock_chain \<Rightarrow> bytes32 \<Rightarrow> (chain_error, swap_announcement) result" where
  "mc_get_announcement c swap_id = ok_or (AnnouncementNotFound swap_id) (mc_announcements c swap_id)"

definition mock_chain_port :: "mock_chain chain_port" where
  "mock_chain_port =
     \<lparr>cp_get_swap_lock_data = mc_get_swap_lock_data, cp_announce_swap = mc_announce_swap,
      cp_get_announcement = mc_get_announcement\<rparr>"

section \<open>The handler as a task\<close>

datatype task =
    Started party_submission
  | Located party_submission swap_lock_data
  | Buffering party_submission swap_lock_data
  | Matching party_submission party_submission swap_lock_data
  | Finished "(coordinator_error, submission_result) result"

definition task_step ::
    "'fr prims \<Rightarrow> 'c chain_port \<Rightarrow> 's store_port \<Rightarrow> u64 \<Rightarrow> ('c, 's) coordinator \<times> task
     \<Rightarrow> ('c, 's) coordinator \<times> task" where
  "task_step E CP SP clock = (\<lambda>(co, t).
     case t of
       Started sub \<Rightarrow>
         (case read_lock_data E CP co sub of
            Inl e \<Rightarrow> (co, Finished (Inl e))
          | Inr lock_data \<Rightarrow> (co, Located sub lock_data))
     | Located sub lock_data \<Rightarrow>
         (case sp_submit SP (co_store co) sub of
            Inl e \<Rightarrow> (co, Finished (Inl (CoStore e)))
          | Inr (None, store) \<Rightarrow> (co\<lparr>co_store := store\<rparr>, Buffering sub lock_data)
          | Inr (Some first_submission, store) \<Rightarrow>
              (co\<lparr>co_store := store\<rparr>, Matching first_submission sub lock_data))
     | Buffering sub lock_data \<Rightarrow>
         (let (r, co) = buffer_lock_data co (sub_swap_id sub) lock_data in (co, Finished r))
     | Matching first_submission sub lock_data \<Rightarrow>
         (let (r, co) = match_submissions E CP clock co first_submission sub lock_data in (co, Finished r))
     | Finished r \<Rightarrow> (co, Finished r))"

text \<open>Two requests served at the same time: a schedule says which of them moves next.\<close>

fun run_tasks ::
    "'fr prims \<Rightarrow> 'c chain_port \<Rightarrow> 's store_port \<Rightarrow> u64 \<Rightarrow> bool list \<Rightarrow> ('c, 's) coordinator \<times> task \<times> task
     \<Rightarrow> ('c, 's) coordinator \<times> task \<times> task" where
  "run_tasks E CP SP clock [] st = st"
| "run_tasks E CP SP clock (second # schedule) (co, t1, t2) =
     run_tasks E CP SP clock schedule
       (if second then (let (co', t2') = task_step E CP SP clock (co, t2) in (co', t1, t2'))
        else (let (co', t1') = task_step E CP SP clock (co, t1) in (co', t1', t2)))"

lemma task_run_is_handler:
  "handle_submission E CP SP clock co sub = (r, co') \<Longrightarrow>
   (task_step E CP SP clock ^^ 3) (co, Started sub) = (co', Finished r)"
  by (auto simp: numeral_3_eq_3 handle_submission_def task_step_def split: sum.splits option.splits)

section \<open>The contract of the store\<close>

locale swap_store =
  fixes SP :: "'s store_port" and pending :: "'s \<Rightarrow> bytes32 \<rightharpoonup> party_submission"
  assumes submit_first: "pending s (sub_swap_id sub) = None \<Longrightarrow>
      \<exists>s'. sp_submit SP s sub = Inr (None, s') \<and> pending s' = (pending s)(sub_swap_id sub \<mapsto> sub)"
    and submit_second: "pending s (sub_swap_id sub) = Some first \<Longrightarrow>
      \<exists>s'. sp_submit SP s sub = Inr (Some first, s') \<and> pending s' = (pending s)(sub_swap_id sub := None)"
    and has_pending_iff: "sp_has_pending SP s swap_id = Inr (pending s swap_id \<noteq> None)"
begin

lemma handle_first:
  assumes "read_lock_data E CP co sub = Inr lock" and "pending (co_store co) (sub_swap_id sub) = None"
  shows "\<exists>co'. handle_submission E CP SP clock co sub = (Inr Pending, co')
    \<and> pending (co_store co') = (pending (co_store co))(sub_swap_id sub \<mapsto> sub)
    \<and> co_pending_lock_data co' = (co_pending_lock_data co)(sub_swap_id sub \<mapsto> lock)
    \<and> co_chains co' = co_chains co \<and> co_announcement_chain_id co' = co_announcement_chain_id co
    \<and> co_min_timeout_secs co' = co_min_timeout_secs co"
  using submit_first [OF assms(2)] assms(1)
  by (auto simp: handle_submission_def buffer_lock_data_def)

text \<open>Whatever comes of it, the second submission of a swap leaves nothing of the first behind.\<close>

lemma handle_second:
  assumes "read_lock_data E CP co sub = Inr lock" and "pending (co_store co) (sub_swap_id sub) = Some first"
    and "handle_submission E CP SP clock co sub = (r, co')"
  shows "pending (co_store co') (sub_swap_id sub) = None \<and> co_pending_lock_data co' (sub_swap_id sub) = None
    \<and> r \<noteq> Inr Pending"
  using submit_second [OF assms(2)] assms(1,3)
  by (auto simp: handle_submission_def match_submissions_def announce_def Let_def
      split: option.splits sum.splits)

end

interpretation ims: swap_store in_memory_swap_store "\<lambda>s. s"
  by unfold_locales (auto simp: in_memory_swap_store_def ims_submit_def ims_has_pending_def)

end
