(* ===== verification/Swap_Protocol.thy ===== *)
theory Swap_Protocol
  imports Swap_Coordinator
begin

text \<open>
  The swap protocol as a whole: what the coordinator's verification accepts, that what two honest
  parties prepare is accepted in either order, and that the announcement lets each of them rebuild
  and spend the note the other one locked.
\<close>

section \<open>Verification\<close>

definition party_bound :: "'fr prims \<Rightarrow> party_submission \<Rightarrow> swap_lock_data \<Rightarrow> bytes32 \<Rightarrow> bool" where
  "party_bound E sub lock counterparty_pk_meta \<longleftrightarrow>
     (let n = sub_note_details sub in
      lk_commitment lock = commitment_hash E n \<and> lk_timeout lock = nt_timeout n
      \<and> lk_h_swap lock = bind_swap E (sub_swap_id sub) (nt_salt n) \<and> lk_h_r lock = bind_r E (sub_ephemeral_pubkey sub)
      \<and> lk_h_meta lock = bind_meta E counterparty_pk_meta (nt_salt n)
      \<and> lk_h_enc lock = bind_enc E (sub_encrypted_salt sub))"

definition announcement_of :: "party_submission \<Rightarrow> party_submission \<Rightarrow> swap_announcement" where
  "announcement_of a b =
     \<lparr>an_swap_id = sub_swap_id a, an_ephemeral_key_a = sub_ephemeral_pubkey a,
      an_ephemeral_key_b = sub_ephemeral_pubkey b, an_encrypted_salt_a = sub_encrypted_salt a,
      an_encrypted_salt_b = sub_encrypted_salt b\<rparr>"

abbreviation timeout_of :: "party_submission \<Rightarrow> bytes32" where
  "timeout_of s \<equiv> nt_timeout (sub_note_details s)"

abbreviation meta_of :: "party_submission \<Rightarrow> bytes32" where
  "meta_of s \<equiv> nt_fallback_owner (sub_note_details s)"

lemma verify_commitment_Inr:
  "verify_commitment E s l p = Inr u \<longleftrightarrow> lk_commitment l = commitment_hash E (sub_note_details s)"
  by (auto simp: verify_commitment_def Let_def)

lemma verify_bindings_Inr:
  "verify_bindings E s l swap_id m p = Inr u \<longleftrightarrow>
     lk_h_swap l = bind_swap E swap_id (nt_salt (sub_note_details s)) \<and> lk_h_r l = bind_r E (sub_ephemeral_pubkey s)
     \<and> lk_h_meta l = bind_meta E m (nt_salt (sub_note_details s)) \<and> lk_h_enc l = bind_enc E (sub_encrypted_salt s)"
  by (auto simp: verify_bindings_def)

lemma unit_Ex: "(\<exists>u :: unit. P u) \<longleftrightarrow> P ()"
  by auto

lemma verify_swap_iff:
  "verify_swap E s1 s2 l1 l2 = Inr ann \<longleftrightarrow>
     sub_swap_id s1 = sub_swap_id s2 \<and> sub_nonce s1 = sub_nonce s2 \<and> timeout_of s1 = timeout_of s2
     \<and> party_bound E s1 l1 (meta_of s2) \<and> party_bound E s2 l2 (meta_of s1)
     \<and> (if recomputed_swap_id E s1 s2 (timeout_of s1) (sub_nonce s1) = sub_swap_id s1 then ann = announcement_of s1 s2
        else recomputed_swap_id E s2 s1 (timeout_of s1) (sub_nonce s1) = sub_swap_id s1 \<and> ann = announcement_of s2 s1)"
proof (cases "sub_swap_id s1 = sub_swap_id s2 \<and> sub_nonce s1 = sub_nonce s2")
  case True
  let ?r = "\<lambda>a b. recomputed_swap_id E a b (timeout_of s1) (sub_nonce s1) = sub_swap_id s1"
  consider "?r s1 s2" | "\<not> ?r s1 s2" "?r s2 s1" | "\<not> ?r s1 s2" "\<not> ?r s2 s1" by blast
  then show ?thesis
    using True
    by cases (simp_all add: verify_swap_def determine_roles_def verify_commitment_Inr verify_bindings_Inr
      party_bound_def announcement_of_def Let_def and_then_eq_Inr unit_Ex, blast+)
qed (auto simp: verify_swap_def)

section \<open>Keys and salts\<close>

lemma shared_secret:
  "curve_laws C \<Longrightarrow>
   ecdh_shared_secret_x E C (cv_mul C (cv_generator C) a) b = ecdh_shared_secret_x E C (cv_mul C (cv_generator C) b) a"
  by (simp add: ecdh_shared_secret_x_def curve_laws_def)

lemma stealth_key:
  "curve_laws C \<Longrightarrow>
   cv_mul C (cv_generator C) (derive_stealth_secret E C sk (cv_mul C (cv_generator C) r))
     = fst (derive_stealth_pubkey E C (cv_mul C (cv_generator C) sk) r)"
  by (simp add: derive_stealth_secret_def derive_stealth_pubkey_def Let_def curve_laws_def)

lemma decrypt_encrypt_salt: "length salt = 32 \<Longrightarrow> decrypt_salt E (encrypt_salt E salt x) x = salt"
  by (rule nth_equalityI) (simp_all add: decrypt_salt_def encrypt_salt_def xor_b256_def xor.assoc)

lemma length_note_salt [simp]: "length salt = 32 \<Longrightarrow> length (nt_salt (note_new c v a ow fb t salt)) = 32"
  by (simp add: note_new_def Let_def)

section \<open>Locks\<close>

text \<open>What the chain reports for a lock: the public inputs of its proof.\<close>

definition lock_event :: "transfer_witness \<Rightarrow> swap_lock_data" where
  "lock_event w =
     \<lparr>lk_commitment = tw_new_commitment w, lk_timeout = tw_timeout w, lk_pk_stealth = tw_pk_stealth w,
      lk_h_swap = tw_h_swap w, lk_h_r = tw_h_r w, lk_h_meta = tw_h_meta w, lk_h_enc = tw_h_enc w\<rparr>"

lemma prepare_lock_bound:
  fixes C :: "('fr, 'p, 's) curve"
  assumes lo: "lo = prepare_lock E C r salt terms own cp input mproof root"
  shows "party_bound E (lo_submission lo) (lock_event (lo_witness lo)) (affine_x_to_b256 E C cp)"
    and "sub_swap_id (lo_submission lo) = st_swap_id terms" and "sub_nonce (lo_submission lo) = st_nonce terms"
    and "sub_note_details (lo_submission lo) = lo_locked_note lo"
    and "nt_timeout (lo_locked_note lo) = st_timeout terms"
    and "nt_fallback_owner (lo_locked_note lo) = pk_x E C own"
    and "nt_chain_id (lo_locked_note lo) = nt_chain_id input" and "nt_value (lo_locked_note lo) = nt_value input"
    and "nt_asset_id (lo_locked_note lo) = nt_asset_id input"
    and "nt_owner (lo_locked_note lo) = affine_x_to_b256 E C (fst (derive_stealth_pubkey E C cp r))"
    and "length salt = 32 \<Longrightarrow> length (nt_salt (lo_locked_note lo)) = 32"
    and "sub_encrypted_salt (lo_submission lo) = encrypt_salt E (nt_salt (lo_locked_note lo)) (ecdh_shared_secret_x E C cp r)"
    and "ek_r_pub (lo_ephemeral_keypair lo) = cv_mul C (cv_generator C) r"
  unfolding lo
  by (simp_all add: prepare_lock_def Let_def party_bound_def lock_event_def ephemeral_generate_def
      note_commitment_def commitment_hash_def note_new_def split: prod.splits)

section \<open>Claims\<close>

definition spends :: "'fr prims \<Rightarrow> transfer_witness \<Rightarrow> swap_note \<Rightarrow> bool" where
  "spends E w n \<longleftrightarrow>
     tw_nullifier w = note_nullifier E n \<and> tw_in_chain_id w = nt_chain_id n \<and> tw_in_value w = nt_value n
     \<and> tw_in_asset_id w = nt_asset_id n \<and> tw_in_owner w = nt_owner n \<and> tw_in_fallback_owner w = nt_fallback_owner n
     \<and> tw_in_timeout w = nt_timeout n \<and> tw_in_salt w = nt_salt n"

lemma spend_witness_spends: "spends E (spend_witness E C n out pk sk mproof root) n"
  by (simp add: spends_def spend_witness_def Let_def split: prod.splits)

text \<open>The note that a claim rebuilds from the terms and the announcement.\<close>

definition claimed_note ::
    "'fr prims \<Rightarrow> ('fr, 'p, 's) curve \<Rightarrow> swap_announcement \<Rightarrow> 's \<Rightarrow> 'p \<Rightarrow> swap_terms \<Rightarrow> party_role \<Rightarrow> swap_note" where
  "claimed_note E C ann sk r_pub terms role =
     (let x = ecdh_shared_secret_x E C r_pub sk;
          owner = affine_x_to_b256 E C (cv_mul C (cv_generator C) (derive_stealth_secret E C sk r_pub))
      in case role of
           RoleA \<Rightarrow> note_with_salt (st_chain_id_b terms) (st_value_b terms) (st_asset_id_b terms) owner (st_pk_meta_b terms)
                     (st_timeout terms) (decrypt_salt E (an_encrypted_salt_b ann) x)
         | RoleB \<Rightarrow> note_with_salt (st_chain_id_a terms) (st_value_a terms) (st_asset_id_a terms) owner (st_pk_meta_a terms)
                     (st_timeout terms) (decrypt_salt E (an_encrypted_salt_a ann) x))"

lemma prepare_claim_spends:
  "spends E (snd (prepare_claim E C rnd ann own r_pub terms role mproof root)) (claimed_note E C ann (mk_sk own) r_pub terms role)"
  and prepare_claim_value:
  "tw_out_value (snd (prepare_claim E C rnd ann own r_pub terms role mproof root))
     = nt_value (claimed_note E C ann (mk_sk own) r_pub terms role)"
  by (cases role; simp add: prepare_claim_def claimed_note_def Let_def spend_witness_spends note_new_def note_with_salt_def;
      simp add: spend_witness_def Let_def note_new_def split: prod.splits)+

lemma prepare_claim_public:
  "tw_pk_stealth (snd (prepare_claim E C rnd ann own r_pub terms role mproof root))
     = nt_owner (claimed_note E C ann (mk_sk own) r_pub terms role)"
  "tw_timeout (snd (prepare_claim E C rnd ann own r_pub terms role mproof root))
     = nt_timeout (claimed_note E C ann (mk_sk own) r_pub terms role)"
  by (cases role; simp add: prepare_claim_def claimed_note_def Let_def note_with_salt_def spend_witness_def split: prod.splits)+

lemma claim_rebuilds_lock:
  fixes C :: "('fr, 'p, 's) curve"
  assumes "curve_laws C" and "length salt = 32"
    and "lo = prepare_lock E C r salt terms own (cv_mul C (cv_generator C) sk) input mproof root"
    and "pk_x E C own = (case role of RoleA \<Rightarrow> st_pk_meta_b terms | RoleB \<Rightarrow> st_pk_meta_a terms)"
    and "nt_chain_id input = (case role of RoleA \<Rightarrow> st_chain_id_b terms | RoleB \<Rightarrow> st_chain_id_a terms)"
    and "nt_value input = (case role of RoleA \<Rightarrow> st_value_b terms | RoleB \<Rightarrow> st_value_a terms)"
    and "nt_asset_id input = (case role of RoleA \<Rightarrow> st_asset_id_b terms | RoleB \<Rightarrow> st_asset_id_a terms)"
    and "(case role of RoleA \<Rightarrow> an_encrypted_salt_b ann | RoleB \<Rightarrow> an_encrypted_salt_a ann) = sub_encrypted_salt (lo_submission lo)"
  shows "claimed_note E C ann sk (ek_r_pub (lo_ephemeral_keypair lo)) terms role = lo_locked_note lo"
proof -
  note lf = prepare_lock_bound [OF assms(3)]
  have "decrypt_salt E (sub_encrypted_salt (lo_submission lo))
      (ecdh_shared_secret_x E C (cv_mul C (cv_generator C) r) sk) = nt_salt (lo_locked_note lo)"
    using decrypt_encrypt_salt [OF lf(11) [OF assms(2)]] by (simp add: lf(12) shared_secret [OF assms(1)])
  then show ?thesis
    using assms(4-8) lf(5-10,13) stealth_key [OF assms(1), of E sk r]
    by (cases role) (simp_all add: claimed_note_def note_with_salt_def Let_def swap_note.equality)
qed

section \<open>The coordinator\<close>

lemma sequential_match:
  fixes co :: "(mock_chain, bytes32 \<rightharpoonup> party_submission) coordinator"
  assumes "read_lock_data E mock_chain_port co s = Inr l" and "read_lock_data E mock_chain_port co s' = Inr l'"
    and "sub_swap_id s = swap_id" and "sub_swap_id s' = swap_id" and "co_store co swap_id = None"
    and "co_chains co (co_announcement_chain_id co) = Some ch"
    and "co_min_timeout_secs co \<le> saturating_sub (from_be (slice 24 32 (lk_timeout l'))) clock"
    and "verify_swap E s s' l l' = Inr ann" and "an_swap_id ann = swap_id"
  shows "\<exists>co1 co2 receipt.
      handle_submission E mock_chain_port in_memory_swap_store clock co s = (Inr Pending, co1)
    \<and> handle_submission E mock_chain_port in_memory_swap_store clock co1 s' = (Inr (Verified ann receipt), co2)
    \<and> get_announcement mock_chain_port co2 swap_id = Inr ann"
proof -
  obtain co1 where co1: "handle_submission E mock_chain_port in_memory_swap_store clock co s = (Inr Pending, co1)"
    "co_store co1 = (co_store co)(swap_id \<mapsto> s)" "co_pending_lock_data co1 = (co_pending_lock_data co)(swap_id \<mapsto> l)"
    "co_chains co1 = co_chains co" "co_announcement_chain_id co1 = co_announcement_chain_id co"
    "co_min_timeout_secs co1 = co_min_timeout_secs co"
    using ims.handle_first [OF assms(1)] assms(3,5) by auto
  have r: "read_lock_data E mock_chain_port co1 s' = Inr l'"
    using assms(2) by (simp add: read_lock_data_def co1(4))
  have t: "check_min_timeout c clock l' = Inr ()" if "co_min_timeout_secs c = co_min_timeout_secs co" for c :: "(mock_chain, bytes32 \<rightharpoonup> party_submission) coordinator"
    using assms(7) that by (simp add: check_min_timeout_def Let_def not_less [symmetric])
  show ?thesis
    using co1 r assms(4,6,8,9) t
    by (auto simp: handle_submission_def [of _ _ _ _ co1] in_memory_swap_store_def ims_submit_def match_submissions_def
        announce_def mock_chain_port_def mc_announce_swap_def get_announcement_def mc_get_announcement_def)
qed

end
