(* ===== verification/Swap_Theorems.thy ===== *)
theory Swap_Theorems
  imports Swap_Protocol Sample
begin

text \<open>
  The properties of the swap protocol, with witnesses over the sample primitives and the additive
  group of the integers in the place of the curve.
\<close>

section \<open>A sample swap\<close>

definition sample_curve :: "(sample_fr, int, int) curve" where
  "sample_curve =
     \<lparr>cv_generator = 1, cv_add = (+), cv_mul = (*), cv_x = word_of_int, cv_y = word_of_int, sc_add = (+),
      sc_from_be_bytes_mod_order = (\<lambda>bs. int (be_nat bs)), sc_to_bytes_le = (\<lambda>s. zeros 32)\<rparr>"

lemma sample_curve_laws: "curve_laws sample_curve"
  by (simp add: curve_laws_def sample_curve_def)

definition demo_note :: "bytes32 \<Rightarrow> u64 \<Rightarrow> swap_note" where
  "demo_note chain_id v = note_with_salt chain_id v (zeros 32) (zeros 32) (zeros 32) (zeros 32) (zeros 32)"

definition demo_path :: commitment_merkle_proof where
  "demo_path = \<lparr>cm_path = [], cm_indices = [], cm_leaf_index = 0, cm_proof_length = 0\<rparr>"

definition demo_sub :: party_submission where
  "demo_sub =
     \<lparr>sub_swap_id = swap_id_hash sample 1 (zeros 32) (zeros 32) 1 (zeros 32) (zeros 32) (zeros 32) (zeros 32) (zeros 32) (zeros 32),
      sub_nonce = zeros 32, sub_ephemeral_pubkey = zeros 32, sub_encrypted_salt = zeros 32,
      sub_note_details = demo_note (zeros 32) 1\<rparr>"

definition demo_lock :: swap_lock_data where
  "demo_lock =
     \<lparr>lk_commitment = commitment_hash sample (demo_note (zeros 32) 1), lk_timeout = zeros 32, lk_pk_stealth = zeros 32,
      lk_h_swap = bind_swap sample (sub_swap_id demo_sub) (zeros 32), lk_h_r = bind_r sample (zeros 32),
      lk_h_meta = bind_meta sample (zeros 32) (zeros 32), lk_h_enc = bind_enc sample (zeros 32)\<rparr>"

text \<open>A coordinator with one chain that knows one lock.\<close>

definition demo_co :: "bytes32 \<Rightarrow> bytes32 \<Rightarrow> swap_lock_data \<Rightarrow> (mock_chain, bytes32 \<rightharpoonup> party_submission) coordinator" where
  "demo_co chain_id commitment lock =
     coordinator_new Map.empty [chain_id \<mapsto> mc_insert_lock_data mc_new commitment lock] chain_id"

lemma demo_read:
  "read_lock_data sample mock_chain_port (demo_co (zeros 32) (lk_commitment demo_lock) demo_lock) demo_sub = Inr demo_lock"
  "co_store (demo_co c k l) swap_id = None" "co_pending_lock_data (demo_co c k l) swap_id = None"
  by (simp_all add: read_lock_data_def demo_co_def coordinator_new_def mock_chain_port_def mc_get_swap_lock_data_def
      mc_insert_lock_data_def demo_sub_def demo_lock_def demo_note_def note_with_salt_def Let_def)

lemma zeros_neq_one: "zeros 32 \<noteq> be_bytes 32 1"
proof
  assume "zeros 32 = be_bytes 32 1"
  then have "be_nat (zeros 32) = be_nat (be_bytes 32 1)" by simp
  then show False by simp
qed

lemma sample_swap_id_differs:
  "swap_id_hash sample 2 (zeros 32) (be_bytes 32 1) 1 (zeros 32) (zeros 32) (zeros 32) k k (zeros 32)
   \<noteq> swap_id_hash sample 1 (zeros 32) (zeros 32) 2 (zeros 32) (be_bytes 32 1) (zeros 32) k k (zeros 32)"
proof
  let ?f = "from_be_bytes_mod_order sample"
  assume "swap_id_hash sample 2 (zeros 32) (be_bytes 32 1) 1 (zeros 32) (zeros 32) (zeros 32) k k (zeros 32)
   = swap_id_hash sample 1 (zeros 32) (zeros 32) 2 (zeros 32) (be_bytes 32 1) (zeros 32) k k (zeros 32)"
  then have "?f (fr_to_b256 sample (sample_hash [?f DOMAIN_SWAP_ID, 2, 0, 1, 1, 0, 0, 0, ?f k, ?f k, 0]))
    = ?f (fr_to_b256 sample (sample_hash [?f DOMAIN_SWAP_ID, 1, 0, 0, 2, 0, 1, 0, ?f k, ?f k, 0]))"
    by (simp add: swap_id_hash_def poseidon_n_b256_def b256_to_fr_def u64_b256_def sample_def)
  then have "sample_hash [?f DOMAIN_SWAP_ID, 2, 0, 1, 1, 0, 0, 0, ?f k, ?f k, 0]
    = sample_hash [?f DOMAIN_SWAP_ID, 1, 0, 0, 2, 0, 1, 0, ?f k, ?f k, 0]"
    using sample_field_laws by (simp add: fr_to_b256_def field_laws_def)
  then have "(21060 :: sample_fr) = 0"
    by (simp add: sample_hash_def algebra_simps)
  moreover have "unat (21060 :: sample_fr) = 21060" by (simp add: unat_numeral take_bit_eq_mod)
  ultimately show False by simp
qed

lemma demo_verified: "verify_swap sample demo_sub demo_sub demo_lock demo_lock = Inr (announcement_of demo_sub demo_sub)"
  by (simp add: verify_swap_iff party_bound_def demo_sub_def demo_lock_def demo_note_def note_with_salt_def
      recomputed_swap_id_def Let_def)

definition demo_terms :: swap_terms where
  "demo_terms = terms_new sample (zeros 32) (zeros 32) 1 1 (zeros 32) (zeros 32) (zeros 32)
     (pk_x sample sample_curve (meta_from_secret sample_curve 2)) (pk_x sample sample_curve (meta_from_secret sample_curve 3))
     (zeros 32)"

definition demo_locked :: "(int, int) lock_output" where
  "demo_locked = prepare_lock sample sample_curve 5 (zeros 32) demo_terms (meta_from_secret sample_curve 2)
     (mk_pk (meta_from_secret sample_curve 3)) (demo_note (zeros 32) 1) demo_path (zeros 32)"

definition demo_announcement :: swap_announcement where
  "demo_announcement = announcement_of (lo_submission demo_locked) (lo_submission demo_locked)"

section \<open>Properties\<close>

text \<open>C26: A swap is announced only on what the chain holds. When the verification accepts two submissions
  with their on-chain lock data, one of them is party A and the other party B, the announced identifier is the
  one recomputed from both notes with their common timeout and nonce, both locked commitments are the
  commitments of the submitted notes, and each party's lock binds this swap, the other party's meta key, and
  exactly the ephemeral key and the encrypted salt that the announcement publishes for it. The order in which
  the submissions arrived makes no difference, unless the identifier also recomputes with the roles exchanged.\<close>

theorem verified_swap_is_bound:
  assumes "verify_swap E s1 s2 l1 l2 = Inr ann"
  shows "\<exists>a b la lb. ((a, la, b, lb) = (s1, l1, s2, l2) \<or> (a, la, b, lb) = (s2, l2, s1, l1))
      \<and> an_swap_id ann = recomputed_swap_id E a b (lk_timeout la) (sub_nonce a) \<and> lk_timeout lb = lk_timeout la
      \<and> lk_commitment la = commitment_hash E (sub_note_details a) \<and> lk_commitment lb = commitment_hash E (sub_note_details b)
      \<and> lk_h_swap la = bind_swap E (an_swap_id ann) (nt_salt (sub_note_details a))
      \<and> lk_h_swap lb = bind_swap E (an_swap_id ann) (nt_salt (sub_note_details b))
      \<and> lk_h_meta la = bind_meta E (nt_fallback_owner (sub_note_details b)) (nt_salt (sub_note_details a))
      \<and> lk_h_meta lb = bind_meta E (nt_fallback_owner (sub_note_details a)) (nt_salt (sub_note_details b))
      \<and> lk_h_r la = bind_r E (an_ephemeral_key_a ann) \<and> lk_h_r lb = bind_r E (an_ephemeral_key_b ann)
      \<and> lk_h_enc la = bind_enc E (an_encrypted_salt_a ann) \<and> lk_h_enc lb = bind_enc E (an_encrypted_salt_b ann)
      \<and> (verify_swap E s2 s1 l2 l1 = Inr ann
         \<or> recomputed_swap_id E b a (lk_timeout la) (sub_nonce a) = an_swap_id ann)"
proof (cases "recomputed_swap_id E s1 s2 (timeout_of s1) (sub_nonce s1) = sub_swap_id s1")
  case True
  with assms show ?thesis
    by (intro exI [of _ s1] exI [of _ s2] exI [of _ l1] exI [of _ l2])
       (auto simp: verify_swap_iff party_bound_def announcement_of_def Let_def)
next
  case False
  with assms show ?thesis
    by (intro exI [of _ s2] exI [of _ s1] exI [of _ l2] exI [of _ l1])
       (auto simp: verify_swap_iff party_bound_def announcement_of_def Let_def)
qed

theorem verified_swap_is_bound_witness:
  "\<exists>ann. verify_swap sample demo_sub demo_sub demo_lock demo_lock = Inr ann
    \<and> lk_h_r demo_lock = bind_r sample (an_ephemeral_key_a ann)"
  using verified_swap_is_bound [OF demo_verified] demo_verified by auto

text \<open>C25: Two honest parties complete their swap. When both lock notes prepared for the agreed terms, the
  locks are on the chains the coordinator reads, the swap is not already pending, and the required time is left,
  then in whichever order the submissions arrive the first is pending and the second is verified, the
  announcement can be read from the chain, and with it each party's claim spends exactly the note
  the other one locked. The terms are not those of a swap whose identifier is symmetric in the two parties.\<close>

theorem swap_completes:
  fixes C :: "('fr, 'p, 's) curve" and co :: "(mock_chain, bytes32 \<rightharpoonup> party_submission) coordinator"
  assumes "curve_laws C" and "length salt_a = 32" and "length salt_b = 32"
    and "ka = meta_from_secret C ska" and "kb = meta_from_secret C skb"
    and "terms = terms_new E (nt_chain_id na) (nt_chain_id nb) (nt_value na) (nt_value nb) (nt_asset_id na) (nt_asset_id nb)
      timeout (pk_x E C ka) (pk_x E C kb) nonce"
    and "la = prepare_lock E C ra salt_a terms ka (mk_pk kb) na pa root_a"
    and "lb = prepare_lock E C rb salt_b terms kb (mk_pk ka) nb pb root_b"
    and "read_lock_data E mock_chain_port co (lo_submission la) = Inr (lock_event (lo_witness la))"
    and "read_lock_data E mock_chain_port co (lo_submission lb) = Inr (lock_event (lo_witness lb))"
    and "co_store co (st_swap_id terms) = None" and "co_chains co (co_announcement_chain_id co) = Some ch"
    and "co_min_timeout_secs co \<le> saturating_sub (from_be (slice 24 32 timeout)) clock"
    and "swap_id_hash E (nt_value nb) (nt_asset_id nb) (nt_chain_id nb) (nt_value na) (nt_asset_id na) (nt_chain_id na)
      timeout (pk_x E C kb) (pk_x E C ka) nonce \<noteq> st_swap_id terms"
    and "(first, second) = (la, lb) \<or> (first, second) = (lb, la)"
  shows "\<exists>co1 co2 ann receipt.
      handle_submission E mock_chain_port in_memory_swap_store clock co (lo_submission first) = (Inr Pending, co1)
    \<and> handle_submission E mock_chain_port in_memory_swap_store clock co1 (lo_submission second)
        = (Inr (Verified ann receipt), co2)
    \<and> get_announcement mock_chain_port co2 (st_swap_id terms) = Inr ann
    \<and> (\<forall>rnd mproof root. spends E (snd (prepare_claim E C rnd ann ka (ek_r_pub (lo_ephemeral_keypair lb)) terms RoleA mproof root))
        (lo_locked_note lb))
    \<and> (\<forall>rnd mproof root. spends E (snd (prepare_claim E C rnd ann kb (ek_r_pub (lo_ephemeral_keypair la)) terms RoleB mproof root))
        (lo_locked_note la))"
proof -
  note fa = prepare_lock_bound [OF assms(7)] and fb = prepare_lock_bound [OF assms(8)]
  let ?sa = "lo_submission la" and ?sb = "lo_submission lb"
  let ?ea = "lock_event (lo_witness la)" and ?eb = "lock_event (lo_witness lb)"
  have pk: "affine_x_to_b256 E C (mk_pk kb) = pk_x E C kb" "affine_x_to_b256 E C (mk_pk ka) = pk_x E C ka"
    by (simp_all add: pk_x_def)
  have tf: "st_timeout terms = timeout" "st_nonce terms = nonce"
    and id1: "recomputed_swap_id E ?sa ?sb timeout nonce = st_swap_id terms"
    and id2: "recomputed_swap_id E ?sb ?sa timeout nonce \<noteq> st_swap_id terms"
    using assms(14) by (simp_all add: assms(6) terms_new_def Let_def recomputed_swap_id_def fa(4,6-9) fb(4,6-9))
  have v: "verify_swap E ?sa ?sb ?ea ?eb = Inr (announcement_of ?sa ?sb)"
    "verify_swap E ?sb ?sa ?eb ?ea = Inr (announcement_of ?sa ?sb)"
    unfolding verify_swap_iff using id1 id2 fa(1-6) fb(1-6) pk by (simp_all add: tf)
  have to: "lk_timeout ?ea = timeout" "lk_timeout ?eb = timeout"
    using fa(1,4,5) fb(1,4,5) tf by (simp_all add: party_bound_def Let_def)
  have seq: "\<exists>co1 co2 receipt.
      handle_submission E mock_chain_port in_memory_swap_store clock co s = (Inr Pending, co1)
    \<and> handle_submission E mock_chain_port in_memory_swap_store clock co1 s'
        = (Inr (Verified (announcement_of ?sa ?sb) receipt), co2)
    \<and> get_announcement mock_chain_port co2 (st_swap_id terms) = Inr (announcement_of ?sa ?sb)"
    if "read_lock_data E mock_chain_port co s = Inr l" "read_lock_data E mock_chain_port co s' = Inr l'"
      "sub_swap_id s = st_swap_id terms" "sub_swap_id s' = st_swap_id terms" "lk_timeout l' = timeout"
      "verify_swap E s s' l l' = Inr (announcement_of ?sa ?sb)" for s s' l l'
    by (rule sequential_match) (use that assms(11-13) fa(2) in \<open>auto simp: announcement_of_def\<close>)
  have ca: "claimed_note E C (announcement_of ?sa ?sb) ska (ek_r_pub (lo_ephemeral_keypair lb)) terms RoleA = lo_locked_note lb"
    by (rule claim_rebuilds_lock [OF assms(1,3)])
       (use assms(4,8) in \<open>simp_all add: meta_from_secret_def assms(6) terms_new_def Let_def announcement_of_def\<close>)
  have cb: "claimed_note E C (announcement_of ?sa ?sb) skb (ek_r_pub (lo_ephemeral_keypair la)) terms RoleB = lo_locked_note la"
    by (rule claim_rebuilds_lock [OF assms(1,2)])
       (use assms(5,7) in \<open>simp_all add: meta_from_secret_def assms(6) terms_new_def Let_def announcement_of_def\<close>)
  have sk: "mk_sk ka = ska" "mk_sk kb = skb" by (simp_all add: assms(4,5) meta_from_secret_def)
  show ?thesis
    using assms(15) seq [OF assms(9,10) fa(2) fb(2) to(2) v(1)] seq [OF assms(10,9) fb(2) fa(2) to(1) v(2)]
      prepare_claim_spends [of E C _ "announcement_of ?sa ?sb" ka "ek_r_pub (lo_ephemeral_keypair lb)" terms RoleA, unfolded sk ca]
      prepare_claim_spends [of E C _ "announcement_of ?sa ?sb" kb "ek_r_pub (lo_ephemeral_keypair la)" terms RoleB, unfolded sk cb]
    by auto
qed

theorem swap_completes_witness:
  "\<exists>(co :: (mock_chain, bytes32 \<rightharpoonup> party_submission) coordinator) s1 s2 co1 co2 ann receipt.
      handle_submission sample mock_chain_port in_memory_swap_store 0 co s1 = (Inr Pending, co1)
    \<and> handle_submission sample mock_chain_port in_memory_swap_store 0 co1 s2 = (Inr (Verified ann receipt), co2)"
proof -
  let ?cb = "be_bytes 32 1"
  define ka where "ka = meta_from_secret sample_curve 2"
  define kb where "kb = meta_from_secret sample_curve 2"
  define terms where "terms = terms_new sample (zeros 32) ?cb 1 2 (zeros 32) (zeros 32) (zeros 32)
    (pk_x sample sample_curve ka) (pk_x sample sample_curve kb) (zeros 32)"
  define la where "la = prepare_lock sample sample_curve 5 (zeros 32) terms ka (mk_pk kb) (demo_note (zeros 32) 1) demo_path (zeros 32)"
  define lb where "lb = prepare_lock sample sample_curve 7 (zeros 32) terms kb (mk_pk ka) (demo_note ?cb 2) demo_path (zeros 32)"
  define chain where "chain = (\<lambda>l :: (int, int) lock_output.
    mc_insert_lock_data mc_new (commitment_hash sample (lo_locked_note l)) (lock_event (lo_witness l)))"
  define co where "co = coordinator_new (Map.empty :: bytes32 \<rightharpoonup> party_submission) [zeros 32 \<mapsto> chain la, ?cb \<mapsto> chain lb] (zeros 32)"
  have t: "terms = terms_new sample (nt_chain_id (demo_note (zeros 32) 1)) (nt_chain_id (demo_note ?cb 2))
      (nt_value (demo_note (zeros 32) 1)) (nt_value (demo_note ?cb 2)) (nt_asset_id (demo_note (zeros 32) 1))
      (nt_asset_id (demo_note ?cb 2)) (zeros 32) (pk_x sample sample_curve ka) (pk_x sample sample_curve kb) (zeros 32)"
    by (simp add: terms_def demo_note_def note_with_salt_def)
  have r: "read_lock_data sample mock_chain_port co (lo_submission la) = Inr (lock_event (lo_witness la))"
    "read_lock_data sample mock_chain_port co (lo_submission lb) = Inr (lock_event (lo_witness lb))"
    using zeros_neq_one
    by (simp_all add: read_lock_data_def prepare_lock_bound(4,7) [OF la_def] prepare_lock_bound(4,7) [OF lb_def] co_def
        coordinator_new_def chain_def mock_chain_port_def mc_get_swap_lock_data_def mc_insert_lock_data_def demo_note_def
        note_with_salt_def Let_def)
  have c: "co_store co (st_swap_id terms) = None" "co_chains co (co_announcement_chain_id co) = Some (chain la)"
    "co_min_timeout_secs co \<le> saturating_sub (from_be (slice 24 32 (zeros 32))) 0"
    using zeros_neq_one by (simp_all add: co_def coordinator_new_def)
  have ne: "swap_id_hash sample (nt_value (demo_note ?cb 2)) (nt_asset_id (demo_note ?cb 2)) (nt_chain_id (demo_note ?cb 2))
      (nt_value (demo_note (zeros 32) 1)) (nt_asset_id (demo_note (zeros 32) 1)) (nt_chain_id (demo_note (zeros 32) 1))
      (zeros 32) (pk_x sample sample_curve kb) (pk_x sample sample_curve ka) (zeros 32) \<noteq> st_swap_id terms"
    using sample_swap_id_differs
    by (simp add: terms_def terms_new_def ka_def kb_def demo_note_def note_with_salt_def Let_def)
  have l: "length (zeros 32) = 32" by simp
  from swap_completes [OF sample_curve_laws l l ka_def kb_def t la_def lb_def r c ne, of la lb] show ?thesis by blast
qed

text \<open>C27: The handler is not atomic. When the two submissions of a swap are handled at the same time and both
  tasks pass the store before the first one has left its lock data, the second one fails with missing lock data
  although both submissions are in order: the swap is not announced, neither submission is pending any more,
  and the lock data of the first stay behind.\<close>

theorem concurrent_submissions_lose_swap:
  fixes co :: "('c, bytes32 \<rightharpoonup> party_submission) coordinator"
  assumes "read_lock_data E CP co s1 = Inr l1" and "read_lock_data E CP co s2 = Inr l2"
    and "sub_swap_id s1 = swap_id" and "sub_swap_id s2 = swap_id"
    and "co_store co swap_id = None" and "co_pending_lock_data co swap_id = None"
  shows "\<exists>co'. run_tasks E CP in_memory_swap_store clock [False, True, False, True, True, False] (co, Started s1, Started s2)
      = (co', Finished (Inr Pending), Finished (Inl MissingLockData))
    \<and> has_pending in_memory_swap_store co' swap_id = Inr False \<and> co_chains co' = co_chains co
    \<and> co_pending_lock_data co' swap_id = Some l1"
  using assms
  by (simp add: task_step_def in_memory_swap_store_def ims_submit_def match_submissions_def buffer_lock_data_def
      has_pending_def ims_has_pending_def Let_def)

theorem concurrent_submissions_lose_swap_witness:
  "\<exists>co'. run_tasks sample mock_chain_port in_memory_swap_store 0 [False, True, False, True, True, False]
      (demo_co (zeros 32) (lk_commitment demo_lock) demo_lock, Started demo_sub, Started demo_sub)
    = (co', Finished (Inr Pending), Finished (Inl MissingLockData))"
  using concurrent_submissions_lose_swap [OF demo_read(1) demo_read(1) refl refl demo_read(2,3)] by blast

text \<open>C28: A second submission is consumed whatever comes of it. Anybody who knows the identifier of a swap
  and owns any locked note can send a submission that does not match the pending one: it is refused, the pending submission
  is gone as well, and the counterparty's submission that follows is taken for a first one and waits.\<close>

theorem foreign_submission_cancels:
  fixes co :: "('c, bytes32 \<rightharpoonup> party_submission) coordinator"
  assumes "co_store co swap_id = Some first" and "co_pending_lock_data co swap_id = Some l1"
    and "sub_swap_id foreign = swap_id" and "read_lock_data E CP co foreign = Inr l"
    and "verify_swap E first foreign l1 l = Inl e"
    and "sub_swap_id second = swap_id" and "read_lock_data E CP co second = Inr l2"
  shows "\<exists>e' co1 co2. handle_submission E CP in_memory_swap_store clock co foreign = (Inl e', co1)
    \<and> has_pending in_memory_swap_store co1 swap_id = Inr False
    \<and> handle_submission E CP in_memory_swap_store clock co1 second = (Inr Pending, co2)"
proof -
  obtain e' co1 where h: "handle_submission E CP in_memory_swap_store clock co foreign = (Inl e', co1)"
    and c: "co_chains co1 = co_chains co"
    using assms(1-5)
    by (cases "check_min_timeout (co\<lparr>co_store := (co_store co)(swap_id := None),
          co_pending_lock_data := (co_pending_lock_data co)(swap_id := None)\<rparr>) clock l")
       (auto simp: handle_submission_def in_memory_swap_store_def ims_submit_def match_submissions_def Let_def)
  have gone: "co_store co1 swap_id = None"
    using ims.handle_second [OF assms(4) _ h, of first] assms(1,3) by simp
  have "read_lock_data E CP co1 second = Inr l2" using assms(7) by (simp add: read_lock_data_def c)
  from ims.handle_first [OF this, of clock] gone assms(6) h show ?thesis
    by (auto simp: has_pending_def in_memory_swap_store_def ims_has_pending_def)
qed

theorem foreign_submission_cancels_witness:
  "\<exists>co e co1 co2. co_store co (sub_swap_id demo_sub) = Some demo_sub
    \<and> handle_submission sample mock_chain_port in_memory_swap_store 0 co (demo_sub\<lparr>sub_nonce := be_bytes 32 1\<rparr>) = (Inl e, co1)
    \<and> handle_submission sample mock_chain_port in_memory_swap_store 0 co1 demo_sub = (Inr Pending, co2)"
proof -
  let ?co = "(demo_co (zeros 32) (lk_commitment demo_lock) demo_lock)
    \<lparr>co_store := [sub_swap_id demo_sub \<mapsto> demo_sub], co_pending_lock_data := [sub_swap_id demo_sub \<mapsto> demo_lock]\<rparr>"
  let ?f = "demo_sub\<lparr>sub_nonce := be_bytes 32 1\<rparr>"
  have r: "read_lock_data sample mock_chain_port ?co demo_sub = Inr demo_lock"
    "read_lock_data sample mock_chain_port ?co ?f = Inr demo_lock"
    using demo_read(1) by (simp_all add: read_lock_data_def)
  have "verify_swap sample demo_sub ?f demo_lock demo_lock = Inl NonceMismatch"
    using zeros_neq_one by (simp add: verify_swap_def demo_sub_def)
  from foreign_submission_cancels [OF _ _ _ r(2) this _ r(1), of "sub_swap_id demo_sub" 0] show ?thesis
    by (auto intro!: exI [of _ ?co])
qed

text \<open>The claim of the counterparty and the refund of the party that locked a note have the same
  nullifier, so that at most one of them can be spent; both carry the lock's timeout and the whole value. Their public
  inputs are not the same: the claim shows the stealth key of the note, the refund shows zero.\<close>

lemma claim_and_refund_exclude:
  fixes C :: "('fr, 'p, 's) curve"
  assumes "curve_laws C" and "length salt = 32"
    and "ka = meta_from_secret C ska" and "kb = meta_from_secret C skb"
    and "terms = terms_new E (nt_chain_id na) chain_b (nt_value na) value_b (nt_asset_id na) asset_b
      timeout (pk_x E C ka) (pk_x E C kb) nonce"
    and "la = prepare_lock E C r salt terms ka (mk_pk kb) na pa root_a"
    and "an_encrypted_salt_a ann = sub_encrypted_salt (lo_submission la)"
    and "claim = snd (prepare_claim E C rnd ann kb (ek_r_pub (lo_ephemeral_keypair la)) terms RoleB mproof root)"
    and "refund = snd (prepare_refund E C rnd' (lo_locked_note la) ska mproof' root')"
  shows "tw_nullifier claim = tw_nullifier refund \<and> tw_timeout claim = tw_timeout refund
    \<and> tw_out_value claim = tw_out_value refund \<and> tw_in_salt claim = tw_in_salt refund
    \<and> tw_pk_stealth claim = nt_owner (lo_locked_note la) \<and> tw_pk_stealth refund = B256_ZERO"
proof -
  have n: "claimed_note E C ann (mk_sk kb) (ek_r_pub (lo_ephemeral_keypair la)) terms RoleB = lo_locked_note la"
    unfolding assms(4) meta_from_secret_def meta_key_pair.simps
    by (rule claim_rebuilds_lock [OF assms(1,2)])
       (use assms(4,6,7) in \<open>simp_all add: meta_from_secret_def assms(5) terms_new_def Let_def\<close>)
  show ?thesis
    using prepare_claim_spends [of E C rnd ann kb "ek_r_pub (lo_ephemeral_keypair la)" terms RoleB mproof root, unfolded n]
      prepare_claim_value [of E C rnd ann kb "ek_r_pub (lo_ephemeral_keypair la)" terms RoleB mproof root, unfolded n]
      prepare_claim_public [of E C rnd ann kb "ek_r_pub (lo_ephemeral_keypair la)" terms RoleB mproof root, unfolded n]
    by (simp add: assms(8,9) prepare_refund_def Let_def spends_def spend_witness_def note_new_def split: prod.splits)
qed

end
