(* ===== verification/Fund_Notes.thy ===== *)
theory Fund_Notes
  imports Poseidon
begin

text \<open>
  The private money-market fund of \<open>pocs/private-mmf/shielded-notes\<close>: the Poseidon sponge
  (\<open>poseidon.rs\<close>), canonical scalars (\<open>types.rs\<close>), notes, locks and nullifiers (\<open>domain/note.rs\<close>),
  the transaction plan (\<open>domain/plan.rs\<close>), keys and registrations (\<open>domain/keys.rs\<close>), the curve
  Grumpkin as the code computes on it (\<open>domain/grumpkin.rs\<close>), the register feed
  (\<open>domain/feed.rs\<close>) and the lean Merkle tree (\<open>domain/tree.rs\<close>).

  The external crates are the record \<open>fund_prims\<close>: subtraction and inverse of scalars (ark-ff),
  secp256k1 keys and ECDSA (k256), sealed payloads (sealring) and the lean incremental tree
  (rotortree), which is asked with the list of everything inserted into it. Random values are
  arguments. Machine integers wrap as in a release build.
\<close>

section \<open>External primitives\<close>

record lean_level =
  ll_sibling_count :: nat
  ll_siblings :: "bytes32 list"
  ll_position :: nat

record 'fr fund_prims =
  fr_sub :: "'fr \<Rightarrow> 'fr \<Rightarrow> 'fr"
  fr_inverse :: "'fr \<Rightarrow> 'fr option"
  k256_from_slice :: "u8 list \<Rightarrow> u8 list option"
  k256_public :: "u8 list \<Rightarrow> bytes32 \<times> bytes32"
  ecdsa_sign :: "u8 list \<Rightarrow> bytes32 \<Rightarrow> u8 list"
  ecdsa_key_ok :: "u8 list \<Rightarrow> bool"
  ecdsa_signature_ok :: "u8 list \<Rightarrow> bool"
  ecdsa_verify :: "u8 list \<Rightarrow> bytes32 \<Rightarrow> u8 list \<Rightarrow> bool"
  view_public :: "u8 list \<Rightarrow> u8 list"
  seal :: "string \<Rightarrow> u8 list \<Rightarrow> u8 list \<Rightarrow> u8 list \<Rightarrow> u8 list \<Rightarrow> u8 list"
  seal_parses :: "u8 list \<Rightarrow> bool"
  seal_open :: "string \<Rightarrow> u8 list \<Rightarrow> u8 list \<Rightarrow> u8 list \<Rightarrow> (unit, u8 list option) result"
  lean_root :: "(bytes32 \<Rightarrow> bytes32 \<Rightarrow> bytes32) \<Rightarrow> bytes32 list \<Rightarrow> bytes32 option"
  lean_proof :: "(bytes32 \<Rightarrow> bytes32 \<Rightarrow> bytes32) \<Rightarrow> bytes32 list \<Rightarrow> nat \<Rightarrow> lean_level list option"

section \<open>Constants\<close>

definition MAX_COMMITMENT_DEPTH :: u64 where "MAX_COMMITMENT_DEPTH = 32"
definition EPOCH_SECONDS :: u64 where "EPOCH_SECONDS = 86400"
definition MULTIPLIER_SCALE :: u128 where "MULTIPLIER_SCALE = 1000000000000000000"

definition two_to_160 :: "'fr prims \<Rightarrow> 'fr" where
  "two_to_160 E = from_be_bytes_mod_order E (1 # zeros 20)"

definition NK_TAG :: "'fr prims \<Rightarrow> 'fr" where "NK_TAG E = fr_add E (two_to_160 E) (fr_of E 16)"
definition OWNER_TAG :: "'fr prims \<Rightarrow> 'fr" where "OWNER_TAG E = fr_add E (two_to_160 E) (fr_of E 17)"
definition LOCK_TAG :: "'fr prims \<Rightarrow> 'fr" where "LOCK_TAG E = fr_add E (two_to_160 E) (fr_of E 18)"
definition PLAN_TAG :: "'fr prims \<Rightarrow> 'fr" where "PLAN_TAG E = fr_add E (two_to_160 E) (fr_of E 19)"
definition FEED_TAG :: "'fr prims \<Rightarrow> 'fr" where "FEED_TAG E = fr_add E (two_to_160 E) (fr_of E 20)"

section \<open>Poseidon\<close>

definition permute5_round :: "'fr prims \<Rightarrow> nat \<Rightarrow> 'fr list \<Rightarrow> 'fr list" where
  "permute5_round E round state =
     (let params = t5_params E;
          half = pp_full_rounds params div 2;
          state = map (\<lambda>(i, s). fr_add E s (pp_ark params ! (round * 5 + i))) (enumerated state);
          state = (if round < half \<or> half + pp_partial_rounds params \<le> round
                   then map (\<lambda>s. fr_pow E s (pp_alpha params)) state
                   else state[0 := fr_pow E (state ! 0) (pp_alpha params)])
      in map (\<lambda>i. fold (\<lambda>(j, s) n. fr_add E n (fr_mul E s (pp_mds params ! i ! j))) (enumerated state) (fr_of E 0))
           [0..<5])"

definition permute5 :: "'fr prims \<Rightarrow> 'fr list \<Rightarrow> 'fr list" where
  "permute5 E state =
     fold (permute5_round E) [0..<pp_full_rounds (t5_params E) + pp_partial_rounds (t5_params E)] state"

definition sponge_step :: "'fr prims \<Rightarrow> 'fr \<Rightarrow> 'fr list \<times> nat \<Rightarrow> 'fr list \<times> nat" where
  "sponge_step E m = (\<lambda>(state, i).
     let state = state[1 + i := fr_add E (state ! (1 + i)) m]; i = i + 1
     in if i = 4 then (permute5 E state, 0) else (state, i))"

definition sponge :: "'fr prims \<Rightarrow> 'fr list \<Rightarrow> 'fr" where
  "sponge E msg =
     (let (state, i) = fold (sponge_step E) msg (replicate 5 (fr_of E 0), 0);
          state = (if i \<noteq> 0 then permute5 E state else state)
      in state ! 1)"

definition fr_bytes :: "'fr prims \<Rightarrow> 'fr \<Rightarrow> bytes32" where
  "fr_bytes E x = to_bytes_be E x"

section \<open>Canonical scalars\<close>

datatype crypto_error =
    NotCanonical bytes32
  | MalformedCiphertext
  | DecryptionFailed
  | InvalidKey
  | PlanMismatch
  | RegistrationKeyMismatch
  | BadSignature

definition fr_try_from :: "'fr prims \<Rightarrow> bytes32 \<Rightarrow> (crypto_error, 'fr) result" where
  "fr_try_from E value =
     (let n = be_nat value in
      if fr_modulus E \<le> n then Inl (NotCanonical value) else Inr (from_be_bytes_mod_order E value))"

definition fr_of_address :: "'fr prims \<Rightarrow> address \<Rightarrow> 'fr" where
  "fr_of_address E a = from_be_bytes_mod_order E a"

section \<open>Notes and locks\<close>

definition LOCK_FREEZE :: u64 where "LOCK_FREEZE = 1"
definition LOCK_HOLD :: u64 where "LOCK_HOLD = 2"

record 'fr lock_opening =
  lo_reason :: u64
  lo_release_after :: u64
  lo_claim_party :: 'fr

definition lock_none :: "'fr prims \<Rightarrow> 'fr lock_opening" where
  "lock_none E = \<lparr>lo_reason = 0, lo_release_after = 0, lo_claim_party = fr_of E 0\<rparr>"

definition lock_freeze :: "'fr prims \<Rightarrow> 'fr lock_opening" where
  "lock_freeze E = \<lparr>lo_reason = LOCK_FREEZE, lo_release_after = - 1, lo_claim_party = fr_of E 0\<rparr>"

definition lock_hold :: "'fr prims \<Rightarrow> u64 \<Rightarrow> 'fr lock_opening" where
  "lock_hold E epoch = \<lparr>lo_reason = LOCK_HOLD, lo_release_after = epoch, lo_claim_party = fr_of E 0\<rparr>"

definition lock_value :: "'fr prims \<Rightarrow> 'fr lock_opening \<Rightarrow> 'fr" where
  "lock_value E l =
     (if lo_reason l = 0 then fr_of E 0
      else poseidon4 E (LOCK_TAG E) (fr_of E (lo_reason l)) (fr_of E (lo_release_after l)) (lo_claim_party l))"

definition lock_fields :: "'fr prims \<Rightarrow> 'fr lock_opening \<Rightarrow> 'fr list" where
  "lock_fields E l = [fr_of E (lo_reason l), fr_of E (lo_release_after l), lo_claim_party l]"

definition fr_small :: "'fr prims \<Rightarrow> 'fr \<Rightarrow> u64 option" where
  "fr_small E f =
     (let bytes = fr_bytes E f in
      if list_ex (\<lambda>b. b \<noteq> 0) (slice 0 24 bytes) then None else Some (from_be (slice 24 32 bytes)))"

definition lock_from_fields :: "'fr prims \<Rightarrow> 'fr list \<Rightarrow> 'fr lock_opening option" where
  "lock_from_fields E f =
     (case fr_small E (f ! 0) of None \<Rightarrow> None
      | Some reason \<Rightarrow>
          (case fr_small E (f ! 1) of None \<Rightarrow> None
           | Some release_after \<Rightarrow>
               Some \<lparr>lo_reason = reason, lo_release_after = release_after, lo_claim_party = f ! 2\<rparr>))"

record 'fr fund_note =
  fn_token :: 'fr
  fn_units :: u64
  fn_owner :: 'fr
  fn_salt :: 'fr
  fn_lock :: 'fr

definition NOTE_FIELDS :: nat where "NOTE_FIELDS = 5"
definition NOTE_BYTES :: nat where "NOTE_BYTES = NOTE_FIELDS * 32"

definition note_fields :: "'fr prims \<Rightarrow> 'fr fund_note \<Rightarrow> 'fr list" where
  "note_fields E n = [fn_token n, fr_of E (fn_units n), fn_owner n, fn_salt n, fn_lock n]"

definition fund_commitment :: "'fr prims \<Rightarrow> 'fr fund_note \<Rightarrow> 'fr" where
  "fund_commitment E n = poseidon5 E [fn_token n, fr_of E (fn_units n), fn_owner n, fn_salt n, fn_lock n]"

definition note_encode :: "'fr prims \<Rightarrow> 'fr fund_note \<Rightarrow> u8 list" where
  "note_encode E n = concat (map (fr_bytes E) (note_fields E n))"

definition note_from_fields :: "'fr prims \<Rightarrow> 'fr list \<Rightarrow> 'fr fund_note option" where
  "note_from_fields E f =
     (case fr_small E (f ! 1) of None \<Rightarrow> None
      | Some units \<Rightarrow>
          Some \<lparr>fn_token = f ! 0, fn_units = units, fn_owner = f ! 2, fn_salt = f ! 3, fn_lock = f ! 4\<rparr>)"

definition word_at :: "u8 list \<Rightarrow> nat \<Rightarrow> bytes32" where
  "word_at bytes i = slice (32 * i) (32 * i + 32) bytes"

definition note_decode :: "'fr prims \<Rightarrow> u8 list \<Rightarrow> (crypto_error, 'fr fund_note) result" where
  "note_decode E bytes =
     (if length bytes \<noteq> NOTE_BYTES then Inl MalformedCiphertext
      else and_then (try_map (\<lambda>i. fr_try_from E (word_at bytes i)) [0..<NOTE_FIELDS])
             (\<lambda>f. ok_or MalformedCiphertext (note_from_fields E f)))"

text \<open>The nullifier key is its scalar.\<close>

definition fund_nullifier :: "'fr prims \<Rightarrow> 'fr \<Rightarrow> 'fr \<Rightarrow> 'fr" where
  "fund_nullifier E commitment nk = poseidon2 E commitment nk"

section \<open>The transaction plan\<close>

definition OP_DEPOSIT :: u64 where "OP_DEPOSIT = 1"
definition OP_TRANSFER :: u64 where "OP_TRANSFER = 2"
definition OP_WITHDRAW :: u64 where "OP_WITHDRAW = 3"
definition PATH_OWNER :: u64 where "PATH_OWNER = 0"
definition PATH_CLAIM :: u64 where "PATH_CLAIM = 1"

record 'fr plan =
  pl_chain_id :: u64
  pl_pool :: address
  pl_op :: u64
  pl_path :: u64
  pl_nullifiers :: "'fr \<times> 'fr"
  pl_outputs :: "'fr \<times> 'fr"
  pl_public_units :: u64
  pl_recipient :: 'fr
  pl_expiry :: u64

definition plan_digest :: "'fr prims \<Rightarrow> 'fr plan \<Rightarrow> 'fr" where
  "plan_digest E p =
     sponge E [PLAN_TAG E, fr_of E (pl_chain_id p), fr_of_address E (pl_pool p), fr_of E (pl_op p), fr_of E (pl_path p),
       fst (pl_nullifiers p), snd (pl_nullifiers p), fst (pl_outputs p), snd (pl_outputs p),
       fr_of E (pl_public_units p), pl_recipient p, fr_of E (pl_expiry p)]"

definition rebuilt_output :: "'fr prims \<Rightarrow> 'fr fund_note list \<Rightarrow> nat \<Rightarrow> 'fr" where
  "rebuilt_output E outputs j = (if j < length outputs then fund_commitment E (outputs ! j) else fr_of E 0)"

definition plan_rebuild :: "'fr prims \<Rightarrow> 'fr plan \<Rightarrow> 'fr fund_note list \<Rightarrow> (crypto_error, bytes32) result" where
  "plan_rebuild E p outputs =
     (if 2 < length outputs then Inl PlanMismatch
      else if rebuilt_output E outputs 0 \<noteq> fst (pl_outputs p) then Inl PlanMismatch
      else if rebuilt_output E outputs 1 \<noteq> snd (pl_outputs p) then Inl PlanMismatch
      else Inr (fr_bytes E (plan_digest E p)))"

section \<open>Keys\<close>

record public_spend_key =
  sp_x :: bytes32
  sp_y :: bytes32

definition limb :: "'fr prims \<Rightarrow> u8 list \<Rightarrow> 'fr" where
  "limb E bytes = from_be_bytes_mod_order E bytes"

definition key_hash :: "'fr prims \<Rightarrow> public_spend_key \<Rightarrow> 'fr" where
  "key_hash E k =
     poseidon4 E (limb E (slice 0 16 (sp_x k))) (limb E (drop 16 (sp_x k)))
       (limb E (slice 0 16 (sp_y k))) (limb E (drop 16 (sp_y k)))"

definition nk_hash :: "'fr prims \<Rightarrow> 'fr \<Rightarrow> 'fr" where
  "nk_hash E nk = poseidon2 E (NK_TAG E) nk"

definition owner_value :: "'fr prims \<Rightarrow> public_spend_key \<Rightarrow> 'fr \<Rightarrow> 'fr" where
  "owner_value E pk nk = poseidon3 E (OWNER_TAG E) (key_hash E pk) (nk_hash E nk)"

record 'fr registration =
  rgn_chain_id :: u64
  rgn_pool :: address
  rgn_investor_id :: "u8 list"
  rgn_pk :: public_spend_key
  rgn_nk_hash :: 'fr
  rgn_vpk :: "u8 list"

definition registration_digest :: "'fr prims \<Rightarrow> 'fr registration \<Rightarrow> bytes32" where
  "registration_digest E r =
     keccak256 E (ascii ''shielded-notes registration'' @ u64_to_be (rgn_chain_id r) @ rgn_pool r
       @ keccak256 E (rgn_investor_id r) @ sp_x (rgn_pk r) @ sp_y (rgn_pk r) @ fr_bytes E (rgn_nk_hash r) @ rgn_vpk r)"

definition registration_verify ::
    "'fr prims \<Rightarrow> 'fr fund_prims \<Rightarrow> 'fr registration \<Rightarrow> u8 list \<Rightarrow> (crypto_error, unit) result" where
  "registration_verify E X r signature =
     (let sec1 = [0x04] @ sp_x (rgn_pk r) @ sp_y (rgn_pk r) in
      if \<not> ecdsa_key_ok X sec1 then Inl InvalidKey
      else if \<not> ecdsa_signature_ok X signature then Inl BadSignature
      else if \<not> ecdsa_verify X sec1 (registration_digest E r) signature then Inl BadSignature
      else Inr ())"

text \<open>A spend key is its secret bytes, a viewing key likewise, and a viewing public key its SEC1
  encoding.\<close>

definition spend_from_secret :: "'fr fund_prims \<Rightarrow> u8 list \<Rightarrow> (crypto_error, u8 list) result" where
  "spend_from_secret X bytes = ok_or InvalidKey (k256_from_slice X bytes)"

definition spend_public_key :: "'fr fund_prims \<Rightarrow> u8 list \<Rightarrow> public_spend_key" where
  "spend_public_key X sk = (let (x, y) = k256_public X sk in \<lparr>sp_x = x, sp_y = y\<rparr>)"

definition sign_digest :: "'fr fund_prims \<Rightarrow> u8 list \<Rightarrow> bytes32 \<Rightarrow> u8 list" where
  "sign_digest X sk digest = ecdsa_sign X sk digest"

definition sign_plan ::
    "'fr prims \<Rightarrow> 'fr fund_prims \<Rightarrow> u8 list \<Rightarrow> 'fr plan \<Rightarrow> 'fr fund_note list \<Rightarrow> (crypto_error, u8 list) result" where
  "sign_plan E X sk p outputs =
     and_then (plan_rebuild E p outputs) (\<lambda>digest. Inr (sign_digest X sk digest))"

definition sign_registration ::
    "'fr prims \<Rightarrow> 'fr fund_prims \<Rightarrow> u8 list \<Rightarrow> 'fr registration \<Rightarrow> (crypto_error, u8 list) result" where
  "sign_registration E X sk r =
     (if rgn_pk r \<noteq> spend_public_key X sk then Inl RegistrationKeyMismatch
      else Inr (sign_digest X sk (registration_digest E r)))"

definition SEAL_TAG :: string where "SEAL_TAG = ''shielded-notes-recipient-v1''"

definition seal_encrypt :: "'fr fund_prims \<Rightarrow> u8 list \<Rightarrow> u8 list \<Rightarrow> u8 list \<Rightarrow> u8 list \<Rightarrow> u8 list" where
  "seal_encrypt X rnd vpk plaintext aad = seal X SEAL_TAG rnd vpk plaintext aad"

definition seal_decrypt :: "'fr fund_prims \<Rightarrow> u8 list \<Rightarrow> u8 list \<Rightarrow> u8 list \<Rightarrow> (crypto_error, u8 list) result" where
  "seal_decrypt X vk ciphertext aad =
     (if \<not> seal_parses X ciphertext then Inl MalformedCiphertext
      else and_then (map_err (\<lambda>_. DecryptionFailed) (seal_open X SEAL_TAG vk ciphertext aad))
             (\<lambda>note. ok_or DecryptionFailed note))"

record 'fr wallet_keys =
  wk_pk :: public_spend_key
  wk_nk :: 'fr
  wk_view :: "u8 list"

record 'fr owner_keys =
  ok_spend :: "u8 list"
  ok_nk :: 'fr
  ok_view :: "u8 list"

definition keys_owner :: "'fr prims \<Rightarrow> 'fr fund_prims \<Rightarrow> 'fr owner_keys \<Rightarrow> 'fr" where
  "keys_owner E X k = owner_value E (spend_public_key X (ok_spend k)) (ok_nk k)"

definition keys_split :: "'fr fund_prims \<Rightarrow> 'fr owner_keys \<Rightarrow> u8 list \<times> 'fr wallet_keys" where
  "keys_split X k =
     (let pk = spend_public_key X (ok_spend k)
      in (ok_spend k, \<lparr>wk_pk = pk, wk_nk = ok_nk k, wk_view = ok_view k\<rparr>))"

definition wallet_keys_owner :: "'fr prims \<Rightarrow> 'fr wallet_keys \<Rightarrow> 'fr" where
  "wallet_keys_owner E k = owner_value E (wk_pk k) (wk_nk k)"

end
