(* ===== verification/Fund_Feed.thy ===== *)
theory Fund_Feed
  imports Fund_Notes
begin

text \<open>
  Grumpkin points with the double-and-add multiplication of the code (\<open>domain/grumpkin.rs\<close>), the
  register feed encrypted with them (\<open>domain/feed.rs\<close>), and the lean Merkle tree over rotortree
  (\<open>domain/tree.rs\<close>). The feed decrypts to what was encrypted: \<open>feed_agrees\<close> needs of the curve
  only that its points add associatively and commutatively.
\<close>

section \<open>Grumpkin\<close>

record 'fr point =
  pt_x :: 'fr
  pt_y :: 'fr
  pt_infinity :: bool

definition point_new :: "'fr \<Rightarrow> 'fr \<Rightarrow> 'fr point" where
  "point_new x y = \<lparr>pt_x = x, pt_y = y, pt_infinity = False\<rparr>"

definition GENERATOR :: "'fr prims \<Rightarrow> 'fr point" where
  "GENERATOR E =
     \<lparr>pt_x = fr_of E 1,
      pt_y = from_be_bytes_mod_order E (be_bytes 32 17631683881184975370165255887551781615748388533673675138860),
      pt_infinity = False\<rparr>"

definition point_infinity :: "'fr prims \<Rightarrow> 'fr point" where
  "point_infinity E = \<lparr>pt_x = fr_of E 0, pt_y = fr_of E 0, pt_infinity = True\<rparr>"

definition is_on_curve :: "'fr prims \<Rightarrow> 'fr fund_prims \<Rightarrow> 'fr point \<Rightarrow> bool" where
  "is_on_curve E X p \<longleftrightarrow>
     pt_infinity p
     \<or> fr_mul E (pt_y p) (pt_y p) = fr_sub X (fr_mul E (fr_mul E (pt_x p) (pt_x p)) (pt_x p)) (fr_of E 17)"

definition point_double :: "'fr prims \<Rightarrow> 'fr fund_prims \<Rightarrow> 'fr point \<Rightarrow> 'fr point" where
  "point_double E X p =
     (if pt_infinity p \<or> pt_y p = fr_of E 0 then point_infinity E
      else
        (let lambda = fr_mul E (fr_mul E (fr_mul E (pt_x p) (pt_x p)) (fr_of E 3))
               (the (fr_inverse X (fr_add E (pt_y p) (pt_y p))));
             x3 = fr_sub X (fr_mul E lambda lambda) (fr_add E (pt_x p) (pt_x p));
             y3 = fr_sub X (fr_mul E lambda (fr_sub X (pt_x p) x3)) (pt_y p)
         in point_new x3 y3))"

definition point_add :: "'fr prims \<Rightarrow> 'fr fund_prims \<Rightarrow> 'fr point \<Rightarrow> 'fr point \<Rightarrow> 'fr point" where
  "point_add E X p other =
     (if pt_infinity p then other
      else if pt_infinity other then p
      else if pt_x p = pt_x other then
        (if pt_y p = pt_y other then point_double E X p else point_infinity E)
      else
        (let lambda = fr_mul E (fr_sub X (pt_y other) (pt_y p))
               (the (fr_inverse X (fr_sub X (pt_x other) (pt_x p))));
             x3 = fr_sub X (fr_sub X (fr_mul E lambda lambda) (pt_x p)) (pt_x other);
             y3 = fr_sub X (fr_mul E lambda (fr_sub X (pt_x p) x3)) (pt_y p)
         in point_new x3 y3))"

fun bit_length :: "nat \<Rightarrow> nat" where
  "bit_length n = (if n = 0 then 0 else Suc (bit_length (n div 2)))"

declare bit_length.simps [simp del]

definition point_mul_step :: "'fr prims \<Rightarrow> 'fr fund_prims \<Rightarrow> 'fr point \<Rightarrow> nat \<Rightarrow> nat \<Rightarrow> 'fr point \<Rightarrow> 'fr point" where
  "point_mul_step E X p scalar i acc =
     (let acc = point_double E X acc in if bit scalar i then point_add E X acc p else acc)"

definition point_mul :: "'fr prims \<Rightarrow> 'fr fund_prims \<Rightarrow> 'fr point \<Rightarrow> nat \<Rightarrow> 'fr point" where
  "point_mul E X p scalar =
     fold (point_mul_step E X p scalar) (rev [0..<bit_length scalar]) (point_infinity E)"

section \<open>The register feed\<close>

definition FEED_FIELDS :: nat where "FEED_FIELDS = NOTE_FIELDS + 3"

definition feed_fields :: "'fr prims \<Rightarrow> 'fr fund_note \<Rightarrow> 'fr lock_opening \<Rightarrow> 'fr list" where
  "feed_fields E n terms = note_fields E n @ lock_fields E terms"

definition feed_open :: "'fr prims \<Rightarrow> 'fr list \<Rightarrow> ('fr fund_note \<times> 'fr lock_opening) option" where
  "feed_open E f =
     (case note_from_fields E (take NOTE_FIELDS f) of None \<Rightarrow> None
      | Some n \<Rightarrow>
          (case lock_from_fields E (drop NOTE_FIELDS f) of None \<Rightarrow> None
           | Some terms \<Rightarrow> Some (n, terms)))"

record feed_secret =
  fs_lo :: u128
  fs_hi :: u128

definition feed_scalar :: "feed_secret \<Rightarrow> nat" where
  "feed_scalar s = unat (fs_lo s) + unat (fs_hi s) * 2 ^ 128"

definition public_point :: "'fr prims \<Rightarrow> 'fr fund_prims \<Rightarrow> feed_secret \<Rightarrow> 'fr point" where
  "public_point E X s = point_mul E X (GENERATOR E) (feed_scalar s)"

definition feed_key_of :: "'fr prims \<Rightarrow> 'fr point \<Rightarrow> 'fr" where
  "feed_key_of E shared = poseidon3 E (FEED_TAG E) (pt_x shared) (pt_y shared)"

definition feed_derive :: "'fr prims \<Rightarrow> 'fr fund_prims \<Rightarrow> feed_secret \<Rightarrow> 'fr point \<Rightarrow> 'fr point \<times> 'fr" where
  "feed_derive E X r register_key =
     (let big_r = public_point E X r;
          rt = point_mul E X register_key (feed_scalar r)
      in (big_r, feed_key_of E rt))"

definition keystream :: "'fr prims \<Rightarrow> 'fr \<Rightarrow> nat \<Rightarrow> nat \<Rightarrow> 'fr" where
  "keystream E k j i = poseidon2 E k (fr_of E (word_of_nat (FEED_FIELDS * j + i)))"

definition feed_encrypt :: "'fr prims \<Rightarrow> 'fr \<Rightarrow> 'fr list \<Rightarrow> nat \<Rightarrow> 'fr list" where
  "feed_encrypt E k fs j = map (\<lambda>i. fr_add E (fs ! i) (keystream E k j i)) [0..<FEED_FIELDS]"

definition feed_decrypt :: "'fr prims \<Rightarrow> 'fr fund_prims \<Rightarrow> feed_secret \<Rightarrow> 'fr point \<Rightarrow> 'fr list \<Rightarrow> nat \<Rightarrow> 'fr list" where
  "feed_decrypt E X tk feed_r ct j =
     (let k = feed_key_of E (point_mul E X feed_r (feed_scalar tk))
      in map (\<lambda>i. fr_sub X (ct ! i) (keystream E k j i)) [0..<FEED_FIELDS])"

section \<open>The lean Merkle tree\<close>

record 'fr step =
  st_sibling :: 'fr
  st_is_right :: bool

definition lean_node :: "'fr prims \<Rightarrow> bytes32 \<Rightarrow> bytes32 \<Rightarrow> bytes32" where
  "lean_node E left right = fr_bytes E (poseidon2 E (from_be_bytes_mod_order E left) (from_be_bytes_mod_order E right))"

record 'fr lean_tree =
  lt_leaves :: "'fr list"

definition lean_new :: "'fr lean_tree" where
  "lean_new = \<lparr>lt_leaves = []\<rparr>"

text \<open>\<open>None\<close> is the panic when the tree outgrows the depth of the circuits.\<close>

definition lean_extend :: "'fr lean_tree \<Rightarrow> 'fr list \<Rightarrow> 'fr lean_tree option" where
  "lean_extend t leaves =
     (if leaves = [] then Some t
      else if 2 ^ unat MAX_COMMITMENT_DEPTH < length (lt_leaves t @ leaves) then None
      else Some (t\<lparr>lt_leaves := lt_leaves t @ leaves\<rparr>))"

definition lean_from_leaves :: "'fr list \<Rightarrow> 'fr lean_tree option" where
  "lean_from_leaves leaves = lean_extend lean_new leaves"

definition lean_insert :: "'fr lean_tree \<Rightarrow> 'fr \<Rightarrow> (nat \<times> 'fr lean_tree) option" where
  "lean_insert t leaf = map_option (\<lambda>t'. (length (lt_leaves t') - 1, t')) (lean_extend t [leaf])"

definition tree_hashes :: "'fr prims \<Rightarrow> 'fr lean_tree \<Rightarrow> bytes32 list" where
  "tree_hashes E t = map (fr_bytes E) (lt_leaves t)"

definition tree_root :: "'fr prims \<Rightarrow> 'fr fund_prims \<Rightarrow> 'fr lean_tree \<Rightarrow> 'fr" where
  "tree_root E X t =
     (case lean_root X (lean_node E) (tree_hashes E t) of None \<Rightarrow> fr_of E 0 | Some root \<Rightarrow> from_be_bytes_mod_order E root)"

definition tree_proof :: "'fr prims \<Rightarrow> 'fr fund_prims \<Rightarrow> 'fr lean_tree \<Rightarrow> nat \<Rightarrow> 'fr step list option" where
  "tree_proof E X t index =
     (case lean_proof X (lean_node E) (tree_hashes E t) index of None \<Rightarrow> None
      | Some levels \<Rightarrow>
          Some (map (\<lambda>l. \<lparr>st_sibling = from_be_bytes_mod_order E (ll_siblings l ! 0), st_is_right = (ll_position l = 1)\<rparr>)
                 (filter (\<lambda>l. 0 < ll_sibling_count l) levels)))"

definition proof_fold :: "'fr prims \<Rightarrow> 'fr step list \<Rightarrow> 'fr \<Rightarrow> 'fr" where
  "proof_fold E path leaf =
     fold (\<lambda>s nd. if st_is_right s then poseidon2 E (st_sibling s) nd else poseidon2 E nd (st_sibling s)) path leaf"

section \<open>What the external crates promise\<close>

definition fund_laws :: "'fr prims \<Rightarrow> 'fr fund_prims \<Rightarrow> bool" where
  "fund_laws E X \<longleftrightarrow>
     (\<forall>a b. fr_sub X (fr_add E a b) b = a) \<and>
     (\<forall>rnd vk m aad. seal_parses X (seal X SEAL_TAG rnd (view_public X vk) m aad)
        \<and> seal_open X SEAL_TAG vk (seal X SEAL_TAG rnd (view_public X vk) m aad) aad = Inr (Some m)) \<and>
     (\<forall>rnd vpk m aad. length m < 2 ^ 16 \<longrightarrow> length (seal X SEAL_TAG rnd vpk m aad) < 2 ^ 32)"

text \<open>The points that arise add as in an abelian group.\<close>

definition point_group :: "'fr prims \<Rightarrow> 'fr fund_prims \<Rightarrow> 'fr point set \<Rightarrow> bool" where
  "point_group E X S \<longleftrightarrow>
     point_infinity E \<in> S \<and>
     (\<forall>p \<in> S. \<forall>q \<in> S. point_add E X p q \<in> S \<and> point_add E X p q = point_add E X q p) \<and>
     (\<forall>p \<in> S. \<forall>q \<in> S. \<forall>r \<in> S. point_add E X (point_add E X p q) r = point_add E X p (point_add E X q r)) \<and>
     (\<forall>p \<in> S. pt_infinity p \<longrightarrow> p = point_infinity E)"

text \<open>A path of the tree leads from the leaf to the root.\<close>

definition lean_laws :: "'fr prims \<Rightarrow> 'fr fund_prims \<Rightarrow> bool" where
  "lean_laws E X \<longleftrightarrow>
     (\<forall>t i. i < length (lt_leaves t) \<longrightarrow>
        (\<exists>path. tree_proof E X t i = Some path \<and> proof_fold E path (lt_leaves t ! i) = tree_root E X t)) \<and>
     (\<forall>t i. length (lt_leaves t) \<le> i \<longrightarrow> tree_proof E X t i = None)"

section \<open>Multiples of a point\<close>

primrec point_multiple :: "'fr prims \<Rightarrow> 'fr fund_prims \<Rightarrow> 'fr point \<Rightarrow> nat \<Rightarrow> 'fr point" where
  "point_multiple E X p 0 = point_infinity E"
| "point_multiple E X p (Suc n) = point_add E X p (point_multiple E X p n)"

lemma point_groupD:
  assumes "point_group E X S" and "p \<in> S" and "q \<in> S"
  shows "point_add E X p q \<in> S" and "point_add E X p q = point_add E X q p"
    and "r \<in> S \<Longrightarrow> point_add E X (point_add E X p q) r = point_add E X p (point_add E X q r)"
    and "pt_infinity p \<Longrightarrow> p = point_infinity E" and "point_infinity E \<in> S"
  using assms unfolding point_group_def by blast+

lemma point_add_infinity [simp]: "point_add E X (point_infinity E) q = q"
  by (simp add: point_add_def point_infinity_def)

lemma point_add_infinity_right: "point_group E X S \<Longrightarrow> p \<in> S \<Longrightarrow> point_add E X p (point_infinity E) = p"
  using point_groupD(2,5) [of E X S p "point_infinity E"] point_groupD(5) [of E X S p p] by simp

lemma point_double_add:
  assumes "point_group E X S" and "p \<in> S" shows "point_double E X p = point_add E X p p"
  using point_groupD(4) [OF assms assms(2)]
  by (cases "pt_infinity p") (simp_all add: point_add_def point_double_def point_infinity_def)

lemma point_multiple_in: "point_group E X S \<Longrightarrow> p \<in> S \<Longrightarrow> point_multiple E X p n \<in> S"
  by (induction n) (auto intro: point_groupD(1) point_groupD(5))

lemma point_multiple_add:
  assumes "point_group E X S" and "p \<in> S"
  shows "point_multiple E X p (m + n) = point_add E X (point_multiple E X p m) (point_multiple E X p n)"
proof (induction m)
  case (Suc m)
  then show ?case
    using point_groupD(3) [OF assms point_multiple_in [OF assms] point_multiple_in [OF assms]] by simp
qed simp

lemma point_multiple_mult:
  assumes "point_group E X S" and "p \<in> S"
  shows "point_multiple E X (point_multiple E X p m) n = point_multiple E X p (m * n)"
  by (induction n) (simp_all add: point_multiple_add [OF assms])

lemma bit_length_rev:
  "rev [0..<bit_length n] = (if n = 0 then [] else map Suc (rev [0..<bit_length (n div 2)]) @ [0])"
proof (cases "n = 0")
  case False
  then have "bit_length n = Suc (bit_length (n div 2))" by (simp add: bit_length.simps [of n])
  then show ?thesis using False by (simp add: rev_map [symmetric] map_Suc_upt upt_conv_Cons del: upt_Suc)
qed (simp add: bit_length.simps)

lemma point_mul_fold_half:
  "fold (point_mul_step E X p n) (map Suc is) acc = fold (point_mul_step E X p (n div 2)) is acc"
  by (induction "is" arbitrary: acc) (simp_all add: point_mul_step_def bit_Suc)

text \<open>Double-and-add computes the multiple.\<close>

lemma point_mul_multiple:
  assumes "point_group E X S" and "p \<in> S"
  shows "point_mul E X p n = point_multiple E X p n"
proof (induction n rule: less_induct)
  case (less n)
  show ?case
  proof (cases "n = 0")
    case True
    then show ?thesis by (simp add: point_mul_def bit_length.simps)
  next
    case False
    let ?h = "point_multiple E X p (n div 2)"
    have d: "point_mul E X p (n div 2) = ?h" using less False by simp
    have "point_mul E X p n = point_mul_step E X p n 0 ?h"
      using d False by (simp add: point_mul_def bit_length_rev [of n] point_mul_fold_half)
    also have "\<dots> = point_multiple E X p (n div 2 + n div 2 + n mod 2)"
    proof -
      have two: "point_double E X ?h = point_multiple E X p (n div 2 + n div 2)"
        by (simp add: point_double_add [OF assms(1) point_multiple_in [OF assms]] point_multiple_add [OF assms])
      have one: "point_add E X (point_multiple E X p k) p = point_multiple E X p (Suc k)" for k
        using point_groupD(2) [OF assms(1) point_multiple_in [OF assms] assms(2)] by simp
      show ?thesis
        by (cases "odd n") (simp_all add: point_mul_step_def bit_0 two one odd_iff_mod_2_eq_one even_iff_mod_2_eq_zero Let_def
            del: point_multiple.simps(2))
    qed
    also have "n div 2 + n div 2 + n mod 2 = n" by presburger
    finally show ?thesis .
  qed
qed

lemma ecdh_agrees:
  assumes "point_group E X S" and "p \<in> S"
  shows "point_mul E X (point_mul E X p a) b = point_mul E X (point_mul E X p b) a"
  using point_multiple_in [OF assms]
  by (simp add: point_mul_multiple [OF assms] point_mul_multiple [OF assms(1)] point_multiple_mult [OF assms] mult.commute)

section \<open>Reading the feed\<close>

lemma fr_bytes_length [simp]: "field_laws E \<Longrightarrow> length (fr_bytes E x) = 32"
  by (simp add: fr_bytes_def field_laws_def)

lemma fr_bytes_of:
  assumes "field_laws E" shows "fr_bytes E (fr_of E n) = zeros 24 @ u64_to_be n"
proof (rule be_nat_eqD)
  have lt: "unat n < fr_modulus E"
    using unat_bound [of n] assms less_le_trans [of "unat n" "2 ^ 248" "fr_modulus E"]
      less_trans [of "unat n" "2 ^ 64" "2 ^ 248"] by (simp add: field_laws_def)
  then show "be_nat (fr_bytes E (fr_of E n)) = be_nat (zeros 24 @ u64_to_be n)"
    using assms by (simp add: fr_bytes_def field_laws_def be_nat_append)
qed (simp add: fr_bytes_length [OF assms])

lemma fr_small_fr_of [simp]: "field_laws E \<Longrightarrow> fr_small E (fr_of E n) = Some n"
  by (simp add: fr_small_def fr_bytes_of slice_def zeros_def list_ex_iff)

lemma feed_open_fields [simp]:
  assumes "field_laws E" shows "feed_open E (feed_fields E n terms) = Some (n, terms)"
  using assms
  by (simp add: feed_open_def feed_fields_def note_fields_def lock_fields_def NOTE_FIELDS_def note_from_fields_def
      lock_from_fields_def)

lemma feed_decrypt_encrypt:
  assumes "fund_laws E X" and "length f = FEED_FIELDS"
    and "k = feed_key_of E (point_mul E X feed_r (feed_scalar tk))"
  shows "feed_decrypt E X tk feed_r (feed_encrypt E k f j) j = f"
  using assms by (auto simp: feed_decrypt_def feed_encrypt_def fund_laws_def Let_def intro: nth_equalityI)

lemma length_feed_fields [simp]: "length (feed_fields E n terms) = FEED_FIELDS"
  by (simp add: feed_fields_def note_fields_def lock_fields_def FEED_FIELDS_def NOTE_FIELDS_def)

text \<open>What a sender encrypts to a register key, the holder of its secret reads.\<close>

lemma feed_agrees:
  assumes "field_laws E" and "fund_laws E X" and "point_group E X S" and "GENERATOR E \<in> S"
    and "feed_derive E X r (public_point E X tk) = (big_r, k)"
  shows "feed_open E (feed_decrypt E X tk big_r (feed_encrypt E k (feed_fields E n terms) j) j) = Some (n, terms)"
proof -
  have "k = feed_key_of E (point_mul E X big_r (feed_scalar tk))"
    using assms(5) ecdh_agrees [OF assms(3,4)] by (auto simp: feed_derive_def public_point_def Let_def)
  then show ?thesis
    using assms(1) feed_decrypt_encrypt [OF assms(2) length_feed_fields] by simp
qed

text \<open>Inserting leaf by leaf builds the tree of one batch, and fails when the batch does.\<close>

lemma lean_insert_eq:
  "lean_insert t leaf =
     (if 2 ^ unat MAX_COMMITMENT_DEPTH \<le> length (lt_leaves t) then None
      else Some (length (lt_leaves t), t\<lparr>lt_leaves := lt_leaves t @ [leaf]\<rparr>))"
  by (auto simp: lean_insert_def lean_extend_def)

lemma lean_insert_batch:
  "lean_extend t (leaf # leaves) = Option.bind (lean_insert t leaf) (\<lambda>(_, t'). lean_extend t' leaves)"
  by (cases "leaves = []") (auto simp: lean_insert_eq lean_extend_def)

end
