(* ===== verification/Fund_Chain.thy ===== *)
theory Fund_Chain
  imports Fund_Feed "HOL-Library.Multiset"
begin

text \<open>
  What the wallet and the transfer agent read from the chain (\<open>chain.rs\<close>): the environment of the
  pool, the view rebuilt from the events of the pool, the token and the registry, and the witnesses
  and public inputs of the three circuits (\<open>domain/witness.rs\<close>). Fetching logs and sending
  transactions is input and output and not modelled: \<open>sync\<close> takes the three lists of logs.

  The invariant \<open>view_ok\<close> says that records, leaves and trees of a view fit together; every view
  \<open>sync\<close> builds has it.
\<close>

type_synonym uint256 = "256 word"

section \<open>Conversions\<close>

text \<open>Of the errors of the chain adapter only the one a decoded log can cause; \<open>TreeOverflow\<close> stands for the
  panic of a tree that outgrows the depth of the circuits.\<close>

datatype fund_chain_error =
    NonCanonical bytes32
  | TreeOverflow

definition fr_of_b256 :: "'fr prims \<Rightarrow> bytes32 \<Rightarrow> (fund_chain_error, 'fr) result" where
  "fr_of_b256 E b = map_err (\<lambda>_. NonCanonical b) (fr_try_from E b)"

definition fr_of_u256 :: "'fr prims \<Rightarrow> uint256 \<Rightarrow> (fund_chain_error, 'fr) result" where
  "fr_of_u256 E u = fr_of_b256 E (be_bytes 32 (unat u))"

definition b256_of_fr :: "'fr prims \<Rightarrow> 'fr \<Rightarrow> bytes32" where
  "b256_of_fr E f = fr_bytes E f"

definition u256_of_fr :: "'fr prims \<Rightarrow> 'fr \<Rightarrow> uint256" where
  "u256_of_fr E f = from_be (fr_bytes E f)"

definition point_of :: "'fr prims \<Rightarrow> uint256 \<times> uint256 \<Rightarrow> (fund_chain_error, 'fr point) result" where
  "point_of E r =
     and_then (fr_of_u256 E (fst r)) (\<lambda>x. and_then (fr_of_u256 E (snd r)) (\<lambda>y. Inr (point_new x y)))"

section \<open>The environment and the view\<close>

definition ATTESTATION_PART :: nat where "ATTESTATION_PART = 16"

record 'fr attestation_batch =
  ab_parts :: "'fr list list"
  ab_expires_at :: u64
  ab_generation :: u64

definition batch_owners :: "'fr attestation_batch \<Rightarrow> 'fr list" where
  "batch_owners b = concat (ab_parts b)"

record 'fr pool_env =
  en_chain_id :: u64
  en_pool :: address
  en_token :: address
  en_register_key :: "'fr point"
  en_claim_key_hash :: 'fr
  en_min_accepted_generation :: u64
  en_epoch :: u64
  en_timestamp :: u64

definition plan_expiry :: "'fr pool_env \<Rightarrow> u64" where
  "plan_expiry env = (en_epoch env + 2) * EPOCH_SECONDS"

record 'fr note_record =
  nr_commitment :: 'fr
  nr_leaf_index :: nat
  nr_output :: nat
  nr_feed_r :: "'fr point"
  nr_feed_ct :: "'fr list"
  nr_payload :: "u8 list"
  nr_key_version :: u64

record outflow =
  of_to :: address
  of_shares :: uint256
  of_tx :: bytes32
  of_by_withdrawal :: bool

type_synonym withdrawal = "bytes32 \<times> address \<times> uint256"

fun find_position :: "'a \<Rightarrow> 'a list \<Rightarrow> nat option" where
  "find_position x [] = None"
| "find_position x (y # ys) = (if y = x then Some 0 else map_option Suc (find_position x ys))"

definition swap_remove :: "nat \<Rightarrow> 'a list \<Rightarrow> 'a list" where
  "swap_remove i xs = (if Suc i = length xs then butlast xs else (butlast xs)[i := last xs])"

fun match_withdrawals :: "outflow list \<Rightarrow> withdrawal list \<Rightarrow> outflow list" where
  "match_withdrawals [] unpaid = []"
| "match_withdrawals (out # outs) unpaid =
     (case find_position (of_tx out, of_to out, of_shares out) unpaid of
        Some i \<Rightarrow> out\<lparr>of_by_withdrawal := True\<rparr> # match_withdrawals outs (swap_remove i unpaid)
      | None \<Rightarrow> out # match_withdrawals outs unpaid)"

record 'fr attestation_record =
  ar_owner :: 'fr
  ar_attester :: address
  ar_generation :: u64
  ar_issued_at :: u64
  ar_expires_at :: u64
  ar_leaf_index :: nat

record 'fr spend_record =
  sr_nullifiers :: "'fr list"
  sr_outputs :: "'fr list"
  sr_withdrawn_units :: "u64 option"

record 'fr chain_view =
  vw_commitments :: "'fr lean_tree"
  vw_notes :: "'fr note_record list"
  vw_nullifiers :: "'fr set"
  vw_spends :: "'fr spend_record list"
  vw_attestations :: "'fr lean_tree"
  vw_attestation_records :: "'fr attestation_record list"
  vw_unreadable_attestations :: "bytes32 list"
  vw_outflows :: "outflow list"

definition empty_view :: "'fr chain_view" where
  "empty_view =
     \<lparr>vw_commitments = lean_new, vw_notes = [], vw_nullifiers = {}, vw_spends = [], vw_attestations = lean_new,
      vw_attestation_records = [], vw_unreadable_attestations = [], vw_outflows = []\<rparr>"

section \<open>Rebuilding the view\<close>

datatype pool_log =
    DepositLog bytes32 "uint256 \<times> uint256" "uint256 list" "u8 list"
  | TransferLog bytes32 bytes32 bytes32 bytes32 "uint256 \<times> uint256" "uint256 list" "u8 list"
  | WithdrawLog bytes32 address u64 uint256 bytes32
  | RegisterKeyRotatedLog u64
  | OtherLog

datatype token_log = TokenTransferLog address uint256 bytes32

datatype registry_log = AttestationAddedLog bytes32 bytes32 address u64 u64 u64

definition ct_slice :: "'fr prims \<Rightarrow> uint256 list \<Rightarrow> nat \<Rightarrow> (fund_chain_error, 'fr list) result" where
  "ct_slice E ct j = try_map (\<lambda>i. fr_of_u256 E (ct ! (FEED_FIELDS * j + i))) [0..<FEED_FIELDS]"

record 'fr sync_state =
  ss_view :: "'fr chain_view"
  ss_commitments :: "'fr list"
  ss_key_version :: u64
  ss_withdrawals :: "withdrawal list"

definition push_note ::
    "'fr prims \<Rightarrow> uint256 \<times> uint256 \<Rightarrow> uint256 list \<Rightarrow> u8 list \<Rightarrow> 'fr sync_state \<Rightarrow> nat \<times> 'fr
     \<Rightarrow> (fund_chain_error, 'fr sync_state) result" where
  "push_note E feed_r feed_ct payload s = (\<lambda>(j, commitment).
     let commitments = ss_commitments s @ [commitment];
         leaf_index = length commitments - 1
     in and_then (point_of E feed_r) (\<lambda>r.
        and_then (ct_slice E feed_ct j) (\<lambda>ct.
        let rec = \<lparr>nr_commitment = commitment, nr_leaf_index = leaf_index, nr_output = j, nr_feed_r = r,
                   nr_feed_ct = ct, nr_payload = payload, nr_key_version = ss_key_version s\<rparr>
        in Inr (s\<lparr>ss_commitments := commitments,
                  ss_view := (ss_view s)\<lparr>vw_notes := vw_notes (ss_view s) @ [rec]\<rparr>\<rparr>))))"

definition sync_pool_log :: "'fr prims \<Rightarrow> 'fr sync_state \<Rightarrow> pool_log \<Rightarrow> (fund_chain_error, 'fr sync_state) result" where
  "sync_pool_log E s log =
     (case log of
        DepositLog c feed_r feed_ct payload \<Rightarrow>
          and_then (fr_of_b256 E c) (\<lambda>commitment. push_note E feed_r feed_ct payload s (0, commitment))
      | TransferLog n0 n1 c0 c1 feed_r feed_ct payload \<Rightarrow>
          and_then (try_map (fr_of_b256 E) [n0, n1]) (\<lambda>nulls.
          let s = s\<lparr>ss_view := (ss_view s)\<lparr>vw_nullifiers := vw_nullifiers (ss_view s) \<union> set nulls\<rparr>\<rparr> in
          and_then (try_map (fr_of_b256 E) [c0, c1]) (\<lambda>outputs.
          and_then (try_fold (push_note E feed_r feed_ct payload) s (enumerated outputs)) (\<lambda>s.
          Inr (s\<lparr>ss_view := (ss_view s)\<lparr>vw_spends := vw_spends (ss_view s) @
                 [\<lparr>sr_nullifiers = nulls, sr_outputs = outputs, sr_withdrawn_units = None\<rparr>]\<rparr>\<rparr>))))
      | WithdrawLog n recipient units shares tx \<Rightarrow>
          and_then (fr_of_b256 E n) (\<lambda>nullifier.
          Inr (s\<lparr>ss_view := (ss_view s)\<lparr>vw_nullifiers := insert nullifier (vw_nullifiers (ss_view s)),
                   vw_spends := vw_spends (ss_view s) @
                     [\<lparr>sr_nullifiers = [nullifier], sr_outputs = [], sr_withdrawn_units = Some units\<rparr>]\<rparr>,
                 ss_withdrawals := ss_withdrawals s @ [(tx, recipient, shares)]\<rparr>))
      | RegisterKeyRotatedLog version \<Rightarrow> Inr (s\<lparr>ss_key_version := version\<rparr>)
      | OtherLog \<Rightarrow> Inr s)"

definition outflow_of_log :: "token_log \<Rightarrow> outflow" where
  "outflow_of_log log =
     (case log of TokenTransferLog to value tx \<Rightarrow>
        \<lparr>of_to = to, of_shares = value, of_tx = tx, of_by_withdrawal = False\<rparr>)"

definition sync_registry_log ::
    "'fr prims \<Rightarrow> 'fr chain_view \<times> 'fr list \<Rightarrow> registry_log \<Rightarrow> (fund_chain_error, 'fr chain_view \<times> 'fr list) result" where
  "sync_registry_log E = (\<lambda>(view, attestations) log.
     case log of AttestationAddedLog leaf_bytes owner_bytes attester generation issued_at expires_at \<Rightarrow>
       and_then (fr_of_b256 E leaf_bytes) (\<lambda>leaf.
       let attestations = attestations @ [leaf]; leaf_index = length attestations - 1 in
       case fr_of_b256 E owner_bytes of
         Inl _ \<Rightarrow> Inr (view\<lparr>vw_unreadable_attestations := vw_unreadable_attestations view @ [leaf_bytes]\<rparr>, attestations)
       | Inr owner \<Rightarrow>
           Inr (view\<lparr>vw_attestation_records := vw_attestation_records view @
                  [\<lparr>ar_owner = owner, ar_attester = attester, ar_generation = generation, ar_issued_at = issued_at,
                    ar_expires_at = expires_at, ar_leaf_index = leaf_index\<rparr>]\<rparr>, attestations)))"

definition sync ::
    "'fr prims \<Rightarrow> pool_log list \<Rightarrow> token_log list \<Rightarrow> registry_log list \<Rightarrow> (fund_chain_error, 'fr chain_view) result" where
  "sync E pool_logs outflow_logs registry_logs =
     and_then (try_fold (sync_pool_log E)
         \<lparr>ss_view = empty_view, ss_commitments = [], ss_key_version = 0, ss_withdrawals = []\<rparr> pool_logs) (\<lambda>s.
     let view = (ss_view s)\<lparr>vw_outflows := match_withdrawals (map outflow_of_log outflow_logs) (ss_withdrawals s)\<rparr> in
     and_then (try_fold (sync_registry_log E) (view, []) registry_logs) (\<lambda>(view, attestations).
     and_then (ok_or TreeOverflow (lean_from_leaves (ss_commitments s))) (\<lambda>ctree.
     and_then (ok_or TreeOverflow (lean_from_leaves attestations)) (\<lambda>atree.
     Inr (view\<lparr>vw_commitments := ctree, vw_attestations := atree\<rparr>)))))"

definition attestation_of :: "'fr chain_view \<Rightarrow> 'fr \<Rightarrow> u64 \<Rightarrow> u64 \<Rightarrow> 'fr attestation_record option" where
  "attestation_of view owner epoch min_generation =
     find (\<lambda>r. ar_owner r = owner \<and> (epoch + 1) * EPOCH_SECONDS \<le> ar_expires_at r \<and> min_generation \<le> ar_generation r)
       (rev (vw_attestation_records view))"

record pool_totals =
  pt_units :: u128
  pt_balance :: uint256
  pt_multiplier :: uint256

section \<open>Witnesses and public inputs\<close>

record 'fr attestation_witness =
  aw_attester :: address
  aw_generation :: u64
  aw_issued_at :: u64
  aw_expires_at :: u64
  aw_path :: "'fr step list"

record 'fr input_witness =
  iw_units :: u64
  iw_salt :: 'fr
  iw_lock :: 'fr
  iw_lock_opening :: "'fr lock_opening"
  iw_path :: "'fr step list"

definition input_padding :: "'fr prims \<Rightarrow> 'fr \<Rightarrow> 'fr input_witness" where
  "input_padding E salt =
     \<lparr>iw_units = 0, iw_salt = salt, iw_lock = fr_of E 0, iw_lock_opening = lock_none E, iw_path = []\<rparr>"

record 'fr deposit_witness =
  dw_commitment :: 'fr
  dw_token :: address
  dw_units :: u64
  dw_funding_address :: address
  dw_attestation_root :: 'fr
  dw_min_accepted_generation :: u64
  dw_epoch :: u64
  dw_chain_id :: u64
  dw_pool :: address
  dw_register_key :: "'fr point"
  dw_feed_r :: "'fr point"
  dw_feed_ct :: "'fr list"
  dw_payload_commitment :: 'fr
  dw_owner_key :: public_spend_key
  dw_nk :: 'fr
  dw_signature :: "u8 list"
  dw_expiry :: u64
  dw_salt :: 'fr
  dw_attestation :: "'fr attestation_witness"
  dw_feed_secret :: feed_secret

definition point_inputs :: "'fr prims \<Rightarrow> 'fr point \<Rightarrow> bytes32 list" where
  "point_inputs E p = [fr_bytes E (pt_x p), fr_bytes E (pt_y p)]"

definition deposit_public_inputs :: "'fr prims \<Rightarrow> 'fr deposit_witness \<Rightarrow> bytes32 list" where
  "deposit_public_inputs E w =
     [fr_bytes E (dw_commitment w), fr_bytes E (fr_of_address E (dw_token w)), fr_bytes E (fr_of E (dw_units w)),
      fr_bytes E (fr_of_address E (dw_funding_address w)), fr_bytes E (dw_attestation_root w),
      fr_bytes E (fr_of E (dw_min_accepted_generation w)), fr_bytes E (fr_of E (dw_epoch w)),
      fr_bytes E (fr_of E (dw_chain_id w)), fr_bytes E (fr_of_address E (dw_pool w))]
     @ point_inputs E (dw_register_key w) @ point_inputs E (dw_feed_r w) @ map (fr_bytes E) (dw_feed_ct w)
     @ [fr_bytes E (dw_payload_commitment w)]"

record 'fr fund_transfer_witness =
  fw_nullifiers :: "'fr \<times> 'fr"
  fw_commitments_out :: "'fr \<times> 'fr"
  fw_commitment_root :: 'fr
  fw_attestation_root :: 'fr
  fw_min_accepted_generation :: u64
  fw_epoch :: u64
  fw_chain_id :: u64
  fw_pool :: address
  fw_claim_key_hash :: 'fr
  fw_register_key :: "'fr point"
  fw_feed_r :: "'fr point"
  fw_feed_ct :: "'fr list"
  fw_payload_commitment :: 'fr
  fw_claim :: bool
  fw_token :: address
  fw_owner_key :: public_spend_key
  fw_nk :: 'fr
  fw_claim_key :: public_spend_key
  fw_signature :: "u8 list"
  fw_expiry :: u64
  fw_inputs :: "'fr input_witness \<times> 'fr input_witness"
  fw_outputs :: "'fr fund_note \<times> 'fr fund_note"
  fw_output_locks :: "'fr lock_opening \<times> 'fr lock_opening"
  fw_input_attestation :: "'fr attestation_witness"
  fw_output_attestations :: "'fr attestation_witness \<times> 'fr attestation_witness"
  fw_feed_secret :: feed_secret

definition transfer_public_inputs :: "'fr prims \<Rightarrow> 'fr fund_transfer_witness \<Rightarrow> bytes32 list" where
  "transfer_public_inputs E w =
     [fr_bytes E (fst (fw_nullifiers w)), fr_bytes E (snd (fw_nullifiers w)),
      fr_bytes E (fst (fw_commitments_out w)), fr_bytes E (snd (fw_commitments_out w)),
      fr_bytes E (fw_commitment_root w), fr_bytes E (fw_attestation_root w),
      fr_bytes E (fr_of E (fw_min_accepted_generation w)), fr_bytes E (fr_of E (fw_epoch w)),
      fr_bytes E (fr_of E (fw_chain_id w)), fr_bytes E (fr_of_address E (fw_pool w)), fr_bytes E (fw_claim_key_hash w)]
     @ point_inputs E (fw_register_key w) @ point_inputs E (fw_feed_r w) @ map (fr_bytes E) (fw_feed_ct w)
     @ [fr_bytes E (fw_payload_commitment w)]"

record 'fr withdraw_witness =
  ww_nullifier :: 'fr
  ww_token :: address
  ww_units :: u64
  ww_recipient :: address
  ww_commitment_root :: 'fr
  ww_attestation_root :: 'fr
  ww_min_accepted_generation :: u64
  ww_epoch :: u64
  ww_chain_id :: u64
  ww_pool :: address
  ww_owner_key :: public_spend_key
  ww_nk :: 'fr
  ww_signature :: "u8 list"
  ww_expiry :: u64
  ww_input :: "'fr input_witness"
  ww_attestation :: "'fr attestation_witness"

definition withdraw_public_inputs :: "'fr prims \<Rightarrow> 'fr withdraw_witness \<Rightarrow> bytes32 list" where
  "withdraw_public_inputs E w =
     [fr_bytes E (ww_nullifier w), fr_bytes E (fr_of_address E (ww_token w)), fr_bytes E (fr_of E (ww_units w)),
      fr_bytes E (fr_of_address E (ww_recipient w)), fr_bytes E (ww_commitment_root w),
      fr_bytes E (ww_attestation_root w), fr_bytes E (fr_of E (ww_min_accepted_generation w)),
      fr_bytes E (fr_of E (ww_epoch w)), fr_bytes E (fr_of E (ww_chain_id w)), fr_bytes E (fr_of_address E (ww_pool w))]"

section \<open>Views fit together\<close>

definition notes_ok :: "'fr note_record list \<Rightarrow> 'fr list \<Rightarrow> bool" where
  "notes_ok notes leaves \<longleftrightarrow> map nr_commitment notes = leaves \<and> map nr_leaf_index notes = [0..<length leaves]"

definition view_ok :: "'fr chain_view \<Rightarrow> bool" where
  "view_ok view \<longleftrightarrow>
     notes_ok (vw_notes view) (lt_leaves (vw_commitments view)) \<and>
     vw_nullifiers view = (\<Union>r \<in> set (vw_spends view). set (sr_nullifiers r)) \<and>
     (\<forall>r \<in> set (vw_spends view). set (sr_outputs r) \<subseteq> set (lt_leaves (vw_commitments view))) \<and>
     (\<forall>r \<in> set (vw_attestation_records view). ar_leaf_index r < length (lt_leaves (vw_attestations view)))"

definition sync_ok :: "'fr sync_state \<Rightarrow> bool" where
  "sync_ok s \<longleftrightarrow>
     notes_ok (vw_notes (ss_view s)) (ss_commitments s) \<and>
     vw_nullifiers (ss_view s) = (\<Union>r \<in> set (vw_spends (ss_view s)). set (sr_nullifiers r)) \<and>
     (\<forall>r \<in> set (vw_spends (ss_view s)). set (sr_outputs r) \<subseteq> set (ss_commitments s)) \<and>
     vw_attestation_records (ss_view s) = []"

lemma notes_ok_nth:
  assumes "notes_ok rs leaves" and "rec \<in> set rs"
  shows "nr_leaf_index rec < length leaves \<and> leaves ! nr_leaf_index rec = nr_commitment rec"
proof -
  from assms(1) have leaves: "leaves = map nr_commitment rs" and idx: "map nr_leaf_index rs = [0..<length rs]"
    by (auto simp: notes_ok_def)
  from assms(2) obtain i where i: "i < length rs" "rec = rs ! i" by (auto simp: in_set_conv_nth)
  have "map nr_leaf_index rs ! i = [0..<length rs] ! i" by (simp only: idx)
  with i have "nr_leaf_index rec = i" by simp
  with i show ?thesis by (simp add: leaves)
qed

lemma push_note_Inr:
  assumes "push_note E feed_r feed_ct payload s (j, c) = Inr s'"
  shows "\<exists>rec. ss_commitments s' = ss_commitments s @ [c] \<and> nr_commitment rec = c
    \<and> nr_leaf_index rec = length (ss_commitments s) \<and> ss_view s' = (ss_view s)\<lparr>vw_notes := vw_notes (ss_view s) @ [rec]\<rparr>
    \<and> ss_key_version s' = ss_key_version s \<and> ss_withdrawals s' = ss_withdrawals s"
proof -
  from assms obtain r ct where
    "s' = s\<lparr>ss_commitments := ss_commitments s @ [c],
      ss_view := (ss_view s)\<lparr>vw_notes := vw_notes (ss_view s) @
        [\<lparr>nr_commitment = c, nr_leaf_index = length (ss_commitments s), nr_output = j, nr_feed_r = r, nr_feed_ct = ct,
          nr_payload = payload, nr_key_version = ss_key_version s\<rparr>]\<rparr>\<rparr>"
    by (auto simp: push_note_def and_then_eq_Inr Let_def)
  then show ?thesis
    by (intro exI [of _ "\<lparr>nr_commitment = c, nr_leaf_index = length (ss_commitments s), nr_output = j, nr_feed_r = r,
      nr_feed_ct = ct, nr_payload = payload, nr_key_version = ss_key_version s\<rparr>"]) simp
qed

lemma push_note_ok:
  assumes "push_note E feed_r feed_ct payload s jc = Inr s'"
    and "notes_ok (vw_notes (ss_view s)) (ss_commitments s)"
  shows "notes_ok (vw_notes (ss_view s')) (ss_commitments s') \<and> ss_commitments s' = ss_commitments s @ [snd jc]
    \<and> vw_nullifiers (ss_view s') = vw_nullifiers (ss_view s) \<and> vw_spends (ss_view s') = vw_spends (ss_view s)
    \<and> vw_attestation_records (ss_view s') = vw_attestation_records (ss_view s)"
  using assms(2) push_note_Inr [of E feed_r feed_ct payload s "fst jc" "snd jc" s'] assms(1)
  by (auto simp: notes_ok_def)

lemma sync_pool_log_ok:
  assumes "sync_pool_log E s log = Inr s'" and "sync_ok s" shows "sync_ok s'"
proof (cases log)
  case (DepositLog c feed_r feed_ct payload)
  with assms obtain cc where "push_note E feed_r feed_ct payload s (0, cc) = Inr s'"
    by (auto simp: sync_pool_log_def and_then_eq_Inr)
  from push_note_ok [OF this] assms(2) show ?thesis by (auto simp: sync_ok_def)
next
  case (TransferLog n0 n1 c0 c1 feed_r feed_ct payload)
  let ?nulls = "try_map (fr_of_b256 E) [n0, n1]" and ?outs = "try_map (fr_of_b256 E) [c0, c1]"
  from assms(1) TransferLog obtain ns os where ns: "?nulls = Inr ns" and os: "?outs = Inr os"
    by (cases ?nulls; cases ?outs) (simp_all add: sync_pool_log_def Let_def del: try_map.simps)
  from ns os obtain a b c d where abcd: "ns = [a, b]" "os = [c, d]"
    by (auto simp: and_then_eq_Inr)
  from assms(1) TransferLog ns os obtain s1 s2 t where
    t: "t = s\<lparr>ss_view := (ss_view s)\<lparr>vw_nullifiers := vw_nullifiers (ss_view s) \<union> set [a, b]\<rparr>\<rparr>"
    and p: "push_note E feed_r feed_ct payload t (0, c) = Inr s1" "push_note E feed_r feed_ct payload s1 (1, d) = Inr s2"
    and s': "s' = s2\<lparr>ss_view := (ss_view s2)\<lparr>vw_spends := vw_spends (ss_view s2) @
      [\<lparr>sr_nullifiers = [a, b], sr_outputs = [c, d], sr_withdrawn_units = None\<rparr>]\<rparr>\<rparr>"
    by (auto simp: sync_pool_log_def abcd and_then_eq_Inr Let_def enumerated_def simp del: try_map.simps)
  have "notes_ok (vw_notes (ss_view t)) (ss_commitments t)" using assms(2) t by (simp add: sync_ok_def)
  note q1 = push_note_ok [OF p(1) this]
  note q2 = push_note_ok [OF p(2) conjunct1 [OF q1]]
  have f1: "notes_ok (vw_notes (ss_view s')) (ss_commitments s')"
    using conjunct1 [OF q2] by (simp add: s')
  have f: "ss_commitments s' = ss_commitments s @ [c, d]"
    "vw_nullifiers (ss_view s') = vw_nullifiers (ss_view s) \<union> {a, b}"
    "vw_spends (ss_view s') = vw_spends (ss_view s) @ [\<lparr>sr_nullifiers = [a, b], sr_outputs = [c, d], sr_withdrawn_units = None\<rparr>]"
    "vw_attestation_records (ss_view s') = vw_attestation_records (ss_view s)"
    using q1 q2 unfolding s' t by simp_all
  show ?thesis using assms(2) f1 unfolding sync_ok_def f by auto
qed (use assms in \<open>auto simp: sync_pool_log_def sync_ok_def and_then_eq_Inr subset_iff\<close>)

lemma sync_registry_log_ok:
  assumes "sync_registry_log E (view, as) log = Inr (view', as')"
    and "\<forall>r \<in> set (vw_attestation_records view). ar_leaf_index r < length as"
  shows "(\<forall>r \<in> set (vw_attestation_records view'). ar_leaf_index r < length as')
    \<and> vw_notes view' = vw_notes view \<and> vw_nullifiers view' = vw_nullifiers view \<and> vw_spends view' = vw_spends view
    \<and> vw_outflows view' = vw_outflows view"
proof (cases log)
  case (AttestationAddedLog l ow a g i x)
  with assms show ?thesis
    by (cases "fr_of_b256 E ow") (auto simp: sync_registry_log_def and_then_eq_Inr Let_def less_Suc_eq)
qed

lemma lean_from_leaves_Some: "lean_from_leaves leaves = Some t \<Longrightarrow> lt_leaves t = leaves"
  by (auto simp: lean_from_leaves_def lean_extend_def lean_new_def split: if_splits)

lemma sync_view:
  assumes "sync E pool_logs outflow_logs registry_logs = Inr view"
  shows "view_ok view \<and> (\<exists>s. try_fold (sync_pool_log E)
      \<lparr>ss_view = empty_view, ss_commitments = [], ss_key_version = 0, ss_withdrawals = []\<rparr> pool_logs = Inr s
    \<and> vw_outflows view = match_withdrawals (map outflow_of_log outflow_logs) (ss_withdrawals s))"
proof -
  from assms obtain s v as ct at where
    p: "try_fold (sync_pool_log E) \<lparr>ss_view = empty_view, ss_commitments = [], ss_key_version = 0, ss_withdrawals = []\<rparr>
          pool_logs = Inr s"
    and r: "try_fold (sync_registry_log E)
          ((ss_view s)\<lparr>vw_outflows := match_withdrawals (map outflow_of_log outflow_logs) (ss_withdrawals s)\<rparr>, [])
          registry_logs = Inr (v, as)"
    and t: "lean_from_leaves (ss_commitments s) = Some ct" "lean_from_leaves as = Some at"
    and view: "view = v\<lparr>vw_commitments := ct, vw_attestations := at\<rparr>"
    by (auto simp: sync_def and_then_eq_Inr ok_or_eq_Inr Let_def)
  have s: "sync_ok s"
  proof (rule try_fold_invariant [OF p, where P = sync_ok])
    show "sync_ok \<lparr>ss_view = empty_view, ss_commitments = [], ss_key_version = 0, ss_withdrawals = []\<rparr>"
      by (simp add: sync_ok_def notes_ok_def empty_view_def)
  qed (rule sync_pool_log_ok)
  let ?P = "\<lambda>(w, as). (\<forall>r \<in> set (vw_attestation_records w). ar_leaf_index r < length as)
    \<and> vw_notes w = vw_notes (ss_view s) \<and> vw_nullifiers w = vw_nullifiers (ss_view s) \<and> vw_spends w = vw_spends (ss_view s)
    \<and> vw_outflows w = match_withdrawals (map outflow_of_log outflow_logs) (ss_withdrawals s)"
  have "?P (v, as)"
  proof (rule try_fold_invariant [OF r])
    fix w x w' assume "?P w" "sync_registry_log E w x = Inr w'"
    then show "?P w'" using sync_registry_log_ok [of E "fst w" "snd w" x "fst w'" "snd w'"] by (auto split: prod.splits)
  qed (use s in \<open>simp add: sync_ok_def\<close>)
  with s p show ?thesis by (auto simp: view view_ok_def sync_ok_def lean_from_leaves_Some [OF t(1)] lean_from_leaves_Some [OF t(2)])
qed

lemma sync_registry_notes:
  "sync_registry_log E va log = Inr vb \<Longrightarrow> vw_notes (fst vb) = vw_notes (fst va)"
proof (cases va; cases log)
  fix view as l ow a g i x
  assume "sync_registry_log E va log = Inr vb" and "va = (view, as)" and "log = AttestationAddedLog l ow a g i x"
  then show ?thesis by (cases "fr_of_b256 E ow") (auto simp: sync_registry_log_def and_then_eq_Inr Let_def)
qed

lemma sync_notes:
  assumes "sync E pool_logs outflow_logs registry_logs = Inr view"
  shows "\<exists>s. try_fold (sync_pool_log E)
      \<lparr>ss_view = empty_view, ss_commitments = [], ss_key_version = 0, ss_withdrawals = []\<rparr> pool_logs = Inr s
    \<and> vw_notes view = vw_notes (ss_view s)"
proof -
  from assms obtain s v as where
    p: "try_fold (sync_pool_log E) \<lparr>ss_view = empty_view, ss_commitments = [], ss_key_version = 0, ss_withdrawals = []\<rparr>
          pool_logs = Inr s"
    and r: "try_fold (sync_registry_log E)
          ((ss_view s)\<lparr>vw_outflows := match_withdrawals (map outflow_of_log outflow_logs) (ss_withdrawals s)\<rparr>, [])
          registry_logs = Inr (v, as)"
    and view: "vw_notes view = vw_notes v"
    by (auto simp: sync_def and_then_eq_Inr ok_or_eq_Inr Let_def)
  have "vw_notes (fst (v, as)) = vw_notes (ss_view s)"
    by (rule try_fold_invariant [OF r, where P = "\<lambda>va. vw_notes (fst va) = vw_notes (ss_view s)"])
      (auto dest: sync_registry_notes)
  with p view show ?thesis by auto
qed

section \<open>Explained outflows\<close>

definition outflow_key :: "outflow \<Rightarrow> withdrawal" where
  "outflow_key out = (of_tx out, of_to out, of_shares out)"

lemma find_position_Some: "find_position x ys = Some i \<Longrightarrow> i < length ys \<and> ys ! i = x"
  by (induction ys arbitrary: i) (auto split: if_splits)

lemma find_position_None: "find_position x ys = None \<longleftrightarrow> x \<notin> set ys"
  by (induction ys) auto

lemma mset_swap_remove:
  assumes "i < length xs" shows "mset (swap_remove i xs) = mset xs - {#xs ! i#}"
proof -
  obtain ys y where xs: "xs = ys @ [y]" using assms by (cases xs rule: rev_cases) auto
  show ?thesis
  proof (cases "i = length ys")
    case False
    then have "i < length ys" using assms xs by simp
    then have "mset (ys[i := y]) = add_mset y (mset ys - {#ys ! i#})" "ys ! i \<in># mset ys" by (simp_all add: mset_update)
    with False \<open>i < length ys\<close> show ?thesis by (simp add: xs swap_remove_def nth_append)
  qed (simp add: xs swap_remove_def)
qed

lemma add_mset_diff_bothsides_absent: "a \<notin># M \<Longrightarrow> add_mset a A - M = add_mset a (A - M)"
proof (rule multiset_eqI)
  fix x
  assume "a \<notin># M"
  then have "count M a = 0" by (simp add: count_eq_zero_iff)
  then show "count (add_mset a A - M) x = count (add_mset a (A - M)) x" by auto
qed

lemma match_withdrawals_difference:
  assumes "\<forall>x \<in> set outs. \<not> of_by_withdrawal x"
  shows "image_mset outflow_key (mset (filter (\<lambda>x. \<not> of_by_withdrawal x) (match_withdrawals outs ws)))
    = image_mset outflow_key (mset outs) - mset ws
    \<and> map outflow_key (match_withdrawals outs ws) = map outflow_key outs"
  using assms
proof (induction outs arbitrary: ws)
  case (Cons out outs)
  show ?case
  proof (cases "find_position (of_tx out, of_to out, of_shares out) ws")
    case None
    then have "outflow_key out \<notin># mset ws" by (simp add: find_position_None outflow_key_def)
    then have "add_mset (outflow_key out) A - mset ws = add_mset (outflow_key out) (A - mset ws)" for A
      by (rule add_mset_diff_bothsides_absent)
    then show ?thesis using Cons None by simp
  next
    case (Some i)
    note i = find_position_Some [OF Some]
    then have "outflow_key out \<in># mset ws" using nth_mem [of i ws] by (simp add: outflow_key_def)
    then have "add_mset (outflow_key out) A - mset ws = A - (mset ws - {#outflow_key out#})" for A
      by (metis add_mset_diff_bothsides insert_DiffM)
    then show ?thesis using Cons Some i by (simp add: mset_swap_remove) (simp add: outflow_key_def)
  qed
qed simp

end
