(* ===== verification/Fund_Wallet.thy ===== *)
theory Fund_Wallet
  imports Fund_Chain
begin

text \<open>
  The investor's wallet and the building blocks it shares with the transfer agent (\<open>wallet.rs\<close>):
  recipient payloads, attestation witnesses, transfers, deposits and withdrawals in the three steps
  prepare, sign, finish, and the wallet's scanning and payment. A custody signer is the function it
  answers with.
\<close>

datatype actor_error =
    InsufficientUnits u64 u64
  | NotAttested bytes32
  | UnknownNote bytes32
  | SeedNote bytes32
  | LockedNote bytes32
  | SeedExists
  | NoSeed
  | InvestorBeforeSeed bytes32
  | PendingRedemption bytes32
  | UnknownOwner bytes32
  | InvalidInvestorId "u8 list"
  | UnknownPublicHolder address
  | AgentsOwnValue
  | OwnerOfAnotherInvestor bytes32
  | UnverifiedInvestor "u8 list"
  | BadRegistration
  | JurisdictionCapReached "u8 list" nat
  | CapReached nat
  | PlanExpired u64 u64
  | UnreadableNotes nat
  | InputCount nat
  | RegisterMismatch u128 u128
  | SharesShort
  | StaleRotation u64
  | UnpreparedRotation u64
  | ActorCrypto crypto_error

section \<open>Recipient payload\<close>

definition payload_aad :: "nat \<Rightarrow> u8 list" where
  "payload_aad j = ascii ''shielded-notes-payload'' @ [word_of_nat j]"

definition payload_plaintext :: "'fr prims \<Rightarrow> 'fr fund_note \<Rightarrow> 'fr lock_opening \<Rightarrow> u8 list" where
  "payload_plaintext E n opening = note_encode E n @ concat (map (fr_bytes E) (lock_fields E opening))"

definition encrypt_element ::
    "'fr prims \<Rightarrow> 'fr fund_prims \<Rightarrow> nat \<times> 'fr fund_note \<times> 'fr lock_opening \<times> u8 list \<times> u8 list \<Rightarrow> u8 list" where
  "encrypt_element E X = (\<lambda>(j, n, opening, vpk, rnd).
     let ct = seal_encrypt X rnd vpk (payload_plaintext E n opening) (payload_aad j)
     in u32_to_be (word_of_nat (length ct)) @ ct)"

definition encrypt_payload ::
    "'fr prims \<Rightarrow> 'fr fund_prims \<Rightarrow> ('fr fund_note \<times> 'fr lock_opening \<times> u8 list \<times> u8 list) list \<Rightarrow> u8 list" where
  "encrypt_payload E X outputs = concat (map (encrypt_element E X) (enumerated outputs))"

fun payload_element :: "u8 list \<Rightarrow> nat \<Rightarrow> u8 list option" where
  "payload_element rest j =
     (if length rest < 4 then None
      else
        (let len = unat (from_be (take 4 rest) :: u32) in
         if length rest < 4 + len then None
         else case j of 0 \<Rightarrow> Some (slice 4 (4 + len) rest)
              | Suc j' \<Rightarrow> payload_element (drop (4 + len) rest) j'))"

declare payload_element.simps [simp del]

definition decrypt_payload ::
    "'fr prims \<Rightarrow> 'fr fund_prims \<Rightarrow> u8 list \<Rightarrow> u8 list \<Rightarrow> nat \<Rightarrow> ('fr fund_note \<times> 'fr lock_opening) option" where
  "decrypt_payload E X vk payload j =
     (case payload_element payload j of None \<Rightarrow> None
      | Some element \<Rightarrow>
          (case seal_decrypt X vk element (payload_aad j) of Inl _ \<Rightarrow> None
           | Inr bytes \<Rightarrow>
               if length bytes \<noteq> NOTE_BYTES + 96 then None
               else
                 (case note_decode E (slice 0 NOTE_BYTES bytes) of Inl _ \<Rightarrow> None
                  | Inr n \<Rightarrow>
                      (case try_map (\<lambda>i. fr_try_from E (word_at (drop NOTE_BYTES bytes) i)) [0..<3] of Inl _ \<Rightarrow> None
                       | Inr fs \<Rightarrow>
                           (case lock_from_fields E fs of None \<Rightarrow> None | Some opening \<Rightarrow> Some (n, opening))))))"

section \<open>Building blocks\<close>

definition attestation_witness ::
    "'fr prims \<Rightarrow> 'fr fund_prims \<Rightarrow> 'fr chain_view \<Rightarrow> 'fr pool_env \<Rightarrow> 'fr \<Rightarrow> 'fr attestation_witness option" where
  "attestation_witness E X view env owner =
     (case attestation_of view owner (en_epoch env) (en_min_accepted_generation env) of None \<Rightarrow> None
      | Some r \<Rightarrow>
          (case tree_proof E X (vw_attestations view) (ar_leaf_index r) of None \<Rightarrow> None
           | Some path \<Rightarrow>
               Some \<lparr>aw_attester = ar_attester r, aw_generation = ar_generation r, aw_issued_at = ar_issued_at r,
                     aw_expires_at = ar_expires_at r, aw_path = path\<rparr>))"

definition unchecked_attestation :: "'fr attestation_witness" where
  "unchecked_attestation =
     \<lparr>aw_attester = zeros 20, aw_generation = 0, aw_issued_at = 0, aw_expires_at = 0, aw_path = []\<rparr>"

definition require_attestation ::
    "'fr prims \<Rightarrow> 'fr fund_prims \<Rightarrow> 'fr chain_view \<Rightarrow> 'fr pool_env \<Rightarrow> 'fr \<Rightarrow> (actor_error, 'fr attestation_witness) result" where
  "require_attestation E X view env owner =
     ok_or (NotAttested (fr_bytes E owner)) (attestation_witness E X view env owner)"

record 'fr owned_note =
  on_note :: "'fr fund_note"
  on_opening :: "'fr lock_opening"
  on_commitment :: 'fr
  on_leaf_index :: nat
  on_spent :: bool

definition owned_input ::
    "'fr prims \<Rightarrow> 'fr fund_prims \<Rightarrow> 'fr owned_note \<Rightarrow> 'fr chain_view \<Rightarrow> (actor_error, 'fr input_witness) result" where
  "owned_input E X n view =
     (case tree_proof E X (vw_commitments view) (on_leaf_index n) of
        None \<Rightarrow> Inl (UnknownNote (fr_bytes E (on_commitment n)))
      | Some path \<Rightarrow>
          if lt_leaves (vw_commitments view) ! on_leaf_index n = on_commitment n
          then Inr \<lparr>iw_units = fn_units (on_note n), iw_salt = fn_salt (on_note n), iw_lock = fn_lock (on_note n),
                    iw_lock_opening = on_opening n, iw_path = path\<rparr>
          else Inl (UnknownNote (fr_bytes E (on_commitment n))))"

record 'fr note_output =
  out_owner :: 'fr
  out_units :: u64
  out_opening :: "'fr lock_opening"
  out_vpk :: "u8 list"

record 'fr transfer_spec =
  ts_claim :: bool
  ts_owner_key :: public_spend_key
  ts_nk :: 'fr
  ts_claim_key :: public_spend_key
  ts_inputs :: "'fr owned_note list"
  ts_outputs :: "'fr note_output \<times> 'fr note_output"

record 'fr built_transfer =
  bt_witness :: "'fr fund_transfer_witness"
  bt_payload :: "u8 list"
  bt_outputs :: "'fr fund_note \<times> 'fr fund_note"

text \<open>The random values one operation draws.\<close>

record 'fr draws =
  rd_padding :: 'fr
  rd_salts :: "'fr \<times> 'fr"
  rd_seals :: "u8 list \<times> u8 list"
  rd_feed :: feed_secret

definition require_unexpired :: "'fr plan \<Rightarrow> 'fr pool_env \<Rightarrow> (actor_error, unit) result" where
  "require_unexpired p env =
     (if pl_expiry p < (en_epoch env + 1) * EPOCH_SECONDS then Inl (PlanExpired (pl_expiry p) (en_epoch env)) else Inr ())"

definition payload_commitment :: "'fr prims \<Rightarrow> u8 list \<Rightarrow> 'fr" where
  "payload_commitment E payload = from_be_bytes_mod_order E (keccak256 E payload)"

section \<open>Transfers\<close>

record 'fr pending_transfer =
  pd_plan :: "'fr plan"
  pd_outputs :: "'fr fund_note \<times> 'fr fund_note"
  pd_output_locks :: "'fr lock_opening \<times> 'fr lock_opening"
  pd_claim :: bool
  pd_owner_key :: public_spend_key
  pd_nk :: 'fr
  pd_claim_key :: public_spend_key
  pd_inputs :: "'fr owned_note list"
  pd_padding :: "'fr input_witness option"
  pd_payload :: "u8 list"

definition output_note :: "'fr prims \<Rightarrow> 'fr \<Rightarrow> 'fr \<Rightarrow> 'fr note_output \<Rightarrow> 'fr fund_note" where
  "output_note E token salt out =
     \<lparr>fn_token = token, fn_units = out_units out, fn_owner = out_owner out, fn_salt = salt,
      fn_lock = lock_value E (out_opening out)\<rparr>"

definition prepare_transfer ::
    "'fr prims \<Rightarrow> 'fr fund_prims \<Rightarrow> 'fr draws \<Rightarrow> 'fr transfer_spec \<Rightarrow> 'fr pool_env \<Rightarrow> (actor_error, 'fr pending_transfer) result" where
  "prepare_transfer E X rnd spec env =
     (if ts_inputs spec = [] \<or> 2 < length (ts_inputs spec) then Inl (InputCount (length (ts_inputs spec)))
      else
        (let owner_in = owner_value E (ts_owner_key spec) (ts_nk spec);
             token = fr_of_address E (en_token env);
             padding = (if length (ts_inputs spec) = 1 then Some (input_padding E (rd_padding rnd)) else None);
             second =
               (case padding of
                  Some p \<Rightarrow> fund_commitment E \<lparr>fn_token = token, fn_units = iw_units p, fn_owner = owner_in,
                              fn_salt = iw_salt p, fn_lock = iw_lock p\<rparr>
                | None \<Rightarrow> on_commitment (ts_inputs spec ! 1));
             nulls = (fund_nullifier E (on_commitment (ts_inputs spec ! 0)) (ts_nk spec), fund_nullifier E second (ts_nk spec));
             out0 = output_note E token (fst (rd_salts rnd)) (fst (ts_outputs spec));
             out1 = output_note E token (snd (rd_salts rnd)) (snd (ts_outputs spec));
             locks = (out_opening (fst (ts_outputs spec)), out_opening (snd (ts_outputs spec)));
             payload = encrypt_payload E X
               [(out0, fst locks, out_vpk (fst (ts_outputs spec)), fst (rd_seals rnd)),
                (out1, snd locks, out_vpk (snd (ts_outputs spec)), snd (rd_seals rnd))];
             plan =
               \<lparr>pl_chain_id = en_chain_id env, pl_pool = en_pool env, pl_op = OP_TRANSFER,
                pl_path = (if ts_claim spec then PATH_CLAIM else PATH_OWNER), pl_nullifiers = nulls,
                pl_outputs = (fund_commitment E out0, fund_commitment E out1), pl_public_units = 0,
                pl_recipient = fr_of E 0, pl_expiry = plan_expiry env\<rparr>
         in Inr \<lparr>pd_plan = plan, pd_outputs = (out0, out1), pd_output_locks = locks, pd_claim = ts_claim spec,
                 pd_owner_key = ts_owner_key spec, pd_nk = ts_nk spec, pd_claim_key = ts_claim_key spec,
                 pd_inputs = ts_inputs spec, pd_padding = padding, pd_payload = payload\<rparr>))"

definition output_attestation ::
    "'fr prims \<Rightarrow> 'fr fund_prims \<Rightarrow> 'fr chain_view \<Rightarrow> 'fr pool_env \<Rightarrow> bool \<Rightarrow> 'fr \<Rightarrow> 'fr fund_note
     \<Rightarrow> (actor_error, 'fr attestation_witness) result" where
  "output_attestation E X view env claim owner_in out =
     (let needed = (\<not> claim \<or> fn_owner out \<noteq> owner_in) in
      if needed then require_attestation E X view env (fn_owner out)
      else Inr (case attestation_witness E X view env (fn_owner out) of None \<Rightarrow> unchecked_attestation | Some w \<Rightarrow> w))"

definition finish_transfer ::
    "'fr prims \<Rightarrow> 'fr fund_prims \<Rightarrow> 'fr draws \<Rightarrow> 'fr pending_transfer \<Rightarrow> u8 list \<Rightarrow> 'fr chain_view \<Rightarrow> 'fr pool_env
     \<Rightarrow> (actor_error, 'fr built_transfer) result" where
  "finish_transfer E X rnd pd signature view env =
     and_then (require_unexpired (pd_plan pd) env) (\<lambda>_.
     let owner_in = owner_value E (pd_owner_key pd) (pd_nk pd) in
     and_then (try_map (\<lambda>n. owned_input E X n view) (pd_inputs pd)) (\<lambda>ins.
     let inputs = ins @ (case pd_padding pd of None \<Rightarrow> [] | Some p \<Rightarrow> [p]) in
     and_then (if pd_claim pd then Inr unchecked_attestation else require_attestation E X view env owner_in) (\<lambda>input_attestation.
     and_then (output_attestation E X view env (pd_claim pd) owner_in (fst (pd_outputs pd))) (\<lambda>att0.
     and_then (output_attestation E X view env (pd_claim pd) owner_in (snd (pd_outputs pd))) (\<lambda>att1.
     let feed_secret = rd_feed rnd;
         (feed_r, k) = feed_derive E X feed_secret (en_register_key env);
         feed_ct = feed_encrypt E k (feed_fields E (fst (pd_outputs pd)) (fst (pd_output_locks pd))) 0
           @ feed_encrypt E k (feed_fields E (snd (pd_outputs pd)) (snd (pd_output_locks pd))) 1;
         witness =
           \<lparr>fw_nullifiers = pl_nullifiers (pd_plan pd), fw_commitments_out = pl_outputs (pd_plan pd),
            fw_commitment_root = tree_root E X (vw_commitments view), fw_attestation_root = tree_root E X (vw_attestations view),
            fw_min_accepted_generation = en_min_accepted_generation env, fw_epoch = en_epoch env,
            fw_chain_id = en_chain_id env, fw_pool = en_pool env, fw_claim_key_hash = en_claim_key_hash env,
            fw_register_key = en_register_key env, fw_feed_r = feed_r, fw_feed_ct = feed_ct,
            fw_payload_commitment = payload_commitment E (pd_payload pd), fw_claim = pd_claim pd, fw_token = en_token env,
            fw_owner_key = pd_owner_key pd, fw_nk = pd_nk pd, fw_claim_key = pd_claim_key pd, fw_signature = signature,
            fw_expiry = pl_expiry (pd_plan pd), fw_inputs = (inputs ! 0, inputs ! 1), fw_outputs = pd_outputs pd,
            fw_output_locks = pd_output_locks pd, fw_input_attestation = input_attestation,
            fw_output_attestations = (att0, att1), fw_feed_secret = feed_secret\<rparr>
     in Inr \<lparr>bt_witness = witness, bt_payload = pd_payload pd, bt_outputs = pd_outputs pd\<rparr>)))))"

type_synonym 'fr signer_port = "'fr plan \<Rightarrow> 'fr fund_note list \<Rightarrow> (crypto_error, u8 list) result"

definition build_transfer ::
    "'fr prims \<Rightarrow> 'fr fund_prims \<Rightarrow> 'fr draws \<Rightarrow> 'fr transfer_spec \<Rightarrow> 'fr signer_port \<Rightarrow> 'fr chain_view \<Rightarrow> 'fr pool_env
     \<Rightarrow> (actor_error, 'fr built_transfer) result" where
  "build_transfer E X rnd spec signer view env =
     and_then (prepare_transfer E X rnd spec env) (\<lambda>pending.
     and_then (map_err ActorCrypto (signer (pd_plan pending) [fst (pd_outputs pending), snd (pd_outputs pending)])) (\<lambda>signature.
     finish_transfer E X rnd pending signature view env))"

section \<open>Deposits and withdrawals\<close>

record 'fr pending_deposit =
  pp_plan :: "'fr plan"
  pp_note :: "'fr fund_note"
  pp_owner_key :: public_spend_key
  pp_nk :: 'fr
  pp_funder :: address
  pp_payload :: "u8 list"

definition finish_deposit ::
    "'fr prims \<Rightarrow> 'fr fund_prims \<Rightarrow> 'fr draws \<Rightarrow> 'fr pending_deposit \<Rightarrow> u8 list \<Rightarrow> 'fr chain_view \<Rightarrow> 'fr pool_env
     \<Rightarrow> (actor_error, 'fr deposit_witness \<times> u8 list) result" where
  "finish_deposit E X rnd pp signature view env =
     and_then (require_unexpired (pp_plan pp) env) (\<lambda>_.
     and_then (require_attestation E X view env (owner_value E (pp_owner_key pp) (pp_nk pp))) (\<lambda>attestation.
     let feed_secret = rd_feed rnd;
         (feed_r, k) = feed_derive E X feed_secret (en_register_key env);
         feed_ct = feed_encrypt E k (feed_fields E (pp_note pp) (lock_none E)) 0
     in Inr (\<lparr>dw_commitment = fund_commitment E (pp_note pp), dw_token = en_token env, dw_units = fn_units (pp_note pp),
              dw_funding_address = pp_funder pp, dw_attestation_root = tree_root E X (vw_attestations view),
              dw_min_accepted_generation = en_min_accepted_generation env, dw_epoch = en_epoch env,
              dw_chain_id = en_chain_id env, dw_pool = en_pool env, dw_register_key = en_register_key env,
              dw_feed_r = feed_r, dw_feed_ct = feed_ct, dw_payload_commitment = payload_commitment E (pp_payload pp),
              dw_owner_key = pp_owner_key pp, dw_nk = pp_nk pp, dw_signature = signature,
              dw_expiry = pl_expiry (pp_plan pp), dw_salt = fn_salt (pp_note pp), dw_attestation = attestation,
              dw_feed_secret = feed_secret\<rparr>, pp_payload pp)))"

record 'fr pending_withdraw =
  pw_plan :: "'fr plan"
  pw_owned :: "'fr owned_note"
  pw_owner_key :: public_spend_key
  pw_nk :: 'fr
  pw_recipient :: address

definition finish_withdraw ::
    "'fr prims \<Rightarrow> 'fr fund_prims \<Rightarrow> 'fr pending_withdraw \<Rightarrow> u8 list \<Rightarrow> 'fr chain_view \<Rightarrow> 'fr pool_env
     \<Rightarrow> (actor_error, 'fr withdraw_witness) result" where
  "finish_withdraw E X pw signature view env =
     and_then (require_unexpired (pw_plan pw) env) (\<lambda>_.
     and_then (require_attestation E X view env (owner_value E (pw_owner_key pw) (pw_nk pw))) (\<lambda>attestation.
     and_then (owned_input E X (pw_owned pw) view) (\<lambda>input.
     Inr \<lparr>ww_nullifier = fst (pl_nullifiers (pw_plan pw)), ww_token = en_token env, ww_units = fn_units (on_note (pw_owned pw)),
          ww_recipient = pw_recipient pw, ww_commitment_root = tree_root E X (vw_commitments view),
          ww_attestation_root = tree_root E X (vw_attestations view),
          ww_min_accepted_generation = en_min_accepted_generation env, ww_epoch = en_epoch env,
          ww_chain_id = en_chain_id env, ww_pool = en_pool env, ww_owner_key = pw_owner_key pw, ww_nk = pw_nk pw,
          ww_signature = signature, ww_expiry = pl_expiry (pw_plan pw), ww_input = input, ww_attestation = attestation\<rparr>)))"

section \<open>The wallet\<close>

record 'fr wallet =
  wa_keys :: "'fr wallet_keys"
  wa_notes :: "'fr owned_note list"

definition wallet_new :: "'fr wallet_keys \<Rightarrow> 'fr wallet" where
  "wallet_new ks = \<lparr>wa_keys = ks, wa_notes = []\<rparr>"

definition wallet_owner :: "'fr prims \<Rightarrow> 'fr wallet \<Rightarrow> 'fr" where
  "wallet_owner E w = wallet_keys_owner E (wa_keys w)"

definition wallet_vpk :: "'fr fund_prims \<Rightarrow> 'fr wallet \<Rightarrow> u8 list" where
  "wallet_vpk X w = view_public X (wk_view (wa_keys w))"

definition wallet_registration ::
    "'fr prims \<Rightarrow> 'fr fund_prims \<Rightarrow> 'fr wallet \<Rightarrow> 'fr pool_env \<Rightarrow> u8 list \<Rightarrow> 'fr registration" where
  "wallet_registration E X w env investor_id =
     \<lparr>rgn_chain_id = en_chain_id env, rgn_pool = en_pool env, rgn_investor_id = investor_id, rgn_pk = wk_pk (wa_keys w),
      rgn_nk_hash = nk_hash E (wk_nk (wa_keys w)), rgn_vpk = wallet_vpk X w\<rparr>"

definition scan_record ::
    "'fr prims \<Rightarrow> 'fr fund_prims \<Rightarrow> 'fr wallet_keys \<Rightarrow> 'fr note_record \<Rightarrow> 'fr owned_note list \<Rightarrow> 'fr owned_note list" where
  "scan_record E X ks rec ns =
     (if list_ex (\<lambda>n. on_commitment n = nr_commitment rec) ns then ns
      else
        (case decrypt_payload E X (wk_view ks) (nr_payload rec) (nr_output rec) of None \<Rightarrow> ns
         | Some (n, opening) \<Rightarrow>
             if fn_owner n = wallet_keys_owner E ks \<and> fund_commitment E n = nr_commitment rec
             then ns @ [\<lparr>on_note = n, on_opening = opening, on_commitment = nr_commitment rec,
                         on_leaf_index = nr_leaf_index rec, on_spent = False\<rparr>]
             else ns))"

definition scan :: "'fr prims \<Rightarrow> 'fr fund_prims \<Rightarrow> 'fr wallet \<Rightarrow> 'fr chain_view \<Rightarrow> 'fr wallet" where
  "scan E X w view =
     (let ks = wa_keys w;
          ns = fold (scan_record E X ks) (vw_notes view) (wa_notes w)
      in w\<lparr>wa_notes := map (\<lambda>n. n\<lparr>on_spent := (fund_nullifier E (on_commitment n) (wk_nk ks) \<in> vw_nullifiers view)\<rparr>) ns\<rparr>)"

definition spendable_note :: "'fr prims \<Rightarrow> u64 \<Rightarrow> 'fr owned_note \<Rightarrow> bool" where
  "spendable_note E epoch n \<longleftrightarrow>
     \<not> on_spent n \<and> 0 < fn_units (on_note n)
     \<and> (fn_lock (on_note n) = fr_of E 0 \<or> lo_release_after (on_opening n) \<le> epoch)"

definition spendable :: "'fr prims \<Rightarrow> 'fr wallet \<Rightarrow> u64 \<Rightarrow> 'fr owned_note list" where
  "spendable E w epoch = filter (spendable_note E epoch) (wa_notes w)"

definition sum_units :: "'fr owned_note list \<Rightarrow> u64" where
  "sum_units ns = sum_list (map (\<lambda>n. fn_units (on_note n)) ns)"

definition balance :: "'fr prims \<Rightarrow> 'fr wallet \<Rightarrow> u64 \<Rightarrow> u64" where
  "balance E w epoch = sum_units (spendable E w epoch)"

definition prepare_deposit ::
    "'fr prims \<Rightarrow> 'fr fund_prims \<Rightarrow> 'fr draws \<Rightarrow> 'fr wallet \<Rightarrow> 'fr pool_env \<Rightarrow> u64 \<Rightarrow> address \<Rightarrow> 'fr pending_deposit" where
  "prepare_deposit E X rnd w env units funder =
     (let n = \<lparr>fn_token = fr_of_address E (en_token env), fn_units = units, fn_owner = wallet_owner E w,
               fn_salt = fst (rd_salts rnd), fn_lock = fr_of E 0\<rparr>;
          payload = encrypt_payload E X [(n, lock_none E, wallet_vpk X w, fst (rd_seals rnd))];
          plan = \<lparr>pl_chain_id = en_chain_id env, pl_pool = en_pool env, pl_op = OP_DEPOSIT, pl_path = PATH_OWNER,
                  pl_nullifiers = (fr_of E 0, fr_of E 0), pl_outputs = (fund_commitment E n, fr_of E 0),
                  pl_public_units = units, pl_recipient = fr_of_address E funder, pl_expiry = plan_expiry env\<rparr>
      in \<lparr>pp_plan = plan, pp_note = n, pp_owner_key = wk_pk (wa_keys w), pp_nk = wk_nk (wa_keys w), pp_funder = funder,
          pp_payload = payload\<rparr>)"

definition wallet_deposit ::
    "'fr prims \<Rightarrow> 'fr fund_prims \<Rightarrow> 'fr draws \<Rightarrow> 'fr wallet \<Rightarrow> 'fr signer_port \<Rightarrow> 'fr chain_view \<Rightarrow> 'fr pool_env \<Rightarrow> u64
     \<Rightarrow> address \<Rightarrow> (actor_error, 'fr deposit_witness \<times> u8 list) result" where
  "wallet_deposit E X rnd w signer view env units funder =
     (let pending = prepare_deposit E X rnd w env units funder in
      and_then (map_err ActorCrypto (signer (pp_plan pending) [pp_note pending])) (\<lambda>signature.
      finish_deposit E X rnd pending signature view env))"

definition wallet_spec :: "'fr wallet \<Rightarrow> 'fr owned_note list \<Rightarrow> 'fr note_output \<times> 'fr note_output \<Rightarrow> 'fr transfer_spec" where
  "wallet_spec w inputs outputs =
     \<lparr>ts_claim = False, ts_owner_key = wk_pk (wa_keys w), ts_nk = wk_nk (wa_keys w), ts_claim_key = wk_pk (wa_keys w),
      ts_inputs = inputs, ts_outputs = outputs\<rparr>"

definition wallet_transfer ::
    "'fr prims \<Rightarrow> 'fr fund_prims \<Rightarrow> 'fr draws \<Rightarrow> 'fr wallet \<Rightarrow> 'fr signer_port \<Rightarrow> 'fr chain_view \<Rightarrow> 'fr pool_env
     \<Rightarrow> 'fr owned_note list \<Rightarrow> 'fr note_output \<times> 'fr note_output \<Rightarrow> (actor_error, 'fr built_transfer) result" where
  "wallet_transfer E X rnd w signer view env inputs outputs =
     build_transfer E X rnd (wallet_spec w inputs outputs) signer view env"

definition wallet_prepare_transfer ::
    "'fr prims \<Rightarrow> 'fr fund_prims \<Rightarrow> 'fr draws \<Rightarrow> 'fr wallet \<Rightarrow> 'fr pool_env \<Rightarrow> 'fr owned_note list \<Rightarrow> 'fr note_output \<times> 'fr note_output
     \<Rightarrow> (actor_error, 'fr pending_transfer) result" where
  "wallet_prepare_transfer E X rnd w env inputs outputs = prepare_transfer E X rnd (wallet_spec w inputs outputs) env"

definition select_inputs ::
    "'fr prims \<Rightarrow> 'fr wallet \<Rightarrow> u64 \<Rightarrow> u64 \<Rightarrow> (actor_error, 'fr owned_note list) result" where
  "select_inputs E w epoch units =
     (let ns = sort_key (\<lambda>n. fn_units (on_note n)) (spendable E w epoch) in
      case find (\<lambda>n. units \<le> fn_units (on_note n)) ns of
        Some n \<Rightarrow> Inr [n]
      | None \<Rightarrow>
          (let top = take 2 (rev ns); have = sum_units top in
           if have < units then Inl (InsufficientUnits have units) else Inr top))"

definition pay ::
    "'fr prims \<Rightarrow> 'fr fund_prims \<Rightarrow> 'fr draws \<Rightarrow> 'fr wallet \<Rightarrow> 'fr signer_port \<Rightarrow> 'fr chain_view \<Rightarrow> 'fr pool_env \<Rightarrow> 'fr
     \<Rightarrow> u8 list \<Rightarrow> u64 \<Rightarrow> (actor_error, 'fr built_transfer) result" where
  "pay E X rnd w signer view env to to_vpk units =
     and_then (select_inputs E w (en_epoch env) units) (\<lambda>inputs.
     let total = sum_units inputs in
     wallet_transfer E X rnd w signer view env inputs
       (\<lparr>out_owner = to, out_units = units, out_opening = lock_none E, out_vpk = to_vpk\<rparr>,
        \<lparr>out_owner = wallet_owner E w, out_units = total - units, out_opening = lock_none E, out_vpk = wallet_vpk X w\<rparr>))"

definition prepare_withdraw ::
    "'fr prims \<Rightarrow> 'fr wallet \<Rightarrow> 'fr pool_env \<Rightarrow> 'fr owned_note \<Rightarrow> address \<Rightarrow> 'fr pending_withdraw" where
  "prepare_withdraw E w env owned recipient =
     (let plan = \<lparr>pl_chain_id = en_chain_id env, pl_pool = en_pool env, pl_op = OP_WITHDRAW, pl_path = PATH_OWNER,
                  pl_nullifiers = (fund_nullifier E (on_commitment owned) (wk_nk (wa_keys w)), fr_of E 0),
                  pl_outputs = (fr_of E 0, fr_of E 0), pl_public_units = fn_units (on_note owned),
                  pl_recipient = fr_of_address E recipient, pl_expiry = plan_expiry env\<rparr>
      in \<lparr>pw_plan = plan, pw_owned = owned, pw_owner_key = wk_pk (wa_keys w), pw_nk = wk_nk (wa_keys w),
          pw_recipient = recipient\<rparr>)"

definition wallet_withdraw ::
    "'fr prims \<Rightarrow> 'fr fund_prims \<Rightarrow> 'fr wallet \<Rightarrow> 'fr signer_port \<Rightarrow> 'fr chain_view \<Rightarrow> 'fr pool_env \<Rightarrow> 'fr owned_note
     \<Rightarrow> address \<Rightarrow> (actor_error, 'fr withdraw_witness) result" where
  "wallet_withdraw E X w signer view env owned recipient =
     (let pending = prepare_withdraw E w env owned recipient in
      and_then (map_err ActorCrypto (signer (pw_plan pending) [])) (\<lambda>signature.
      finish_withdraw E X pending signature view env))"

end
