(* ===== verification/Fund_Agent.thy ===== *)
theory Fund_Agent
  imports Fund_Wallet
begin

text \<open>
  The transfer agent of the fund (\<open>agent.rs\<close>): onboarding, attestation batches under the investor
  caps, the register read from the feed, claims, the seed, hand-outs, redemptions, key rotation and
  reconciliation. A handler that changes the agent returns the agent beside its result, also when
  the result is an error.

  An ordered map of the standard library is its association list in key order; maps that are only
  looked up are functions. Identifiers are byte strings.
\<close>

section \<open>Ordered maps\<close>

fun bt_insert :: "'k::linorder \<Rightarrow> 'v \<Rightarrow> ('k \<times> 'v) list \<Rightarrow> ('k \<times> 'v) list" where
  "bt_insert k v [] = [(k, v)]"
| "bt_insert k v ((k', v') # m) =
     (if k < k' then (k, v) # (k', v') # m
      else if k = k' then (k, v) # m
      else (k', v') # bt_insert k v m)"

lemma map_of_bt_insert: "sorted_wrt (<) (map fst m) \<Longrightarrow> map_of (bt_insert k v m) = (map_of m)(k \<mapsto> v)"
proof (induction m)
  case (Cons kv m)
  obtain k' v' where kv: "kv = (k', v')" by (cases kv)
  consider "k < k'" | "k = k'" | "k' < k" by (rule linorder_cases)
  then show ?case using Cons by cases (auto simp: kv fun_eq_iff)
qed simp

lemma keys_bt_insert: "set (map fst (bt_insert k v m)) = insert k (set (map fst m))"
proof (induction m)
  case (Cons kv m)
  then show ?case by (cases kv) (simp add: insert_commute)
qed simp

lemma sorted_bt_insert: "sorted_wrt (<) (map fst m) \<Longrightarrow> sorted_wrt (<) (map fst (bt_insert k v m))"
proof (induction m)
  case (Cons kv m)
  obtain k' v' where kv: "kv = (k', v')" by (cases kv)
  have keys: "fst ` set (bt_insert k v m) = insert k (fst ` set m)"
    using keys_bt_insert [of k v m] by simp
  consider "k < k'" | "k = k'" | "k' < k" by (rule linorder_cases)
  then show ?case
  proof cases
    case 1
    then show ?thesis using Cons.prems by (auto simp: kv intro: less_trans)
  next
    case 2
    then show ?thesis using Cons.prems by (simp add: kv)
  next
    case 3
    then have "\<forall>x \<in> fst ` set (bt_insert k v m). k' < x" using Cons.prems unfolding keys by (simp add: kv)
    then show ?thesis using 3 Cons less_imp_not_less [of k' k] by (simp add: kv)
  qed
qed simp

section \<open>Holders and records\<close>

definition ATTESTATION_PERIOD :: u64 where "ATTESTATION_PERIOD = 30"
definition ATTESTATION_OVERLAP :: u64 where "ATTESTATION_OVERLAP = 3"
definition AGENT_ID :: "u8 list" where "AGENT_ID = ascii ''transfer-agent''"
definition PADDING_ID :: "u8 list" where "PADDING_ID = ascii ''transfer-agent-padding''"

definition investor_id_new :: "u8 list \<Rightarrow> (actor_error, u8 list) result" where
  "investor_id_new ident =
     (if ident = [] \<or> ident = AGENT_ID \<or> ident = PADDING_ID then Inl (InvalidInvestorId ident) else Inr ident)"

datatype holder = HolderAgent | HolderPadding | HolderInvestor "u8 list"

definition holder_as_str :: "holder \<Rightarrow> u8 list" where
  "holder_as_str h = (case h of HolderAgent \<Rightarrow> AGENT_ID | HolderPadding \<Rightarrow> PADDING_ID | HolderInvestor ident \<Rightarrow> ident)"

definition holder_investor :: "holder \<Rightarrow> u8 list option" where
  "holder_investor h = (case h of HolderInvestor ident \<Rightarrow> Some ident | _ \<Rightarrow> None)"

record 'fr investor_record =
  ir_holder :: holder
  ir_pk :: public_spend_key
  ir_nk :: 'fr
  ir_vpk :: "u8 list"

record 'fr register_entry =
  re_note :: "'fr fund_note"
  re_opening :: "'fr lock_opening"
  re_commitment :: 'fr
  re_leaf_index :: nat
  re_holder :: "holder option"
  re_spent :: bool

datatype 'fr claim_action = Freeze | Hold u64 | Release | Seize 'fr "u8 list"

record 'fr redemption =
  rp_investor_id :: "u8 list"
  rp_units :: u64
  rp_commitment :: 'fr

record 'fr claim_record =
  cl_target :: 'fr
  cl_outputs :: "'fr \<times> 'fr"

record 'fr register_key_rotation =
  rk_version :: u64
  rk_public_key :: "'fr point"

record 'fr unreadable_note =
  un_commitment :: 'fr
  un_key_version :: u64

record reconciliation =
  rc_remainder :: uint256
  rc_outflows :: "outflow list"

record 'fr attestation_round =
  rn_batch :: "'fr attestation_batch"
  rn_over_cap :: "'fr list"

record 'fr agent =
  ta_wallet :: "'fr wallet"
  ta_signer :: "u8 list"
  ta_claim_key :: "u8 list"
  ta_register_keys :: "(u64 \<times> feed_secret) list"
  ta_prepared_register_keys :: "(u64 \<times> feed_secret) list"
  ta_unreadable_notes :: "'fr unreadable_note list"
  ta_investors :: "(bytes32 \<times> 'fr investor_record) list"
  ta_register :: "'fr register_entry list"
  ta_max_investors :: "nat option"
  ta_jurisdiction_caps :: "(u8 list \<times> nat) list"
  ta_jurisdictions :: "u8 list \<rightharpoonup> u8 list"
  ta_public_holders :: "address \<rightharpoonup> u8 list"
  ta_padding :: "'fr owner_keys list"
  ta_period_start :: "u64 option"
  ta_not_renewed :: "bytes32 set"
  ta_pending_claims :: "'fr claim_record list"
  ta_claims :: "'fr claim_record list"
  ta_seed_deposit :: "'fr option"
  ta_register_salt_key :: bytes32

definition agent_new ::
    "'fr fund_prims \<Rightarrow> 'fr owner_keys \<Rightarrow> u8 list \<Rightarrow> feed_secret \<Rightarrow> bytes32 \<Rightarrow> 'fr agent" where
  "agent_new X own claim_key tk salt_key =
     (let (signer, ks) = keys_split X own
      in \<lparr>ta_wallet = wallet_new ks, ta_signer = signer, ta_claim_key = claim_key, ta_register_keys = [(0, tk)],
          ta_prepared_register_keys = [], ta_unreadable_notes = [], ta_investors = [], ta_register = [],
          ta_max_investors = None, ta_jurisdiction_caps = [], ta_jurisdictions = Map.empty,
          ta_public_holders = Map.empty, ta_padding = [], ta_period_start = None, ta_not_renewed = {},
          ta_pending_claims = [], ta_claims = [], ta_seed_deposit = None, ta_register_salt_key = salt_key\<rparr>)"

definition agent_owner :: "'fr prims \<Rightarrow> 'fr agent \<Rightarrow> 'fr" where
  "agent_owner E a = wallet_owner E (ta_wallet a)"

definition claim_key_hash :: "'fr prims \<Rightarrow> 'fr fund_prims \<Rightarrow> 'fr agent \<Rightarrow> 'fr" where
  "claim_key_hash E X a = key_hash E (spend_public_key X (ta_claim_key a))"

section \<open>Register keys\<close>

definition register_public_key :: "'fr prims \<Rightarrow> 'fr fund_prims \<Rightarrow> 'fr agent \<Rightarrow> 'fr point" where
  "register_public_key E X a = public_point E X (snd (last (ta_register_keys a)))"

definition next_register_key_version :: "'fr agent \<Rightarrow> u64" where
  "next_register_key_version a = fst (last (ta_register_keys a)) + 1"

definition new_register_key ::
    "'fr prims \<Rightarrow> 'fr fund_prims \<Rightarrow> 'fr agent \<Rightarrow> feed_secret \<Rightarrow> 'fr register_key_rotation \<times> 'fr agent" where
  "new_register_key E X a secret =
     (let version = next_register_key_version a
      in (\<lparr>rk_version = version, rk_public_key = public_point E X secret\<rparr>,
          a\<lparr>ta_prepared_register_keys := ta_prepared_register_keys a @ [(version, secret)]\<rparr>))"

definition commit_register_key ::
    "'fr prims \<Rightarrow> 'fr fund_prims \<Rightarrow> 'fr agent \<Rightarrow> 'fr register_key_rotation \<Rightarrow> (actor_error, unit) result \<times> 'fr agent" where
  "commit_register_key E X a rotation =
     (if rk_version rotation \<noteq> next_register_key_version a then (Inl (StaleRotation (rk_version rotation)), a)
      else
        (case find (\<lambda>(version, tk). version = rk_version rotation \<and> public_point E X tk = rk_public_key rotation)
                (ta_prepared_register_keys a) of
           None \<Rightarrow> (Inl (UnpreparedRotation (rk_version rotation)), a)
         | Some (_, secret) \<Rightarrow>
             (Inr (), a\<lparr>ta_register_keys := bt_insert (rk_version rotation) secret (ta_register_keys a),
                       ta_prepared_register_keys :=
                         filter (\<lambda>(version, _). rk_version rotation < version) (ta_prepared_register_keys a)\<rparr>)))"

section \<open>Owners\<close>

definition record_owner ::
    "'fr prims \<Rightarrow> 'fr agent \<Rightarrow> holder \<Rightarrow> public_spend_key \<Rightarrow> 'fr \<Rightarrow> u8 list \<Rightarrow> 'fr \<times> 'fr agent" where
  "record_owner E a h pk nk vpk =
     (let owner = owner_value E pk nk
      in (owner, a\<lparr>ta_investors := bt_insert (fr_bytes E owner)
             \<lparr>ir_holder = h, ir_pk = pk, ir_nk = nk, ir_vpk = vpk\<rparr> (ta_investors a)\<rparr>))"

definition holder_of :: "'fr prims \<Rightarrow> 'fr agent \<Rightarrow> 'fr \<Rightarrow> holder option" where
  "holder_of E a owner =
     (if owner = agent_owner E a then Some HolderAgent
      else map_option ir_holder (map_of (ta_investors a) (fr_bytes E owner)))"

definition nk_of :: "'fr prims \<Rightarrow> 'fr agent \<Rightarrow> 'fr \<Rightarrow> 'fr option" where
  "nk_of E a owner =
     (if owner = agent_owner E a then Some (wk_nk (wa_keys (ta_wallet a)))
      else map_option ir_nk (map_of (ta_investors a) (fr_bytes E owner)))"

definition stop_renewing :: "'fr prims \<Rightarrow> 'fr agent \<Rightarrow> 'fr \<Rightarrow> (actor_error, unit) result \<times> 'fr agent" where
  "stop_renewing E a owner =
     (if owner = agent_owner E a then (Inl AgentsOwnValue, a)
      else if holder_of E a owner = None then (Inl (UnknownOwner (fr_bytes E owner)), a)
      else (Inr (), a\<lparr>ta_not_renewed := insert (fr_bytes E owner) (ta_not_renewed a)\<rparr>))"

definition verify_investor :: "'fr agent \<Rightarrow> u8 list \<Rightarrow> u8 list \<Rightarrow> (actor_error, unit) result \<times> 'fr agent" where
  "verify_investor a investor_id jurisdiction =
     (case investor_id_new investor_id of
        Inl e \<Rightarrow> (Inl e, a)
      | Inr ident \<Rightarrow> (Inr (), a\<lparr>ta_jurisdictions := (ta_jurisdictions a)(ident \<mapsto> jurisdiction)\<rparr>))"

definition onboard_checks ::
    "'fr prims \<Rightarrow> 'fr fund_prims \<Rightarrow> 'fr agent \<Rightarrow> u8 list \<Rightarrow> 'fr pool_env \<Rightarrow> 'fr registration \<Rightarrow> u8 list \<Rightarrow> 'fr
     \<Rightarrow> (actor_error, holder) result" where
  "onboard_checks E X a investor_id env registration signature nk =
     and_then (investor_id_new investor_id) (\<lambda>ident.
     if ta_jurisdictions a ident = None then Inl (UnverifiedInvestor investor_id)
     else if rgn_chain_id registration \<noteq> en_chain_id env \<or> rgn_pool registration \<noteq> en_pool env
             \<or> rgn_investor_id registration \<noteq> investor_id then Inl BadRegistration
     else if nk = fr_of E 0 \<or> nk_hash E nk \<noteq> rgn_nk_hash registration then Inl BadRegistration
     else and_then (map_err (\<lambda>_. BadRegistration) (registration_verify E X registration signature)) (\<lambda>_.
       let owner = fr_bytes E (owner_value E (rgn_pk registration) nk); h = HolderInvestor ident in
       case map_of (ta_investors a) owner of
         Some rec \<Rightarrow> if ir_holder rec \<noteq> h then Inl (OwnerOfAnotherInvestor owner) else Inr h
       | None \<Rightarrow> Inr h))"

definition onboard ::
    "'fr prims \<Rightarrow> 'fr fund_prims \<Rightarrow> 'fr agent \<Rightarrow> u8 list \<Rightarrow> 'fr pool_env \<Rightarrow> 'fr registration \<Rightarrow> u8 list \<Rightarrow> 'fr
     \<Rightarrow> (actor_error, 'fr) result \<times> 'fr agent" where
  "onboard E X a investor_id env registration signature nk =
     (case onboard_checks E X a investor_id env registration signature nk of
        Inl e \<Rightarrow> (Inl e, a)
      | Inr h \<Rightarrow>
          (let (owner, a) = record_owner E a h (rgn_pk registration) nk (rgn_vpk registration) in (Inr owner, a)))"

definition register_public_holder :: "'fr agent \<Rightarrow> address \<Rightarrow> u8 list \<Rightarrow> (actor_error, unit) result \<times> 'fr agent" where
  "register_public_holder a addr investor_id =
     (case investor_id_new investor_id of
        Inl e \<Rightarrow> (Inl e, a)
      | Inr ident \<Rightarrow>
          if ta_jurisdictions a ident = None then (Inl (UnverifiedInvestor investor_id), a)
          else (Inr (), a\<lparr>ta_public_holders := (ta_public_holders a)(addr \<mapsto> ident)\<rparr>))"

section \<open>Reading the feed\<close>

definition feed_keys :: "'fr agent \<Rightarrow> u64 \<Rightarrow> feed_secret list" where
  "feed_keys a version =
     (case map_of (ta_register_keys a) version of
        Some tk \<Rightarrow> [tk]
      | None \<Rightarrow> map snd (filter (\<lambda>(v, _). v = version) (ta_prepared_register_keys a)))"

fun find_map :: "('a \<Rightarrow> 'b option) \<Rightarrow> 'a list \<Rightarrow> 'b option" where
  "find_map f [] = None"
| "find_map f (x # xs) = (case f x of None \<Rightarrow> find_map f xs | Some y \<Rightarrow> Some y)"

definition open_record ::
    "'fr prims \<Rightarrow> 'fr fund_prims \<Rightarrow> 'fr agent \<Rightarrow> 'fr note_record \<Rightarrow> ('fr fund_note \<times> 'fr lock_opening) option" where
  "open_record E X a rec =
     find_map (\<lambda>tk.
         case feed_open E (feed_decrypt E X tk (nr_feed_r rec) (nr_feed_ct rec) (nr_output rec)) of None \<Rightarrow> None
         | Some (n, terms) \<Rightarrow> if fund_commitment E n = nr_commitment rec then Some (n, terms) else None)
       (feed_keys a (nr_key_version rec))"

definition read_note_record :: "'fr prims \<Rightarrow> 'fr fund_prims \<Rightarrow> 'fr note_record \<Rightarrow> 'fr agent \<Rightarrow> 'fr agent" where
  "read_note_record E X rec a =
     (if list_ex (\<lambda>e. re_commitment e = nr_commitment rec) (ta_register a) then a
      else
        (case open_record E X a rec of
           None \<Rightarrow> a\<lparr>ta_unreadable_notes := ta_unreadable_notes a @
                    [\<lparr>un_commitment = nr_commitment rec, un_key_version = nr_key_version rec\<rparr>]\<rparr>
         | Some (n, opening) \<Rightarrow>
             (let a = a\<lparr>ta_register := ta_register a @
                      [\<lparr>re_note = n, re_opening = opening, re_commitment = nr_commitment rec,
                        re_leaf_index = nr_leaf_index rec, re_holder = holder_of E a (fn_owner n), re_spent = False\<rparr>]\<rparr>
              in if fn_owner n = agent_owner E a
                    \<and> \<not> list_ex (\<lambda>m. on_commitment m = nr_commitment rec) (wa_notes (ta_wallet a))
                 then a\<lparr>ta_wallet := (ta_wallet a)\<lparr>wa_notes := wa_notes (ta_wallet a) @
                        [\<lparr>on_note = n, on_opening = opening, on_commitment = nr_commitment rec,
                          on_leaf_index = nr_leaf_index rec, on_spent = False\<rparr>]\<rparr>\<rparr>
                 else a)))"

definition entry_spent :: "'fr prims \<Rightarrow> 'fr agent \<Rightarrow> 'fr chain_view \<Rightarrow> 'fr register_entry \<Rightarrow> bool" where
  "entry_spent E a view e =
     (case nk_of E a (fn_owner (re_note e)) of None \<Rightarrow> False
      | Some nk \<Rightarrow> fund_nullifier E (re_commitment e) nk \<in> vw_nullifiers view)"

definition claim_mined :: "'fr chain_view \<Rightarrow> 'fr claim_record \<Rightarrow> bool" where
  "claim_mined view c \<longleftrightarrow> list_ex (\<lambda>s. sr_outputs s = [fst (cl_outputs c), snd (cl_outputs c)]) (vw_spends view)"

definition target_spent :: "'fr agent \<Rightarrow> 'fr claim_record \<Rightarrow> bool" where
  "target_spent a c \<longleftrightarrow> list_ex (\<lambda>e. re_commitment e = cl_target c \<and> re_spent e) (ta_register a)"

definition read_feed :: "'fr prims \<Rightarrow> 'fr fund_prims \<Rightarrow> 'fr agent \<Rightarrow> 'fr chain_view \<Rightarrow> 'fr agent" where
  "read_feed E X a view =
     (let a = fold (read_note_record E X) (vw_notes view) (a\<lparr>ta_unreadable_notes := []\<rparr>);
          a = a\<lparr>ta_register := map (\<lambda>e. e\<lparr>re_spent := entry_spent E a view e\<rparr>) (ta_register a)\<rparr>;
          mined = filter (claim_mined view) (ta_pending_claims a);
          still = filter (\<lambda>c. \<not> claim_mined view c \<and> \<not> target_spent a c) (ta_pending_claims a)
      in a\<lparr>ta_claims := ta_claims a @ mined, ta_pending_claims := still, ta_wallet := scan E X (ta_wallet a) view\<rparr>)"

definition live_entry :: "'fr register_entry \<Rightarrow> bool" where
  "live_entry e \<longleftrightarrow> \<not> re_spent e \<and> 0 < fn_units (re_note e)"

definition UNKNOWN_ID :: "u8 list" where "UNKNOWN_ID = ascii ''unknown''"

definition add_position :: "'fr register_entry \<Rightarrow> (u8 list \<times> u64) list \<Rightarrow> (u8 list \<times> u64) list" where
  "add_position e out =
     (let name = (case re_holder e of None \<Rightarrow> UNKNOWN_ID | Some h \<Rightarrow> holder_as_str h);
          before = (case map_of out name of None \<Rightarrow> 0 | Some u \<Rightarrow> u)
      in bt_insert name (before + fn_units (re_note e)) out)"

definition positions :: "'fr agent \<Rightarrow> (u8 list \<times> u64) list" where
  "positions a = fold add_position (filter live_entry (ta_register a)) []"

definition total_units :: "'fr agent \<Rightarrow> u128" where
  "total_units a = sum_list (map (\<lambda>e. ucast (fn_units (re_note e))) (filter (\<lambda>e. \<not> re_spent e) (ta_register a)))"

definition remainder :: "'fr agent \<Rightarrow> uint256 \<Rightarrow> uint256 \<Rightarrow> uint256 option" where
  "remainder a bal m =
     (let withdrawable = sum_list (map (\<lambda>e. ucast (fn_units (re_note e)) * m div ucast MULTIPLIER_SCALE)
            (filter (\<lambda>e. \<not> re_spent e) (ta_register a)))
      in checked_sub bal withdrawable)"

section \<open>Caps\<close>

definition public_ids :: "'fr agent \<Rightarrow> address list \<Rightarrow> (actor_error, u8 list list) result" where
  "public_ids a holding_publicly =
     try_map (\<lambda>addr. ok_or (UnknownPublicHolder addr) (ta_public_holders a addr)) holding_publicly"

text \<open>The keys of the map of investors are encodings of owner values, which decode again.\<close>

definition owner_of_key :: "'fr prims \<Rightarrow> bytes32 \<Rightarrow> 'fr" where
  "owner_of_key E k = from_be_bytes_mod_order E k"

definition attested_ids :: "'fr prims \<Rightarrow> 'fr agent \<Rightarrow> 'fr chain_view \<Rightarrow> 'fr pool_env \<Rightarrow> u8 list set" where
  "attested_ids E a view env =
     set (List.map_filter (\<lambda>(k, rec).
            case holder_investor (ir_holder rec) of None \<Rightarrow> None
            | Some ident \<Rightarrow>
                if attestation_of view (owner_of_key E k) (en_epoch env) (en_min_accepted_generation env) \<noteq> None
                then Some ident else None) (ta_investors a))"

definition holding_ids :: "'fr agent \<Rightarrow> u8 list set" where
  "holding_ids a =
     set (List.map_filter (\<lambda>e. Option.bind (re_holder e) holder_investor) (filter live_entry (ta_register a)))"

definition counted_investors ::
    "'fr prims \<Rightarrow> 'fr agent \<Rightarrow> 'fr chain_view \<Rightarrow> 'fr pool_env \<Rightarrow> address list \<Rightarrow> (actor_error, u8 list set) result" where
  "counted_investors E a view env holding_publicly =
     and_then (public_ids a holding_publicly) (\<lambda>ids.
     Inr (attested_ids E a view env \<union> holding_ids a \<union> set ids))"

definition jurisdiction_count :: "'fr agent \<Rightarrow> u8 list \<Rightarrow> u8 list set \<Rightarrow> nat" where
  "jurisdiction_count a j ids = card (Set.filter (\<lambda>ident. ta_jurisdictions a ident = Some j) ids)"

definition over_jurisdiction :: "'fr agent \<Rightarrow> u8 list set \<Rightarrow> u8 list set \<Rightarrow> u8 list \<times> nat \<Rightarrow> bool" where
  "over_jurisdiction a before counted = (\<lambda>(j, cap).
     max (jurisdiction_count a j before) cap < jurisdiction_count a j counted)"

definition cap_refusal :: "'fr agent \<Rightarrow> u8 list set \<Rightarrow> u8 list set \<Rightarrow> actor_error option" where
  "cap_refusal a before counted =
     (let over_all = (case ta_max_investors a of Some cap \<Rightarrow> max (card before) cap < card counted | None \<Rightarrow> False) in
      if over_all then map_option CapReached (ta_max_investors a)
      else map_option (\<lambda>(j, cap). JurisdictionCapReached j cap)
             (find (over_jurisdiction a before counted) (ta_jurisdiction_caps a)))"

definition batch_ids :: "'fr prims \<Rightarrow> 'fr agent \<Rightarrow> 'fr list \<Rightarrow> (actor_error, u8 list list) result" where
  "batch_ids E a owners =
     and_then (try_map (\<lambda>owner. ok_or (UnknownOwner (fr_bytes E owner)) (holder_of E a owner)) owners) (\<lambda>hs.
     Inr (List.map_filter holder_investor hs))"

definition check_cap ::
    "'fr prims \<Rightarrow> 'fr fund_prims \<Rightarrow> 'fr agent \<Rightarrow> 'fr chain_view \<Rightarrow> 'fr pool_env \<Rightarrow> 'fr list \<Rightarrow> address list
     \<Rightarrow> (actor_error, unit) result \<times> 'fr agent" where
  "check_cap E X a view env owners holding_publicly =
     (let a = read_feed E X a view in
      (and_then (counted_investors E a view env holding_publicly) (\<lambda>before.
       and_then (batch_ids E a owners) (\<lambda>ids.
       case cap_refusal a before (before \<union> set ids) of None \<Rightarrow> Inr () | Some e \<Rightarrow> Inl e)), a))"

section \<open>Attestation batches\<close>

definition period_expiry :: "u64 \<Rightarrow> u64 \<Rightarrow> u64" where
  "period_expiry start epoch =
     (let period = (epoch + ATTESTATION_OVERLAP - start) div ATTESTATION_PERIOD
      in (start + (period + 1) * ATTESTATION_PERIOD) * EPOCH_SECONDS)"

definition attestation_end :: "'fr chain_view \<Rightarrow> 'fr pool_env \<Rightarrow> 'fr \<Rightarrow> u64 option" where
  "attestation_end view env owner =
     (case map ar_expires_at (filter (\<lambda>r. ar_owner r = owner \<and> en_min_accepted_generation env \<le> ar_generation r)
             (vw_attestation_records view)) of
        [] \<Rightarrow> None
      | x # xs \<Rightarrow> Some (fold max xs x))"

definition due_owners :: "'fr prims \<Rightarrow> 'fr agent \<Rightarrow> 'fr chain_view \<Rightarrow> 'fr pool_env \<Rightarrow> u64 \<Rightarrow> 'fr list" where
  "due_owners E a view env expires_at =
     filter (\<lambda>owner. case attestation_end view env owner of None \<Rightarrow> True | Some end \<Rightarrow> end < expires_at)
       (filter (\<lambda>owner. fr_bytes E owner \<notin> ta_not_renewed a)
         (agent_owner E a # map (\<lambda>(k, _). owner_of_key E k) (ta_investors a)))"

record 'fr admission =
  ad_counted :: "u8 list set"
  ad_owners :: "'fr list"
  ad_over_cap :: "'fr list"

definition admit ::
    "'fr prims \<Rightarrow> 'fr agent \<Rightarrow> u8 list set \<Rightarrow> 'fr admission \<Rightarrow> 'fr \<Rightarrow> (actor_error, 'fr admission) result" where
  "admit E a before s owner =
     and_then (ok_or (UnknownOwner (fr_bytes E owner)) (holder_of E a owner)) (\<lambda>h.
     case holder_investor h of
       None \<Rightarrow> Inr (s\<lparr>ad_owners := ad_owners s @ [owner]\<rparr>)
     | Some ident \<Rightarrow>
         if ident \<in> ad_counted s then Inr (s\<lparr>ad_owners := ad_owners s @ [owner]\<rparr>)
         else
           (let with_id = insert ident (ad_counted s) in
            if cap_refusal a before with_id \<noteq> None then Inr (s\<lparr>ad_over_cap := ad_over_cap s @ [owner]\<rparr>)
            else Inr (s\<lparr>ad_counted := with_id, ad_owners := ad_owners s @ [owner]\<rparr>)))"

definition next_multiple_of :: "nat \<Rightarrow> nat \<Rightarrow> nat" where
  "next_multiple_of n k = (n + k - 1) div k * k"

fun fresh_padding :: "'fr prims \<Rightarrow> 'fr fund_prims \<Rightarrow> 'fr owner_keys list \<Rightarrow> 'fr agent \<Rightarrow> 'fr list \<times> 'fr agent" where
  "fresh_padding E X [] a = ([], a)"
| "fresh_padding E X (ks # rest) a =
     (let (owner, a) = record_owner E a HolderPadding (spend_public_key X (ok_spend ks)) (ok_nk ks)
            (view_public X (ok_view ks));
          a = a\<lparr>ta_padding := ta_padding a @ [ks]\<rparr>;
          (owners, a) = fresh_padding E X rest a
      in (owner # owners, a))"

fun chunks :: "nat \<Rightarrow> 'a list \<Rightarrow> 'a list list" where
  "chunks n xs = (if xs = [] \<or> n = 0 then [] else take n xs # chunks n (drop n xs))"

declare chunks.simps [simp del]

text \<open>The keys drawn for padding are a function of their number, and the shuffle is an argument.\<close>

definition build_attestation_round ::
    "'fr prims \<Rightarrow> 'fr fund_prims \<Rightarrow> (nat \<Rightarrow> 'fr owner_keys list) \<Rightarrow> ('fr list \<Rightarrow> 'fr list) \<Rightarrow> 'fr agent \<Rightarrow> 'fr chain_view
     \<Rightarrow> 'fr pool_env \<Rightarrow> address list \<Rightarrow> u64 \<Rightarrow> (actor_error, 'fr attestation_round) result \<times> 'fr agent" where
  "build_attestation_round E X draw shuffle a view env holding_publicly generation =
     (let a = read_feed E X a view;
          start = (case ta_period_start a of None \<Rightarrow> en_epoch env | Some s \<Rightarrow> s);
          a = a\<lparr>ta_period_start := Some start\<rparr>;
          expires_at = period_expiry start (en_epoch env);
          due = due_owners E a view env expires_at
      in case and_then (counted_investors E a view env holding_publicly) (\<lambda>before.
                try_fold (admit E a before) \<lparr>ad_counted = before, ad_owners = [], ad_over_cap = []\<rparr> due) of
           Inl e \<Rightarrow> (Inl e, a)
         | Inr s \<Rightarrow>
             (let n = length (ad_owners s);
                  (pads, a) = (if n = 0 then ([], a) else fresh_padding E X (draw (next_multiple_of n ATTESTATION_PART - n)) a)
              in (Inr \<lparr>rn_batch = \<lparr>ab_parts = chunks ATTESTATION_PART (shuffle (ad_owners s @ pads)),
                         ab_expires_at = expires_at, ab_generation = generation\<rparr>,
                      rn_over_cap = ad_over_cap s\<rparr>, a)))"

section \<open>Checkpoints and redemptions\<close>

definition checkpoint_salt :: "'fr prims \<Rightarrow> 'fr agent \<Rightarrow> u64 \<Rightarrow> bytes32" where
  "checkpoint_salt E a epoch = keccak256 E (ta_register_salt_key a @ u64_to_be epoch)"

definition register_hash :: "'fr prims \<Rightarrow> 'fr agent \<Rightarrow> u64 \<Rightarrow> bytes32" where
  "register_hash E a epoch =
     keccak256 E (checkpoint_salt E a epoch
       @ concat (map (\<lambda>(name, units). keccak256 E name @ u64_to_be units) (positions a)))"

definition is_claim :: "'fr agent \<Rightarrow> 'fr spend_record \<Rightarrow> bool" where
  "is_claim a s \<longleftrightarrow>
     list_ex (\<lambda>c. sr_outputs s = [fst (cl_outputs c), snd (cl_outputs c)]) (ta_claims a @ ta_pending_claims a)"

definition redeemer :: "'fr prims \<Rightarrow> 'fr agent \<Rightarrow> 'fr spend_record \<Rightarrow> u8 list option" where
  "redeemer E a s =
     find_map (\<lambda>e. Option.bind (Option.bind (re_holder e) holder_investor) (\<lambda>ident.
         Option.bind (nk_of E a (fn_owner (re_note e))) (\<lambda>nk.
         if fund_nullifier E (re_commitment e) nk \<in> set (sr_nullifiers s) then Some ident else None))) (ta_register a)"

definition redeemed_output :: "'fr prims \<Rightarrow> 'fr agent \<Rightarrow> 'fr chain_view \<Rightarrow> u8 list \<Rightarrow> 'fr \<Rightarrow> 'fr redemption option" where
  "redeemed_output E a view ident c =
     (if fund_nullifier E c (wk_nk (wa_keys (ta_wallet a))) \<in> vw_nullifiers view then None
      else map_option (\<lambda>e. \<lparr>rp_investor_id = ident, rp_units = fn_units (re_note e), rp_commitment = c\<rparr>)
             (find (\<lambda>e. re_commitment e = c \<and> fn_owner (re_note e) = agent_owner E a \<and> 0 < fn_units (re_note e))
               (ta_register a)))"

definition redemptions :: "'fr prims \<Rightarrow> 'fr agent \<Rightarrow> 'fr chain_view \<Rightarrow> 'fr redemption list" where
  "redemptions E a view =
     concat (map (\<lambda>s. case redeemer E a s of None \<Rightarrow> []
                 | Some ident \<Rightarrow> List.map_filter (redeemed_output E a view ident) (sr_outputs s))
       (filter (\<lambda>s. \<not> is_claim a s) (vw_spends view)))"

definition unexplained_outflows :: "'fr chain_view \<Rightarrow> outflow list" where
  "unexplained_outflows view = filter (\<lambda>x. \<not> of_by_withdrawal x) (vw_outflows view)"

section \<open>Claims and the seed\<close>

definition is_seed :: "'fr agent \<Rightarrow> 'fr \<Rightarrow> bool" where
  "is_seed a commitment =
     (case ta_seed_deposit a of None \<Rightarrow> False
      | Some deposit \<Rightarrow>
          commitment = deposit
          \<or> list_ex (\<lambda>c. cl_target c = deposit \<and> fst (cl_outputs c) = commitment) (ta_pending_claims a @ ta_claims a))"

definition claim_outputs :: "'fr prims \<Rightarrow> 'fr register_entry \<Rightarrow> u8 list \<Rightarrow> 'fr claim_action \<Rightarrow> 'fr note_output \<times> 'fr note_output" where
  "claim_outputs E entry vpk action =
     (let same_owner = (\<lambda>units opening. \<lparr>out_owner = fn_owner (re_note entry), out_units = units, out_opening = opening,
            out_vpk = vpk\<rparr>);
          units = fn_units (re_note entry) in
      case action of
        Freeze \<Rightarrow> (same_owner units (lock_freeze E), same_owner 0 (lock_none E))
      | Hold until \<Rightarrow> (same_owner units (lock_hold E until), same_owner 0 (lock_none E))
      | Release \<Rightarrow> (same_owner units (lock_none E), same_owner 0 (lock_none E))
      | Seize to to_vpk \<Rightarrow>
          (\<lparr>out_owner = to, out_units = units, out_opening = lock_none E, out_vpk = to_vpk\<rparr>, same_owner 0 (lock_none E)))"

definition claim_keys :: "'fr prims \<Rightarrow> 'fr fund_prims \<Rightarrow> 'fr agent \<Rightarrow> 'fr \<Rightarrow> (actor_error, 'fr investor_record) result" where
  "claim_keys E X a owner =
     (if owner = agent_owner E a
      then Inr \<lparr>ir_holder = HolderAgent, ir_pk = wk_pk (wa_keys (ta_wallet a)), ir_nk = wk_nk (wa_keys (ta_wallet a)),
                ir_vpk = wallet_vpk X (ta_wallet a)\<rparr>
      else ok_or (UnknownOwner (fr_bytes E owner)) (map_of (ta_investors a) (fr_bytes E owner)))"

definition build_claim ::
    "'fr prims \<Rightarrow> 'fr fund_prims \<Rightarrow> 'fr draws \<Rightarrow> 'fr agent \<Rightarrow> 'fr chain_view \<Rightarrow> 'fr pool_env \<Rightarrow> 'fr \<Rightarrow> 'fr claim_action
     \<Rightarrow> (actor_error, 'fr built_transfer) result \<times> 'fr agent" where
  "build_claim E X rnd a view env target action =
     (case and_then (ok_or (UnknownNote (fr_bytes E target))
               (find (\<lambda>e. re_commitment e = target \<and> \<not> re_spent e) (ta_register a))) (\<lambda>entry.
           and_then (claim_keys E X a (fn_owner (re_note entry))) (\<lambda>rec.
           build_transfer E X rnd
             \<lparr>ts_claim = True, ts_owner_key = ir_pk rec, ts_nk = ir_nk rec,
              ts_claim_key = spend_public_key X (ta_claim_key a),
              ts_inputs = [\<lparr>on_note = re_note entry, on_opening = re_opening entry, on_commitment = re_commitment entry,
                            on_leaf_index = re_leaf_index entry, on_spent = False\<rparr>],
              ts_outputs = claim_outputs E entry (ir_vpk rec) action\<rparr>
             (sign_plan E X (ta_claim_key a)) view env)) of
        Inl e \<Rightarrow> (Inl e, a)
      | Inr built \<Rightarrow>
          (Inr built, a\<lparr>ta_pending_claims := ta_pending_claims a @
             [\<lparr>cl_target = target, cl_outputs = fw_commitments_out (bt_witness built)\<rparr>]\<rparr>))"

definition claim ::
    "'fr prims \<Rightarrow> 'fr fund_prims \<Rightarrow> 'fr draws \<Rightarrow> 'fr agent \<Rightarrow> 'fr chain_view \<Rightarrow> 'fr pool_env \<Rightarrow> 'fr \<Rightarrow> 'fr claim_action
     \<Rightarrow> (actor_error, 'fr built_transfer) result \<times> 'fr agent" where
  "claim E X rnd a view env target action =
     (if is_seed a target then (Inl (SeedNote (fr_bytes E target)), a)
      else build_claim E X rnd a view env target action)"

definition seed_deposit ::
    "'fr prims \<Rightarrow> 'fr fund_prims \<Rightarrow> 'fr draws \<Rightarrow> 'fr agent \<Rightarrow> 'fr chain_view \<Rightarrow> 'fr pool_env \<Rightarrow> u64 \<Rightarrow> address
     \<Rightarrow> (actor_error, 'fr deposit_witness \<times> u8 list) result \<times> 'fr agent" where
  "seed_deposit E X rnd a view env units funder =
     (if ta_seed_deposit a \<noteq> None then (Inl SeedExists, a)
      else
        (case find (\<lambda>r. Option.bind (holder_of E a (ar_owner r)) holder_investor \<noteq> None) (vw_attestation_records view) of
           Some investor \<Rightarrow> (Inl (InvestorBeforeSeed (fr_bytes E (ar_owner investor))), a)
         | None \<Rightarrow>
             (case wallet_deposit E X rnd (ta_wallet a) (sign_plan E X (ta_signer a)) view env units funder of
                Inl e \<Rightarrow> (Inl e, a)
              | Inr (witness, payload) \<Rightarrow> (Inr (witness, payload), a\<lparr>ta_seed_deposit := Some (dw_commitment witness)\<rparr>))))"

definition freeze_seed ::
    "'fr prims \<Rightarrow> 'fr fund_prims \<Rightarrow> 'fr draws \<Rightarrow> 'fr agent \<Rightarrow> 'fr chain_view \<Rightarrow> 'fr pool_env
     \<Rightarrow> (actor_error, 'fr built_transfer) result \<times> 'fr agent" where
  "freeze_seed E X rnd a view env =
     (case ta_seed_deposit a of None \<Rightarrow> (Inl NoSeed, a) | Some deposit \<Rightarrow> build_claim E X rnd a view env deposit Freeze)"

section \<open>Hand-outs\<close>

record 'fr hand_out_order =
  ho_owner :: 'fr
  ho_vpk :: "u8 list"
  ho_units :: u64
  ho_hold_until :: "u64 option"

datatype hand_out_source = Aggregate | OutputOf nat nat

record 'fr planned_hand_out =
  ph_source :: hand_out_source
  ph_outputs :: "'fr note_output \<times> 'fr note_output"

definition order_output :: "'fr prims \<Rightarrow> 'fr hand_out_order \<Rightarrow> 'fr note_output" where
  "order_output E ord =
     \<lparr>out_owner = ho_owner ord, out_units = ho_units ord,
      out_opening = (case ho_hold_until ord of None \<Rightarrow> lock_none E | Some epoch \<Rightarrow> lock_hold E epoch), out_vpk = ho_vpk ord\<rparr>"

definition agents_output :: "'fr prims \<Rightarrow> 'fr fund_prims \<Rightarrow> 'fr agent \<Rightarrow> u64 \<Rightarrow> 'fr note_output" where
  "agents_output E X a units =
     \<lparr>out_owner = agent_owner E a, out_units = units, out_opening = lock_none E, out_vpk = wallet_vpk X (ta_wallet a)\<rparr>"

definition order_units :: "'fr hand_out_order list \<Rightarrow> u64" where
  "order_units orders = sum_list (map ho_units orders)"

type_synonym 'fr hand_out_queue = "(hand_out_source \<times> 'fr hand_out_order list) list"

definition split_part ::
    "'fr prims \<Rightarrow> 'fr fund_prims \<Rightarrow> 'fr agent \<Rightarrow> nat \<Rightarrow> nat \<Rightarrow> 'fr hand_out_order list \<Rightarrow> 'fr note_output \<times> 'fr hand_out_queue" where
  "split_part E X a transfer index part =
     (case part of
        [single] \<Rightarrow> (order_output E single, [])
      | _ \<Rightarrow> (agents_output E X a (order_units part), [(OutputOf transfer index, part)]))"

definition hand_out_node ::
    "'fr prims \<Rightarrow> 'fr fund_prims \<Rightarrow> 'fr agent \<Rightarrow> nat \<Rightarrow> 'fr hand_out_order list
     \<Rightarrow> ('fr note_output \<times> 'fr note_output) \<times> 'fr hand_out_queue" where
  "hand_out_node E X a transfer grp =
     (case grp of
        [single] \<Rightarrow> ((order_output E single, agents_output E X a 0), [])
      | _ \<Rightarrow>
          (let half = length grp div 2;
               (o0, q0) = split_part E X a transfer 0 (take half grp);
               (o1, q1) = split_part E X a transfer 1 (drop half grp)
           in ((o0, o1), q0 @ q1)))"

partial_function (option) hand_out_loop ::
    "'fr prims \<Rightarrow> 'fr fund_prims \<Rightarrow> 'fr agent \<Rightarrow> 'fr planned_hand_out list \<Rightarrow> 'fr hand_out_queue
     \<Rightarrow> 'fr planned_hand_out list option" where
  "hand_out_loop E X a plan queue =
     (case queue of
        [] \<Rightarrow> Some plan
      | (source, grp) # rest \<Rightarrow>
          (let (outputs, later) = hand_out_node E X a (length plan) grp
           in hand_out_loop E X a (plan @ [\<lparr>ph_source = source, ph_outputs = outputs\<rparr>]) (rest @ later)))"

definition plan_hand_out ::
    "'fr prims \<Rightarrow> 'fr fund_prims \<Rightarrow> 'fr agent \<Rightarrow> 'fr hand_out_order list \<Rightarrow> 'fr planned_hand_out list option" where
  "plan_hand_out E X a orders = hand_out_loop E X a [] (if orders = [] then [] else [(Aggregate, orders)])"

definition hand_out_transfer ::
    "'fr prims \<Rightarrow> 'fr fund_prims \<Rightarrow> 'fr draws \<Rightarrow> 'fr agent \<Rightarrow> 'fr chain_view \<Rightarrow> 'fr pool_env \<Rightarrow> 'fr owned_note
     \<Rightarrow> 'fr note_output \<times> 'fr note_output \<Rightarrow> (actor_error, 'fr built_transfer) result" where
  "hand_out_transfer E X rnd a view env source outputs =
     (if fn_owner (on_note source) \<noteq> agent_owner E a then Inl (UnknownNote (fr_bytes E (on_commitment source)))
      else if is_seed a (on_commitment source) then Inl (SeedNote (fr_bytes E (on_commitment source)))
      else if fn_lock (on_note source) \<noteq> fr_of E 0 then Inl (LockedNote (fr_bytes E (on_commitment source)))
      else if list_ex (\<lambda>r. rp_commitment r = on_commitment source) (redemptions E a view)
      then Inl (PendingRedemption (fr_bytes E (on_commitment source)))
      else
        (let claim = (out_opening (fst outputs) \<noteq> lock_none E \<or> out_opening (snd outputs) \<noteq> lock_none E);
             signer = (if claim then sign_plan E X (ta_claim_key a) else sign_plan E X (ta_signer a))
         in build_transfer E X rnd
              \<lparr>ts_claim = claim, ts_owner_key = wk_pk (wa_keys (ta_wallet a)), ts_nk = wk_nk (wa_keys (ta_wallet a)),
               ts_claim_key = spend_public_key X (ta_claim_key a), ts_inputs = [source], ts_outputs = outputs\<rparr>
              signer view env))"

section \<open>Reconciliation\<close>

definition reconcile ::
    "'fr prims \<Rightarrow> 'fr fund_prims \<Rightarrow> 'fr agent \<Rightarrow> 'fr chain_view \<Rightarrow> pool_totals \<Rightarrow> (actor_error, reconciliation) result \<times> 'fr agent" where
  "reconcile E X a view pool =
     (let a = read_feed E X a view in
      (if ta_unreadable_notes a \<noteq> [] then Inl (UnreadableNotes (length (ta_unreadable_notes a)))
       else if total_units a \<noteq> pt_units pool then Inl (RegisterMismatch (total_units a) (pt_units pool))
       else and_then (ok_or SharesShort (remainder a (pt_balance pool) (pt_multiplier pool))) (\<lambda>r.
         Inr \<lparr>rc_remainder = r, rc_outflows = unexplained_outflows view\<rparr>), a))"

end
