(* ===== verification/Fund_Submit.thy ===== *)
theory Fund_Submit
  imports Fund_Wallet
begin

text \<open>
  Proving and submitting: the proving port (\<open>ports/prover.rs\<close>) and its deterministic mock
  (\<open>adapters/mock_prover.rs\<close>), the submission a relayer receives (\<open>chain.rs\<close>) and the client that
  proves an operation into one (\<open>client.rs\<close>). A prover is the pair of functions it answers with; the
  locale \<open>circuit_prover\<close> is the contract of the port, and the mock meets it. The task that proves
  on a blocking thread is the call itself.

  The second half shows what a posted transfer carries: the event the pool emits of a submission is
  read back to the note records its builder meant, and a recipient's payload decrypts.
\<close>

section \<open>The proving port\<close>

datatype circuit = CircuitDeposit | CircuitTransfer | CircuitWithdraw

datatype 'fr proof_request =
    RequestDeposit "'fr deposit_witness"
  | RequestTransfer "'fr fund_transfer_witness"
  | RequestWithdraw "'fr withdraw_witness"

definition request_circuit :: "'fr proof_request \<Rightarrow> circuit" where
  "request_circuit r =
     (case r of RequestDeposit _ \<Rightarrow> CircuitDeposit | RequestTransfer _ \<Rightarrow> CircuitTransfer
      | RequestWithdraw _ \<Rightarrow> CircuitWithdraw)"

definition request_public_inputs :: "'fr prims \<Rightarrow> 'fr proof_request \<Rightarrow> bytes32 list" where
  "request_public_inputs E r =
     (case r of RequestDeposit w \<Rightarrow> deposit_public_inputs E w | RequestTransfer w \<Rightarrow> transfer_public_inputs E w
      | RequestWithdraw w \<Rightarrow> withdraw_public_inputs E w)"

record circuit_proof =
  cp_proof :: "u8 list"
  cp_public_inputs :: "bytes32 list"

datatype fund_prover_error =
    MalformedProof nat nat
  | Unsatisfied string string
  | PathTooLong nat nat
  | Backend

type_synonym 'fr prove_fun = "'fr proof_request \<Rightarrow> (fund_prover_error, circuit_proof) result"
type_synonym verify_fun = "circuit \<Rightarrow> circuit_proof \<Rightarrow> (fund_prover_error, bool) result"

section \<open>The mock prover\<close>

definition MOCK_PROOF_LEN :: nat where "MOCK_PROOF_LEN = 32"

definition circuit_tag :: "circuit \<Rightarrow> u8" where
  "circuit_tag c = (case c of CircuitDeposit \<Rightarrow> 0 | CircuitTransfer \<Rightarrow> 1 | CircuitWithdraw \<Rightarrow> 2)"

definition mock_proof_bytes :: "'fr prims \<Rightarrow> circuit \<Rightarrow> bytes32 list \<Rightarrow> u8 list" where
  "mock_proof_bytes E c public_inputs =
     keccak256 E (ascii ''shielded-notes mock proof'' @ [circuit_tag c] @ concat public_inputs)"

definition mock_prove :: "'fr prims \<Rightarrow> 'fr prove_fun" where
  "mock_prove E request =
     (let public_inputs = request_public_inputs E request in
      Inr \<lparr>cp_proof = mock_proof_bytes E (request_circuit request) public_inputs, cp_public_inputs = public_inputs\<rparr>)"

definition mock_verify :: "'fr prims \<Rightarrow> verify_fun" where
  "mock_verify E c p =
     (if length (cp_proof p) \<noteq> MOCK_PROOF_LEN then Inl (MalformedProof MOCK_PROOF_LEN (length (cp_proof p)))
      else Inr (cp_proof p = mock_proof_bytes E c (cp_public_inputs p)))"

section \<open>Submissions\<close>

record deposit_params =
  dp_proof :: "u8 list"
  dp_commitment :: bytes32
  dp_units :: u64
  dp_attestation_root :: bytes32
  dp_epoch :: uint256
  dp_feed_r :: "uint256 \<times> uint256"
  dp_feed_ct :: "uint256 list"
  dp_recipient_payload :: "u8 list"

record transfer_params =
  tp_proof :: "u8 list"
  tp_nullifier0 :: bytes32
  tp_nullifier1 :: bytes32
  tp_commitment_out0 :: bytes32
  tp_commitment_out1 :: bytes32
  tp_commitment_root :: bytes32
  tp_attestation_root :: bytes32
  tp_epoch :: uint256
  tp_feed_r :: "uint256 \<times> uint256"
  tp_feed_ct :: "uint256 list"
  tp_recipient_payload :: "u8 list"

record withdraw_params =
  wp_proof :: "u8 list"
  wp_nullifier :: bytes32
  wp_units :: u64
  wp_recipient :: address
  wp_commitment_root :: bytes32
  wp_attestation_root :: bytes32
  wp_epoch :: uint256

datatype fund_submission =
    SubmitDeposit deposit_params
  | SubmitTransfer transfer_params
  | SubmitWithdraw withdraw_params

definition checked_public_inputs :: "circuit_proof \<Rightarrow> bytes32 list \<Rightarrow> bool" where
  "checked_public_inputs p expected \<longleftrightarrow>
     length expected \<le> length (cp_public_inputs p) \<and> take (length expected) (cp_public_inputs p) = expected"

definition feed_r_words :: "'fr prims \<Rightarrow> 'fr point \<Rightarrow> uint256 \<times> uint256" where
  "feed_r_words E p = (u256_of_fr E (pt_x p), u256_of_fr E (pt_y p))"

text \<open>\<open>None\<close> is the failed assertion that the proof's public inputs are the witness's.\<close>

definition submission_deposit ::
    "'fr prims \<Rightarrow> 'fr deposit_witness \<Rightarrow> circuit_proof \<Rightarrow> u8 list \<Rightarrow> fund_submission option" where
  "submission_deposit E w p payload =
     (if \<not> checked_public_inputs p (deposit_public_inputs E w) then None
      else Some (SubmitDeposit
        \<lparr>dp_proof = cp_proof p, dp_commitment = b256_of_fr E (dw_commitment w), dp_units = dw_units w,
         dp_attestation_root = b256_of_fr E (dw_attestation_root w), dp_epoch = ucast (dw_epoch w),
         dp_feed_r = feed_r_words E (dw_feed_r w), dp_feed_ct = map (u256_of_fr E) (dw_feed_ct w),
         dp_recipient_payload = payload\<rparr>))"

definition submission_transfer ::
    "'fr prims \<Rightarrow> 'fr fund_transfer_witness \<Rightarrow> circuit_proof \<Rightarrow> u8 list \<Rightarrow> fund_submission option" where
  "submission_transfer E w p payload =
     (if \<not> checked_public_inputs p (transfer_public_inputs E w) then None
      else Some (SubmitTransfer
        \<lparr>tp_proof = cp_proof p, tp_nullifier0 = b256_of_fr E (fst (fw_nullifiers w)),
         tp_nullifier1 = b256_of_fr E (snd (fw_nullifiers w)), tp_commitment_out0 = b256_of_fr E (fst (fw_commitments_out w)),
         tp_commitment_out1 = b256_of_fr E (snd (fw_commitments_out w)),
         tp_commitment_root = b256_of_fr E (fw_commitment_root w), tp_attestation_root = b256_of_fr E (fw_attestation_root w),
         tp_epoch = ucast (fw_epoch w), tp_feed_r = feed_r_words E (fw_feed_r w),
         tp_feed_ct = map (u256_of_fr E) (fw_feed_ct w), tp_recipient_payload = payload\<rparr>))"

definition submission_withdraw :: "'fr prims \<Rightarrow> 'fr withdraw_witness \<Rightarrow> circuit_proof \<Rightarrow> fund_submission option" where
  "submission_withdraw E w p =
     (if \<not> checked_public_inputs p (withdraw_public_inputs E w) then None
      else Some (SubmitWithdraw
        \<lparr>wp_proof = cp_proof p, wp_nullifier = b256_of_fr E (ww_nullifier w), wp_units = ww_units w,
         wp_recipient = ww_recipient w, wp_commitment_root = b256_of_fr E (ww_commitment_root w),
         wp_attestation_root = b256_of_fr E (ww_attestation_root w), wp_epoch = ucast (ww_epoch w)\<rparr>))"

section \<open>The client\<close>

definition prove_deposit ::
    "'fr prims \<Rightarrow> 'fr prove_fun \<Rightarrow> 'fr deposit_witness \<Rightarrow> u8 list \<Rightarrow> (fund_prover_error, fund_submission option) result" where
  "prove_deposit E prove w payload =
     and_then (prove (RequestDeposit w)) (\<lambda>p. Inr (submission_deposit E w p payload))"

definition prove_transfer ::
    "'fr prims \<Rightarrow> 'fr prove_fun \<Rightarrow> 'fr built_transfer \<Rightarrow> (fund_prover_error, fund_submission option) result" where
  "prove_transfer E prove built =
     and_then (prove (RequestTransfer (bt_witness built))) (\<lambda>p.
     Inr (submission_transfer E (bt_witness built) p (bt_payload built)))"

definition prove_withdraw ::
    "'fr prims \<Rightarrow> 'fr prove_fun \<Rightarrow> 'fr withdraw_witness \<Rightarrow> (fund_prover_error, fund_submission option) result" where
  "prove_withdraw E prove w = and_then (prove (RequestWithdraw w)) (\<lambda>p. Inr (submission_withdraw E w p))"

section \<open>The contract of the port\<close>

locale circuit_prover =
  fixes E :: "'fr prims"
    and prove :: "'fr prove_fun"
    and verify :: verify_fun
  assumes prove_inputs: "prove r = Inr p \<Longrightarrow> checked_public_inputs p (request_public_inputs E r)"
    and prove_verifies: "digest_laws E \<Longrightarrow> prove r = Inr p \<Longrightarrow> verify (request_circuit r) p = Inr True"
begin

text \<open>A client of a conforming prover never fails the assertion, and what it submits verifies.\<close>

lemma transfer_submitted:
  assumes "digest_laws E" and "prove_transfer E prove built = Inr s"
  obtains p where "submission_transfer E (bt_witness built) p (bt_payload built) = s" and "s \<noteq> None"
    and "verify CircuitTransfer p = Inr True"
proof -
  from assms(2) obtain p where p: "prove (RequestTransfer (bt_witness built)) = Inr p"
    and s: "s = submission_transfer E (bt_witness built) p (bt_payload built)"
    by (auto simp: prove_transfer_def and_then_eq_Inr)
  have "s \<noteq> None" using prove_inputs [OF p] by (simp add: s submission_transfer_def request_public_inputs_def)
  with s prove_verifies [OF assms(1) p] show thesis using that by (simp add: request_circuit_def)
qed

end

interpretation mock: circuit_prover E "mock_prove E" "mock_verify E" for E
proof
  fix r p assume "mock_prove E r = Inr p"
  then have p: "p = \<lparr>cp_proof = mock_proof_bytes E (request_circuit r) (request_public_inputs E r),
      cp_public_inputs = request_public_inputs E r\<rparr>" by (simp add: mock_prove_def Let_def)
  then show "checked_public_inputs p (request_public_inputs E r)" by (simp add: checked_public_inputs_def)
  show "mock_verify E (request_circuit r) p = Inr True" if "digest_laws E"
    using that by (simp add: p mock_verify_def mock_proof_bytes_def MOCK_PROOF_LEN_def digest_laws_def)
qed

section \<open>Scalars on the wire\<close>

lemma fr_try_from_bytes [simp]: "field_laws E \<Longrightarrow> fr_try_from E (fr_bytes E x) = Inr x"
proof -
  assume F: "field_laws E"
  then have "be_nat (fr_bytes E x) = be_nat (fr_bytes E x) mod fr_modulus E"
    unfolding field_laws_def fr_bytes_def by metis
  moreover have "0 < fr_modulus E"
    using F less_le_trans [of 0 "2 ^ 248" "fr_modulus E"] by (simp add: field_laws_def)
  ultimately have "be_nat (fr_bytes E x) < fr_modulus E" using mod_less_divisor [of "fr_modulus E"] by metis
  then show ?thesis using F by (simp add: fr_try_from_def Let_def) (simp add: fr_bytes_def field_laws_def)
qed

lemma fr_of_b256_of [simp]: "field_laws E \<Longrightarrow> fr_of_b256 E (b256_of_fr E x) = Inr x"
  by (simp add: fr_of_b256_def b256_of_fr_def)

lemma fr_of_u256_of [simp]: "field_laws E \<Longrightarrow> fr_of_u256 E (u256_of_fr E x) = Inr x"
proof -
  assume F: "field_laws E"
  have "be_nat (fr_bytes E x) < 2 ^ 256" using be_nat_less [of "fr_bytes E x"] F by simp
  then have "be_bytes 32 (unat (from_be (fr_bytes E x) :: uint256)) = fr_bytes E x"
    using be_bytes_be_nat [of "fr_bytes E x"] F by (simp add: from_be_def)
  then show ?thesis using F by (simp add: fr_of_u256_def u256_of_fr_def fr_of_b256_def)
qed

section \<open>Recipient payloads\<close>

lemma payload_element_frame:
  assumes "length ct < 2 ^ 32"
  shows "payload_element (u32_to_be (word_of_nat (length ct)) @ ct @ rest) j
         = (case j of 0 \<Rightarrow> Some ct | Suc j' \<Rightarrow> payload_element rest j')"
proof -
  have "unat (from_be (u32_to_be (word_of_nat (length ct))) :: u32) = length ct" using assms by simp
  then show ?thesis
    by (subst payload_element.simps) (simp add: slice_def Let_def split: nat.splits)
qed

definition framed :: "u8 list \<Rightarrow> u8 list" where
  "framed ct = u32_to_be (word_of_nat (length ct)) @ ct"

lemma payload_element_concat:
  assumes "\<forall>ct \<in> set cts. length ct < 2 ^ 32" and "j < length cts"
  shows "payload_element (concat (map framed cts)) j = Some (cts ! j)"
  using assms by (induction cts arbitrary: j) (auto simp: framed_def payload_element_frame nth_Cons split: nat.splits)

lemma word_at_concat:
  assumes "\<forall>w \<in> set ws. length w = 32" and "i < length ws"
  shows "word_at (concat ws @ rest) i = ws ! i"
  using assms
proof (induction ws arbitrary: i)
  case (Cons w ws)
  then show ?case by (cases i) (simp_all add: word_at_def slice_def)
qed simp

lemma try_map_words:
  assumes "field_laws E"
  shows "try_map (\<lambda>i. fr_try_from E (word_at (concat (map (fr_bytes E) xs) @ rest) i)) [0..<length xs] = Inr xs"
  using assms word_at_concat [of "map (fr_bytes E) xs" _ rest]
  by (auto simp: try_map_eq_Inr list_all2_conv_all_nth fr_bytes_length)

lemma note_decode_encode [simp]: "field_laws E \<Longrightarrow> note_decode E (note_encode E n) = Inr n"
proof -
  assume F: "field_laws E"
  have "length (concat (map (fr_bytes E) (note_fields E n))) = NOTE_BYTES"
    using F by (simp add: note_fields_def NOTE_BYTES_def NOTE_FIELDS_def)
  moreover have "length (note_fields E n) = NOTE_FIELDS" by (simp add: note_fields_def NOTE_FIELDS_def)
  moreover have "note_from_fields E (note_fields E n) = Some n"
    using F by (simp add: note_from_fields_def note_fields_def)
  ultimately show ?thesis
    using try_map_words [OF F, of "note_fields E n" "[]"] by (simp add: note_decode_def note_encode_def)
qed

lemma length_lock_fields: "length (lock_fields E l) = 3"
  by (simp add: lock_fields_def)

lemma lock_from_fields_of [simp]: "field_laws E \<Longrightarrow> lock_from_fields E (lock_fields E l) = Some l"
  by (simp add: lock_from_fields_def lock_fields_def)

text \<open>An output's element of the payload decrypts under the viewing key it was sealed to.\<close>

lemma decrypt_encrypt_payload:
  assumes "field_laws E" and "fund_laws E X" and "j < length outs" and "outs ! j = (n, opening, view_public X vk, rnd)"
  shows "decrypt_payload E X vk (encrypt_payload E X outs) j = Some (n, opening)"
proof -
  let ?ct = "\<lambda>(j, n, opening, vpk, rnd). seal_encrypt X rnd vpk (payload_plaintext E n opening) (payload_aad j)"
  have plain: "length (payload_plaintext E m l) = NOTE_BYTES + 96" for m l
    using assms(1) by (simp add: payload_plaintext_def note_encode_def note_fields_def lock_fields_def NOTE_BYTES_def
        NOTE_FIELDS_def)
  have "length (?ct x) < 2 ^ 32" for x
    using assms(2) plain by (cases x) (simp add: fund_laws_def seal_encrypt_def NOTE_BYTES_def NOTE_FIELDS_def)
  then have "payload_element (concat (map framed (map ?ct (enumerated outs)))) j = Some (map ?ct (enumerated outs) ! j)"
    using assms(3) by (intro payload_element_concat) auto
  moreover have "encrypt_payload E X outs = concat (map framed (map ?ct (enumerated outs)))"
    by (simp add: encrypt_payload_def encrypt_element_def framed_def Let_def comp_def case_prod_unfold)
  moreover have "map ?ct (enumerated outs) ! j
      = seal_encrypt X rnd (view_public X vk) (payload_plaintext E n opening) (payload_aad j)"
    using assms(3,4) by (simp add: enumerated_def)
  moreover have "seal_decrypt X vk (seal_encrypt X rnd (view_public X vk) (payload_plaintext E n opening) (payload_aad j))
      (payload_aad j) = Inr (payload_plaintext E n opening)"
    using assms(2) by (simp add: seal_decrypt_def seal_encrypt_def fund_laws_def)
  moreover have "slice 0 NOTE_BYTES (payload_plaintext E n opening) = note_encode E n"
    and "drop NOTE_BYTES (payload_plaintext E n opening) = concat (map (fr_bytes E) (lock_fields E opening))"
    using assms(1)
    by (simp_all add: payload_plaintext_def slice_def note_encode_def note_fields_def NOTE_BYTES_def NOTE_FIELDS_def)
  moreover have "try_map (\<lambda>i. fr_try_from E (word_at (concat (map (fr_bytes E) (lock_fields E opening))) i)) [0..<3]
      = Inr (lock_fields E opening)"
    using try_map_words [OF assms(1), of "lock_fields E opening" "[]"]
    unfolding length_lock_fields append_Nil2 .
  ultimately show ?thesis using assms(1) by (simp add: decrypt_payload_def plain)
qed

end
