(* ===== verification/Fund_Register.thy ===== *)
theory Fund_Register
  imports Fund_Agent Fund_Submit
begin

text \<open>
  Facts about scanning and reading the feed that the proofs on the agent share: what a scan and a
  reading add, that they only add, and the frame of the agent's other fields.
\<close>

text \<open>
  What reading the chain does to a wallet and to the register of the transfer agent. \<open>feed_frame\<close> is
  all that reading records may change; \<open>register_ok\<close> and \<open>wallet_ok\<close> are the invariants of the two
  lists of notes. The last section posts a built transfer and reads it back: the recipient's wallet,
  the sender's and the register each find their notes.
\<close>

section \<open>Invariants\<close>

definition wallet_ok :: "'fr prims \<Rightarrow> 'fr wallet \<Rightarrow> bool" where
  "wallet_ok E w \<longleftrightarrow>
     distinct (map on_commitment (wa_notes w)) \<and>
     list_all (\<lambda>n. fund_commitment E (on_note n) = on_commitment n \<and> fn_owner (on_note n) = wallet_owner E w) (wa_notes w)"

definition register_ok :: "'fr prims \<Rightarrow> 'fr agent \<Rightarrow> bool" where
  "register_ok E a \<longleftrightarrow>
     distinct (map re_commitment (ta_register a)) \<and>
     list_all (\<lambda>e. fund_commitment E (re_note e) = re_commitment e) (ta_register a)"

section \<open>Scanning\<close>

definition scanned :: "'fr note_record \<Rightarrow> 'fr fund_note \<Rightarrow> 'fr lock_opening \<Rightarrow> 'fr owned_note" where
  "scanned rec n terms =
     \<lparr>on_note = n, on_opening = terms, on_commitment = nr_commitment rec, on_leaf_index = nr_leaf_index rec,
      on_spent = False\<rparr>"

definition mark_spent :: "'fr prims \<Rightarrow> 'fr \<Rightarrow> 'fr chain_view \<Rightarrow> 'fr owned_note \<Rightarrow> 'fr owned_note" where
  "mark_spent E nk view n = n\<lparr>on_spent := (fund_nullifier E (on_commitment n) nk \<in> vw_nullifiers view)\<rparr>"

lemma mark_spent_simps [simp]:
  "on_commitment (mark_spent E nk view n) = on_commitment n" "on_note (mark_spent E nk view n) = on_note n"
  by (simp_all add: mark_spent_def)

lemma scan_notes:
  "wa_notes (scan E X w view)
   = map (mark_spent E (wk_nk (wa_keys w)) view) (fold (scan_record E X (wa_keys w)) (vw_notes view) (wa_notes w))"
  by (simp add: scan_def mark_spent_def Let_def)

lemma scan_keys [simp]: "wa_keys (scan E X w view) = wa_keys w"
  by (simp add: scan_def Let_def)

lemma scan_record_cases:
  obtains "scan_record E X ks rec ns = ns"
  | n terms where "scan_record E X ks rec ns = ns @ [scanned rec n terms]"
      and "nr_commitment rec \<notin> on_commitment ` set ns"
      and "fn_owner n = wallet_keys_owner E ks" and "fund_commitment E n = nr_commitment rec"
proof (cases "list_ex (\<lambda>n. on_commitment n = nr_commitment rec) ns")
  case False
  then have fresh: "nr_commitment rec \<notin> on_commitment ` set ns" by (auto simp: list_ex_iff)
  show ?thesis
  proof (cases "decrypt_payload E X (wk_view ks) (nr_payload rec) (nr_output rec)")
    case None
    then show ?thesis using False that(1) by (simp add: scan_record_def)
  next
    case (Some p)
    obtain n terms where "p = (n, terms)" by (cases p)
    with Some False that(1) that(2) [of n terms] fresh show ?thesis
      by (cases "fn_owner n = wallet_keys_owner E ks \<and> fund_commitment E n = nr_commitment rec")
        (auto simp: scan_record_def scanned_def)
  qed
qed (use that(1) in \<open>simp add: scan_record_def\<close>)

lemma scan_record_ok:
  assumes "wallet_ok E w" and "ks = wa_keys w"
  shows "wallet_ok E (w\<lparr>wa_notes := scan_record E X ks rec (wa_notes w)\<rparr>)"
  using scan_record_cases [of E X ks rec "wa_notes w"]
  by (cases; use assms in \<open>auto simp: wallet_ok_def scanned_def wallet_owner_def\<close>)

lemma fold_scan_ok:
  "wallet_ok E w \<Longrightarrow> wallet_ok E (w\<lparr>wa_notes := fold (scan_record E X (wa_keys w)) recs (wa_notes w)\<rparr>)"
proof (induction recs arbitrary: w)
  case (Cons rec recs)
  from Cons.IH [OF scan_record_ok [OF Cons.prems refl, of X rec]] show ?case by simp
qed simp

lemma scan_ok: "wallet_ok E w \<Longrightarrow> wallet_ok E (scan E X w view)"
  using fold_scan_ok [of E w X "vw_notes view"]
  by (auto simp: wallet_ok_def scan_notes list_all_iff wallet_owner_def comp_def)

lemma scan_record_commitments: "on_commitment ` set (scan_record E X ks rec ns) \<subseteq> insert (nr_commitment rec) (on_commitment ` set ns)"
  by (rule scan_record_cases [of E X ks rec ns]) (auto simp: scanned_def)

lemma fold_scan_commitments:
  "on_commitment ` set (fold (scan_record E X ks) recs ns) \<subseteq> nr_commitment ` set recs \<union> on_commitment ` set ns"
proof (induction recs arbitrary: ns)
  case (Cons rec recs)
  have "on_commitment ` set (fold (scan_record E X ks) (rec # recs) ns)
      \<subseteq> nr_commitment ` set recs \<union> on_commitment ` set (scan_record E X ks rec ns)" using Cons by simp
  also have "\<dots> \<subseteq> nr_commitment ` set (rec # recs) \<union> on_commitment ` set ns"
    using scan_record_commitments [of E X ks rec ns] by auto
  finally show ?case .
qed simp

lemma fold_scan_mono: "set ns \<subseteq> set (fold (scan_record E X ks) recs ns)"
proof (induction recs arbitrary: ns)
  case (Cons rec recs)
  have "set ns \<subseteq> set (scan_record E X ks rec ns)" by (rule scan_record_cases [of E X ks rec ns]) auto
  also have "\<dots> \<subseteq> set (fold (scan_record E X ks) (rec # recs) ns)" using Cons [of "scan_record E X ks rec ns"] by simp
  finally show ?case .
qed simp

text \<open>A payload that opens the commitment of its record, to a note of the wallet's, is found.\<close>

lemma scan_finds:
  assumes "distinct (map nr_commitment (vw_notes view))" and "rec \<in> set (vw_notes view)"
    and "nr_commitment rec \<notin> on_commitment ` set (wa_notes w)"
    and "decrypt_payload E X (wk_view (wa_keys w)) (nr_payload rec) (nr_output rec) = Some (n, terms)"
    and "fn_owner n = wallet_owner E w" and "fund_commitment E n = nr_commitment rec"
  shows "mark_spent E (wk_nk (wa_keys w)) view (scanned rec n terms) \<in> set (wa_notes (scan E X w view))"
proof -
  let ?f = "scan_record E X (wa_keys w)"
  obtain xs ys where split: "vw_notes view = xs @ rec # ys" using assms(2) by (auto dest: split_list)
  let ?ns = "fold ?f xs (wa_notes w)"
  have "nr_commitment rec \<notin> nr_commitment ` set xs" using assms(1) split by auto
  then have "nr_commitment rec \<notin> on_commitment ` set ?ns"
    using fold_scan_commitments [of E X "wa_keys w" xs "wa_notes w"] assms(3) by blast
  then have "\<not> list_ex (\<lambda>m. on_commitment m = nr_commitment rec) ?ns" by (force simp: list_ex_iff)
  then have "?f rec ?ns = ?ns @ [scanned rec n terms]"
    using assms(4-6) by (simp add: scan_record_def scanned_def wallet_owner_def)
  then have "scanned rec n terms \<in> set (fold ?f (vw_notes view) (wa_notes w))"
    using fold_scan_mono [of "?ns @ [scanned rec n terms]" E X "wa_keys w" ys] by (simp add: split subset_iff)
  then show ?thesis by (simp add: scan_notes)
qed

section \<open>Reading the feed\<close>

definition feed_frame :: "'fr agent \<Rightarrow> 'fr agent \<Rightarrow> bool" where
  "feed_frame a b \<longleftrightarrow>
     (\<exists>u r ns. b = a\<lparr>ta_unreadable_notes := u, ta_register := r, ta_wallet := (ta_wallet a)\<lparr>wa_notes := ns\<rparr>\<rparr>)"

lemma feed_frame_refl [simp]: "feed_frame a a"
  unfolding feed_frame_def
  by (intro exI [of _ "ta_unreadable_notes a"] exI [of _ "ta_register a"] exI [of _ "wa_notes (ta_wallet a)"]) simp

lemma feed_frame_trans: "feed_frame a b \<Longrightarrow> feed_frame b c \<Longrightarrow> feed_frame a c"
  unfolding feed_frame_def by (elim exE) (simp, metis)

lemma feed_frameD:
  assumes "feed_frame a b"
  shows "agent_owner E b = agent_owner E a" and "holder_of E b = holder_of E a" and "nk_of E b = nk_of E a"
    and "feed_keys b = feed_keys a" and "wa_keys (ta_wallet b) = wa_keys (ta_wallet a)"
    and "ta_investors b = ta_investors a" and "ta_pending_claims b = ta_pending_claims a" and "ta_claims b = ta_claims a"
  using assms
  by (auto simp: feed_frame_def agent_owner_def wallet_owner_def holder_of_def nk_of_def feed_keys_def fun_eq_iff
      split: option.split)

definition registered_entry :: "'fr prims \<Rightarrow> 'fr agent \<Rightarrow> 'fr note_record \<Rightarrow> 'fr fund_note \<Rightarrow> 'fr lock_opening \<Rightarrow> 'fr register_entry" where
  "registered_entry E a rec n terms =
     \<lparr>re_note = n, re_opening = terms, re_commitment = nr_commitment rec, re_leaf_index = nr_leaf_index rec,
      re_holder = holder_of E a (fn_owner n), re_spent = False\<rparr>"

lemma open_record_SomeD: "open_record E X a rec = Some (n, terms) \<Longrightarrow> fund_commitment E n = nr_commitment rec"
proof -
  assume "open_record E X a rec = Some (n, terms)"
  moreover have "find_map f xs = Some y \<Longrightarrow> \<exists>x \<in> set xs. f x = Some y" for f :: "'c \<Rightarrow> 'd option" and xs y
    by (induction xs) (auto split: option.splits)
  ultimately show ?thesis unfolding open_record_def by (fastforce split: option.splits if_splits)
qed

lemma read_note_record_cases:
  obtains "read_note_record E X rec a = a" and "nr_commitment rec \<in> re_commitment ` set (ta_register a)"
  | "read_note_record E X rec a = a\<lparr>ta_unreadable_notes := ta_unreadable_notes a @
        [\<lparr>un_commitment = nr_commitment rec, un_key_version = nr_key_version rec\<rparr>]\<rparr>"
      and "open_record E X a rec = None" and "nr_commitment rec \<notin> re_commitment ` set (ta_register a)"
  | n terms ns where "read_note_record E X rec a = a\<lparr>ta_register := ta_register a @ [registered_entry E a rec n terms],
        ta_wallet := (ta_wallet a)\<lparr>wa_notes := ns\<rparr>\<rparr>"
      and "nr_commitment rec \<notin> re_commitment ` set (ta_register a)" and "open_record E X a rec = Some (n, terms)"
      and "ns = wa_notes (ta_wallet a)
        \<or> ns = wa_notes (ta_wallet a) @ [scanned rec n terms] \<and> fn_owner n = agent_owner E a
          \<and> nr_commitment rec \<notin> on_commitment ` set (wa_notes (ta_wallet a))"
proof (cases "list_ex (\<lambda>e. re_commitment e = nr_commitment rec) (ta_register a)")
  case True
  then have "nr_commitment rec \<in> re_commitment ` set (ta_register a)" by (force simp: list_ex_iff)
  with True show ?thesis using that(1) by (simp add: read_note_record_def)
next
  case False
  then have fresh: "nr_commitment rec \<notin> re_commitment ` set (ta_register a)" by (auto simp: list_ex_iff)
  show ?thesis
  proof (cases "open_record E X a rec")
    case None
    with False fresh show ?thesis using that(2) by (simp add: read_note_record_def)
  next
    case (Some p)
    obtain n terms where p: "p = (n, terms)" by (cases p)
    let ?own = "fn_owner n = agent_owner E a \<and> \<not> list_ex (\<lambda>m. on_commitment m = nr_commitment rec) (wa_notes (ta_wallet a))"
    let ?ns = "if ?own then wa_notes (ta_wallet a) @ [scanned rec n terms] else wa_notes (ta_wallet a)"
    have w: "(ta_wallet a)\<lparr>wa_notes := wa_notes (ta_wallet a)\<rparr> = ta_wallet a" by simp
    have ow: "agent_owner E (a\<lparr>ta_register := r\<rparr>) = agent_owner E a" for r by (simp add: agent_owner_def)
    have "read_note_record E X rec a = a\<lparr>ta_register := ta_register a @ [registered_entry E a rec n terms],
        ta_wallet := (ta_wallet a)\<lparr>wa_notes := ?ns\<rparr>\<rparr>"
      using False Some p by (cases ?own) (simp_all add: read_note_record_def registered_entry_def scanned_def Let_def ow)
    moreover have "?ns = wa_notes (ta_wallet a)
        \<or> ?ns = wa_notes (ta_wallet a) @ [scanned rec n terms] \<and> fn_owner n = agent_owner E a
          \<and> nr_commitment rec \<notin> on_commitment ` set (wa_notes (ta_wallet a))"
      by (auto simp: list_ex_iff)
    ultimately show ?thesis using that(3) fresh Some p by blast
  qed
qed

lemma feed_frameI:
  "feed_frame a (a\<lparr>ta_unreadable_notes := u\<rparr>)"
  "feed_frame a (a\<lparr>ta_register := r, ta_wallet := (ta_wallet a)\<lparr>wa_notes := ns\<rparr>\<rparr>)"
  "feed_frame a (a\<lparr>ta_register := r\<rparr>)"
proof -
  have w: "(ta_wallet a)\<lparr>wa_notes := wa_notes (ta_wallet a)\<rparr> = ta_wallet a" by simp
  show "feed_frame a (a\<lparr>ta_unreadable_notes := u\<rparr>)"
    unfolding feed_frame_def by (rule exI [of _ u], rule exI [of _ "ta_register a"], rule exI [of _ "wa_notes (ta_wallet a)"]) simp
  show "feed_frame a (a\<lparr>ta_register := r, ta_wallet := (ta_wallet a)\<lparr>wa_notes := ns\<rparr>\<rparr>)"
    unfolding feed_frame_def by (rule exI [of _ "ta_unreadable_notes a"], rule exI [of _ r], rule exI [of _ ns]) simp
  show "feed_frame a (a\<lparr>ta_register := r\<rparr>)"
    unfolding feed_frame_def
    by (rule exI [of _ "ta_unreadable_notes a"], rule exI [of _ r], rule exI [of _ "wa_notes (ta_wallet a)"]) simp
qed

lemma read_note_record_frame: "feed_frame a (read_note_record E X rec a)"
proof (rule read_note_record_cases [of E X rec a])
  fix n terms ns
  assume "read_note_record E X rec a = a\<lparr>ta_register := ta_register a @ [registered_entry E a rec n terms],
        ta_wallet := (ta_wallet a)\<lparr>wa_notes := ns\<rparr>\<rparr>"
  then show ?thesis by (simp only: feed_frameI)
qed (simp_all only: feed_frame_refl feed_frameI)

lemma fold_read_frame: "feed_frame a (fold (read_note_record E X) recs a)"
proof (induction recs arbitrary: a)
  case (Cons rec recs)
  have "feed_frame a (fold (read_note_record E X) recs (read_note_record E X rec a))"
    by (rule feed_frame_trans [OF read_note_record_frame Cons.IH])
  then show ?case by simp
qed simp

lemma read_note_record_ok:
  assumes "register_ok E a" and "wallet_ok E (ta_wallet a)"
  shows "register_ok E (read_note_record E X rec a) \<and> wallet_ok E (ta_wallet (read_note_record E X rec a))"
proof (rule read_note_record_cases [of E X rec a])
  fix n terms ns
  assume rd: "read_note_record E X rec a = a\<lparr>ta_register := ta_register a @ [registered_entry E a rec n terms],
        ta_wallet := (ta_wallet a)\<lparr>wa_notes := ns\<rparr>\<rparr>"
    and new: "nr_commitment rec \<notin> re_commitment ` set (ta_register a)" "open_record E X a rec = Some (n, terms)"
    and ns: "ns = wa_notes (ta_wallet a)
        \<or> ns = wa_notes (ta_wallet a) @ [scanned rec n terms] \<and> fn_owner n = agent_owner E a
          \<and> nr_commitment rec \<notin> on_commitment ` set (wa_notes (ta_wallet a))"
  from open_record_SomeD [OF new(2)] new(1) assms(1) have "register_ok E (read_note_record E X rec a)"
    by (auto simp: rd register_ok_def registered_entry_def)
  moreover from open_record_SomeD [OF new(2)] assms(2) ns have "wallet_ok E ((ta_wallet a)\<lparr>wa_notes := ns\<rparr>)"
    by (auto simp: wallet_ok_def scanned_def agent_owner_def wallet_owner_def)
  ultimately show ?thesis by (simp add: rd)
qed (use assms in \<open>simp_all add: register_ok_def\<close>)

lemma fold_read_ok:
  assumes "register_ok E a" and "wallet_ok E (ta_wallet a)"
  shows "register_ok E (fold (read_note_record E X) recs a) \<and> wallet_ok E (ta_wallet (fold (read_note_record E X) recs a))"
  using assms by (induction recs arbitrary: a) (simp_all add: read_note_record_ok)

text \<open>The agent after the feed is read: the records, then the marks, claims and the wallet.\<close>

definition records_read :: "'fr prims \<Rightarrow> 'fr fund_prims \<Rightarrow> 'fr agent \<Rightarrow> 'fr chain_view \<Rightarrow> 'fr agent" where
  "records_read E X a view = fold (read_note_record E X) (vw_notes view) (a\<lparr>ta_unreadable_notes := []\<rparr>)"

lemma records_read_frame: "feed_frame a (records_read E X a view)"
  unfolding records_read_def by (rule feed_frame_trans [OF feed_frameI(1) fold_read_frame])

lemma read_feed_fields:
  shows "ta_register (read_feed E X a view)
         = map (\<lambda>e. e\<lparr>re_spent := entry_spent E a view e\<rparr>) (ta_register (records_read E X a view))"
    and "ta_wallet (read_feed E X a view) = scan E X (ta_wallet (records_read E X a view)) view"
    and "ta_unreadable_notes (read_feed E X a view) = ta_unreadable_notes (records_read E X a view)"
    and "ta_investors (read_feed E X a view) = ta_investors a"
  using feed_frameD [OF records_read_frame [of a E X view]]
  by (simp_all add: read_feed_def records_read_def [symmetric] Let_def entry_spent_def [abs_def])

lemma read_feed_ok:
  assumes "register_ok E a" and "wallet_ok E (ta_wallet a)"
  shows "register_ok E (read_feed E X a view)" and "wallet_ok E (ta_wallet (read_feed E X a view))"
proof -
  have "register_ok E (a\<lparr>ta_unreadable_notes := []\<rparr>)" using assms(1) by (simp add: register_ok_def)
  from fold_read_ok [OF this, of X "vw_notes view"] assms(2)
  have "register_ok E (records_read E X a view) \<and> wallet_ok E (ta_wallet (records_read E X a view))"
    by (simp add: records_read_def)
  then show "register_ok E (read_feed E X a view)" and "wallet_ok E (ta_wallet (read_feed E X a view))"
    using scan_ok by (auto simp: register_ok_def read_feed_fields list_all_iff comp_def)
qed

lemma read_note_record_register:
  "re_commitment ` set (ta_register (read_note_record E X rec a))
     \<subseteq> insert (nr_commitment rec) (re_commitment ` set (ta_register a))"
  "set (ta_register a) \<subseteq> set (ta_register (read_note_record E X rec a))"
  by (rule read_note_record_cases [of E X rec a]; auto simp: registered_entry_def)+

lemma fold_read_register:
  "re_commitment ` set (ta_register (fold (read_note_record E X) recs a))
     \<subseteq> nr_commitment ` set recs \<union> re_commitment ` set (ta_register a)"
  "set (ta_register a) \<subseteq> set (ta_register (fold (read_note_record E X) recs a))"
proof (induction recs arbitrary: a)
  case (Cons rec recs)
  { case 1
    have "re_commitment ` set (ta_register (fold (read_note_record E X) (rec # recs) a))
        \<subseteq> nr_commitment ` set recs \<union> re_commitment ` set (ta_register (read_note_record E X rec a))"
      using Cons(1) by simp
    also have "\<dots> \<subseteq> nr_commitment ` set (rec # recs) \<union> re_commitment ` set (ta_register a)"
      using read_note_record_register(1) [of E X rec a] by auto
    finally show ?case .
  next
    case 2
    show ?case using read_note_record_register(2) [of a E X rec] Cons(2) [of "read_note_record E X rec a"] by simp
  }
qed simp_all

text \<open>A feed that one committed key opens to the commitment of its record is registered.\<close>

lemma records_read_finds:
  assumes "distinct (map nr_commitment (vw_notes view))" and "rec \<in> set (vw_notes view)"
    and "nr_commitment rec \<notin> re_commitment ` set (ta_register a)"
    and "open_record E X a rec = Some (n, terms)"
  shows "registered_entry E a rec n terms \<in> set (ta_register (records_read E X a view))"
proof -
  obtain xs ys where split: "vw_notes view = xs @ rec # ys" using assms(2) by (auto dest: split_list)
  let ?b = "fold (read_note_record E X) xs (a\<lparr>ta_unreadable_notes := []\<rparr>)"
  have frame: "feed_frame a ?b" by (rule feed_frame_trans [OF feed_frameI(1) fold_read_frame])
  have "nr_commitment rec \<notin> nr_commitment ` set xs" using assms(1) split by auto
  then have fresh: "nr_commitment rec \<notin> re_commitment ` set (ta_register ?b)"
    using fold_read_register(1) [of E X xs "a\<lparr>ta_unreadable_notes := []\<rparr>"] assms(3) by auto
  have op: "open_record E X ?b rec = Some (n, terms)"
    using assms(4) by (simp add: open_record_def feed_frameD(4) [OF frame])
  have "registered_entry E a rec n terms \<in> set (ta_register (read_note_record E X rec ?b))"
  proof (rule read_note_record_cases [of E X rec ?b])
    fix m l ns
    assume "read_note_record E X rec ?b = ?b\<lparr>ta_register := ta_register ?b @ [registered_entry E ?b rec m l],
        ta_wallet := (ta_wallet ?b)\<lparr>wa_notes := ns\<rparr>\<rparr>" and "open_record E X ?b rec = Some (m, l)"
    then show ?thesis using op by (simp add: registered_entry_def feed_frameD(2) [OF frame])
  qed (use fresh op in simp_all)
  also have "set (ta_register (read_note_record E X rec ?b)) \<subseteq> set (ta_register (records_read E X a view))"
    using fold_read_register(2) [of "read_note_record E X rec ?b" E X ys] by (simp add: records_read_def split)
  finally show ?thesis .
qed

lemma read_feed_finds:
  assumes "distinct (map nr_commitment (vw_notes view))" and "rec \<in> set (vw_notes view)"
    and "nr_commitment rec \<notin> re_commitment ` set (ta_register a)"
    and "open_record E X a rec = Some (n, terms)"
  shows "\<exists>e \<in> set (ta_register (read_feed E X a view)). re_note e = n \<and> re_opening e = terms
    \<and> re_commitment e = nr_commitment rec \<and> re_leaf_index e = nr_leaf_index rec \<and> re_holder e = holder_of E a (fn_owner n)"
  using records_read_finds [OF assms] by (force simp: read_feed_fields registered_entry_def)

text \<open>Every record is in the register after reading, or listed as unreadable.\<close>

lemma read_note_record_unreadable:
  "set (ta_unreadable_notes a) \<subseteq> set (ta_unreadable_notes (read_note_record E X rec a))"
  "nr_commitment rec \<in> re_commitment ` set (ta_register (read_note_record E X rec a))
      \<union> un_commitment ` set (ta_unreadable_notes (read_note_record E X rec a))"
  by (rule read_note_record_cases [of E X rec a]; auto simp: registered_entry_def)+

lemma fold_read_unreadable:
  "set (ta_unreadable_notes a) \<subseteq> set (ta_unreadable_notes (fold (read_note_record E X) recs a))"
proof (induction recs arbitrary: a)
  case (Cons rec recs)
  show ?case using read_note_record_unreadable(1) [of a E X rec] Cons [of "read_note_record E X rec a"] by simp
qed simp

lemma fold_read_covers:
  "nr_commitment ` set recs \<subseteq> re_commitment ` set (ta_register (fold (read_note_record E X) recs a))
     \<union> un_commitment ` set (ta_unreadable_notes (fold (read_note_record E X) recs a))"
proof (induction recs arbitrary: a)
  case (Cons rec recs)
  let ?b = "read_note_record E X rec a"
  have "re_commitment ` set (ta_register ?b) \<union> un_commitment ` set (ta_unreadable_notes ?b)
      \<subseteq> re_commitment ` set (ta_register (fold (read_note_record E X) recs ?b))
        \<union> un_commitment ` set (ta_unreadable_notes (fold (read_note_record E X) recs ?b))"
    by (intro Un_mono image_mono fold_read_register(2) fold_read_unreadable)
  then show ?case using Cons [of ?b] read_note_record_unreadable(2) [of rec E X a] by auto
qed simp

lemma read_feed_complete:
  assumes "ta_unreadable_notes (read_feed E X a view) = []"
  shows "nr_commitment ` set (vw_notes view) \<subseteq> re_commitment ` set (ta_register (read_feed E X a view))"
  using fold_read_covers [of "vw_notes view" E X "a\<lparr>ta_unreadable_notes := []\<rparr>"] assms
  by (auto simp: read_feed_fields image_image records_read_def)

end
