(* ===== verification/Fund_Delivery.thy ===== *)
theory Fund_Delivery
  imports Fund_Register
begin

text \<open>
  From a submitted transfer to the notes of its recipients: the \<open>Transfer\<close> event the pool emits for
  the parameters of a submission (\<open>ShieldedPool.sol\<close>, \<open>transfer\<close>), the records a synced view holds for
  it, and that wallets and the register read them.
\<close>

section \<open>The event of a transfer\<close>

definition transfer_event :: "transfer_params \<Rightarrow> pool_log" where
  "transfer_event p =
     TransferLog (tp_nullifier0 p) (tp_nullifier1 p) (tp_commitment_out0 p) (tp_commitment_out1 p) (tp_feed_r p)
       (tp_feed_ct p) (tp_recipient_payload p)"

definition log_key_version :: "pool_log \<Rightarrow> u64 \<Rightarrow> u64" where
  "log_key_version log v = (case log of RegisterKeyRotatedLog version \<Rightarrow> version | _ \<Rightarrow> v)"

definition logs_key_version :: "pool_log list \<Rightarrow> u64" where
  "logs_key_version logs = fold log_key_version logs 0"

definition output_record :: "'fr built_transfer \<Rightarrow> u64 \<Rightarrow> nat \<Rightarrow> nat \<Rightarrow> 'fr note_record" where
  "output_record b v leaf j =
     \<lparr>nr_commitment = (if j = 0 then fst else snd) (fw_commitments_out (bt_witness b)), nr_leaf_index = leaf, nr_output = j,
      nr_feed_r = fw_feed_r (bt_witness b),
      nr_feed_ct = take FEED_FIELDS (drop (FEED_FIELDS * j) (fw_feed_ct (bt_witness b))),
      nr_payload = bt_payload b, nr_key_version = v\<rparr>"

lemma point_of_words:
  "field_laws E \<Longrightarrow> \<not> pt_infinity p \<Longrightarrow> point_of E (feed_r_words E p) = Inr p"
  by (cases p) (simp add: point_of_def feed_r_words_def point_new_def)

lemma ct_slice_words:
  assumes "field_laws E" and "FEED_FIELDS * j + FEED_FIELDS \<le> length ct"
  shows "ct_slice E (map (u256_of_fr E) ct) j = Inr (take FEED_FIELDS (drop (FEED_FIELDS * j) ct))"
  using assms by (auto simp: ct_slice_def try_map_eq_Inr list_all2_conv_all_nth)

lemma push_note_key_version:
  "push_note E feed_r feed_ct payload s (j, c) = Inr s' \<Longrightarrow> ss_key_version s' = ss_key_version s"
  using push_note_Inr [of E feed_r feed_ct payload s j c s'] by blast

lemma sync_pool_log_key_version:
  assumes "sync_pool_log E s log = Inr s'"
  shows "ss_key_version s' = log_key_version log (ss_key_version s)"
proof (cases log)
  case (TransferLog n0 n1 c0 c1 feed_r feed_ct payload)
  from assms TransferLog obtain t u os where "try_fold (push_note E feed_r feed_ct payload) t (enumerated os) = Inr u"
    and "ss_key_version t = ss_key_version s" and "ss_key_version s' = ss_key_version u"
    by (auto simp: sync_pool_log_def and_then_eq_Inr Let_def simp del: try_map.simps)
  moreover from this(1) have "ss_key_version u = ss_key_version t"
  proof (rule try_fold_invariant [where P = "\<lambda>x. ss_key_version x = ss_key_version t"])
    fix x jc y assume "ss_key_version x = ss_key_version t" "push_note E feed_r feed_ct payload x jc = Inr y"
    then show "ss_key_version y = ss_key_version t" by (cases jc) (auto dest: push_note_key_version)
  qed simp
  ultimately show ?thesis using TransferLog by (simp add: log_key_version_def)
qed (use assms push_note_key_version in \<open>fastforce simp: sync_pool_log_def log_key_version_def and_then_eq_Inr\<close>)+

lemma sync_logs_key_version:
  assumes "try_fold (sync_pool_log E) s logs = Inr s'"
  shows "ss_key_version s' = fold log_key_version logs (ss_key_version s)"
  using assms
proof (induction logs arbitrary: s)
  case (Cons log logs)
  then obtain t where "sync_pool_log E s log = Inr t" and "try_fold (sync_pool_log E) t logs = Inr s'"
    by (auto simp: and_then_eq_Inr)
  with Cons.IH show ?case using sync_pool_log_key_version by fastforce
qed simp

lemma sync_transfer_event:
  assumes F: "field_laws E"
    and sub: "submission_transfer E (bt_witness b) p (bt_payload b) = Some (SubmitTransfer params)"
    and fin: "\<not> pt_infinity (fw_feed_r (bt_witness b))" and ct: "length (fw_feed_ct (bt_witness b)) = 2 * FEED_FIELDS"
    and sync: "sync_pool_log E s (transfer_event params) = Inr s'"
  shows "vw_notes (ss_view s') = vw_notes (ss_view s) @
    [output_record b (ss_key_version s) (length (ss_commitments s)) 0,
     output_record b (ss_key_version s) (Suc (length (ss_commitments s))) 1]"
proof -
  have params: "tp_nullifier0 params = b256_of_fr E (fst (fw_nullifiers (bt_witness b)))"
    "tp_nullifier1 params = b256_of_fr E (snd (fw_nullifiers (bt_witness b)))"
    "tp_commitment_out0 params = b256_of_fr E (fst (fw_commitments_out (bt_witness b)))"
    "tp_commitment_out1 params = b256_of_fr E (snd (fw_commitments_out (bt_witness b)))"
    "tp_feed_r params = feed_r_words E (fw_feed_r (bt_witness b))"
    "tp_feed_ct params = map (u256_of_fr E) (fw_feed_ct (bt_witness b))"
    "tp_recipient_payload params = bt_payload b"
    using sub by (auto simp: submission_transfer_def split: if_splits)
  have slices: "ct_slice E (map (u256_of_fr E) (fw_feed_ct (bt_witness b))) j
      = Inr (take FEED_FIELDS (drop (FEED_FIELDS * j) (fw_feed_ct (bt_witness b))))" if "j < 2" for j
    using that ct by (intro ct_slice_words [OF F]) (simp add: less_2_cases_iff, elim disjE; simp)
  show ?thesis
    using sync F point_of_words [OF F fin] slices [of 0] slices [of 1]
    by (auto simp: transfer_event_def params sync_pool_log_def push_note_def output_record_def enumerated_def Let_def)
qed

lemma sync_posted:
  assumes F: "field_laws E"
    and sub: "submission_transfer E (bt_witness b) p (bt_payload b) = Some (SubmitTransfer params)"
    and fin: "\<not> pt_infinity (fw_feed_r (bt_witness b))" and ct: "length (fw_feed_ct (bt_witness b)) = 2 * FEED_FIELDS"
    and sync: "sync E (logs @ [transfer_event params]) outflow_logs registry_logs = Inr view"
  shows "\<exists>base leaf. vw_notes view = base @
    [output_record b (logs_key_version logs) leaf 0, output_record b (logs_key_version logs) (Suc leaf) 1]"
proof -
  let ?s = "\<lparr>ss_view = empty_view, ss_commitments = [], ss_key_version = 0, ss_withdrawals = []\<rparr>"
  from sync obtain s s' where s: "try_fold (sync_pool_log E) ?s logs = Inr s"
    and s': "sync_pool_log E s (transfer_event params) = Inr s'" and vn: "vw_notes view = vw_notes (ss_view s')"
    using sync_notes [OF sync] by (auto simp: try_fold_append and_then_eq_Inr)
  from sync_logs_key_version [OF s] sync_transfer_event [OF F sub fin ct s'] vn show ?thesis
    by (auto simp: logs_key_version_def)
qed

section \<open>Reading it back\<close>

definition pick :: "nat \<Rightarrow> 'a \<times> 'a \<Rightarrow> 'a" where
  "pick j p = (if j = 0 then fst p else snd p)"

definition spec_output :: "'fr prims \<Rightarrow> 'fr draws \<Rightarrow> 'fr transfer_spec \<Rightarrow> 'fr pool_env \<Rightarrow> nat \<Rightarrow> 'fr fund_note" where
  "spec_output E rnd spec env j =
     output_note E (fr_of_address E (en_token env)) (pick j (rd_salts rnd)) (pick j (ts_outputs spec))"

lemma build_transfer_Inr:
  assumes "build_transfer E X rnd spec signer view env = Inr b"
    and k: "feed_derive E X (rd_feed rnd) (en_register_key env) = (big_r, k)"
  shows "bt_outputs b = (spec_output E rnd spec env 0, spec_output E rnd spec env 1)"
    and "fw_commitments_out (bt_witness b)
      = (fund_commitment E (spec_output E rnd spec env 0), fund_commitment E (spec_output E rnd spec env 1))"
    and "fw_feed_r (bt_witness b) = big_r"
    and "fw_feed_ct (bt_witness b)
      = feed_encrypt E k (feed_fields E (spec_output E rnd spec env 0) (out_opening (fst (ts_outputs spec)))) 0
        @ feed_encrypt E k (feed_fields E (spec_output E rnd spec env 1) (out_opening (snd (ts_outputs spec)))) 1"
    and "bt_payload b = encrypt_payload E X
      [(spec_output E rnd spec env 0, out_opening (fst (ts_outputs spec)), out_vpk (fst (ts_outputs spec)), fst (rd_seals rnd)),
       (spec_output E rnd spec env 1, out_opening (snd (ts_outputs spec)), out_vpk (snd (ts_outputs spec)), snd (rd_seals rnd))]"
proof -
  from assms(1) obtain pd signature where prep: "prepare_transfer E X rnd spec env = Inr pd"
    and fin: "finish_transfer E X rnd pd signature view env = Inr b"
    by (auto simp: build_transfer_def and_then_eq_Inr)
  from prep have pd: "pl_outputs (pd_plan pd)
      = (fund_commitment E (spec_output E rnd spec env 0), fund_commitment E (spec_output E rnd spec env 1))"
    "pd_outputs pd = (spec_output E rnd spec env 0, spec_output E rnd spec env 1)"
    "pd_output_locks pd = (out_opening (fst (ts_outputs spec)), out_opening (snd (ts_outputs spec)))"
    "pd_payload pd = encrypt_payload E X
      [(spec_output E rnd spec env 0, out_opening (fst (ts_outputs spec)), out_vpk (fst (ts_outputs spec)), fst (rd_seals rnd)),
       (spec_output E rnd spec env 1, out_opening (snd (ts_outputs spec)), out_vpk (snd (ts_outputs spec)), snd (rd_seals rnd))]"
    by (auto simp: prepare_transfer_def Let_def spec_output_def pick_def split: if_splits)
  from fin obtain w where b: "b = \<lparr>bt_witness = w, bt_payload = pd_payload pd, bt_outputs = pd_outputs pd\<rparr>"
    and w: "fw_commitments_out w = pl_outputs (pd_plan pd)" "fw_feed_r w = big_r"
    "fw_feed_ct w = feed_encrypt E k (feed_fields E (fst (pd_outputs pd)) (fst (pd_output_locks pd))) 0
       @ feed_encrypt E k (feed_fields E (snd (pd_outputs pd)) (snd (pd_output_locks pd))) 1"
    by (auto simp: finish_transfer_def and_then_eq_Inr Let_def k split: prod.splits)
  show "bt_outputs b = (spec_output E rnd spec env 0, spec_output E rnd spec env 1)" by (simp add: b pd)
  show "fw_commitments_out (bt_witness b)
      = (fund_commitment E (spec_output E rnd spec env 0), fund_commitment E (spec_output E rnd spec env 1))"
    by (simp add: b w pd)
  show "fw_feed_r (bt_witness b) = big_r" by (simp add: b w)
  show "fw_feed_ct (bt_witness b)
      = feed_encrypt E k (feed_fields E (spec_output E rnd spec env 0) (out_opening (fst (ts_outputs spec)))) 0
        @ feed_encrypt E k (feed_fields E (spec_output E rnd spec env 1) (out_opening (snd (ts_outputs spec)))) 1"
    by (simp add: b w pd)
  show "bt_payload b = encrypt_payload E X
      [(spec_output E rnd spec env 0, out_opening (fst (ts_outputs spec)), out_vpk (fst (ts_outputs spec)), fst (rd_seals rnd)),
       (spec_output E rnd spec env 1, out_opening (snd (ts_outputs spec)), out_vpk (snd (ts_outputs spec)), snd (rd_seals rnd))]"
    by (simp add: b pd)
qed

lemma length_feed_encrypt [simp]: "length (feed_encrypt E k f j) = FEED_FIELDS"
  by (simp add: feed_encrypt_def)

text \<open>Each record of a posted transfer opens to its output: the feed under the register key, the
  payload under the recipient's viewing key.\<close>

lemma output_record_facts:
  assumes F: "field_laws E" and L: "fund_laws E X" and G: "point_group E X S" "GENERATOR E \<in> S"
    and b: "build_transfer E X rnd spec signer view env = Inr b" and j: "j < 2"
  shows "nr_commitment (output_record b v leaf j) = fund_commitment E (spec_output E rnd spec env j)"
    and "en_register_key env = public_point E X tk \<Longrightarrow>
      feed_open E (feed_decrypt E X tk (nr_feed_r (output_record b v leaf j)) (nr_feed_ct (output_record b v leaf j))
        (nr_output (output_record b v leaf j)))
      = Some (spec_output E rnd spec env j, out_opening (pick j (ts_outputs spec)))"
    and "out_vpk (pick j (ts_outputs spec)) = view_public X vk \<Longrightarrow>
      decrypt_payload E X vk (nr_payload (output_record b v leaf j)) (nr_output (output_record b v leaf j))
      = Some (spec_output E rnd spec env j, out_opening (pick j (ts_outputs spec)))"
proof -
  obtain big_r k where k: "feed_derive E X (rd_feed rnd) (en_register_key env) = (big_r, k)" by (meson surj_pair)
  note facts = build_transfer_Inr [OF b k]
  from j have j01: "j = 0 \<or> j = 1" by linarith
  then show "nr_commitment (output_record b v leaf j) = fund_commitment E (spec_output E rnd spec env j)"
    by (elim disjE) (simp_all add: output_record_def facts)
  show "feed_open E (feed_decrypt E X tk (nr_feed_r (output_record b v leaf j)) (nr_feed_ct (output_record b v leaf j))
        (nr_output (output_record b v leaf j)))
      = Some (spec_output E rnd spec env j, out_opening (pick j (ts_outputs spec)))"
    if tk: "en_register_key env = public_point E X tk"
  proof -
    note agrees = feed_agrees [OF F L G k [unfolded tk]]
    show ?thesis using j01 by (elim disjE) (simp_all add: output_record_def facts pick_def agrees)
  qed
  show "decrypt_payload E X vk (nr_payload (output_record b v leaf j)) (nr_output (output_record b v leaf j))
      = Some (spec_output E rnd spec env j, out_opening (pick j (ts_outputs spec)))"
    if "out_vpk (pick j (ts_outputs spec)) = view_public X vk"
  proof -
    have "nr_payload (output_record b v leaf j) = bt_payload b" "nr_output (output_record b v leaf j) = j"
      by (simp_all add: output_record_def)
    then show ?thesis unfolding facts(5) using that j01
      by (elim disjE) (auto intro!: decrypt_encrypt_payload [OF F L] simp: pick_def)
  qed
qed

lemma find_map_single: "f x = Some y \<Longrightarrow> find_map f [x] = Some y"
  by simp

lemma open_recordI:
  assumes "map_of (ta_register_keys a) (nr_key_version rec) = Some tk"
    and "feed_open E (feed_decrypt E X tk (nr_feed_r rec) (nr_feed_ct rec) (nr_output rec)) = Some (n, terms)"
    and "fund_commitment E n = nr_commitment rec"
  shows "open_record E X a rec = Some (n, terms)"
  using assms by (simp add: open_record_def feed_keys_def)

lemma transfer_delivered:
  assumes F: "field_laws E" and L: "fund_laws E X" and G: "point_group E X S" "GENERATOR E \<in> S"
    and b: "build_transfer E X rnd spec signer view env = Inr b" and j: "j < 2"
    and sub: "submission_transfer E (bt_witness b) p (bt_payload b) = Some (SubmitTransfer params)"
    and fin: "\<not> pt_infinity (public_point E X (rd_feed rnd))"
    and sync: "sync E (logs @ [transfer_event params]) outflow_logs registry_logs = Inr view'"
    and dist: "distinct (map nr_commitment (vw_notes view'))"
  shows "wallet_owner E w = out_owner (pick j (ts_outputs spec)) \<Longrightarrow> wallet_vpk X w = out_vpk (pick j (ts_outputs spec)) \<Longrightarrow>
      fund_commitment E (spec_output E rnd spec env j) \<notin> on_commitment ` set (wa_notes w) \<Longrightarrow>
      spec_output E rnd spec env j \<in> on_note ` set (wa_notes (scan E X w view'))"
    and "map_of (ta_register_keys a) (logs_key_version logs) = Some tk \<Longrightarrow> en_register_key env = public_point E X tk \<Longrightarrow>
      fund_commitment E (spec_output E rnd spec env j) \<notin> re_commitment ` set (ta_register a) \<Longrightarrow>
      (spec_output E rnd spec env j, holder_of E a (out_owner (pick j (ts_outputs spec))))
        \<in> (\<lambda>e. (re_note e, re_holder e)) ` set (ta_register (read_feed E X a view'))"
proof -
  obtain big_r k where k: "feed_derive E X (rd_feed rnd) (en_register_key env) = (big_r, k)" by (meson surj_pair)
  then have r: "\<not> pt_infinity (fw_feed_r (bt_witness b))"
    using fin build_transfer_Inr(3) [OF b k] by (auto simp: feed_derive_def Let_def)
  have ct: "length (fw_feed_ct (bt_witness b)) = 2 * FEED_FIELDS" by (simp add: build_transfer_Inr(4) [OF b k])
  from sync_posted [OF F sub r ct sync] obtain base leaf where
    notes': "vw_notes view' = base @ [output_record b (logs_key_version logs) leaf 0,
      output_record b (logs_key_version logs) (Suc leaf) 1]" by blast
  let ?rec = "output_record b (logs_key_version logs) (leaf + j) j" and ?n = "spec_output E rnd spec env j"
  have rec: "?rec \<in> set (vw_notes view')" using notes' j by (auto simp: less_2_cases_iff)
  note facts = output_record_facts [OF F L G b j, where v = "logs_key_version logs" and leaf = "leaf + j"]
  have owner: "fn_owner ?n = out_owner (pick j (ts_outputs spec))" by (simp add: spec_output_def output_note_def)
  show "?n \<in> on_note ` set (wa_notes (scan E X w view'))"
    if "wallet_owner E w = out_owner (pick j (ts_outputs spec))" and "wallet_vpk X w = out_vpk (pick j (ts_outputs spec))"
      and "fund_commitment E ?n \<notin> on_commitment ` set (wa_notes w)"
  proof -
    have "decrypt_payload E X (wk_view (wa_keys w)) (nr_payload ?rec) (nr_output ?rec)
        = Some (?n, out_opening (pick j (ts_outputs spec)))"
      using that(2) by (intro facts(3)) (simp add: wallet_vpk_def)
    from scan_finds [OF dist rec _ this] that owner facts(1) show ?thesis
      by (metis image_eqI mark_spent_simps(2) owned_note.select_convs(1) scanned_def)
  qed
  show "(?n, holder_of E a (out_owner (pick j (ts_outputs spec)))) \<in> (\<lambda>e. (re_note e, re_holder e)) ` set (ta_register (read_feed E X a view'))"
    if "map_of (ta_register_keys a) (logs_key_version logs) = Some tk" and "en_register_key env = public_point E X tk"
      and "fund_commitment E ?n \<notin> re_commitment ` set (ta_register a)"
  proof -
    have "open_record E X a ?rec = Some (?n, out_opening (pick j (ts_outputs spec)))"
      using that(1) facts(2) [OF that(2)] facts(1) by (intro open_recordI) (simp_all add: output_record_def)
    from read_feed_finds [OF dist rec _ this] that(3) facts(1) owner show ?thesis by force
  qed
qed

section \<open>Payments\<close>

text \<open>A transfer is built whenever its inputs are in the tree and every owner value is attested.\<close>

lemma build_transfer_total:
  assumes "ts_inputs spec \<noteq> []" and "length (ts_inputs spec) \<le> 2" and "\<not> ts_claim spec"
    and "\<And>n. n \<in> set (ts_inputs spec) \<Longrightarrow> \<exists>i. owned_input E X n view = Inr i"
    and "\<And>p ns. \<exists>signature. signer p ns = Inr signature"
    and "(en_epoch env + 1) * EPOCH_SECONDS \<le> plan_expiry env"
    and "\<And>owner. owner \<in> {owner_value E (ts_owner_key spec) (ts_nk spec), out_owner (fst (ts_outputs spec)),
      out_owner (snd (ts_outputs spec))} \<Longrightarrow> attestation_witness E X view env owner \<noteq> None"
  shows "\<exists>b. build_transfer E X rnd spec signer view env = Inr b"
proof -
  from assms(1,2) obtain pd where prep: "prepare_transfer E X rnd spec env = Inr pd"
    by (auto simp: prepare_transfer_def Let_def)
  have "pl_expiry (pd_plan pd) = plan_expiry env"
    and pd: "pd_inputs pd = ts_inputs spec" "pd_claim pd = False" "pd_owner_key pd = ts_owner_key spec" "pd_nk pd = ts_nk spec"
      "fn_owner (fst (pd_outputs pd)) = out_owner (fst (ts_outputs spec))"
      "fn_owner (snd (pd_outputs pd)) = out_owner (snd (ts_outputs spec))"
    using prep assms(3) by (auto simp: prepare_transfer_def Let_def output_note_def split: if_splits)
  then have unexpired: "require_unexpired (pd_plan pd) env = Inr ()" using assms(6) by (simp add: require_unexpired_def)
  obtain ins where ins: "try_map (\<lambda>n. owned_input E X n view) (ts_inputs spec) = Inr ins"
    using try_map_total [of "ts_inputs spec" "\<lambda>n. owned_input E X n view"] assms(4) by blast
  have att: "\<exists>w. require_attestation E X view env owner = Inr w"
    if "owner \<in> {owner_value E (ts_owner_key spec) (ts_nk spec), out_owner (fst (ts_outputs spec)),
      out_owner (snd (ts_outputs spec))}" for owner
    using assms(7) [OF that] by (auto simp: require_attestation_def)
  obtain w0 where "require_attestation E X view env (owner_value E (ts_owner_key spec) (ts_nk spec)) = Inr w0"
    using att [of "owner_value E (ts_owner_key spec) (ts_nk spec)"] by auto
  moreover obtain w1 where "require_attestation E X view env (out_owner (fst (ts_outputs spec))) = Inr w1"
    using att [of "out_owner (fst (ts_outputs spec))"] by auto
  moreover obtain w2 where "require_attestation E X view env (out_owner (snd (ts_outputs spec))) = Inr w2"
    using att [of "out_owner (snd (ts_outputs spec))"] by auto
  moreover obtain signature where "signer (pd_plan pd) [fst (pd_outputs pd), snd (pd_outputs pd)] = Inr signature"
    using assms(5) by blast
  ultimately have "\<exists>b. finish_transfer E X rnd pd signature view env = Inr b"
    and "build_transfer E X rnd spec signer view env = finish_transfer E X rnd pd signature view env"
    by (simp_all only: finish_transfer_def output_attestation_def Let_def case_prod_unfold unexpired ins pd
        and_then_Inr if_False not_False_eq_True simp_thms build_transfer_def prep map_err_simps)
      auto
  then show ?thesis by simp
qed

text \<open>The event of a posted transfer syncs.\<close>

lemma sync_single:
  fixes b :: "'fr built_transfer"
  assumes F: "field_laws E"
    and sub: "submission_transfer E (bt_witness b) p (bt_payload b) = Some (SubmitTransfer params)"
    and fin: "\<not> pt_infinity (fw_feed_r (bt_witness b))" and ct: "length (fw_feed_ct (bt_witness b)) = 2 * FEED_FIELDS"
  shows "\<exists>view. sync E [transfer_event params] [] [] = Inr view
    \<and> map nr_commitment (vw_notes view) = [fst (fw_commitments_out (bt_witness b)), snd (fw_commitments_out (bt_witness b))]"
proof -
  let ?s = "\<lparr>ss_view = empty_view, ss_commitments = [], ss_key_version = 0, ss_withdrawals = []\<rparr>"
  have slices: "ct_slice E (map (u256_of_fr E) (fw_feed_ct (bt_witness b))) j
      = Inr (take FEED_FIELDS (drop (FEED_FIELDS * j) (fw_feed_ct (bt_witness b))))" if "j < 2" for j
    using that ct by (intro ct_slice_words [OF F]) (simp add: less_2_cases_iff, elim disjE; simp)
  have "\<exists>s. sync_pool_log E ?s (transfer_event params) = Inr s
      \<and> ss_commitments s = [fst (fw_commitments_out (bt_witness b)), snd (fw_commitments_out (bt_witness b))]"
    using sub F point_of_words [OF F fin] slices [of 0] slices [of 1]
    by (auto simp: transfer_event_def sync_pool_log_def push_note_def enumerated_def Let_def submission_transfer_def
        split: if_splits)
  then obtain s where s: "sync_pool_log E ?s (transfer_event params) = Inr s"
    "ss_commitments s = [fst (fw_commitments_out (bt_witness b)), snd (fw_commitments_out (bt_witness b))]" by blast
  from sync_transfer_event [OF F sub fin ct s(1)] s show ?thesis
    by (simp add: sync_def lean_from_leaves_def lean_extend_def lean_new_def MAX_COMMITMENT_DEPTH_def output_record_def
        empty_view_def)
qed

lemma pay_Inr:
  assumes "pay E X rnd w signer view env to to_vpk units = Inr b"
  obtains inputs where "select_inputs E w (en_epoch env) units = Inr inputs"
    and "build_transfer E X rnd (wallet_spec w inputs
       (\<lparr>out_owner = to, out_units = units, out_opening = lock_none E, out_vpk = to_vpk\<rparr>,
        \<lparr>out_owner = wallet_owner E w, out_units = sum_units inputs - units, out_opening = lock_none E,
         out_vpk = wallet_vpk X w\<rparr>)) signer view env = Inr b"
  using assms by (auto simp: pay_def wallet_transfer_def and_then_eq_Inr Let_def)

end
