(* ===== verification/Fund_Invariants.thy ===== *)
theory Fund_Invariants
  imports Fund_Register
begin

text \<open>
  The transfer agent as a step relation: one rule per operation, reachable agents, the invariant
  \<open>agent_ok\<close> by rule induction, and the order \<open>extends\<close> between an agent and its later states.
\<close>

text \<open>
  The transfer agent as a state machine: its steps are its operations with any arguments, and the
  invariant \<open>agent_ok\<close> holds in every agent reachable from a new one. The register keys carry the
  versions from 0 on, one each; keys prepared for a rotation carry the next one; owner values are
  filed under their own encoding and belong to verified investors; the register and the agent's
  wallet list each commitment once, with a note that opens it.
\<close>

section \<open>Steps\<close>

inductive agent_step :: "'fr prims \<Rightarrow> 'fr fund_prims \<Rightarrow> 'fr agent \<Rightarrow> 'fr agent \<Rightarrow> bool" for E X where
  step_caps: "agent_step E X a (a\<lparr>ta_max_investors := cap, ta_jurisdiction_caps := caps\<rparr>)"
| step_new_register_key: "agent_step E X a (snd (new_register_key E X a secret))"
| step_commit_register_key: "agent_step E X a (snd (commit_register_key E X a rotation))"
| step_verify_investor: "agent_step E X a (snd (verify_investor a investor_id jurisdiction))"
| step_onboard: "agent_step E X a (snd (onboard E X a investor_id env registration signature nk))"
| step_register_public_holder: "agent_step E X a (snd (register_public_holder a addr investor_id))"
| step_stop_renewing: "agent_step E X a (snd (stop_renewing E a owner))"
| step_read_feed: "agent_step E X a (read_feed E X a view)"
| step_check_cap: "agent_step E X a (snd (check_cap E X a view env owners holding_publicly))"
| step_attestation_batch:
    "agent_step E X a (snd (build_attestation_round E X draw shuffle a view env holding_publicly generation))"
| step_claim: "agent_step E X a (snd (claim E X rnd a view env target action))"
| step_seed_deposit: "agent_step E X a (snd (seed_deposit E X rnd a view env units funder))"
| step_freeze_seed: "agent_step E X a (snd (freeze_seed E X rnd a view env))"
| step_reconcile: "agent_step E X a (snd (reconcile E X a view pool))"

definition agent_reachable :: "'fr prims \<Rightarrow> 'fr fund_prims \<Rightarrow> 'fr agent \<Rightarrow> bool" where
  "agent_reachable E X a \<longleftrightarrow>
     (\<exists>own claim_key tk salt_key. (agent_step E X)\<^sup>*\<^sup>* (agent_new X own claim_key tk salt_key) a)"

section \<open>The invariant\<close>

definition keys_ok :: "'fr agent \<Rightarrow> bool" where
  "keys_ok a \<longleftrightarrow>
     map fst (ta_register_keys a) = map word_of_nat [0..<length (ta_register_keys a)] \<and>
     0 < length (ta_register_keys a) \<and> length (ta_register_keys a) \<le> 2 ^ 64 \<and>
     list_all (\<lambda>(version, _). version = next_register_key_version a) (ta_prepared_register_keys a)"

definition record_ok :: "'fr prims \<Rightarrow> (u8 list \<rightharpoonup> u8 list) \<Rightarrow> bytes32 \<times> 'fr investor_record \<Rightarrow> bool" where
  "record_ok E verified = (\<lambda>(k, rec).
     k = fr_bytes E (owner_value E (ir_pk rec) (ir_nk rec))
     \<and> (case holder_investor (ir_holder rec) of None \<Rightarrow> True | Some ident \<Rightarrow> verified ident \<noteq> None))"

definition investors_ok :: "'fr prims \<Rightarrow> 'fr agent \<Rightarrow> bool" where
  "investors_ok E a \<longleftrightarrow>
     sorted_wrt (<) (map fst (ta_investors a)) \<and>
     list_all (record_ok E (ta_jurisdictions a)) (ta_investors a) \<and>
     (\<forall>ident \<in> ran (ta_public_holders a). ta_jurisdictions a ident \<noteq> None)"

definition agent_ok :: "'fr prims \<Rightarrow> 'fr agent \<Rightarrow> bool" where
  "agent_ok E a \<longleftrightarrow> keys_ok a \<and> investors_ok E a \<and> register_ok E a \<and> wallet_ok E (ta_wallet a)"

text \<open>What an operation may leave alone.\<close>

definition same_keys :: "'fr agent \<Rightarrow> 'fr agent \<Rightarrow> bool" where
  "same_keys a b \<longleftrightarrow>
     ta_register_keys b = ta_register_keys a \<and> ta_prepared_register_keys b = ta_prepared_register_keys a"

definition same_investors :: "'fr agent \<Rightarrow> 'fr agent \<Rightarrow> bool" where
  "same_investors a b \<longleftrightarrow>
     ta_investors b = ta_investors a \<and> ta_jurisdictions b = ta_jurisdictions a \<and> ta_public_holders b = ta_public_holders a"

definition same_notes :: "'fr agent \<Rightarrow> 'fr agent \<Rightarrow> bool" where
  "same_notes a b \<longleftrightarrow> ta_register b = ta_register a \<and> ta_wallet b = ta_wallet a"

lemma same_keysD: "same_keys a b \<Longrightarrow> keys_ok a \<Longrightarrow> keys_ok b"
  by (simp add: same_keys_def keys_ok_def next_register_key_version_def)

lemma same_investorsD: "same_investors a b \<Longrightarrow> investors_ok E a \<Longrightarrow> investors_ok E b"
  by (simp add: same_investors_def investors_ok_def)

lemma same_notesD: "same_notes a b \<Longrightarrow> register_ok E a \<and> wallet_ok E (ta_wallet a) \<Longrightarrow> register_ok E b \<and> wallet_ok E (ta_wallet b)"
  by (simp add: same_notes_def register_ok_def)

lemmas same_defs = same_keys_def same_investors_def same_notes_def

lemma agent_ok_same: "same_keys a b \<Longrightarrow> same_investors a b \<Longrightarrow> same_notes a b \<Longrightarrow> agent_ok E a \<Longrightarrow> agent_ok E b"
  unfolding agent_ok_def using same_keysD same_investorsD same_notesD by blast

lemma read_feed_same: "same_keys a (read_feed E X a view)" "same_investors a (read_feed E X a view)"
  using records_read_frame [of a E X view]
  by (auto simp: feed_frame_def read_feed_def records_read_def [symmetric] same_defs Let_def)

lemma read_feed_agent_ok: "agent_ok E a \<Longrightarrow> agent_ok E (read_feed E X a view)"
  unfolding agent_ok_def
  using read_feed_same [of a E X view] same_keysD same_investorsD read_feed_ok by blast

section \<open>Register keys\<close>

lemma map_of_nat_snoc: "map word_of_nat [0..<Suc n] = map word_of_nat [0..<n] @ [word_of_nat n]"
  by simp

lemma next_version: "keys_ok a \<Longrightarrow> next_register_key_version a = word_of_nat (length (ta_register_keys a))"
proof -
  assume K: "keys_ok a"
  let ?ks = "ta_register_keys a"
  have ne: "?ks \<noteq> []" using K by (auto simp: keys_ok_def)
  then have "fst (last ?ks) = last (map fst ?ks)" by (simp add: last_map)
  also have "\<dots> = word_of_nat (length ?ks - 1)" using K ne by (simp add: keys_ok_def last_map)
  finally show ?thesis
    using ne by (simp add: next_register_key_version_def) (metis One_nat_def Suc_pred length_greater_0_conv of_nat_Suc add.commute)
qed

lemma bt_insert_last: "\<forall>x \<in> set (map fst m). x < k \<Longrightarrow> bt_insert k v m = m @ [(k, v)]"
  by (induction m) auto

lemma bt_insert_existing: "k \<in> set (map fst m) \<Longrightarrow> sorted_wrt (<) (map fst m) \<Longrightarrow> map fst (bt_insert k v m) = map fst m"
proof (induction m)
  case (Cons kv m)
  obtain k' v' where kv: "kv = (k', v')" by (cases kv)
  consider "k = k'" | "k \<noteq> k'" "k \<in> set (map fst m)" using Cons.prems(1) by (auto simp: kv)
  then show ?case
  proof cases
    case 2
    then have "k' < k" using Cons.prems(2) by (auto simp: kv)
    then show ?thesis using Cons 2 by (auto simp: kv)
  qed (simp add: kv)
qed simp

lemma versions_sorted: "n \<le> 2 ^ 64 \<Longrightarrow> sorted_wrt (<) (map (word_of_nat :: nat \<Rightarrow> u64) [0..<n])"
  by (auto simp: sorted_wrt_iff_nth_less word_less_nat_alt)

lemma commit_register_key_ok:
  assumes K: "keys_ok a" shows "keys_ok (snd (commit_register_key E X a rotation))"
proof (cases "commit_register_key E X a rotation")
  case (Pair r b)
  let ?ks = "ta_register_keys a" and ?n = "length (ta_register_keys a)"
  have fst_ks: "map fst ?ks = map word_of_nat [0..<?n]" and n: "0 < ?n" "?n \<le> 2 ^ 64" using K by (auto simp: keys_ok_def)
  show ?thesis
  proof (cases "b = a")
    case False
    then obtain secret where v: "rk_version rotation = word_of_nat ?n"
      and b: "b = a\<lparr>ta_register_keys := bt_insert (word_of_nat ?n) secret ?ks,
        ta_prepared_register_keys := filter (\<lambda>(version, _). word_of_nat ?n < version) (ta_prepared_register_keys a)\<rparr>"
      using Pair next_version [OF K]
      by (auto simp: commit_register_key_def split: if_splits option.splits prod.splits)
    have "filter (\<lambda>(version, _). word_of_nat ?n < version) (ta_prepared_register_keys a) = []"
      using K next_version [OF K] by (auto simp: keys_ok_def list_all_iff filter_empty_conv)
    then have prep: "ta_prepared_register_keys b = []" by (simp add: b)
    show ?thesis
    proof (cases "?n = 2 ^ 64")
      case True
      then have "(word_of_nat ?n :: u64) = 0" by (simp add: word_of_nat_eq_0_iff)
      moreover have "0 \<in> set (map fst ?ks)" using n(1) unfolding fst_ks by (auto intro!: image_eqI [of _ _ 0])
      ultimately have same: "map fst (ta_register_keys b) = map fst ?ks"
        using bt_insert_existing [of "word_of_nat ?n" ?ks secret] versions_sorted [OF n(2)] by (simp add: b fst_ks)
      then have "length (ta_register_keys b) = ?n" by (metis length_map)
      then show ?thesis using Pair same prep fst_ks n by (simp add: keys_ok_def)
    next
      case False
      then have lt: "?n < 2 ^ 64" using n(2) by simp
      have "\<forall>x \<in> set (map fst ?ks). x < (word_of_nat ?n :: u64)"
        unfolding fst_ks using lt by (auto simp: word_less_nat_alt)
      then have "ta_register_keys b = ?ks @ [(word_of_nat ?n, secret)]" by (simp add: b bt_insert_last)
      then show ?thesis using Pair prep fst_ks lt by (simp add: keys_ok_def)
    qed
  qed (use K Pair in simp)
qed

lemma new_register_key_ok: "keys_ok a \<Longrightarrow> keys_ok (snd (new_register_key E X a secret))"
  by (simp add: new_register_key_def keys_ok_def Let_def) (simp add: next_register_key_version_def)

section \<open>Owners\<close>

lemma set_bt_insert: "set (bt_insert k v m) \<subseteq> insert (k, v) (set m)"
  by (induction k v m rule: bt_insert.induct) auto

lemma record_owner_ok:
  assumes "investors_ok E a" and "\<And>ident. holder_investor h = Some ident \<Longrightarrow> ta_jurisdictions a ident \<noteq> None"
  shows "investors_ok E (snd (record_owner E a h pk nk vpk))"
proof -
  let ?k = "fr_bytes E (owner_value E pk nk)" and ?r = "\<lparr>ir_holder = h, ir_pk = pk, ir_nk = nk, ir_vpk = vpk\<rparr>"
  have "record_ok E (ta_jurisdictions a) (?k, ?r)" using assms(2) by (auto simp: record_ok_def split: option.split)
  then show ?thesis
    using assms(1) set_bt_insert [of ?k ?r "ta_investors a"] sorted_bt_insert [of "ta_investors a" ?k ?r]
    by (auto simp: record_owner_def investors_ok_def list_all_iff Let_def)
qed

lemma record_owner_same:
  "same_keys a (snd (record_owner E a h pk nk vpk))" "same_notes a (snd (record_owner E a h pk nk vpk))"
  by (simp_all add: record_owner_def same_defs Let_def)

lemma onboard_ok:
  assumes "agent_ok E a" shows "agent_ok E (snd (onboard E X a investor_id env registration signature nk))"
proof (cases "onboard_checks E X a investor_id env registration signature nk")
  case (Inr h)
  then obtain ident where h: "h = HolderInvestor ident" and "ta_jurisdictions a ident \<noteq> None"
    by (auto simp: onboard_checks_def and_then_eq_Inr Let_def split: if_splits option.splits)
  then have "investors_ok E (snd (record_owner E a h (rgn_pk registration) nk (rgn_vpk registration)))"
    using assms by (intro record_owner_ok) (auto simp: agent_ok_def holder_investor_def)
  then show ?thesis
    using assms record_owner_same [of a E h "rgn_pk registration" nk "rgn_vpk registration"] same_keysD same_notesD
    by (simp add: onboard_def Inr case_prod_unfold Let_def agent_ok_def) blast
qed (use assms in \<open>simp add: onboard_def\<close>)

lemma verify_investor_ok:
  assumes "agent_ok E a" shows "agent_ok E (snd (verify_investor a investor_id jurisdiction))"
proof (cases "investor_id_new investor_id")
  case (Inr ident)
  have mono: "record_ok E v kr \<Longrightarrow> record_ok E (v(ident \<mapsto> jurisdiction)) kr" for v kr
    by (cases kr) (auto simp: record_ok_def split: option.splits)
  show ?thesis
    using assms mono
    by (auto simp: verify_investor_def Inr agent_ok_def investors_ok_def keys_ok_def register_ok_def list_all_iff
        next_register_key_version_def)
qed (use assms in \<open>simp add: verify_investor_def\<close>)

lemma register_public_holder_ok:
  assumes "agent_ok E a" shows "agent_ok E (snd (register_public_holder a addr investor_id))"
proof (cases "investor_id_new investor_id")
  case (Inr ident)
  have "ran ((ta_public_holders a)(addr \<mapsto> ident)) \<subseteq> insert ident (ran (ta_public_holders a))"
    by (auto simp: ran_def)
  then show ?thesis
    using assms
    by (auto simp: register_public_holder_def Inr agent_ok_def investors_ok_def keys_ok_def register_ok_def
        next_register_key_version_def)
qed (use assms in \<open>simp add: register_public_holder_def\<close>)

lemma fresh_padding_ok:
  "agent_ok E a \<Longrightarrow> agent_ok E (snd (fresh_padding E X keys a))"
proof (induction keys arbitrary: a)
  case (Cons ks rest)
  let ?b = "snd (record_owner E a HolderPadding (spend_public_key X (ok_spend ks)) (ok_nk ks) (view_public X (ok_view ks)))"
  have "investors_ok E ?b" using Cons.prems by (intro record_owner_ok) (auto simp: agent_ok_def holder_investor_def)
  then have "agent_ok E ?b"
    using Cons.prems record_owner_same [of a E HolderPadding] same_keysD same_notesD unfolding agent_ok_def by blast
  then have "agent_ok E (?b\<lparr>ta_padding := ta_padding ?b @ [ks]\<rparr>)"
    by (rule agent_ok_same [rotated 3]) (simp_all add: same_defs)
  from Cons.IH [OF this] show ?case by (simp add: case_prod_unfold Let_def)
qed simp

lemma attestation_round_ok:
  assumes "agent_ok E a"
  shows "agent_ok E (snd (build_attestation_round E X draw shuffle a view env holding_publicly generation))"
proof -
  have ok: "agent_ok E ((read_feed E X a view)\<lparr>ta_period_start := s\<rparr>)" for s
    using read_feed_agent_ok [OF assms] by (rule agent_ok_same [rotated 3]) (simp_all add: same_defs)
  show ?thesis
    unfolding build_attestation_round_def Let_def
    by (simp add: case_prod_unfold ok fresh_padding_ok split: sum.split)
qed

lemma build_claim_ok: "agent_ok E a \<Longrightarrow> agent_ok E (snd (build_claim E X rnd a view env target action))"
  by (rule agent_ok_same) (simp_all add: build_claim_def same_defs split: sum.split)

lemma seed_deposit_ok: "agent_ok E a \<Longrightarrow> agent_ok E (snd (seed_deposit E X rnd a view env units funder))"
  by (rule agent_ok_same) (simp_all add: seed_deposit_def same_defs split: sum.split option.split prod.split)

lemma agent_step_ok: "agent_step E X a b \<Longrightarrow> agent_ok E a \<Longrightarrow> agent_ok E b"
proof (induction rule: agent_step.induct)
  case step_new_register_key
  then show ?case
    using new_register_key_ok same_investorsD same_notesD
    by (auto simp: agent_ok_def new_register_key_def Let_def register_ok_def investors_ok_def)
next
  case (step_commit_register_key a rotation)
  have "same_investors a (snd (commit_register_key E X a rotation))" "same_notes a (snd (commit_register_key E X a rotation))"
    by (simp_all add: commit_register_key_def same_defs split: option.split prod.split)
  with step_commit_register_key show ?case
    using commit_register_key_ok same_investorsD same_notesD unfolding agent_ok_def by blast
next
  case (step_stop_renewing a owner)
  then show ?case by (rule agent_ok_same [rotated 3]) (simp_all add: stop_renewing_def same_defs)
next
  case (step_caps a cap caps)
  then show ?case by (rule agent_ok_same [rotated 3]) (simp_all add: same_defs)
next
  case (step_claim rnd a view env target action)
  then show ?case by (simp add: claim_def build_claim_ok)
next
  case (step_freeze_seed rnd a view env)
  then show ?case by (simp add: freeze_seed_def build_claim_ok split: option.split)
qed (simp_all add: verify_investor_ok onboard_ok register_public_holder_ok read_feed_agent_ok check_cap_def Let_def
    attestation_round_ok seed_deposit_ok reconcile_def)

lemma agent_new_ok: "agent_ok E (agent_new X own claim_key tk salt_key)"
  by (simp add: agent_new_def agent_ok_def keys_ok_def investors_ok_def register_ok_def wallet_ok_def wallet_new_def
      case_prod_unfold Let_def)

lemma reachable_ok: "agent_reachable E X a \<Longrightarrow> agent_ok E a"
proof -
  assume "agent_reachable E X a"
  then obtain own ck tk sk where "(agent_step E X)\<^sup>*\<^sup>* (agent_new X own ck tk sk) a" by (auto simp: agent_reachable_def)
  then show ?thesis by (induction rule: rtranclp_induct) (auto intro: agent_new_ok agent_step_ok)
qed

section \<open>The register is append-only\<close>

definition unmarked :: "'fr register_entry \<Rightarrow> 'fr register_entry" where
  "unmarked e = e\<lparr>re_spent := False\<rparr>"

definition extends :: "'fr agent \<Rightarrow> 'fr agent \<Rightarrow> bool" where
  "extends a b \<longleftrightarrow> (\<exists>es. map unmarked (ta_register b) = map unmarked (ta_register a) @ es)"

lemma extends_refl [simp]: "ta_register b = ta_register a \<Longrightarrow> extends a b"
  by (simp add: extends_def)

lemma extends_trans: "extends a b \<Longrightarrow> extends b c \<Longrightarrow> extends a c"
  by (auto simp: extends_def)

lemma read_note_record_extends: "extends a (read_note_record E X rec a)"
  by (rule read_note_record_cases [of E X rec a]) (auto simp: extends_def)

lemma fold_read_extends: "extends a (fold (read_note_record E X) recs a)"
proof (induction recs arbitrary: a)
  case (Cons rec recs)
  have "extends a (fold (read_note_record E X) recs (read_note_record E X rec a))"
    by (rule extends_trans [OF read_note_record_extends Cons.IH])
  then show ?case by simp
qed simp

lemma read_feed_extends: "extends a (read_feed E X a view)"
proof -
  have "extends (a\<lparr>ta_unreadable_notes := []\<rparr>) (records_read E X a view)"
    unfolding records_read_def by (rule fold_read_extends)
  then show ?thesis by (simp add: extends_def read_feed_fields comp_def unmarked_def [abs_def])
qed

lemma fresh_padding_register [simp]: "ta_register (snd (fresh_padding E X keys a)) = ta_register a"
  by (induction keys arbitrary: a) (simp_all add: case_prod_unfold Let_def record_owner_def)

lemma attestation_round_register:
  "ta_register (snd (build_attestation_round E X draw shuffle a view env holding_publicly generation))
   = ta_register (read_feed E X a view)"
  unfolding build_attestation_round_def Let_def by (simp add: case_prod_unfold split: sum.split)

lemma build_claim_register [simp]: "ta_register (snd (build_claim E X rnd a view env target action)) = ta_register a"
  by (simp add: build_claim_def split: sum.split)

lemma agent_step_extends: "agent_step E X a b \<Longrightarrow> extends a b"
proof (induction rule: agent_step.induct)
  case (step_attestation_batch draw shuffle a view env holding_publicly generation)
  then show ?case using read_feed_extends by (simp add: extends_def attestation_round_register)
qed (auto simp: read_feed_extends check_cap_def reconcile_def new_register_key_def commit_register_key_def
    verify_investor_def onboard_def record_owner_def register_public_holder_def stop_renewing_def claim_def seed_deposit_def
    freeze_seed_def Let_def case_prod_unfold split: sum.split option.split)

lemma agent_steps_extend: "(agent_step E X)\<^sup>*\<^sup>* a b \<Longrightarrow> extends a b"
  by (induction rule: rtranclp_induct) (auto intro: extends_trans agent_step_extends)

end
