(* ===== verification/Fund_Caps.thy ===== *)
theory Fund_Caps
  imports Fund_Invariants "HOL-Library.Multiset"
begin

text \<open>
  Attestation batches against the caps: what one admission keeps, by induction over the due owner
  values, and the parts of a batch.
\<close>

section \<open>Admission\<close>

definition investor_of :: "'fr prims \<Rightarrow> 'fr agent \<Rightarrow> 'fr \<Rightarrow> u8 list option" where
  "investor_of E a owner = Option.bind (holder_of E a owner) holder_investor"

definition investors_of :: "'fr prims \<Rightarrow> 'fr agent \<Rightarrow> 'fr list \<Rightarrow> u8 list set" where
  "investors_of E a owners = set (List.map_filter (investor_of E a) owners)"

definition within_caps :: "'fr agent \<Rightarrow> u8 list set \<Rightarrow> u8 list set \<Rightarrow> bool" where
  "within_caps a before counted \<longleftrightarrow>
     (case ta_max_investors a of None \<Rightarrow> True | Some cap \<Rightarrow> card counted \<le> max (card before) cap) \<and>
     list_all (\<lambda>(j, cap). jurisdiction_count a j counted \<le> max (jurisdiction_count a j before) cap) (ta_jurisdiction_caps a)"

lemma cap_refusal_None: "cap_refusal a before counted = None \<longleftrightarrow> within_caps a before counted"
  by (auto simp: cap_refusal_def within_caps_def over_jurisdiction_def find_None_iff list_all_iff not_less Let_def
      le_max_iff_disj
      split: option.splits prod.splits)

lemma within_caps_refl: "within_caps a before before"
  by (auto simp: within_caps_def list_all_iff split: option.split)

definition admission_ok :: "'fr prims \<Rightarrow> 'fr agent \<Rightarrow> u8 list set \<Rightarrow> 'fr list \<Rightarrow> 'fr admission \<Rightarrow> bool" where
  "admission_ok E a before done s \<longleftrightarrow>
     ad_counted s = before \<union> investors_of E a (ad_owners s) \<and> within_caps a before (ad_counted s) \<and>
     mset (ad_owners s) + mset (ad_over_cap s) = mset done \<and>
     (\<forall>owner \<in> set (ad_over_cap s). \<exists>ident. investor_of E a owner = Some ident \<and> ident \<notin> before)"

lemma investors_of_snoc:
  "investors_of E a (owners @ [x]) = investors_of E a owners \<union> (case investor_of E a x of None \<Rightarrow> {} | Some i \<Rightarrow> {i})"
  by (auto simp: investors_of_def List.map_filter_def split: option.splits)

lemma admit_ok:
  assumes "admit E a before s owner = Inr s'" and "admission_ok E a before done s"
  shows "admission_ok E a before (done @ [owner]) s'"
proof -
  from assms(1) obtain h where h: "holder_of E a owner = Some h"
    by (auto simp: admit_def and_then_eq_Inr ok_or_eq_Inr)
  then have inv: "investor_of E a owner = holder_investor h" by (simp add: investor_of_def)
  show ?thesis
  proof (cases "holder_investor h")
    case None
    then show ?thesis using assms h inv by (auto simp: admit_def admission_ok_def investors_of_snoc)
  next
    case (Some ident)
    consider "ident \<in> ad_counted s" | "ident \<notin> ad_counted s" "cap_refusal a before (insert ident (ad_counted s)) \<noteq> None"
      | "ident \<notin> ad_counted s" "cap_refusal a before (insert ident (ad_counted s)) = None" by blast
    then show ?thesis
    proof cases
      case 1
      then show ?thesis using assms h inv Some by (auto simp: admit_def admission_ok_def investors_of_snoc insert_absorb)
    next
      case 2
      then show ?thesis using assms h inv Some by (auto simp: admit_def admission_ok_def investors_of_snoc)
    next
      case 3
      then show ?thesis
        using assms h inv Some by (auto simp: admit_def admission_ok_def investors_of_snoc cap_refusal_None)
    qed
  qed
qed

lemma admission_fold:
  assumes "try_fold (admit E a before) s due = Inr s'" and "admission_ok E a before done s"
  shows "admission_ok E a before (done @ due) s'"
  using assms
proof (induction due arbitrary: s "done")
  case (Cons x xs)
  then obtain t where "admit E a before s x = Inr t" and "try_fold (admit E a before) t xs = Inr s'"
    by (auto simp: and_then_eq_Inr)
  with Cons.IH [of t "done @ [x]"] admit_ok Cons.prems(2) show ?case by fastforce
qed simp

section \<open>Parts\<close>

lemma next_multiple_of_ge: "0 < k \<Longrightarrow> n \<le> next_multiple_of n k \<and> next_multiple_of n k < n + k \<and> k dvd next_multiple_of n k"
proof -
  assume k: "0 < k"
  let ?q = "(n + k - 1) div k"
  have "n + k - 1 = ?q * k + (n + k - 1) mod k" by simp
  moreover have "(n + k - 1) mod k < k" using k by simp
  ultimately have "n \<le> ?q * k \<and> ?q * k < n + k" using k by linarith
  then show ?thesis by (simp add: next_multiple_of_def)
qed

lemma chunks_Nil [simp]: "chunks n [] = []"
  by (simp add: chunks.simps)

lemma chunks_unfold: "xs \<noteq> [] \<Longrightarrow> 0 < n \<Longrightarrow> chunks n xs = take n xs # chunks n (drop n xs)"
  by (simp add: chunks.simps [of n xs])

lemma concat_chunks: "0 < n \<Longrightarrow> concat (chunks n xs) = xs"
proof (induction n xs rule: chunks.induct)
  case (1 n xs)
  show ?case
  proof (cases "xs = []")
    case False
    then have "concat (chunks n xs) = take n xs @ concat (chunks n (drop n xs))"
      by (simp only: chunks_unfold [OF False "1.prems"] concat.simps)
    also have "concat (chunks n (drop n xs)) = drop n xs" using 1 False by blast
    finally show ?thesis by simp
  qed simp
qed

lemma chunks_full:
  assumes "0 < n" and "n dvd length xs" shows "\<forall>c \<in> set (chunks n xs). length c = n"
  using assms
proof (induction n xs rule: chunks.induct)
  case (1 n xs)
  show ?case
  proof (cases "xs = []")
    case False
    then have le: "n \<le> length xs" using "1.prems" by (simp add: dvd_imp_le)
    then have "n dvd length (drop n xs)" using "1.prems" by (simp add: dvd_diff_nat)
    then have rest: "\<forall>c \<in> set (chunks n (drop n xs)). length c = n" using "1.IH" "1.prems"(1) False by blast
    have "length (take n xs) = n" using le by simp
    with rest show ?thesis unfolding chunks_unfold [OF False "1.prems"(1)] list.set by blast
  qed simp
qed

section \<open>The batch\<close>

lemma length_fresh_padding: "length (fst (fresh_padding E X keys a)) = length keys"
  by (induction keys arbitrary: a) (simp_all add: case_prod_unfold Let_def)

text \<open>The agent that admits: the feed read and the start of the periods set.\<close>

definition batch_agent :: "'fr prims \<Rightarrow> 'fr fund_prims \<Rightarrow> 'fr agent \<Rightarrow> 'fr chain_view \<Rightarrow> 'fr pool_env \<Rightarrow> 'fr agent" where
  "batch_agent E X a view env =
     (let a = read_feed E X a view
      in a\<lparr>ta_period_start := Some (case ta_period_start a of None \<Rightarrow> en_epoch env | Some s \<Rightarrow> s)\<rparr>)"

definition batch_due :: "'fr prims \<Rightarrow> 'fr fund_prims \<Rightarrow> 'fr agent \<Rightarrow> 'fr chain_view \<Rightarrow> 'fr pool_env \<Rightarrow> 'fr list" where
  "batch_due E X a view env =
     (let b = batch_agent E X a view env
      in due_owners E b view env (period_expiry (the (ta_period_start b)) (en_epoch env)))"

lemma attestation_round_Inr:
  assumes "build_attestation_round E X draw shuffle a view env holding_publicly generation = (Inr round, b)"
    and "counted_investors E (batch_agent E X a view env) view env holding_publicly = Inr before"
  obtains s pads where
    "try_fold (admit E (batch_agent E X a view env) before) \<lparr>ad_counted = before, ad_owners = [], ad_over_cap = []\<rparr>
       (batch_due E X a view env) = Inr s"
    and "rn_over_cap round = ad_over_cap s"
    and "ab_parts (rn_batch round) = chunks ATTESTATION_PART (shuffle (ad_owners s @ pads))"
    and "ad_owners s = [] \<longrightarrow> pads = []"
    and "ad_owners s \<noteq> [] \<longrightarrow> length pads
       = length (draw (next_multiple_of (length (ad_owners s)) ATTESTATION_PART - length (ad_owners s)))"
proof -
  let ?b = "batch_agent E X a view env"
  let ?adm = "try_fold (admit E ?b before) \<lparr>ad_counted = before, ad_owners = [], ad_over_cap = []\<rparr> (batch_due E X a view env)"
  have eq: "build_attestation_round E X draw shuffle a view env holding_publicly generation
    = (case ?adm of Inl e \<Rightarrow> (Inl e, ?b)
       | Inr s \<Rightarrow>
          (let n = length (ad_owners s);
               (pads, a) = (if n = 0 then ([], ?b) else fresh_padding E X (draw (next_multiple_of n ATTESTATION_PART - n)) ?b)
           in (Inr \<lparr>rn_batch = \<lparr>ab_parts = chunks ATTESTATION_PART (shuffle (ad_owners s @ pads)),
                   ab_expires_at = period_expiry (the (ta_period_start ?b)) (en_epoch env), ab_generation = generation\<rparr>,
                   rn_over_cap = ad_over_cap s\<rparr>, a)))"
    using assms(2) unfolding build_attestation_round_def batch_agent_def batch_due_def Let_def
    by (auto split: sum.split)
  then obtain s where s: "?adm = Inr s" using assms(1) by (cases ?adm) simp_all
  let ?n = "length (ad_owners s)"
  let ?pads = "fst (if ?n = 0 then ([], ?b) else fresh_padding E X (draw (next_multiple_of ?n ATTESTATION_PART - ?n)) ?b)"
  have "rn_over_cap round = ad_over_cap s"
    and "ab_parts (rn_batch round) = chunks ATTESTATION_PART (shuffle (ad_owners s @ ?pads))"
    using assms(1) unfolding eq s by (auto simp: Let_def case_prod_unfold)
  with s show thesis by (intro that [of s ?pads]) (simp_all add: length_fresh_padding)
qed

section \<open>The period\<close>

lemma unat_add_small: "unat a + unat b < 2 ^ 64 \<Longrightarrow> unat (a + b :: u64) = unat a + unat b"
  by (simp add: unat_word_ariths(1))

lemma unat_mul_small: "unat a * unat b < 2 ^ 64 \<Longrightarrow> unat (a * b :: u64) = unat a * unat b"
  by (simp add: unat_word_ariths(2))

lemma unat_period:
  fixes start epoch :: u64
  assumes "start \<le> epoch" and "unat epoch < 2 ^ 40"
  shows "unat (period_expiry start epoch)
    = (unat start + ((unat epoch + 3 - unat start) div 30 + 1) * 30) * 86400"
proof -
  let ?s = "unat start" and ?e = "unat epoch"
  let ?p = "(?e + 3 - ?s) div 30"
  have se: "?s \<le> ?e" using assms(1) by (simp add: word_le_nat_alt)
  have a: "unat (epoch + 3) = ?e + 3" using assms(2) unat_add_small [of epoch 3] by simp
  then have "start \<le> epoch + 3" using se by (simp add: word_le_nat_alt)
  then have b: "unat (epoch + 3 - start) = ?e + 3 - ?s" using a by (simp add: unat_sub_if_size word_le_nat_alt)
  define p where "p = (epoch + 3 - start) div 30"
  have c: "unat p = ?p" by (simp add: p_def unat_div_distrib b)
  have le: "?p \<le> ?e + 3" using div_le_dividend [of "?e + 3 - ?s" 30] by linarith
  define q where "q = p + 1"
  have d: "unat q = ?p + 1" using le assms(2) unat_add_small [of p 1] by (simp add: q_def c)
  define r where "r = q * 30"
  have e: "unat r = (?p + 1) * 30" using le assms(2) unat_mul_small [of q 30] by (simp add: r_def d)
  define t where "t = start + r"
  have f: "unat t = ?s + (?p + 1) * 30" using le se assms(2) unat_add_small [of start r] by (simp add: t_def e)
  have "unat (t * 86400) = (?s + (?p + 1) * 30) * 86400"
    using le se assms(2) unat_mul_small [of t 86400] by (simp add: f)
  then show ?thesis
    by (simp add: period_expiry_def ATTESTATION_PERIOD_def ATTESTATION_OVERLAP_def EPOCH_SECONDS_def Let_def
        t_def r_def q_def p_def)
qed

section \<open>Rotation\<close>

lemma keys_ok_absent:
  assumes "keys_ok a" and "length (ta_register_keys a) < 2 ^ 64"
  shows "\<forall>x \<in> set (map fst (ta_register_keys a)). x < word_of_nat (length (ta_register_keys a))"
proof -
  have "map fst (ta_register_keys a) = map word_of_nat [0..<length (ta_register_keys a)]"
    using assms(1) by (simp add: keys_ok_def)
  then show ?thesis using assms(2) by (auto simp: word_less_nat_alt)
qed

lemma map_of_snoc_key: "v \<noteq> k \<Longrightarrow> map_of (ks @ [(k, x)]) v = map_of ks v"
  by (simp add: map_add_def split: option.split)

lemma filter_snoc_find:
  assumes "P x" shows "\<exists>y. find P (xs @ [x]) = Some y \<and> P y"
  using assms by (induction xs) auto

end
