(* ===== verification/Fund_Handout.thy ===== *)
theory Fund_Handout
  imports Fund_Agent
begin

text \<open>
  The hand-out tree of the transfer agent: the invariant of the planning loop (each queued group is
  an agent note of an earlier transfer with the units of its orders, and the notes left unspent are
  those of the orders handled and of the groups queued), and that the loop ends.
\<close>

text \<open>
  The hand-out tree: \<^const>\<open>plan_hand_out\<close> returns, and its plan spends the day's aggregate note down
  to the orders' notes. The invariant of its queue carries the proof.
\<close>

section \<open>What a plan promises\<close>

definition output_at :: "'fr planned_hand_out \<Rightarrow> nat \<Rightarrow> 'fr note_output" where
  "output_at p k = (if k = 0 then fst (ph_outputs p) else snd (ph_outputs p))"

definition nat_units :: "'fr hand_out_order list \<Rightarrow> nat" where
  "nat_units orders = sum_list (map (\<lambda>ord. unat (ho_units ord)) orders)"

definition source_units :: "'fr hand_out_order list \<Rightarrow> 'fr planned_hand_out list \<Rightarrow> hand_out_source \<Rightarrow> nat" where
  "source_units orders plan s =
     (case s of Aggregate \<Rightarrow> nat_units orders | OutputOf t k \<Rightarrow> unat (out_units (output_at (plan ! t) k)))"

text \<open>The outputs no transfer of \<open>S\<close> spends, the transfers counted from \<open>i\<close>.\<close>

primrec loose_outputs :: "hand_out_source set \<Rightarrow> nat \<Rightarrow> 'fr planned_hand_out list \<Rightarrow> 'fr note_output list" where
  "loose_outputs S i [] = []"
| "loose_outputs S i (p # ps) =
     map (output_at p) (filter (\<lambda>k. OutputOf i k \<notin> S) [0, 1]) @ loose_outputs S (Suc i) ps"

text \<open>A source comes from an earlier transfer; only the first transfer spends the aggregate.\<close>

definition source_before :: "nat \<Rightarrow> hand_out_source \<Rightarrow> bool" where
  "source_before i s = (case s of Aggregate \<Rightarrow> True | OutputOf t k \<Rightarrow> t < i \<and> k < 2)"

definition transfer_ok ::
    "'fr prims \<Rightarrow> 'fr fund_prims \<Rightarrow> 'fr agent \<Rightarrow> 'fr hand_out_order list \<Rightarrow> 'fr planned_hand_out list \<Rightarrow> nat \<Rightarrow> bool" where
  "transfer_ok E X a orders plan i \<longleftrightarrow>
     source_before i (ph_source (plan ! i))
     \<and> (\<forall>t k. ph_source (plan ! i) = OutputOf t k \<longrightarrow>
          (\<exists>u. output_at (plan ! t) k = agents_output E X a u))
     \<and> source_units orders plan (ph_source (plan ! i))
       = unat (out_units (output_at (plan ! i) 0)) + unat (out_units (output_at (plan ! i) 1))"

section \<open>The loop\<close>

definition transfers_for :: "'a list \<Rightarrow> nat" where "transfers_for g = max 1 (length g - 1)"

definition change_of :: "'fr prims \<Rightarrow> 'fr fund_prims \<Rightarrow> 'fr agent \<Rightarrow> 'fr hand_out_order list \<Rightarrow> 'fr note_output list" where
  "change_of E X a orders = (if length orders = 1 then [agents_output E X a 0] else [])"

definition sources :: "'fr planned_hand_out list \<Rightarrow> 'fr hand_out_queue \<Rightarrow> hand_out_source list" where
  "sources plan queue = map ph_source plan @ map fst queue"

definition queued_ok ::
    "'fr prims \<Rightarrow> 'fr fund_prims \<Rightarrow> 'fr agent \<Rightarrow> 'fr hand_out_order list \<Rightarrow> 'fr planned_hand_out list
     \<Rightarrow> hand_out_source \<times> 'fr hand_out_order list \<Rightarrow> bool" where
  "queued_ok E X a orders plan = (\<lambda>(s, g).
     nat_units g < 2 ^ 64 \<and> source_before (length plan) s \<and>
     (case s of Aggregate \<Rightarrow> g = orders \<and> orders \<noteq> [] \<and> plan = []
      | OutputOf t k \<Rightarrow> 2 \<le> length g \<and> output_at (plan ! t) k = agents_output E X a (order_units g)))"

definition hand_inv ::
    "'fr prims \<Rightarrow> 'fr fund_prims \<Rightarrow> 'fr agent \<Rightarrow> 'fr hand_out_order list \<Rightarrow> 'fr planned_hand_out list
     \<Rightarrow> 'fr hand_out_queue \<Rightarrow> bool" where
  "hand_inv E X a orders plan queue \<longleftrightarrow>
     distinct (sources plan queue) \<and> list_all (queued_ok E X a orders plan) queue \<and>
     (\<forall>i < length plan. transfer_ok E X a orders plan i) \<and>
     mset (loose_outputs (set (sources plan queue)) 0 plan) + mset (map (order_output E) (concat (map snd queue)))
     = mset (map (order_output E) orders) + (if plan = [] then {#} else mset (change_of E X a orders))"

lemma unat_order_units: "nat_units g < 2 ^ 64 \<Longrightarrow> unat (order_units g) = nat_units g"
proof (induction g)
  case (Cons x g)
  then have "unat (order_units g) = nat_units g" and "unat (ho_units x) + nat_units g < 2 ^ 64"
    by (simp_all add: nat_units_def)
  then show ?case by (simp add: order_units_def nat_units_def unat_word_ariths)
qed (simp add: order_units_def nat_units_def)

lemma nat_units_append: "nat_units (g @ h) = nat_units g + nat_units h"
  by (simp add: nat_units_def)

lemma nat_units_single: "nat_units [x] = unat (ho_units x)"
  by (simp add: nat_units_def)

lemma loose_outputs_append:
  "loose_outputs S i (ps @ qs) = loose_outputs S i ps @ loose_outputs S (i + length ps) qs"
  by (induction ps arbitrary: i) simp_all

lemma loose_outputs_cong:
  assumes "\<And>j k. j < i + length ps \<Longrightarrow> OutputOf j k \<in> S \<longleftrightarrow> OutputOf j k \<in> T"
  shows "loose_outputs S i ps = loose_outputs T i ps"
  using assms by (induction ps arbitrary: i) simp_all

lemma output_at_0 [simp]: "output_at \<lparr>ph_source = s, ph_outputs = p\<rparr> 0 = fst p"
  and output_at_1 [simp]: "output_at \<lparr>ph_source = s, ph_outputs = p\<rparr> (Suc 0) = snd p"
  by (simp_all add: output_at_def)

lemma split_part_cases:
  assumes "part \<noteq> []" and "split_part E X a t k part = (out, later)"
  obtains x where "part = [x]" and "out = order_output E x" and "later = []"
  | "2 \<le> length part" and "out = agents_output E X a (order_units part)" and "later = [(OutputOf t k, part)]"
  using assms by (cases part; cases "tl part") (auto simp: split_part_def)

lemma order_output_units [simp]: "out_units (order_output E x) = ho_units x"
  and agents_output_units [simp]: "out_units (agents_output E X a u) = u"
  by (simp_all add: order_output_def agents_output_def)

lemma split_part_units:
  assumes "part \<noteq> []" and "split_part E X a t k part = (out, q)" and "nat_units part < 2 ^ 64"
  shows "unat (out_units out) = nat_units part"
  using assms(3) by (rule_tac split_part_cases [OF assms(1,2)]) (simp_all add: nat_units_single unat_order_units)

text \<open>What one round of the loop does with a group it takes from the queue.\<close>

lemma hand_out_node_cases:
  assumes "g \<noteq> []" and "hand_out_node E X a t g = (outs, later)"
  obtains x where "g = [x]" and "outs = (order_output E x, agents_output E X a 0)" and "later = []"
  | g0 g1 out0 out1 q0 q1 where "g = g0 @ g1" and "g0 \<noteq> []" and "g1 \<noteq> []"
      and "split_part E X a t 0 g0 = (out0, q0)" and "split_part E X a t 1 g1 = (out1, q1)"
      and "outs = (out0, out1)" and "later = q0 @ q1"
proof (cases "length g = 1")
  case True
  then obtain x where "g = [x]" by (auto simp: length_Suc_conv)
  then show ?thesis using assms that(1) by (simp add: hand_out_node_def)
next
  case False
  let ?h = "length g div 2"
  have two: "2 \<le> length g" using False assms(1) by (cases g; cases "tl g") auto
  obtain out0 q0 out1 q1 where parts: "split_part E X a t 0 (take ?h g) = (out0, q0)"
    "split_part E X a t 1 (drop ?h g) = (out1, q1)" by (meson surj_pair)
  have "take ?h g \<noteq> []" and "drop ?h g \<noteq> []" using two by auto
  moreover have "outs = (out0, out1)" and "later = q0 @ q1"
    using assms(2) parts two
    by (auto simp: hand_out_node_def Let_def split: list.splits)
  ultimately show ?thesis using that(2) [of "take ?h g" "drop ?h g"] parts by simp
qed

lemma split_part_transfers:
  assumes "g \<noteq> []" and "split_part E X a t k g = (out, q)"
  shows "length g = Suc (sum_list (map (transfers_for \<circ> snd) q))"
  by (rule split_part_cases [OF assms]) (auto simp: transfers_for_def)

lemma hand_out_node_transfers:
  assumes "g \<noteq> []" and "hand_out_node E X a t g = (outs, later)"
  shows "transfers_for g = Suc (sum_list (map (transfers_for \<circ> snd) later))"
proof (rule hand_out_node_cases [OF assms])
  fix g0 g1 out0 out1 q0 q1
  assume "g = g0 @ g1" and "g0 \<noteq> []" and "g1 \<noteq> []" and "later = q0 @ q1"
    and "split_part E X a t 0 g0 = (out0, q0)" and "split_part E X a t 1 g1 = (out1, q1)"
  then show ?thesis
    using split_part_transfers [of g0 E X a t 0 out0 q0] split_part_transfers [of g1 E X a t 1 out1 q1]
    by (simp add: transfers_for_def [of "g0 @ g1"])
qed (simp add: transfers_for_def)

text \<open>The outputs of a round: each is an order's note, or the agent's note for the group queued with it.\<close>

lemma split_part_loose:
  assumes "g \<noteq> []" and "split_part E X a t k g = (out, q)"
  shows "mset (if OutputOf t k \<in> fst ` set q then [] else [out]) + mset (map (order_output E) (concat (map snd q)))
         = mset (map (order_output E) g)"
    and "fst ` set q \<subseteq> {OutputOf t k}" and "distinct (map fst q)"
    and "list_all (\<lambda>(s, h). s = OutputOf t k \<and> h = g \<and> 2 \<le> length g \<and> out = agents_output E X a (order_units g)) q"
  by (rule split_part_cases [OF assms]; simp)+

lemma hand_out_node_loose:
  assumes "g \<noteq> []" and "hand_out_node E X a t g = (outs, later)"
  shows "mset (loose_outputs (fst ` set later) t [\<lparr>ph_source = s, ph_outputs = outs\<rparr>])
           + mset (map (order_output E) (concat (map snd later)))
         = mset (map (order_output E) g) + mset (change_of E X a g)"
proof (rule hand_out_node_cases [OF assms])
  fix g0 g1 out0 out1 q0 q1
  assume g: "g = g0 @ g1" "g0 \<noteq> []" "g1 \<noteq> []" and q: "outs = (out0, out1)" "later = q0 @ q1"
    and sp: "split_part E X a t 0 g0 = (out0, q0)" "split_part E X a t 1 g1 = (out1, q1)"
  have "change_of E X a g = []" using g by (cases g0; cases g1) (simp_all add: change_of_def)
  moreover have "OutputOf t 0 \<notin> fst ` set q1" and "OutputOf t 1 \<notin> fst ` set q0"
    using split_part_loose(2) [OF g(2) sp(1)] split_part_loose(2) [OF g(3) sp(2)] by auto
  moreover from this have "mset (loose_outputs (fst ` set later) t [\<lparr>ph_source = s, ph_outputs = outs\<rparr>])
      = mset (if OutputOf t 0 \<in> fst ` set q0 then [] else [out0])
        + mset (if OutputOf t 1 \<in> fst ` set q1 then [] else [out1])"
    by (simp add: q image_Un)
  moreover have "mset (map (order_output E) g) = mset (map (order_output E) g0) + mset (map (order_output E) g1)"
    and "mset (map (order_output E) (concat (map snd later)))
      = mset (map (order_output E) (concat (map snd q0))) + mset (map (order_output E) (concat (map snd q1)))"
    by (simp_all add: g q)
  ultimately show ?thesis
    unfolding split_part_loose(1) [OF g(2) sp(1), symmetric] split_part_loose(1) [OF g(3) sp(2), symmetric]
    by (simp only: ac_simps mset.simps add_0)
qed (simp add: change_of_def)

lemma hand_out_node_units:
  assumes "g \<noteq> []" and "hand_out_node E X a t g = (outs, later)" and "nat_units g < 2 ^ 64"
  shows "unat (out_units (fst outs)) + unat (out_units (snd outs)) = nat_units g"
proof (rule hand_out_node_cases [OF assms(1,2)])
  fix g0 g1 out0 out1 q0 q1
  assume g: "g = g0 @ g1" "g0 \<noteq> []" "g1 \<noteq> []" and q: "outs = (out0, out1)"
    and sp: "split_part E X a t 0 g0 = (out0, q0)" "split_part E X a t 1 g1 = (out1, q1)"
  then show ?thesis
    using split_part_units [OF g(2) sp(1)] split_part_units [OF g(3) sp(2)] assms(3) by (simp add: nat_units_append)
qed (simp add: nat_units_def)

lemma hand_out_node_distinct:
  assumes "g \<noteq> []" and "hand_out_node E X a t g = (outs, later)"
  shows "distinct (map fst later)"
proof (rule hand_out_node_cases [OF assms])
  fix g0 g1 out0 out1 q0 q1
  assume g: "g0 \<noteq> []" "g1 \<noteq> []" and q: "later = q0 @ q1"
    and sp: "split_part E X a t 0 g0 = (out0, q0)" "split_part E X a t 1 g1 = (out1, q1)"
  show ?thesis
    using split_part_loose(2,3) [OF g(1) sp(1)] split_part_loose(2,3) [OF g(2) sp(2)] by (fastforce simp: q)
qed simp

lemma hand_out_node_queue:
  assumes "g \<noteq> []" and "hand_out_node E X a t g = (outs, later)" and "nat_units g < 2 ^ 64" and later: "(s, h) \<in> set later"
  shows "\<exists>k < 2. s = OutputOf t k \<and> 2 \<le> length h \<and> nat_units h < 2 ^ 64
           \<and> output_at \<lparr>ph_source = src, ph_outputs = outs\<rparr> k = agents_output E X a (order_units h)"
proof (rule hand_out_node_cases [OF assms(1,2)])
  fix g0 g1 out0 out1 q0 q1
  assume g: "g = g0 @ g1" "g0 \<noteq> []" "g1 \<noteq> []" and q: "outs = (out0, out1)" "later = q0 @ q1"
    and sp: "split_part E X a t 0 g0 = (out0, q0)" "split_part E X a t 1 g1 = (out1, q1)"
  have le: "nat_units g0 < 2 ^ 64" "nat_units g1 < 2 ^ 64" using assms(3) by (simp_all add: g nat_units_append)
  consider "(s, h) \<in> set q0" | "(s, h) \<in> set q1" using later by (auto simp: q)
  then show ?thesis
  proof cases
    case 1
    then show ?thesis
      using split_part_loose(4) [OF g(2) sp(1)] le(1) by (intro exI [of _ 0]) (auto simp: list_all_iff q)
  next
    case 2
    then show ?thesis
      using split_part_loose(4) [OF g(3) sp(2)] le(2) by (intro exI [of _ 1]) (auto simp: list_all_iff q)
  qed
qed (use later in simp)

section \<open>The invariant of the loop\<close>

lemma transfer_ok_append:
  assumes "transfer_ok E X a orders plan i" and "i < length plan"
  shows "transfer_ok E X a orders (plan @ [p]) i"
  using assms by (auto simp: transfer_ok_def source_units_def source_before_def nth_append split: hand_out_source.splits)

lemma queued_ok_append:
  assumes "queued_ok E X a orders plan (s, g)" and "s \<noteq> Aggregate"
  shows "queued_ok E X a orders (plan @ [p]) (s, g)"
  using assms by (auto simp: queued_ok_def source_before_def nth_append split: hand_out_source.splits)

lemma hand_invD:
  assumes "hand_inv E X a orders plan queue"
  shows "distinct (sources plan queue)" and "q \<in> set queue \<Longrightarrow> queued_ok E X a orders plan q"
    and "i < length plan \<Longrightarrow> transfer_ok E X a orders plan i"
  using assms unfolding hand_inv_def list_all_iff by blast+

lemma queued_okD:
  assumes "queued_ok E X a orders plan (s, g)"
  shows "g \<noteq> []" and "nat_units g < 2 ^ 64" and "source_before (length plan) s" and "s = Aggregate \<Longrightarrow> plan = []"
  using assms by (auto simp: queued_ok_def split: hand_out_source.splits)

lemma source_before_mono: "source_before i s \<Longrightarrow> i \<le> j \<Longrightarrow> source_before j s"
  by (auto simp: source_before_def split: hand_out_source.splits)

lemma sources_before:
  assumes "hand_inv E X a orders plan queue" and "s \<in> set (sources plan queue)"
  shows "source_before (length plan) s"
proof -
  from assms(2) consider i where "i < length plan" and "s = ph_source (plan ! i)" | g where "(s, g) \<in> set queue"
    by (auto simp: sources_def in_set_conv_nth)
  then show ?thesis
  proof cases
    case 1
    then have "source_before i s" using hand_invD(3) [OF assms(1)] by (simp add: transfer_ok_def)
    then show ?thesis by (rule source_before_mono) (use 1 in simp)
  next
    case 2
    then show ?thesis using hand_invD(2) [OF assms(1)] queued_okD(3) by blast
  qed
qed

lemma no_aggregate_behind:
  assumes "hand_inv E X a orders plan ((s, g) # rest)" and "(s', g') \<in> set rest"
  shows "s' \<noteq> Aggregate"
proof
  assume agg: "s' = Aggregate"
  then have "plan = []" using hand_invD(2) [OF assms(1), of "(s', g')"] assms(2) queued_okD(4) by fastforce
  then have "s = Aggregate"
    using sources_before [OF assms(1), of s] by (auto simp: sources_def source_before_def split: hand_out_source.splits)
  then show False using hand_invD(1) [OF assms(1)] assms(2) agg by (force simp: sources_def)
qed

lemma new_transfer_ok:
  assumes "queued_ok E X a orders plan (s, g)" and "hand_out_node E X a (length plan) g = (outs, later)"
  shows "transfer_ok E X a orders (plan @ [\<lparr>ph_source = s, ph_outputs = outs\<rparr>]) (length plan)"
proof -
  have small: "nat_units g < 2 ^ 64" using assms(1) by (simp add: queued_ok_def)
  then have "unat (out_units (fst outs)) + unat (out_units (snd outs)) = nat_units g"
    using hand_out_node_units [OF queued_okD(1) [OF assms(1)] assms(2)] by simp
  then show ?thesis
    using assms(1) unat_order_units [OF small]
    by (auto simp: transfer_ok_def queued_ok_def source_units_def source_before_def nth_append split: hand_out_source.splits)
qed

lemma hand_inv_step:
  assumes inv: "hand_inv E X a orders plan ((s, g) # rest)"
    and node: "hand_out_node E X a (length plan) g = (outs, later)"
  shows "hand_inv E X a orders (plan @ [\<lparr>ph_source = s, ph_outputs = outs\<rparr>]) (rest @ later)"
proof -
  let ?p = "\<lparr>ph_source = s, ph_outputs = outs\<rparr>" and ?n = "length plan"
  let ?S = "set (sources plan ((s, g) # rest))" and ?T = "set (sources (plan @ [?p]) (rest @ later))"
  have ok: "queued_ok E X a orders plan (s, g)" using hand_invD(2) [OF inv] by simp
  note ne = queued_okD(1) [OF ok] and small = queued_okD(2) [OF ok]
  have src: "sources (plan @ [?p]) (rest @ later) = sources plan ((s, g) # rest) @ map fst later"
    by (simp add: sources_def)
  have old: "OutputOf ?n k \<notin> ?S" for k
    using sources_before [OF inv, of "OutputOf ?n k"] by (auto simp: source_before_def)
  have new: "\<exists>k. x = OutputOf ?n k" if "x \<in> fst ` set later" for x
    using hand_out_node_queue [OF ne node small] that by fastforce
  have 1: "distinct (sources (plan @ [?p]) (rest @ later))"
    using hand_invD(1) [OF inv] hand_out_node_distinct [OF ne node] old new by (fastforce simp: src)
  have "queued_ok E X a orders (plan @ [?p]) (s', g')" if "(s', g') \<in> set (rest @ later)" for s' g'
  proof (cases "(s', g') \<in> set rest")
    case True
    then show ?thesis
      using hand_invD(2) [OF inv, of "(s', g')"] queued_ok_append no_aggregate_behind [OF inv True] by simp
  next
    case False
    then have "(s', g') \<in> set later" using that by simp
    then show ?thesis
      using hand_out_node_queue [OF ne node small, of s' g' s] by (auto simp: queued_ok_def source_before_def)
  qed
  then have 2: "list_all (queued_ok E X a orders (plan @ [?p])) (rest @ later)" by (auto simp: list_all_iff)
  have 3: "transfer_ok E X a orders (plan @ [?p]) i" if "i < length (plan @ [?p])" for i
    using that hand_invD(3) [OF inv, of i] new_transfer_ok [OF ok node] transfer_ok_append
    by (cases "i = ?n") (auto simp: less_Suc_eq)
  have l1: "loose_outputs ?T 0 plan = loose_outputs ?S 0 plan"
    by (rule loose_outputs_cong) (use new in \<open>auto simp: src\<close>)
  have l2: "loose_outputs ?T ?n [?p] = loose_outputs (fst ` set later) ?n [?p]"
    using old by (simp add: src)
  have "mset (loose_outputs ?T 0 (plan @ [?p])) + mset (map (order_output E) (concat (map snd (rest @ later))))
      = mset (loose_outputs ?S 0 plan) + mset (map (order_output E) (concat (map snd rest)))
        + (mset (map (order_output E) g) + mset (change_of E X a g))"
    unfolding hand_out_node_loose [OF ne node, symmetric, of s] by (simp only: loose_outputs_append l1 l2
        mset_append map_append concat_append add_0 ac_simps)
  also have "\<dots> = mset (map (order_output E) orders) + mset (change_of E X a orders)"
    using inv ok by (auto simp: hand_inv_def queued_ok_def ac_simps change_of_def source_before_def split: hand_out_source.splits)
  finally show ?thesis using 1 2 3 by (simp add: hand_inv_def)
qed

text \<open>The loop returns: every round plans one of the transfers its group takes.\<close>

lemma hand_out_loop_inv:
  assumes "hand_inv E X a orders plan queue"
  shows "\<exists>r. hand_out_loop E X a plan queue = Some r \<and> hand_inv E X a orders r []
           \<and> length r = length plan + sum_list (map (transfers_for \<circ> snd) queue)"
  using assms
proof (induction "sum_list (map (transfers_for \<circ> snd) queue)" arbitrary: plan queue rule: less_induct)
  case less
  show ?case
  proof (cases queue)
    case Nil
    then show ?thesis using less.prems by (simp add: hand_out_loop.simps)
  next
    case (Cons sg rest)
    obtain s g where sg: "sg = (s, g)" by (cases sg)
    obtain outs later where node: "hand_out_node E X a (length plan) g = (outs, later)" by (meson surj_pair)
    have "g \<noteq> []" using hand_invD(2) [OF less.prems, of sg] queued_okD(1) Cons sg by fastforce
    note tr = hand_out_node_transfers [OF this node]
    have "hand_inv E X a orders (plan @ [\<lparr>ph_source = s, ph_outputs = outs\<rparr>]) (rest @ later)"
      using hand_inv_step [OF _ node] less.prems Cons sg by simp
    from less.hyps [OF _ this] show ?thesis
      using tr by (simp add: Cons sg node hand_out_loop.simps [of E X a plan "(s, g) # rest"] add.commute add.left_commute)
  qed
qed

lemma plan_hand_out_inv:
  assumes "nat_units orders < 2 ^ 64"
  shows "\<exists>plan. plan_hand_out E X a orders = Some plan \<and> hand_inv E X a orders plan []
           \<and> length plan = (if orders = [] then 0 else transfers_for orders)"
proof -
  have "hand_inv E X a orders [] (if orders = [] then [] else [(Aggregate, orders)])"
    using assms by (simp add: hand_inv_def sources_def queued_ok_def source_before_def)
  from hand_out_loop_inv [OF this] show ?thesis
    by (auto simp: plan_hand_out_def split: if_splits)
qed

end
