(* ===== verification/Fund_Accounting.thy ===== *)
theory Fund_Accounting
  imports Fund_Register "HOL-Library.Multiset"
begin

text \<open>
  Amounts: selection of notes and change, the units and shares of the register, the withdrawals of
  the logs, and the arithmetic of the periods, all from words to natural numbers.
\<close>

section \<open>Selecting the inputs of a payment\<close>

definition units_of :: "'fr owned_note \<Rightarrow> nat" where
  "units_of n = unat (fn_units (on_note n))"

definition nat_sum :: "'fr owned_note list \<Rightarrow> nat" where
  "nat_sum ns = sum_list (map units_of ns)"

lemma unat_sum_units: "nat_sum ns < 2 ^ 64 \<Longrightarrow> unat (sum_units ns) = nat_sum ns"
proof (induction ns)
  case (Cons n ns)
  then have "unat (sum_units ns) = nat_sum ns" and "units_of n + nat_sum ns < 2 ^ 64" by (simp_all add: nat_sum_def)
  then show ?case by (simp add: sum_units_def nat_sum_def units_of_def unat_word_ariths)
qed (simp add: sum_units_def nat_sum_def)

lemma nat_sum_mset: "nat_sum ns = sum_mset (image_mset units_of (mset ns))"
  by (induction ns) (simp_all add: nat_sum_def)

lemma nat_sum_mono: "mset ns \<subseteq># mset ms \<Longrightarrow> nat_sum ns \<le> nat_sum ms"
  by (auto simp: nat_sum_mset mset_subset_eq_exists_conv)

text \<open>No choice of at most two notes of a list sorted downwards is worth more than its first two.\<close>

lemma two_largest:
  assumes "sorted_wrt (\<lambda>x y. units_of y \<le> units_of x) ms" and "mset ns \<subseteq># mset ms" and "length ns \<le> 2"
  shows "nat_sum ns \<le> nat_sum (take 2 ms)"
proof (cases ms)
  case (Cons a as)
  have top: "units_of x \<le> units_of a" if "x \<in># mset ms" for x using that assms(1) Cons by auto
  have snd: "units_of x \<le> units_of (hd as)" if "x \<in> set as" for x
    using that assms(1) Cons by (cases as) auto
  consider "ns = []" | x where "ns = [x]" | x y where "ns = [x, y]"
    using assms(3) by (cases ns; cases "tl ns"; auto)
  then show ?thesis
  proof cases
    case 2
    then have "x \<in># mset ms" using assms(2) by simp
    from top [OF this] show ?thesis using 2 Cons by (simp add: nat_sum_def)
  next
    case 3
    have sub: "{#x, y#} \<subseteq># add_mset a (mset as)" using assms(2) 3 Cons by simp
    then have xy: "x \<in># mset ms" "y \<in># mset ms" unfolding Cons by (auto dest: mset_subset_eqD)
    have "x \<in> set as \<or> y \<in> set as"
    proof (rule ccontr)
      assume "\<not> (x \<in> set as \<or> y \<in> set as)"
      then have "x = a" and "y = a" using xy Cons by auto
      then have "a \<in># mset as" using sub by simp
      then show False using \<open>x = a\<close> \<open>\<not> (x \<in> set as \<or> y \<in> set as)\<close> by simp
    qed
    then have ne: "as \<noteq> []" and "units_of x \<le> units_of (hd as) \<or> units_of y \<le> units_of (hd as)" using snd by auto
    then have "units_of x + units_of y \<le> units_of a + units_of (hd as)" using top [OF xy(1)] top [OF xy(2)] by linarith
    then show ?thesis using 3 Cons ne by (cases as) (simp_all add: nat_sum_def)
  qed (simp add: nat_sum_def)
qed (use assms in \<open>simp add: nat_sum_def\<close>)

lemma find_SomeD: "find P xs = Some x \<Longrightarrow> x \<in> set xs \<and> P x"
  by (induction xs) (auto split: if_splits)

lemma change_adds_up:
  assumes "nat_sum sp < 2 ^ 64" and "mset ins \<subseteq># mset sp" and "unat units \<le> nat_sum ins"
  shows "unat (sum_units ins - units) + unat units = nat_sum ins"
proof -
  have "unat (sum_units ins) = nat_sum ins"
    using nat_sum_mono [OF assms(2)] assms(1) by (intro unat_sum_units) linarith
  then show ?thesis using assms(3) by (simp add: unat_sub_if_size word_le_nat_alt)
qed

lemma top_two:
  fixes sp :: "'fr owned_note list"
  assumes "nat_sum sp < 2 ^ 64"
  defines "best \<equiv> take 2 (rev (sort_key (\<lambda>n. fn_units (on_note n)) sp))"
  shows "mset best \<subseteq># mset sp" and "unat (sum_units best) = nat_sum best"
    and "mset xs \<subseteq># mset sp \<Longrightarrow> length xs \<le> 2 \<Longrightarrow> nat_sum xs \<le> nat_sum best"
proof -
  let ?ns = "sort_key (\<lambda>n. fn_units (on_note n)) sp"
  have "mset best \<subseteq># mset (rev ?ns)"
    unfolding best_def by (metis append_take_drop_id mset_append mset_subset_eq_add_left)
  then show sub: "mset best \<subseteq># mset sp" by simp
  show "unat (sum_units best) = nat_sum best"
    using nat_sum_mono [OF sub] assms(1) by (intro unat_sum_units) linarith
  have "sorted_wrt (\<lambda>x y. units_of y \<le> units_of x) (rev ?ns)"
    using sorted_sort_key [of "\<lambda>n. fn_units (on_note n)" sp]
    by (simp add: sorted_wrt_rev sorted_map units_of_def word_le_nat_alt)
  from two_largest [OF this] show "mset xs \<subseteq># mset sp \<Longrightarrow> length xs \<le> 2 \<Longrightarrow> nat_sum xs \<le> nat_sum best"
    by (simp add: best_def)
qed

section \<open>Reconciliation\<close>

definition unspent :: "'fr agent \<Rightarrow> 'fr register_entry list" where
  "unspent a = filter (\<lambda>e. \<not> re_spent e) (ta_register a)"

definition shares_of :: "uint256 \<Rightarrow> 'fr register_entry \<Rightarrow> nat" where
  "shares_of m e = unat (fn_units (re_note e)) * unat m div 10 ^ 18"

lemma unat_sum_list_small:
  fixes f :: "'b \<Rightarrow> 'a::len word"
  assumes "\<And>x. x \<in> set xs \<Longrightarrow> unat (f x) \<le> b" and "length xs * b < 2 ^ LENGTH('a)"
  shows "unat (sum_list (map f xs)) = sum_list (map (\<lambda>x. unat (f x)) xs)"
proof -
  have "unat (sum_list (map f ys)) = sum_list (map (\<lambda>x. unat (f x)) ys) \<and> sum_list (map (\<lambda>x. unat (f x)) ys) \<le> length ys * b"
    if "set ys \<subseteq> set xs" and "length ys \<le> length xs" for ys
    using that
  proof (induction ys)
    case (Cons y ys)
    then have IH: "unat (sum_list (map f ys)) = sum_list (map (\<lambda>x. unat (f x)) ys)"
        "sum_list (map (\<lambda>x. unat (f x)) ys) \<le> length ys * b" and y: "unat (f y) \<le> b"
      using assms(1) by auto
    have "unat (f y) + sum_list (map (\<lambda>x. unat (f x)) ys) \<le> length (y # ys) * b" using IH(2) y by simp
    moreover have "length (y # ys) * b \<le> length xs * b" using Cons.prems(2) by (intro mult_le_mono) simp_all
    ultimately show ?case using IH(1) assms(2) by (simp add: unat_word_ariths(1))
  qed simp
  then show ?thesis by blast
qed

lemma unat_ucast_u64 [simp]:
  "unat (ucast (u :: u64) :: u128) = unat u" "unat (ucast (u :: u64) :: uint256) = unat u"
  using unat_bound [of u] by (simp_all add: unsigned_ucast_eq take_bit_nat_eq_self)

lemma unat_total_units:
  assumes "length (ta_register a) < 2 ^ 64"
  shows "unat (total_units a) = sum_list (map (\<lambda>e. unat (fn_units (re_note e))) (unspent a))"
proof -
  have len: "length (unspent a) \<le> length (ta_register a)" by (simp add: unspent_def)
  have "unat (total_units a) = sum_list (map (\<lambda>e. unat (ucast (fn_units (re_note e)) :: u128)) (unspent a))"
    unfolding total_units_def unspent_def [symmetric]
  proof (rule unat_sum_list_small [where b = "2 ^ 64"])
    fix e :: "'a register_entry"
    show "unat (ucast (fn_units (re_note e)) :: u128) \<le> 2 ^ 64" using unat_bound [of "fn_units (re_note e)"] by simp
    show "length (unspent a) * 2 ^ 64 < 2 ^ LENGTH(128)" using len assms by simp
  qed
  then show ?thesis by simp
qed

lemma unat_share:
  assumes "unat m < 2 ^ 128"
  shows "unat (ucast (fn_units (re_note e)) * m div (ucast MULTIPLIER_SCALE :: uint256)) = shares_of m e"
    and "shares_of m e \<le> 2 ^ 192"
proof -
  let ?u = "unat (fn_units (re_note e))"
  have u: "?u < 2 ^ 64" using unat_bound [of "fn_units (re_note e)"] by simp
  have lt: "?u * unat m < 2 ^ 192" using mult_strict_mono [OF u assms] by simp
  have "unat (ucast MULTIPLIER_SCALE :: uint256) = 10 ^ 18" by (simp add: MULTIPLIER_SCALE_def)
  then show "unat (ucast (fn_units (re_note e)) * m div (ucast MULTIPLIER_SCALE :: uint256)) = shares_of m e"
    using lt by (simp add: shares_of_def unat_div_distrib unat_word_ariths(2))
  show "shares_of m e \<le> 2 ^ 192"
    using lt div_le_dividend [of "?u * unat m" "10 ^ 18"] by (simp add: shares_of_def)
qed

lemma remainder_Some:
  assumes "remainder a bal m = Some r" and "unat m < 2 ^ 128" and "length (ta_register a) < 2 ^ 64"
  shows "sum_list (map (shares_of m) (unspent a)) + unat r = unat bal"
proof -
  let ?f = "\<lambda>e. ucast (fn_units (re_note e)) * m div (ucast MULTIPLIER_SCALE :: uint256)"
  have len: "length (unspent a) \<le> length (ta_register a)" by (simp add: unspent_def)
  have "unat (sum_list (map ?f (unspent a))) = sum_list (map (\<lambda>e. unat (?f e)) (unspent a))"
  proof (rule unat_sum_list_small [where b = "2 ^ 192"])
    fix e :: "'a register_entry"
    show "unat (?f e) \<le> 2 ^ 192" using unat_share [OF assms(2), of e] by simp
    show "length (unspent a) * 2 ^ 192 < 2 ^ LENGTH(256)" using len assms(3) by simp
  qed
  then have "unat (sum_list (map ?f (unspent a))) = sum_list (map (shares_of m) (unspent a))"
    by (simp only: unat_share(1) [OF assms(2)])
  moreover have "checked_sub bal (sum_list (map ?f (unspent a))) = Some r"
    using assms(1) by (simp add: remainder_def unspent_def Let_def)
  ultimately show ?thesis by (auto dest!: checked_sub_SomeD simp: word_le_nat_alt)
qed

section \<open>Explained outflows\<close>

fun withdrawals_of :: "pool_log list \<Rightarrow> withdrawal list" where
  "withdrawals_of [] = []"
| "withdrawals_of (WithdrawLog n recipient units shares tx # logs) = (tx, recipient, shares) # withdrawals_of logs"
| "withdrawals_of (_ # logs) = withdrawals_of logs"

lemma push_notes_withdrawals:
  assumes "try_fold (push_note E feed_r feed_ct payload) s jcs = Inr s'"
  shows "ss_withdrawals s' = ss_withdrawals s"
proof (rule try_fold_invariant [OF assms, where P = "\<lambda>t. ss_withdrawals t = ss_withdrawals s"])
  fix t jc u assume "ss_withdrawals t = ss_withdrawals s" "push_note E feed_r feed_ct payload t jc = Inr u"
  then show "ss_withdrawals u = ss_withdrawals s"
    using push_note_Inr [of E feed_r feed_ct payload t "fst jc" "snd jc" u] by simp metis
qed simp

lemma sync_pool_log_withdrawals:
  assumes "sync_pool_log E s log = Inr s'"
  shows "ss_withdrawals s' = ss_withdrawals s @ withdrawals_of [log]"
proof (cases log)
  case (DepositLog c feed_r feed_ct payload)
  with assms obtain x where "push_note E feed_r feed_ct payload s (0, x) = Inr s'"
    by (auto simp: sync_pool_log_def and_then_eq_Inr)
  then show ?thesis using push_notes_withdrawals [of E feed_r feed_ct payload s "[(0, x)]" s'] DepositLog by simp
next
  case (TransferLog n0 n1 c0 c1 feed_r feed_ct payload)
  from assms TransferLog obtain t u xs where "try_fold (push_note E feed_r feed_ct payload) t (enumerated xs) = Inr u"
    and "ss_withdrawals t = ss_withdrawals s" and "ss_withdrawals s' = ss_withdrawals u"
    by (auto simp: sync_pool_log_def and_then_eq_Inr Let_def simp del: try_map.simps)
  then show ?thesis using push_notes_withdrawals TransferLog by fastforce
qed (use assms in \<open>auto simp: sync_pool_log_def and_then_eq_Inr\<close>)

lemma withdrawals_of_append: "withdrawals_of (xs @ ys) = withdrawals_of xs @ withdrawals_of ys"
  by (induction xs rule: withdrawals_of.induct) simp_all

lemma sync_logs_withdrawals:
  assumes "try_fold (sync_pool_log E) s logs = Inr s'"
  shows "ss_withdrawals s' = ss_withdrawals s @ withdrawals_of logs"
  using assms
proof (induction logs arbitrary: s)
  case (Cons log logs)
  then obtain t where t: "sync_pool_log E s log = Inr t" "try_fold (sync_pool_log E) t logs = Inr s'"
    by (auto simp: and_then_eq_Inr)
  then show ?case
    using Cons.IH [OF t(2)] sync_pool_log_withdrawals [OF t(1)] withdrawals_of_append [of "[log]" logs] by simp
qed simp

end
