(* ===== verification/Sample_Fund.thy ===== *)
theory Sample_Fund
  imports Fund_Delivery Fund_Caps Fund_Handout Fund_Accounting Sample
begin

text \<open>
  A concrete instance of the primitives of the fund. The scalars are those of the sample, with a
  product in which 7 is a square root of 3: then the generator, its negative and infinity are closed
  under the addition of the code and form a group of order three. Sealing is the identity, signatures
  are empty, and the tree answers with empty paths. On it a payment runs from the payer's wallet to
  the register.
\<close>

section \<open>Primitives\<close>

definition fsample :: "sample_fr prims" where
  "fsample = sample\<lparr>fr_mul := (\<lambda>a b. if a = 7 \<and> b = 7 then 3 else a * b),
     t5_params := \<lparr>pp_ark = [], pp_mds = replicate 5 (replicate 5 1), pp_full_rounds = 0, pp_partial_rounds = 0, pp_alpha = 5\<rparr>\<rparr>"

definition seven_thirds :: sample_fr where
  "seven_thirds = 7 * 301541899055510925582216106793458093367890585066772302186087458353940441771"

definition xsample :: "sample_fr fund_prims" where
  "xsample =
     \<lparr>fr_sub = (-), fr_inverse = (\<lambda>_. Some seven_thirds), k256_from_slice = Some, k256_public = (\<lambda>sk. (sk, sk)),
      ecdsa_sign = (\<lambda>_ _. []), ecdsa_key_ok = (\<lambda>_. True), ecdsa_signature_ok = (\<lambda>_. True), ecdsa_verify = (\<lambda>_ _ _. True),
      view_public = (\<lambda>vk. vk), seal = (\<lambda>_ _ _ m _. m), seal_parses = (\<lambda>_. True), seal_open = (\<lambda>_ _ c _. Inr (Some c)),
      lean_root = (\<lambda>_ hs. if hs = [] then None else Some (last hs)),
      lean_proof = (\<lambda>_ hs i. if i < length hs then Some [] else None)\<rparr>"

lemma fsample_field_laws: "field_laws fsample"
proof -
  have "field_laws fsample \<longleftrightarrow> field_laws sample" by (simp add: field_laws_def fsample_def)
  then show ?thesis using sample_field_laws by simp
qed

lemma fsample_digest_laws: "digest_laws fsample"
  using sample_digest_laws by (simp add: digest_laws_def fsample_def)

lemma xsample_laws: "fund_laws fsample xsample"
  by (simp add: fund_laws_def xsample_def fsample_def sample_def)

section \<open>The group of order three\<close>

definition sample_y :: sample_fr where
  "sample_y = 17631683881184975370165255887551781615748388533673675138860"

definition point_g :: "sample_fr point" where "point_g = point_new 1 sample_y"
definition point_n :: "sample_fr point" where "point_n = point_new 1 (- sample_y)"

lemma seven_thirds_3: "3 * seven_thirds = 7"
  by (simp add: seven_thirds_def)

lemma fsample_simps [simp]:
  "fr_mul fsample a b = (if a = 7 \<and> b = 7 then 3 else a * b)" "fr_add fsample a b = a + b" "fr_of fsample n = ucast n"
  "fr_sub xsample a b = a - b" "fr_inverse xsample a = Some seven_thirds"
  by (simp_all add: fsample_def sample_def xsample_def)

lemma sample_generator: "GENERATOR fsample = point_g"
  by (simp add: GENERATOR_def point_g_def point_new_def sample_y_def) (simp add: fsample_def sample_def)

lemma sample_y_neq: "- sample_y \<noteq> sample_y" "sample_y \<noteq> 0" "sample_y \<noteq> - sample_y" "- sample_y \<noteq> 0"
  by (simp_all add: sample_y_def)

lemma sample_double:
  "point_double fsample xsample point_g = point_n" "point_double fsample xsample point_n = point_g"
  using sample_y_neq by (simp_all add: point_double_def point_g_def point_n_def point_new_def seven_thirds_3 Let_def)

lemma sample_add [simp]:
  "point_add fsample xsample point_g (point_infinity fsample) = point_g"
  "point_add fsample xsample point_n (point_infinity fsample) = point_n"
  "point_add fsample xsample point_g point_n = point_infinity fsample"
  "point_add fsample xsample point_n point_g = point_infinity fsample"
  "point_add fsample xsample point_g point_g = point_n"
  "point_add fsample xsample point_n point_n = point_g"
proof -
  have g: "\<not> pt_infinity point_g" "pt_x point_g = 1" "pt_y point_g = sample_y"
    and n: "\<not> pt_infinity point_n" "pt_x point_n = 1" "pt_y point_n = - sample_y"
    by (simp_all add: point_g_def point_n_def point_new_def)
  have i: "pt_infinity (point_infinity fsample)" by (simp add: point_infinity_def)
  show "point_add fsample xsample point_g (point_infinity fsample) = point_g"
    "point_add fsample xsample point_n (point_infinity fsample) = point_n"
    by (simp_all only: point_add_def g n i if_True if_False)
  show "point_add fsample xsample point_g point_n = point_infinity fsample"
    "point_add fsample xsample point_n point_g = point_infinity fsample"
    by (simp_all only: point_add_def g n sample_y_neq simp_thms if_True if_False)
  show "point_add fsample xsample point_g point_g = point_n" "point_add fsample xsample point_n point_n = point_g"
    by (simp_all only: point_add_def g n sample_double simp_thms if_True if_False)
qed

definition sample_points :: "sample_fr point set" where
  "sample_points = {point_infinity fsample, point_g, point_n}"

lemma sample_group: "point_group fsample xsample sample_points"
proof -
  have "\<not> pt_infinity point_g" "\<not> pt_infinity point_n" by (simp_all add: point_g_def point_n_def point_new_def)
  then show ?thesis by (simp add: point_group_def sample_points_def)
qed

lemma sample_generator_in: "GENERATOR fsample \<in> sample_points"
  by (simp add: sample_generator sample_points_def)

section \<open>A payment\<close>

definition payer_keys :: "sample_fr wallet_keys" where
  "payer_keys = \<lparr>wk_pk = \<lparr>sp_x = [1], sp_y = [1]\<rparr>, wk_nk = 5, wk_view = [1]\<rparr>"

definition payee_keys :: "sample_fr wallet_keys" where
  "payee_keys = \<lparr>wk_pk = \<lparr>sp_x = [2], sp_y = [2]\<rparr>, wk_nk = 6, wk_view = [2]\<rparr>"

definition payer_note :: "sample_fr fund_note" where
  "payer_note = \<lparr>fn_token = 9, fn_units = 10, fn_owner = wallet_keys_owner fsample payer_keys, fn_salt = 1, fn_lock = 0\<rparr>"

definition payer :: "sample_fr wallet" where
  "payer = \<lparr>wa_keys = payer_keys, wa_notes = [\<lparr>on_note = payer_note, on_opening = lock_none fsample,
     on_commitment = fund_commitment fsample payer_note, on_leaf_index = 0, on_spent = False\<rparr>]\<rparr>"

definition payee :: "sample_fr wallet" where "payee = wallet_new payee_keys"

definition fund_env :: "sample_fr pool_env" where
  "fund_env = \<lparr>en_chain_id = 1, en_pool = [3], en_token = [9], en_register_key = point_g, en_claim_key_hash = 0,
     en_min_accepted_generation = 0, en_epoch = 0, en_timestamp = 0\<rparr>"

definition attested :: "sample_fr \<Rightarrow> nat \<Rightarrow> sample_fr attestation_record" where
  "attested owner i = \<lparr>ar_owner = owner, ar_attester = [4], ar_generation = 0, ar_issued_at = 0, ar_expires_at = 86400,
     ar_leaf_index = i\<rparr>"

definition fund_view :: "sample_fr chain_view" where
  "fund_view = \<lparr>vw_commitments = \<lparr>lt_leaves = [fund_commitment fsample payer_note]\<rparr>, vw_notes = [], vw_nullifiers = {},
     vw_spends = [], vw_attestations = \<lparr>lt_leaves = [1, 2]\<rparr>,
     vw_attestation_records = [attested (wallet_keys_owner fsample payer_keys) 0, attested (wallet_keys_owner fsample payee_keys) 1],
     vw_unreadable_attestations = [], vw_outflows = []\<rparr>"

definition tk_one :: feed_secret where "tk_one = \<lparr>fs_lo = 1, fs_hi = 0\<rparr>"

definition fund_draws :: "sample_fr draws" where
  "fund_draws = \<lparr>rd_padding = 0, rd_salts = (2, 3), rd_seals = ([], []), rd_feed = tk_one\<rparr>"

lemma sample_register_key: "public_point fsample xsample tk_one = point_g"
  using point_mul_multiple [OF sample_group sample_generator_in, of 1]
  by (simp add: public_point_def feed_scalar_def tk_one_def sample_generator)

lemma sample_hashes:
  "poseidon2 fsample a b = sample_hash [a, b]" "poseidon3 fsample a b c = sample_hash [a, b, c]"
  "poseidon4 fsample a b c d = sample_hash [a, b, c, d]" "poseidon5 fsample xs = sample_hash xs"
  "from_be_bytes_mod_order fsample bs = word_of_nat (be_nat bs)"
  by (simp_all add: poseidon2_def poseidon3_def poseidon4_def poseidon5_def fsample_def sample_def)

lemmas sample_owner_defs = wallet_keys_owner_def owner_value_def key_hash_def nk_hash_def OWNER_TAG_def NK_TAG_def
  two_to_160_def limb_def sample_hashes sample_hash_def slice_def zeros_def payer_keys_def payee_keys_def

lemma sample_owners:
  "wallet_keys_owner fsample payer_keys = 17538019647970835018444217992595396235871190516287"
  "wallet_keys_owner fsample payee_keys = 17538019647970835018444217992595396235871190516378"
  by (simp_all add: sample_owner_defs)

lemma sample_commitment [simp]:
  "fund_commitment fsample n = sample_hash [fn_token n, ucast (fn_units n), fn_owner n, fn_salt n, fn_lock n]"
  by (simp add: fund_commitment_def sample_hashes)

lemma sample_spendable: "spendable fsample payer 0 = wa_notes payer"
  by (simp add: spendable_def spendable_note_def payer_def payer_note_def)

lemma sample_selected: "select_inputs fsample payer (en_epoch fund_env) 4 = Inr (wa_notes payer)"
  by (simp add: select_inputs_def fund_env_def sample_spendable Let_def)
    (simp add: payer_def payer_note_def)

definition payment_spec :: "sample_fr transfer_spec" where
  "payment_spec = wallet_spec payer (wa_notes payer)
     (\<lparr>out_owner = wallet_owner fsample payee, out_units = 4, out_opening = lock_none fsample, out_vpk = wallet_vpk xsample payee\<rparr>,
      \<lparr>out_owner = wallet_owner fsample payer, out_units = 6, out_opening = lock_none fsample, out_vpk = wallet_vpk xsample payer\<rparr>)"

definition payment :: "(actor_error, sample_fr built_transfer) result" where
  "payment = pay fsample xsample fund_draws payer (\<lambda>_ _. Inr []) fund_view fund_env (wallet_owner fsample payee)
     (wallet_vpk xsample payee) 4"

lemma payment_build:
  "payment = build_transfer fsample xsample fund_draws payment_spec (\<lambda>_ _. Inr []) fund_view fund_env"
proof -
  have "sum_units (wa_notes payer) - 4 = 6" by (simp add: sum_units_def payer_def payer_note_def)
  then show ?thesis by (simp add: payment_def pay_def sample_selected wallet_transfer_def payment_spec_def Let_def)
qed

lemma sample_attested:
  assumes "owner = wallet_keys_owner fsample payer_keys \<or> owner = wallet_keys_owner fsample payee_keys"
  shows "attestation_witness fsample xsample fund_view fund_env owner \<noteq> None"
  using assms
  by (auto simp: attestation_witness_def attestation_of_def fund_view_def fund_env_def attested_def sample_owners EPOCH_SECONDS_def
      tree_proof_def tree_hashes_def) (auto simp: xsample_def)

lemma payment_made: "\<exists>b. payment = Inr b"
proof -
  have owners: "wallet_owner fsample payer = wallet_keys_owner fsample payer_keys"
    "wallet_owner fsample payee = wallet_keys_owner fsample payee_keys"
    by (simp_all add: wallet_owner_def payer_def payee_def wallet_new_def)
  show ?thesis
    unfolding payment_build
  proof (rule build_transfer_total)
    fix n assume "n \<in> set (ts_inputs payment_spec)"
    then show "\<exists>i. owned_input fsample xsample n fund_view = Inr i"
      by (auto simp: payment_spec_def wallet_spec_def payer_def owned_input_def tree_proof_def tree_hashes_def fund_view_def
          xsample_def)
  next
    fix owner assume "owner \<in> {owner_value fsample (ts_owner_key payment_spec) (ts_nk payment_spec),
      out_owner (fst (ts_outputs payment_spec)), out_owner (snd (ts_outputs payment_spec))}"
    then have "owner = wallet_keys_owner fsample payer_keys \<or> owner = wallet_keys_owner fsample payee_keys"
      by (auto simp: payment_spec_def wallet_spec_def owners wallet_keys_owner_def [symmetric])
        (auto simp: payer_def wallet_keys_owner_def)
    then show "attestation_witness fsample xsample fund_view fund_env owner \<noteq> None" by (rule sample_attested)
  qed (simp_all add: payment_spec_def wallet_spec_def payer_def fund_env_def plan_expiry_def EPOCH_SECONDS_def)
qed

lemma sample_change: "sum_units (wa_notes payer) - 4 = 6"
  by (simp add: sum_units_def payer_def payer_note_def)

section \<open>The agent\<close>

definition sample_keys :: "sample_fr owner_keys" where
  "sample_keys = \<lparr>ok_spend = [3], ok_nk = 7, ok_view = [3]\<rparr>"

definition sample_agent :: "sample_fr agent" where
  "sample_agent = agent_new xsample sample_keys [4] tk_one (zeros 32)"

lemma sample_agent_reachable: "agent_reachable fsample xsample sample_agent"
  unfolding agent_reachable_def sample_agent_def by blast

lemma sample_agent_keys: "ta_register_keys sample_agent = [(0, tk_one)]" "ta_register sample_agent = []"
  by (simp_all add: sample_agent_def agent_new_def keys_split_def Let_def)

lemma sample_agent_key: "map_of (ta_register_keys sample_agent) (logs_key_version []) = Some tk_one"
  by (simp add: sample_agent_keys logs_key_version_def)

text \<open>What the posted payment needs of the sample: it is proved, its event syncs, and its notes are new.\<close>

lemma payment_facts:
  assumes b: "payment = Inr b"
  shows "\<exists>params. prove_transfer fsample (mock_prove fsample) b = Inr (Some (SubmitTransfer params))"
    and "prove_transfer fsample (mock_prove fsample) b = Inr (Some (SubmitTransfer params)) \<Longrightarrow>
      \<exists>view'. sync fsample [transfer_event params] [] [] = Inr view' \<and> distinct (map nr_commitment (vw_notes view'))"
    and "{fst (fw_commitments_out (bt_witness b)), snd (fw_commitments_out (bt_witness b))}
      \<inter> (on_commitment ` set (wa_notes payee) \<union> on_commitment ` set (wa_notes payer)
         \<union> re_commitment ` set (ta_register sample_agent)) = {}"
proof -
  obtain big_r k where k: "feed_derive fsample xsample (rd_feed fund_draws) (en_register_key fund_env) = (big_r, k)"
    by (meson surj_pair)
  have build: "build_transfer fsample xsample fund_draws payment_spec (\<lambda>_ _. Inr []) fund_view fund_env = Inr b"
    using b by (simp add: payment_build)
  note facts = build_transfer_Inr [OF build k]
  have r: "big_r = point_g" using k sample_register_key by (simp add: feed_derive_def fund_draws_def Let_def)
  have c: "fst (fw_commitments_out (bt_witness b)) = 157842176831737515165997961933358566122840714648488"
    "snd (fw_commitments_out (bt_witness b)) = 157842176831737515165997961933358566122840714647726"
    by (simp_all add: facts(2) spec_output_def output_note_def pick_def payment_spec_def wallet_spec_def fund_draws_def
        fund_env_def fr_of_address_def sample_hashes lock_none_def lock_value_def sample_hash_def wallet_owner_def payer_def
        payee_def wallet_new_def sample_owners)
  show "\<exists>params. prove_transfer fsample (mock_prove fsample) b = Inr (Some (SubmitTransfer params))"
    by (simp add: prove_transfer_def mock_prove_def submission_transfer_def checked_public_inputs_def
        request_public_inputs_def Let_def)
  show "\<exists>view'. sync fsample [transfer_event params] [] [] = Inr view' \<and> distinct (map nr_commitment (vw_notes view'))"
    if "prove_transfer fsample (mock_prove fsample) b = Inr (Some (SubmitTransfer params))"
  proof -
    from that obtain p where sub: "submission_transfer fsample (bt_witness b) p (bt_payload b) = Some (SubmitTransfer params)"
      by (auto simp: prove_transfer_def and_then_eq_Inr)
    have fin: "\<not> pt_infinity (fw_feed_r (bt_witness b))" by (simp add: facts(3) r point_g_def point_new_def)
    have ct: "length (fw_feed_ct (bt_witness b)) = 2 * FEED_FIELDS" by (simp add: facts(4))
    from sync_single [OF fsample_field_laws sub fin ct] c show ?thesis by auto
  qed
  show "{fst (fw_commitments_out (bt_witness b)), snd (fw_commitments_out (bt_witness b))}
      \<inter> (on_commitment ` set (wa_notes payee) \<union> on_commitment ` set (wa_notes payer)
         \<union> re_commitment ` set (ta_register sample_agent)) = {}"
    unfolding c
    by (simp add: payee_def wallet_new_def payer_def payer_note_def sample_agent_keys sample_hash_def sample_owners)
qed

definition sample_order :: "u64 \<Rightarrow> sample_fr hand_out_order" where
  "sample_order units = \<lparr>ho_owner = 1, ho_vpk = [], ho_units = units, ho_hold_until = None\<rparr>"

section \<open>A withdrawal and a second outflow\<close>

lemma sample_sync:
  "\<exists>view. sync fsample [WithdrawLog (zeros 32) [1] 5 6 [7]] [TokenTransferLog [1] 6 [7], TokenTransferLog [1] 6 [7]] [] = Inr view"
proof -
  have "fr_of_b256 fsample (zeros 32) = Inr (from_be_bytes_mod_order fsample (zeros 32))"
    by (simp add: fr_of_b256_def fr_try_from_def zeros_def) (simp add: fsample_def sample_def)
  then show ?thesis
    by (simp add: sync_def sync_pool_log_def lean_from_leaves_def lean_extend_def)
qed

section \<open>A funded register\<close>

definition funded_note :: "sample_fr fund_note" where
  "funded_note = \<lparr>fn_token = 9, fn_units = 10, fn_owner = 1, fn_salt = 1, fn_lock = 0\<rparr>"

definition funded_agent :: "sample_fr agent" where
  "funded_agent = sample_agent\<lparr>ta_register := [\<lparr>re_note = funded_note, re_opening = lock_none fsample,
     re_commitment = fund_commitment fsample funded_note, re_leaf_index = 0, re_holder = None, re_spent = False\<rparr>]\<rparr>"

definition funded_pool :: pool_totals where
  "funded_pool = \<lparr>pt_units = 10, pt_balance = 12, pt_multiplier = 1000000000000000000\<rparr>"

lemma funded_reconciles:
  "\<exists>r b. reconcile fsample xsample funded_agent empty_view funded_pool = (Inr r, b) \<and> rc_remainder r = 2
     \<and> length (ta_register b) = 1"
proof -
  have reg: "ta_register (read_feed fsample xsample funded_agent empty_view)
      = [\<lparr>re_note = funded_note, re_opening = lock_none fsample, re_commitment = fund_commitment fsample funded_note,
          re_leaf_index = 0, re_holder = None, re_spent = False\<rparr>]"
    by (simp add: read_feed_fields records_read_def empty_view_def funded_agent_def entry_spent_def split: option.split)
  have un: "ta_unreadable_notes (read_feed fsample xsample funded_agent empty_view) = []"
    by (simp add: read_feed_fields records_read_def empty_view_def)
  show ?thesis
    by (simp add: reconcile_def Let_def un total_units_def remainder_def reg funded_note_def funded_pool_def checked_sub_def
        MULTIPLIER_SCALE_def)
qed

section \<open>An investor over the cap\<close>

definition capped_agent :: "sample_fr agent" where
  "capped_agent = sample_agent\<lparr>ta_max_investors := Some 0, ta_jurisdictions := [[65] \<mapsto> [66]],
     ta_investors := [(fr_bytes fsample (wallet_keys_owner fsample payee_keys),
       \<lparr>ir_holder = HolderInvestor [65], ir_pk = wk_pk payee_keys, ir_nk = wk_nk payee_keys, ir_vpk = [2]\<rparr>)]\<rparr>"

lemma capped_fields:
  "ta_investors (batch_agent fsample xsample capped_agent empty_view fund_env)
   = [(fr_bytes fsample (wallet_keys_owner fsample payee_keys),
       \<lparr>ir_holder = HolderInvestor [65], ir_pk = wk_pk payee_keys, ir_nk = wk_nk payee_keys, ir_vpk = [2]\<rparr>)]"
  "ta_register (batch_agent fsample xsample capped_agent empty_view fund_env) = []"
  "ta_wallet (batch_agent fsample xsample capped_agent empty_view fund_env) = ta_wallet capped_agent"
  by (simp_all add: batch_agent_def Let_def read_feed_fields records_read_def empty_view_def capped_agent_def
      sample_agent_keys scan_def sample_agent_def agent_new_def keys_split_def wallet_new_def)

lemma attestation_of_empty: "attestation_of empty_view owner epoch generation = None"
  by (simp add: attestation_of_def empty_view_def)

lemma capped_counted:
  "counted_investors fsample (batch_agent fsample xsample capped_agent empty_view fund_env) empty_view fund_env [] = Inr {}"
proof -
  let ?b = "batch_agent fsample xsample capped_agent empty_view fund_env"
  have "attested_ids fsample ?b empty_view fund_env = {}"
    unfolding attested_ids_def attestation_of_empty by (auto simp: List.map_filter_def split: option.splits)
  moreover have "holding_ids ?b = {}" by (simp add: holding_ids_def capped_fields List.map_filter_def)
  ultimately show ?thesis by (simp add: counted_investors_def public_ids_def)
qed

lemma due_owners_subset:
  "set (due_owners E a view env x) \<subseteq> set (agent_owner E a # map (\<lambda>(k, _). owner_of_key E k) (ta_investors a))"
  unfolding due_owners_def by (meson filter_is_subset order_trans)

lemma capped_holder:
  assumes "owner \<in> set (batch_due fsample xsample capped_agent empty_view fund_env)"
  shows "\<exists>h. holder_of fsample (batch_agent fsample xsample capped_agent empty_view fund_env) owner = Some h"
proof -
  let ?b = "batch_agent fsample xsample capped_agent empty_view fund_env"
  let ?o = "wallet_keys_owner fsample payee_keys"
  have "owner = agent_owner fsample ?b \<or> owner = owner_of_key fsample (fr_bytes fsample ?o)"
    using assms due_owners_subset [of fsample ?b] by (fastforce simp: batch_due_def Let_def capped_fields)
  moreover have "owner_of_key fsample (fr_bytes fsample ?o) = ?o"
    using fsample_field_laws by (simp add: owner_of_key_def fr_bytes_def field_laws_def)
  ultimately show ?thesis by (auto simp: holder_of_def capped_fields)
qed

lemma admit_total: "\<exists>h. holder_of E a owner = Some h \<Longrightarrow> \<exists>s'. admit E a before s owner = Inr s'"
  by (auto simp: admit_def Let_def split: option.split)

lemma admits_total:
  "(\<And>x. x \<in> set due \<Longrightarrow> \<exists>h. holder_of E a x = Some h) \<Longrightarrow> \<exists>s'. try_fold (admit E a before) s due = Inr s'"
proof (induction due arbitrary: s)
  case (Cons x due)
  obtain t where "admit E a before s x = Inr t" using admit_total [of E a x before s] Cons.prems by auto
  then show ?case using Cons.IH [of t] Cons.prems by simp
qed simp

lemma capped_round:
  "\<exists>round b. build_attestation_round fsample xsample (\<lambda>n. replicate n sample_keys) rev capped_agent empty_view fund_env [] 0
     = (Inr round, b)"
proof -
  let ?b = "batch_agent fsample xsample capped_agent empty_view fund_env"
  obtain s where "try_fold (admit fsample ?b {}) \<lparr>ad_counted = {}, ad_owners = [], ad_over_cap = []\<rparr>
      (batch_due fsample xsample capped_agent empty_view fund_env) = Inr s"
    using admits_total capped_holder by blast
  then show ?thesis
    using capped_counted unfolding build_attestation_round_def batch_agent_def batch_due_def Let_def
    by (simp add: case_prod_unfold)
qed

end
