(* ===== verification/Fund_Theorems.thy ===== *)
theory Fund_Theorems
  imports Sample_Fund
begin

text \<open>
  The properties of the shielded fund, with witnesses over the sample primitives: payments from wallet
  to register, hand-outs, the invariant of the transfer agent, attestation under the caps, rotation
  of register keys, amounts, and the view of the chain.
\<close>

text \<open>C13: A payment arrives. What a wallet pays, once it is proved by any prover, emitted by the pool and synced, is in
  the recipient's wallet after a scan, the change is back in the payer's, and the register of the
  transfer agent holds both notes with the holders it knows. The curve is only assumed to add as an
  abelian group on the points that arise, the sealing to open what it sealed, and no two notes of
  the view to share a commitment.
\<close>

theorem payment_delivered:
  assumes "field_laws E" and "fund_laws E X" and "point_group E X S" and "GENERATOR E \<in> S"
    and "pay E X rnd w signer view env (wallet_owner E r) (wallet_vpk X r) units = Inr b"
    and "prove_transfer E prove b = Inr (Some (SubmitTransfer params))"
    and "\<not> pt_infinity (public_point E X (rd_feed rnd))"
    and "sync E (logs @ [transfer_event params]) outflow_logs registry_logs = Inr view'"
    and "distinct (map nr_commitment (vw_notes view'))"
    and "map_of (ta_register_keys a) (logs_key_version logs) = Some tk" and "en_register_key env = public_point E X tk"
    and "{fst (fw_commitments_out (bt_witness b)), snd (fw_commitments_out (bt_witness b))}
      \<inter> (on_commitment ` set (wa_notes r) \<union> on_commitment ` set (wa_notes w) \<union> re_commitment ` set (ta_register a)) = {}"
  shows "\<exists>paid change inputs. bt_outputs b = (paid, change)
    \<and> fn_owner paid = wallet_owner E r \<and> fn_units paid = units
    \<and> select_inputs E w (en_epoch env) units = Inr inputs
    \<and> fn_owner change = wallet_owner E w \<and> fn_units change = sum_units inputs - units
    \<and> paid \<in> on_note ` set (wa_notes (scan E X r view')) \<and> change \<in> on_note ` set (wa_notes (scan E X w view'))
    \<and> (paid, holder_of E a (wallet_owner E r)) \<in> (\<lambda>e. (re_note e, re_holder e)) ` set (ta_register (read_feed E X a view'))
    \<and> (change, holder_of E a (wallet_owner E w)) \<in> (\<lambda>e. (re_note e, re_holder e)) ` set (ta_register (read_feed E X a view'))"
proof -
  let ?outs = "\<lambda>inputs. (\<lparr>out_owner = wallet_owner E r, out_units = units, out_opening = lock_none E, out_vpk = wallet_vpk X r\<rparr>,
        \<lparr>out_owner = wallet_owner E w, out_units = sum_units inputs - units, out_opening = lock_none E,
         out_vpk = wallet_vpk X w\<rparr>)"
  obtain inputs where sel: "select_inputs E w (en_epoch env) units = Inr inputs"
    and b: "build_transfer E X rnd (wallet_spec w inputs (?outs inputs)) signer view env = Inr b"
    using pay_Inr [OF assms(5)] .
  let ?spec = "wallet_spec w inputs (?outs inputs)"
  obtain p where sub: "submission_transfer E (bt_witness b) p (bt_payload b) = Some (SubmitTransfer params)"
    using assms(6) by (auto simp: prove_transfer_def and_then_eq_Inr)
  obtain big_r k where k: "feed_derive E X (rd_feed rnd) (en_register_key env) = (big_r, k)" by (meson surj_pair)
  note outs = build_transfer_Inr(1,2) [OF b k]
  note del = transfer_delivered [OF assms(1-4) b _ sub assms(7-9)]
  have "ts_outputs ?spec = ?outs inputs" by (simp add: wallet_spec_def)
  then show ?thesis
    using sel outs assms(12) del(1) [of 0 r] del(1) [of 1 w] del(2) [of 0 a tk, OF _ assms(10,11)]
      del(2) [of 1 a tk, OF _ assms(10,11)]
    by (simp add: pick_def spec_output_def output_note_def)
qed

theorem payment_delivered_witness:
  "\<exists>b params view' paid change. payment = Inr b \<and> bt_outputs b = (paid, change) \<and> fn_units paid = 4 \<and> fn_units change = 6
    \<and> prove_transfer fsample (mock_prove fsample) b = Inr (Some (SubmitTransfer params))
    \<and> sync fsample [transfer_event params] [] [] = Inr view'
    \<and> paid \<in> on_note ` set (wa_notes (scan fsample xsample payee view'))
    \<and> change \<in> re_note ` set (ta_register (read_feed fsample xsample sample_agent view'))"
proof -
  obtain b where b: "payment = Inr b" using payment_made by blast
  note facts = payment_facts [OF b]
  obtain params where params: "prove_transfer fsample (mock_prove fsample) b = Inr (Some (SubmitTransfer params))"
    using facts(1) by blast
  obtain view' where view': "sync fsample [transfer_event params] [] [] = Inr view'"
    "distinct (map nr_commitment (vw_notes view'))" using facts(2) [OF params] by blast
  have "\<exists>paid change inputs. bt_outputs b = (paid, change)
    \<and> fn_owner paid = wallet_owner fsample payee \<and> fn_units paid = 4
    \<and> select_inputs fsample payer (en_epoch fund_env) 4 = Inr inputs
    \<and> fn_owner change = wallet_owner fsample payer \<and> fn_units change = sum_units inputs - 4
    \<and> paid \<in> on_note ` set (wa_notes (scan fsample xsample payee view'))
    \<and> change \<in> on_note ` set (wa_notes (scan fsample xsample payer view'))
    \<and> (paid, holder_of fsample sample_agent (wallet_owner fsample payee))
      \<in> (\<lambda>e. (re_note e, re_holder e)) ` set (ta_register (read_feed fsample xsample sample_agent view'))
    \<and> (change, holder_of fsample sample_agent (wallet_owner fsample payer))
      \<in> (\<lambda>e. (re_note e, re_holder e)) ` set (ta_register (read_feed fsample xsample sample_agent view'))"
    by (rule payment_delivered [OF fsample_field_laws xsample_laws sample_group sample_generator_in b [unfolded payment_def]
          params _ _ view'(2) sample_agent_key _ facts(3), where outflow_logs = "[]" and registry_logs = "[]"])
      (use view'(1) in \<open>simp_all add: sample_register_key fund_env_def point_g_def point_new_def fund_draws_def
        logs_key_version_def\<close>)
  then obtain paid change inputs where "bt_outputs b = (paid, change)" "fn_units paid = 4"
    "select_inputs fsample payer (en_epoch fund_env) 4 = Inr inputs" "fn_units change = sum_units inputs - 4"
    "paid \<in> on_note ` set (wa_notes (scan fsample xsample payee view'))"
    "(change, holder_of fsample sample_agent (wallet_owner fsample payer))
      \<in> (\<lambda>e. (re_note e, re_holder e)) ` set (ta_register (read_feed fsample xsample sample_agent view'))" by blast
  moreover from this(3,4) have "fn_units change = 6" using sample_selected sample_change by simp
  moreover from calculation(6) have "change \<in> re_note ` set (ta_register (read_feed fsample xsample sample_agent view'))"
    by auto
  ultimately show ?thesis
    by (rule_tac x = b in exI, rule_tac x = params in exI, rule_tac x = view' in exI, rule_tac x = paid in exI,
        rule_tac x = change in exI) (simp only: b params view'(1) simp_thms)
qed

text \<open>C16: Planning a hand-out ends, with N - 1 transfers for N orders, one for a single order and none for none. No source is
  spent twice, each comes from an earlier transfer and is a note of the agent's own, each transfer
  pays out exactly the units of its source, and the outputs left unspent are the notes of the orders,
  with one empty change note for a single order.
\<close>

theorem hand_out_plan:
  assumes "nat_units orders < 2 ^ 64"
  shows "\<exists>plan. plan_hand_out E X a orders = Some plan
      \<and> length plan = (if orders = [] then 0 else max 1 (length orders - 1))
      \<and> distinct (map ph_source plan) \<and> list_all (transfer_ok E X a orders plan) [0..<length plan]
      \<and> mset (loose_outputs (set (map ph_source plan)) 0 plan)
        = mset (map (order_output E) orders) + (if length orders = 1 then {#agents_output E X a 0#} else {#})"
proof -
  obtain plan where plan: "plan_hand_out E X a orders = Some plan" "hand_inv E X a orders plan []"
    "length plan = (if orders = [] then 0 else transfers_for orders)" using plan_hand_out_inv [OF assms] by blast
  have "plan \<noteq> [] \<or> orders = []" using plan(3) by (auto simp: transfers_for_def split: if_splits)
  then have "mset (loose_outputs (set (map ph_source plan)) 0 plan)
      = mset (map (order_output E) orders) + (if length orders = 1 then {#agents_output E X a 0#} else {#})"
    using plan(2) by (auto simp: hand_inv_def sources_def change_of_def)
  then show ?thesis
    using plan hand_invD(1,3) [OF plan(2)] by (auto simp: transfers_for_def sources_def list_all_iff)
qed

theorem hand_out_plan_witness:
  "nat_units [sample_order 3, sample_order 4, sample_order 5] < 2 ^ 64
   \<and> (\<exists>plan. plan_hand_out fsample xsample sample_agent [sample_order 3, sample_order 4, sample_order 5] = Some plan
        \<and> length plan = 2 \<and> distinct (map ph_source plan))"
  using hand_out_plan [of "[sample_order 3, sample_order 4, sample_order 5]" fsample xsample sample_agent]
  by (auto simp: nat_units_def sample_order_def)

text \<open>C14: In every agent reachable from a new one by its operations, in any order and with any arguments, the register keys
  carry the versions 0, 1, ... once each, every prepared key the next one; owner values are filed in
  order under their own encoding and only verified investors hold them or public shares; the register
  and the wallet list a commitment once, with a note that opens it. And the register is append-only: later steps
  keep every entry, with the holder it was first read with, and only move its spent mark.
\<close>

theorem agent_invariant:
  assumes "agent_reachable E X a" and "(agent_step E X)\<^sup>*\<^sup>* a b"
  shows "agent_ok E a \<and> agent_ok E b
    \<and> (\<exists>es. map unmarked (ta_register b) = map unmarked (ta_register a) @ es)"
proof -
  have "agent_reachable E X b" using assms unfolding agent_reachable_def by (meson rtranclp_trans)
  then show ?thesis
    using reachable_ok assms agent_steps_extend [OF assms(2)] by (auto simp: extends_def)
qed

theorem agent_invariant_witness:
  "agent_reachable fsample xsample sample_agent
   \<and> (agent_step fsample xsample)\<^sup>*\<^sup>* sample_agent (snd (verify_investor sample_agent [65] [66]))
   \<and> agent_ok fsample (snd (verify_investor sample_agent [65] [66]))"
proof -
  have "agent_step fsample xsample sample_agent (snd (verify_investor sample_agent [65] [66]))"
    by (rule step_verify_investor)
  then have s: "(agent_step fsample xsample)\<^sup>*\<^sup>* sample_agent (snd (verify_investor sample_agent [65] [66]))" by blast
  show ?thesis using agent_invariant [OF sample_agent_reachable s] sample_agent_reachable s by blast
qed

text \<open>C15: An attestation batch under the caps: the admitted owner values with those held back are exactly the due ones;
  counting the investors admitted takes no count beyond its cap, or beyond where it stood before; an
  investor already counted is never held back; and every part has sixteen values, with fewer than
  sixteen of them padding.
\<close>

theorem admission_respects_caps:
  assumes "build_attestation_round E X draw shuffle a view env holding_publicly generation = (Inr round, b)"
    and "counted_investors E (batch_agent E X a view env) view env holding_publicly = Inr before"
    and "\<And>n. length (draw n) = n" and "\<And>xs. mset (shuffle xs) = mset xs"
  shows "\<exists>owners pads.
      mset (concat (ab_parts (rn_batch round))) = mset owners + mset pads \<and> length pads < ATTESTATION_PART
      \<and> list_all (\<lambda>part. length part = ATTESTATION_PART) (ab_parts (rn_batch round))
      \<and> mset owners + mset (rn_over_cap round) = mset (batch_due E X a view env)
      \<and> within_caps (batch_agent E X a view env) before (before \<union> investors_of E (batch_agent E X a view env) owners)
      \<and> (\<forall>owner \<in> set (rn_over_cap round).
           \<exists>ident. investor_of E (batch_agent E X a view env) owner = Some ident \<and> ident \<notin> before)"
proof -
  let ?b = "batch_agent E X a view env"
  obtain s pads where s: "try_fold (admit E ?b before) \<lparr>ad_counted = before, ad_owners = [], ad_over_cap = []\<rparr>
       (batch_due E X a view env) = Inr s"
    and r: "rn_over_cap round = ad_over_cap s"
      "ab_parts (rn_batch round) = chunks ATTESTATION_PART (shuffle (ad_owners s @ pads))"
    and pads: "ad_owners s = [] \<longrightarrow> pads = []" "ad_owners s \<noteq> [] \<longrightarrow> length pads
       = length (draw (next_multiple_of (length (ad_owners s)) ATTESTATION_PART - length (ad_owners s)))"
    using attestation_round_Inr [OF assms(1,2)] .
  have "admission_ok E ?b before [] \<lparr>ad_counted = before, ad_owners = [], ad_over_cap = []\<rparr>"
    by (simp add: admission_ok_def within_caps_refl investors_of_def List.map_filter_def)
  from admission_fold [OF s this] have adm: "admission_ok E ?b before (batch_due E X a view env) s" by simp
  have pos: "0 < ATTESTATION_PART" by (simp add: ATTESTATION_PART_def)
  note mult = next_multiple_of_ge [OF pos, of "length (ad_owners s)"]
  have len: "ATTESTATION_PART dvd length (ad_owners s @ pads) \<and> length pads < ATTESTATION_PART"
    using pads mult pos assms(3) by (cases "ad_owners s = []") auto
  have "length (shuffle xs) = length xs" for xs using assms(4) by (metis size_mset)
  then have "\<forall>c \<in> set (ab_parts (rn_batch round)). length c = ATTESTATION_PART"
    unfolding r(2) using len pos by (intro chunks_full) auto
  then show ?thesis
    using adm len r assms(4) pos
    by (rule_tac x = "ad_owners s" in exI, rule_tac x = pads in exI) (simp add: admission_ok_def concat_chunks list_all_iff)
qed

theorem admission_respects_caps_witness:
  "\<exists>round b owners pads.
      build_attestation_round fsample xsample (\<lambda>n. replicate n sample_keys) rev capped_agent empty_view fund_env [] 0 = (Inr round, b)
      \<and> mset owners + mset (rn_over_cap round) = mset (batch_due fsample xsample capped_agent empty_view fund_env)
      \<and> within_caps (batch_agent fsample xsample capped_agent empty_view fund_env) {}
          (investors_of fsample (batch_agent fsample xsample capped_agent empty_view fund_env) owners)"
proof -
  obtain round b where r: "build_attestation_round fsample xsample (\<lambda>n. replicate n sample_keys) rev capped_agent empty_view
      fund_env [] 0 = (Inr round, b)" using capped_round by blast
  show ?thesis using r admission_respects_caps [OF r capped_counted] by (auto simp: Un_empty_left)
qed

text \<open>C18: A rotation of the register key loses nothing: a prepared key reads notes of its version before the commit while the
  agent still proves under the old one, the commit files a key with the published point as the
  current one, every older version keeps its key, and committing the rotation again is refused.
\<close>

theorem rotation_reads_feed:
  assumes ok: "agent_reachable E X a" and room: "length (ta_register_keys a) < 2 ^ 64"
    and prep: "new_register_key E X a secret = (rotation, a1)"
  shows "rk_version rotation = word_of_nat (length (ta_register_keys a)) \<and> rk_public_key rotation = public_point E X secret
    \<and> secret \<in> set (feed_keys a1 (rk_version rotation)) \<and> register_public_key E X a1 = register_public_key E X a
    \<and> (\<exists>a2. commit_register_key E X a1 rotation = (Inr (), a2)
         \<and> register_public_key E X a2 = rk_public_key rotation
         \<and> (\<exists>tk. feed_keys a2 (rk_version rotation) = [tk] \<and> public_point E X tk = rk_public_key rotation)
         \<and> (\<forall>v tk. map_of (ta_register_keys a) v = Some tk \<longrightarrow> feed_keys a2 v = [tk])
         \<and> commit_register_key E X a2 rotation = (Inl (StaleRotation (rk_version rotation)), a2))"
proof -
  let ?n = "length (ta_register_keys a)" and ?ks = "ta_register_keys a"
  have K: "keys_ok a" using reachable_ok [OF ok] by (simp add: agent_ok_def)
  have rot: "rk_version rotation = word_of_nat ?n" "rk_public_key rotation = public_point E X secret"
    and a1: "a1 = a\<lparr>ta_prepared_register_keys := ta_prepared_register_keys a @ [(word_of_nat ?n, secret)]\<rparr>"
    using prep next_version [OF K] by (auto simp: new_register_key_def Let_def)
  have absent: "\<forall>x \<in> set (map fst ?ks). x < word_of_nat ?n" by (rule keys_ok_absent [OF K room])
  then have none: "map_of ?ks (word_of_nat ?n) = None" by (auto simp: map_of_eq_None_iff)
  have next1: "next_register_key_version a1 = word_of_nat ?n"
    using next_version [OF K] by (simp add: a1 next_register_key_version_def)
  let ?P = "\<lambda>(version, tk). version = rk_version rotation \<and> public_point E X tk = rk_public_key rotation"
  have "?P (word_of_nat ?n, secret)" by (simp add: rot)
  then obtain y where y: "find ?P (ta_prepared_register_keys a1) = Some y" "?P y"
    using filter_snoc_find [of ?P "(word_of_nat ?n, secret)" "ta_prepared_register_keys a"] by (auto simp: a1)
  obtain tk where tk: "y = (word_of_nat ?n, tk)" "public_point E X tk = rk_public_key rotation"
    using y(2) rot by (cases y) auto
  let ?a2 = "a1\<lparr>ta_register_keys := ?ks @ [(word_of_nat ?n, tk)],
    ta_prepared_register_keys := filter (\<lambda>(version, _). word_of_nat ?n < version) (ta_prepared_register_keys a1)\<rparr>"
  have commit: "commit_register_key E X a1 rotation = (Inr (), ?a2)"
    using y(1) next1 bt_insert_last [OF absent, of tk] by (simp add: commit_register_key_def rot tk) (simp add: a1)
  have stale: "next_register_key_version ?a2 \<noteq> rk_version rotation"
    by (simp add: next_register_key_version_def rot)
  have old: "feed_keys ?a2 v = [x]" if "map_of ?ks v = Some x" for v x
    using that none by (cases "v = word_of_nat ?n") (auto simp: feed_keys_def map_of_snoc_key simp del: map_of_append)
  have new: "feed_keys ?a2 (word_of_nat ?n) = [tk]" using none by (simp add: feed_keys_def map_add_def)
  show ?thesis
    using rot commit stale old new tk(2) none
    by (intro conjI exI [of _ ?a2])
      (auto simp: a1 feed_keys_def register_public_key_def commit_register_key_def)
qed

theorem rotation_reads_feed_witness:
  "\<exists>rotation a1. new_register_key fsample xsample sample_agent tk_one = (rotation, a1) \<and> rk_version rotation = 1
    \<and> (\<exists>a2. commit_register_key fsample xsample a1 rotation = (Inr (), a2)
         \<and> commit_register_key fsample xsample a2 rotation = (Inl (StaleRotation 1), a2))"
proof -
  obtain rotation a1 where p: "new_register_key fsample xsample sample_agent tk_one = (rotation, a1)" by (meson surj_pair)
  show ?thesis using p rotation_reads_feed [OF sample_agent_reachable _ p] sample_agent_keys by auto
qed

text \<open>C20: A payment spends at most two of the wallet's spendable notes, worth the amount, with change that adds up; it is
  refused exactly when no one or two of them are worth it.
\<close>

theorem selection_correct:
  assumes "nat_sum (spendable E w epoch) < 2 ^ 64"
  shows "case select_inputs E w epoch units of
      Inr inputs \<Rightarrow> mset inputs \<subseteq># mset (spendable E w epoch) \<and> length inputs \<le> 2 \<and> unat units \<le> nat_sum inputs
        \<and> unat (sum_units inputs - units) + unat units = nat_sum inputs
    | Inl e \<Rightarrow> e = InsufficientUnits (sum_units (take 2 (rev (sort_key (\<lambda>n. fn_units (on_note n)) (spendable E w epoch))))) units
        \<and> (\<forall>ns. mset ns \<subseteq># mset (spendable E w epoch) \<and> length ns \<le> 2 \<longrightarrow> nat_sum ns < unat units)"
proof -
  let ?sp = "spendable E w epoch" and ?P = "\<lambda>n. units \<le> fn_units (on_note n)"
  let ?ns = "sort_key (\<lambda>n. fn_units (on_note n)) ?sp"
  note change = change_adds_up [OF assms] and top = top_two [OF assms]
  show ?thesis
  proof (cases "find ?P ?ns")
    case (Some n)
    then have n: "n \<in> set ?ns" "units \<le> fn_units (on_note n)" using find_SomeD by fastforce+
    have "mset [n] \<subseteq># mset ?sp" using n(1) by simp
    moreover have "unat units \<le> nat_sum [n]" using n(2) by (simp add: nat_sum_def units_of_def word_le_nat_alt)
    ultimately show ?thesis using Some change by (simp add: select_inputs_def Let_def)
  next
    case None
    show ?thesis
    proof (cases "sum_units (take 2 (rev ?ns)) < units")
      case True
      then have "nat_sum (take 2 (rev ?ns)) < unat units" using top(2) by (simp add: word_less_nat_alt)
      then show ?thesis using None True top(3) le_less_trans by (auto simp: select_inputs_def Let_def)
    next
      case False
      then have "unat units \<le> nat_sum (take 2 (rev ?ns))" using top(2) by (simp add: word_less_nat_alt)
      then show ?thesis using None False top(1) change [OF top(1)] by (simp add: select_inputs_def Let_def)
    qed
  qed
qed

theorem selection_correct_witness:
  "nat_sum (spendable fsample payer 0) < 2 ^ 64
   \<and> (case select_inputs fsample payer 0 4 of Inr inputs \<Rightarrow> unat (4 :: u64) \<le> nat_sum inputs | Inl _ \<Rightarrow> False)"
proof -
  have n: "nat_sum (spendable fsample payer 0) < 2 ^ 64"
    by (simp add: sample_spendable) (simp add: nat_sum_def units_of_def payer_def payer_note_def)
  have "select_inputs fsample payer 0 4 = Inr (wa_notes payer)" using sample_selected by (simp add: fund_env_def)
  then show ?thesis using selection_correct [OF n, of 4] n by simp
qed

text \<open>C17: A reconciliation that succeeds: every note of the view is in the register, the unspent units are the units of the
  pool, and the shares the notes can withdraw one by one add up, with the reported remainder, to the
  balance of the pool.
\<close>

theorem reconcile_sound:
  assumes "reconcile E X a view pool = (Inr r, b)"
    and "length (ta_register b) < 2 ^ 64" and "unat (pt_multiplier pool) < 2 ^ 128"
  shows "nr_commitment ` set (vw_notes view) \<subseteq> re_commitment ` set (ta_register b)
    \<and> sum_list (map (\<lambda>e. unat (fn_units (re_note e))) (unspent b)) = unat (pt_units pool)
    \<and> sum_list (map (shares_of (pt_multiplier pool)) (unspent b)) + unat (rc_remainder r) = unat (pt_balance pool)
    \<and> rc_outflows r = unexplained_outflows view"
proof -
  have b: "b = read_feed E X a view" using assms(1) by (simp add: reconcile_def Let_def)
  have 1: "ta_unreadable_notes b = []" and 2: "total_units b = pt_units pool"
    and 3: "remainder b (pt_balance pool) (pt_multiplier pool) = Some (rc_remainder r)"
    and 4: "rc_outflows r = unexplained_outflows view"
    using assms(1) by (auto simp: reconcile_def Let_def and_then_eq_Inr ok_or_eq_Inr split: if_splits)
  show ?thesis
    using read_feed_complete [of E X a view] 1 2 4 unat_total_units [OF assms(2)] remainder_Some [OF 3 assms(3,2)]
    by (simp add: b)
qed

theorem reconcile_sound_witness:
  "\<exists>r b. reconcile fsample xsample funded_agent empty_view funded_pool = (Inr r, b) \<and> rc_remainder r = 2
    \<and> sum_list (map (shares_of (pt_multiplier funded_pool)) (unspent b)) + 2 = unat (pt_balance funded_pool)"
proof -
  obtain r b where r: "reconcile fsample xsample funded_agent empty_view funded_pool = (Inr r, b)" "rc_remainder r = 2"
    "length (ta_register b) = 1" using funded_reconciles by blast
  show ?thesis using r reconcile_sound [OF r(1)] by (simp add: funded_pool_def)
qed

text \<open>C19: The view built from the logs is well formed: each note record sits at the leaf of its commitment, the
  nullifiers are those of the spends, outputs of spends are leaves, attestations index the
  attestation tree. Its unexplained outflows are the token transfers less the withdrawals of the
  pool, counted with multiplicity.
\<close>

theorem synced_view:
  assumes "sync E pool_logs outflow_logs registry_logs = Inr view"
  shows "view_ok view
    \<and> map outflow_key (vw_outflows view) = map (outflow_key \<circ> outflow_of_log) outflow_logs
    \<and> image_mset outflow_key (mset (unexplained_outflows view))
      = image_mset (outflow_key \<circ> outflow_of_log) (mset outflow_logs) - mset (withdrawals_of pool_logs)"
proof -
  from sync_view [OF assms] obtain s where ok: "view_ok view"
    and s: "try_fold (sync_pool_log E)
      \<lparr>ss_view = empty_view, ss_commitments = [], ss_key_version = 0, ss_withdrawals = []\<rparr> pool_logs = Inr s"
    and out: "vw_outflows view = match_withdrawals (map outflow_of_log outflow_logs) (ss_withdrawals s)" by blast
  have ws: "ss_withdrawals s = withdrawals_of pool_logs" using sync_logs_withdrawals [OF s] by simp
  have "\<forall>x \<in> set (map outflow_of_log outflow_logs). \<not> of_by_withdrawal x"
    by (auto simp: outflow_of_log_def split: token_log.splits)
  from match_withdrawals_difference [OF this, of "ss_withdrawals s"] show ?thesis
    using ok by (simp add: out ws unexplained_outflows_def multiset.map_comp)
qed

theorem synced_view_witness:
  "\<exists>view. sync fsample [WithdrawLog (zeros 32) [1] 5 6 [7]] [TokenTransferLog [1] 6 [7], TokenTransferLog [1] 6 [7]] [] = Inr view
    \<and> view_ok view \<and> image_mset outflow_key (mset (unexplained_outflows view)) = {#([7], [1], 6)#}"
proof -
  obtain view where v: "sync fsample [WithdrawLog (zeros 32) [1] 5 6 [7]] [TokenTransferLog [1] 6 [7], TokenTransferLog [1] 6 [7]] []
      = Inr view" using sample_sync by blast
  show ?thesis using v synced_view [OF v] by (simp add: outflow_key_def outflow_of_log_def)
qed

text \<open>
  The uniform expiry of a batch lies after the overlap of its epoch and at most a period beyond that, on the grid of
  thirty epochs counted from the start.
\<close>

lemma period_bounds:
  assumes "start \<le> epoch" and "unat epoch < 2 ^ 40"
  shows "(unat epoch + 3) * 86400 < unat (period_expiry start epoch)
    \<and> unat (period_expiry start epoch) \<le> (unat epoch + 33) * 86400
    \<and> (\<exists>k. unat (period_expiry start epoch) = (unat start + 30 * k) * 86400)"
proof -
  let ?s = "unat start" and ?e = "unat epoch"
  have "?s \<le> ?e" using assms(1) by (simp add: word_le_nat_alt)
  then have m: "?e + 3 = ?s + (?e + 3 - ?s)" by simp
  have "m < (m div 30 + 1) * 30 \<and> (m div 30 + 1) * 30 \<le> m + 30" for m :: nat
    using div_mult_mod_eq [of m 30] mod_less_divisor [of 30 m, OF zero_less_numeral] by simp
  from this [of "?e + 3 - ?s"] m
  have "?e + 3 < ?s + ((?e + 3 - ?s) div 30 + 1) * 30 \<and> ?s + ((?e + 3 - ?s) div 30 + 1) * 30 \<le> ?e + 33"
    by simp
  then show ?thesis unfolding unat_period [OF assms]
    by (intro conjI) (simp, simp, metis mult.commute)
qed

end
