(* ===== verification/Rails.thy ===== *)
theory Rails
  imports Poseidon
begin

text \<open>
  The proof of concept \<open>pocs/private-payment/resilient-disbursement-rails\<close>: types, Poseidon hashes,
  signatures by \<open>k\<close> of \<open>n\<close> owners, stealth keys, the voucher envelope and the commands of the
  smartcard (\<open>types.rs\<close>, \<open>error.rs\<close>, \<open>poseidon.rs\<close>, \<open>crypto\<close>, \<open>smartcard/apdu.rs\<close>, \<open>companion/types.rs\<close>).

  The crates \<open>k256\<close>, \<open>hmac\<close>, \<open>sealring\<close>, \<open>serde_json\<close> and \<open>lean-imt\<close> are the record \<open>rails_prims\<close>, the
  argument \<open>R\<close>. A secret key is the 32 bytes of its scalar. An array is the list of its elements; what
  its type says of its length is part of \<open>header_ok\<close> and \<open>pubkey_ok\<close>.
\<close>

section \<open>Types\<close>

record secp_pubkey =
  sq_x :: bytes32
  sq_y :: bytes32

record ecdsa_signature =
  es_r :: bytes32
  es_s :: bytes32

record round_header =
  rh_round_id :: bytes32
  rh_cohort_version :: u64
  rh_cohort_root :: bytes32
  rh_per_recipient_amount :: bytes32
  rh_cohort_size :: u64
  rh_token :: address
  rh_close_time :: u64
  rh_claim_contract_address :: address
  rh_chain_id :: bytes32

record signed_header =
  sh_header :: round_header
  sh_signature :: "u8 list"

record voucher_context =
  vc_round_id :: bytes32
  vc_cohort_root :: bytes32
  vc_claim_contract :: address
  vc_per_recipient_amount :: bytes32
  vc_chain_id :: bytes32

record signed_voucher =
  sv_m :: secp_pubkey
  sv_derived_pubkey :: secp_pubkey
  sv_signature :: ecdsa_signature
  sv_context :: voucher_context
  sv_claim_nullifier :: bytes32
  sv_destination :: address

record encrypted_voucher =
  ev_envelope :: "u8 list"
  ev_relay_id :: bytes32

record merkle_path =
  rp_siblings :: "bytes32 list"
  rp_indices :: "u8 list"

record relay_descriptor =
  rl_relay_id :: bytes32
  rl_static_pub_x25519 :: bytes32
  rl_rotation_epoch :: u64

record relay_roster =
  ro_relays :: "relay_descriptor list"
  ro_signed_at_unix :: u64
  ro_signature :: "u8 list"

record header_bundle =
  hb_signed :: signed_header
  hb_first_pool_leaf_index :: u64

record rails_prims =
  secp_public :: "bytes32 \<Rightarrow> bytes32 \<times> bytes32"
  secp_sign_prehash :: "bytes32 \<Rightarrow> bytes32 \<Rightarrow> (string, u8 list) result"
  secp_sign_recoverable :: "bytes32 \<Rightarrow> bytes32 \<Rightarrow> u8 list \<times> bool \<times> bool"
  secp_normalize_s :: "u8 list \<Rightarrow> u8 list option"
  secp_signature_ok :: "u8 list \<Rightarrow> bool"
  secp_recover :: "bytes32 \<Rightarrow> u8 list \<Rightarrow> bool \<times> bool \<Rightarrow> (bytes32 \<times> bytes32) option"
  hmac_sha256 :: "u8 list \<Rightarrow> u8 list \<Rightarrow> bytes32"
  x25519_public :: "bytes32 \<Rightarrow> bytes32"
  x25519_seal :: "string \<Rightarrow> u8 list \<Rightarrow> bytes32 \<Rightarrow> u8 list \<Rightarrow> u8 list \<Rightarrow> u8 list option"
  x25519_parses :: "u8 list \<Rightarrow> bool"
  x25519_open :: "string \<Rightarrow> bytes32 \<Rightarrow> u8 list \<Rightarrow> u8 list \<Rightarrow> (unit, u8 list option) result"
  voucher_to_json :: "signed_voucher \<Rightarrow> (string, u8 list) result"
  voucher_of_json :: "u8 list \<Rightarrow> (string, signed_voucher) result"
  imt_crate_root :: "(u8 list \<Rightarrow> bytes32) \<Rightarrow> bytes32 list \<Rightarrow> bytes32 option"
  imt_crate_proof :: "(u8 list \<Rightarrow> bytes32) \<Rightarrow> bytes32 list \<Rightarrow> nat \<Rightarrow> (string, bytes32 list \<times> nat) result"

section \<open>Constants\<close>

definition DOMAIN_VOUCHER :: "u8 list" where "DOMAIN_VOUCHER = ascii ''RDR/voucher/v1''"
definition DOMAIN_HEADER :: "u8 list" where "DOMAIN_HEADER = ascii ''RDR/header/v1''"
definition DOMAIN_STEALTH_SCALAR :: "u8 list" where "DOMAIN_STEALTH_SCALAR = ascii ''RDR/stealth/v1''"
definition DOMAIN_ROSTER :: "u8 list" where "DOMAIN_ROSTER = ascii ''RDR/roster/v1''"
definition LEAF_DOMAIN_TAG :: u64 where "LEAF_DOMAIN_TAG = 1"
definition COMMITMENT_DOMAIN_TAG :: u64 where "COMMITMENT_DOMAIN_TAG = 2"
definition NULL_DOMAIN_TAG :: u64 where "NULL_DOMAIN_TAG = 3"
definition DERIVED_PUBKEY_DOMAIN_TAG :: u64 where "DERIVED_PUBKEY_DOMAIN_TAG = 4"
definition VOUCHER_PREIMAGE_LEN :: nat where "VOUCHER_PREIMAGE_LEN = 308"

section \<open>Hashes\<close>

text \<open>The code fills a little-endian buffer; reading it is reading its reversal big-endian.\<close>

definition fr_be :: "'fr prims \<Rightarrow> u8 list \<Rightarrow> 'fr" where
  "fr_be E bytes =
     (let n = min (length bytes) 32;
          le = rev (take n bytes) @ zeros (32 - n)
      in from_be_bytes_mod_order E (rev le))"

definition fr_word :: "'fr prims \<Rightarrow> 'fr \<Rightarrow> bytes32" where
  "fr_word E x = to_bytes_be E x"

definition rails_merkle_node :: "'fr prims \<Rightarrow> 'fr \<Rightarrow> 'fr \<Rightarrow> 'fr" where
  "rails_merkle_node E left right = poseidon_circom E [left, right]"

definition hash_m_packed :: "'fr prims \<Rightarrow> 'fr \<Rightarrow> 'fr \<Rightarrow> 'fr \<Rightarrow> 'fr \<Rightarrow> 'fr" where
  "hash_m_packed E x_hi x_lo y_hi y_lo = poseidon_circom E [fr_of E LEAF_DOMAIN_TAG, x_hi, x_lo, y_hi, y_lo]"

definition hash_derived_pubkey_packed :: "'fr prims \<Rightarrow> 'fr \<Rightarrow> 'fr \<Rightarrow> 'fr \<Rightarrow> 'fr \<Rightarrow> 'fr" where
  "hash_derived_pubkey_packed E x_hi x_lo y_hi y_lo =
     poseidon_circom E [fr_of E DERIVED_PUBKEY_DOMAIN_TAG, x_hi, x_lo, y_hi, y_lo]"

definition hash_pool_commitment :: "'fr prims \<Rightarrow> 'fr \<Rightarrow> 'fr \<Rightarrow> 'fr \<Rightarrow> 'fr \<Rightarrow> 'fr" where
  "hash_pool_commitment E token amount m_packed round_id_packed =
     poseidon_circom E [fr_of E COMMITMENT_DOMAIN_TAG, token, amount, m_packed, round_id_packed]"

definition hash_claim_nullifier :: "'fr prims \<Rightarrow> 'fr \<Rightarrow> 'fr \<Rightarrow> 'fr \<Rightarrow> 'fr \<Rightarrow> 'fr \<Rightarrow> 'fr" where
  "hash_claim_nullifier E m_packed derived_pubkey_packed round_id_packed claim_contract chain_id_packed =
     poseidon_circom E [fr_of E NULL_DOMAIN_TAG, m_packed, derived_pubkey_packed, round_id_packed, claim_contract,
       chain_id_packed]"

definition pack_round_id :: "'fr prims \<Rightarrow> 'fr \<Rightarrow> 'fr \<Rightarrow> 'fr" where
  "pack_round_id E hi lo = poseidon_circom E [hi, lo]"

definition pack_chain_id :: "'fr prims \<Rightarrow> 'fr \<Rightarrow> 'fr \<Rightarrow> 'fr" where
  "pack_chain_id E hi lo = poseidon_circom E [hi, lo]"

text \<open>The limbs of a 32-byte word, as every actor takes them before hashing.\<close>

definition hi_limb :: "'fr prims \<Rightarrow> bytes32 \<Rightarrow> 'fr" where
  "hi_limb E w = fr_be E (slice 0 16 w)"

definition lo_limb :: "'fr prims \<Rightarrow> bytes32 \<Rightarrow> 'fr" where
  "lo_limb E w = fr_be E (slice 16 32 w)"

definition m_packed_of :: "'fr prims \<Rightarrow> secp_pubkey \<Rightarrow> 'fr" where
  "m_packed_of E m =
     hash_m_packed E (hi_limb E (sq_x m)) (lo_limb E (sq_x m)) (hi_limb E (sq_y m)) (lo_limb E (sq_y m))"

definition pad_address :: "address \<Rightarrow> bytes32" where
  "pad_address addr = zeros 12 @ addr"

section \<open>ECDSA and stealth keys\<close>

datatype card_error =
    AuthTokenMismatch
  | BadApdu
  | PreHashedHMsgRefused
  | KeyNotGenerated
  | CtxHeaderMismatch
  | SignFailure string

definition pubkey_to_xy :: "bytes32 \<times> bytes32 \<Rightarrow> secp_pubkey" where
  "pubkey_to_xy pk = \<lparr>sq_x = fst pk, sq_y = snd pk\<rparr>"

definition derive_pubkey :: "rails_prims \<Rightarrow> bytes32 \<Rightarrow> secp_pubkey" where
  "derive_pubkey R m = pubkey_to_xy (secp_public R m)"

definition canonicalize_s :: "rails_prims \<Rightarrow> u8 list \<Rightarrow> u8 list" where
  "canonicalize_s R sig = (case secp_normalize_s R sig of None \<Rightarrow> sig | Some low \<Rightarrow> low)"

definition sign_voucher :: "rails_prims \<Rightarrow> bytes32 \<Rightarrow> bytes32 \<Rightarrow> (card_error, ecdsa_signature) result" where
  "sign_voucher R m h_msg =
     and_then (map_err SignFailure (secp_sign_prehash R m h_msg)) (\<lambda>sig.
     let bytes = canonicalize_s R sig in Inr \<lparr>es_r = take 32 bytes, es_s = drop 32 bytes\<rparr>)"

definition point_to_eth_address :: "'fr prims \<Rightarrow> secp_pubkey \<Rightarrow> address" where
  "point_to_eth_address E p = drop 12 (keccak256 E (sq_x p @ sq_y p))"

definition destination_from_derived_pubkey :: "'fr prims \<Rightarrow> secp_pubkey \<Rightarrow> address" where
  "destination_from_derived_pubkey E p = point_to_eth_address E p"

definition SECP256K1_N :: nat where
  "SECP256K1_N = 0xfffffffffffffffffffffffffffffffebaaedce6af48a03bbfd25e8cd0364141"

definition reduce_tag_to_scalar :: "bytes32 \<Rightarrow> bytes32" where
  "reduce_tag_to_scalar t = be_bytes 32 (be_nat t mod (SECP256K1_N - 1) + 1)"

definition derive_stealth_scalar :: "rails_prims \<Rightarrow> bytes32 \<Rightarrow> bytes32 \<Rightarrow> address \<Rightarrow> bytes32 \<Rightarrow> bytes32" where
  "derive_stealth_scalar R m round_id claim_contract chain_id =
     reduce_tag_to_scalar (hmac_sha256 R m (DOMAIN_STEALTH_SCALAR @ round_id @ claim_contract @ chain_id))"

definition derive_auth_token :: "rails_prims \<Rightarrow> bytes32 \<Rightarrow> bytes32 \<Rightarrow> bytes32" where
  "derive_auth_token R companion_pre_key h = hmac_sha256 R companion_pre_key h"

section \<open>The voucher envelope\<close>

datatype aead_error = DecryptFailed | EncryptFailed

definition VOUCHER_TAG :: string where "VOUCHER_TAG = ''RDR/voucher-aead/v1''"

definition encrypt_to_relay ::
    "rails_prims \<Rightarrow> u8 list \<Rightarrow> bytes32 \<Rightarrow> bytes32 \<Rightarrow> u8 list \<Rightarrow> (aead_error, encrypted_voucher) result" where
  "encrypt_to_relay R rnd relay_pk relay_id plaintext =
     and_then (ok_or EncryptFailed (x25519_seal R VOUCHER_TAG rnd relay_pk plaintext relay_id)) (\<lambda>envelope.
     Inr \<lparr>ev_envelope = envelope, ev_relay_id = relay_id\<rparr>)"

definition decrypt_from_companion :: "rails_prims \<Rightarrow> bytes32 \<Rightarrow> encrypted_voucher \<Rightarrow> (aead_error, u8 list) result" where
  "decrypt_from_companion R relay_sk env =
     (if \<not> x25519_parses R (ev_envelope env) then Inl DecryptFailed
      else and_then (map_err (\<lambda>_. DecryptFailed) (x25519_open R VOUCHER_TAG relay_sk (ev_envelope env) (ev_relay_id env)))
             (\<lambda>note. ok_or DecryptFailed note))"

section \<open>Signatures of k of n owners\<close>

record multi_signature =
  ms_signer :: address
  ms_signature :: "u8 list"

datatype multisig_error = WrongCount | DuplicateSigner | UnknownSigner | BadMultiSignature

definition SIG_RECORD_LEN :: nat where "SIG_RECORD_LEN = 20 + 65"

definition address_from_verifying_key :: "'fr prims \<Rightarrow> bytes32 \<times> bytes32 \<Rightarrow> address" where
  "address_from_verifying_key E vk = drop 12 (keccak256 E (fst vk @ snd vk))"

definition multisig_sign_digest :: "'fr prims \<Rightarrow> rails_prims \<Rightarrow> bytes32 \<Rightarrow> bytes32 \<Rightarrow> multi_signature" where
  "multisig_sign_digest E R sk digest =
     (let (sig, y_odd, x_reduced) = secp_sign_recoverable R sk digest;
          (sig, y_odd) = (case secp_normalize_s R sig of Some low \<Rightarrow> (low, \<not> y_odd) | None \<Rightarrow> (sig, y_odd))
      in \<lparr>ms_signer = address_from_verifying_key E (secp_public R sk),
          ms_signature = sig @ [27 + (if y_odd then 1 else 0)]\<rparr>)"

definition recover_and_check :: "'fr prims \<Rightarrow> rails_prims \<Rightarrow> bytes32 \<Rightarrow> multi_signature \<Rightarrow> (multisig_error, unit) result" where
  "recover_and_check E R digest ms =
     (let v = ms_signature ms ! 64; rs = take 64 (ms_signature ms) in
      if v \<noteq> 27 \<and> v \<noteq> 28 then Inl BadMultiSignature
      else if \<not> secp_signature_ok R rs then Inl BadMultiSignature
      else
        (case secp_recover R digest rs (v - 27 = 1, False) of
           None \<Rightarrow> Inl BadMultiSignature
         | Some vk \<Rightarrow> if address_from_verifying_key E vk \<noteq> ms_signer ms then Inl BadMultiSignature else Inr ()))"

fun duplicate_signer :: "multi_signature list \<Rightarrow> bool" where
  "duplicate_signer [] = False"
| "duplicate_signer (s # sigs) = (list_ex (\<lambda>t. ms_signer s = ms_signer t) sigs \<or> duplicate_signer sigs)"

definition verify_threshold ::
    "'fr prims \<Rightarrow> rails_prims \<Rightarrow> bytes32 \<Rightarrow> multi_signature list \<Rightarrow> address list \<Rightarrow> nat \<Rightarrow> (multisig_error, unit) result" where
  "verify_threshold E R digest sigs owners threshold =
     (if length sigs \<noteq> threshold then Inl WrongCount
      else if duplicate_signer sigs then Inl DuplicateSigner
      else try_fold (\<lambda>_ s. if ms_signer s \<notin> set owners then Inl UnknownSigner else recover_and_check E R digest s) () sigs)"

definition encode_threshold :: "multi_signature list \<Rightarrow> u8 list" where
  "encode_threshold sigs = word_of_nat (length sigs) # concat (map (\<lambda>s. ms_signer s @ ms_signature s) sigs)"

definition decode_threshold :: "u8 list \<Rightarrow> nat \<Rightarrow> (multisig_error, multi_signature list) result" where
  "decode_threshold bytes expected_count =
     (case bytes of
        [] \<Rightarrow> Inl WrongCount
      | count # _ \<Rightarrow>
          if unat count \<noteq> expected_count then Inl WrongCount
          else if length bytes \<noteq> 1 + expected_count * SIG_RECORD_LEN then Inl WrongCount
          else Inr (map (\<lambda>i. let off = 1 + i * SIG_RECORD_LEN in
                 \<lparr>ms_signer = slice off (off + 20) bytes, ms_signature = slice (off + 20) (off + SIG_RECORD_LEN) bytes\<rparr>)
               [0..<expected_count]))"

section \<open>Commands of the card\<close>

definition CLA :: u8 where "CLA = 0x80"
definition INS_GENERATE_KEY :: u8 where "INS_GENERATE_KEY = 0x01"
definition INS_EXPORT_KEY :: u8 where "INS_EXPORT_KEY = 0x02"
definition INS_SIGN_VOUCHER :: u8 where "INS_SIGN_VOUCHER = 0x03"
definition VOUCHER_CTX_LEN :: nat where "VOUCHER_CTX_LEN = 32 + 32 + 20 + 32 + 32"
definition SERIALIZED_HEADER_LEN :: nat where "SERIALIZED_HEADER_LEN = 192"
definition SIGN_VOUCHER_BODY_LEN :: nat where
  "SIGN_VOUCHER_BODY_LEN = 32 + SERIALIZED_HEADER_LEN + VOUCHER_CTX_LEN"

definition encode_generate_key :: "u8 list" where
  "encode_generate_key = [CLA, INS_GENERATE_KEY, 0x00, 0x00, 0x00]"

definition decode_generate_key_response :: "u8 list \<Rightarrow> (card_error, unit) result" where
  "decode_generate_key_response resp = (if length resp \<noteq> 2 \<or> resp \<noteq> [0x90, 0x00] then Inl BadApdu else Inr ())"

definition encode_export_key :: "u8 list" where
  "encode_export_key = [CLA, INS_EXPORT_KEY, 0x00, 0x00, 0x00]"

definition decode_export_key_response :: "u8 list \<Rightarrow> (card_error, secp_pubkey) result" where
  "decode_export_key_response resp =
     (if length resp \<noteq> 64 + 2 then Inl BadApdu
      else if drop 64 resp \<noteq> [0x90, 0x00] then Inl BadApdu
      else Inr \<lparr>sq_x = slice 0 32 resp, sq_y = slice 32 64 resp\<rparr>)"

definition serialize_round_header :: "round_header \<Rightarrow> u8 list" where
  "serialize_round_header h =
     rh_round_id h @ u64_to_be (rh_cohort_version h) @ rh_cohort_root h @ rh_per_recipient_amount h
     @ u64_to_be (rh_cohort_size h) @ rh_token h @ u64_to_be (rh_close_time h) @ rh_claim_contract_address h @ rh_chain_id h"

definition encode_sign_voucher :: "bytes32 \<Rightarrow> u8 list \<Rightarrow> voucher_context \<Rightarrow> u8 list" where
  "encode_sign_voucher auth_token serialized_header ctx =
     (let body = auth_token @ serialized_header @ vc_round_id ctx @ vc_cohort_root ctx @ vc_claim_contract ctx
            @ vc_per_recipient_amount ctx @ vc_chain_id ctx;
          len = length body
      in [CLA, INS_SIGN_VOUCHER, 0x00, 0x00, 0x00, word_of_nat (len div 256), word_of_nat (len mod 256)] @ body)"

definition decode_sign_voucher_response ::
    "u8 list \<Rightarrow> (card_error, secp_pubkey \<times> secp_pubkey \<times> ecdsa_signature) result" where
  "decode_sign_voucher_response resp =
     (if length resp \<noteq> 192 + 2 then Inl BadApdu
      else if drop 192 resp \<noteq> [0x90, 0x00] then Inl BadApdu
      else Inr (\<lparr>sq_x = slice 0 32 resp, sq_y = slice 32 64 resp\<rparr>, \<lparr>sq_x = slice 64 96 resp, sq_y = slice 96 128 resp\<rparr>,
                \<lparr>es_r = slice 128 160 resp, es_s = slice 160 192 resp\<rparr>))"

definition split_apdu :: "u8 list \<Rightarrow> (card_error, u8 \<times> u8 \<times> u8 \<times> u8 \<times> u8 list) result" where
  "split_apdu apdu =
     (if length apdu < 5 then Inl BadApdu
      else if apdu ! 0 \<noteq> CLA then Inl BadApdu
      else
        (let (lc, body_off) =
           (if apdu ! 4 = 0x00 \<and> 7 \<le> length apdu then (unat (apdu ! 5) * 256 + unat (apdu ! 6), 7)
            else (unat (apdu ! 4), 5))
         in if length apdu \<noteq> body_off + lc then Inl BadApdu
            else Inr (apdu ! 0, apdu ! 1, apdu ! 2, apdu ! 3, drop body_off apdu)))"

end
