(* ===== verification/Rails_Actors.thy ===== *)
theory Rails_Actors
  imports Rails
begin

text \<open>
  The actors of the disbursement rails: the software smartcard (\<open>adapters/software_smartcard.rs\<close>), the
  companion device (\<open>companion/core.rs\<close>), the funder (\<open>funder/core.rs\<close>), the registry of the operator
  (\<open>registry\<close>) over its Merkle store (\<open>ports/merkle.rs\<close>, \<open>adapters/lean_imt_merkle.rs\<close>), the submission
  channel (\<open>adapters/direct_submission.rs\<close>) and the relay (\<open>relay\<close>). A handler that changes its actor
  returns the actor beside the result. Random secrets, seeds and times are arguments.
\<close>

section \<open>The software smartcard\<close>

record card =
  cd_m :: "bytes32 option"
  cd_companion_pre_key :: "bytes32 option"
  cd_expects_auth_token :: bool
  cd_refuses_prehashed :: bool

definition card_new :: "bytes32 option \<Rightarrow> bool \<Rightarrow> card" where
  "card_new companion_pre_key expects_auth_token =
     \<lparr>cd_m = None, cd_companion_pre_key = companion_pre_key, cd_expects_auth_token = expects_auth_token,
      cd_refuses_prehashed = True\<rparr>"

definition ensure_key :: "bytes32 \<Rightarrow> card \<Rightarrow> bytes32 \<times> card" where
  "ensure_key fresh c = (case cd_m c of None \<Rightarrow> (fresh, c\<lparr>cd_m := Some fresh\<rparr>) | Some m \<Rightarrow> (m, c))"

definition handle_generate_key :: "bytes32 \<Rightarrow> card \<Rightarrow> (card_error, u8 list) result \<times> card" where
  "handle_generate_key fresh c =
     (Inr [0x90, 0x00], if cd_m c = None then c\<lparr>cd_m := Some fresh\<rparr> else c)"

definition handle_export_key :: "rails_prims \<Rightarrow> card \<Rightarrow> (card_error, u8 list) result \<times> card" where
  "handle_export_key R c =
     (and_then (ok_or KeyNotGenerated (cd_m c)) (\<lambda>m.
      let pk = derive_pubkey R m in Inr (sq_x pk @ sq_y pk @ [0x90, 0x00])), c)"

definition header_digest :: "'fr prims \<Rightarrow> u8 list \<Rightarrow> bytes32" where
  "header_digest E serialized_header = sha256 E (sha256 E DOMAIN_HEADER @ serialized_header)"

definition ctx_of_bytes :: "u8 list \<Rightarrow> voucher_context" where
  "ctx_of_bytes bytes =
     \<lparr>vc_round_id = slice 0 32 bytes, vc_cohort_root = slice 32 64 bytes, vc_claim_contract = slice 64 84 bytes,
      vc_per_recipient_amount = slice 84 116 bytes, vc_chain_id = slice 116 148 bytes\<rparr>"

definition ctx_matches :: "u8 list \<Rightarrow> voucher_context \<Rightarrow> bool" where
  "ctx_matches serialized_header ctx \<longleftrightarrow>
     slice 0 32 serialized_header = vc_round_id ctx \<and> slice 40 72 serialized_header = vc_cohort_root ctx
     \<and> slice 72 104 serialized_header = vc_per_recipient_amount ctx
     \<and> slice 140 160 serialized_header = vc_claim_contract ctx \<and> slice 160 192 serialized_header = vc_chain_id ctx"

definition check_auth_token :: "rails_prims \<Rightarrow> card \<Rightarrow> bytes32 \<Rightarrow> bytes32 \<Rightarrow> (card_error, unit) result" where
  "check_auth_token R c auth_token h =
     (if \<not> cd_expects_auth_token c then Inr ()
      else and_then (ok_or AuthTokenMismatch (cd_companion_pre_key c)) (\<lambda>key.
        if derive_auth_token R key h \<noteq> auth_token then Inl AuthTokenMismatch else Inr ()))"

definition voucher_preimage :: "'fr prims \<Rightarrow> voucher_context \<Rightarrow> secp_pubkey \<Rightarrow> secp_pubkey \<Rightarrow> u8 list" where
  "voucher_preimage E ctx m_pubkey derived_pubkey =
     sha256 E DOMAIN_VOUCHER @ vc_round_id ctx @ vc_cohort_root ctx @ vc_chain_id ctx @ sq_x m_pubkey @ sq_y m_pubkey
     @ sq_x derived_pubkey @ sq_y derived_pubkey @ vc_per_recipient_amount ctx @ vc_claim_contract ctx"

definition sign_context :: "'fr prims \<Rightarrow> rails_prims \<Rightarrow> bytes32 \<Rightarrow> voucher_context \<Rightarrow> (card_error, u8 list) result" where
  "sign_context E R m ctx =
     (let derived = derive_stealth_scalar R m (vc_round_id ctx) (vc_claim_contract ctx) (vc_chain_id ctx);
          derived_pubkey = derive_pubkey R derived;
          m_pubkey = derive_pubkey R m;
          digest = sha256 E (voucher_preimage E ctx m_pubkey derived_pubkey)
      in and_then (sign_voucher R m digest) (\<lambda>sig.
         Inr (sq_x m_pubkey @ sq_y m_pubkey @ sq_x derived_pubkey @ sq_y derived_pubkey @ es_r sig @ es_s sig
              @ [0x90, 0x00])))"

definition check_sign_body :: "'fr prims \<Rightarrow> rails_prims \<Rightarrow> card \<Rightarrow> u8 list \<Rightarrow> (card_error, voucher_context) result" where
  "check_sign_body E R c body =
     (if \<not> cd_refuses_prehashed c then Inl PreHashedHMsgRefused
      else if length body = 32 then Inl PreHashedHMsgRefused
      else if length body \<noteq> SIGN_VOUCHER_BODY_LEN then Inl BadApdu
      else
        (let auth_token = slice 0 32 body;
             serialized_header = slice 32 (32 + SERIALIZED_HEADER_LEN) body;
             ctx = ctx_of_bytes (drop (32 + SERIALIZED_HEADER_LEN) body)
         in if \<not> ctx_matches serialized_header ctx then Inl CtxHeaderMismatch
            else and_then (check_auth_token R c auth_token (header_digest E serialized_header)) (\<lambda>_. Inr ctx)))"

definition handle_sign_voucher ::
    "'fr prims \<Rightarrow> rails_prims \<Rightarrow> bytes32 \<Rightarrow> card \<Rightarrow> u8 list \<Rightarrow> (card_error, u8 list) result \<times> card" where
  "handle_sign_voucher E R fresh c body =
     (case check_sign_body E R c body of
        Inl e \<Rightarrow> (Inl e, c)
      | Inr ctx \<Rightarrow> (let (m, c) = ensure_key fresh c in (sign_context E R m ctx, c)))"

definition transmit ::
    "'fr prims \<Rightarrow> rails_prims \<Rightarrow> bytes32 \<Rightarrow> card \<Rightarrow> u8 list \<Rightarrow> (card_error, u8 list) result \<times> card" where
  "transmit E R fresh c apdu =
     (case split_apdu apdu of
        Inl e \<Rightarrow> (Inl e, c)
      | Inr (_, ins, _, _, body) \<Rightarrow>
          if ins = INS_GENERATE_KEY then handle_generate_key fresh c
          else if ins = INS_EXPORT_KEY then handle_export_key R c
          else if ins = INS_SIGN_VOUCHER then handle_sign_voucher E R fresh c body
          else (Inl BadApdu, c))"

section \<open>The companion\<close>

datatype companion_error =
    BadFunderSig multisig_error
  | BadRosterSig multisig_error
  | StaleRoster
  | FutureRoster
  | CardFailure card_error
  | CompanionAead aead_error
  | NoRelaysAvailable
  | VoucherSerialization string

type_synonym 'c card_port = "'c \<Rightarrow> u8 list \<Rightarrow> (card_error, u8 list) result \<times> 'c"

record 'c companion =
  cm_card :: 'c
  cm_companion_pre_key :: bytes32
  cm_roster :: relay_roster
  cm_funder_owners :: "address list"
  cm_funder_threshold :: nat

definition ROSTER_STALENESS_SECS :: u64 where "ROSTER_STALENESS_SECS = 48 * 3600"

definition pick_relay :: "'c companion \<Rightarrow> (companion_error, relay_descriptor) result" where
  "pick_relay cm = (case ro_relays (cm_roster cm) of [] \<Rightarrow> Inl NoRelaysAvailable | r # _ \<Rightarrow> Inr r)"

definition h_header :: "'fr prims \<Rightarrow> round_header \<Rightarrow> bytes32" where
  "h_header E header = sha256 E (sha256 E DOMAIN_HEADER @ serialize_round_header header)"

definition roster_digest :: "'fr prims \<Rightarrow> relay_roster \<Rightarrow> bytes32" where
  "roster_digest E roster =
     sha256 E (DOMAIN_ROSTER @ u32_to_be (word_of_nat (length (ro_relays roster)))
       @ concat (map (\<lambda>r. rl_relay_id r @ rl_static_pub_x25519 r @ u64_to_be (rl_rotation_epoch r)) (ro_relays roster))
       @ u64_to_be (ro_signed_at_unix roster))"

definition check_multisig ::
    "'fr prims \<Rightarrow> rails_prims \<Rightarrow> 'c companion \<Rightarrow> bytes32 \<Rightarrow> u8 list \<Rightarrow> (multisig_error, unit) result" where
  "check_multisig E R cm digest signature =
     and_then (decode_threshold signature (cm_funder_threshold cm)) (\<lambda>sigs.
     verify_threshold E R digest sigs (cm_funder_owners cm) (cm_funder_threshold cm))"

definition companion_checks ::
    "'fr prims \<Rightarrow> rails_prims \<Rightarrow> u64 \<Rightarrow> 'c companion \<Rightarrow> header_bundle \<Rightarrow> (companion_error, unit) result" where
  "companion_checks E R now cm bundle =
     (if now < ro_signed_at_unix (cm_roster cm) then Inl FutureRoster
      else if ROSTER_STALENESS_SECS < now - ro_signed_at_unix (cm_roster cm) then Inl StaleRoster
      else
        and_then (map_err BadRosterSig
          (check_multisig E R cm (roster_digest E (cm_roster cm)) (ro_signature (cm_roster cm)))) (\<lambda>_.
        map_err BadFunderSig
          (check_multisig E R cm (h_header E (sh_header (hb_signed bundle))) (sh_signature (hb_signed bundle)))))"

definition header_context :: "round_header \<Rightarrow> voucher_context" where
  "header_context header =
     \<lparr>vc_round_id = rh_round_id header, vc_cohort_root = rh_cohort_root header,
      vc_claim_contract = rh_claim_contract_address header, vc_per_recipient_amount = rh_per_recipient_amount header,
      vc_chain_id = rh_chain_id header\<rparr>"

definition claim_nullifier_of :: "'fr prims \<Rightarrow> secp_pubkey \<Rightarrow> secp_pubkey \<Rightarrow> bytes32 \<Rightarrow> address \<Rightarrow> bytes32 \<Rightarrow> 'fr" where
  "claim_nullifier_of E m derived round_id claim_contract chain_id =
     hash_claim_nullifier E (m_packed_of E m)
       (hash_derived_pubkey_packed E (hi_limb E (sq_x derived)) (lo_limb E (sq_x derived)) (hi_limb E (sq_y derived))
         (lo_limb E (sq_y derived)))
       (pack_round_id E (hi_limb E round_id) (lo_limb E round_id)) (fr_be E (pad_address claim_contract))
       (pack_chain_id E (hi_limb E chain_id) (lo_limb E chain_id))"

definition seal_voucher ::
    "'fr prims \<Rightarrow> rails_prims \<Rightarrow> u8 list \<Rightarrow> 'c companion \<Rightarrow> round_header \<Rightarrow> u8 list \<Rightarrow> (companion_error, encrypted_voucher) result" where
  "seal_voucher E R rnd cm header resp =
     and_then (map_err CardFailure (decode_sign_voucher_response resp)) (\<lambda>(m_pub, derived_pub, signature).
     let voucher =
       \<lparr>sv_m = m_pub, sv_derived_pubkey = derived_pub, sv_signature = signature, sv_context = header_context header,
        sv_claim_nullifier = fr_word E (claim_nullifier_of E m_pub derived_pub (rh_round_id header)
          (rh_claim_contract_address header) (rh_chain_id header)),
        sv_destination = destination_from_derived_pubkey E derived_pub\<rparr>
     in and_then (map_err VoucherSerialization (voucher_to_json R voucher)) (\<lambda>plaintext.
        and_then (pick_relay cm) (\<lambda>relay.
        map_err CompanionAead (encrypt_to_relay R rnd (rl_static_pub_x25519 relay) (rl_relay_id relay) plaintext))))"

definition build_voucher ::
    "'fr prims \<Rightarrow> rails_prims \<Rightarrow> 'c card_port \<Rightarrow> u8 list \<Rightarrow> u64 \<Rightarrow> 'c companion \<Rightarrow> header_bundle
     \<Rightarrow> (companion_error, encrypted_voucher) result \<times> 'c companion" where
  "build_voucher E R tr rnd now cm bundle =
     (case companion_checks E R now cm bundle of
        Inl e \<Rightarrow> (Inl e, cm)
      | Inr _ \<Rightarrow>
          (let header = sh_header (hb_signed bundle);
               auth_token = derive_auth_token R (cm_companion_pre_key cm) (h_header E header);
               apdu = encode_sign_voucher auth_token (serialize_round_header header) (header_context header);
               (resp, card') = tr (cm_card cm) apdu;
               cm = cm\<lparr>cm_card := card'\<rparr>
           in (and_then (map_err CardFailure resp) (seal_voucher E R rnd cm header), cm)))"

section \<open>The funder\<close>

datatype funder_error =
    RegistryMismatch
  | ThresholdConfig string
  | MultisigPropose string
  | MultisigConfirm string
  | MultisigExecute string

record funder =
  fu_multisig_signers :: "bytes32 list"
  fu_claim_contract :: address
  fu_funder_residual_destination :: address
  fu_funder_owners :: "address list"
  fu_threshold :: nat
  fu_multisig_address :: address

definition funder_new :: "bytes32 list \<Rightarrow> address \<Rightarrow> address \<Rightarrow> funder" where
  "funder_new multisig_signers claim_contract funder_residual_destination =
     \<lparr>fu_multisig_signers = multisig_signers, fu_claim_contract = claim_contract,
      fu_funder_residual_destination = funder_residual_destination, fu_funder_owners = [], fu_threshold = 0,
      fu_multisig_address = zeros 20\<rparr>"

definition with_multisig ::
    "'fr prims \<Rightarrow> rails_prims \<Rightarrow> bytes32 list \<Rightarrow> address list \<Rightarrow> nat \<Rightarrow> address \<Rightarrow> address \<Rightarrow> address \<Rightarrow> (funder_error, funder) result" where
  "with_multisig E R multisig_signers funder_owners threshold multisig_address claim_contract funder_residual_destination =
     (if threshold = 0 then Inl (ThresholdConfig ''threshold must be > 0'')
      else if length multisig_signers < threshold then Inl (ThresholdConfig ''have {} signers but need {}'')
      else
        and_then (try_fold (\<lambda>_ sk. if address_from_verifying_key E (secp_public R sk) \<notin> set funder_owners
            then Inl (ThresholdConfig ''signer index {i} (address {}) not in funder_owners'') else Inr ()) () multisig_signers) (\<lambda>_.
        Inr \<lparr>fu_multisig_signers = multisig_signers, fu_claim_contract = claim_contract,
             fu_funder_residual_destination = funder_residual_destination, fu_funder_owners = funder_owners,
             fu_threshold = threshold, fu_multisig_address = multisig_address\<rparr>))"

definition build_round_header ::
    "funder \<Rightarrow> bytes32 \<Rightarrow> u64 \<Rightarrow> bytes32 \<Rightarrow> bytes32 \<Rightarrow> u64 \<Rightarrow> address \<Rightarrow> u64 \<Rightarrow> bytes32 \<Rightarrow> round_header" where
  "build_round_header f round_id cohort_version cohort_root per_recipient_amount cohort_size token close_time chain_id =
     \<lparr>rh_round_id = round_id, rh_cohort_version = cohort_version, rh_cohort_root = cohort_root,
      rh_per_recipient_amount = per_recipient_amount, rh_cohort_size = cohort_size, rh_token = token,
      rh_close_time = close_time, rh_claim_contract_address = fu_claim_contract f, rh_chain_id = chain_id\<rparr>"

text \<open>The funder has copies of the two digests of the companion, with the same text.\<close>

definition threshold_signature :: "'fr prims \<Rightarrow> rails_prims \<Rightarrow> funder \<Rightarrow> bytes32 \<Rightarrow> u8 list" where
  "threshold_signature E R f digest =
     encode_threshold (map (\<lambda>sk. multisig_sign_digest E R sk digest) (take (fu_threshold f) (fu_multisig_signers f)))"

definition sign_round_header :: "'fr prims \<Rightarrow> rails_prims \<Rightarrow> funder \<Rightarrow> round_header \<Rightarrow> (funder_error, u8 list) result" where
  "sign_round_header E R f header =
     (if fu_threshold f = 0
      then Inl (ThresholdConfig ''sign_round_header requires a non-zero threshold; use with_multisig'')
      else Inr (threshold_signature E R f (h_header E header)))"

definition sign_roster :: "'fr prims \<Rightarrow> rails_prims \<Rightarrow> funder \<Rightarrow> relay_roster \<Rightarrow> (funder_error, u8 list) result" where
  "sign_roster E R f roster =
     (if fu_threshold f = 0
      then Inl (ThresholdConfig ''sign_roster requires a non-zero threshold; use with_multisig'')
      else Inr (threshold_signature E R f (roster_digest E roster)))"

definition round_commitment :: "'fr prims \<Rightarrow> address \<Rightarrow> bytes32 \<Rightarrow> bytes32 \<Rightarrow> secp_pubkey \<Rightarrow> bytes32" where
  "round_commitment E token amount round_id m =
     fr_word E (hash_pool_commitment E (fr_be E (pad_address token)) (from_be_bytes_mod_order E amount) (m_packed_of E m)
       (pack_round_id E (hi_limb E round_id) (lo_limb E round_id)))"

definition compute_round_commitments ::
    "'fr prims \<Rightarrow> round_header \<Rightarrow> secp_pubkey list \<Rightarrow> (funder_error, bytes32 list) result" where
  "compute_round_commitments E header m_values =
     (if length m_values \<noteq> unat (rh_cohort_size header) then Inl RegistryMismatch
      else Inr (map (round_commitment E (rh_token header) (rh_per_recipient_amount header) (rh_round_id header)) m_values))"

section \<open>The registry of the operator\<close>

datatype operator_error = DuplicateCard | DuplicateM | UnknownCard

datatype card_status = CardActive | CardRevoked

record card_record =
  cr_card_id :: bytes32
  cr_m :: secp_pubkey
  cr_status :: card_status
  cr_cohort_position :: u64

record personalization_packet =
  pk_card_id :: bytes32
  pk_m :: secp_pubkey
  pk_cohort_position :: u64
  pk_cohort_version :: u64

datatype rails_merkle_error = MerkleOutOfRange nat nat | MerkleEmptyTree | MerkleProofFailure string

record ('t, 'fr) merkle_store =
  mt_root :: "'t \<Rightarrow> 'fr option"
  mt_size :: "'t \<Rightarrow> nat"
  mt_get_proof :: "'t \<Rightarrow> nat \<Rightarrow> (rails_merkle_error, 'fr list \<times> u8 list) result"
  mt_insert :: "'t \<Rightarrow> 'fr \<Rightarrow> nat \<times> 't"

record 't operator_registry =
  og_cards :: "card_record list"
  og_tree :: 't
  og_current_version :: u64

definition operator_new :: "'t \<Rightarrow> 't operator_registry" where
  "operator_new tree = \<lparr>og_cards = [], og_tree = tree, og_current_version = 0\<rparr>"

definition operator_enroll ::
    "'t operator_registry \<Rightarrow> bytes32 \<Rightarrow> secp_pubkey \<Rightarrow> (operator_error, u64) result \<times> 't operator_registry" where
  "operator_enroll og card_id m =
     (if list_ex (\<lambda>c. cr_card_id c = card_id) (og_cards og) then (Inl DuplicateCard, og)
      else if list_ex (\<lambda>c. cr_m c = m) (og_cards og) then (Inl DuplicateM, og)
      else
        (let position = word_of_nat (length (og_cards og))
         in (Inr position, og\<lparr>og_cards := og_cards og @
               [\<lparr>cr_card_id = card_id, cr_m = m, cr_status = CardActive, cr_cohort_position = position\<rparr>]\<rparr>)))"

fun revoke_card :: "bytes32 \<Rightarrow> card_record list \<Rightarrow> card_record list option" where
  "revoke_card card_id [] = None"
| "revoke_card card_id (c # cs) =
     (if cr_card_id c = card_id then Some (c\<lparr>cr_status := CardRevoked\<rparr> # cs)
      else map_option ((#) c) (revoke_card card_id cs))"

definition operator_revoke ::
    "'t operator_registry \<Rightarrow> bytes32 \<Rightarrow> (operator_error, unit) result \<times> 't operator_registry" where
  "operator_revoke og card_id =
     (case revoke_card card_id (og_cards og) of
        None \<Rightarrow> (Inl UnknownCard, og)
      | Some cards \<Rightarrow> (Inr (), og\<lparr>og_cards := cards\<rparr>))"

definition active_cards :: "card_record list \<Rightarrow> card_record list" where
  "active_cards cards = filter (\<lambda>c. cr_status c = CardActive) cards"

definition rebuild_tree ::
    "'fr prims \<Rightarrow> ('t, 'fr) merkle_store \<Rightarrow> 't operator_registry \<Rightarrow> 't operator_registry" where
  "rebuild_tree E S og =
     og\<lparr>og_tree := fold (\<lambda>c t. snd (mt_insert S t (m_packed_of E (cr_m c))))
       (sort_key cr_cohort_position (active_cards (og_cards og))) (og_tree og)\<rparr>"

definition publish_cohort ::
    "('t, 'fr) merkle_store \<Rightarrow> 't operator_registry \<Rightarrow> (operator_error, u64 \<times> 'fr option \<times> u64) result \<times> 't operator_registry" where
  "publish_cohort S og =
     (let og = og\<lparr>og_current_version := og_current_version og + 1\<rparr>
      in (Inr (og_current_version og, mt_root S (og_tree og), word_of_nat (length (active_cards (og_cards og)))), og))"

definition personalize ::
    "'t operator_registry \<Rightarrow> bytes32 \<Rightarrow> secp_pubkey \<Rightarrow> (operator_error, personalization_packet) result \<times> 't operator_registry" where
  "personalize og card_id m =
     (case operator_enroll og card_id m of
        (Inl e, og) \<Rightarrow> (Inl e, og)
      | (Inr position, og) \<Rightarrow>
          (Inr \<lparr>pk_card_id = card_id, pk_m = m, pk_cohort_position = position,
                pk_cohort_version = og_current_version og + 1\<rparr>, og))"

definition cohort_root_bytes :: "'fr prims \<Rightarrow> ('t, 'fr) merkle_store \<Rightarrow> 't operator_registry \<Rightarrow> bytes32 option" where
  "cohort_root_bytes E S og = map_option (fr_word E) (mt_root S (og_tree og))"

text \<open>The adapter over the \<open>lean-imt\<close> crate, whose tree is the list of its leaves.\<close>

definition imt_poseidon_hasher :: "'fr prims \<Rightarrow> u8 list \<Rightarrow> bytes32" where
  "imt_poseidon_hasher E inp =
     fr_word E (rails_merkle_node E (from_be_bytes_mod_order E (take 32 inp)) (from_be_bytes_mod_order E (slice 32 64 inp)))"

definition imt_store_root :: "'fr prims \<Rightarrow> rails_prims \<Rightarrow> bytes32 list \<Rightarrow> 'fr option" where
  "imt_store_root E R t = map_option (from_be_bytes_mod_order E) (imt_crate_root R (imt_poseidon_hasher E) t)"

definition imt_store_get_proof ::
    "'fr prims \<Rightarrow> rails_prims \<Rightarrow> bytes32 list \<Rightarrow> nat \<Rightarrow> (rails_merkle_error, 'fr list \<times> u8 list) result" where
  "imt_store_get_proof E R t index =
     (if length t = 0 then Inl MerkleEmptyTree
      else if length t \<le> index then Inl (MerkleOutOfRange index (length t))
      else and_then (map_err MerkleProofFailure (imt_crate_proof R (imt_poseidon_hasher E) t index)) (\<lambda>(siblings, pindex).
        Inr (map (from_be_bytes_mod_order E) siblings, map (\<lambda>i. word_of_nat (pindex div 2 ^ i mod 2)) [0..<length siblings])))"

definition imt_store_insert :: "'fr prims \<Rightarrow> bytes32 list \<Rightarrow> 'fr \<Rightarrow> nat \<times> bytes32 list" where
  "imt_store_insert E t leaf = (length t, t @ [fr_word E leaf])"

definition lean_imt_store :: "'fr prims \<Rightarrow> rails_prims \<Rightarrow> (bytes32 list, 'fr) merkle_store" where
  "lean_imt_store E R =
     \<lparr>mt_root = imt_store_root E R, mt_size = length, mt_get_proof = imt_store_get_proof E R, mt_insert = imt_store_insert E\<rparr>"

section \<open>The submission channel\<close>

datatype channel_error = ChannelUnknownRelay | ChannelRejected string

record delivery_receipt =
  dr_message_id :: bytes32
  dr_accepted_at_unix :: u64

record direct_submission =
  ds_inboxes :: "bytes32 \<rightharpoonup> encrypted_voucher list"
  ds_known_relays :: "bytes32 set"

definition channel_new :: "bytes32 list \<Rightarrow> direct_submission" where
  "channel_new known =
     \<lparr>ds_inboxes = (\<lambda>ident. if ident \<in> set known then Some [] else None), ds_known_relays = set known\<rparr>"

definition pull_voucher :: "direct_submission \<Rightarrow> bytes32 \<Rightarrow> encrypted_voucher option \<times> direct_submission" where
  "pull_voucher ds relay_id =
     (case ds_inboxes ds relay_id of
        Some (e # q) \<Rightarrow> (Some e, ds\<lparr>ds_inboxes := (ds_inboxes ds)(relay_id \<mapsto> q)\<rparr>)
      | _ \<Rightarrow> (None, ds))"

definition pending_vouchers :: "direct_submission \<Rightarrow> bytes32 \<Rightarrow> nat" where
  "pending_vouchers ds relay_id = (case ds_inboxes ds relay_id of None \<Rightarrow> 0 | Some q \<Rightarrow> length q)"

definition message_id :: "'fr prims \<Rightarrow> encrypted_voucher \<Rightarrow> bytes32" where
  "message_id E env = sha256 E (ev_envelope env @ ev_relay_id env)"

definition channel_submit ::
    "'fr prims \<Rightarrow> u64 \<Rightarrow> direct_submission \<Rightarrow> encrypted_voucher \<Rightarrow> bytes32
     \<Rightarrow> (channel_error, delivery_receipt) result \<times> direct_submission" where
  "channel_submit E now ds env relay_id =
     (if relay_id \<notin> ds_known_relays ds then (Inl ChannelUnknownRelay, ds)
      else if ev_relay_id env \<noteq> relay_id
      then (Inl (ChannelRejected ''envelope relay_id does not match submitted relay_id''), ds)
      else
        (case ds_inboxes ds relay_id of
           None \<Rightarrow> (Inl ChannelUnknownRelay, ds)
         | Some q \<Rightarrow> (Inr \<lparr>dr_message_id = message_id E env, dr_accepted_at_unix = now\<rparr>,
                      ds\<lparr>ds_inboxes := (ds_inboxes ds)(relay_id \<mapsto> q @ [env])\<rparr>)))"

section \<open>The relay\<close>

datatype pool_error = PoolRpc string

datatype rails_proof_error = ProofGenerationFailed string | ProofWitnessSerialization string

datatype relay_error =
    RelayAead aead_error
  | BadVoucherFormat string
  | ProofGeneration rails_proof_error
  | RelayPool pool_error
  | PoolCommitmentNotFound

record key_archive =
  ka_current_sk :: bytes32
  ka_current_pk :: bytes32
  ka_previous_sk :: "bytes32 option"
  ka_previous_pk :: "bytes32 option"
  ka_rotated_at :: nat
  ka_rotation_interval :: nat

definition rotate_keys :: "rails_prims \<Rightarrow> bytes32 \<Rightarrow> nat \<Rightarrow> key_archive \<Rightarrow> key_archive" where
  "rotate_keys R seed now ka =
     ka\<lparr>ka_current_sk := seed, ka_current_pk := x25519_public R seed, ka_previous_sk := Some (ka_current_sk ka),
        ka_previous_pk := Some (ka_current_pk ka), ka_rotated_at := now\<rparr>"

definition is_due :: "nat \<Rightarrow> key_archive \<Rightarrow> bool" where
  "is_due now ka \<longleftrightarrow> ka_rotation_interval ka \<le> now - ka_rotated_at ka"

record on_chain_pool =
  op_commitment_index :: "address \<Rightarrow> bytes32 \<Rightarrow> (pool_error, u64 option) result"
  op_sub_tree_root :: "address \<Rightarrow> (pool_error, bytes32) result"
  op_pool_merkle_path :: "address \<Rightarrow> u64 \<Rightarrow> (pool_error, merkle_path) result"

record on_chain_cohort =
  oc_cohort_root :: "u64 \<Rightarrow> (pool_error, bytes32) result"
  oc_cohort_merkle_path :: "u64 \<Rightarrow> u64 \<Rightarrow> (pool_error, merkle_path) result"

record 'fr claim_witness =
  kw_round_id_hi :: 'fr
  kw_round_id_lo :: 'fr
  kw_cohort_root :: 'fr
  kw_chain_id_hi :: 'fr
  kw_chain_id_lo :: 'fr
  kw_destination :: 'fr
  kw_amount :: 'fr
  kw_nullifier :: 'fr
  kw_claim_contract_address :: 'fr
  kw_relay_submitter :: 'fr
  kw_derived_pubkey_x_hi :: 'fr
  kw_derived_pubkey_x_lo :: 'fr
  kw_derived_pubkey_y_hi :: 'fr
  kw_derived_pubkey_y_lo :: 'fr
  kw_m_x_hi :: 'fr
  kw_m_x_lo :: 'fr
  kw_m_y_hi :: 'fr
  kw_m_y_lo :: 'fr
  kw_signature_r :: bytes32
  kw_signature_s :: bytes32
  kw_merkle_path :: merkle_path

record 'fr pool_withdraw_witness =
  zw_pool_root :: 'fr
  zw_claim_nullifier :: 'fr
  zw_token :: 'fr
  zw_amount :: 'fr
  zw_recipient :: 'fr
  zw_m_x_hi :: 'fr
  zw_m_x_lo :: 'fr
  zw_m_y_hi :: 'fr
  zw_m_y_lo :: 'fr
  zw_derived_pubkey_x_hi :: 'fr
  zw_derived_pubkey_x_lo :: 'fr
  zw_derived_pubkey_y_hi :: 'fr
  zw_derived_pubkey_y_lo :: 'fr
  zw_round_id_hi :: 'fr
  zw_round_id_lo :: 'fr
  zw_chain_id_hi :: 'fr
  zw_chain_id_lo :: 'fr
  zw_claim_contract :: 'fr
  zw_merkle_path :: merkle_path

record 'fr rails_prover =
  pf_claim :: "'fr claim_witness \<Rightarrow> (rails_proof_error, u8 list) result"
  pf_pool_withdraw :: "'fr pool_withdraw_witness \<Rightarrow> (rails_proof_error, u8 list) result"

definition mock_proof_backend :: "'fr rails_prover" where
  "mock_proof_backend = \<lparr>pf_claim = (\<lambda>_. Inr []), pf_pool_withdraw = (\<lambda>_. Inr [])\<rparr>"

record 'fr relay =
  rx_prover :: "'fr rails_prover"
  rx_keys :: key_archive
  rx_pool :: on_chain_pool
  rx_cohort :: on_chain_cohort
  rx_claim_contract :: address
  rx_relay_submitter :: address

record 'fr submission_artifacts =
  sa_voucher :: signed_voucher
  sa_claim_witness :: "'fr claim_witness"
  sa_claim_proof :: "u8 list"
  sa_pool_witness :: "'fr pool_withdraw_witness"
  sa_pool_proof :: "u8 list"

definition relay_decrypt :: "rails_prims \<Rightarrow> key_archive \<Rightarrow> encrypted_voucher \<Rightarrow> (relay_error, u8 list) result" where
  "relay_decrypt R ka env =
     (case decrypt_from_companion R (ka_current_sk ka) env of
        Inr plain \<Rightarrow> Inr plain
      | Inl _ \<Rightarrow>
          (case ka_previous_sk ka of
             None \<Rightarrow> Inl (RelayAead DecryptFailed)
           | Some prev \<Rightarrow>
               (case decrypt_from_companion R prev env of
                  Inr plain \<Rightarrow> Inr plain
                | Inl _ \<Rightarrow> Inl (RelayAead DecryptFailed))))"

definition claim_witness_of :: "'fr prims \<Rightarrow> 'fr relay \<Rightarrow> signed_voucher \<Rightarrow> bytes32 \<Rightarrow> merkle_path \<Rightarrow> 'fr claim_witness" where
  "claim_witness_of E rx v cohort_root_be cohort_path =
     (let ctx = sv_context v; d = sv_derived_pubkey v; m = sv_m v in
      \<lparr>kw_round_id_hi = hi_limb E (vc_round_id ctx), kw_round_id_lo = lo_limb E (vc_round_id ctx),
       kw_cohort_root = fr_be E cohort_root_be, kw_chain_id_hi = hi_limb E (vc_chain_id ctx),
       kw_chain_id_lo = lo_limb E (vc_chain_id ctx), kw_destination = fr_be E (pad_address (sv_destination v)),
       kw_amount = from_be_bytes_mod_order E (vc_per_recipient_amount ctx),
       kw_nullifier = claim_nullifier_of E m d (vc_round_id ctx) (vc_claim_contract ctx) (vc_chain_id ctx),
       kw_claim_contract_address = fr_be E (pad_address (vc_claim_contract ctx)),
       kw_relay_submitter = fr_be E (pad_address (rx_relay_submitter rx)),
       kw_derived_pubkey_x_hi = hi_limb E (sq_x d), kw_derived_pubkey_x_lo = lo_limb E (sq_x d),
       kw_derived_pubkey_y_hi = hi_limb E (sq_y d), kw_derived_pubkey_y_lo = lo_limb E (sq_y d),
       kw_m_x_hi = hi_limb E (sq_x m), kw_m_x_lo = lo_limb E (sq_x m), kw_m_y_hi = hi_limb E (sq_y m),
       kw_m_y_lo = lo_limb E (sq_y m), kw_signature_r = es_r (sv_signature v), kw_signature_s = es_s (sv_signature v),
       kw_merkle_path = cohort_path\<rparr>)"

definition pool_witness_of ::
    "'fr prims \<Rightarrow> signed_voucher \<Rightarrow> address \<Rightarrow> 'fr claim_witness \<Rightarrow> bytes32 \<Rightarrow> merkle_path \<Rightarrow> 'fr pool_withdraw_witness" where
  "pool_witness_of E v token cw pool_root_be pool_path =
     \<lparr>zw_pool_root = fr_be E pool_root_be, zw_claim_nullifier = kw_nullifier cw, zw_token = fr_be E (pad_address token),
      zw_amount = kw_amount cw, zw_recipient = kw_destination cw, zw_m_x_hi = kw_m_x_hi cw, zw_m_x_lo = kw_m_x_lo cw,
      zw_m_y_hi = kw_m_y_hi cw, zw_m_y_lo = kw_m_y_lo cw, zw_derived_pubkey_x_hi = kw_derived_pubkey_x_hi cw,
      zw_derived_pubkey_x_lo = kw_derived_pubkey_x_lo cw, zw_derived_pubkey_y_hi = kw_derived_pubkey_y_hi cw,
      zw_derived_pubkey_y_lo = kw_derived_pubkey_y_lo cw, zw_round_id_hi = kw_round_id_hi cw,
      zw_round_id_lo = kw_round_id_lo cw, zw_chain_id_hi = kw_chain_id_hi cw, zw_chain_id_lo = kw_chain_id_lo cw,
      zw_claim_contract = kw_claim_contract_address cw, zw_merkle_path = pool_path\<rparr>"

definition prove_voucher ::
    "'fr prims \<Rightarrow> 'fr relay \<Rightarrow> signed_voucher \<Rightarrow> address \<Rightarrow> u64 \<Rightarrow> u64 \<Rightarrow> (relay_error, 'fr submission_artifacts) result" where
  "prove_voucher E rx v token cohort_version cohort_position =
     (let ctx = sv_context v;
          commitment = round_commitment E token (vc_per_recipient_amount ctx) (vc_round_id ctx) (sv_m v) in
      and_then (map_err RelayPool (op_commitment_index (rx_pool rx) (rx_claim_contract rx) commitment)) (\<lambda>found.
      and_then (ok_or PoolCommitmentNotFound found) (\<lambda>leaf_index.
      and_then (map_err RelayPool (op_sub_tree_root (rx_pool rx) (rx_claim_contract rx))) (\<lambda>pool_root_be.
      and_then (map_err RelayPool (op_pool_merkle_path (rx_pool rx) (rx_claim_contract rx) leaf_index)) (\<lambda>pool_path.
      and_then (map_err RelayPool (oc_cohort_root (rx_cohort rx) cohort_version)) (\<lambda>cohort_root_be.
      and_then (map_err RelayPool (oc_cohort_merkle_path (rx_cohort rx) cohort_version cohort_position)) (\<lambda>cohort_path.
      let cw = claim_witness_of E rx v cohort_root_be cohort_path in
      and_then (map_err ProofGeneration (pf_claim (rx_prover rx) cw)) (\<lambda>claim_proof.
      let zw = pool_witness_of E v token cw pool_root_be pool_path in
      and_then (map_err ProofGeneration (pf_pool_withdraw (rx_prover rx) zw)) (\<lambda>pool_proof.
      Inr \<lparr>sa_voucher = v, sa_claim_witness = cw, sa_claim_proof = claim_proof, sa_pool_witness = zw,
           sa_pool_proof = pool_proof\<rparr>)))))))))"

definition submit_voucher ::
    "'fr prims \<Rightarrow> rails_prims \<Rightarrow> bytes32 \<Rightarrow> nat \<Rightarrow> 'fr relay \<Rightarrow> encrypted_voucher \<Rightarrow> address \<Rightarrow> u64 \<Rightarrow> u64
     \<Rightarrow> (relay_error, 'fr submission_artifacts) result \<times> 'fr relay" where
  "submit_voucher E R seed now rx env token cohort_version cohort_position =
     (let rx = (if is_due now (rx_keys rx) then rx\<lparr>rx_keys := rotate_keys R seed now (rx_keys rx)\<rparr> else rx) in
      (and_then (relay_decrypt R (rx_keys rx) env) (\<lambda>plain.
       and_then (map_err BadVoucherFormat (voucher_of_json R plain)) (\<lambda>v.
       prove_voucher E rx v token cohort_version cohort_position)), rx))"

end
