(* ===== verification/Rails_Registry.thy ===== *)
theory Rails_Registry
  imports Rails_Actors
begin

text \<open>
  The registry of the operator as a state machine: the contract of a Merkle store (locale
  \<open>cohort_store\<close>) and its interpretation on the adapter over \<open>lean-imt\<close>, the steps of an operator with
  the invariant of the enrolled cards, and the leaves of a rebuilt cohort tree.
\<close>

section \<open>The contract of a Merkle store\<close>

locale cohort_store =
  fixes E :: "'fr prims" and S :: "('t, 'fr) merkle_store" and leaves :: "'t \<Rightarrow> 'fr list"
  assumes insert_appends: "field_laws E \<Longrightarrow> leaves (snd (mt_insert S t x)) = leaves t @ [x]"
    and insert_index: "field_laws E \<Longrightarrow> fst (mt_insert S t x) = mt_size S t"
    and size_leaves: "field_laws E \<Longrightarrow> mt_size S t = length (leaves t)"
begin

lemma leaves_fold:
  assumes "field_laws E"
  shows "leaves (fold (\<lambda>c t. snd (mt_insert S t (g c))) cs t) = leaves t @ map g cs"
  using assms by (induction cs arbitrary: t) (simp_all add: insert_appends)

lemma leaves_rebuilt:
  assumes "field_laws E"
  shows "leaves (og_tree (rebuild_tree E S og)) = leaves (og_tree og)
    @ map (\<lambda>c. m_packed_of E (cr_m c)) (sort_key cr_cohort_position (active_cards (og_cards og)))"
  using leaves_fold [OF assms] by (simp add: rebuild_tree_def)

lemma rebuilt_size:
  assumes "field_laws E"
  shows "mt_size S (og_tree (rebuild_tree E S og)) = mt_size S (og_tree og) + length (active_cards (og_cards og))"
  using assms by (simp add: size_leaves leaves_rebuilt)

end

interpretation imt_store: cohort_store E "lean_imt_store E R" "map (from_be_bytes_mod_order E)" for E R
  by unfold_locales (simp_all add: lean_imt_store_def imt_store_insert_def fr_word_def field_laws_def)

section \<open>The steps of an operator\<close>

inductive cohort_step ::
    "'fr prims \<Rightarrow> ('t, 'fr) merkle_store \<Rightarrow> 't operator_registry \<Rightarrow> 't operator_registry \<Rightarrow> bool"
  for E :: "'fr prims" and S :: "('t, 'fr) merkle_store" where
  step_enroll: "cohort_step E S og (snd (operator_enroll og card_id m))"
| step_personalize: "cohort_step E S og (snd (personalize og card_id m))"
| step_revoke: "cohort_step E S og (snd (operator_revoke og card_id))"
| step_rebuild: "cohort_step E S og (rebuild_tree E S og)"
| step_publish: "cohort_step E S og (snd (publish_cohort S og))"
| step_fresh_tree: "cohort_step E S og (og\<lparr>og_tree := t\<rparr>)"

inductive cohort_run ::
    "'fr prims \<Rightarrow> ('t, 'fr) merkle_store \<Rightarrow> 't operator_registry \<Rightarrow> bool"
  for E :: "'fr prims" and S :: "('t, 'fr) merkle_store" where
  run_new: "cohort_run E S (operator_new t)"
| run_step: "cohort_run E S og \<Longrightarrow> cohort_step E S og og' \<Longrightarrow> cohort_run E S og'"

text \<open>No card and no key is enrolled twice, and a card keeps the position of its enrolment.\<close>

definition cards_ok :: "card_record list \<Rightarrow> bool" where
  "cards_ok cards \<longleftrightarrow> distinct (map cr_card_id cards) \<and> distinct (map cr_m cards)
     \<and> map cr_cohort_position cards = map word_of_nat [0..<length cards]"

lemma cards_ok_enroll:
  assumes "cards_ok (og_cards og)"
  shows "cards_ok (og_cards (snd (operator_enroll og card_id m)))"
  using assms by (auto simp: operator_enroll_def cards_ok_def list_ex_iff Let_def)

lemma personalize_cards: "og_cards (snd (personalize og card_id m)) = og_cards (snd (operator_enroll og card_id m))"
  by (simp add: personalize_def split: prod.splits sum.splits)

lemma revoke_card_frame:
  "revoke_card card_id cards = Some cards' \<Longrightarrow>
     map cr_card_id cards' = map cr_card_id cards \<and> map cr_m cards' = map cr_m cards
     \<and> map cr_cohort_position cards' = map cr_cohort_position cards \<and> length cards' = length cards"
  by (induction cards arbitrary: cards') (auto split: if_splits)

lemma cards_ok_step:
  assumes "cohort_step E S og og'" and "cards_ok (og_cards og)"
  shows "cards_ok (og_cards og')"
  using assms
proof cases
  case (step_revoke card_id)
  then show ?thesis using assms(2)
    by (auto simp: operator_revoke_def cards_ok_def dest: revoke_card_frame split: option.splits)
qed (simp_all add: cards_ok_enroll personalize_cards rebuild_tree_def publish_cohort_def Let_def)

lemma cards_ok_run: "cohort_run E S og \<Longrightarrow> cards_ok (og_cards og)"
  by (induction rule: cohort_run.induct) (auto simp: operator_new_def cards_ok_def [of "[]"] intro: cards_ok_step)

section \<open>Where a card's leaf is\<close>

lemma positions_sorted:
  assumes "n < 2 ^ 64"
  shows "sorted (map (word_of_nat :: nat \<Rightarrow> u64) [0..<n])"
  using assms by (auto simp: sorted_iff_nth_mono unsigned_of_nat take_bit_eq_mod word_le_nat_alt)

lemma ordered_active:
  assumes "cards_ok cards" and "length cards < 2 ^ 64"
  shows "sort_key cr_cohort_position (active_cards cards) = active_cards cards"
proof -
  have "sorted (map cr_cohort_position cards)" using assms positions_sorted by (simp add: cards_ok_def)
  then have "sorted (map cr_cohort_position (active_cards cards))" unfolding active_cards_def by (rule sorted_filter)
  then show ?thesis by (simp add: sort_key_id_if_sorted)
qed

lemma active_split:
  assumes "i < length cards" and "cr_status (cards ! i) = CardActive"
  shows "active_cards cards = active_cards (take i cards) @ cards ! i # active_cards (drop (Suc i) cards)"
proof -
  have "cards = take i cards @ cards ! i # drop (Suc i) cards" using assms(1) by (rule id_take_nth_drop)
  then have "active_cards cards = active_cards (take i cards @ cards ! i # drop (Suc i) cards)" by simp
  then show ?thesis using assms(2) by (simp add: active_cards_def)
qed

lemma active_all: "length (active_cards cards) = length cards \<longleftrightarrow> (\<forall>c \<in> set cards. cr_status c = CardActive)"
proof
  assume "length (active_cards cards) = length cards"
  then show "\<forall>c \<in> set cards. cr_status c = CardActive"
    using length_filter_less [of _ cards "\<lambda>c. cr_status c = CardActive"] by (auto simp: active_cards_def)
qed (simp add: active_cards_def)

text \<open>The leaf of an active card in a tree rebuilt from scratch.\<close>

definition rebuilt_tree ::
    "'fr prims \<Rightarrow> rails_prims \<Rightarrow> bytes32 list operator_registry \<Rightarrow> bytes32 list" where
  "rebuilt_tree E R og = og_tree (rebuild_tree E (lean_imt_store E R) (og\<lparr>og_tree := []\<rparr>))"

lemma rebuilt_tree_leaves:
  assumes "field_laws E" and "cohort_run E (lean_imt_store E R) og" and "length (og_cards og) < 2 ^ 64"
  shows "map (from_be_bytes_mod_order E) (rebuilt_tree E R og) = map (\<lambda>c. m_packed_of E (cr_m c)) (active_cards (og_cards og))"
  unfolding rebuilt_tree_def imt_store.leaves_rebuilt [OF assms(1)]
  using ordered_active [OF cards_ok_run [OF assms(2)] assms(3)] by simp

lemma rebuilt_leaf:
  assumes "field_laws E" and "cohort_run E (lean_imt_store E R) og" and "length (og_cards og) < 2 ^ 64"
    and "i < length (og_cards og)" and "cr_status (og_cards og ! i) = CardActive"
  shows "length (active_cards (take i (og_cards og))) < length (rebuilt_tree E R og)
    \<and> from_be_bytes_mod_order E (rebuilt_tree E R og ! length (active_cards (take i (og_cards og))))
        = m_packed_of E (cr_m (og_cards og ! i))"
proof -
  note ls = rebuilt_tree_leaves [OF assms(1-3)] and sp = active_split [OF assms(4,5)]
  have "length (active_cards (take i (og_cards og))) < length (rebuilt_tree E R og)"
    using arg_cong [OF ls, of length] sp by simp
  then show ?thesis using arg_cong [OF ls, of "\<lambda>xs. xs ! length (active_cards (take i (og_cards og)))"] sp
    by (simp add: nth_append)
qed

lemma position_is_leaf:
  assumes "cohort_run E S og" and "length (og_cards og) < 2 ^ 64" and "i < length (og_cards og)"
  shows "cr_cohort_position (og_cards og ! i) = word_of_nat i
    \<and> (unat (cr_cohort_position (og_cards og ! i)) = length (active_cards (take i (og_cards og)))
       \<longleftrightarrow> (\<forall>c \<in> set (take i (og_cards og)). cr_status c = CardActive))"
proof -
  have "map cr_cohort_position (og_cards og) = map word_of_nat [0..<length (og_cards og)]"
    using cards_ok_run [OF assms(1)] by (simp add: cards_ok_def)
  from arg_cong [OF this, of "\<lambda>xs. xs ! i"] have p: "cr_cohort_position (og_cards og ! i) = word_of_nat i"
    using assms(3) by simp
  moreover have "unat (word_of_nat i :: u64) = i" using assms(2,3) by (simp add: unsigned_of_nat take_bit_eq_mod)
  ultimately show ?thesis using active_all [of "take i (og_cards og)"] assms(3) by auto
qed

end
