(* ===== verification/Rails_Protocol.thy ===== *)
theory Rails_Protocol
  imports Rails_Registry
begin

text \<open>
  The rails as a protocol: the laws of the crates, the wire format of threshold signatures, what a card
  signs, the contracts of cards (locale \<open>voucher_card\<close>) and of Merkle stores (locale \<open>cohort_store\<close>) with
  their interpretations, the registry of the operator as a step relation, and the way of a voucher from
  the card to the relay.
\<close>

section \<open>Laws and lengths\<close>

definition rails_laws :: "rails_prims \<Rightarrow> bool" where
  "rails_laws R \<longleftrightarrow>
     (\<forall>sk. length (fst (secp_public R sk)) = 32 \<and> length (snd (secp_public R sk)) = 32) \<and>
     (\<forall>sk d. \<exists>sig. secp_sign_prehash R sk d = Inr sig \<and> length sig = 64) \<and>
     (\<forall>sig low. secp_normalize_s R sig = Some low \<longrightarrow> length low = length sig) \<and>
     (\<forall>sk d. case secp_sign_recoverable R sk d of (sig, y, x) \<Rightarrow>
        length sig = 64 \<and> secp_signature_ok R sig \<and> secp_recover R d sig (y, x) = Some (secp_public R sk)
        \<and> (\<forall>low. secp_normalize_s R sig = Some low \<longrightarrow>
             secp_signature_ok R low \<and> secp_recover R d low (\<not> y, x) = Some (secp_public R sk))) \<and>
     (\<forall>k m. length (hmac_sha256 R k m) = 32) \<and>
     (\<forall>rnd sk m aad. \<exists>ct. x25519_seal R VOUCHER_TAG rnd (x25519_public R sk) m aad = Some ct \<and> x25519_parses R ct
        \<and> (\<forall>sk'. x25519_public R sk' = x25519_public R sk \<longrightarrow> x25519_open R VOUCHER_TAG sk' ct aad = Inr (Some m))) \<and>
     (\<forall>v. \<exists>j. voucher_to_json R v = Inr j \<and> voucher_of_json R j = Inr v)"

definition header_ok :: "round_header \<Rightarrow> bool" where
  "header_ok h \<longleftrightarrow>
     length (rh_round_id h) = 32 \<and> length (rh_cohort_root h) = 32 \<and> length (rh_per_recipient_amount h) = 32
     \<and> length (rh_token h) = 20 \<and> length (rh_claim_contract_address h) = 20 \<and> length (rh_chain_id h) = 32"

definition multi_signature_ok :: "multi_signature \<Rightarrow> bool" where
  "multi_signature_ok s \<longleftrightarrow> length (ms_signer s) = 20 \<and> length (ms_signature s) = 65"

lemma rails_lawsD:
  assumes "rails_laws R"
  shows "\<exists>sig. secp_sign_prehash R sk d = Inr sig \<and> length sig = 64"
    and "\<exists>j. voucher_to_json R v = Inr j \<and> voucher_of_json R j = Inr v"
    and "pk = x25519_public R sk0 \<Longrightarrow> \<exists>ct. x25519_seal R VOUCHER_TAG rnd pk plain aad = Some ct \<and> x25519_parses R ct
        \<and> (\<forall>sk. x25519_public R sk = pk \<longrightarrow> x25519_open R VOUCHER_TAG sk ct aad = Inr (Some plain))"
  using assms by (simp_all add: rails_laws_def)

lemma pubkey_lengths:
  assumes "rails_laws R"
  shows "length (sq_x (derive_pubkey R sk)) = 32" and "length (sq_y (derive_pubkey R sk)) = 32"
  using assms by (simp_all add: rails_laws_def derive_pubkey_def pubkey_to_xy_def)

lemma sign_voucher_ok:
  assumes "rails_laws R"
  obtains sig where "sign_voucher R m h = Inr sig" and "length (es_r sig) = 32" and "length (es_s sig) = 32"
proof -
  obtain raw where raw: "secp_sign_prehash R m h = Inr raw" "length raw = 64"
    using rails_lawsD(1) [OF assms] by blast
  have "length (canonicalize_s R raw) = 64"
    using assms raw(2) by (auto simp: rails_laws_def canonicalize_s_def split: option.splits)
  then show ?thesis using raw that [of "\<lparr>es_r = take 32 (canonicalize_s R raw), es_s = drop 32 (canonicalize_s R raw)\<rparr>"]
    by (simp add: sign_voucher_def Let_def)
qed

lemma slice_append_left [simp]: "length xs = b \<Longrightarrow> slice 0 b (xs @ ys) = xs"
  by (simp add: slice_def)

lemma slice_append_right: "length xs = a \<Longrightarrow> a \<le> b \<Longrightarrow> slice b c (xs @ ys) = slice (b - a) (c - a) ys"
  by (simp add: slice_def)

section \<open>Threshold signatures\<close>

lemma slice_concat:
  assumes "\<forall>x \<in> set xss. length x = k" and "i < length xss"
  shows "slice (i * k) (i * k + k) (concat xss) = xss ! i"
  using assms
proof (induction xss arbitrary: i)
  case (Cons x xss)
  show ?case
  proof (cases i)
    case (Suc j)
    then have "slice (i * k) (i * k + k) (concat (x # xss)) = slice (j * k) (j * k + k) (concat xss)"
      using Cons.prems by (simp add: slice_append_right add.commute)
    then show ?thesis using Cons Suc by simp
  qed (use Cons.prems in simp)
qed simp

lemma slice_slice: "b \<le> d \<Longrightarrow> slice (off + a) (off + b) xs = slice a b (slice off (off + d) xs)"
  by (auto simp: slice_def min_def drop_take add.commute)

lemma encode_threshold_length:
  "\<forall>s \<in> set sigs. multi_signature_ok s \<Longrightarrow> length (encode_threshold sigs) = 1 + length sigs * SIG_RECORD_LEN"
  by (induction sigs) (auto simp: encode_threshold_def multi_signature_ok_def SIG_RECORD_LEN_def)

lemma decode_encode_threshold:
  assumes "\<forall>s \<in> set sigs. multi_signature_ok s"
  shows "decode_threshold (encode_threshold sigs) (length sigs) = (if length sigs < 256 then Inr sigs else Inl WrongCount)"
proof -
  let ?bytes = "encode_threshold sigs" and ?xss = "map (\<lambda>s. ms_signer s @ ms_signature s) sigs"
  let ?at = "\<lambda>i. let off = 1 + i * SIG_RECORD_LEN in
     \<lparr>ms_signer = slice off (off + 20) ?bytes, ms_signature = slice (off + 20) (off + SIG_RECORD_LEN) ?bytes\<rparr>"
  have rec: "slice (1 + i * SIG_RECORD_LEN) (1 + i * SIG_RECORD_LEN + SIG_RECORD_LEN) ?bytes
      = ms_signer (sigs ! i) @ ms_signature (sigs ! i)" if "i < length sigs" for i
    using slice_concat [of ?xss SIG_RECORD_LEN i] assms that
    by (simp add: encode_threshold_def slice_def multi_signature_ok_def SIG_RECORD_LEN_def)
  have "?at i = sigs ! i" if "i < length sigs" for i
  proof -
    have ok: "multi_signature_ok (sigs ! i)" using assms that by simp
    have "slice (1 + i * SIG_RECORD_LEN) (1 + i * SIG_RECORD_LEN + 20) ?bytes = ms_signer (sigs ! i)"
      using slice_slice [of 20 SIG_RECORD_LEN "1 + i * SIG_RECORD_LEN" 0 ?bytes] rec [OF that] ok
      by (simp add: SIG_RECORD_LEN_def multi_signature_ok_def)
    moreover have "slice (1 + i * SIG_RECORD_LEN + 20) (1 + i * SIG_RECORD_LEN + SIG_RECORD_LEN) ?bytes = ms_signature (sigs ! i)"
      using slice_slice [of SIG_RECORD_LEN SIG_RECORD_LEN "1 + i * SIG_RECORD_LEN" 20 ?bytes] rec [OF that] ok
      by (simp add: SIG_RECORD_LEN_def multi_signature_ok_def slice_append_right) (simp add: slice_def)
    ultimately show ?thesis by simp
  qed
  then have "map ?at [0..<length sigs] = sigs" by (intro nth_equalityI) simp_all
  moreover have "unat (word_of_nat (length sigs) :: u8) = length sigs \<longleftrightarrow> length sigs < 256"
    using unat_bound [of "word_of_nat (length sigs) :: u8"] by (auto simp: unsigned_of_nat take_bit_eq_mod)
  ultimately show ?thesis
    using encode_threshold_length [OF assms] by (simp add: decode_threshold_def) (simp add: encode_threshold_def)
qed

lemma concat_slices: "concat (map (\<lambda>i. slice (i * n) (i * n + n) xs) [0..<k]) = take (k * n) xs"
proof (induction k)
  case (Suc k)
  have "take (Suc k * n) xs = take (k * n) xs @ slice (k * n) (k * n + n) xs"
    using take_add [of "k * n" n xs] by (simp add: slice_def drop_take add.commute)
  then show ?case using Suc by simp
qed simp

lemma slice_shift: "slice (Suc a) (Suc b) (x # xs) = slice a b xs"
  by (simp add: slice_def)

lemma slice_join: "slice a (a + b) xs @ slice (a + b) (a + (b + c)) xs = slice a (a + (b + c)) xs"
  using take_add [of b c "drop a xs"] by (simp add: slice_def drop_take add.commute [of a])

lemma encode_decode_threshold:
  assumes "decode_threshold bytes k = Inr sigs"
  shows "encode_threshold sigs = bytes \<and> length sigs = k"
proof -
  obtain c rest where b: "bytes = c # rest" "unat c = k" "length rest = k * SIG_RECORD_LEN"
    and sigs: "sigs = map (\<lambda>i. let off = 1 + i * SIG_RECORD_LEN in
                 \<lparr>ms_signer = slice off (off + 20) bytes, ms_signature = slice (off + 20) (off + SIG_RECORD_LEN) bytes\<rparr>) [0..<k]"
    using assms by (auto simp: decode_threshold_def split: list.splits if_splits)
  have rec: "slice (Suc (i * 85)) (Suc (i * 85) + 20) bytes @ slice (Suc (i * 85) + 20) (Suc (i * 85) + 85) bytes
      = slice (i * 85) (i * 85 + 85) rest" for i
    using slice_join [of "Suc (i * 85)" 20 bytes 65] slice_shift [of "i * 85" "i * 85 + 85" c rest] by (simp add: b(1))
  have "map (\<lambda>s. ms_signer s @ ms_signature s) sigs = map (\<lambda>i. slice (i * SIG_RECORD_LEN) (i * SIG_RECORD_LEN + SIG_RECORD_LEN) rest) [0..<k]"
    using rec unfolding sigs by (simp add: Let_def SIG_RECORD_LEN_def)
  then have "concat (map (\<lambda>s. ms_signer s @ ms_signature s) sigs) = rest"
    using concat_slices [of SIG_RECORD_LEN rest k] b(3) by simp
  moreover have "length sigs = k" by (simp add: sigs)
  moreover have "word_of_nat k = c" using b(2) by auto
  ultimately show ?thesis by (simp add: encode_threshold_def b(1))
qed

lemma decode_other_count:
  assumes "\<forall>s \<in> set sigs. multi_signature_ok s" and "length sigs \<noteq> k"
  shows "decode_threshold (encode_threshold sigs) k = Inl WrongCount"
  using encode_threshold_length [OF assms(1)] assms(2)
  by (auto simp: decode_threshold_def SIG_RECORD_LEN_def split: list.splits)

lemma duplicate_signer_iff: "duplicate_signer sigs \<longleftrightarrow> \<not> distinct (map ms_signer sigs)"
  by (induction sigs) (auto simp: list_ex_iff)

lemma verify_threshold_iff:
  "verify_threshold E R digest sigs owners threshold = Inr () \<longleftrightarrow>
     length sigs = threshold \<and> distinct (map ms_signer sigs)
     \<and> (\<forall>s \<in> set sigs. ms_signer s \<in> set owners \<and> recover_and_check E R digest s = Inr ())"
  by (auto simp: verify_threshold_def duplicate_signer_iff try_fold_unit split: if_splits)

lemma sign_digest_recovers:
  assumes laws: "rails_laws R" and dig: "digest_laws E"
    and x: "\<not> snd (snd (secp_sign_recoverable R sk digest))"
  shows "recover_and_check E R digest (multisig_sign_digest E R sk digest) = Inr ()"
    and "multi_signature_ok (multisig_sign_digest E R sk digest)"
proof -
  obtain sig y where s: "secp_sign_recoverable R sk digest = (sig, y, False)" using x by (cases "secp_sign_recoverable R sk digest") auto
  have c: "case secp_sign_recoverable R sk digest of (sig, y, x) \<Rightarrow>
        length sig = 64 \<and> secp_signature_ok R sig \<and> secp_recover R digest sig (y, x) = Some (secp_public R sk)
        \<and> (\<forall>low. secp_normalize_s R sig = Some low \<longrightarrow>
             secp_signature_ok R low \<and> secp_recover R digest low (\<not> y, x) = Some (secp_public R sk))"
    using laws by (simp add: rails_laws_def)
  have n: "\<forall>low. secp_normalize_s R sig = Some low \<longrightarrow> length low = length sig" using laws by (simp add: rails_laws_def)
  have k: "length (keccak256 E (fst (secp_public R sk) @ snd (secp_public R sk))) = 32" using dig by (simp add: digest_laws_def)
  show "recover_and_check E R digest (multisig_sign_digest E R sk digest) = Inr ()"
    using c n by (cases "secp_normalize_s R sig"; cases y)
      (simp_all add: s recover_and_check_def multisig_sign_digest_def Let_def nth_append)
  show "multi_signature_ok (multisig_sign_digest E R sk digest)"
    using c n k by (cases "secp_normalize_s R sig")
      (simp_all add: s multi_signature_ok_def multisig_sign_digest_def Let_def address_from_verifying_key_def)
qed


lemma threshold_signature_accepted:
  assumes "rails_laws R" and "digest_laws E" and "length signers = n" and "n < 256"
    and "\<forall>sk \<in> set signers. \<not> snd (snd (secp_sign_recoverable R sk digest))"
    and "distinct (map (\<lambda>sk. address_from_verifying_key E (secp_public R sk)) signers)"
    and "\<forall>sk \<in> set signers. address_from_verifying_key E (secp_public R sk) \<in> set owners"
  shows "and_then (decode_threshold (encode_threshold (map (\<lambda>sk. multisig_sign_digest E R sk digest) signers)) n)
      (\<lambda>sigs. verify_threshold E R digest sigs owners n) = Inr ()"
proof -
  let ?sigs = "map (\<lambda>sk. multisig_sign_digest E R sk digest) signers"
  have signer: "ms_signer (multisig_sign_digest E R sk digest) = address_from_verifying_key E (secp_public R sk)" for sk
    by (simp add: multisig_sign_digest_def Let_def split: prod.splits)
  have "\<forall>s \<in> set ?sigs. multi_signature_ok s" using sign_digest_recovers(2) [OF assms(1,2)] assms(5) by auto
  from decode_encode_threshold [OF this] have d: "decode_threshold (encode_threshold ?sigs) n = Inr ?sigs"
    using assms(3,4) by simp
  have "verify_threshold E R digest ?sigs owners n = Inr ()"
    unfolding verify_threshold_iff
    using assms(3,5,6,7) sign_digest_recovers(1) [OF assms(1,2)] by (auto simp: signer comp_def)
  then show ?thesis by (simp add: d)
qed

section \<open>What a card signs\<close>

lemma transmit_frame:
  assumes "transmit E R fresh c apdu = (r, c')"
  shows "c' = c\<lparr>cd_m := cd_m c'\<rparr> \<and> (cd_m c' = cd_m c \<or> cd_m c = None \<and> cd_m c' = Some fresh)"
  using assms
  by (auto simp: transmit_def handle_generate_key_def handle_export_key_def handle_sign_voucher_def ensure_key_def
      split: sum.splits prod.splits if_splits option.splits)

lemma split_apdu_long:
  assumes "split_apdu apdu = Inr (cla, ins, p1, p2, body)" and "255 < length body"
  shows "ins = apdu ! 1 \<and> body = drop 7 apdu"
  using assms unat_bound [of "apdu ! 4"] by (auto simp: split_apdu_def Let_def split: if_splits prod.splits)

lemma check_sign_body_Inr:
  assumes "check_sign_body E R c body = Inr ctx"
  shows "length body = 372 \<and> ctx = ctx_of_bytes (drop 224 body) \<and> ctx_matches (slice 32 224 body) ctx
    \<and> (cd_expects_auth_token c \<longrightarrow> (\<exists>key. cd_companion_pre_key c = Some key
         \<and> take 32 body = derive_auth_token R key (header_digest E (slice 32 224 body))))"
  using assms
  by (auto simp: check_sign_body_def Let_def SIGN_VOUCHER_BODY_LEN_def SERIALIZED_HEADER_LEN_def VOUCHER_CTX_LEN_def
      and_then_eq_Inr check_auth_token_def ok_or_eq_Inr slice_def split: if_splits)

lemma transmit_signs:
  assumes "transmit E R fresh c apdu = (Inr resp, c')" and "apdu ! 1 = INS_SIGN_VOUCHER"
  shows "\<exists>ctx m. check_sign_body E R c (drop 7 apdu) = Inr ctx \<and> sign_context E R m ctx = Inr resp
    \<and> cd_m c' = Some m \<and> (cd_m c = Some m \<or> cd_m c = None \<and> m = fresh)"
proof -
  obtain cla ins p1 p2 body where sp: "split_apdu apdu = Inr (cla, ins, p1, p2, body)"
    using assms(1) by (auto simp: transmit_def split: sum.splits)
  then have ins: "ins = INS_SIGN_VOUCHER" using assms(2) by (auto simp: split_apdu_def Let_def split: if_splits prod.splits)
  then have h: "handle_sign_voucher E R fresh c body = (Inr resp, c')"
    using assms(1) sp by (simp add: transmit_def INS_SIGN_VOUCHER_def INS_GENERATE_KEY_def INS_EXPORT_KEY_def)
  then obtain ctx where ctx: "check_sign_body E R c body = Inr ctx" by (auto simp: handle_sign_voucher_def split: sum.splits)
  then have "body = drop 7 apdu" using check_sign_body_Inr [OF ctx] split_apdu_long [OF sp] by simp
  then show ?thesis
    using h ctx by (auto simp: handle_sign_voucher_def ensure_key_def split: option.splits)
qed

text \<open>The two answers of a card that hold no signature.\<close>

lemma transmit_other:
  assumes "transmit E R fresh c apdu = (Inr resp, c')" and "apdu ! 1 \<noteq> INS_SIGN_VOUCHER"
  shows "resp = [0x90, 0x00] \<or> (\<exists>m. cd_m c = Some m \<and> resp = sq_x (derive_pubkey R m) @ sq_y (derive_pubkey R m) @ [0x90, 0x00])"
proof -
  obtain cla ins p1 p2 body where sp: "split_apdu apdu = Inr (cla, ins, p1, p2, body)"
    using assms(1) by (auto simp: transmit_def split: sum.splits)
  then have "ins \<noteq> INS_SIGN_VOUCHER" using assms(2) by (auto simp: split_apdu_def Let_def split: if_splits prod.splits)
  then show ?thesis
    using assms(1) sp
    by (auto simp: transmit_def handle_generate_key_def handle_export_key_def and_then_eq_Inr ok_or_eq_Inr Let_def split: if_splits)
qed

lemma serialize_slices:
  assumes "header_ok h"
  shows "length (serialize_round_header h) = 192" and "ctx_matches (serialize_round_header h) (header_context h)"
  using assms
  by (simp_all add: serialize_round_header_def header_ok_def ctx_matches_def header_context_def slice_def)

lemma context_slices:
  assumes "header_ok h"
  shows "ctx_of_bytes (rh_round_id h @ rh_cohort_root h @ rh_claim_contract_address h @ rh_per_recipient_amount h @ rh_chain_id h)
    = header_context h"
  using assms by (simp add: ctx_of_bytes_def header_context_def header_ok_def slice_def)

lemma split_sign_voucher:
  assumes "header_ok h" and "length tok = 32"
  shows "split_apdu (encode_sign_voucher tok (serialize_round_header h) (header_context h))
    = Inr (CLA, INS_SIGN_VOUCHER, 0, 0, tok @ serialize_round_header h @ rh_round_id h @ rh_cohort_root h
        @ rh_claim_contract_address h @ rh_per_recipient_amount h @ rh_chain_id h)"
  using assms serialize_slices(1) [OF assms(1)]
  by (simp add: encode_sign_voucher_def split_apdu_def header_context_def header_ok_def Let_def CLA_def)

lemma sign_body_accepted:
  assumes "header_ok h" and "length tok = 32" and "cd_refuses_prehashed c"
    and "check_auth_token R c tok (h_header E h) = Inr ()"
  shows "check_sign_body E R c (tok @ serialize_round_header h @ rh_round_id h @ rh_cohort_root h
        @ rh_claim_contract_address h @ rh_per_recipient_amount h @ rh_chain_id h) = Inr (header_context h)"
proof -
  let ?ctx = "rh_round_id h @ rh_cohort_root h @ rh_claim_contract_address h @ rh_per_recipient_amount h @ rh_chain_id h"
  have len: "length ?ctx = 148" using assms(1) by (simp add: header_ok_def)
  note ser = serialize_slices [OF assms(1)]
  have "slice 32 224 (tok @ serialize_round_header h @ ?ctx) = serialize_round_header h"
    using assms(2) ser(1) by (simp add: slice_def)
  moreover have "drop 224 (tok @ serialize_round_header h @ ?ctx) = ?ctx" using assms(2) ser(1) by simp
  ultimately show ?thesis
    using assms(2,3,4) len ser context_slices [OF assms(1)]
    by (simp add: check_sign_body_def Let_def SIGN_VOUCHER_BODY_LEN_def SERIALIZED_HEADER_LEN_def VOUCHER_CTX_LEN_def
        header_digest_def h_header_def)
qed

definition voucher_digest :: "'fr prims \<Rightarrow> rails_prims \<Rightarrow> bytes32 \<Rightarrow> voucher_context \<Rightarrow> bytes32" where
  "voucher_digest E R m ctx =
     sha256 E (voucher_preimage E ctx (derive_pubkey R m)
       (derive_pubkey R (derive_stealth_scalar R m (vc_round_id ctx) (vc_claim_contract ctx) (vc_chain_id ctx))))"

lemma voucher_preimage_length:
  assumes "rails_laws R" and "digest_laws E" and "header_ok h"
  shows "length (voucher_preimage E (header_context h) (derive_pubkey R m) (derive_pubkey R d)) = VOUCHER_PREIMAGE_LEN"
  using assms pubkey_lengths [OF assms(1)]
  by (simp add: voucher_preimage_def header_context_def header_ok_def digest_laws_def VOUCHER_PREIMAGE_LEN_def)

lemma sign_context_decodes:
  assumes "rails_laws R"
  obtains resp sig where "sign_context E R m ctx = Inr resp" and "sign_voucher R m (voucher_digest E R m ctx) = Inr sig"
    and "decode_sign_voucher_response resp = Inr (derive_pubkey R m,
      derive_pubkey R (derive_stealth_scalar R m (vc_round_id ctx) (vc_claim_contract ctx) (vc_chain_id ctx)), sig)"
proof -
  let ?d = "derive_pubkey R (derive_stealth_scalar R m (vc_round_id ctx) (vc_claim_contract ctx) (vc_chain_id ctx))"
  obtain sig where sig: "sign_voucher R m (voucher_digest E R m ctx) = Inr sig" "length (es_r sig) = 32" "length (es_s sig) = 32"
    using sign_voucher_ok [OF assms] .
  let ?resp = "sq_x (derive_pubkey R m) @ sq_y (derive_pubkey R m) @ sq_x ?d @ sq_y ?d @ es_r sig @ es_s sig @ [0x90, 0x00]"
  have "sign_context E R m ctx = Inr ?resp" using sig(1) by (simp add: sign_context_def voucher_digest_def Let_def)
  moreover have "decode_sign_voucher_response ?resp = Inr (derive_pubkey R m, ?d, sig)"
    using pubkey_lengths [OF assms] sig(2,3) by (simp add: decode_sign_voucher_response_def slice_def)
  ultimately show ?thesis using sig(1) that by blast
qed

text \<open>The voucher of the card with master key \<open>m\<close> for a round.\<close>

definition voucher_for :: "'fr prims \<Rightarrow> rails_prims \<Rightarrow> bytes32 \<Rightarrow> round_header \<Rightarrow> ecdsa_signature \<Rightarrow> signed_voucher" where
  "voucher_for E R m h sig =
     (let d = derive_pubkey R (derive_stealth_scalar R m (rh_round_id h) (rh_claim_contract_address h) (rh_chain_id h)) in
      \<lparr>sv_m = derive_pubkey R m, sv_derived_pubkey = d, sv_signature = sig, sv_context = header_context h,
       sv_claim_nullifier = fr_word E (claim_nullifier_of E (derive_pubkey R m) d (rh_round_id h)
         (rh_claim_contract_address h) (rh_chain_id h)),
       sv_destination = destination_from_derived_pubkey E d\<rparr>)"

text \<open>The envelope in which a companion sends it to a relay.\<close>

definition voucher_envelope ::
    "'fr prims \<Rightarrow> rails_prims \<Rightarrow> u8 list \<Rightarrow> bytes32 \<Rightarrow> round_header \<Rightarrow> relay_descriptor \<Rightarrow> u8 list option" where
  "voucher_envelope E R rnd m h rl =
     (case sign_voucher R m (voucher_digest E R m (header_context h)) of
        Inl _ \<Rightarrow> None
      | Inr sig \<Rightarrow>
          (case voucher_to_json R (voucher_for E R m h sig) of
             Inl _ \<Rightarrow> None
           | Inr j \<Rightarrow> x25519_seal R VOUCHER_TAG rnd (rl_static_pub_x25519 rl) j (rl_relay_id rl)))"

section \<open>The contract of a card\<close>

text \<open>
  What a companion relies on: a card that holds the master key \<open>m\<close> and the key \<open>pre\<close> shared with the
  companion answers the command for a header with its keys and a signature of the voucher.
\<close>

locale voucher_card =
  fixes E :: "'fr prims" and R :: rails_prims and tr :: "'c card_port" and holds :: "'c \<Rightarrow> bytes32 \<Rightarrow> bytes32 \<Rightarrow> bool"
  assumes signs: "rails_laws R \<Longrightarrow> holds c pre m \<Longrightarrow> header_ok h \<Longrightarrow>
    \<exists>resp c' sig. tr c (encode_sign_voucher (derive_auth_token R pre (h_header E h)) (serialize_round_header h) (header_context h))
        = (Inr resp, c') \<and> holds c' pre m
      \<and> sign_voucher R m (voucher_digest E R m (header_context h)) = Inr sig
      \<and> decode_sign_voucher_response resp = Inr (derive_pubkey R m,
          derive_pubkey R (derive_stealth_scalar R m (rh_round_id h) (rh_claim_contract_address h) (rh_chain_id h)), sig)"
begin

lemma builds_voucher:
  assumes "rails_laws R" and "header_ok (sh_header (hb_signed bundle))" and "holds (cm_card cm) (cm_companion_pre_key cm) m"
    and "companion_checks E R now cm bundle = Inr ()" and "ro_relays (cm_roster cm) = rl # rls"
    and "rl_static_pub_x25519 rl = x25519_public R relay_sk"
  shows "\<exists>env cm' sig j. build_voucher E R tr rnd now cm bundle = (Inr env, cm')
    \<and> sign_voucher R m (voucher_digest E R m (header_context (sh_header (hb_signed bundle)))) = Inr sig
    \<and> voucher_of_json R j = Inr (voucher_for E R m (sh_header (hb_signed bundle)) sig)
    \<and> ev_relay_id env = rl_relay_id rl \<and> x25519_parses R (ev_envelope env)
    \<and> voucher_envelope E R rnd m (sh_header (hb_signed bundle)) rl = Some (ev_envelope env)
    \<and> (\<forall>sk. x25519_public R sk = rl_static_pub_x25519 rl \<longrightarrow>
          x25519_open R VOUCHER_TAG sk (ev_envelope env) (rl_relay_id rl) = Inr (Some j))"
proof -
  let ?h = "sh_header (hb_signed bundle)"
  obtain resp c' sig where r: "tr (cm_card cm) (encode_sign_voucher (derive_auth_token R (cm_companion_pre_key cm) (h_header E ?h))
        (serialize_round_header ?h) (header_context ?h)) = (Inr resp, c')"
      "sign_voucher R m (voucher_digest E R m (header_context ?h)) = Inr sig"
      "decode_sign_voucher_response resp = Inr (derive_pubkey R m,
          derive_pubkey R (derive_stealth_scalar R m (rh_round_id ?h) (rh_claim_contract_address ?h) (rh_chain_id ?h)), sig)"
    using signs [OF assms(1,3,2)] by blast
  obtain j where j: "voucher_to_json R (voucher_for E R m ?h sig) = Inr j" "voucher_of_json R j = Inr (voucher_for E R m ?h sig)"
    using rails_lawsD(2) [OF assms(1)] by blast
  obtain ct where ct: "x25519_seal R VOUCHER_TAG rnd (rl_static_pub_x25519 rl) j (rl_relay_id rl) = Some ct" "x25519_parses R ct"
      "\<forall>sk. x25519_public R sk = rl_static_pub_x25519 rl \<longrightarrow> x25519_open R VOUCHER_TAG sk ct (rl_relay_id rl) = Inr (Some j)"
    using rails_lawsD(3) [OF assms(1,6)] by blast
  have "build_voucher E R tr rnd now cm bundle = (Inr \<lparr>ev_envelope = ct, ev_relay_id = rl_relay_id rl\<rparr>, cm\<lparr>cm_card := c'\<rparr>)"
    using j(1) ct(1)
    by (simp add: build_voucher_def assms(4,5) r(1,3) seal_voucher_def voucher_for_def [symmetric] pick_relay_def
        encrypt_to_relay_def Let_def)
      (simp add: voucher_for_def Let_def)
  moreover have "voucher_envelope E R rnd m ?h rl = Some ct" using r(2) j(1) ct(1) by (simp add: voucher_envelope_def)
  ultimately show ?thesis using r(2) j(2) ct(2,3)
    by (intro exI [of _ "\<lparr>ev_envelope = ct, ev_relay_id = rl_relay_id rl\<rparr>"] exI [of _ "cm\<lparr>cm_card := c'\<rparr>"]
        exI [of _ sig] exI [of _ j]) simp
qed

end

definition card_holds :: "card \<Rightarrow> bytes32 \<Rightarrow> bytes32 \<Rightarrow> bool" where
  "card_holds c pre m \<longleftrightarrow> cd_m c = Some m \<and> cd_companion_pre_key c = Some pre \<and> cd_refuses_prehashed c"

interpretation software_card: voucher_card E R "transmit E R fresh" card_holds for E R fresh
proof
  fix c pre m h
  assume laws: "rails_laws R" and c: "card_holds c pre m" and h: "header_ok h"
  let ?tok = "derive_auth_token R pre (h_header E h)"
  have tok: "length ?tok = 32" using laws by (simp add: rails_laws_def derive_auth_token_def)
  have auth: "check_auth_token R c ?tok (h_header E h) = Inr ()" using c by (simp add: card_holds_def check_auth_token_def)
  obtain resp sig where s: "sign_context E R m (header_context h) = Inr resp"
      "sign_voucher R m (voucher_digest E R m (header_context h)) = Inr sig"
      "decode_sign_voucher_response resp = Inr (derive_pubkey R m,
          derive_pubkey R (derive_stealth_scalar R m (rh_round_id h) (rh_claim_contract_address h) (rh_chain_id h)), sig)"
    using sign_context_decodes [OF laws, of E m "header_context h"] by (auto simp: header_context_def)
  have "transmit E R fresh c (encode_sign_voucher ?tok (serialize_round_header h) (header_context h)) = (Inr resp, c)"
    using c s(1) sign_body_accepted [OF h tok _ auth]
    by (simp add: transmit_def split_sign_voucher [OF h tok] INS_SIGN_VOUCHER_def INS_GENERATE_KEY_def INS_EXPORT_KEY_def
        handle_sign_voucher_def card_holds_def ensure_key_def)
  then show "\<exists>resp c' sig. transmit E R fresh c (encode_sign_voucher ?tok (serialize_round_header h) (header_context h))
        = (Inr resp, c') \<and> card_holds c' pre m
      \<and> sign_voucher R m (voucher_digest E R m (header_context h)) = Inr sig
      \<and> decode_sign_voucher_response resp = Inr (derive_pubkey R m,
          derive_pubkey R (derive_stealth_scalar R m (rh_round_id h) (rh_claim_contract_address h) (rh_chain_id h)), sig)"
    using s c by blast
qed

section \<open>From the companion to the relay\<close>

lemma relay_opens:
  assumes "x25519_parses R (ev_envelope env)"
    and "\<And>sk. x25519_public R sk = pk \<Longrightarrow> x25519_open R VOUCHER_TAG sk (ev_envelope env) (ev_relay_id env) = Inr (Some j)"
    and "x25519_public R (ka_current_sk ka) = pk \<or> (\<exists>sk. ka_previous_sk ka = Some sk \<and> x25519_public R sk = pk)
      \<and> (\<forall>x. x25519_open R VOUCHER_TAG (ka_current_sk ka) (ev_envelope env) (ev_relay_id env) \<noteq> Inr (Some x))"
  shows "relay_decrypt R ka env = Inr j"
proof -
  have right: "decrypt_from_companion R sk env = Inr j" if "x25519_public R sk = pk" for sk
    using assms(1) assms(2) [OF that] by (simp add: decrypt_from_companion_def)
  show ?thesis
  proof (cases "x25519_public R (ka_current_sk ka) = pk")
    case False
    then obtain sk where sk: "ka_previous_sk ka = Some sk" "x25519_public R sk = pk"
      and "\<forall>x. x25519_open R VOUCHER_TAG (ka_current_sk ka) (ev_envelope env) (ev_relay_id env) \<noteq> Inr (Some x)"
      using assms(3) by blast
    then have "\<exists>e. decrypt_from_companion R (ka_current_sk ka) env = Inl e"
      by (cases "x25519_open R VOUCHER_TAG (ka_current_sk ka) (ev_envelope env) (ev_relay_id env)")
        (auto simp: decrypt_from_companion_def ok_or_def split: option.splits)
    then show ?thesis using right [OF sk(2)] sk(1) by (auto simp: relay_decrypt_def)
  qed (simp add: relay_decrypt_def right)
qed

text \<open>The ports a relay reads from serve the round: the pool indexes its commitments, and all answer.\<close>

definition relay_serves :: "'fr relay \<Rightarrow> bytes32 list \<Rightarrow> u64 \<Rightarrow> u64 \<Rightarrow> bool" where
  "relay_serves rx commitments version position \<longleftrightarrow>
     (\<forall>c \<in> set commitments. \<exists>i p. op_commitment_index (rx_pool rx) (rx_claim_contract rx) c = Inr (Some i)
        \<and> op_pool_merkle_path (rx_pool rx) (rx_claim_contract rx) i = Inr p)
     \<and> (\<exists>root. op_sub_tree_root (rx_pool rx) (rx_claim_contract rx) = Inr root)
     \<and> (\<exists>root. oc_cohort_root (rx_cohort rx) version = Inr root)
     \<and> (\<exists>p. oc_cohort_merkle_path (rx_cohort rx) version position = Inr p)
     \<and> (\<forall>w. \<exists>p. pf_claim (rx_prover rx) w = Inr p) \<and> (\<forall>w. \<exists>p. pf_pool_withdraw (rx_prover rx) w = Inr p)"

lemma prove_voucher_ok:
  assumes "relay_serves rx commitments version position"
    and "round_commitment E token (vc_per_recipient_amount (sv_context v)) (vc_round_id (sv_context v)) (sv_m v) \<in> set commitments"
  shows "\<exists>arts root path. prove_voucher E rx v token version position = Inr arts \<and> sa_voucher arts = v
    \<and> sa_claim_witness arts = claim_witness_of E rx v root path
    \<and> zw_claim_nullifier (sa_pool_witness arts) = kw_nullifier (sa_claim_witness arts)
    \<and> zw_recipient (sa_pool_witness arts) = kw_destination (sa_claim_witness arts)"
proof -
  obtain i p where i: "op_commitment_index (rx_pool rx) (rx_claim_contract rx)
      (round_commitment E token (vc_per_recipient_amount (sv_context v)) (vc_round_id (sv_context v)) (sv_m v)) = Inr (Some i)"
      "op_pool_merkle_path (rx_pool rx) (rx_claim_contract rx) i = Inr p"
    using assms unfolding relay_serves_def by blast
  obtain r cr cp where r: "op_sub_tree_root (rx_pool rx) (rx_claim_contract rx) = Inr r" "oc_cohort_root (rx_cohort rx) version = Inr cr"
      "oc_cohort_merkle_path (rx_cohort rx) version position = Inr cp"
    using assms(1) unfolding relay_serves_def by blast
  let ?cw = "claim_witness_of E rx v cr cp" and ?zw = "pool_witness_of E v token (claim_witness_of E rx v cr cp) r p"
  obtain p1 p2 where "pf_claim (rx_prover rx) ?cw = Inr p1" "pf_pool_withdraw (rx_prover rx) ?zw = Inr p2"
    using assms(1) unfolding relay_serves_def by blast
  then have "prove_voucher E rx v token version position = Inr \<lparr>sa_voucher = v, sa_claim_witness = ?cw, sa_claim_proof = p1,
      sa_pool_witness = ?zw, sa_pool_proof = p2\<rparr>"
    using i r by (simp add: prove_voucher_def Let_def)
  then show ?thesis by (intro exI conjI, assumption) (simp_all add: pool_witness_of_def)
qed

lemma sender_checks_pass:
  assumes "rails_laws R" and "digest_laws E"
    and "with_multisig E R signers owners k msig cc dest = Inr f" and "k < 256"
    and "distinct (map (\<lambda>sk. address_from_verifying_key E (secp_public R sk)) (take k signers))"
    and "\<forall>sk \<in> set (take k signers). \<not> snd (snd (secp_sign_recoverable R sk (h_header E h)))
           \<and> \<not> snd (snd (secp_sign_recoverable R sk (roster_digest E ro)))"
    and "sign_round_header E R f h = Inr hs" and "sign_roster E R f ro = Inr rs"
    and "cm_roster cm = ro\<lparr>ro_signature := rs\<rparr>" and "cm_funder_owners cm = owners" and "cm_funder_threshold cm = k"
    and "ro_signed_at_unix ro \<le> now" and "now - ro_signed_at_unix ro \<le> ROSTER_STALENESS_SECS"
  shows "companion_checks E R now cm \<lparr>hb_signed = \<lparr>sh_header = h, sh_signature = hs\<rparr>, hb_first_pool_leaf_index = idx\<rparr> = Inr ()"
proof -
  have f: "k \<noteq> 0" "k \<le> length signers" "\<forall>sk \<in> set signers. address_from_verifying_key E (secp_public R sk) \<in> set owners"
      "fu_threshold f = k" "fu_multisig_signers f = signers"
    using assms(3) by (auto simp: with_multisig_def and_then_eq_Inr try_fold_unit split: if_splits)
  have acc: "check_multisig E R cm d (threshold_signature E R f d) = Inr ()"
    if "\<forall>sk \<in> set (take k signers). \<not> snd (snd (secp_sign_recoverable R sk d))" for d
    using threshold_signature_accepted [OF assms(1,2) _ assms(4) that assms(5)] f(2,3)
    by (auto simp: check_multisig_def threshold_signature_def f(4,5) assms(10,11) dest: in_set_takeD)
  have dg: "roster_digest E (ro\<lparr>ro_signature := rs\<rparr>) = roster_digest E ro" by (simp add: roster_digest_def)
  have hs: "hs = threshold_signature E R f (h_header E h)" and rs: "rs = threshold_signature E R f (roster_digest E ro)"
    using assms(7,8) f(1,4) by (simp_all add: sign_round_header_def sign_roster_def)
  have "check_multisig E R cm (roster_digest E ro) rs = Inr ()" "check_multisig E R cm (h_header E h) hs = Inr ()"
    using acc assms(6) unfolding hs rs by blast+
  then show ?thesis
    using assms(12,13) by (simp add: companion_checks_def assms(9) dg not_less)
qed

lemma channel_delivers:
  assumes "rid \<in> set ids" and "ev_relay_id env = rid"
  shows "\<exists>receipt ds. channel_submit E now (channel_new ids) env rid = (Inr receipt, ds)
    \<and> dr_message_id receipt = message_id E env \<and> fst (pull_voucher ds rid) = Some env"
  using assms by (simp add: channel_submit_def channel_new_def pull_voucher_def)

lemma relay_redeems:
  assumes "x25519_parses R (ev_envelope env)"
    and "\<And>sk. x25519_public R sk = x25519_public R (ka_current_sk (rx_keys rx)) \<Longrightarrow>
          x25519_open R VOUCHER_TAG sk (ev_envelope env) (ev_relay_id env) = Inr (Some j)"
    and "\<forall>x. is_due t (rx_keys rx) \<longrightarrow> x25519_open R VOUCHER_TAG seed (ev_envelope env) (ev_relay_id env) \<noteq> Inr (Some x)"
    and "voucher_of_json R j = Inr v" and "relay_serves rx commitments version position"
    and "round_commitment E token (vc_per_recipient_amount (sv_context v)) (vc_round_id (sv_context v)) (sv_m v) \<in> set commitments"
  shows "\<exists>arts rx' root path. submit_voucher E R seed t rx env token version position = (Inr arts, rx')
    \<and> sa_voucher arts = v \<and> sa_claim_witness arts = claim_witness_of E rx v root path
    \<and> zw_claim_nullifier (sa_pool_witness arts) = kw_nullifier (sa_claim_witness arts)
    \<and> zw_recipient (sa_pool_witness arts) = kw_destination (sa_claim_witness arts)"
proof -
  let ?rx = "if is_due t (rx_keys rx) then rx\<lparr>rx_keys := rotate_keys R seed t (rx_keys rx)\<rparr> else rx"
  have dec: "relay_decrypt R (rx_keys ?rx) env = Inr j"
    using assms(3) by (intro relay_opens [OF assms(1) assms(2)]) (auto simp: rotate_keys_def)
  have sv: "relay_serves ?rx commitments version position" using assms(5) by (simp add: relay_serves_def)
  have cw: "claim_witness_of E ?rx v = claim_witness_of E rx v" by (simp add: claim_witness_of_def fun_eq_iff Let_def)
  show ?thesis
    using prove_voucher_ok [OF sv assms(6)] dec assms(4) by (simp add: submit_voucher_def Let_def cw)
qed

end
