(* ===== verification/Sample_Rails.thy ===== *)
theory Sample_Rails
  imports Rails_Protocol Sample
begin

text \<open>
  A concrete instance of the crates of the rails over the sample primitives, with a funder of two
  owners, a personalized card and a relay. A sealed envelope and a serialized voucher are lists of
  fields, each after its length in unary; a signature names its key.
\<close>

section \<open>Fields\<close>

definition put_field :: "u8 list \<Rightarrow> u8 list" where
  "put_field xs = replicate (length xs) 1 @ 0 # xs"

definition get_field :: "u8 list \<Rightarrow> u8 list \<times> u8 list" where
  "get_field bs = (let n = length (takeWhile (\<lambda>b. b = 1) bs) in (take n (drop (Suc n) bs), drop (Suc (2 * n)) bs))"

lemma get_put_field [simp]: "get_field (put_field xs @ ys) = (xs, ys)"
proof -
  have "takeWhile (\<lambda>b. b = 1) (put_field xs @ ys) = replicate (length xs) (1 :: u8)"
    using takeWhile_append2 [of "replicate (length xs) 1" "\<lambda>b. b = (1 :: u8)" "0 # xs @ ys"] by (simp add: put_field_def)
  then show ?thesis by (simp add: get_field_def put_field_def Let_def)
qed

fun get_fields :: "nat \<Rightarrow> u8 list \<Rightarrow> u8 list list" where
  "get_fields 0 bs = []"
| "get_fields (Suc n) bs = (let (x, rest) = get_field bs in x # get_fields n rest)"

lemma get_put_fields: "get_fields (length xss) (concat (map put_field xss)) = xss"
  by (induction xss) simp_all

definition voucher_fields :: "signed_voucher \<Rightarrow> u8 list list" where
  "voucher_fields v =
     [sq_x (sv_m v), sq_y (sv_m v), sq_x (sv_derived_pubkey v), sq_y (sv_derived_pubkey v), es_r (sv_signature v),
      es_s (sv_signature v), vc_round_id (sv_context v), vc_cohort_root (sv_context v), vc_claim_contract (sv_context v),
      vc_per_recipient_amount (sv_context v), vc_chain_id (sv_context v), sv_claim_nullifier v, sv_destination v]"

definition fields_voucher :: "u8 list list \<Rightarrow> signed_voucher" where
  "fields_voucher fs =
     \<lparr>sv_m = \<lparr>sq_x = fs ! 0, sq_y = fs ! 1\<rparr>, sv_derived_pubkey = \<lparr>sq_x = fs ! 2, sq_y = fs ! 3\<rparr>,
      sv_signature = \<lparr>es_r = fs ! 4, es_s = fs ! 5\<rparr>,
      sv_context = \<lparr>vc_round_id = fs ! 6, vc_cohort_root = fs ! 7, vc_claim_contract = fs ! 8,
        vc_per_recipient_amount = fs ! 9, vc_chain_id = fs ! 10\<rparr>,
      sv_claim_nullifier = fs ! 11, sv_destination = fs ! 12\<rparr>"

section \<open>Primitives\<close>

definition rsample :: rails_prims where
  "rsample =
     \<lparr>secp_public = (\<lambda>sk. (be_bytes 32 (be_nat sk), be_bytes 32 (be_nat sk))),
      secp_sign_prehash = (\<lambda>sk d. Inr (be_bytes 32 (be_nat sk) @ be_bytes 32 (be_nat d))),
      secp_sign_recoverable = (\<lambda>sk d. (be_bytes 32 (be_nat sk) @ be_bytes 32 (be_nat d), False, False)),
      secp_normalize_s = (\<lambda>_. None), secp_signature_ok = (\<lambda>_. True),
      secp_recover = (\<lambda>_ sig _. Some (take 32 sig, take 32 sig)),
      hmac_sha256 = (\<lambda>k m. be_bytes 32 (be_nat k + be_nat m)), x25519_public = (\<lambda>sk. sk),
      x25519_seal = (\<lambda>_ _ pk m _. Some (put_field pk @ m)), x25519_parses = (\<lambda>_. True),
      x25519_open = (\<lambda>_ sk ct _. let (pk, m) = get_field ct in Inr (if pk = sk then Some m else None)),
      voucher_to_json = (\<lambda>v. Inr (concat (map put_field (voucher_fields v)))),
      voucher_of_json = (\<lambda>j. Inr (fields_voucher (get_fields 13 j))),
      imt_crate_root = (\<lambda>_ hs. if hs = [] then None else Some (last hs)), imt_crate_proof = (\<lambda>_ _ i. Inr ([], i))\<rparr>"

lemma voucher_json: "voucher_of_json rsample (concat (map put_field (voucher_fields v))) = Inr v"
proof -
  have "length (voucher_fields v) = 13" by (simp add: voucher_fields_def)
  then have "get_fields 13 (concat (map put_field (voucher_fields v))) = voucher_fields v"
    using get_put_fields [of "voucher_fields v"] by simp
  then show ?thesis by (simp add: rsample_def) (simp add: fields_voucher_def voucher_fields_def)
qed

lemma rsample_laws: "rails_laws rsample"
proof -
  have "\<exists>j. voucher_to_json rsample v = Inr j \<and> voucher_of_json rsample j = Inr v" for v
    using voucher_json [of v] by (intro exI [of _ "concat (map put_field (voucher_fields v))"]) (simp add: rsample_def)
  then show ?thesis unfolding rails_laws_def by (auto simp: rsample_def)
qed

section \<open>A round\<close>

definition word_bytes :: "nat \<Rightarrow> bytes32" where "word_bytes n = be_bytes 32 n"

definition owner_address :: "bytes32 \<Rightarrow> address" where
  "owner_address sk = address_from_verifying_key sample (secp_public rsample sk)"

definition sample_signers :: "bytes32 list" where "sample_signers = [word_bytes 1, word_bytes 2]"

definition sample_funder :: funder where
  "sample_funder =
     \<lparr>fu_multisig_signers = sample_signers, fu_claim_contract = be_bytes 20 7, fu_funder_residual_destination = be_bytes 20 8,
      fu_funder_owners = map owner_address sample_signers, fu_threshold = 2, fu_multisig_address = be_bytes 20 9\<rparr>"

definition sample_header :: round_header where
  "sample_header = build_round_header sample_funder (word_bytes 3) 1 (word_bytes 4) (word_bytes 5) 1 (be_bytes 20 6) 100 (word_bytes 1)"

definition unsigned_roster :: relay_roster where
  "unsigned_roster =
     \<lparr>ro_relays = [\<lparr>rl_relay_id = word_bytes 11, rl_static_pub_x25519 = word_bytes 12, rl_rotation_epoch = 0\<rparr>],
      ro_signed_at_unix = 50, ro_signature = []\<rparr>"

definition sample_card :: card where
  "sample_card = \<lparr>cd_m = Some (word_bytes 13), cd_companion_pre_key = Some (word_bytes 14), cd_expects_auth_token = True,
     cd_refuses_prehashed = True\<rparr>"

definition sample_companion :: "card companion" where
  "sample_companion =
     \<lparr>cm_card = sample_card, cm_companion_pre_key = word_bytes 14,
      cm_roster = unsigned_roster\<lparr>ro_signature := threshold_signature sample rsample sample_funder (roster_digest sample unsigned_roster)\<rparr>,
      cm_funder_owners = map owner_address sample_signers, cm_funder_threshold = 2\<rparr>"

definition sample_bundle :: header_bundle where
  "sample_bundle = \<lparr>hb_signed = \<lparr>sh_header = sample_header,
       sh_signature = threshold_signature sample rsample sample_funder (h_header sample sample_header)\<rparr>,
     hb_first_pool_leaf_index = 0\<rparr>"

definition sample_relay :: "sample_fr relay" where
  "sample_relay =
     (let path = \<lparr>rp_siblings = [], rp_indices = []\<rparr> in
      \<lparr>rx_prover = mock_proof_backend,
       rx_keys = \<lparr>ka_current_sk = word_bytes 12, ka_current_pk = word_bytes 12, ka_previous_sk = None, ka_previous_pk = None,
         ka_rotated_at = 0, ka_rotation_interval = 10\<rparr>,
       rx_pool = \<lparr>op_commitment_index = (\<lambda>_ _. Inr (Some 0)), op_sub_tree_root = (\<lambda>_. Inr (word_bytes 0)),
         op_pool_merkle_path = (\<lambda>_ _. Inr path)\<rparr>,
       rx_cohort = \<lparr>oc_cohort_root = (\<lambda>_. Inr (word_bytes 4)), oc_cohort_merkle_path = (\<lambda>_ _. Inr path)\<rparr>,
       rx_claim_contract = be_bytes 20 7, rx_relay_submitter = be_bytes 20 10\<rparr>)"

lemma last_be_bytes: "last (be_bytes (Suc k) n) = word_of_nat n"
  by simp

lemma owner_address_last:
  assumes "n < 256"
  shows "last (owner_address (word_bytes n)) = word_of_nat n"
proof -
  have n: "be_nat (word_bytes n) = n" using assms by (simp add: word_bytes_def)
  let ?k = "be_nat (word_bytes n @ word_bytes n)"
  have "owner_address (word_bytes n) = drop 12 (be_bytes 32 ?k)"
    using n by (simp add: owner_address_def address_from_verifying_key_def rsample_def sample_def) (simp add: word_bytes_def)
  then have "last (owner_address (word_bytes n)) = last (be_bytes (Suc 31) ?k)" by (simp add: last_drop)
  also have "\<dots> = word_of_nat ?k" by (rule last_be_bytes)
  also have "\<dots> = word_of_nat n * (256 :: u8) ^ 32 + word_of_nat n"
    unfolding be_nat_append n by (simp only: of_nat_add of_nat_mult of_nat_power of_nat_numeral) (simp add: word_bytes_def)
  also have "(256 :: u8) ^ 32 = 0" by code_simp
  finally show ?thesis by simp
qed

section \<open>A revocation\<close>

text \<open>Two cards are enrolled and the first is revoked.\<close>

definition two_cards :: "bytes32 list operator_registry" where
  "two_cards = snd (operator_enroll (snd (operator_enroll (operator_new []) (word_bytes 1) (derive_pubkey rsample (word_bytes 1))))
     (word_bytes 2) (derive_pubkey rsample (word_bytes 2)))"

definition revoked_registry :: "bytes32 list operator_registry" where
  "revoked_registry = snd (operator_revoke two_cards (word_bytes 1))"

lemma word_bytes_neq: "word_bytes 1 \<noteq> word_bytes 2" "derive_pubkey rsample (word_bytes 1) \<noteq> derive_pubkey rsample (word_bytes 2)"
  using be_bytes_inject [of 1 32 2] by (simp_all add: word_bytes_def derive_pubkey_def pubkey_to_xy_def rsample_def)

lemma revoked_cards: "og_cards revoked_registry =
     [\<lparr>cr_card_id = word_bytes 1, cr_m = derive_pubkey rsample (word_bytes 1), cr_status = CardRevoked, cr_cohort_position = 0\<rparr>,
      \<lparr>cr_card_id = word_bytes 2, cr_m = derive_pubkey rsample (word_bytes 2), cr_status = CardActive, cr_cohort_position = 1\<rparr>]"
  by (simp add: revoked_registry_def two_cards_def operator_revoke_def operator_enroll_def operator_new_def word_bytes_neq [simplified] Let_def)

lemma revoked_run: "cohort_run E S revoked_registry"
  unfolding revoked_registry_def two_cards_def
  by (intro run_step [OF _ step_revoke] run_step [OF _ step_enroll] run_new)

end
