(* ===== verification/Rails_Theorems.thy ===== *)
theory Rails_Theorems
  imports Sample_Rails
begin

text \<open>
  The properties of the disbursement rails, with witnesses over the sample primitives: the way of a
  voucher, what a card signs, threshold signatures on the wire, and the positions of a cohort.
\<close>

text \<open>C21: A voucher is redeemed. In a round whose header and relay roster are signed by a funder built with
  \<open>with_multisig\<close> (at most 255 signatures, distinct signing addresses, no reduced abscissa), the companion of a
  card of the cohort builds a voucher, the channel hands it to the relay of the roster, and the relay submits it, also
  when its key is due for rotation, provided the key it draws then does not happen to open this envelope. The card signs the voucher digest of the header; the voucher, the claim witness and
  the pool witness carry one nullifier, and the pool pays the stealth address of the card.
\<close>

theorem voucher_redeemed:
  assumes "rails_laws R" and "digest_laws E"
    and "with_multisig E R signers owners k msig cc dest = Inr f" and "k < 256"
    and "distinct (map (\<lambda>sk. address_from_verifying_key E (secp_public R sk)) (take k signers))"
    and "\<forall>sk \<in> set (take k signers). \<not> snd (snd (secp_sign_recoverable R sk (h_header E h)))
           \<and> \<not> snd (snd (secp_sign_recoverable R sk (roster_digest E ro)))"
    and "sign_round_header E R f h = Inr hs" and "sign_roster E R f ro = Inr rs"
    and "header_ok h" and "compute_round_commitments E h ms = Inr commitments" and "derive_pubkey R m \<in> set ms"
    and "cm_roster cm = ro\<lparr>ro_signature := rs\<rparr>" and "cm_funder_owners cm = owners" and "cm_funder_threshold cm = k"
    and "card_holds (cm_card cm) (cm_companion_pre_key cm) m"
    and "ro_signed_at_unix ro \<le> now" and "now - ro_signed_at_unix ro \<le> ROSTER_STALENESS_SECS"
    and "ro_relays ro = rl # rls" and "rl_relay_id rl \<in> set relays"
    and "rl_static_pub_x25519 rl = x25519_public R (ka_current_sk (rx_keys rx))"
    and "relay_serves rx commitments (rh_cohort_version h) position"
    and "\<forall>ct x. is_due t (rx_keys rx) \<and> voucher_envelope E R rnd m h rl = Some ct \<longrightarrow>
           x25519_open R VOUCHER_TAG seed ct (rl_relay_id rl) \<noteq> Inr (Some x)"
  shows "\<exists>env cm' sig receipt ds arts rx'.
    build_voucher E R (transmit E R fresh) rnd now cm
      \<lparr>hb_signed = \<lparr>sh_header = h, sh_signature = hs\<rparr>, hb_first_pool_leaf_index = idx\<rparr> = (Inr env, cm')
    \<and> sign_voucher R m (voucher_digest E R m (header_context h)) = Inr sig
    \<and> channel_submit E now (channel_new relays) env (rl_relay_id rl) = (Inr receipt, ds)
    \<and> fst (pull_voucher ds (rl_relay_id rl)) = Some env
    \<and> submit_voucher E R seed t rx env (rh_token h) (rh_cohort_version h) position = (Inr arts, rx')
    \<and> sa_voucher arts = voucher_for E R m h sig
    \<and> sv_claim_nullifier (sa_voucher arts) = fr_word E (kw_nullifier (sa_claim_witness arts))
    \<and> zw_claim_nullifier (sa_pool_witness arts) = kw_nullifier (sa_claim_witness arts)
    \<and> zw_recipient (sa_pool_witness arts) = fr_be E (pad_address (destination_from_derived_pubkey E
        (derive_pubkey R (derive_stealth_scalar R m (rh_round_id h) (rh_claim_contract_address h) (rh_chain_id h)))))"
proof -
  let ?b = "\<lparr>hb_signed = \<lparr>sh_header = h, sh_signature = hs\<rparr>, hb_first_pool_leaf_index = idx\<rparr>"
  have checks: "companion_checks E R now cm ?b = Inr ()"
    using sender_checks_pass [OF assms(1-8,12-14,16,17)] .
  have hd: "sh_header (hb_signed ?b) = h" by simp
  have rel: "ro_relays (cm_roster cm) = rl # rls" using assms(12,18) by simp
  obtain env cm' sig j where b: "build_voucher E R (transmit E R fresh) rnd now cm ?b = (Inr env, cm')"
      "sign_voucher R m (voucher_digest E R m (header_context h)) = Inr sig"
      "voucher_of_json R j = Inr (voucher_for E R m h sig)" "ev_relay_id env = rl_relay_id rl"
      "x25519_parses R (ev_envelope env)" "voucher_envelope E R rnd m h rl = Some (ev_envelope env)"
    and op: "\<And>sk. x25519_public R sk = rl_static_pub_x25519 rl \<Longrightarrow>
          x25519_open R VOUCHER_TAG sk (ev_envelope env) (rl_relay_id rl) = Inr (Some j)"
    using software_card.builds_voucher [OF assms(1) _ assms(15) checks rel assms(20), unfolded hd, OF assms(9), of fresh rnd] by blast
  have com: "round_commitment E (rh_token h) (vc_per_recipient_amount (sv_context (voucher_for E R m h sig)))
      (vc_round_id (sv_context (voucher_for E R m h sig))) (sv_m (voucher_for E R m h sig)) \<in> set commitments"
    using assms(10,11) by (auto simp: compute_round_commitments_def voucher_for_def header_context_def Let_def split: if_splits)
  have fresh: "\<forall>x. is_due t (rx_keys rx) \<longrightarrow> x25519_open R VOUCHER_TAG seed (ev_envelope env) (ev_relay_id env) \<noteq> Inr (Some x)"
    using assms(22) b(4,6) by simp
  obtain arts rx' root path where s: "submit_voucher E R seed t rx env (rh_token h) (rh_cohort_version h) position = (Inr arts, rx')"
      "sa_voucher arts = voucher_for E R m h sig" "sa_claim_witness arts = claim_witness_of E rx (voucher_for E R m h sig) root path"
      "zw_claim_nullifier (sa_pool_witness arts) = kw_nullifier (sa_claim_witness arts)"
      "zw_recipient (sa_pool_witness arts) = kw_destination (sa_claim_witness arts)"
    using relay_redeems [OF b(5) op [folded b(4), unfolded assms(20)] fresh b(3) assms(21) com] by blast
  obtain receipt ds where "channel_submit E now (channel_new relays) env (rl_relay_id rl) = (Inr receipt, ds)"
      "fst (pull_voucher ds (rl_relay_id rl)) = Some env"
    using channel_delivers [OF assms(19) b(4)] by blast
  then show ?thesis
    using b(1,2) s by (auto simp: claim_witness_of_def voucher_for_def header_context_def Let_def)
qed

theorem voucher_redeemed_witness:
  "\<exists>env cm' arts rx'. build_voucher sample rsample (transmit sample rsample []) [] 60 sample_companion sample_bundle = (Inr env, cm')
    \<and> submit_voucher sample rsample (word_bytes 99) 20 sample_relay env (rh_token sample_header) 1 0 = (Inr arts, rx')
    \<and> sv_m (sa_voucher arts) = derive_pubkey rsample (word_bytes 13)
    \<and> zw_claim_nullifier (sa_pool_witness arts) = kw_nullifier (sa_claim_witness arts)"
proof -
  have ver: "rh_cohort_version sample_header = 1" and ok: "header_ok sample_header"
    by (simp_all add: sample_header_def build_round_header_def header_ok_def sample_funder_def word_bytes_def)
  have ms: "with_multisig sample rsample sample_signers (map owner_address sample_signers) 2 (be_bytes 20 9) (be_bytes 20 7)
      (be_bytes 20 8) = Inr sample_funder"
    by (simp add: with_multisig_def sample_signers_def sample_funder_def owner_address_def)
  have "owner_address (word_bytes 1) \<noteq> owner_address (word_bytes 2)"
    using owner_address_last [of 1] owner_address_last [of 2] by auto
  then have di: "distinct (map (\<lambda>sk. address_from_verifying_key sample (secp_public rsample sk)) (take 2 sample_signers))"
    by (simp add: sample_signers_def owner_address_def)
  have sg: "sign_round_header sample rsample sample_funder sample_header = Inr (sh_signature (hb_signed sample_bundle))"
      "sign_roster sample rsample sample_funder unsigned_roster
        = Inr (threshold_signature sample rsample sample_funder (roster_digest sample unsigned_roster))"
    by (simp_all add: sign_round_header_def sign_roster_def sample_bundle_def) (simp_all add: sample_funder_def)
  have cs: "compute_round_commitments sample sample_header [derive_pubkey rsample (word_bytes 13)]
      = Inr [round_commitment sample (rh_token sample_header) (rh_per_recipient_amount sample_header)
          (rh_round_id sample_header) (derive_pubkey rsample (word_bytes 13))]"
    by (simp add: compute_round_commitments_def) (simp add: sample_header_def build_round_header_def)
  have sv: "relay_serves sample_relay cs 1 0" for cs
    by (simp add: relay_serves_def sample_relay_def mock_proof_backend_def Let_def)
  have nf: "x25519_open rsample VOUCHER_TAG (word_bytes 99) ct (word_bytes 11) \<noteq> Inr (Some x)"
    if "voucher_envelope sample rsample [] (word_bytes 13) sample_header \<lparr>rl_relay_id = word_bytes 11,
        rl_static_pub_x25519 = word_bytes 12, rl_rotation_epoch = 0\<rparr> = Some ct" for ct x
    using that be_bytes_inject [of 12 32 99]
    by (auto simp: voucher_envelope_def rsample_def word_bytes_def split: sum.splits)
  have bd: "\<lparr>hb_signed = \<lparr>sh_header = sample_header, sh_signature = sh_signature (hb_signed sample_bundle)\<rparr>,
      hb_first_pool_leaf_index = 0\<rparr> = sample_bundle" by (simp add: sample_bundle_def)
  note red = voucher_redeemed [OF rsample_laws sample_digest_laws ms _ di _ sg(1,2) ok cs, where cm = sample_companion
      and m = "word_bytes 13" and now = 60 and rl = "\<lparr>rl_relay_id = word_bytes 11, rl_static_pub_x25519 = word_bytes 12,
        rl_rotation_epoch = 0\<rparr>" and rls = "[]" and relays = "[word_bytes 11]" and rx = sample_relay and position = 0
      and idx = 0 and seed = "word_bytes 99" and t = 20 and fresh = "[]" and rnd = "[]", unfolded bd ver]
  have "\<exists>env cm' sig receipt ds arts rx'.
    build_voucher sample rsample (transmit sample rsample []) [] 60 sample_companion sample_bundle = (Inr env, cm')
    \<and> submit_voucher sample rsample (word_bytes 99) 20 sample_relay env (rh_token sample_header) 1 0 = (Inr arts, rx')
    \<and> sa_voucher arts = voucher_for sample rsample (word_bytes 13) sample_header sig
    \<and> zw_claim_nullifier (sa_pool_witness arts) = kw_nullifier (sa_claim_witness arts)"
    using red sv nf
    by (auto simp: sample_companion_def sample_card_def card_holds_def unsigned_roster_def ROSTER_STALENESS_SECS_def
        sample_relay_def rsample_def Let_def)
  then show ?thesis by (auto simp: voucher_for_def Let_def)
qed

text \<open>C22: What a card gives away. A card that expects an authorisation answers a command with an acknowledgement, with its
  public key, or with a signature; it signs only when the command carries the authorisation, under the key shared with
  the companion, of the very header in it, and only the voucher digest of the context that header states: the round, the
  cohort root, the amount, the claim contract and the chain. No command replaces the key of a card or its settings.
\<close>

theorem card_signs_only_authorised:
  assumes "rails_laws R" and "transmit E R fresh c apdu = (Inr resp, c')" and "cd_expects_auth_token c"
  shows "c' = c\<lparr>cd_m := cd_m c'\<rparr> \<and> (cd_m c' = cd_m c \<or> cd_m c = None \<and> cd_m c' = Some fresh)
    \<and> (resp = [0x90, 0x00] \<or> (\<exists>m. cd_m c = Some m \<and> resp = sq_x (derive_pubkey R m) @ sq_y (derive_pubkey R m) @ [0x90, 0x00])
       \<or> (let body = drop 7 apdu; header = slice 32 224 body; ctx = ctx_of_bytes (drop 224 body) in
          length body = 372
          \<and> (\<exists>key. cd_companion_pre_key c = Some key \<and> take 32 body = derive_auth_token R key (header_digest E header))
          \<and> vc_round_id ctx = slice 0 32 header \<and> vc_cohort_root ctx = slice 40 72 header
          \<and> vc_per_recipient_amount ctx = slice 72 104 header \<and> vc_claim_contract ctx = slice 140 160 header
          \<and> vc_chain_id ctx = slice 160 192 header
          \<and> (\<exists>m sig. cd_m c' = Some m \<and> sign_voucher R m (voucher_digest E R m ctx) = Inr sig
               \<and> decode_sign_voucher_response resp = Inr (derive_pubkey R m,
                   derive_pubkey R (derive_stealth_scalar R m (vc_round_id ctx) (vc_claim_contract ctx) (vc_chain_id ctx)), sig))))"
proof (cases "apdu ! 1 = INS_SIGN_VOUCHER")
  case True
  obtain ctx m where s: "check_sign_body E R c (drop 7 apdu) = Inr ctx" "sign_context E R m ctx = Inr resp" "cd_m c' = Some m"
    using transmit_signs [OF assms(2) True] by blast
  obtain sig where "sign_voucher R m (voucher_digest E R m ctx) = Inr sig"
      "decode_sign_voucher_response resp = Inr (derive_pubkey R m,
         derive_pubkey R (derive_stealth_scalar R m (vc_round_id ctx) (vc_claim_contract ctx) (vc_chain_id ctx)), sig)"
    using sign_context_decodes [OF assms(1), of E m ctx] s(2) by auto
  then show ?thesis
    using check_sign_body_Inr [OF s(1)] transmit_frame [OF assms(2)] assms(3) s(3) by (simp add: Let_def ctx_matches_def)
next
  case False
  then show ?thesis using transmit_other [OF assms(2) False] transmit_frame [OF assms(2)] by blast
qed

theorem card_signs_only_authorised_witness:
  "\<exists>resp c'. transmit sample rsample [] sample_card (encode_sign_voucher
        (derive_auth_token rsample (word_bytes 14) (h_header sample sample_header)) (serialize_round_header sample_header)
        (header_context sample_header)) = (Inr resp, c') \<and> length resp = 194 \<and> cd_m c' = Some (word_bytes 13)"
proof -
  let ?apdu = "encode_sign_voucher (derive_auth_token rsample (word_bytes 14) (h_header sample sample_header))
     (serialize_round_header sample_header) (header_context sample_header)"
  have "header_ok sample_header" "card_holds sample_card (word_bytes 14) (word_bytes 13)" "cd_expects_auth_token sample_card"
    by (simp_all add: sample_header_def build_round_header_def header_ok_def sample_funder_def word_bytes_def sample_card_def
        card_holds_def)
  note ok = this
  obtain resp c' sig where r: "transmit sample rsample [] sample_card ?apdu = (Inr resp, c')"
      "card_holds c' (word_bytes 14) (word_bytes 13)"
      "decode_sign_voucher_response resp = Inr (derive_pubkey rsample (word_bytes 13), derive_pubkey rsample (derive_stealth_scalar
          rsample (word_bytes 13) (rh_round_id sample_header) (rh_claim_contract_address sample_header) (rh_chain_id sample_header)), sig)"
    using software_card.signs [OF rsample_laws ok(2,1)] by blast
  have "length resp = 194" using r(3) by (simp add: decode_sign_voucher_response_def split: if_splits)
  moreover have "c' = sample_card\<lparr>cd_m := cd_m c'\<rparr>"
    using card_signs_only_authorised [OF rsample_laws r(1) ok(3)] by (rule conjunct1)
  ultimately show ?thesis using r(1,2) by (auto simp: card_holds_def)
qed

text \<open>C23: Signatures of an m-of-n funder on the wire. Encoding and decoding are inverse, up to the count byte: a list of 256 signatures or
  more is never decoded again. A companion accepts an encoded list exactly when its length is the threshold,
  the signers are distinct owners and every signature recovers to its signer.
\<close>

theorem threshold_wire:
  assumes "\<forall>s \<in> set sigs. multi_signature_ok s"
  shows "decode_threshold (encode_threshold sigs) (length sigs) = (if length sigs < 256 then Inr sigs else Inl WrongCount)
    \<and> (\<forall>bytes k sigs'. decode_threshold bytes k = Inr sigs' \<longrightarrow> encode_threshold sigs' = bytes \<and> length sigs' = k)
    \<and> (check_multisig E R cm digest (encode_threshold sigs) = Inr () \<longleftrightarrow>
         length sigs = cm_funder_threshold cm \<and> length sigs < 256 \<and> distinct (map ms_signer sigs)
         \<and> (\<forall>s \<in> set sigs. ms_signer s \<in> set (cm_funder_owners cm) \<and> recover_and_check E R digest s = Inr ()))"
proof (intro conjI)
  show "check_multisig E R cm digest (encode_threshold sigs) = Inr () \<longleftrightarrow>
      length sigs = cm_funder_threshold cm \<and> length sigs < 256 \<and> distinct (map ms_signer sigs)
      \<and> (\<forall>s \<in> set sigs. ms_signer s \<in> set (cm_funder_owners cm) \<and> recover_and_check E R digest s = Inr ())"
    using decode_encode_threshold [OF assms] decode_other_count [OF assms, of "cm_funder_threshold cm"]
    by (cases "length sigs = cm_funder_threshold cm") (simp_all add: check_multisig_def verify_threshold_iff)
qed (use decode_encode_threshold [OF assms] encode_decode_threshold in blast)+

theorem threshold_wire_witness:
  "decode_threshold (encode_threshold [\<lparr>ms_signer = zeros 20, ms_signature = zeros 65\<rparr>]) 1
     = Inr [\<lparr>ms_signer = zeros 20, ms_signature = zeros 65\<rparr>]
   \<and> check_multisig sample rsample sample_companion (zeros 32) (encode_threshold [\<lparr>ms_signer = zeros 20, ms_signature = zeros 65\<rparr>])
     \<noteq> Inr ()"
proof -
  let ?s = "[\<lparr>ms_signer = zeros 20, ms_signature = zeros 65\<rparr>]"
  have "\<forall>s \<in> set ?s. multi_signature_ok s" by (simp add: multi_signature_ok_def zeros_def)
  note w = threshold_wire [OF this, of sample rsample sample_companion "zeros 32"]
  have "cm_funder_threshold sample_companion = 2" by (simp add: sample_companion_def)
  then show ?thesis using w by (simp add: zeros_def)
qed

text \<open>C24: The positions of a cohort. In every registry an operator reaches, card ids and keys are distinct and a card has the
  position of its enrolment. In a tree rebuilt from scratch the leaf of an active card stands at the number of
  active cards enrolled before it, and the published size is the number of leaves; so the position of the card is the
  index of its leaf exactly when no card before it was revoked.
\<close>

theorem cohort_leaf_position:
  assumes "field_laws E" and "cohort_run E (lean_imt_store E R) og" and "length (og_cards og) < 2 ^ 64"
    and "i < length (og_cards og)" and "cr_status (og_cards og ! i) = CardActive"
    and "j = length (active_cards (take i (og_cards og)))" and "tree = rebuilt_tree E R og"
  shows "distinct (map cr_card_id (og_cards og)) \<and> distinct (map cr_m (og_cards og))
    \<and> cr_cohort_position (og_cards og ! i) = word_of_nat i
    \<and> j < length tree \<and> from_be_bytes_mod_order E (tree ! j) = m_packed_of E (cr_m (og_cards og ! i))
    \<and> fst (publish_cohort (lean_imt_store E R) (og\<lparr>og_tree := tree\<rparr>))
        = Inr (og_current_version og + 1, imt_store_root E R tree, word_of_nat (length tree))
    \<and> (unat (cr_cohort_position (og_cards og ! i)) = j \<longleftrightarrow> (\<forall>c \<in> set (take i (og_cards og)). cr_status c = CardActive))"
proof -
  have "length tree = length (active_cards (og_cards og))"
    using arg_cong [OF rebuilt_tree_leaves [OF assms(1-3)], of length] by (simp add: assms(7))
  moreover have p: "cr_cohort_position (og_cards og ! i) = word_of_nat i" using position_is_leaf [OF assms(2-4)] by blast
  moreover have "unat (word_of_nat i :: u64) = j \<longleftrightarrow> (\<forall>c \<in> set (take i (og_cards og)). cr_status c = CardActive)"
    using position_is_leaf [OF assms(2-4)] p assms(6) by simp
  ultimately show ?thesis
    using cards_ok_run [OF assms(2)] rebuilt_leaf [OF assms(1-5)] assms(6,7)
    by (simp add: cards_ok_def publish_cohort_def lean_imt_store_def Let_def)
qed

theorem cohort_leaf_position_witness:
  "cr_cohort_position (og_cards revoked_registry ! 1) = 1
    \<and> from_be_bytes_mod_order sample (rebuilt_tree sample rsample revoked_registry ! 0) = m_packed_of sample (derive_pubkey rsample (word_bytes 2))"
proof -
  have cards: "og_cards revoked_registry =
     [\<lparr>cr_card_id = word_bytes 1, cr_m = derive_pubkey rsample (word_bytes 1), cr_status = CardRevoked, cr_cohort_position = 0\<rparr>,
      \<lparr>cr_card_id = word_bytes 2, cr_m = derive_pubkey rsample (word_bytes 2), cr_status = CardActive, cr_cohort_position = 1\<rparr>]"
    by (rule revoked_cards)
  show ?thesis
    using cohort_leaf_position [OF sample_field_laws revoked_run, of 1 _ "rebuilt_tree sample rsample revoked_registry"]
    by (simp add: cards active_cards_def)
qed

end
