(* ===== verification/Spec2Isabelle.thy ===== *)
theory Spec2Isabelle
  imports Registry_Theorems Component_Theorems Validium_Theorems Swap_Theorems Fund_Theorems Rails_Theorems
begin

text \<open>
  This development verifies five of the Rust programs of the repository, each a proof of concept of its own:
  petitions (\<open>src/pocs/civic-participation/resilient-civic-participation/src\<close>), a validium
  (\<open>src/pocs/diy-validium\<close>), a swap through a trusted enclave
  (\<open>src/pocs/private-trade-settlement/tee_swap/src/lib\<close>), a shielded money-market fund
  (\<open>src/pocs/private-mmf/shielded-notes/src\<close>) and rails for disbursements
  (\<open>src/pocs/private-payment/resilient-disbursement-rails/src\<close>). File names below are relative to these directories.

  \<^bold>\<open>Shared.\<close> \<open>Prelude\<close>: result types, \<open>?\<close> as \<open>and_then\<close>, loops with early return as \<open>try_fold\<close>/\<open>try_map\<close>, checked
  arithmetic, big-endian bytes. \<open>Merkle\<close>: complete binary hash trees as a reference. The crates the programs
  call are records of functions, arguments of every definition that needs them: \<open>prims\<close> (\<open>ark-bn254\<close>,
  \<open>light-poseidon\<close>, \<open>sha2\<close>, \<open>sha3\<close>), and per program the others named below. A handler returns its result with
  the state it leaves, errors included; a panic is \<open>None\<close>, or an error of its own where the theory says so.

  \<^bold>\<open>Petitions.\<close> An organizer drafts a petition (a predicate over attributes, classes with thresholds, a
  closing block, a bounty) and registers it. Signers hold a credential in an identity layer and a
  forward-secure chain of slot values; each petition owns one slot. A signature is a nullifier, an
  identity tag and a class tag with a proof. Relayers collect signatures into batches, insert them in
  two indexed Merkle trees, publish the records in a blob and submit the batch. The registry replays the
  insertions, keeps the roots, the leaf count and the list of batches, and moves every petition through
  its lifecycle by block number. After a cooldown, disputants may repudiate a batch by opening the blob at
  a violating position; after the deadline a resolver reads the blobs, counts the classes and proves the
  outcome, or anyone expires the petition after a further grace period.
  \<^item> \<open>Poseidon\<close> (\<open>lib.rs\<close>, \<open>poseidon.rs\<close>): protocol constants, domain-separated hashes, the width-5
    permutation and sponge, petition identifiers.
  \<^item> \<open>Types\<close> (\<open>types.rs\<close>, \<open>error.rs\<close>, \<open>ports/imt.rs\<close>, \<open>ports/proof.rs\<close>), \<open>PredicateLang\<close> (\<open>predicate.rs\<close>),
    \<open>Imt\<close> (\<open>imt.rs\<close>), \<open>Fsrt\<close> (\<open>fsrt.rs\<close>), \<open>Blob\<close> (\<open>blob.rs\<close>): the data and the algorithms.
  \<^item> \<open>Ports\<close> (\<open>ports\<close>, \<open>clock.rs\<close>): the service traits as records of operations, and their contracts as
    locales: \<open>complete_backend\<close>, \<open>binding_backend\<close>, \<open>blob_store\<close>, \<open>relay_channel\<close>; \<open>Imt\<close> has \<open>imt_store\<close>.
    \<open>Adapters\<close> (\<open>adapters/mock_proof.rs\<close>, \<open>in_memory_blob.rs\<close>, \<open>in_memory_ri.rs\<close>,
    \<open>direct_relay_submission.rs\<close>) models the adapters and interprets the contracts on them.
  \<^item> \<open>Organizer\<close>, \<open>Disputant\<close>, \<open>Registry\<close>, \<open>Relayer\<close>, \<open>Resolver\<close>, \<open>Signer\<close>: the actors, from the modules of
    the same names.
  \<^item> \<open>Registry_Lifecycle\<close>: the registry as a step relation (any handler call, clock ticks, changes of the
    services), what a step may change, reachable states. \<open>Registry_Ledger\<close>: the abstract state, per
    petition the list of the records of its active batches, and the invariant \<open>ledger_ok\<close> that ties an
    entry to it: a simulation of the ledger by the handlers.
  \<^item> \<open>Batching\<close>, \<open>Resolution\<close>, \<open>Disputes\<close>, \<open>Signing\<close>: the actors against the registry.
  \<^item> \<open>Registry_Theorems\<close>, \<open>Component_Theorems\<close> and this theory hold the properties: the registry's, the
    components', and the ones that span actors.

  \<^bold>\<open>Validium.\<close> An operator keeps accounts in a store, publishes the root of their Merkle tree and proves
  transfers, withdrawals, disclosures and membership with four guest programs; SHA-256 is a parameter.
  \<^item> \<open>Validium\<close> (\<open>methods/guest\<close>, \<open>host/src\<close>): the guest programs as functions from what they read to the
    journal or the panic, the array tree, the store, the journal parsers and the host's replicas.
  \<^item> \<open>Validium_Tree\<close>: the array tree and the path functions against \<open>Merkle\<close>. \<open>Validium_Store\<close>: the guests on
    stored accounts, and the steps of an operator. \<open>Validium_Theorems\<close>: the properties.

  \<^bold>\<open>Swap.\<close> Two parties lock notes for each other at stealth addresses; a coordinator in an enclave checks both
  submissions and announces the ephemeral keys and salts, so that both can claim; after the timeout each can take its own note back.
  \<^item> \<open>Swap\<close> (\<open>crypto\<close>, \<open>domain\<close>, \<open>party.rs\<close>): hashes, salts, stealth keys, notes, what the parties prepare; the
    curve is a parameter. \<open>Swap_Coordinator\<close> (\<open>coordinator.rs\<close>, \<open>ports\<close>, \<open>adapters/memory_store.rs\<close>,
    \<open>adapters/mock_chain.rs\<close>): verification and the handler, as one call and as a task with a step per
    await, so that two submissions interleave; the locale \<open>swap_store\<close> is interpreted on the in-memory store.
  \<^item> \<open>Swap_Protocol\<close>: what verification accepts and what honest parties get. \<open>Swap_Theorems\<close>: the properties.

  \<^bold>\<open>Fund.\<close> Investors hold shares of a fund as notes in a pool. A wallet plans a deposit, a transfer or a
  withdrawal, has a custody signer sign the plan and finishes the witness against the current chain; a prover
  turns it into a submission. Every output is encrypted twice: to the recipient, and to the register key of a
  transfer agent, who keeps the register of all holders, attests owner values in batches under caps on
  investors, freezes, seizes and redeems, hands out subscriptions and reconciles with the pool every day.
  \<^item> \<open>Fund_Notes\<close> (\<open>lib.rs\<close>, \<open>poseidon.rs\<close>, \<open>types.rs\<close>, \<open>domain/note.rs\<close>, \<open>plan.rs\<close>, \<open>keys.rs\<close>,
    \<open>crypto/encryption.rs\<close>), \<open>Fund_Feed\<close> (\<open>domain/grumpkin.rs\<close>, \<open>feed.rs\<close>, \<open>tree.rs\<close>): notes, lock openings,
    plans, keys, the curve as the code computes on it, the register feed, the lean tree.
  \<^item> \<open>Fund_Chain\<close> (\<open>chain.rs\<close>, \<open>domain/witness.rs\<close>): the view rebuilt from the logs, witnesses and their public
    inputs. \<open>Fund_Wallet\<close> (\<open>wallet.rs\<close>), \<open>Fund_Agent\<close> (\<open>agent.rs\<close>). \<open>Fund_Submit\<close> (\<open>ports/prover.rs\<close>,
    \<open>adapters/mock_prover.rs\<close>, \<open>client.rs\<close>): the prover's contract as the locale \<open>circuit_prover\<close>, interpreted
    on the mock prover, and submissions.
  \<^item> \<open>Fund_Register\<close>, \<open>Fund_Delivery\<close>, \<open>Fund_Invariants\<close>, \<open>Fund_Caps\<close>, \<open>Fund_Handout\<close>, \<open>Fund_Accounting\<close>: the
    lemmas, by subject; \<open>Fund_Theorems\<close>: the properties.

  \<^bold>\<open>Rails.\<close> An operator enrols smartcards and publishes the root of their cohort tree; a funder signs, with k of n
  keys, the header of a round and a roster of relays, and deposits one commitment per card into a pool. The
  companion device of a card checks both signatures, has the card sign a voucher for a stealth address and
  seals it to a relay, which opens it, looks the commitment up and proves the claim and the withdrawal.
  \<^item> \<open>Rails\<close> (\<open>types.rs\<close>, \<open>poseidon.rs\<close>, \<open>crypto\<close>, \<open>smartcard\<close>): data, hashes, signatures on the wire, stealth
    keys, the envelope, the commands of a card. \<open>Rails_Actors\<close> (\<open>adapters/software_smartcard.rs\<close>, \<open>companion\<close>,
    \<open>funder\<close>, \<open>registry\<close>, \<open>relay\<close>, \<open>adapters/direct_submission.rs\<close>, \<open>adapters/lean_imt_merkle.rs\<close>): the actors.
  \<^item> \<open>Rails_Registry\<close>: the contract of a Merkle store as the locale \<open>cohort_store\<close>, interpreted on the \<open>lean-imt\<close>
    adapter, and the steps of an operator. \<open>Rails_Protocol\<close>: threshold signatures, what a card signs, the
    contract of a card as the locale \<open>voucher_card\<close>, interpreted on the software card, and the way of a voucher.
    \<open>Rails_Theorems\<close>: the properties.

  \<^bold>\<open>Samples.\<close> \<open>Sample\<close>, \<open>Sample_Run\<close>, \<open>Sample_Signer\<close>, \<open>Sample_Fund\<close>, \<open>Sample_Rails\<close>: concrete instances of the primitives (words
  with a linear hash, a group of order three in the place of the curve) and runs of the protocols on them,
  from which the instances of the properties are taken; they show that the hypotheses can hold together.

  \<^bold>\<open>Hypotheses.\<close> \<open>field_laws E\<close> says that scalars are the residues of a modulus above \<open>2 ^ 248\<close> with the
  big-endian coding and order \<open>ark-ff\<close> documents; \<open>digest_laws E\<close> that digests have 32 bytes; \<open>fund_laws E X\<close>
  that subtraction undoes addition and that opening a sealed message with its key returns it; \<open>point_group\<close>
  that the points that arise add as an abelian group, which holds for Grumpkin; \<open>rails_laws R\<close> that recovery
  returns the key that signed, that an envelope opens with its key, and that a serialized voucher
  parses back. No property
  assumes that a hash has no collision, which no hash satisfies: statements about commitments conclude
  with equality or a collision computed from the two inputs (\<open>path_collision\<close>, \<open>tree_collision\<close>), or assume that
  the commitments of the concrete view differ. \<open>carrier_serves\<close> says that the blob carrier still returns the
  records of the active batches.

  \<^bold>\<open>Bounds.\<close> In the petitions trees have depth 24, batches 1 to 6 records, blobs 1000 records of 4 elements,
  predicates 20 tuples and 20 operations, as in \<open>lib.rs\<close>. No fuel is used: loops are structural, over a list of
  levels or indices, or have a measure; only the planning of a hand-out is a \<open>partial_function\<close> in the option
  type, and \<open>hand_out_plan\<close> proves that it returns. \<open>usize\<close> values are naturals: they count list elements and
  stay far below \<open>2 ^ 64\<close>. Integers at a fixed width are words; checked operations return options, and
  unchecked ones wrap, as in a release build: \<open>close_at_block + COOLDOWN_BLOCKS\<close>, the units a wallet adds up,
  the expiry of a period. Properties about amounts then assume that they fit.

  \<^bold>\<open>Abstractions.\<close> Messages that interpolate numbers keep their fixed text, and \<open>SignerError::RiLookup\<close>
  keeps the error instead of its text. A \<open>BTreeMap\<close> is its association list in key order where its order is
  observed and a function elsewhere; a \<open>BTreeSet\<close> is a set. The file the
  signer journals to is the argument \<open>persist\<close>, from the bytes written to success or an error. Randomness, the
  clock and shuffles are arguments. \<open>Mutex\<close> and \<open>Arc\<close> are transparent where an operation holds its lock
  throughout. The logs a view is synced from are arguments, after decoding.

  \<^bold>\<open>What the properties show.\<close> C1 to C8: what the registry counts is what was published, once per signer,
  and disputes cut it. C9 to C12 and C36: balances and payouts of the validium add up, a guest accepts only
  what is in the tree, and where it does not. C13 to C20: payments in the fund arrive in wallets and
  register, the agent's invariant, caps, hand-outs, reconciliation, key rotation, the chain view, selection.
  C21 to C24: vouchers of the rails are redeemed, cards sign only what was authorised, signatures on the wire,
  the positions of a cohort. C25 to C28: honest swaps complete, verified ones are bound to the chain, and two ways
  to lose one. C29 and C30: lifecycle, terms and bounties of petitions. C31 to C35 and C37 to C40: the components of
  the petition system. Eight state defects of the code: a record of padding repudiates an honest
  batch (\<open>padding_dispute_upheld\<close>), a journaled signer presents paths that no longer verify
  (\<open>journaled_path_broken\<close>), the caterpillar gives paths of a chain that ends at the current slot
  (\<open>caterpillar_sees_prefix\<close>), a failed build makes a relayer's replica diverge (\<open>failed_build_diverges\<close>), the
  transfer guest accepts a root over two trees (\<open>transfer_doubles_tree\<close>), the membership guest accepts inner
  nodes (\<open>membership_accepts_nodes\<close>), concurrent submissions lose a swap
  (\<open>concurrent_submissions_lose_swap\<close>) and a foreign submission cancels one (\<open>foreign_submission_cancels\<close>).
  Two more state the limits of the rails: positions and leaves part after a revocation
  (\<open>cohort_leaf_position\<close>), and the count byte bounds a threshold (\<open>threshold_wire\<close>).

  \<^bold>\<open>Not modelled.\<close> Adapters that run external processes or talk to nodes: \<open>bb_prover.rs\<close> of four programs,
  \<open>blob_4844.rs\<close>, \<open>chain_registry.rs\<close>, \<open>ethereum.rs\<close>, the enclave and HTTP server of the swap, proving with
  RISC Zero, the calls in \<open>chain.rs\<close> of the fund that fetch logs, simulate and send, and the recovery of residual
  funds and the transport of the rails. Serde encodings and
  \<open>Debug\<close>/\<open>Display\<close> texts are derived code. The crates \<open>lean-imt\<close> and \<open>rotortree\<close> behind the identity layer,
  the cohort and the fund's trees are parameters. The Noir circuits and the Solidity contracts are in other languages; of
  them only the \<open>Transfer\<close> event of the fund's pool is used. The other proofs of concept of the repository
  (shielded pools, plasma, identity, bonds, the UTXO wallet) and its trace recorder are
  separate programs, outside the scope of this development.
\<close>

section \<open>Resolution\<close>

text \<open>C1: The outcome is the count. When the resolution deadline has passed, the resolver that reads the active
  batches from the carrier builds a submission the registry accepts, and the outcome recorded says of each
  class exactly whether the published signatures of that class reach its threshold, the petition
  succeeding when all do; the whole bounty goes to the resolver.\<close>

theorem resolution_counts_signatures:
  assumes "ledger_reachable E P (reg, h)" and "field_laws E" and "digest_laws E" and "rg_petitions reg pid = Some e"
    and "state_of e < Resolved" and "unat (close_of e) + 100800 < 2 ^ 64" and "unat (close_of e) + 100800 \<le> unat (now reg)"
    and "h pid \<noteq> []" and "carrier_serves P (rg_blob_carrier reg) (pe_batches e) (h pid)" and "pt_proof P = mock_backend E"
    and "fr_to_be_bytes E (fr_from_be_bytes E (pr_r_root (pe_record e))) = pr_r_root (pe_record e)"
    and "length (pr_bounty (pe_record e)) = 32"
  shows "\<exists>sub ev paid reg'. resolver_resolve E (pt_proof P) (pt_blob P) (rg_blob_carrier reg) (resolver_view_of e) = Inr sub
    \<and> resolve E P reg pid resolver sub = (Inr (ev, paid), reg')
    \<and> (pse_b ev, pse_b_per_class ev) =
        outcome_spec (pr_class_set (pe_record e)) (pr_class_thresholds (pe_record e)) (concat (h pid))
    \<and> bpd_recipient paid = resolver \<and> unat (bpd_amount paid) = be_nat (pr_bounty (pe_record e))"
proof -
  have reach: "reachable E P reg" using ledger_reachable_reg [OF assms(1)] by simp
  let ?d = "close_of e + RESOLUTION_DEADLINE_BLOCKS"
  have d: "checked_add (close_of e) RESOLUTION_DEADLINE_BLOCKS = Some ?d" using assms(6) by (simp add: checked_add_def)
  have le: "?d \<le> now reg" using checked_add_SomeD [OF d] assms(7) by (simp add: word_le_nat_alt)
  have st: "state_of (stepped (now reg) e) = DisputeWindow"
    using stepped_dispute_window [OF assms(5) d le] reachable_time_ok [OF reach assms(4)] by (simp add: time_ok_def)
  show ?thesis
    by (rule resolve_accepts [OF assms(2-4) st reachable_terms_ok [OF reach assms(2,4)] d le
          ledger_now [OF assms(1,2,4)] assms(8-12)])
qed

theorem resolution_counts_signatures_witness:
  "\<exists>sub ev paid reg'. resolve sample sample_ports (sample_reg3 400900) sample_pid (replicate 20 7) sub = (Inr (ev, paid), reg')
    \<and> pse_b ev = (class_count 1 sample_records \<ge> 1 \<and> class_count 2 sample_records \<ge> 1) \<and> unat (bpd_amount paid) = 1000"
proof -
  have st: "state_of sample_entry2 < Resolved" by (simp add: sample_entry2_facts(1) lifecycle_simps)
  have "\<exists>sub ev paid reg'. resolver_resolve sample (pt_proof sample_ports) (pt_blob sample_ports)
       (rg_blob_carrier (sample_reg3 400900)) (resolver_view_of sample_entry2) = Inr sub
    \<and> resolve sample sample_ports (sample_reg3 400900) sample_pid (replicate 20 7) sub = (Inr (ev, paid), reg')
    \<and> (pse_b ev, pse_b_per_class ev) = outcome_spec (pr_class_set (pe_record sample_entry2))
        (pr_class_thresholds (pe_record sample_entry2)) (concat (sample_history sample_pid))
    \<and> bpd_recipient paid = replicate 20 7 \<and> unat (bpd_amount paid) = be_nat (pr_bounty (pe_record sample_entry2))"
    by (rule resolution_counts_signatures [OF sample_reachable3 sample_field_laws sample_digest_laws sample_known st])
       (simp_all add: sample_reg3_facts sample_terms2 sample_serves sample_zeros u256_from_u64_def sample_ports_proof sample_history_def)
  then obtain sub ev paid reg' where
    r: "resolve sample sample_ports (sample_reg3 400900) sample_pid (replicate 20 7) sub = (Inr (ev, paid), reg')"
    and o: "(pse_b ev, pse_b_per_class ev) = outcome_spec [1, 2] [1, 1] sample_records"
    and a: "unat (bpd_amount paid) = be_nat (u256_from_u64 1000)"
    by (auto simp: sample_history_def sample_terms2)
  from o have "pse_b ev = (class_count 1 sample_records \<ge> 1 \<and> class_count 2 sample_records \<ge> 1)"
    by (simp add: outcome_spec_def)
  moreover have "be_nat (u256_from_u64 1000) = 1000"
    using u256_to_u128_value [OF _ u256_round_trip, of 1000] by (simp add: u256_from_u64_def)
  with a have "unat (bpd_amount paid) = 1000" by simp
  ultimately show ?thesis using r by blast
qed

section \<open>Signing, batching, publishing\<close>

text \<open>The relayer can always batch what is batchable: one to six acceptable submissions without repeated
  nullifier or tag, whose leaves and tags are new to a well-formed replica that agrees with the view and has
  room, become a batch.\<close>

lemma build_batch_total:
  assumes "field_laws E" and "digest_laws E"
    and "imt_ok E (rps_running_imt pst)" and "imt_ok E (rps_identity_tag_imt pst)"
    and "imt_root E (rps_running_imt pst) = pv_running_root view" and "imt_root E (rps_identity_tag_imt pst) = pv_identity_tag_set_root view"
    and "subs \<noteq> []" and "length subs \<le> 6" and "\<forall>s \<in> set subs. acceptable E (mock_backend E) view s" and "dup_free subs"
    and "distinct (map (record_leaf E \<circ> record_of) subs)"
    and "record_leaf E ` record_of ` set subs \<inter> set (imt_values (rps_running_imt pst)) = {}"
    and "distinct (map (fr_from_be_bytes E \<circ> ss_identity_tag) subs)"
    and "fr_from_be_bytes E ` ss_identity_tag ` set subs \<inter> set (imt_values (rps_identity_tag_imt pst)) = {}"
    and "imt_size (rps_running_imt pst) + length subs \<le> 2 ^ 24" and "imt_size (rps_identity_tag_imt pst) + length subs \<le> 2 ^ 24"
    and "unat (rps_leaf_count pst) + length subs < 2 ^ 64"
  shows "\<exists>sub ps pst' c'. build_batch E (mock_backend E) (in_memory_blob_carrier E) c view pst subs = (Inr (sub, ps), pst', c')"
  by (rule build_batch_succeeds) (use assms in \<open>simp_all add: IMT_DEPTH_def\<close>)

text \<open>C5: Relayer and registry agree. A batch the relayer built on a replica in sync with the petition is accepted
  while the petition is open; replica and petition are in sync again afterwards, and the ledger grows by
  exactly the records of the submissions, in leaf order.\<close>

theorem built_batch_accepted:
  assumes "ledger_reachable E P (reg, h)" and "field_laws E" and "digest_laws E" and "rg_petitions reg pid = Some e"
    and "state_of (stepped (now reg) e) = SigningOpen" and "in_sync pst e" and "pt_proof P = mock_backend E"
    and "build_batch E (mock_backend E) (in_memory_blob_carrier E) c (relayer_view_of vk e) pst subs = (Inr (sub, ps), pst', c')"
  shows "\<exists>ev e'. publish_batch E P reg pid relayer sub = (Inr ev, put_petition pid e' reg) \<and> in_sync pst' e'
    \<and> ledger_ok E e' (h pid @ [bs_records sub]) \<and> mset (bs_records sub) = image_mset record_of (mset subs)"
  by (rule built_batch_published [where BC = "in_memory_blob_carrier E" and c = c and vk = vk and ps = ps and c' = c',
        OF assms(2-5) ledger_now [OF assms(1,2,4)] assms(6)])
     (use assms(7,8) imb_publish_hash mock_completes(1) [OF assms(3)] in auto)

theorem built_batch_accepted_witness:
  "\<exists>ev e'. publish_batch sample sample_ports sample_reg1 sample_pid (zeros 20) sample_batch = (Inr ev, put_petition sample_pid e' sample_reg1)
    \<and> in_sync sample_pst e' \<and> mset sample_records = image_mset record_of (mset sample_subs)"
proof -
  have e: "rg_petitions sample_reg1 sample_pid = Some sample_entry" by (simp add: sample_register)
  have st: "state_of (stepped (now sample_reg1) sample_entry) = SigningOpen" using sample_entry_open by (simp add: sample_register)
  have sync: "in_sync (rps_new sample) sample_entry" by (simp add: in_sync_def rps_new_def sample_entry_facts)
  from sample_build_parts obtain ps where b: "build_batch sample (mock_backend sample) (in_memory_blob_carrier sample) imb_new
      (relayer_view_of (zeros 32) sample_entry) (rps_new sample) sample_subs = (Inr (sample_batch, ps), sample_pst, sample_carrier)"
    by (auto simp: sample_build_def sample_view_def)
  from built_batch_accepted [OF sample_reachable1 sample_field_laws sample_digest_laws e st sync sample_ports_proof b, of "zeros 20"]
  show ?thesis by blast
qed

text \<open>C4: A signature is counted: what a signer signs for an open petition, the relayer in sync with it batches and
  the registry publishes, provided its leaf and tag are new and the trees have room; afterwards the ledger
  ends with this signature's record.\<close>

theorem signature_reaches_ledger:
  assumes "ledger_reachable E P (reg, h)" and "field_laws E" and "digest_laws E" and "rg_petitions reg pid = Some e"
    and "state_of (stepped (now reg) e) = SigningOpen" and "in_sync pst e" and "pt_proof P = mock_backend E"
    and "signer_ok E vs sg" and "sign E (mock_backend E) RI p sg = Some (Inr s, sg')"
    and "pm_petition_id p = pr_petition_id (pe_record e)" and "pm_class_tag p \<in> set (pr_class_set (pe_record e))"
    and "record_leaf E (record_of s) \<notin> set (imt_values (pe_running_imt e))"
    and "fr_from_be_bytes E (ss_identity_tag s) \<notin> set (imt_values (pe_identity_tag_imt e))"
    and "imt_size (pe_running_imt e) < 2 ^ 24" and "imt_size (pe_identity_tag_imt e) < 2 ^ 24"
  shows "\<exists>sub ps pst' c' ev e'. build_batch E (mock_backend E) (in_memory_blob_carrier E) c (relayer_view_of vk e) pst [s] = (Inr (sub, ps), pst', c')
    \<and> publish_batch E P reg pid relayer sub = (Inr ev, put_petition pid e' reg)
    \<and> ledger_ok E e' (h pid @ [[record_of s]]) \<and> in_sync pst' e'"
proof -
  have ok: "ledger_ok E e (h pid)" using ledger_invariant [OF assms(1,2)] assms(4) by simp
  then obtain rs where rep: "replay E rs = Inr (pe_running_imt e, pe_identity_tag_imt e)" "unat (pr_leaf_count (pe_record e)) = length rs"
    "pr_running_root (pe_record e) = imt_root E (pe_running_imt e)" "pr_identity_tag_set_root (pe_record e) = imt_root E (pe_identity_tag_imt e)"
    using assms(5) by (auto simp: ledger_ok_def stepped_def lifecycle_loop_state Let_def split: petition_state.splits if_splits)
  note f = replay_facts [OF assms(2) rep(1)]
  have acc: "acceptable E (mock_backend E) (relayer_view_of vk e) s"
    by (rule sign_acceptable [OF assms(2,8,9)])
       (use assms(10,11) in \<open>auto simp: relayer_view_of_def Let_def intro: mock_completes(2) [OF assms(3)]\<close>)
  have "\<exists>sub ps pst' c'. build_batch E (mock_backend E) (in_memory_blob_carrier E) c (relayer_view_of vk e) pst [s] = (Inr (sub, ps), pst', c')"
    by (rule build_batch_succeeds [OF assms(2,3)])
       (use assms(6,12-15) acc f rep in \<open>simp_all add: in_sync_def relayer_view_of_def Let_def dup_free_def IMT_DEPTH_def\<close>)
  then obtain sub ps pst' c' where b: "build_batch E (mock_backend E) (in_memory_blob_carrier E) c (relayer_view_of vk e) pst [s] = (Inr (sub, ps), pst', c')"
    by blast
  have "\<exists>ev e'. publish_batch E P reg pid relayer sub = (Inr ev, put_petition pid e' reg) \<and> in_sync pst' e'
    \<and> ledger_ok E e' (h pid @ [bs_records sub]) \<and> mset (bs_records sub) = image_mset record_of (mset [s])"
    by (rule built_batch_published [where BC = "in_memory_blob_carrier E" and c = c and vk = vk and ps = ps and c' = c',
          OF assms(2-5) ledger_now [OF assms(1,2,4)] assms(6)])
       (use assms(7) b imb_publish_hash mock_completes(1) [OF assms(3)] in auto)
  with b show ?thesis by fastforce
qed

theorem signature_reaches_ledger_witness:
  "\<exists>sub ps pst' c' ev e'. build_batch sample (mock_backend sample) (in_memory_blob_carrier sample) imb_new (relayer_view_of (zeros 32) sample_entry)
       (rps_new sample) [sample_signed] = (Inr (sub, ps), pst', c')
    \<and> publish_batch sample sample_ports sample_reg1 sample_pid (zeros 20) sub = (Inr ev, put_petition sample_pid e' sample_reg1)
    \<and> ledger_ok sample e' [[record_of sample_signed]]"
proof -
  have e: "rg_petitions sample_reg1 sample_pid = Some sample_entry" by (simp add: sample_register)
  have st: "state_of (stepped (now sample_reg1) sample_entry) = SigningOpen" using sample_entry_open by (simp add: sample_register)
  have sync: "in_sync (rps_new sample) sample_entry" by (simp add: in_sync_def rps_new_def sample_entry_facts)
  have s: "ss_nullifier sample_signed = fr_to_be_bytes sample (nullifier_of sample sample_meta sample_secret sample_value)"
    "ss_identity_tag sample_signed = fr_to_be_bytes sample (hash_identity_tag sample sample_value (fr_from_be_bytes sample sample_pid))"
    "ss_class_tag sample_signed = 1"
    using sign_submission [OF sample_signer_ok sample_sign] by (auto simp: sample_meta_def sample_signer_def)
  have leaf: "record_leaf sample (record_of sample_signed) \<noteq> 0"
    using sample_leaf_nonzero s by (simp add: record_leaf_def record_of_def sample_field_laws)
  have tag: "fr_from_be_bytes sample (ss_identity_tag sample_signed) \<noteq> 0"
    using sample_tag_nonzero s by (simp add: sample_field_laws)
  have "\<exists>sub ps pst' c' ev e'. build_batch sample (mock_backend sample) (in_memory_blob_carrier sample) imb_new (relayer_view_of (zeros 32) sample_entry)
       (rps_new sample) [sample_signed] = (Inr (sub, ps), pst', c')
    \<and> publish_batch sample sample_ports sample_reg1 sample_pid (zeros 20) sub = (Inr ev, put_petition sample_pid e' sample_reg1)
    \<and> ledger_ok sample e' ((\<lambda>_. []) sample_pid @ [[record_of sample_signed]]) \<and> in_sync pst' e'"
    by (rule signature_reaches_ledger [OF sample_reachable1 sample_field_laws sample_digest_laws e st sync sample_ports_proof sample_signer_ok sample_sign])
       (use leaf tag in \<open>simp_all add: sample_meta_def sample_entry_facts imt_new_values imt_size_values [symmetric]\<close>)
  then show ?thesis by auto
qed

section \<open>Disputes\<close>

text \<open>C7: Published records are beyond dispute. Against the in-memory carrier, every dispute the registry upholds
  opens a position at or beyond the end of the disputed batch: class, tag and order of the records
  themselves were checked on publication.\<close>

theorem dispute_only_against_padding:
  assumes "ledger_reachable E P (reg, h)" and "field_laws E" and "rg_petitions reg (dp_petition_id d) = Some e"
    and "dispute E P reg d = (Inr ev, reg')"
    and "pt_blob P = in_memory_blob_carrier E" and "imb_ok E (rg_blob_carrier reg)"
    and "carrier_serves P (rg_blob_carrier reg) (pe_batches e) (h (dp_petition_id d))"
    and "\<forall>rs \<in> set (h (dp_petition_id d)). \<forall>r \<in> set rs. wf_record r"
  shows "unat (dp_batch_index d) < length (h (dp_petition_id d)) \<and>
    (\<exists>p \<in> set (disputed_positions d). length (h (dp_petition_id d) ! unat (dp_batch_index d)) \<le> p \<and> p < 1000)"
proof -
  let ?e = "stepped (now reg) e" and ?reg = "put_petition (dp_petition_id d) (stepped (now reg) e) reg"
  from dispute_known [OF assms(3,4)] obtain e' where
    disp: "dispute_batch E P ?reg (state_of ?e) d = Inr (ev, e')" by auto
  have pad: "unat (dp_batch_index d) < length (h (dp_petition_id d)) \<and>
    (\<exists>p \<in> set (disputed_positions d). length (h (dp_petition_id d) ! unat (dp_batch_index d)) \<le> p)"
    by (rule dispute_needs_padding [OF assms(2) ledger_now [OF assms(1-3)] _ disp assms(5)])
       (use assms(6-8) in simp_all)
  from dispute_batch_Inr [OF disp] have "check_violation E (pr_class_set (pe_record e)) d = Inr ()"
    by (metis Inr_inject petition_put stepped_simps(8))
  then have "\<forall>p \<in> set (disputed_positions d). p < 1000"
    by (cases "dp_violation_type d")
       (auto simp: check_violation_def disputed_positions_def and_then_eq_Inr ok_or_eq_Inr Let_def
        split: if_splits elim: derive_evidence_base)
  with pad show ?thesis by blast
qed

theorem dispute_only_against_padding_witness:
  "\<exists>p \<in> set (disputed_positions sample_dispute). 2 \<le> p \<and> p < 1000"
proof -
  from sample_disputed obtain ev where d: "dispute sample sample_ports (sample_reg3 300700) sample_dispute = (Inr ev, sample_reg5)" by blast
  have e: "rg_petitions (sample_reg3 300700) (dp_petition_id sample_dispute) = Some sample_entry2"
    by (simp add: sample_envelope(2) sample_known)
  have t: "(300000 :: u64) \<le> 300700" by simp
  from dispute_only_against_padding [OF sample_reachable3 [OF t] sample_field_laws e d] show ?thesis
    by (simp add: sample_envelope sample_history_def sample_records_wf sample_serves sample_reg3_facts sample_ports_blob)
qed

text \<open>C8: And padding can always be disputed. In the dispute window every active batch of an open petition whose class
  set does not contain 0 is repudiated, with everything after it, by the envelope the disputant builds for
  a position between the end of the batch and the end of the blob: the registry does not bound positions by
  the size of the batch.\<close>

theorem padding_dispute_upheld:
  assumes "ledger_reachable E P (reg, h)" and "field_laws E" and "rg_petitions reg pid = Some e"
    and "state_of (stepped (now reg) e) = DisputeWindow" and "unat (close_of e) + 100800 < 2 ^ 64"
    and "unat (now reg) < unat (close_of e) + 100800"
    and "pt_blob P = in_memory_blob_carrier E" and "imb_ok E (rg_blob_carrier reg)"
    and "carrier_serves P (rg_blob_carrier reg) (pe_batches e) (h pid)" and "\<forall>rs \<in> set (h pid). \<forall>r \<in> set rs. wf_record r"
    and "unat i < length (h pid)" and "length (h pid ! unat i) \<le> unat position" and "unat position < 1000"
    and "0 \<notin> set (pr_class_set (pe_record e))"
  shows "\<exists>d ev reg'. build_class_tag_out_of_set (in_memory_blob_carrier E) (rg_blob_carrier reg)
        \<lparr>dc_petition_id = pid, dc_batch_versioned_hash = br_batch_versioned_hash (pe_batches e ! unat i),
         dc_batch_index = i, dc_class_set = pr_class_set (pe_record e)\<rparr> position = Inr d
    \<and> dispute E P reg d = (Inr ev, reg')"
proof -
  let ?ctx = "\<lparr>dc_petition_id = pid, dc_batch_versioned_hash = br_batch_versioned_hash (pe_batches e ! unat i),
         dc_batch_index = i, dc_class_set = pr_class_set (pe_record e)\<rparr>"
  let ?e = "stepped (now reg) e" and ?reg = "put_petition pid (stepped (now reg) e) reg"
  have f: "imb_fetch_records (rg_blob_carrier reg) (dc_batch_versioned_hash ?ctx) = Inr (h pid ! unat i)"
    using assms(7,9,11) by (simp add: carrier_serves_def in_memory_blob_carrier_def)
  have wf: "\<forall>r \<in> set (h pid ! unat i). wf_record r" using assms(10) nth_mem [OF assms(11)] by blast
  have v: "re_class_tag (padded_record (h pid ! unat i) (unat position)) \<notin> set (dc_class_set ?ctx)"
    using assms(12,14) by (simp add: padded_record_def zero_record_def)
  from padding_envelope [OF assms(8) f wf assms(13) v] obtain d where
    d: "build_class_tag_out_of_set (in_memory_blob_carrier E) (rg_blob_carrier reg) ?ctx position = Inr d"
    "dp_petition_id d = pid" "dp_batch_index d = i"
    "\<forall>o1 \<in> set (dp_openings d). imb_verify E (rg_blob_carrier reg) (br_batch_versioned_hash (pe_batches e ! unat i)) o1 = Inr ()"
    "check_violation E (pr_class_set (pe_record e)) d = Inr ()" by auto
  have t: "checked_add (close_of e) RESOLUTION_DEADLINE_BLOCKS = Some (close_of e + RESOLUTION_DEADLINE_BLOCKS)"
    using assms(5) by (simp add: checked_add_def)
  have lt: "now reg < close_of e + RESOLUTION_DEADLINE_BLOCKS"
    using checked_add_SomeD [OF t] assms(6) by (simp add: word_less_nat_alt)
  have "\<exists>ev e'. dispute_batch E P ?reg (state_of ?e) d = Inr (ev, e')"
    by (rule dispute_batch_succeeds [where t = "close_of e + RESOLUTION_DEADLINE_BLOCKS", OF assms(2) ledger_now [OF assms(1-3)]])
       (use assms(4,7,9,11) d t lt in \<open>simp_all add: in_memory_blob_carrier_def\<close>)
  then show ?thesis using d(1,2) assms(3) by (auto simp: dispute_def)
qed

theorem padding_dispute_upheld_witness:
  "\<exists>d ev reg'. build_class_tag_out_of_set (in_memory_blob_carrier sample) sample_carrier
        \<lparr>dc_petition_id = sample_pid, dc_batch_versioned_hash = br_batch_versioned_hash (pe_batches sample_entry2 ! 0),
         dc_batch_index = 0, dc_class_set = [1, 2]\<rparr> 999 = Inr d
    \<and> dispute sample sample_ports (sample_reg3 300700) d = (Inr ev, reg')"
proof -
  have t: "(300000 :: u64) \<le> 300700" by simp
  have st: "state_of (stepped (now (sample_reg3 300700)) sample_entry2) = DisputeWindow" by (simp add: sample_reg3_facts sample_window)
  from padding_dispute_upheld [OF sample_reachable3 [OF t] sample_field_laws sample_known st, of 0 999]
  show ?thesis
    by (simp add: sample_envelope sample_history_def sample_records_wf sample_serves sample_reg3_facts sample_ports_blob sample_terms2)
qed

text \<open>What the disputant reads is what was published: in a blob of the in-memory carrier, reading a position
  yields the record there (an all-zero record beyond the end) with four openings the carrier verifies, and
  from these openings the registry derives the same record.\<close>

lemma disputant_evidence_agrees:
  assumes "imb_ok E c" and "imb_fetch_records c vh = Inr rs" and "\<forall>r \<in> set rs. wf_record r" and "unat position < 1000"
  shows "\<exists>os. read_record (in_memory_blob_carrier E) c vh position = Inr (padded_record rs (unat position), os)
    \<and> length os = 4 \<and> (\<forall>o1 \<in> set os. imb_verify E c vh o1 = Inr ())
    \<and> (\<forall>d. dp_openings d = sort_key ko_field_element_index os \<longrightarrow> derive_evidence d position = Some (padded_record rs (unat position)))"
proof -
  from read_record_ok [OF assms] obtain os where os: "read_record (in_memory_blob_carrier E) c vh position = Inr (padded_record rs (unat position), os)"
    "length os = 4" and k: "\<forall>k < 4. unat (ko_field_element_index (os ! k)) = 4 * unat position + k
      \<and> ko_claimed_value (os ! k) = record_fe (padded_bytes rs (unat position)) k \<and> imb_verify E c vh (os ! k) = Inr ()" by blast
  have v: "\<forall>o1 \<in> set os. imb_verify E c vh o1 = Inr ()" using k os(2) by (metis in_set_conv_nth)
  have "derive_evidence d position = Some (padded_record rs (unat position))" if "dp_openings d = sort_key ko_field_element_index os" for d
    by (rule read_openings_evidence [OF assms(3,4) os(2) _ that]) (use k in blast)
  with os v show ?thesis by blast
qed

section \<open>A failed build\<close>

text \<open>C37: A build that fails half-way leaves the relayer behind. When a batch passes the checks and its first leaf is new
  to the replica, a build that still fails, be it on a later insertion, on the leaf count, on the publication or on the
  proof, has appended at least the first of its sorted leaves to the replica. The root has then changed, or the two
  trees exhibit a collision of the node hash or of the leaf hash; and once it has changed, every later batch of an
  admissible size for the same view of the petition is refused as diverged.\<close>

theorem failed_build_diverges:
  assumes "field_laws E" and "imt_ok E (rps_running_imt pst)" and "imt_size (rps_running_imt pst) < 2 ^ 24"
    and "check_batch E PB view pst subs = Inr verified"
    and "record_leaf E (record_of (fst (hd verified))) \<notin> set (imt_values (rps_running_imt pst))"
    and "build_batch E PB BC c view pst subs = (Inl e, pst', c')"
  shows "(\<exists>n. 0 < n \<and> n \<le> length verified \<and> imt_values (rps_running_imt pst') =
        imt_values (rps_running_imt pst) @ map (\<lambda>(s, _). record_leaf E (record_of s)) (take n verified))
    \<and> (imt_root E (rps_running_imt pst') \<noteq> imt_root E (rps_running_imt pst)
       \<or> tree_collision E (leaf_hashes E (imt_leaves (rps_running_imt pst'))) (leaf_hashes E (imt_leaves (rps_running_imt pst))) 24
       \<or> leaf_hash E (imt_leaves (rps_running_imt pst') ! imt_size (rps_running_imt pst)) = leaf_hash E (empty_leaf E)
         \<and> imt_leaves (rps_running_imt pst') ! imt_size (rps_running_imt pst) \<noteq> empty_leaf E)
    \<and> (imt_root E (rps_running_imt pst') \<noteq> imt_root E (rps_running_imt pst) \<longrightarrow>
        (\<forall>c2 later. later \<noteq> [] \<and> length later \<le> 6 \<longrightarrow>
           build_batch E PB BC c2 view pst' later = (Inl StateDiverged, pst', c2)))"
proof (intro conjI)
  from failed_build_drifts [OF assms(1,2) _ assms(4-6)] assms(3) obtain n where
    n: "0 < n" "n \<le> length verified" "imt_ok E (rps_running_imt pst')" "imt_values (rps_running_imt pst') =
        imt_values (rps_running_imt pst) @ map (\<lambda>(s, _). record_leaf E (record_of s)) (take n verified)"
    by (auto simp: IMT_DEPTH_def)
  then show "\<exists>n. 0 < n \<and> n \<le> length verified \<and> imt_values (rps_running_imt pst') =
        imt_values (rps_running_imt pst) @ map (\<lambda>(s, _). record_leaf E (record_of s)) (take n verified)" by blast
  have "map (\<lambda>(s, _). record_leaf E (record_of s)) (take n verified) \<noteq> []" using n(1,2) by auto
  from grown_root [OF assms(1,2) n(3,4) this]
  show "imt_root E (rps_running_imt pst') \<noteq> imt_root E (rps_running_imt pst)
       \<or> tree_collision E (leaf_hashes E (imt_leaves (rps_running_imt pst'))) (leaf_hashes E (imt_leaves (rps_running_imt pst))) 24
       \<or> leaf_hash E (imt_leaves (rps_running_imt pst') ! imt_size (rps_running_imt pst)) = leaf_hash E (empty_leaf E)
         \<and> imt_leaves (rps_running_imt pst') ! imt_size (rps_running_imt pst) \<noteq> empty_leaf E" by (auto simp: IMT_DEPTH_def)
  have "imt_root E (rps_running_imt pst) = pv_running_root view" using assms(4) by (simp add: check_batch_Inr)
  then show "imt_root E (rps_running_imt pst') \<noteq> imt_root E (rps_running_imt pst) \<longrightarrow>
        (\<forall>c2 later. later \<noteq> [] \<and> length later \<le> 6 \<longrightarrow>
           build_batch E PB BC c2 view pst' later = (Inl StateDiverged, pst', c2))" by (simp add: diverged_build)
qed

theorem failed_build_diverges_witness:
  "\<exists>pst. build_batch sample (mock_backend sample) (in_memory_blob_carrier sample) imb_new replica_view sample_replica [repeating_sub]
      = (Inl (RelImt DuplicateInsertion), pst, imb_new)
    \<and> imt_values (rps_running_imt pst) = [0, 70, 76]
    \<and> imt_root sample (rps_running_imt pst) \<noteq> imt_root sample (rps_running_imt sample_replica)
    \<and> build_batch sample (mock_backend sample) (in_memory_blob_carrier sample) imb_new replica_view pst [sample_sub 6 2]
      = (Inl StateDiverged, pst, imb_new)"
proof -
  let ?build = "build_batch sample (mock_backend sample) (in_memory_blob_carrier sample)"
  note rep = sample_replica_trees and s = repeating_sub_facts
  have vals: "imt_values (rps_running_imt sample_replica) = [0, 70]" by (simp add: imt_values_def rep(3))
  have size: "imt_size (rps_running_imt sample_replica) = 2" "imt_size (rps_identity_tag_imt sample_replica) = 2"
    using arg_cong [OF rep(4), of length] by (simp_all add: imt_size_def rep(3) imt_values_def)
  have roots: "imt_root sample (rps_running_imt sample_replica) = pv_running_root replica_view"
      "imt_root sample (rps_identity_tag_imt sample_replica) = pv_identity_tag_set_root replica_view" by (simp_all add: replica_view_def)
  have chk: "check_batch sample (mock_backend sample) replica_view sample_replica [repeating_sub] = Inr [verified_of sample repeating_sub]"
    using roots s(1) by (simp add: check_batch_Inr dup_free_def)
  have new: "record_leaf sample (record_of repeating_sub) \<notin> set (imt_values (rps_running_imt sample_replica))"
    by (simp add: vals s(2))
  have small: "imt_size (rps_running_imt sample_replica) < 2 ^ IMT_DEPTH" "imt_size (rps_identity_tag_imt sample_replica) < 2 ^ IMT_DEPTH"
    using size by (simp_all add: IMT_DEPTH_def)
  have tag: "fr_from_be_bytes sample (ss_identity_tag repeating_sub) \<in> set (imt_values (rps_identity_tag_imt sample_replica))"
    by (simp add: rep(4) s(3))
  obtain pst where b: "?build imb_new replica_view sample_replica [repeating_sub] = (Inl (RelImt DuplicateInsertion), pst, imb_new)"
    using repeated_tag_fails [OF sample_field_laws rep(1,2) roots s(1) new small(1) tag small(2), of "in_memory_blob_carrier sample" imb_new] by blast
  note div = failed_build_diverges [OF sample_field_laws rep(1) _ chk _ b]
  have v: "imt_values (rps_running_imt pst) = [0, 70, 76]"
    using div size new s(2) vals by (auto simp: verified_of_def)
  have l: "fr_from_be_bytes sample (sub_leaf sample repeating_sub) = 76"
    by (simp add: sub_leaf_value [OF sample_field_laws] s(2))
  obtain w t where t: "imt_insert sample (rps_running_imt sample_replica) (sub_leaf sample repeating_sub) = Inr (w, t)"
    using imt_insert_absent [OF sample_field_laws rep(1), of "sub_leaf sample repeating_sub"] size l vals by (auto simp: IMT_DEPTH_def)
  have ok': "imt_ok sample (rps_running_imt pst)"
    using failed_build_drifts [OF sample_field_laws rep(1) _ chk _ b] size new by (auto simp: verified_of_def IMT_DEPTH_def)
  have "rps_running_imt pst = t"
    using build_batch_trees [OF chk b] t by (auto simp: insert_positions_step split: sum.splits)
  moreover have "find_low_leaf_index sample (rps_running_imt sample_replica) (fr_from_be_bytes sample (sub_leaf sample repeating_sub)) = Inr 1"
    by (simp add: l find_low_leaf_index_def rep(3) enumerated_def low_scan_def is_low_def fr_less_sample)
  ultimately have leaves: "imt_leaves (rps_running_imt pst) = [\<lparr>lf_value = 0, lf_next_index = 1, lf_next_value = 70\<rparr>,
      \<lparr>lf_value = 70, lf_next_index = 2, lf_next_value = 76\<rparr>, \<lparr>lf_value = 76, lf_next_index = 0, lf_next_value = 0\<rparr>]"
    using imt_insert_leaves [OF t] l by (simp add: rep(3) imt_size_def)
  have "imt_root sample (rps_running_imt pst) \<noteq> imt_root sample (rps_running_imt sample_replica)"
    by (rule sample_roots_differ [OF ok' rep(1)]) (simp_all add: leaves rep(3) leaf_hashes_def sample_node_2 sample_leaf_hash sample_empty)
  with div size new b v show ?thesis by (auto simp: verified_of_def)
qed

end
